(* ===== verification/Prelude.thy ===== *)
theory Prelude
  imports Complex_Main "HOL-Library.Sublist"
begin

text \<open>
  Shared vocabulary of the development: Python exceptions as values, effectful code as
  functions from a state to a result and a new state (so an exception keeps the effects made
  before it), the JSON values that rows and messages carry, and the string operations of the
  standard library that the modelled code calls (\<open>split\<close>, \<open>startswith\<close>, \<open>replace\<close>,
  \<open>int\<close>, \<open>str\<close>), with the lemmas the components share.
\<close>

named_theorems acts \<open>unfolding of effectful code\<close>
named_theorems keeps_intro \<open>introduction rules for preserved predicates\<close>

section \<open>Exceptions and effects\<close>

datatype exn =
    ValueError string
  | RuntimeError string
  | TypeError string
  | DoesNotExist
  | IntegrityError string
  | ServiceError string
  | ImportError string
  | HandlerError string
  | ZeroDivisionError
  | AttributeError string
  | PatternError string

text \<open>What \<open>str(e)\<close> shows of an exception.\<close>

fun exn_str :: "exn \<Rightarrow> string" where
  "exn_str (ValueError m) = m"
| "exn_str (RuntimeError m) = m"
| "exn_str (TypeError m) = m"
| "exn_str DoesNotExist = ''matching query does not exist.''"
| "exn_str (IntegrityError m) = m"
| "exn_str (ServiceError m) = m"
| "exn_str (ImportError m) = m"
| "exn_str (HandlerError m) = m"
| "exn_str ZeroDivisionError = ''integer modulo by zero''"
| "exn_str (AttributeError m) = m"
| "exn_str (PatternError m) = m"

type_synonym 'a res = "exn + 'a"
type_synonym ('s, 'a) act = "'s \<Rightarrow> 'a res \<times> 's"

text \<open>Code that may raise and has no effects: the rest is skipped after an exception.\<close>

definition andthen :: "'a res \<Rightarrow> ('a \<Rightarrow> 'b res) \<Rightarrow> 'b res" where
  "andthen r f = (case r of Inl e \<Rightarrow> Inl e | Inr x \<Rightarrow> f x)"

lemma andthen_simps [simp]: "andthen (Inl e) f = Inl e" "andthen (Inr x) f = f x"
  by (simp_all add: andthen_def)

lemma andthen_ok: "(andthen r f = Inr y) \<longleftrightarrow> (\<exists>x. r = Inr x \<and> f x = Inr y)"
  by (cases r) auto

definition ret :: "'a \<Rightarrow> ('s, 'a) act" where
  "ret x w = (Inr x, w)"

definition throw :: "exn \<Rightarrow> ('s, 'a) act" where
  "throw e w = (Inl e, w)"

definition bind :: "('s, 'a) act \<Rightarrow> ('a \<Rightarrow> ('s, 'b) act) \<Rightarrow> ('s, 'b) act" where
  "bind m f w = (case m w of (Inl e, w') \<Rightarrow> (Inl e, w') | (Inr x, w') \<Rightarrow> f x w')"

definition seqs :: "('s, 'a) act \<Rightarrow> ('s, 'b) act \<Rightarrow> ('s, 'b) act" where
  "seqs m n = bind m (\<lambda>_. n)"

text \<open>\<open>try: m except Exception as e: h e\<close>\<close>

definition catch :: "('s, 'a) act \<Rightarrow> (exn \<Rightarrow> ('s, 'a) act) \<Rightarrow> ('s, 'a) act" where
  "catch m h w = (case m w of (Inl e, w') \<Rightarrow> h e w' | (Inr x, w') \<Rightarrow> (Inr x, w'))"

text \<open>\<open>try: m except Exception: pass\<close>, for code whose result is not used\<close>

definition attempt :: "('s, 'a) act \<Rightarrow> ('s, unit) act" where
  "attempt m = catch (bind m (\<lambda>_. ret ())) (\<lambda>_. ret ())"

text \<open>\<open>for x in xs: f x\<close>; an exception of one turn leaves the loop.\<close>

fun for_each :: "'x list \<Rightarrow> ('x \<Rightarrow> ('s, unit) act) \<Rightarrow> ('s, unit) act" where
  "for_each [] f = ret ()"
| "for_each (x # xs) f = seqs (f x) (for_each xs f)"

lemma bind_ret [simp]: "bind (ret x) f = f x"
  by (simp add: bind_def ret_def fun_eq_iff)

lemma bind_ret_right [simp]: "bind m ret = m"
  by (auto simp: bind_def ret_def fun_eq_iff split: prod.splits sum.splits)

lemma bind_assoc: "bind (bind m f) g = bind m (\<lambda>x. bind (f x) g)"
  by (auto simp: bind_def fun_eq_iff split: prod.splits sum.splits)

lemma bind_throw [simp]: "bind (throw e) f = throw e"
  by (simp add: bind_def throw_def fun_eq_iff)

lemma catch_ret [simp]: "catch (ret x) h = ret x"
  by (simp add: catch_def ret_def fun_eq_iff)

lemma catch_throw [simp]: "catch (throw e) h = h e"
  by (simp add: catch_def throw_def fun_eq_iff)

lemma seqs_ret [simp]: "seqs (ret x) m = m"
  by (simp add: seqs_def)

lemma attempt_never_raises: "fst (attempt m w) = Inr ()"
  by (auto simp: attempt_def catch_def bind_def ret_def split: prod.splits sum.splits)

lemma attempt_result: "attempt m w = (r, w') \<Longrightarrow> r = Inr ()"
  using attempt_never_raises [of m w] by simp

lemma snd_bind_ret [simp]: "snd (bind m (\<lambda>x. ret (f x)) w) = snd (m w)"
  by (simp add: bind_def ret_def split: prod.split sum.split)

lemma seqs_attempt: "seqs (attempt m) n w = n (snd (attempt m w))"
  using attempt_never_raises [of m w] by (cases "attempt m w") (simp add: seqs_def bind_def)

lemmas act_defs = ret_def throw_def bind_def seqs_def catch_def attempt_def

subsection \<open>Predicates and relations that effectful code keeps\<close>

definition keeps :: "('s \<Rightarrow> bool) \<Rightarrow> ('s, 'a) act \<Rightarrow> bool" where
  "keeps P m \<longleftrightarrow> (\<forall>w. P w \<longrightarrow> P (snd (m w)))"

lemma keepsD: "keeps P m \<Longrightarrow> P w \<Longrightarrow> m w = (r, w') \<Longrightarrow> P w'"
  by (metis keeps_def snd_conv)

lemma keeps_snd: "keeps P m \<Longrightarrow> P w \<Longrightarrow> P (snd (m w))"
  by (simp add: keeps_def)

lemma keeps_ret [keeps_intro]: "keeps P (ret x)"
  by (simp add: keeps_def ret_def)

lemma keeps_throw [keeps_intro]: "keeps P (throw e)"
  by (simp add: keeps_def throw_def)

lemma keeps_bind [keeps_intro]:
  "keeps P m \<Longrightarrow> (\<And>x. keeps P (f x)) \<Longrightarrow> keeps P (bind m f)"
  by (auto simp: keeps_def bind_def split: prod.splits sum.splits)

lemma keeps_seqs [keeps_intro]: "keeps P m \<Longrightarrow> keeps P n \<Longrightarrow> keeps P (seqs m n)"
  by (simp add: seqs_def keeps_bind)

lemma keeps_catch [keeps_intro]:
  "keeps P m \<Longrightarrow> (\<And>e. keeps P (h e)) \<Longrightarrow> keeps P (catch m h)"
  by (auto simp: keeps_def catch_def split: prod.splits sum.splits)

lemma keeps_attempt [keeps_intro]: "keeps P m \<Longrightarrow> keeps P (attempt m)"
  unfolding attempt_def by (intro keeps_intro)

lemma keeps_for_each [keeps_intro]: "(\<And>x. x \<in> set xs \<Longrightarrow> keeps P (f x)) \<Longrightarrow> keeps P (for_each xs f)"
  by (induction xs) (auto intro: keeps_intro)

lemma keeps_if [keeps_intro]:
  "(b \<Longrightarrow> keeps P m) \<Longrightarrow> (\<not> b \<Longrightarrow> keeps P n) \<Longrightarrow> keeps P (if b then m else n)"
  by simp

lemma keeps_case_option [keeps_intro]:
  "(x = None \<Longrightarrow> keeps P m) \<Longrightarrow> (\<And>y. x = Some y \<Longrightarrow> keeps P (f y)) \<Longrightarrow>
   keeps P (case x of None \<Rightarrow> m | Some y \<Rightarrow> f y)"
  by (cases x) auto

lemma keeps_case_prod [keeps_intro]:
  "(\<And>a b. x = (a, b) \<Longrightarrow> keeps P (f a b)) \<Longrightarrow> keeps P (case x of (a, b) \<Rightarrow> f a b)"
  by (cases x) auto

lemma keeps_case_list [keeps_intro]:
  "(xs = [] \<Longrightarrow> keeps P m) \<Longrightarrow> (\<And>y ys. xs = y # ys \<Longrightarrow> keeps P (f y ys)) \<Longrightarrow>
   keeps P (case xs of [] \<Rightarrow> m | y # ys \<Rightarrow> f y ys)"
  by (cases xs) auto

subsection \<open>Triples\<close>

text \<open>From a state with \<open>P\<close>: a result satisfies \<open>Q\<close>, an exception leaves a state with \<open>E\<close>.\<close>

definition triple :: "('s \<Rightarrow> bool) \<Rightarrow> ('s, 'a) act \<Rightarrow> ('a \<Rightarrow> 's \<Rightarrow> bool) \<Rightarrow> ('s \<Rightarrow> bool) \<Rightarrow> bool" where
  "triple P m Q E \<longleftrightarrow> (\<forall>w. P w \<longrightarrow> (case m w of (Inl e, w') \<Rightarrow> E w' | (Inr x, w') \<Rightarrow> Q x w'))"

named_theorems triple_intro \<open>rules for triples\<close>

lemma triple_ret [triple_intro]: "(\<And>w. P w \<Longrightarrow> Q x w) \<Longrightarrow> triple P (ret x) Q E"
  by (simp add: triple_def ret_def)

lemma triple_throw [triple_intro]: "(\<And>w. P w \<Longrightarrow> E w) \<Longrightarrow> triple P (throw e) Q E"
  by (simp add: triple_def throw_def)

lemma triple_bind:
  "triple P m R E \<Longrightarrow> (\<And>x. triple (R x) (f x) Q E) \<Longrightarrow> triple P (bind m f) Q E"
  by (fastforce simp: triple_def bind_def split: prod.splits sum.splits)

lemma triple_seqs:
  "triple P m (\<lambda>_. R) E \<Longrightarrow> triple R n Q E \<Longrightarrow> triple P (seqs m n) Q E"
  by (fastforce simp: triple_def seqs_def bind_def split: prod.splits sum.splits)

lemma triple_catch:
  "triple P m Q R \<Longrightarrow> (\<And>e. triple R (h e) Q E) \<Longrightarrow> triple P (catch m h) Q E"
  by (fastforce simp: triple_def catch_def split: prod.splits sum.splits)

lemma triple_attempt:
  "triple P m (\<lambda>_. Q) Q \<Longrightarrow> triple P (attempt m) (\<lambda>_. Q) E"
  by (fastforce simp: triple_def attempt_def catch_def bind_def ret_def split: prod.splits sum.splits)

lemma triple_if [triple_intro]:
  "(b \<Longrightarrow> triple P m Q E) \<Longrightarrow> (\<not> b \<Longrightarrow> triple P n Q E) \<Longrightarrow> triple P (if b then m else n) Q E"
  by simp

lemma triple_pre: "triple P m Q E \<Longrightarrow> (\<And>w. P' w \<Longrightarrow> P w) \<Longrightarrow> triple P' m Q E"
  by (simp add: triple_def)

lemma triple_post:
  "triple P m Q E \<Longrightarrow> (\<And>x w. Q x w \<Longrightarrow> Q' x w) \<Longrightarrow> (\<And>w. E w \<Longrightarrow> E' w) \<Longrightarrow> triple P m Q' E'"
  by (fastforce simp: triple_def split: prod.splits sum.splits)

lemma triple_same_iff_keeps: "triple P m (\<lambda>_. P) P \<longleftrightarrow> keeps P m"
proof -
  have "(case m w of (Inl e, w') \<Rightarrow> P w' | (Inr x, w') \<Rightarrow> P w') \<longleftrightarrow> P (snd (m w))" for w
    by (cases "m w"; cases "fst (m w)") auto
  then show ?thesis by (simp add: triple_def keeps_def)
qed

lemma triple_keeps: "triple P m (\<lambda>_. P) P \<Longrightarrow> keeps P m"
  by (simp add: triple_same_iff_keeps)

lemma keeps_triple: "keeps P m \<Longrightarrow> triple P m (\<lambda>_. P) P"
  by (simp add: triple_same_iff_keeps)

section \<open>JSON values\<close>

text \<open>A float carries its \<open>repr\<close>.\<close>

datatype json =
    JNull
  | JBool bool
  | JInt int
  | JFloat string
  | JStr string
  | JList "json list"
  | JObj "(string \<times> json) list"

text \<open>Python truth of a JSON value.\<close>

fun truthy :: "json \<Rightarrow> bool" where
  "truthy JNull = False"
| "truthy (JBool b) = b"
| "truthy (JInt i) = (i \<noteq> 0)"
| "truthy (JFloat s) = (s \<notin> {''0.0'', ''-0.0''})"
| "truthy (JStr s) = (s \<noteq> [])"
| "truthy (JList xs) = (xs \<noteq> [])"
| "truthy (JObj m) = (m \<noteq> [])"

fun jdict_get :: "json \<Rightarrow> string \<Rightarrow> json option" where
  "jdict_get (JObj m) k = map_of m k"
| "jdict_get _ k = None"

end
