(* ===== verification/Py_Strings.thy ===== *)
theory Py_Strings
  imports Prelude
begin

text \<open>
  The string methods of Python's standard library that the modelled code calls, on byte
  strings: splitting and joining at one character, prefix and suffix tests, replacement of a
  character, trimming, lower case, and the conversions between integers and decimal text.
\<close>

section \<open>Splitting and joining\<close>

text \<open>\<open>s.split(c)\<close>\<close>

fun split_on :: "char \<Rightarrow> string \<Rightarrow> string list" where
  "split_on c [] = [[]]"
| "split_on c (x # xs) =
     (if x = c then [] # split_on c xs
      else (case split_on c xs of [] \<Rightarrow> [[x]] | p # ps \<Rightarrow> (x # p) # ps))"

text \<open>\<open>c.join(parts)\<close>\<close>

fun join_with :: "string \<Rightarrow> string list \<Rightarrow> string" where
  "join_with c [] = []"
| "join_with c [p] = p"
| "join_with c (p # q # ps) = p @ c @ join_with c (q # ps)"

text \<open>\<open>s.split(c, 1)\<close> when \<open>c\<close> occurs in \<open>s\<close>: what is before and after the first one\<close>

definition split_first :: "char \<Rightarrow> string \<Rightarrow> (string \<times> string) option" where
  "split_first c s =
     (if c \<in> set s then Some (takeWhile (\<lambda>x. x \<noteq> c) s, tl (dropWhile (\<lambda>x. x \<noteq> c) s)) else None)"

text \<open>\<open>s.rsplit(c, 1)\<close> when \<open>c\<close> occurs in \<open>s\<close>\<close>

definition split_last :: "char \<Rightarrow> string \<Rightarrow> (string \<times> string) option" where
  "split_last c s =
     (case split_first c (rev s) of None \<Rightarrow> None | Some (b, a) \<Rightarrow> Some (rev a, rev b))"

lemma split_on_not_Nil [simp]: "split_on c s \<noteq> []"
  by (induction s) (auto split: list.splits)

lemma split_on_no_sep: "c \<notin> set s \<Longrightarrow> split_on c s = [s]"
  by (induction s) auto

lemma split_on_append_sep: "split_on c (s @ c # t) = split_on c s @ split_on c t"
proof (induction s)
  case Nil
  then show ?case by simp
next
  case (Cons x s)
  then show ?case by (cases "split_on c s") auto
qed

lemma split_on_parts_no_sep: "p \<in> set (split_on c s) \<Longrightarrow> c \<notin> set p"
  by (induction s arbitrary: p) (auto split: list.splits if_splits)

lemma join_split: "join_with [c] (split_on c s) = s"
proof (induction s)
  case Nil
  then show ?case by simp
next
  case (Cons x s)
  then show ?case
    by (cases "split_on c s"; cases "tl (split_on c s)") auto
qed

lemma split_join:
  "ps \<noteq> [] \<Longrightarrow> \<forall>p \<in> set ps. c \<notin> set p \<Longrightarrow> split_on c (join_with [c] ps) = ps"
  by (induction "[c]" ps rule: join_with.induct) (auto simp: split_on_no_sep split_on_append_sep)

lemma last_split_on: "c \<notin> set t \<Longrightarrow> last (split_on c (s @ c # t)) = t"
  by (simp add: split_on_append_sep split_on_no_sep)

section \<open>Tests and replacement\<close>

definition starts_with :: "string \<Rightarrow> string \<Rightarrow> bool" where
  "starts_with s p \<longleftrightarrow> take (length p) s = p"

definition ends_with :: "string \<Rightarrow> string \<Rightarrow> bool" where
  "ends_with s p \<longleftrightarrow> length p \<le> length s \<and> drop (length s - length p) s = p"

text \<open>\<open>p in s\<close> on strings\<close>

fun contains :: "string \<Rightarrow> string \<Rightarrow> bool" where
  "contains [] p = (p = [])"
| "contains (x # s) p = (starts_with (x # s) p \<or> contains s p)"

definition replace_char :: "char \<Rightarrow> char \<Rightarrow> string \<Rightarrow> string" where
  "replace_char a b s = map (\<lambda>x. if x = a then b else x) s"

lemma starts_with_append [simp]: "starts_with (p @ s) p"
  by (simp add: starts_with_def)

lemma ends_with_append [simp]: "ends_with (s @ p) p"
  by (simp add: ends_with_def)

lemma starts_with_iff: "starts_with s p \<longleftrightarrow> (\<exists>t. s = p @ t)"
  by (metis append_take_drop_id starts_with_append starts_with_def)

lemma ends_with_iff: "ends_with s p \<longleftrightarrow> (\<exists>t. s = t @ p)"
  by (metis append_take_drop_id ends_with_append ends_with_def)

lemma contains_iff: "contains s p \<longleftrightarrow> (\<exists>a b. s = a @ p @ b)"
proof (induction s)
  case Nil
  then show ?case by simp
next
  case (Cons x s)
  then show ?case
    by (auto simp: starts_with_iff append_eq_Cons_conv Cons_eq_append_conv)
qed

lemma replace_char_absent: "a \<noteq> b \<Longrightarrow> a \<notin> set (replace_char a b s)"
  by (auto simp: replace_char_def)

lemma replace_char_id: "a \<notin> set s \<Longrightarrow> replace_char a b s = s"
  by (induction s) (auto simp: replace_char_def)

lemma length_replace_char [simp]: "length (replace_char a b s) = length s"
  by (simp add: replace_char_def)

section \<open>Characters\<close>

definition is_digit :: "char \<Rightarrow> bool" where
  "is_digit c \<longleftrightarrow> 48 \<le> (of_char c :: nat) \<and> (of_char c :: nat) \<le> 57"

definition is_upper :: "char \<Rightarrow> bool" where
  "is_upper c \<longleftrightarrow> 65 \<le> (of_char c :: nat) \<and> (of_char c :: nat) \<le> 90"

definition is_lower :: "char \<Rightarrow> bool" where
  "is_lower c \<longleftrightarrow> 97 \<le> (of_char c :: nat) \<and> (of_char c :: nat) \<le> 122"

definition is_space :: "char \<Rightarrow> bool" where
  "is_space c \<longleftrightarrow> (of_char c :: nat) \<in> {9, 10, 11, 12, 13, 28, 29, 30, 31, 32}"

definition lower_char :: "char \<Rightarrow> char" where
  "lower_char c = (if is_upper c then char_of ((of_char c :: nat) + 32) else c)"

definition lower :: "string \<Rightarrow> string" where
  "lower s = map lower_char s"

definition upper :: "string \<Rightarrow> string" where
  "upper s = map (\<lambda>c. if is_lower c then char_of ((of_char c :: nat) - 32) else c) s"

definition strip :: "string \<Rightarrow> string" where
  "strip s = rev (dropWhile is_space (rev (dropWhile is_space s)))"

lemma strip_no_space: "\<forall>c \<in> set s. \<not> is_space c \<Longrightarrow> strip s = s"
proof -
  assume a: "\<forall>c \<in> set s. \<not> is_space c"
  then have "dropWhile is_space s = s" by (cases s) auto
  moreover from a have "dropWhile is_space (rev s) = rev s" by (cases "rev s") (auto simp: rev_swap)
  ultimately show ?thesis by (simp add: strip_def)
qed

section \<open>Integers as text\<close>

definition digit_char :: "nat \<Rightarrow> char" where
  "digit_char d = char_of (48 + d)"

definition digit_val :: "char \<Rightarrow> nat" where
  "digit_val c = of_char c - 48"

fun show_nat :: "nat \<Rightarrow> string" where
  "show_nat n = (if n < 10 then [digit_char n] else show_nat (n div 10) @ [digit_char (n mod 10)])"

declare show_nat.simps [simp del]

definition show_int :: "int \<Rightarrow> string" where
  "show_int i = (if i < 0 then CHR ''-'' # show_nat (nat (- i)) else show_nat (nat i))"

definition read_digits :: "string \<Rightarrow> nat" where
  "read_digits s = foldl (\<lambda>n c. 10 * n + digit_val c) 0 s"

text \<open>
  \<open>int(s)\<close>: surrounding white space, an optional sign, then digits with single underscores
  between them. \<open>None\<close> is the \<open>ValueError\<close>.
\<close>

fun digits_body :: "string \<Rightarrow> string option" where
  "digits_body [] = None"
| "digits_body [c] = (if is_digit c then Some [c] else None)"
| "digits_body (c # d # s) =
     (if \<not> is_digit c then None
      else if d = CHR ''_'' then map_option (Cons c) (digits_body s)
      else map_option (Cons c) (digits_body (d # s)))"

definition py_int :: "string \<Rightarrow> int option" where
  "py_int s0 =
     (let s = strip s0 in
      case s of
        [] \<Rightarrow> None
      | c # t \<Rightarrow>
          if c = CHR ''-'' then map_option (\<lambda>d. - int (read_digits d)) (digits_body t)
          else if c = CHR ''+'' then map_option (\<lambda>d. int (read_digits d)) (digits_body t)
          else map_option (\<lambda>d. int (read_digits d)) (digits_body s))"

lemma of_char_digit: "d < 10 \<Longrightarrow> (of_char (digit_char d) :: nat) = 48 + d"
  by (simp add: digit_char_def)

lemma is_digit_digit_char [simp]: "d < 10 \<Longrightarrow> is_digit (digit_char d)"
  by (simp add: is_digit_def of_char_digit)

lemma digit_val_digit_char [simp]: "d < 10 \<Longrightarrow> digit_val (digit_char d) = d"
  by (simp add: digit_val_def of_char_digit)

lemma show_nat_not_Nil [simp]: "show_nat n \<noteq> []"
  by (subst show_nat.simps) simp

lemma show_nat_digits: "c \<in> set (show_nat n) \<Longrightarrow> is_digit c"
proof (induction n rule: show_nat.induct)
  case (1 n)
  show ?case
  proof (cases "n < 10")
    case True
    with "1.prems" show ?thesis by (simp add: show_nat.simps [of n])
  next
    case False
    with "1.prems" "1.IH" show ?thesis by (auto simp: show_nat.simps [of n])
  qed
qed

lemma read_digits_show_nat: "read_digits (show_nat n) = n"
proof (induction n rule: show_nat.induct)
  case (1 n)
  show ?case
  proof (cases "n < 10")
    case True
    then show ?thesis by (simp add: show_nat.simps [of n] read_digits_def)
  next
    case False
    with "1.IH" have "read_digits (show_nat (n div 10)) = n div 10" by simp
    with False show ?thesis by (simp add: show_nat.simps [of n] read_digits_def)
  qed
qed

lemma show_nat_inj: "show_nat m = show_nat n \<longleftrightarrow> m = n"
  by (metis read_digits_show_nat)

lemma is_digit_not: "is_digit c \<Longrightarrow> c \<noteq> CHR ''-'' \<and> c \<noteq> CHR ''+'' \<and> c \<noteq> CHR ''_'' \<and> c \<noteq> CHR '':'' \<and> \<not> is_space c"
  by (auto simp: is_digit_def is_space_def)

lemma digits_body_digits: "s \<noteq> [] \<Longrightarrow> \<forall>c \<in> set s. is_digit c \<Longrightarrow> digits_body s = Some s"
  by (induction s rule: digits_body.induct) (auto dest: is_digit_not)

lemma show_int_no_colon: "CHR '':'' \<notin> set (show_int i)"
  using show_nat_digits [of "CHR '':''"] is_digit_not [of "CHR '':''"] by (auto simp: show_int_def)

lemma show_int_inj: "show_int i = show_int j \<longleftrightarrow> i = j"
proof -
  have d: "CHR ''-'' \<notin> set (show_nat n)" for n
    using show_nat_digits is_digit_not by blast
  show ?thesis
    by (auto simp: show_int_def show_nat_inj split: if_splits)
      (metis d list.set_intros(1))+
qed

text \<open>\<open>int(str(i)) == i\<close>\<close>

lemma py_int_show_int: "py_int (show_int i) = Some i"
proof -
  have dig: "\<forall>c \<in> set (show_nat n). is_digit c" for n
    using show_nat_digits by blast
  then have body: "digits_body (show_nat n) = Some (show_nat n)" for n
    by (simp add: digits_body_digits)
  have nosp: "\<forall>c \<in> set (show_int i). \<not> is_space c"
    using dig is_digit_not by (auto simp: show_int_def is_space_def)
  then have st: "strip (show_int i) = show_int i" by (rule strip_no_space)
  show ?thesis
  proof (cases "i < 0")
    case True
    with st body show ?thesis
      by (simp add: py_int_def Let_def show_int_def read_digits_show_nat)
  next
    case False
    then have e: "show_int i = show_nat (nat i)" by (simp add: show_int_def)
    obtain c t where ct: "show_nat (nat i) = c # t" by (cases "show_nat (nat i)") auto
    with dig have "is_digit c" by (metis list.set_intros(1))
    then have "c \<noteq> CHR ''-''" "c \<noteq> CHR ''+''" by (auto dest: is_digit_not)
    with False st body show ?thesis
      by (simp add: py_int_def Let_def e ct) (metis ct int_nat_eq not_less read_digits_show_nat)
  qed
qed

section \<open>\<open>json.dumps\<close>\<close>

text \<open>
  The default encoder: \<open>', '\<close> and \<open>': '\<close> as separators, quotes, backslashes and control
  characters escaped. A byte outside ASCII takes the six characters of a \<open>\u\<close> escape.
\<close>

definition hex_digit :: "nat \<Rightarrow> char" where
  "hex_digit d = (if d < 10 then digit_char d else char_of (87 + d))"

definition json_char :: "char \<Rightarrow> string" where
  "json_char c =
     (let n = (of_char c :: nat) in
      if n = 34 then [char_of (92::nat), c]
      else if n = 92 then [c, c]
      else if n = 10 then [char_of (92::nat), CHR ''n'']
      else if n = 13 then [char_of (92::nat), CHR ''r'']
      else if n = 9 then [char_of (92::nat), CHR ''t'']
      else if n = 12 then [char_of (92::nat), CHR ''f'']
      else if n = 8 then [char_of (92::nat), CHR ''b'']
      else if n < 32 \<or> 126 < n
        then [char_of (92::nat), CHR ''u'', CHR ''0'', CHR ''0'', hex_digit (n div 16), hex_digit (n mod 16)]
      else [c])"

definition json_string :: "string \<Rightarrow> string" where
  "json_string s = [char_of (34::nat)] @ concat (map json_char s) @ [char_of (34::nat)]"

fun json_dumps :: "json \<Rightarrow> string" where
  "json_dumps JNull = ''null''"
| "json_dumps (JBool b) = (if b then ''true'' else ''false'')"
| "json_dumps (JInt i) = show_int i"
| "json_dumps (JFloat r) = r"
| "json_dumps (JStr s) = json_string s"
| "json_dumps (JList xs) = ''['' @ join_with '', '' (map json_dumps xs) @ '']''"
| "json_dumps (JObj m) =
     ''{'' @ join_with '', '' (map (\<lambda>(k, v). json_string k @ '': '' @ json_dumps v) m) @ ''}''"

section \<open>\<open>int\<close> of a JSON value\<close>

text \<open>
  \<open>int(value)\<close> of a JSON value: a float is cut at its point, \<open>repr\<close> writes it with or without an
  exponent; an infinite one raises an error that is neither a \<open>TypeError\<close> nor a \<open>ValueError\<close>.
\<close>

definition trunc_repr :: "string \<Rightarrow> int" where
  "trunc_repr s =
     (let neg = starts_with s ''-''; m = (if neg then drop 1 s else s);
          (mant, x) = (case split_first (CHR ''e'') m of
                         None \<Rightarrow> (m, 0) | Some (a, b) \<Rightarrow> (a, case py_int b of None \<Rightarrow> 0 | Some i \<Rightarrow> i));
          (ip, fp) = (case split_first (CHR ''.'') mant of None \<Rightarrow> (mant, []) | Some ab \<Rightarrow> ab);
          n = int (read_digits (ip @ fp)); sh = x - int (length fp);
          v = (if sh \<ge> 0 then n * 10 ^ nat sh else n div 10 ^ nat (- sh))
      in if neg then - v else v)"

fun int_of_value :: "json \<Rightarrow> int res" where
  "int_of_value (JInt i) = Inr i"
| "int_of_value (JBool b) = Inr (if b then 1 else 0)"
| "int_of_value (JStr s) = (case py_int s of Some i \<Rightarrow> Inr i | None \<Rightarrow> Inl (ValueError ''invalid literal for int()''))"
| "int_of_value (JFloat s) =
     (if s \<in> {''inf'', ''-inf''} then Inl (HandlerError ''OverflowError'')
      else if s = ''nan'' then Inl (ValueError ''cannot convert float NaN to integer'')
      else Inr (trunc_repr s))"
| "int_of_value _ = Inl (TypeError ''int() argument must be a string, a bytes-like object or a real number'')"

end
