(* ===== verification/Py_Datetime.thy ===== *)
theory Py_Datetime
  imports Py_Strings
begin

text \<open>
  The calendar of Python's \<open>datetime\<close>: the proleptic Gregorian date of a day number and back,
  weekdays, and the ISO text of an instant. An instant is a rational number of seconds since
  1970-01-01 UTC; a wall-clock time is a \<open>datetime\<close> record.
\<close>

record datetime =
  dt_year :: int
  dt_month :: int
  dt_day :: int
  dt_hour :: int
  dt_minute :: int
  dt_second :: int

text \<open>Days since 1970-01-01, counted in 400-year eras that start on 1 March.\<close>

definition civil_from_days :: "int \<Rightarrow> int \<times> int \<times> int" where
  "civil_from_days z0 =
     (let z = z0 + 719468;
          era = z div 146097;
          doe = z mod 146097;
          yoe = (doe - doe div 1460 + doe div 36524 - doe div 146096) div 365;
          doy = doe - (365 * yoe + yoe div 4 - yoe div 100);
          mp = (5 * doy + 2) div 153;
          d = doy - (153 * mp + 2) div 5 + 1;
          m = (if mp < 10 then mp + 3 else mp - 9);
          y = yoe + era * 400 + (if m \<le> 2 then 1 else 0)
      in (y, m, d))"

definition days_from_civil :: "int \<Rightarrow> int \<Rightarrow> int \<Rightarrow> int" where
  "days_from_civil y0 m d =
     (let y = (if m \<le> 2 then y0 - 1 else y0);
          era = y div 400;
          yoe = y mod 400;
          mp = (if m > 2 then m - 3 else m + 9);
          doy = (153 * mp + 2) div 5 + d - 1;
          doe = yoe * 365 + yoe div 4 - yoe div 100 + doy
      in era * 146097 + doe - 719468)"

definition is_leap :: "int \<Rightarrow> bool" where
  "is_leap y \<longleftrightarrow> y mod 4 = 0 \<and> (y mod 100 \<noteq> 0 \<or> y mod 400 = 0)"

definition days_in_month :: "int \<Rightarrow> int \<Rightarrow> int" where
  "days_in_month y m =
     (if m = 2 then (if is_leap y then 29 else 28) else if m \<in> {4, 6, 9, 11} then 30 else 31)"

text \<open>\<open>date.weekday()\<close>: Monday is 0. 1970-01-01 was a Thursday.\<close>

definition weekday_of_days :: "int \<Rightarrow> int" where
  "weekday_of_days z = (z + 3) mod 7"

definition dt_days :: "datetime \<Rightarrow> int" where
  "dt_days t = days_from_civil (dt_year t) (dt_month t) (dt_day t)"

definition dt_weekday :: "datetime \<Rightarrow> int" where
  "dt_weekday t = weekday_of_days (dt_days t)"

text \<open>Seconds of a wall-clock time, and back.\<close>

definition dt_secs :: "datetime \<Rightarrow> int" where
  "dt_secs t = dt_days t * 86400 + dt_hour t * 3600 + dt_minute t * 60 + dt_second t"

definition dt_of_secs :: "int \<Rightarrow> datetime" where
  "dt_of_secs s =
     (let days = s div 86400; r = s mod 86400; (y, m, d) = civil_from_days days
      in \<lparr>dt_year = y, dt_month = m, dt_day = d, dt_hour = r div 3600,
          dt_minute = (r mod 3600) div 60, dt_second = r mod 60\<rparr>)"

text \<open>A value that Python's constructor accepts.\<close>

definition dt_valid :: "datetime \<Rightarrow> bool" where
  "dt_valid t \<longleftrightarrow> 1 \<le> dt_month t \<and> dt_month t \<le> 12 \<and> 1 \<le> dt_day t
     \<and> dt_day t \<le> days_in_month (dt_year t) (dt_month t)
     \<and> 0 \<le> dt_hour t \<and> dt_hour t \<le> 23 \<and> 0 \<le> dt_minute t \<and> dt_minute t \<le> 59
     \<and> 0 \<le> dt_second t \<and> dt_second t \<le> 59"

section \<open>Text\<close>

text \<open>Decimal with at least \<open>n\<close> digits.\<close>

definition pad :: "nat \<Rightarrow> int \<Rightarrow> string" where
  "pad n i = (let s = show_nat (nat i) in replicate (n - length s) CHR ''0'' @ s)"

definition iso_date :: "datetime \<Rightarrow> string" where
  "iso_date t = pad 4 (dt_year t) @ ''-'' @ pad 2 (dt_month t) @ ''-'' @ pad 2 (dt_day t)"

definition isoformat :: "rat \<Rightarrow> string" where
  "isoformat x =
     (let us = \<lfloor>x * 1000000\<rfloor>; t = dt_of_secs (us div 1000000); f = us mod 1000000
      in iso_date t @ ''T'' @ pad 2 (dt_hour t) @ '':'' @ pad 2 (dt_minute t) @ '':'' @ pad 2 (dt_second t)
         @ (if f = 0 then [] else ''.'' @ pad 6 f) @ ''+00:00'')"

lemma weekday_range: "0 \<le> weekday_of_days z \<and> weekday_of_days z \<le> 6"
proof -
  have "0 \<le> (z + 3) mod 7" "(z + 3) mod 7 < 7" by simp_all
  then show ?thesis by (simp add: weekday_of_days_def)
qed

lemma weekday_week: "weekday_of_days (z + 7) = weekday_of_days z"
  by (simp add: weekday_of_days_def) presburger

lemma clock_of_second:
  fixes r :: int
  assumes "0 \<le> r" and "r < 86400"
  shows "0 \<le> r div 3600" and "r div 3600 \<le> 23" and "0 \<le> r mod 3600 div 60"
    and "r mod 3600 div 60 \<le> 59"
proof -
  show "0 \<le> r div 3600" using assms by (simp add: pos_imp_zdiv_nonneg_iff)
  have "r div 3600 \<le> 86399 div 3600" using assms by (intro zdiv_mono1) simp_all
  then show "r div 3600 \<le> 23" by simp
  show "0 \<le> r mod 3600 div 60" by (simp add: pos_imp_zdiv_nonneg_iff)
  have "r mod 3600 \<le> 3599" using pos_mod_bound [of 3600 r] by simp
  then have "r mod 3600 div 60 \<le> 3599 div 60" by (intro zdiv_mono1) simp_all
  then show "r mod 3600 div 60 \<le> 59" by simp
qed

lemma dt_of_secs_time:
  "0 \<le> dt_hour (dt_of_secs s) \<and> dt_hour (dt_of_secs s) \<le> 23 \<and> 0 \<le> dt_minute (dt_of_secs s)
   \<and> dt_minute (dt_of_secs s) \<le> 59 \<and> 0 \<le> dt_second (dt_of_secs s) \<and> dt_second (dt_of_secs s) \<le> 59"
proof -
  obtain y m d where c: "civil_from_days (s div 86400) = (y, m, d)"
    by (cases "civil_from_days (s div 86400)")
  have r: "0 \<le> s mod 86400" "s mod 86400 < 86400" by simp_all
  have "0 \<le> s mod 86400 mod 60" "s mod 86400 mod 60 \<le> 59"
    using pos_mod_bound [of 60 "s mod 86400"] by simp_all
  with clock_of_second [OF r] c show ?thesis by (simp only: dt_of_secs_def Let_def prod.case datetime.select_convs simp_thms)
qed

lemma length_pad: "n \<le> length (pad n i)"
  by (simp add: pad_def Let_def)

lemma pad_digits: "c \<in> set (pad n i) \<Longrightarrow> is_digit c"
  by (auto simp: pad_def Let_def is_digit_def show_nat_digits [unfolded is_digit_def] split: if_splits)

end
