(* ===== verification/Job_Model.thy ===== *)
theory Job_Model
  imports Job_Keys Py_Datetime "HOL-Library.List_Lexorder" "HOL-Library.Char_ord"
begin

text \<open>
  The rows of the jobs system (\<open>mojo/apps/jobs/models/job.py\<close>): the \<open>Job\<close> record with the
  source's fields and its status choices, \<open>JobEvent\<close> and \<open>JobLog\<close>, and the model's
  properties. Instants are rational seconds, floats are exact rationals.
\<close>

datatype job_status = Pending | Running | Completed | Failed | Canceled | Expired

fun status_text :: "job_status \<Rightarrow> string" where
  "status_text Pending = ''pending''"
| "status_text Running = ''running''"
| "status_text Completed = ''completed''"
| "status_text Failed = ''failed''"
| "status_text Canceled = ''canceled''"
| "status_text Expired = ''expired''"

record job =
  job_id :: string
  job_channel :: string
  job_func :: string
  job_payload :: "(string \<times> json) list"
  job_status :: job_status
  job_run_at :: "rat option"
  job_expires_at :: "rat option"
  job_attempt :: int
  job_max_retries :: int
  job_backoff_base :: rat
  job_backoff_max_sec :: int
  job_broadcast :: bool
  job_cancel_requested :: bool
  job_max_exec_seconds :: "int option"
  job_runner_id :: "string option"
  job_last_error :: string
  job_stack_trace :: string
  job_metadata :: "(string \<times> json) list"
  job_created :: rat
  job_modified :: rat
  job_started_at :: "rat option"
  job_finished_at :: "rat option"
  job_idempotency_key :: "string option"

datatype event_kind =
    EvCreated | EvQueued | EvScheduled | EvRunning | EvRetry | EvCanceled | EvCompleted
  | EvFailed | EvExpired | EvClaimed | EvReleased

record job_event =
  ev_job :: string
  ev_channel :: string
  ev_event :: event_kind
  ev_runner_id :: "string option"
  ev_attempt :: int
  ev_details :: "(string \<times> json) list"

record job_log =
  log_job :: string
  log_channel :: string
  log_kind :: string
  log_message :: string
  log_meta :: "(string \<times> json) list"

definition is_terminal :: "job \<Rightarrow> bool" where
  "is_terminal j \<longleftrightarrow> job_status j \<in> {Completed, Failed, Canceled, Expired}"

definition is_retriable :: "job \<Rightarrow> bool" where
  "is_retriable j \<longleftrightarrow> job_status j = Failed \<and> job_attempt j < job_max_retries j"

text \<open>\<open>int(delta.total_seconds() * 1000)\<close> truncates towards zero.\<close>

definition trunc_rat :: "rat \<Rightarrow> int" where
  "trunc_rat x = (if x < 0 then - \<lfloor>- x\<rfloor> else \<lfloor>x\<rfloor>)"

definition duration_ms :: "job \<Rightarrow> int" where
  "duration_ms j =
     (case (job_started_at j, job_finished_at j) of
        (Some s, Some f) \<Rightarrow> trunc_rat ((f - s) * 1000)
      | _ \<Rightarrow> 0)"

definition is_expired :: "rat \<Rightarrow> job \<Rightarrow> bool" where
  "is_expired now j = (case job_expires_at j of None \<Rightarrow> False | Some e \<Rightarrow> now > e)"

lemma is_terminal_iff: "is_terminal j \<longleftrightarrow> job_status j \<noteq> Pending \<and> job_status j \<noteq> Running"
  by (cases "job_status j") (auto simp: is_terminal_def)

lemma is_retriable_terminal: "is_retriable j \<Longrightarrow> is_terminal j"
  by (simp add: is_retriable_def is_terminal_def)

section \<open>Tables of rows\<close>

definition row_get :: "string \<Rightarrow> job list \<Rightarrow> job option" where
  "row_get i rows = find (\<lambda>j. job_id j = i) rows"

definition row_by_key :: "string \<Rightarrow> job list \<Rightarrow> job option" where
  "row_by_key k rows = find (\<lambda>j. job_idempotency_key j = Some k) rows"

definition row_upd :: "string \<Rightarrow> (job \<Rightarrow> job) \<Rightarrow> job list \<Rightarrow> job list" where
  "row_upd i f rows = map (\<lambda>j. if job_id j = i then f j else j) rows"

definition keeps_id :: "(job \<Rightarrow> job) \<Rightarrow> bool" where
  "keeps_id f \<longleftrightarrow> (\<forall>j. job_id (f j) = job_id j)"

lemma row_get_id: "row_get i rows = Some j \<Longrightarrow> job_id j = i"
  by (auto simp: row_get_def find_Some_iff)

lemma row_get_mem: "row_get i rows = Some j \<Longrightarrow> j \<in> set rows"
  by (auto simp: row_get_def find_Some_iff)

lemma row_by_key_mem: "row_by_key k rows = Some r \<Longrightarrow> r \<in> set rows"
  by (auto simp: row_by_key_def find_Some_iff)

lemma row_get_upd:
  assumes "keeps_id f"
  shows "row_get i (row_upd k f rows) =
    (if i = k then map_option f (row_get i rows) else row_get i rows)"
  using assms by (induction rows) (auto simp: row_get_def row_upd_def keeps_id_def)

lemma row_get_append:
  "row_get i (rows @ [j]) =
    (case row_get i rows of Some r \<Rightarrow> Some r | None \<Rightarrow> if job_id j = i then Some j else None)"
  by (induction rows) (auto simp: row_get_def)

lemma ids_row_upd: "keeps_id f \<Longrightarrow> map job_id (row_upd k f rows) = map job_id rows"
  by (induction rows) (auto simp: row_upd_def keeps_id_def)

lemma row_get_None: "row_get i rows = None \<longleftrightarrow> i \<notin> job_id ` set rows"
  by (auto simp: row_get_def find_None_iff)

lemma row_get_unique:
  "distinct (map job_id rows) \<Longrightarrow> j \<in> set rows \<Longrightarrow> row_get (job_id j) rows = Some j"
  by (induction rows) (auto simp: row_get_def)

section \<open>Sorted sets\<close>

text \<open>
  A sorted set: members with scores, in ascending order of score, members of equal score in
  lexicographic order, as Redis keeps them.
\<close>

type_synonym zset = "(string \<times> rat) list"

definition zs_less :: "string \<times> rat \<Rightarrow> string \<times> rat \<Rightarrow> bool" where
  "zs_less p q \<longleftrightarrow> snd p < snd q \<or> (snd p = snd q \<and> fst p < fst q)"

definition zs_del :: "string \<Rightarrow> zset \<Rightarrow> zset" where
  "zs_del m z = filter (\<lambda>p. fst p \<noteq> m) z"

fun zs_ins :: "string \<times> rat \<Rightarrow> zset \<Rightarrow> zset" where
  "zs_ins p [] = [p]"
| "zs_ins p (q # z) = (if zs_less p q then p # q # z else q # zs_ins p z)"

definition zs_add :: "string \<Rightarrow> rat \<Rightarrow> zset \<Rightarrow> zset" where
  "zs_add m s z = zs_ins (m, s) (zs_del m z)"

definition zs_adds :: "(string \<times> rat) list \<Rightarrow> zset \<Rightarrow> zset" where
  "zs_adds ps z = foldl (\<lambda>z (m, s). zs_add m s z) z ps"

definition zs_inv :: "zset \<Rightarrow> bool" where
  "zs_inv z \<longleftrightarrow> distinct (map fst z) \<and> sorted_wrt zs_less z"

lemma zs_less_trans: "zs_less p q \<Longrightarrow> zs_less q r \<Longrightarrow> zs_less p r"
  by (auto simp: zs_less_def)

lemma zs_less_irrefl [simp]: "\<not> zs_less p p"
  by (simp add: zs_less_def)

lemma zs_less_linear: "fst p \<noteq> fst q \<Longrightarrow> zs_less p q \<or> zs_less q p"
  by (auto simp: zs_less_def)

lemma set_zs_ins [simp]: "set (zs_ins p z) = insert p (set z)"
  by (induction p z rule: zs_ins.induct) auto

lemma set_zs_add: "set (zs_add m s z) = insert (m, s) {p \<in> set z. fst p \<noteq> m}"
  by (auto simp: zs_add_def zs_del_def)

lemma members_zs_add [simp]: "fst ` set (zs_add m s z) = insert m (fst ` set z)"
  by (auto simp: set_zs_add)

lemma members_zs_del [simp]: "fst ` set (zs_del m z) = fst ` set z - {m}"
  by (auto simp: zs_del_def)

lemma members_zs_adds: "fst ` set (zs_adds ps z) = fst ` set ps \<union> fst ` set z"
  unfolding zs_adds_def by (induction ps arbitrary: z) (auto simp: split_beta)

lemma distinct_zs_ins: "distinct (map fst z) \<Longrightarrow> fst p \<notin> fst ` set z \<Longrightarrow> distinct (map fst (zs_ins p z))"
  by (induction p z rule: zs_ins.induct) auto

lemma sorted_zs_ins:
  "sorted_wrt zs_less z \<Longrightarrow> fst p \<notin> fst ` set z \<Longrightarrow> sorted_wrt zs_less (zs_ins p z)"
proof (induction p z rule: zs_ins.induct)
  case (2 p q z)
  then have "zs_less p q \<or> zs_less q p" by (intro zs_less_linear) auto
  with 2 show ?case by (auto intro: zs_less_trans)
qed simp

lemma zs_inv_del: "zs_inv z \<Longrightarrow> zs_inv (zs_del m z)"
  by (auto simp: zs_inv_def zs_del_def distinct_map_filter sorted_wrt_filter)

lemma zs_inv_add:
  assumes "zs_inv z"
  shows "zs_inv (zs_add m s z)"
proof -
  have "m \<notin> fst ` set (zs_del m z)" by simp
  with zs_inv_del [OF assms, of m] show ?thesis
    by (simp add: zs_inv_def zs_add_def sorted_zs_ins distinct_zs_ins)
qed

lemma zs_inv_adds: "zs_inv z \<Longrightarrow> zs_inv (zs_adds ps z)"
  unfolding zs_adds_def by (induction ps arbitrary: z) (auto simp: zs_inv_add split_beta)

lemma zs_inv_drop: "zs_inv z \<Longrightarrow> zs_inv (drop n z)"
  by (auto simp: zs_inv_def drop_map [symmetric] sorted_wrt_drop simp del: drop_map)

text \<open>A sorted set is determined by its members and scores.\<close>

lemma zs_inv_unique: "zs_inv y \<Longrightarrow> zs_inv z \<Longrightarrow> set y = set z \<Longrightarrow> y = z"
proof (induction y arbitrary: z)
  case (Cons p y)
  then obtain q z' where z: "z = q # z'" by (cases z) auto
  have "p = q"
  proof (rule ccontr)
    assume "p \<noteq> q"
    with Cons.prems z have "p \<in> set z'" "q \<in> set y" by auto
    with Cons.prems z have "zs_less q p" "zs_less p q" by (auto simp: zs_inv_def)
    then show False using zs_less_trans by fastforce
  qed
  moreover have "p \<notin> set y" "q \<notin> set z'" using Cons.prems z by (auto simp: zs_inv_def)
  ultimately have "set y = set z'" using Cons.prems(3) z by auto
  with Cons.IH Cons.prems z \<open>p = q\<close> show ?case by (auto simp: zs_inv_def)
qed simp

lemma set_zs_adds:
  "distinct (map fst ps) \<Longrightarrow> set (zs_adds ps z) = set ps \<union> {p \<in> set z. fst p \<notin> fst ` set ps}"
proof (induction ps arbitrary: z)
  case (Cons p ps)
  then show ?case by (cases p) (auto simp: zs_adds_def set_zs_add image_iff)
qed (simp add: zs_adds_def)

text \<open>Putting back what was just taken restores the set.\<close>

lemma zs_adds_restore:
  assumes "zs_inv (xs @ ys)"
  shows "zs_adds xs ys = xs @ ys"
proof (rule zs_inv_unique)
  have "zs_inv ys" using zs_inv_drop [OF assms, of "length xs"] by simp
  then show "zs_inv (zs_adds xs ys)" by (rule zs_inv_adds)
  show "set (zs_adds xs ys) = set (xs @ ys)"
    using assms by (subst set_zs_adds) (auto simp: zs_inv_def)
qed (fact assms)

end
