(* ===== verification/Job_Services.thy ===== *)
theory Job_Services
  imports Job_Model "HOL-Library.List_Lexorder" "HOL-Library.Char_ord"
begin

text \<open>
  What the jobs system asks of the outside: the Redis commands behind the adapter, the ORM
  calls on the three tables, metrics and incident reports. They are code of other packages
  and services, so the model takes them as a parameter, a record of calls over the shared
  world. The locale \<open>services\<close> states what the code relies on: a call either behaves as
  documented or raises, and a call that raises may or may not have taken effect (an ambiguous
  write). Everything about the operations is proved from these laws; the interpretations at the
  end provide the documented services and services whose Redis is down.
\<close>

record world =
  w_jobs :: "job list"
  w_events :: "job_event list"
  w_logs :: "job_log list"
  w_lists :: "string \<Rightarrow> string list"
  w_zsets :: "string \<Rightarrow> zset"
  w_strs :: "string \<Rightarrow> string option"
  w_sets :: "string \<Rightarrow> string list"
  w_metrics :: "string list"
  w_incidents :: "(string \<times> string) list"
  w_messages :: "(string \<times> json) list"

definition empty_world :: world where
  "empty_world = \<lparr>w_jobs = [], w_events = [], w_logs = [], w_lists = (\<lambda>_. []), w_zsets = (\<lambda>_. []),
     w_strs = (\<lambda>_. None), w_sets = (\<lambda>_. []), w_metrics = [], w_incidents = [], w_messages = []\<rparr>"

type_synonym 'a wact = "(world, 'a) act"

section \<open>Documented behaviour of the calls\<close>

subsection \<open>Redis\<close>

definition d_rpush :: "string \<Rightarrow> string \<Rightarrow> unit wact" where
  "d_rpush k v w = (Inr (), w\<lparr>w_lists := (w_lists w)(k := w_lists w k @ [v])\<rparr>)"

text \<open>The right end of the first non-empty list; \<open>None\<close> when the wait times out.\<close>

definition d_brpop :: "string list \<Rightarrow> (string \<times> string) option wact" where
  "d_brpop ks w =
     (case find (\<lambda>k. w_lists w k \<noteq> []) ks of
        None \<Rightarrow> (Inr None, w)
      | Some k \<Rightarrow> (Inr (Some (k, last (w_lists w k))),
          w\<lparr>w_lists := (w_lists w)(k := butlast (w_lists w k))\<rparr>))"

definition d_llen :: "string \<Rightarrow> nat wact" where
  "d_llen k w = (Inr (length (w_lists w k)), w)"

definition d_zadd :: "string \<Rightarrow> (string \<times> rat) list \<Rightarrow> unit wact" where
  "d_zadd k ps w = (Inr (), w\<lparr>w_zsets := (w_zsets w)(k := zs_adds ps (w_zsets w k))\<rparr>)"

definition d_zrem :: "string \<Rightarrow> string \<Rightarrow> nat wact" where
  "d_zrem k m w =
     (Inr (if m \<in> fst ` set (w_zsets w k) then 1 else 0),
      w\<lparr>w_zsets := (w_zsets w)(k := zs_del m (w_zsets w k))\<rparr>)"

text \<open>\<open>ZRANGEBYSCORE k -inf cutoff LIMIT 0 n\<close>\<close>

definition d_zrangebyscore :: "string \<Rightarrow> rat \<Rightarrow> nat \<Rightarrow> string list wact" where
  "d_zrangebyscore k cutoff n w =
     (Inr (take n (map fst (filter (\<lambda>p. snd p \<le> cutoff) (w_zsets w k)))), w)"

definition d_zremrangebyscore :: "string \<Rightarrow> rat \<Rightarrow> unit wact" where
  "d_zremrangebyscore k cutoff w =
     (Inr (), w\<lparr>w_zsets := (w_zsets w)(k := filter (\<lambda>p. \<not> snd p \<le> cutoff) (w_zsets w k))\<rparr>)"

definition d_zpopmin :: "string \<Rightarrow> nat \<Rightarrow> (string \<times> rat) list wact" where
  "d_zpopmin k n w =
     (Inr (take n (w_zsets w k)), w\<lparr>w_zsets := (w_zsets w)(k := drop n (w_zsets w k))\<rparr>)"

definition d_get :: "string \<Rightarrow> string option wact" where
  "d_get k w = (Inr (w_strs w k), w)"

text \<open>\<open>SET\<close> with a time to live: the expiry itself is a step of the environment.\<close>

definition d_set :: "string \<Rightarrow> string \<Rightarrow> unit wact" where
  "d_set k v w = (Inr (), w\<lparr>w_strs := (w_strs w)(k := Some v)\<rparr>)"

definition d_set_nx :: "string \<Rightarrow> string \<Rightarrow> bool wact" where
  "d_set_nx k v w =
     (case w_strs w k of
        None \<Rightarrow> (Inr True, w\<lparr>w_strs := (w_strs w)(k := Some v)\<rparr>)
      | Some _ \<Rightarrow> (Inr False, w))"

text \<open>\<open>PEXPIRE\<close> and \<open>EXPIRE\<close> move the expiry of a key and nothing else.\<close>

definition d_expire :: "string \<Rightarrow> unit wact" where
  "d_expire k w = (Inr (), w)"

definition d_delete :: "string \<Rightarrow> unit wact" where
  "d_delete k w = (Inr (), w\<lparr>w_strs := (w_strs w)(k := None)\<rparr>)"

definition d_sadd :: "string \<Rightarrow> string \<Rightarrow> unit wact" where
  "d_sadd k m w = (Inr (), w\<lparr>w_sets := (w_sets w)(k := List.insert m (w_sets w k))\<rparr>)"

definition d_smembers :: "string \<Rightarrow> string list wact" where
  "d_smembers k w = (Inr (w_sets w k), w)"

definition d_srem :: "string \<Rightarrow> string \<Rightarrow> nat wact" where
  "d_srem k m w =
     (Inr (if m \<in> set (w_sets w k) then 1 else 0),
      w\<lparr>w_sets := (w_sets w)(k := filter (\<lambda>x. x \<noteq> m) (w_sets w k))\<rparr>)"

text \<open>\<open>INCRBY\<close>: a missing key counts as 0; a value that is no integer is an error.\<close>

definition d_incrby :: "string \<Rightarrow> int \<Rightarrow> int wact" where
  "d_incrby k n w =
     (case (case w_strs w k of None \<Rightarrow> Some 0 | Some s \<Rightarrow> py_int s) of
        None \<Rightarrow> (Inl (ServiceError ''value is not an integer or out of range''), w)
      | Some v \<Rightarrow> (Inr (v + n), w\<lparr>w_strs := (w_strs w)(k := Some (show_int (v + n)))\<rparr>))"

definition d_mget :: "string list \<Rightarrow> string option list wact" where
  "d_mget ks w = (Inr (map (w_strs w) ks), w)"

definition d_zcard :: "string \<Rightarrow> nat wact" where
  "d_zcard k w = (Inr (length (w_zsets w k)), w)"

text \<open>\<open>ZCOUNT k lo +inf\<close>, and the first entry of \<open>ZRANGEBYSCORE k lo +inf LIMIT 0 1 WITHSCORES\<close>\<close>

definition d_zcount :: "string \<Rightarrow> rat \<Rightarrow> nat wact" where
  "d_zcount k lo w = (Inr (length (filter (\<lambda>p. lo \<le> snd p) (w_zsets w k))), w)"

definition d_zfirst :: "string \<Rightarrow> rat \<Rightarrow> (string \<times> rat) option wact" where
  "d_zfirst k lo w = (Inr (find (\<lambda>p. lo \<le> snd p) (w_zsets w k)), w)"

definition d_zincrby :: "string \<Rightarrow> rat \<Rightarrow> string \<Rightarrow> unit wact" where
  "d_zincrby k n m w =
     (Inr (), w\<lparr>w_zsets := (w_zsets w)(k := zs_adds
        [(m, n + (case map_of (w_zsets w k) m of None \<Rightarrow> 0 | Some x \<Rightarrow> x))] (w_zsets w k))\<rparr>)"

text \<open>\<open>DEL\<close> of a key whatever it holds\<close>

definition d_del :: "string \<Rightarrow> unit wact" where
  "d_del k w = (Inr (), w\<lparr>w_strs := (w_strs w)(k := None), w_lists := (w_lists w)(k := []),
     w_zsets := (w_zsets w)(k := []), w_sets := (w_sets w)(k := [])\<rparr>)"

definition d_pub :: "string \<Rightarrow> json \<Rightarrow> unit wact" where
  "d_pub c m w = (Inr (), w\<lparr>w_messages := w_messages w @ [(c, m)]\<rparr>)"

subsection \<open>The tables\<close>

definition d_job_get :: "string \<Rightarrow> job wact" where
  "d_job_get i w = (case row_get i (w_jobs w) of None \<Rightarrow> (Inl DoesNotExist, w) | Some j \<Rightarrow> (Inr j, w))"

definition d_job_by_key :: "string \<Rightarrow> job wact" where
  "d_job_by_key k w = (case row_by_key k (w_jobs w) of None \<Rightarrow> (Inl DoesNotExist, w) | Some j \<Rightarrow> (Inr j, w))"

text \<open>Insertion under the two unique constraints of the table.\<close>

definition d_job_create :: "job \<Rightarrow> unit wact" where
  "d_job_create j w =
     (if row_get (job_id j) (w_jobs w) \<noteq> None
         \<or> (case job_idempotency_key j of None \<Rightarrow> False | Some k \<Rightarrow> row_by_key k (w_jobs w) \<noteq> None)
      then (Inl (IntegrityError ''duplicate key value violates unique constraint''), w)
      else (Inr (), w\<lparr>w_jobs := w_jobs w @ [j]\<rparr>))"

text \<open>
  \<open>job.save(update_fields=...)\<close>: the named fields of the row are written (\<open>f\<close> sets them); a row
  that is gone raises.
\<close>

definition d_job_save :: "string \<Rightarrow> (job \<Rightarrow> job) \<Rightarrow> unit wact" where
  "d_job_save i f w =
     (if row_get i (w_jobs w) = None
      then (Inl (ServiceError ''Save with update_fields did not affect any rows.''), w)
      else (Inr (), w\<lparr>w_jobs := row_upd i f (w_jobs w)\<rparr>))"

text \<open>\<open>job.save()\<close> of the whole row: it replaces the row of that id, or inserts it.\<close>

definition d_job_put :: "job \<Rightarrow> unit wact" where
  "d_job_put j w =
     (Inr (), w\<lparr>w_jobs := (if row_get (job_id j) (w_jobs w) = None then w_jobs w @ [j]
                            else row_upd (job_id j) (\<lambda>_. j) (w_jobs w))\<rparr>)"

text \<open>\<open>Job.objects.filter(pk=i, status=s).update(...)\<close>: one atomic statement, the rows it changed\<close>

definition d_job_cas :: "string \<Rightarrow> job_status \<Rightarrow> (job \<Rightarrow> job) \<Rightarrow> nat wact" where
  "d_job_cas i s f w =
     (case row_get i (w_jobs w) of
        None \<Rightarrow> (Inr 0, w)
      | Some j \<Rightarrow> if job_status j = s then (Inr 1, w\<lparr>w_jobs := row_upd i f (w_jobs w)\<rparr>) else (Inr 0, w))"

definition d_event_create :: "job_event \<Rightarrow> unit wact" where
  "d_event_create e w = (Inr (), w\<lparr>w_events := w_events w @ [e]\<rparr>)"

definition d_log_create :: "job_log \<Rightarrow> unit wact" where
  "d_log_create l w = (Inr (), w\<lparr>w_logs := w_logs w @ [l]\<rparr>)"

definition d_metric :: "string \<Rightarrow> unit wact" where
  "d_metric m w = (Inr (), w\<lparr>w_metrics := w_metrics w @ [m]\<rparr>)"

definition d_incident :: "string \<Rightarrow> string \<Rightarrow> unit wact" where
  "d_incident cat ch w = (Inr (), w\<lparr>w_incidents := w_incidents w @ [(cat, ch)]\<rparr>)"

section \<open>The calls as a parameter\<close>

record svc =
  sv_rpush :: "string \<Rightarrow> string \<Rightarrow> unit wact"
  sv_brpop :: "string list \<Rightarrow> (string \<times> string) option wact"
  sv_llen :: "string \<Rightarrow> nat wact"
  sv_zadd :: "string \<Rightarrow> (string \<times> rat) list \<Rightarrow> unit wact"
  sv_zrem :: "string \<Rightarrow> string \<Rightarrow> nat wact"
  sv_zrangebyscore :: "string \<Rightarrow> rat \<Rightarrow> nat \<Rightarrow> string list wact"
  sv_zremrangebyscore :: "string \<Rightarrow> rat \<Rightarrow> unit wact"
  sv_zpopmin :: "string \<Rightarrow> nat \<Rightarrow> (string \<times> rat) list wact"
  sv_get :: "string \<Rightarrow> string option wact"
  sv_set :: "string \<Rightarrow> string \<Rightarrow> unit wact"
  sv_set_nx :: "string \<Rightarrow> string \<Rightarrow> bool wact"
  sv_expire :: "string \<Rightarrow> unit wact"
  sv_delete :: "string \<Rightarrow> unit wact"
  sv_sadd :: "string \<Rightarrow> string \<Rightarrow> unit wact"
  sv_smembers :: "string \<Rightarrow> string list wact"
  sv_srem :: "string \<Rightarrow> string \<Rightarrow> nat wact"
  sv_incrby :: "string \<Rightarrow> int \<Rightarrow> int wact"
  sv_mget :: "string list \<Rightarrow> string option list wact"
  sv_zcard :: "string \<Rightarrow> nat wact"
  sv_zcount :: "string \<Rightarrow> rat \<Rightarrow> nat wact"
  sv_zfirst :: "string \<Rightarrow> rat \<Rightarrow> (string \<times> rat) option wact"
  sv_zincrby :: "string \<Rightarrow> rat \<Rightarrow> string \<Rightarrow> unit wact"
  sv_del :: "string \<Rightarrow> unit wact"
  sv_pub :: "string \<Rightarrow> json \<Rightarrow> unit wact"
  sv_job_get :: "string \<Rightarrow> job wact"
  sv_job_by_key :: "string \<Rightarrow> job wact"
  sv_job_create :: "job \<Rightarrow> unit wact"
  sv_job_save :: "string \<Rightarrow> (job \<Rightarrow> job) \<Rightarrow> unit wact"
  sv_job_put :: "job \<Rightarrow> unit wact"
  sv_job_cas :: "string \<Rightarrow> job_status \<Rightarrow> (job \<Rightarrow> job) \<Rightarrow> nat wact"
  sv_event_create :: "job_event \<Rightarrow> unit wact"
  sv_log_create :: "job_log \<Rightarrow> unit wact"
  sv_metric :: "string \<Rightarrow> unit wact"
  sv_incident :: "string \<Rightarrow> string \<Rightarrow> unit wact"

definition documented :: svc where
  "documented = \<lparr>sv_rpush = d_rpush, sv_brpop = d_brpop, sv_llen = d_llen, sv_zadd = d_zadd,
     sv_zrem = d_zrem, sv_zrangebyscore = d_zrangebyscore,
     sv_zremrangebyscore = d_zremrangebyscore, sv_zpopmin = d_zpopmin, sv_get = d_get,
     sv_set = d_set, sv_set_nx = d_set_nx, sv_expire = d_expire, sv_delete = d_delete,
     sv_sadd = d_sadd, sv_smembers = d_smembers, sv_srem = d_srem, sv_incrby = d_incrby, sv_mget = d_mget,
     sv_zcard = d_zcard, sv_zcount = d_zcount, sv_zfirst = d_zfirst, sv_zincrby = d_zincrby, sv_del = d_del,
     sv_pub = d_pub, sv_job_get = d_job_get,
     sv_job_by_key = d_job_by_key, sv_job_create = d_job_create, sv_job_save = d_job_save,
     sv_job_put = d_job_put, sv_job_cas = d_job_cas, sv_event_create = d_event_create, sv_log_create = d_log_create,
     sv_metric = d_metric, sv_incident = d_incident\<rparr>"

text \<open>The same services with Redis writes failing.\<close>

definition redis_down :: "'a \<Rightarrow> 'b wact" where
  "redis_down _ w = (Inl (ServiceError ''redis: connection refused''), w)"

definition outage :: svc where
  "outage = documented\<lparr>sv_rpush := (\<lambda>k v. redis_down k), sv_zadd := (\<lambda>k v. redis_down k),
     sv_zrem := (\<lambda>k v. redis_down k), sv_sadd := (\<lambda>k v. redis_down k), sv_set := (\<lambda>k v. redis_down k),
     sv_metric := (\<lambda>m. redis_down m)\<rparr>"

text \<open>Services where only the metrics backend fails.\<close>

definition metrics_down :: svc where
  "metrics_down = documented\<lparr>sv_metric := (\<lambda>m. redis_down m)\<rparr>"

text \<open>\<open>with transaction.atomic(): m\<close>: an exception rolls the tables back.\<close>

definition atomic :: "'a wact \<Rightarrow> 'a wact" where
  "atomic m w = (case m w of
     (Inr x, w') \<Rightarrow> (Inr x, w')
   | (Inl e, w') \<Rightarrow> (Inl e, w'\<lparr>w_jobs := w_jobs w, w_events := w_events w, w_logs := w_logs w\<rparr>))"

text \<open>A call that behaves as documented, or raises, with or without its effect.\<close>

definition may_fail :: "'a wact \<Rightarrow> 'a wact \<Rightarrow> bool" where
  "may_fail m g \<longleftrightarrow> (\<forall>w. m w = g w
     \<or> (\<exists>e. m w = (Inl (ServiceError e), w)) \<or> (\<exists>e. m w = (Inl (ServiceError e), snd (g w))))"

lemma may_fail_refl [simp]: "may_fail m m"
  by (simp add: may_fail_def)

lemma may_fail_down [simp]: "may_fail (redis_down x) g"
  by (simp add: may_fail_def redis_down_def)

lemma keeps_may_fail: "may_fail m g \<Longrightarrow> keeps P g \<Longrightarrow> keeps P m"
  unfolding may_fail_def keeps_def by (metis snd_conv)

lemma may_fail_cases:
  assumes "may_fail m g"
  obtains "m w = g w" | e where "m w = (Inl (ServiceError e), w)"
  | e where "m w = (Inl (ServiceError e), snd (g w))"
  using assms unfolding may_fail_def by blast

locale services =
  fixes S :: svc
  assumes rpush: "may_fail (sv_rpush S k v) (d_rpush k v)"
    and brpop: "may_fail (sv_brpop S ks) (d_brpop ks)"
    and llen: "may_fail (sv_llen S k) (d_llen k)"
    and zadd: "may_fail (sv_zadd S k ps) (d_zadd k ps)"
    and zrem: "may_fail (sv_zrem S k v) (d_zrem k v)"
    and zrangebyscore: "may_fail (sv_zrangebyscore S k c n) (d_zrangebyscore k c n)"
    and zremrangebyscore: "may_fail (sv_zremrangebyscore S k c) (d_zremrangebyscore k c)"
    and zpopmin: "may_fail (sv_zpopmin S k n) (d_zpopmin k n)"
    and get: "may_fail (sv_get S k) (d_get k)"
    and set: "may_fail (sv_set S k v) (d_set k v)"
    and set_nx: "may_fail (sv_set_nx S k v) (d_set_nx k v)"
    and expire: "may_fail (sv_expire S k) (d_expire k)"
    and delete: "may_fail (sv_delete S k) (d_delete k)"
    and sadd: "may_fail (sv_sadd S k v) (d_sadd k v)"
    and smembers: "may_fail (sv_smembers S k) (d_smembers k)"
    and srem: "may_fail (sv_srem S k v) (d_srem k v)"
    and incrby: "may_fail (sv_incrby S k n') (d_incrby k n')"
    and mget: "may_fail (sv_mget S ks) (d_mget ks)"
    and zcard: "may_fail (sv_zcard S k) (d_zcard k)"
    and zcount: "may_fail (sv_zcount S k c) (d_zcount k c)"
    and zfirst: "may_fail (sv_zfirst S k c) (d_zfirst k c)"
    and zincrby: "may_fail (sv_zincrby S k c v) (d_zincrby k c v)"
    and del: "may_fail (sv_del S k) (d_del k)"
    and pub: "may_fail (sv_pub S k msg) (d_pub k msg)"
    and job_get: "may_fail (sv_job_get S i) (d_job_get i)"
    and job_by_key: "may_fail (sv_job_by_key S k) (d_job_by_key k)"
    and job_create: "may_fail (sv_job_create S j) (d_job_create j)"
    and job_save: "may_fail (sv_job_save S i f) (d_job_save i f)"
    and job_put: "may_fail (sv_job_put S j) (d_job_put j)"
    and job_cas: "may_fail (sv_job_cas S i st f) (d_job_cas i st f)"
    and event_create: "may_fail (sv_event_create S e) (d_event_create e)"
    and log_create: "may_fail (sv_log_create S l) (d_log_create l)"
    and metric: "may_fail (sv_metric S m) (d_metric m)"
    and incident: "may_fail (sv_incident S cat ch) (d_incident cat ch)"

lemmas call_defs = d_rpush_def d_brpop_def d_llen_def d_zadd_def d_zrem_def d_zrangebyscore_def
  d_zremrangebyscore_def d_zpopmin_def d_get_def d_set_def d_set_nx_def d_expire_def
  d_delete_def d_sadd_def d_smembers_def d_srem_def d_incrby_def d_mget_def d_zcard_def d_zcount_def
  d_zfirst_def d_zincrby_def d_del_def d_pub_def d_job_get_def d_job_by_key_def
  d_job_create_def d_job_save_def d_job_put_def d_job_cas_def d_event_create_def d_log_create_def
  d_metric_def d_incident_def

lemma documented_simps [simp]:
  "sv_rpush documented = d_rpush" "sv_brpop documented = d_brpop" "sv_llen documented = d_llen"
  "sv_zadd documented = d_zadd" "sv_zrem documented = d_zrem"
  "sv_zrangebyscore documented = d_zrangebyscore"
  "sv_zremrangebyscore documented = d_zremrangebyscore" "sv_zpopmin documented = d_zpopmin"
  "sv_get documented = d_get" "sv_set documented = d_set" "sv_set_nx documented = d_set_nx"
  "sv_expire documented = d_expire" "sv_delete documented = d_delete"
  "sv_sadd documented = d_sadd" "sv_smembers documented = d_smembers"
  "sv_srem documented = d_srem" "sv_incrby documented = d_incrby" "sv_mget documented = d_mget"
  "sv_zcard documented = d_zcard" "sv_zcount documented = d_zcount" "sv_zfirst documented = d_zfirst"
  "sv_zincrby documented = d_zincrby" "sv_del documented = d_del" "sv_pub documented = d_pub"
  "sv_job_get documented = d_job_get" "sv_job_by_key documented = d_job_by_key"
  "sv_job_create documented = d_job_create" "sv_job_save documented = d_job_save"
  "sv_job_put documented = d_job_put" "sv_job_cas documented = d_job_cas" "sv_event_create documented = d_event_create"
  "sv_log_create documented = d_log_create" "sv_metric documented = d_metric"
  "sv_incident documented = d_incident"
  by (simp_all add: documented_def)

interpretation doc: services documented
  by unfold_locales simp_all

interpretation down: services outage
  by unfold_locales (simp_all add: outage_def)

interpretation mdown: services metrics_down
  by unfold_locales (simp_all add: metrics_down_def)

section \<open>Predicates on part of the world\<close>

text \<open>
  A predicate that reads only the job table is kept by every call that does not write it. The
  rules below, used inside the locale, leave only the writing calls to a component's proof.
\<close>

definition jobs_only :: "(job list \<Rightarrow> bool) \<Rightarrow> world \<Rightarrow> bool" where
  "jobs_only P w = P (w_jobs w)"

lemma keeps_atomic [keeps_intro]: "keeps (jobs_only P) m \<Longrightarrow> keeps (jobs_only P) (atomic m)"
  by (auto simp: keeps_def jobs_only_def atomic_def split: prod.splits sum.splits)

context services
begin

lemma keeps_jobs_only [keeps_intro]:
  "keeps (jobs_only P) (sv_rpush S k v)" "keeps (jobs_only P) (sv_brpop S ks)"
  "keeps (jobs_only P) (sv_llen S k)"
  "keeps (jobs_only P) (sv_zadd S k ps)" "keeps (jobs_only P) (sv_zrem S k v)"
  "keeps (jobs_only P) (sv_zrangebyscore S k c n)" "keeps (jobs_only P) (sv_zremrangebyscore S k c)"
  "keeps (jobs_only P) (sv_zpopmin S k n)" "keeps (jobs_only P) (sv_get S k)"
  "keeps (jobs_only P) (sv_set S k v)" "keeps (jobs_only P) (sv_set_nx S k v)"
  "keeps (jobs_only P) (sv_expire S k)" "keeps (jobs_only P) (sv_delete S k)"
  "keeps (jobs_only P) (sv_sadd S k v)" "keeps (jobs_only P) (sv_smembers S k)"
  "keeps (jobs_only P) (sv_srem S k v)" "keeps (jobs_only P) (sv_incrby S k n')"
  "keeps (jobs_only P) (sv_mget S ks)" "keeps (jobs_only P) (sv_zcard S k)"
  "keeps (jobs_only P) (sv_pub S k msg)" "keeps (jobs_only P) (sv_job_get S i)"
  "keeps (jobs_only P) (sv_job_by_key S k)" "keeps (jobs_only P) (sv_event_create S e)"
  "keeps (jobs_only P) (sv_log_create S l)" "keeps (jobs_only P) (sv_metric S m)"
  "keeps (jobs_only P) (sv_incident S cat ch)"
  "keeps (jobs_only P) (sv_zcount S k c)" "keeps (jobs_only P) (sv_zfirst S k c)"
  "keeps (jobs_only P) (sv_zincrby S k c v)" "keeps (jobs_only P) (sv_del S k)"
  by (rule keeps_may_fail, rule rpush brpop llen zadd zrem zrangebyscore zremrangebyscore zpopmin get set
      set_nx expire delete sadd smembers srem incrby mget zcard zcount zfirst zincrby del pub job_get job_by_key event_create log_create metric incident,
      simp add: keeps_def jobs_only_def call_defs split: option.splits)+

lemma keeps_job_save:
  assumes "\<And>rows r. P rows \<Longrightarrow> row_get i rows = Some r \<Longrightarrow> P (row_upd i f rows)"
  shows "keeps (jobs_only P) (sv_job_save S i f)"
  by (rule keeps_may_fail, rule job_save) (auto simp: keeps_def jobs_only_def call_defs intro: assms)

lemma keeps_job_cas:
  assumes "\<And>rows r. P rows \<Longrightarrow> row_get i rows = Some r \<Longrightarrow> job_status r = s \<Longrightarrow> P (row_upd i f rows)"
  shows "keeps (jobs_only P) (sv_job_cas S i s f)"
  by (rule keeps_may_fail, rule job_cas)
    (auto simp: keeps_def jobs_only_def call_defs intro: assms split: option.splits)

lemma keeps_job_put:
  assumes "\<And>rows. P rows \<Longrightarrow> row_get (job_id j) rows = None \<Longrightarrow> P (rows @ [j])"
    and "\<And>rows r. P rows \<Longrightarrow> row_get (job_id j) rows = Some r \<Longrightarrow> P (row_upd (job_id j) (\<lambda>_. j) rows)"
  shows "keeps (jobs_only P) (sv_job_put S j)"
  by (rule keeps_may_fail, rule job_put) (auto simp: keeps_def jobs_only_def call_defs intro: assms)

lemma keeps_job_create:
  assumes "\<And>rows. P rows \<Longrightarrow> row_get (job_id j) rows = None \<Longrightarrow>
    (\<forall>k. job_idempotency_key j = Some k \<longrightarrow> row_by_key k rows = None) \<Longrightarrow> P (rows @ [j])"
  shows "keeps (jobs_only P) (sv_job_create S j)"
  by (rule keeps_may_fail, rule job_create)
    (auto simp: keeps_def jobs_only_def call_defs intro: assms split: option.splits)

text \<open>A read that returns tells the truth.\<close>

lemma job_get_returns:
  assumes "sv_job_get S i w = (Inr j, w')"
  shows "row_get i (w_jobs w) = Some j" and "w' = w"
  using job_get [of i] unfolding may_fail_def
  by (metis (no_types, lifting) assms d_job_get_def fst_conv option.case_eq_if snd_conv
      sum.distinct(1) sum.inject(2) option.collapse)+

end

end
