(* ===== verification/Job_Publish.thy ===== *)
theory Job_Publish
  imports Job_Services
begin

text \<open>
  The public API of the jobs system (\<open>mojo/apps/jobs/__init__.py\<close>): channel names and the
  publish gate, the registry of scheduled channels, \<open>publish\<close> with its broadcast fan-out,
  idempotent resume and Redis mirror, \<open>publish_webhook\<close>, \<open>cancel\<close> and \<open>status\<close>. Settings
  are a record; the clock, fresh identifiers and the runner roster are arguments. Messages of
  exceptions are shortened where no code reads them.
\<close>

section \<open>Settings\<close>

definition DEFAULT_CHANNELS :: "string list" where
  "DEFAULT_CHANNELS = [''default'', ''priority'', ''cleanup'', ''incident_handlers'', ''renditions'',
     ''certs'', ''webhooks'', ''webhook_fanout'', ''edge'']"

record jobs_cfg =
  JOB_CHANNELS :: "string list"
  JOBS_ALLOWED_CHANNELS :: "string list option"
  JOBS_PAYLOAD_MAX_BYTES :: nat
  JOBS_DEFAULT_EXPIRES_SEC :: int
  JOBS_DEFAULT_MAX_RETRIES :: int
  JOBS_DEFAULT_BACKOFF_BASE :: rat
  JOBS_DEFAULT_BACKOFF_MAX :: int
  JOBS_WEBHOOK_MAX_RETRIES :: int
  JOBS_WEBHOOK_MAX_TIMEOUT :: int
  JOBS_WEBHOOK_USER_AGENT :: string
  JOBS_REDIS_PREFIX :: string

definition default_cfg :: jobs_cfg where
  "default_cfg = \<lparr>JOB_CHANNELS = DEFAULT_CHANNELS, JOBS_ALLOWED_CHANNELS = None,
     JOBS_PAYLOAD_MAX_BYTES = 16384, JOBS_DEFAULT_EXPIRES_SEC = 900, JOBS_DEFAULT_MAX_RETRIES = 0,
     JOBS_DEFAULT_BACKOFF_BASE = 2, JOBS_DEFAULT_BACKOFF_MAX = 3600, JOBS_WEBHOOK_MAX_RETRIES = 5,
     JOBS_WEBHOOK_MAX_TIMEOUT = 300, JOBS_WEBHOOK_USER_AGENT = ''Django-MOJO-Webhook/1.0'',
     JOBS_REDIS_PREFIX = ''mojo:jobs''\<rparr>"

text \<open>\<open>JobKeys().prefix\<close>\<close>

definition pfx :: "jobs_cfg \<Rightarrow> string" where
  "pfx c = JobKeys None (JOBS_REDIS_PREFIX c)"

section \<open>Channel names\<close>

definition channel_char :: "char \<Rightarrow> bool" where
  "channel_char c \<longleftrightarrow> is_upper c \<or> is_lower c \<or> is_digit c \<or> c \<in> set ''_.-''"

text \<open>
  \<open>CHANNEL_NAME_RE.match\<close>: the pattern ends in \<open>$\<close>, which also matches before a final newline.
\<close>

definition CHANNEL_NAME_RE :: "string \<Rightarrow> bool" where
  "CHANNEL_NAME_RE s =
     (let ok = (\<lambda>b. 1 \<le> length b \<and> length b \<le> 100 \<and> list_all channel_char b)
      in ok s \<or> (s \<noteq> [] \<and> last s = CHR 0x0A \<and> ok (butlast s)))"

definition validate_channel_name :: "string \<Rightarrow> string wact" where
  "validate_channel_name channel =
     (if channel = [] then throw (ValueError ''Job channel must be a non-empty string'')
      else if \<not> CHANNEL_NAME_RE channel then throw (ValueError ''Invalid job channel'')
      else ret channel)"

definition ENGINE_CHANNEL_SUFFIX :: string where
  "ENGINE_CHANNEL_SUFFIX = ''-engine''"

definition channels_enforced :: "jobs_cfg \<Rightarrow> bool" where
  "channels_enforced c \<longleftrightarrow> JOBS_ALLOWED_CHANNELS c \<noteq> None"

definition is_channel_allowed :: "jobs_cfg \<Rightarrow> string \<Rightarrow> bool" where
  "is_channel_allowed c channel \<longleftrightarrow>
     channel \<in> set DEFAULT_CHANNELS
     \<or> channel \<in> set (JOB_CHANNELS c)
     \<or> channel \<in> set (case JOBS_ALLOWED_CHANNELS c of None \<Rightarrow> [] | Some l \<Rightarrow> l)
     \<or> ends_with channel ENGINE_CHANNEL_SUFFIX"

definition undeclared_notice_key :: "jobs_cfg \<Rightarrow> string \<Rightarrow> bool \<Rightarrow> string" where
  "undeclared_notice_key c channel enforced =
     pfx c @ '':alerted:'' @ (if enforced then ''rejected'' else ''undeclared'') @ '':'' @ channel"

definition report_undeclared_channel :: "svc \<Rightarrow> jobs_cfg \<Rightarrow> string \<Rightarrow> bool \<Rightarrow> unit wact" where
  "report_undeclared_channel S c channel enforced =
     (let key = undeclared_notice_key c channel enforced in
      bind (catch (bind (sv_get S key) (\<lambda>v.
                     if v \<noteq> None then ret True
                     else seqs (sv_set S key ''1'') (ret False)))
                  (\<lambda>_. ret False)) (\<lambda>suppressed.
      if suppressed then ret ()
      else attempt (sv_incident S
             (if enforced then ''jobs:rejected_channel'' else ''jobs:undeclared_channel'') channel)))"

definition register_sched_channel :: "svc \<Rightarrow> jobs_cfg \<Rightarrow> string \<Rightarrow> unit wact" where
  "register_sched_channel S c channel = attempt (sv_sadd S (k_sched_registry (pfx c)) channel)"

definition get_sched_channels :: "svc \<Rightarrow> jobs_cfg \<Rightarrow> string list wact" where
  "get_sched_channels S c = bind (sv_smembers S (k_sched_registry (pfx c))) (\<lambda>ms. ret (sort ms))"

definition register_startup_hook :: "string \<Rightarrow> string list \<Rightarrow> string list" where
  "register_startup_hook func_path hooks = (if func_path \<notin> set hooks then hooks @ [func_path] else hooks)"

section \<open>publish\<close>

datatype func_ref = Path string | Callable string string

text \<open>A callable becomes \<open>module.name\<close>.\<close>

fun func_path :: "func_ref \<Rightarrow> string" where
  "func_path (Path p) = p"
| "func_path (Callable m n) = m @ ''.'' @ n"

record publish_args =
  pa_func :: func_ref
  pa_payload :: json
  pa_channel :: string
  pa_delay :: "int option"
  pa_run_at :: "rat option"
  pa_broadcast :: bool
  pa_max_retries :: "int option"
  pa_backoff_base :: "rat option"
  pa_backoff_max :: "int option"
  pa_expires_in :: "int option"
  pa_expires_at :: "rat option"
  pa_max_exec_seconds :: "int option"
  pa_idempotency_key :: "string option"

definition default_args :: "func_ref \<Rightarrow> publish_args" where
  "default_args f = \<lparr>pa_func = f, pa_payload = JNull, pa_channel = ''default'', pa_delay = None,
     pa_run_at = None, pa_broadcast = False, pa_max_retries = None, pa_backoff_base = None,
     pa_backoff_max = None, pa_expires_in = None, pa_expires_at = None,
     pa_max_exec_seconds = None, pa_idempotency_key = None\<rparr>"

text \<open>What one call reads from outside: \<open>uuid4().hex\<close> and the clock, read twice on a resume.\<close>

record pub_env =
  pe_uuid :: string
  pe_now :: rat
  pe_now2 :: rat

record runner_info =
  ri_runner_id :: "string option"
  ri_alive :: bool

datatype pub_result = JobId string | JobIds "string list"

fun int_truthy :: "int option \<Rightarrow> bool" where
  "int_truthy None = False"
| "int_truthy (Some i) = (i \<noteq> 0)"

fun str_truthy :: "string option \<Rightarrow> bool" where
  "str_truthy None = False"
| "str_truthy (Some s) = (s \<noteq> [])"

text \<open>\<open>payload = payload or {}\<close>, then the type check\<close>

fun payload_dict :: "json \<Rightarrow> (string \<times> json) list option" where
  "payload_dict p = (if \<not> truthy p then Some [] else (case p of JObj m \<Rightarrow> Some m | _ \<Rightarrow> None))"

text \<open>The checks before any database write; the result is the payload.\<close>

definition publish_checks :: "svc \<Rightarrow> jobs_cfg \<Rightarrow> publish_args \<Rightarrow> (string \<times> json) list wact" where
  "publish_checks S c a =
     seqs (validate_channel_name (pa_channel a))
    (seqs (if \<not> is_channel_allowed c (pa_channel a)
           then seqs (report_undeclared_channel S c (pa_channel a) (channels_enforced c))
                (if channels_enforced c
                 then throw (ValueError ''Job channel is not a declared publish target.'') else ret ())
           else ret ())
    (case payload_dict (pa_payload a) of
       None \<Rightarrow> throw (ValueError ''Payload must be a dictionary'')
     | Some payload \<Rightarrow>
         if length (json_dumps (JObj payload)) > JOBS_PAYLOAD_MAX_BYTES c
         then throw (ValueError ''Payload exceeds maximum size'')
         else ret payload))"

definition resolve_run_at :: "publish_args \<Rightarrow> rat \<Rightarrow> rat option" where
  "resolve_run_at a now =
     (case pa_run_at a of
        Some t \<Rightarrow> Some t
      | None \<Rightarrow> if int_truthy (pa_delay a) then Some (now + of_int (the (pa_delay a))) else None)"

definition resolve_expires_at :: "jobs_cfg \<Rightarrow> publish_args \<Rightarrow> rat \<Rightarrow> rat" where
  "resolve_expires_at c a now =
     (case pa_expires_at a of
        Some t \<Rightarrow> t
      | None \<Rightarrow> if int_truthy (pa_expires_in a) then now + of_int (the (pa_expires_in a))
                else now + of_int (JOBS_DEFAULT_EXPIRES_SEC c))"

fun default_to :: "'a \<Rightarrow> 'a option \<Rightarrow> 'a" where
  "default_to d None = d"
| "default_to d (Some x) = x"

text \<open>The row that \<open>Job.objects.create\<close> inserts, with the column defaults.\<close>

definition new_job :: "jobs_cfg \<Rightarrow> publish_args \<Rightarrow> (string \<times> json) list \<Rightarrow> string \<Rightarrow> rat \<Rightarrow> job" where
  "new_job c a payload i now = \<lparr>
     job_id = i, job_channel = pa_channel a, job_func = func_path (pa_func a), job_payload = payload,
     job_status = Pending, job_run_at = resolve_run_at a now,
     job_expires_at = Some (resolve_expires_at c a now),
     job_attempt = 0, job_max_retries = default_to (JOBS_DEFAULT_MAX_RETRIES c) (pa_max_retries a),
     job_backoff_base = default_to (JOBS_DEFAULT_BACKOFF_BASE c) (pa_backoff_base a),
     job_backoff_max_sec = default_to (JOBS_DEFAULT_BACKOFF_MAX c) (pa_backoff_max a),
     job_broadcast = pa_broadcast a, job_cancel_requested = False,
     job_max_exec_seconds = pa_max_exec_seconds a, job_runner_id = None, job_last_error = [],
     job_stack_trace = [], job_metadata = [], job_created = now, job_modified = now,
     job_started_at = None, job_finished_at = None, job_idempotency_key = pa_idempotency_key a\<rparr>"

definition can_resume :: "job \<Rightarrow> bool" where
  "can_resume j \<longleftrightarrow> job_status j = Failed \<and> job_attempt j = 0
     \<and> starts_with (job_last_error j) ''Failed to queue:''"

text \<open>\<open>Done\<close> returns the id at once; \<open>Mirror\<close> goes on to Redis with the row and the clock.\<close>

datatype pub_stage = Done string | Mirror job rat

definition resume_existing :: "svc \<Rightarrow> publish_args \<Rightarrow> (string \<times> json) list \<Rightarrow> string \<Rightarrow> rat \<Rightarrow> pub_stage wact" where
  "resume_existing S a payload key now2 =
     bind (sv_job_by_key S key) (\<lambda>existing.
     if \<not> can_resume existing \<and> job_status existing \<noteq> Pending then ret (Done (job_id existing))
     else if can_resume existing
       \<and> (job_func existing \<noteq> func_path (pa_func a) \<or> job_payload existing \<noteq> payload
          \<or> job_channel existing \<noteq> pa_channel a \<or> job_broadcast existing \<noteq> pa_broadcast a)
     then throw (ValueError ''Idempotency key belongs to different failed job content'')
     else
       atomic (bind (sv_job_by_key S key) (\<lambda>locked.
         if can_resume locked
         then (let f = (\<lambda>j. j\<lparr>job_status := Pending, job_last_error := [], job_stack_trace := [],
                              job_finished_at := None, job_modified := now2\<rparr>)
               in seqs (sv_job_save S (job_id locked) f) (ret (Mirror (f locked) now2)))
         else if job_status locked \<noteq> Pending then ret (Done (job_id locked))
         else ret (Mirror locked now2))))"

definition key_conflict :: "publish_args \<Rightarrow> exn \<Rightarrow> bool" where
  "key_conflict a e \<longleftrightarrow> str_truthy (pa_idempotency_key a)
     \<and> (contains (exn_str e) ''UNIQUE constraint'' \<or> contains (exn_str e) ''duplicate key'')"

definition create_row :: "svc \<Rightarrow> jobs_cfg \<Rightarrow> pub_env \<Rightarrow> publish_args \<Rightarrow> (string \<times> json) list \<Rightarrow> pub_stage wact" where
  "create_row S c E a payload =
     (let j = new_job c a payload (pe_uuid E) (pe_now E) in
      catch
        (atomic (seqs (sv_job_create S j)
          (seqs (sv_event_create S \<lparr>ev_job = job_id j, ev_channel = job_channel j, ev_event = EvCreated,
                   ev_runner_id = None, ev_attempt = 0,
                   ev_details = [(''func'', JStr (job_func j)), (''channel'', JStr (job_channel j))]\<rparr>)
                (ret (Mirror j (pe_now E))))))
        (\<lambda>e. if key_conflict a e
             then catch (resume_existing S a payload (the (pa_idempotency_key a)) (pe_now2 E))
                    (\<lambda>e'. if e' = DoesNotExist
                          then throw (RuntimeError (''Failed to create job: '' @ exn_str e))
                          else throw e')
             else throw (RuntimeError (''Failed to create job: '' @ exn_str e))))"

text \<open>\<open>run_at and run_at > now\<close>\<close>

definition scheduled_later :: "job \<Rightarrow> rat \<Rightarrow> bool" where
  "scheduled_later j now = (case job_run_at j of None \<Rightarrow> False | Some t \<Rightarrow> t > now)"

definition score_ms :: "rat \<Rightarrow> rat" where
  "score_ms t = t * 1000"

definition sched_zset :: "jobs_cfg \<Rightarrow> job \<Rightarrow> string" where
  "sched_zset c j = (if job_broadcast j then k_sched_broadcast (pfx c) (job_channel j)
                     else k_sched (pfx c) (job_channel j))"

definition mirror_to_redis :: "svc \<Rightarrow> jobs_cfg \<Rightarrow> job \<Rightarrow> rat \<Rightarrow> unit wact" where
  "mirror_to_redis S c j now =
     catch
       (if scheduled_later j now
        then seqs (sv_zadd S (sched_zset c j) [(job_id j, score_ms (the (job_run_at j)))])
                  (register_sched_channel S c (job_channel j))
        else sv_rpush S (k_queue (pfx c) (job_channel j)) (job_id j))
       (\<lambda>e. seqs (sv_job_save S (job_id j)
                    (\<lambda>r. r\<lparr>job_status := Failed, job_last_error := ''Failed to queue: '' @ exn_str e,
                           job_modified := now\<rparr>))
                 (throw (RuntimeError (''Failed to queue job: '' @ exn_str e))))"

definition publish_enqueue :: "svc \<Rightarrow> jobs_cfg \<Rightarrow> pub_env \<Rightarrow> publish_args \<Rightarrow> (string \<times> json) list \<Rightarrow> string wact" where
  "publish_enqueue S c E a payload =
     bind (create_row S c E a payload) (\<lambda>st.
     case st of
       Done i \<Rightarrow> ret i
     | Mirror j now \<Rightarrow>
         seqs (mirror_to_redis S c j now)
        (seqs (attempt (sv_event_create S \<lparr>ev_job = job_id j, ev_channel = job_channel j,
                  ev_event = (if scheduled_later j now then EvScheduled else EvQueued),
                  ev_runner_id = None, ev_attempt = 0,
                  ev_details = (if scheduled_later j now
                    then [(''run_at'', JStr (isoformat (the (job_run_at j))))]
                    else [(''queue'', JStr (k_queue (pfx c) (job_channel j)))])\<rparr>))
        (seqs (attempt (seqs (sv_metric S ''jobs.published'')
                             (sv_metric S (''jobs.published.'' @ job_channel j))))
        (ret (job_id j)))))"

text \<open>A call of \<open>publish\<close> whose \<open>broadcast\<close> is false, as the fan-out makes them.\<close>

definition publish_single :: "svc \<Rightarrow> jobs_cfg \<Rightarrow> pub_env \<Rightarrow> publish_args \<Rightarrow> string wact" where
  "publish_single S c E a = bind (publish_checks S c a) (publish_enqueue S c E a)"

definition live_targets :: "runner_info list \<Rightarrow> string list" where
  "live_targets rs = [the (ri_runner_id r). r \<leftarrow> rs, ri_alive r, str_truthy (ri_runner_id r)]"

definition fan_args :: "publish_args \<Rightarrow> (string \<times> json) list \<Rightarrow> string \<Rightarrow> publish_args" where
  "fan_args a payload runner_id = a\<lparr>pa_func := Path (func_path (pa_func a)), pa_payload := JObj payload,
     pa_channel := runner_id, pa_delay := None, pa_run_at := None, pa_broadcast := False,
     pa_idempotency_key := (if str_truthy (pa_idempotency_key a)
        then Some (the (pa_idempotency_key a) @ '':'' @ runner_id) else None)\<rparr>"

fun fan_out :: "svc \<Rightarrow> jobs_cfg \<Rightarrow> (string \<Rightarrow> pub_env) \<Rightarrow> publish_args \<Rightarrow> (string \<times> json) list
    \<Rightarrow> string list \<Rightarrow> string list wact" where
  "fan_out S c Es a payload [] = ret []"
| "fan_out S c Es a payload (t # ts) =
     bind (publish_single S c (Es t) (fan_args a payload t)) (\<lambda>i.
     bind (fan_out S c Es a payload ts) (\<lambda>is. ret (i # is)))"

definition publish :: "svc \<Rightarrow> jobs_cfg \<Rightarrow> (string \<Rightarrow> runner_info list wact) \<Rightarrow> (string \<Rightarrow> pub_env) \<Rightarrow> pub_env
    \<Rightarrow> publish_args \<Rightarrow> pub_result wact" where
  "publish S c get_runners Es E a =
     bind (publish_checks S c a) (\<lambda>payload.
     if pa_broadcast a \<and> \<not> (pa_run_at a \<noteq> None \<or> int_truthy (pa_delay a))
     then bind (get_runners (pa_channel a)) (\<lambda>rs.
          if live_targets rs \<noteq> []
          then bind (fan_out S c Es a payload (sort (live_targets rs))) (\<lambda>is. ret (JobIds is))
          else bind (publish_enqueue S c E a payload) (\<lambda>i. ret (JobId i)))
     else bind (publish_enqueue S c E a payload) (\<lambda>i. ret (JobId i)))"

section \<open>publish_webhook, cancel, status\<close>

record webhook_args =
  wa_url :: json
  wa_data :: json
  wa_group :: "int option"
  wa_headers :: "(string \<times> json) list option"
  wa_timeout :: "int option"
  wa_webhook_id :: "string option"

fun dict_update :: "(string \<times> json) list \<Rightarrow> (string \<times> json) list \<Rightarrow> (string \<times> json) list" where
  "dict_update d [] = d"
| "dict_update d ((k, v) # kvs) =
     dict_update (if k \<in> fst ` set d then map (\<lambda>(k', v'). (k', if k' = k then v else v')) d else d @ [(k, v)]) kvs"

definition url_ok :: "json \<Rightarrow> bool" where
  "url_ok u = (case u of JStr s \<Rightarrow> s \<noteq> [] \<and> (starts_with s ''http://'' \<or> starts_with s ''https://'') | _ \<Rightarrow> False)"

definition webhook_payload :: "jobs_cfg \<Rightarrow> webhook_args \<Rightarrow> (string \<times> json) list" where
  "webhook_payload c wa =
     [(''url'', wa_url wa), (''data'', wa_data wa),
      (''headers'', JObj (dict_update
         [(''Content-Type'', JStr ''application/json''), (''User-Agent'', JStr (JOBS_WEBHOOK_USER_AGENT c))]
         (default_to [] (wa_headers wa)))),
      (''timeout'', JInt (if int_truthy (wa_timeout wa) then the (wa_timeout wa) else 30)),
      (''webhook_id'', (case wa_webhook_id wa of None \<Rightarrow> JNull | Some s \<Rightarrow> JStr s)),
      (''sign_group_id'', (case wa_group wa of None \<Rightarrow> JNull | Some g \<Rightarrow> JInt g))]"

text \<open>
  \<open>timeout > max_allowed_timeout\<close> raises \<open>TypeError\<close> for \<open>timeout=None\<close>, although the payload
  line above it allows for \<open>None\<close>.
\<close>

definition publish_webhook :: "svc \<Rightarrow> jobs_cfg \<Rightarrow> pub_env \<Rightarrow> webhook_args \<Rightarrow> publish_args \<Rightarrow> pub_result wact" where
  "publish_webhook S c E wa a =
     (if \<not> truthy (wa_url wa) \<or> (case wa_url wa of JStr _ \<Rightarrow> False | _ \<Rightarrow> True)
      then throw (ValueError ''URL must be a non-empty string'')
      else if \<not> url_ok (wa_url wa) then throw (ValueError ''URL must start with http:// or https://'')
      else (case wa_timeout wa of
              None \<Rightarrow> throw (TypeError ''NoneType > int'')
            | Some t \<Rightarrow>
                if t > JOBS_WEBHOOK_MAX_TIMEOUT c then throw (ValueError ''Timeout cannot exceed the limit'')
                else bind (publish_single S c E (a\<lparr>pa_func := Path ''mojo.apps.jobs.handlers.webhook.post_webhook'',
                       pa_payload := JObj (webhook_payload c wa), pa_broadcast := False,
                       pa_max_exec_seconds := None,
                       pa_max_retries := Some (default_to (JOBS_WEBHOOK_MAX_RETRIES c) (pa_max_retries a))\<rparr>))
                     (\<lambda>i. ret (JobId i))))"

definition cancel :: "svc \<Rightarrow> rat \<Rightarrow> string \<Rightarrow> bool wact" where
  "cancel S now i =
     catch
       (bind (sv_job_get S i) (\<lambda>j.
        if is_terminal j then ret False
        else seqs (sv_job_save S i (\<lambda>r. r\<lparr>job_cancel_requested := True, job_modified := now\<rparr>))
            (seqs (sv_event_create S \<lparr>ev_job = i, ev_channel = job_channel j, ev_event = EvCanceled,
                      ev_runner_id = None, ev_attempt = 0,
                      ev_details = [(''requested_at'', JStr (isoformat now))]\<rparr>)
            (ret True))))
       (\<lambda>_. ret False)"

definition iso_or_empty :: "rat option \<Rightarrow> json" where
  "iso_or_empty t = JStr (case t of None \<Rightarrow> [] | Some x \<Rightarrow> isoformat x)"

definition status_of :: "svc \<Rightarrow> string \<Rightarrow> (string \<times> json) list option wact" where
  "status_of S i =
     catch
       (bind (sv_job_get S i) (\<lambda>j. ret (Some
          [(''id'', JStr (job_id j)), (''status'', JStr (status_text (job_status j))),
           (''channel'', JStr (job_channel j)), (''func'', JStr (job_func j)),
           (''created'', JStr (isoformat (job_created j))),
           (''started_at'', iso_or_empty (job_started_at j)),
           (''finished_at'', iso_or_empty (job_finished_at j)),
           (''attempt'', JInt (job_attempt j)), (''last_error'', JStr (job_last_error j)),
           (''metadata'', JObj (job_metadata j))])))
       (\<lambda>_. ret None)"

end
