(* ===== verification/Job_Engine.thy ===== *)
theory Job_Engine
  imports Job_Publish
begin

text \<open>
  The runner daemon (\<open>mojo/apps/jobs/job_engine.py\<close>, with the provenance check of
  \<open>execution_context.py\<close>): identity and channels of an engine, its heartbeat, one turn of the
  main loop, \<open>execute_job\<close> with the database claim and the completion, failure handling with
  backoff, the reaper, and the control messages. Threads are not modelled here: each definition
  is what one thread does, and \<open>Job_System\<close> interleaves them. The job function is a parameter.
\<close>

section \<open>The engine object\<close>

record engine =
  en_runner_id :: string
  en_channels :: "string list"
  en_max_workers :: nat
  en_running :: bool
  en_initialized :: bool
  en_stopped :: bool
  en_active :: "(string \<times> string) list"
  en_processed :: nat
  en_failed :: nat
  en_start_time :: "rat option"

definition host_channel :: "string \<Rightarrow> string" where
  "host_channel hostname = replace_char CHR ''_'' CHR ''-'' (replace_char CHR ''.'' CHR ''-'' (lower hostname))"

definition generate_runner_id :: "string \<Rightarrow> string" where
  "generate_runner_id hostname = host_channel hostname @ ENGINE_CHANNEL_SUFFIX"

text \<open>\<open>JobEngine.__init__\<close>; \<open>hostname_channel\<close> is \<open>JOBS_HOSTNAME_CHANNEL\<close>.\<close>

definition engine_init :: "jobs_cfg \<Rightarrow> string \<Rightarrow> bool \<Rightarrow> nat \<Rightarrow> string list option \<Rightarrow> string option \<Rightarrow> nat option \<Rightarrow> engine" where
  "engine_init c hostname hostname_channel JOBS_ENGINE_MAX_WORKERS channels runner_id max_workers =
     (let rid = (if str_truthy runner_id then the runner_id else generate_runner_id hostname);
          chs = (case channels of None \<Rightarrow> JOB_CHANNELS c | Some l \<Rightarrow> if l = [] then JOB_CHANNELS c else l)
      in \<lparr>en_runner_id = rid,
          en_channels = (if hostname_channel \<and> rid \<notin> set chs then chs @ [rid] else chs),
          en_max_workers = (case max_workers of None \<Rightarrow> JOBS_ENGINE_MAX_WORKERS
             | Some n \<Rightarrow> if n = 0 then JOBS_ENGINE_MAX_WORKERS else n),
          en_running = False, en_initialized = False, en_stopped = False, en_active = [],
          en_processed = 0, en_failed = 0, en_start_time = None\<rparr>)"

definition heartbeat_doc :: "engine \<Rightarrow> string \<Rightarrow> rat \<Rightarrow> json" where
  "heartbeat_doc en hostname now = JObj
     [(''runner_id'', JStr (en_runner_id en)), (''hostname'', JStr hostname),
      (''channels'', JList (map JStr (en_channels en))),
      (''jobs_processed'', JInt (int (en_processed en))), (''jobs_failed'', JInt (int (en_failed en))),
      (''started'', (case en_start_time en of None \<Rightarrow> JNull | Some t \<Rightarrow> JStr (isoformat t))),
      (''last_heartbeat'', JStr (isoformat now))]"

text \<open>The registries first, then the heartbeat document; \<open>interval\<close> is \<open>heartbeat_interval\<close>.\<close>

definition publish_heartbeat :: "svc \<Rightarrow> jobs_cfg \<Rightarrow> engine \<Rightarrow> string \<Rightarrow> int \<Rightarrow> rat \<Rightarrow> unit wact" where
  "publish_heartbeat S c en hostname interval now =
     seqs (for_each (sort (remdups (en_channels en))) (\<lambda>ch.
             seqs (sv_zremrangebyscore S (k_runner_registry (pfx c) ch) (now - of_int (interval * 3)))
            (seqs (sv_zadd S (k_runner_registry (pfx c) ch) [(en_runner_id en, now)])
                  (sv_expire S (k_runner_registry (pfx c) ch)))))
          (sv_set S (k_runner_hb (pfx c) (en_runner_id en)) (json_dumps (heartbeat_doc en hostname now)))"

text \<open>\<open>int(time.time() * 1000)\<close>\<close>

definition now_ms :: "rat \<Rightarrow> rat" where
  "now_ms now = of_int \<lfloor>now * 1000\<rfloor>"

text \<open>One turn of the heartbeat thread.\<close>

definition heartbeat_turn :: "svc \<Rightarrow> jobs_cfg \<Rightarrow> engine \<Rightarrow> string \<Rightarrow> int \<Rightarrow> rat \<Rightarrow> unit wact" where
  "heartbeat_turn S c en hostname interval now =
     attempt (seqs (publish_heartbeat S c en hostname interval now)
       (attempt (for_each (en_active en) (\<lambda>(jid, ch).
          if ch = [] then ret ()
          else sv_zadd S (k_processing (pfx c) ch) [(jid, now_ms now)]))))"

definition engine_initialize :: "svc \<Rightarrow> jobs_cfg \<Rightarrow> string \<Rightarrow> int \<Rightarrow> rat \<Rightarrow> engine \<Rightarrow> world \<Rightarrow> unit res \<times> engine \<times> world" where
  "engine_initialize S c hostname interval now en w =
     (if en_initialized en then (Inr (), en, w)
      else (let en' = en\<lparr>en_initialized := True, en_running := True, en_start_time := Some now,
                         en_stopped := False\<rparr>
            in (case publish_heartbeat S c en' hostname interval now w of
                  (Inl e, w') \<Rightarrow> (Inl e, en'\<lparr>en_running := False, en_initialized := False\<rparr>, w')
                | (Inr _, w') \<Rightarrow> (Inr (), en', w'))))"

text \<open>The state and the Redis keys that \<open>stop\<close> changes (waiting for threads has no state).\<close>

definition engine_stop :: "svc \<Rightarrow> jobs_cfg \<Rightarrow> engine \<Rightarrow> world \<Rightarrow> engine \<times> world" where
  "engine_stop S c en w =
     (if en_running en then en\<lparr>en_running := False, en_stopped := True\<rparr> else en,
      snd (seqs (for_each (sort (remdups (en_channels en))) (\<lambda>ch.
                   attempt (sv_zrem S (k_runner_registry (pfx c) ch) (en_runner_id en))))
                (attempt (sv_delete S (k_runner_hb (pfx c) (en_runner_id en)))) w))"

section \<open>Claiming from the queues\<close>

text \<open>Priority first.\<close>

definition channels_ordered :: "string list \<Rightarrow> string list" where
  "channels_ordered chs =
     (if ''priority'' \<in> set chs then ''priority'' # filter (\<lambda>c. c \<noteq> ''priority'') chs else chs)"

text \<open>
  One turn of the main loop up to the submission to the pool: the engine object after it. An
  exception is logged and the next turn starts.
\<close>

definition claim_next :: "svc \<Rightarrow> jobs_cfg \<Rightarrow> rat \<Rightarrow> engine \<Rightarrow> engine wact" where
  "claim_next S c now en =
     (if length (en_active en) \<ge> en_max_workers en then ret en
      else catch
        (bind (sv_brpop S (map (k_queue (pfx c)) (channels_ordered (en_channels en)))) (\<lambda>popped.
         case popped of
           None \<Rightarrow> ret en
         | Some (qkey, jid) \<Rightarrow>
             seqs (attempt (sv_zadd S (k_processing (pfx c) (channel_of_key qkey)) [(jid, now_ms now)]))
                  (ret (en\<lparr>en_active := (jid, channel_of_key qkey)
                             # filter (\<lambda>p. fst p \<noteq> jid) (en_active en)\<rparr>))))
        (\<lambda>_. ret en))"

definition job_completed :: "string \<Rightarrow> engine \<Rightarrow> engine" where
  "job_completed jid en = en\<lparr>en_active := filter (\<lambda>p. fst p \<noteq> jid) (en_active en),
                             en_processed := Suc (en_processed en)\<rparr>"

text \<open>\<open>_remove_from_processing\<close>: \<open>n\<close> attempts are left; the last result, 0 for \<open>False\<close>.\<close>

fun remove_loop :: "svc \<Rightarrow> jobs_cfg \<Rightarrow> string \<Rightarrow> string \<Rightarrow> nat \<Rightarrow> nat wact" where
  "remove_loop S c ch jid 0 = ret 0"
| "remove_loop S c ch jid (Suc n) =
     bind (catch (bind (sv_zrem S (k_processing (pfx c) ch) jid) (\<lambda>r. ret (Some r))) (\<lambda>_. ret None)) (\<lambda>r.
     case r of
       Some k \<Rightarrow> if k \<noteq> 0 \<or> n = 0 then ret k else remove_loop S c ch jid n
     | None \<Rightarrow> remove_loop S c ch jid n)"

definition remove_from_processing :: "svc \<Rightarrow> jobs_cfg \<Rightarrow> string \<Rightarrow> string \<Rightarrow> unit wact" where
  "remove_from_processing S c ch jid = bind (remove_loop S c ch jid 3) (\<lambda>_. ret ())"

section \<open>Executing a job\<close>

text \<open>A job function gets the row object and may change it; what it does to the world is its own.\<close>

type_synonym handler = "job \<Rightarrow> job wact"

definition load_job_function :: "(string \<Rightarrow> string \<Rightarrow> handler option) \<Rightarrow> string \<Rightarrow> handler wact" where
  "load_job_function importlib path =
     (case split_last CHR ''.'' path of
        None \<Rightarrow> throw (ImportError (''Cannot load job function '' @ path))
      | Some (m, f) \<Rightarrow> (case importlib m f of
            None \<Rightarrow> throw (ImportError (''Cannot load job function '' @ path))
          | Some h \<Rightarrow> ret h))"

definition token_char :: "char \<Rightarrow> bool" where
  "token_char ch \<longleftrightarrow> is_upper ch \<or> is_lower ch \<or> is_digit ch \<or> ch \<in> set ''_.:@/-''"

definition exec_field :: "string \<Rightarrow> nat \<Rightarrow> bool" where
  "exec_field v maximum \<longleftrightarrow> length v \<le> maximum \<and> 1 \<le> length v \<and> length v \<le> 255 \<and> list_all token_char v"

text \<open>Entering \<open>with execution(...)\<close> on a thread that runs no other job.\<close>

definition execution :: "string \<Rightarrow> string \<Rightarrow> int \<Rightarrow> string \<Rightarrow> string \<Rightarrow> unit wact" where
  "execution jid fn att ch runner =
     (if \<not> (0 \<le> att \<and> att \<le> 1000000) then throw (ValueError ''job execution attempt is invalid'')
      else if \<not> exec_field jid 255 then throw (ValueError ''job execution job id is invalid'')
      else if \<not> exec_field fn 255 then throw (ValueError ''job execution function is invalid'')
      else if \<not> exec_field ch 128 then throw (ValueError ''job execution channel is invalid'')
      else if \<not> exec_field runner 128 then throw (ValueError ''job execution runner is invalid'')
      else ret ())"

definition job_event_of :: "job \<Rightarrow> event_kind \<Rightarrow> string \<Rightarrow> (string \<times> json) list \<Rightarrow> job_event" where
  "job_event_of j k runner details = \<lparr>ev_job = job_id j, ev_channel = job_channel j, ev_event = k,
     ev_runner_id = Some runner, ev_attempt = job_attempt j, ev_details = details\<rparr>"

definition exec_load :: "svc \<Rightarrow> jobs_cfg \<Rightarrow> string \<Rightarrow> string \<Rightarrow> job option wact" where
  "exec_load S c ch jid =
     catch (bind (sv_job_get S jid) (\<lambda>j. ret (Some j)))
       (\<lambda>_. seqs (attempt (sv_zrem S (k_processing (pfx c) ch) jid)) (ret None))"

text \<open>The update of the claiming statement.\<close>

definition claim_update :: "string \<Rightarrow> rat \<Rightarrow> job \<Rightarrow> job" where
  "claim_update runner now r = r\<lparr>job_status := Running, job_started_at := Some now,
     job_runner_id := Some runner, job_attempt := job_attempt r + 1\<rparr>"

text \<open>
  From the loaded row to the claimed one: \<open>None\<close> when the delivery is a duplicate, the job
  expired, or another delivery won the compare-and-set.
\<close>

definition exec_claim :: "svc \<Rightarrow> jobs_cfg \<Rightarrow> string \<Rightarrow> rat \<Rightarrow> string \<Rightarrow> string \<Rightarrow> job \<Rightarrow> job option wact" where
  "exec_claim S c runner now ch jid j =
     (if job_status j \<noteq> Pending then seqs (remove_from_processing S c ch jid) (ret None)
      else if is_expired now j then
        seqs (sv_job_save S jid (\<lambda>r. r\<lparr>job_status := Expired, job_finished_at := Some now\<rparr>))
       (seqs (attempt (sv_event_create S (job_event_of j EvExpired runner
                 [(''reason'', JStr ''job_expired_before_execution'')])))
       (seqs (remove_from_processing S c ch jid)
       (seqs (sv_metric S ''jobs.expired'')
       (ret None))))
      else
        bind (sv_job_cas S jid Pending (claim_update runner now)) (\<lambda>claimed.
        if claimed = 0 then seqs (remove_from_processing S c ch jid) (ret None)
        else bind (sv_job_get S jid) (\<lambda>j'.
             seqs (attempt (sv_event_create S (job_event_of j' EvRunning runner
                     [(''queue'', JStr (k_queue (pfx c) ch))])))
             (ret (Some j')))))"

definition backoff_of :: "job \<Rightarrow> rat" where
  "backoff_of j = min (job_backoff_base j ^ nat (job_attempt j)) (of_int (job_backoff_max_sec j))"

text \<open>\<open>backoff * (0.8 + random.random() * 0.4)\<close>\<close>

definition jitter_of :: "job \<Rightarrow> rat \<Rightarrow> rat" where
  "jitter_of j rnd = backoff_of j * (8 / 10 + rnd * (4 / 10))"

text \<open>What is done with the row \<open>j\<close> as it was read\<close>

definition retry_or_fail :: "svc \<Rightarrow> jobs_cfg \<Rightarrow> string \<Rightarrow> rat \<Rightarrow> rat \<Rightarrow> string \<Rightarrow> string \<Rightarrow> string \<Rightarrow> exn \<Rightarrow> job \<Rightarrow> unit wact" where
  "retry_or_fail S c runner now rnd trace ch jid err j =
     seqs
       (if job_attempt j < job_max_retries j then
          (let next_at = now + jitter_of j rnd in
           seqs (sv_job_save S jid (\<lambda>r. r\<lparr>job_status := Pending, job_run_at := Some next_at,
                    job_last_error := exn_str err, job_stack_trace := trace\<rparr>))
          (seqs (attempt (sv_event_create S (job_event_of j EvRetry runner
                    [(''reason'', JStr ''failure''), (''next_run_at'', JStr (isoformat next_at))])))
          (seqs (sv_zadd S (sched_zset c j) [(jid, score_ms next_at)])
          (seqs (register_sched_channel S c (job_channel j))
                (sv_metric S ''jobs.retried'')))))
        else
           seqs (sv_job_save S jid (\<lambda>r. r\<lparr>job_status := Failed, job_finished_at := Some now,
                    job_last_error := exn_str err, job_stack_trace := trace\<rparr>))
          (seqs (attempt (sv_event_create S (job_event_of j EvFailed runner
                    [(''error'', JStr (exn_str err))])))
          (seqs (sv_metric S ''jobs.failed'')
                (sv_metric S (''jobs.channel.'' @ job_channel j @ ''.failed'')))))
       (remove_from_processing S c ch jid)"

definition handle_job_failure :: "svc \<Rightarrow> jobs_cfg \<Rightarrow> string \<Rightarrow> rat \<Rightarrow> rat \<Rightarrow> string \<Rightarrow> string \<Rightarrow> string \<Rightarrow> exn \<Rightarrow> unit wact" where
  "handle_job_failure S c runner now rnd trace ch jid err =
     attempt (bind (sv_job_get S jid) (retry_or_fail S c runner now rnd trace ch jid err))"

text \<open>The \<open>except\<close> block of \<open>execute_job\<close>: a log line on the row, then the failure handling.\<close>

definition add_log :: "svc \<Rightarrow> rat \<Rightarrow> job \<Rightarrow> string \<Rightarrow> string \<Rightarrow> unit wact" where
  "add_log S now j message kind =
     (let k = lower (if kind = [] then ''info'' else kind) in
      seqs (sv_log_create S \<lparr>log_job = job_id j, log_channel = job_channel j,
              log_kind = (if k \<in> {''debug'', ''info'', ''warn'', ''error''} then k else ''info''),
              log_message = message, log_meta = []\<rparr>)
           (sv_job_save S (job_id j) (\<lambda>r. r\<lparr>job_modified := now\<rparr>)))"

definition exec_failed :: "svc \<Rightarrow> jobs_cfg \<Rightarrow> string \<Rightarrow> rat \<Rightarrow> rat \<Rightarrow> string \<Rightarrow> string \<Rightarrow> string \<Rightarrow> job \<Rightarrow> exn \<Rightarrow> unit wact" where
  "exec_failed S c runner now rnd trace ch jid j err =
     seqs (attempt (add_log S now j (''Failed to complete job: '' @ exn_str err) ''error''))
          (handle_job_failure S c runner now rnd trace ch jid err)"

text \<open>After the function returned: \<open>j\<close> is the row object it was given, with its changes.\<close>

definition exec_complete :: "svc \<Rightarrow> jobs_cfg \<Rightarrow> string \<Rightarrow> rat \<Rightarrow> string \<Rightarrow> string \<Rightarrow> job \<Rightarrow> unit wact" where
  "exec_complete S c runner now ch jid j =
     seqs (sv_job_save S jid (\<lambda>r. r\<lparr>job_status := Completed, job_finished_at := Some now,
             job_metadata := job_metadata j\<rparr>))
    (seqs (attempt (sv_event_create S (job_event_of j EvCompleted runner [])))
    (seqs (remove_from_processing S c ch jid)
    (seqs (sv_metric S ''jobs.completed'')
          (sv_metric S (''jobs.channel.'' @ job_channel j @ ''.completed'')))))"

text \<open>
  \<open>execute_job\<close>. \<open>t0\<close> is the clock before the function runs, \<open>t1\<close> after it. The exception
  handler sees the row object last assigned (\<open>job\<close>), as the Python local does.
\<close>

definition execute_job :: "svc \<Rightarrow> jobs_cfg \<Rightarrow> (string \<Rightarrow> string \<Rightarrow> handler option) \<Rightarrow> string \<Rightarrow> rat \<Rightarrow> rat \<Rightarrow> rat
    \<Rightarrow> string \<Rightarrow> string \<Rightarrow> string \<Rightarrow> unit wact" where
  "execute_job S c importlib runner t0 t1 rnd trace ch jid =
     bind (exec_load S c ch jid) (\<lambda>loaded.
     case loaded of
       None \<Rightarrow> ret ()
     | Some j \<Rightarrow> catch
         (bind (exec_claim S c runner t0 ch jid j) (\<lambda>claimed.
          case claimed of
            None \<Rightarrow> ret ()
          | Some j' \<Rightarrow>
              bind (load_job_function importlib (job_func j')) (\<lambda>func.
              seqs (execution (job_id j') (job_func j') (job_attempt j') (job_channel j') runner)
              (bind (func j') (exec_complete S c runner t1 ch jid)))))
         (exec_failed S c runner t1 rnd trace ch jid j))"

section \<open>The reaper\<close>

text \<open>One stale entry of the in-flight set of channel \<open>ch\<close>, whose row was read as \<open>j\<close>\<close>

definition reap_row :: "svc \<Rightarrow> jobs_cfg \<Rightarrow> string \<Rightarrow> rat \<Rightarrow> string \<Rightarrow> string \<Rightarrow> job \<Rightarrow> unit wact" where
  "reap_row S c runner now ch jid j =
     (if job_status j \<in> {Completed, Canceled, Failed, Expired} then remove_from_processing S c ch jid
     else if is_expired now j then
       seqs (remove_from_processing S c ch jid)
      (seqs (sv_job_save S jid (\<lambda>r. r\<lparr>job_status := Expired, job_finished_at := Some now\<rparr>))
            (sv_event_create S ((job_event_of j EvExpired runner [(''reason'', JStr ''reaper_expired'')])
               \<lparr>ev_channel := ch\<rparr>)))
     else if job_attempt j \<ge> job_max_retries j then
       seqs (remove_from_processing S c ch jid)
      (seqs (sv_job_save S jid (\<lambda>r. r\<lparr>job_status := Failed, job_finished_at := Some now,
               job_last_error := ''in-flight lease expired and the job is not retryable''\<rparr>))
            (sv_event_create S ((job_event_of j EvFailed runner
               [(''reason'', JStr ''reaper_max_retries_exceeded'')])\<lparr>ev_channel := ch\<rparr>)))
     else
       bind (if job_status j = Running
             then bind (sv_job_cas S jid Running (\<lambda>r. r\<lparr>job_status := Pending, job_runner_id := None\<rparr>))
                    (\<lambda>reset. if reset = 0 then seqs (remove_from_processing S c ch jid) (ret False) else ret True)
             else if job_status j \<noteq> Pending then seqs (remove_from_processing S c ch jid) (ret False)
             else ret True)
         (\<lambda>go. if \<not> go then ret ()
               else seqs (remove_from_processing S c ch jid)
                   (seqs (sv_rpush S (k_queue (pfx c) ch) jid)
                         (sv_event_create S ((job_event_of j EvRetry runner
                            [(''reason'', JStr ''reaper_timeout'')])\<lparr>ev_channel := ch\<rparr>)))))"

definition reap_body :: "svc \<Rightarrow> jobs_cfg \<Rightarrow> string \<Rightarrow> rat \<Rightarrow> string \<Rightarrow> string \<Rightarrow> unit wact" where
  "reap_body S c runner now ch jid = bind (sv_job_get S jid) (reap_row S c runner now ch jid)"

definition reap_one :: "svc \<Rightarrow> jobs_cfg \<Rightarrow> string \<Rightarrow> rat \<Rightarrow> string \<Rightarrow> string \<Rightarrow> unit wact" where
  "reap_one S c runner now ch jid =
     catch (reap_body S c runner now ch jid) (\<lambda>_. remove_from_processing S c ch jid)"

text \<open>One pass over one channel, under its short-lived lock.\<close>

definition reap_channel :: "svc \<Rightarrow> jobs_cfg \<Rightarrow> string \<Rightarrow> rat \<Rightarrow> rat \<Rightarrow> string \<Rightarrow> unit wact" where
  "reap_channel S c runner now cutoff ch =
     bind (catch (sv_set_nx S (k_reaper_lock (pfx c) ch) runner) (\<lambda>_. ret False)) (\<lambda>acquired.
     if \<not> acquired then ret ()
     else bind (catch (sv_zrangebyscore S (k_processing (pfx c) ch) cutoff 100) (\<lambda>_. ret [])) (\<lambda>stale_ids.
          for_each stale_ids (reap_one S c runner now ch)))"

definition reaper_pass :: "svc \<Rightarrow> jobs_cfg \<Rightarrow> int \<Rightarrow> rat \<Rightarrow> engine \<Rightarrow> unit wact" where
  "reaper_pass S c JOBS_VISIBILITY_TIMEOUT_MS now en =
     attempt (for_each (en_channels en)
       (reap_channel S c (en_runner_id en) now (now_ms now - of_int JOBS_VISIBILITY_TIMEOUT_MS)))"

end
