(* ===== verification/Job_Actions.thy ===== *)
theory Job_Actions
  imports Job_Scheduler
begin

text \<open>
  The actions an operator takes on a job (\<open>mojo/apps/jobs/services/job_actions.py\<close> and the
  REST actions of \<open>Job\<close> that call them). Each takes the row object the caller loaded; a response
  is the dictionary the service returns.
\<close>

type_synonym response = "(string \<times> json) list"

definition refusal :: "string \<Rightarrow> response" where
  "refusal msg = [(''status'', JBool False), (''error'', JStr msg)]"

fun resp_ok :: "response \<Rightarrow> bool" where
  "resp_ok r = (map_of r ''status'' = Some (JBool True))"

definition canceled_row :: "rat \<Rightarrow> job \<Rightarrow> job" where
  "canceled_row now r = r\<lparr>job_status := Canceled, job_finished_at := Some now,
     job_cancel_requested := True, job_runner_id := None, job_modified := now\<rparr>"

definition cancel_job :: "svc \<Rightarrow> jobs_cfg \<Rightarrow> rat \<Rightarrow> job \<Rightarrow> response wact" where
  "cancel_job S c now j =
     (if is_terminal j then ret (refusal (''Cannot cancel job in '' @ status_text (job_status j) @ '' state''))
      else catch
       (bind (if job_status j = Running \<and> str_truthy (job_runner_id j)
              then bind (sv_get S (k_runner_hb (pfx c) (the (job_runner_id j)))) (\<lambda>hb. ret (str_truthy hb))
              else ret False) (\<lambda>runner_alive.
        bind (if job_status j = Running
              then (if runner_alive
                    then seqs (sv_job_save S (job_id j)
                           (\<lambda>r. r\<lparr>job_cancel_requested := True, job_modified := now\<rparr>)) (ret (False, Running))
                    else seqs (sv_job_save S (job_id j) (canceled_row now)) (ret (True, Canceled)))
              else seqs (sv_job_save S (job_id j) (canceled_row now))
                  (seqs (attempt (seqs (sv_zrem S (k_sched (pfx c) (job_channel j)) (job_id j))
                                       (sv_zrem S (k_sched_broadcast (pfx c) (job_channel j)) (job_id j))))
                        (ret (False, Canceled)))) (\<lambda>(forced, st).
        seqs (sv_event_create S \<lparr>ev_job = job_id j, ev_channel = job_channel j, ev_event = EvCanceled,
                ev_runner_id = None, ev_attempt = 0,
                ev_details = [(''requested_at'', JStr (isoformat now)), (''forced'', JBool forced),
                  (''previous_status'', JStr (status_text (job_status j)))]\<rparr>)
             (ret [(''status'', JBool True),
                   (''message'', JStr (''Job '' @ job_id j @ (if st = Canceled then '' canceled'' else '' cancellation requested''))),
                   (''job_id'', JStr (job_id j)), (''forced'', JBool forced)]))))
       (\<lambda>e. ret (refusal (''Failed to cancel job: '' @ exn_str e))))"

definition retry_row :: "rat \<Rightarrow> int option \<Rightarrow> job \<Rightarrow> job" where
  "retry_row now delay j = j\<lparr>job_status := Pending, job_attempt := 0, job_last_error := [],
     job_stack_trace := [], job_cancel_requested := False, job_runner_id := None,
     job_started_at := None, job_finished_at := None,
     job_run_at := (if int_truthy delay then Some (now + of_int (the delay)) else None),
     job_modified := now\<rparr>"

text \<open>The arguments with which a row is published again.\<close>

definition republish_args :: "job \<Rightarrow> publish_args" where
  "republish_args j = \<lparr>pa_func = Path (job_func j), pa_payload = JObj (job_payload j),
     pa_channel = job_channel j, pa_delay = None, pa_run_at = job_run_at j,
     pa_broadcast = job_broadcast j, pa_max_retries = Some (job_max_retries j),
     pa_backoff_base = Some (job_backoff_base j), pa_backoff_max = Some (job_backoff_max_sec j),
     pa_expires_in = None, pa_expires_at = job_expires_at j,
     pa_max_exec_seconds = job_max_exec_seconds j, pa_idempotency_key = None\<rparr>"

fun pub_result_json :: "pub_result \<Rightarrow> json" where
  "pub_result_json (JobId i) = JStr i"
| "pub_result_json (JobIds is) = JList (map JStr is)"

text \<open>What an action needs to publish: the roster and the identifiers and clock of the calls.\<close>

record pub_ctx =
  px_runners :: "string \<Rightarrow> runner_info list wact"
  px_envs :: "string \<Rightarrow> pub_env"
  px_env :: pub_env

definition publish_in :: "svc \<Rightarrow> jobs_cfg \<Rightarrow> pub_ctx \<Rightarrow> publish_args \<Rightarrow> pub_result wact" where
  "publish_in S c px = publish S c (px_runners px) (px_envs px) (px_env px)"

definition int_json :: "int option \<Rightarrow> json" where
  "int_json i = (case i of None \<Rightarrow> JNull | Some n \<Rightarrow> JInt n)"

definition retry_job :: "svc \<Rightarrow> jobs_cfg \<Rightarrow> pub_ctx \<Rightarrow> rat \<Rightarrow> job \<Rightarrow> int option \<Rightarrow> response wact" where
  "retry_job S c px now j delay =
     (if job_status j \<notin> {Failed, Canceled, Expired}
      then ret (refusal (''Cannot retry job in '' @ status_text (job_status j) @ '' state''))
      else (let j' = retry_row now delay j in
        seqs (sv_job_put S j')
       (catch
         (bind (publish_in S c px (republish_args j')) (\<lambda>new_id.
          seqs (sv_event_create S \<lparr>ev_job = job_id j, ev_channel = job_channel j, ev_event = EvRetry,
                  ev_runner_id = None, ev_attempt = 0,
                  ev_details = [(''retry_requested'', JBool True), (''new_job_id'', pub_result_json new_id),
                    (''delay'', int_json delay)]\<rparr>)
               (ret [(''status'', JBool True), (''message'', JStr ''Job retry scheduled''),
                     (''original_job_id'', JStr (job_id j)), (''new_job_id'', pub_result_json new_id),
                     (''delayed'', JBool (delay \<noteq> None))])))
         (\<lambda>e. ret (refusal (''Failed to retry job: '' @ exn_str e))))))"

definition pause_row :: "rat \<Rightarrow> (string \<times> json) list \<Rightarrow> job \<Rightarrow> job" where
  "pause_row now md r = r\<lparr>job_status := Canceled, job_metadata := md, job_modified := now\<rparr>"

definition pause_job :: "svc \<Rightarrow> jobs_cfg \<Rightarrow> rat \<Rightarrow> job \<Rightarrow> response wact" where
  "pause_job S c now j =
     (if job_status j \<noteq> Pending
      then ret (refusal (''Cannot pause job in '' @ status_text (job_status j) @ '' state''))
      else
        seqs (sv_job_save S (job_id j) (pause_row now
                (dict_update (job_metadata j) [(''paused'', JBool True), (''paused_at'', JStr (isoformat now))])))
       (seqs (attempt (seqs (if job_run_at j \<noteq> None
                             then bind (sv_zrem S (k_sched (pfx c) (job_channel j)) (job_id j)) (\<lambda>_. ret ())
                             else ret ())
                            (sv_delete S (k_job (pfx c) (job_id j)))))
       (seqs (sv_event_create S \<lparr>ev_job = job_id j, ev_channel = job_channel j, ev_event = EvCanceled,
                ev_runner_id = None, ev_attempt = 0, ev_details = [(''paused'', JBool True)]\<rparr>)
       (ret [(''status'', JBool True), (''message'', JStr (''Job '' @ job_id j @ '' paused'')),
             (''job_id'', JStr (job_id j))]))))"

definition is_paused :: "job \<Rightarrow> bool" where
  "is_paused j \<longleftrightarrow> (case map_of (job_metadata j) ''paused'' of None \<Rightarrow> False | Some v \<Rightarrow> truthy v)"

definition resume_metadata :: "rat \<Rightarrow> job \<Rightarrow> (string \<times> json) list" where
  "resume_metadata now j =
     dict_update (filter (\<lambda>p. fst p \<notin> {''paused'', ''paused_at''}) (job_metadata j))
       [(''resumed_at'', JStr (isoformat now))]"

definition resume_row :: "rat \<Rightarrow> (string \<times> json) list \<Rightarrow> job \<Rightarrow> job" where
  "resume_row now md r = r\<lparr>job_status := Pending, job_metadata := md, job_modified := now\<rparr>"

definition resume_job :: "svc \<Rightarrow> jobs_cfg \<Rightarrow> pub_ctx \<Rightarrow> rat \<Rightarrow> job \<Rightarrow> response wact" where
  "resume_job S c px now j =
     (if job_status j \<noteq> Canceled \<or> \<not> is_paused j then ret (refusal ''Job is not paused'')
      else
        seqs (sv_job_save S (job_id j) (resume_row now (resume_metadata now j)))
       (catch
         (bind (publish_in S c px (republish_args j)) (\<lambda>new_id.
          seqs (sv_event_create S \<lparr>ev_job = job_id j, ev_channel = job_channel j, ev_event = EvQueued,
                  ev_runner_id = None, ev_attempt = 0,
                  ev_details = [(''resumed'', JBool True), (''new_job_id'', pub_result_json new_id)]\<rparr>)
               (ret [(''status'', JBool True), (''message'', JStr ''Job resumed''),
                     (''original_job_id'', JStr (job_id j)), (''new_job_id'', pub_result_json new_id)])))
         (\<lambda>e. ret (refusal (''Failed to resume job: '' @ exn_str e)))))"

text \<open>The overrides of \<open>publish_job_from_template\<close>: \<open>Some v\<close> for a key that is in the dictionary.\<close>

record template_overrides =
  to_func :: "string option"
  to_payload :: "json option"
  to_channel :: "string option"
  to_broadcast :: "bool option"
  to_max_retries :: "int option"
  to_backoff_base :: "rat option"
  to_backoff_max :: "int option"
  to_max_exec_seconds :: "int option option"
  to_delay :: "int option option"
  to_run_at :: "rat option option"
  to_expires_in :: "int option option"
  to_expires_at :: "rat option option"

definition template_args :: "job \<Rightarrow> template_overrides \<Rightarrow> publish_args" where
  "template_args j ov = \<lparr>
     pa_func = Path (default_to (job_func j) (to_func ov)),
     pa_payload = default_to (JObj (job_payload j)) (to_payload ov),
     pa_channel = default_to (job_channel j) (to_channel ov),
     pa_delay = default_to None (to_delay ov),
     pa_run_at = (if to_delay ov \<noteq> None then None else default_to (job_run_at j) (to_run_at ov)),
     pa_broadcast = default_to (job_broadcast j) (to_broadcast ov),
     pa_max_retries = Some (default_to (job_max_retries j) (to_max_retries ov)),
     pa_backoff_base = Some (default_to (job_backoff_base j) (to_backoff_base ov)),
     pa_backoff_max = Some (default_to (job_backoff_max_sec j) (to_backoff_max ov)),
     pa_expires_in = default_to None (to_expires_in ov),
     pa_expires_at = (if to_expires_in ov \<noteq> None then None else default_to None (to_expires_at ov)),
     pa_max_exec_seconds = default_to (job_max_exec_seconds j) (to_max_exec_seconds ov),
     pa_idempotency_key = None\<rparr>"

definition publish_job_from_template :: "svc \<Rightarrow> jobs_cfg \<Rightarrow> pub_ctx \<Rightarrow> job \<Rightarrow> template_overrides \<Rightarrow> response wact" where
  "publish_job_from_template S c px j ov =
     catch
       (bind (publish_in S c px (template_args j ov)) (\<lambda>new_id.
        ret [(''status'', JBool True), (''message'', JStr ''Job published successfully''),
             (''job_id'', pub_result_json new_id), (''template_job_id'', JStr (job_id j))]))
       (\<lambda>e. ret (refusal (''Failed to publish job: '' @ exn_str e)))"

section \<open>The REST actions of the model\<close>

definition on_action_cancel_request :: "svc \<Rightarrow> jobs_cfg \<Rightarrow> rat \<Rightarrow> job \<Rightarrow> json \<Rightarrow> response wact" where
  "on_action_cancel_request S c now j v =
     (if \<not> truthy v then ret (refusal ''cancel_request must be true'') else cancel_job S c now j)"

text \<open>A delay given as a number; other JSON values of \<open>delay\<close> are outside the model's type.\<close>

fun json_int :: "json \<Rightarrow> int option" where
  "json_int (JInt i) = Some i"
| "json_int (JBool b) = Some (if b then 1 else 0)"
| "json_int _ = None"

definition on_action_retry_request :: "svc \<Rightarrow> jobs_cfg \<Rightarrow> pub_ctx \<Rightarrow> rat \<Rightarrow> job \<Rightarrow> json \<Rightarrow> response wact" where
  "on_action_retry_request S c px now j v =
     (let bad = ret (refusal ''retry_request must be true or {retry: true, delay: N}'') in
      case v of
        JObj m \<Rightarrow>
          if \<not> (case map_of m ''retry'' of None \<Rightarrow> False | Some r \<Rightarrow> truthy r) then bad
          else retry_job S c px now j (case map_of m ''delay'' of None \<Rightarrow> None | Some d \<Rightarrow> json_int d)
      | _ \<Rightarrow> if \<not> truthy v then bad else retry_job S c px now j None)"

end
