(* ===== verification/Job_Safety.thy ===== *)
theory Job_Safety
  imports Job_Actions
begin

text \<open>
  The invariant of the job table under every operation, whatever fails: identifiers are
  distinct, the attempts already started are covered by the counter of their row and, with \<open>B\<close>, an
  attempt counter never passes the retry bound and a pending row has attempts left. Without \<open>B\<close> the
  invariant also survives the writes of a failure handler or reaper that has read its row long before. Each operation of the previous
  theories keeps it, for any services that satisfy the laws of \<open>services\<close>; the step system of
  \<open>Job_System\<close> rests on these lemmas.
\<close>

section \<open>The invariant\<close>

definition row_ok :: "bool \<Rightarrow> job \<Rightarrow> bool" where
  "row_ok B j \<longleftrightarrow> 0 \<le> job_attempt j
     \<and> (B \<longrightarrow> job_attempt j \<le> max 1 (job_max_retries j)
          \<and> (job_status j = Pending \<longrightarrow> job_attempt j = 0 \<or> job_attempt j < job_max_retries j))"

definition table_ok :: "bool \<Rightarrow> job list \<Rightarrow> bool" where
  "table_ok B rows \<longleftrightarrow> distinct (map job_id rows) \<and> (\<forall>r \<in> set rows. row_ok B r)"

text \<open>The starts logged so far: the identifier and the attempt number of each.\<close>

type_synonym starts = "(string \<times> int) list"

definition covers :: "starts \<Rightarrow> job list \<Rightarrow> bool" where
  "covers st rows \<longleftrightarrow>
     (\<forall>p \<in> set st. \<exists>r. row_get (fst p) rows = Some r \<and> 1 \<le> snd p \<and> snd p \<le> job_attempt r)"

definition jobs_inv :: "bool \<Rightarrow> starts \<Rightarrow> job list \<Rightarrow> bool" where
  "jobs_inv B st rows \<longleftrightarrow> table_ok B rows \<and> covers st rows"

lemma table_ok_row: "table_ok B rows \<Longrightarrow> row_get i rows = Some r \<Longrightarrow> row_ok B r"
  by (auto simp: table_ok_def dest: row_get_mem)

lemma jobs_inv_row: "jobs_inv B st rows \<Longrightarrow> row_get i rows = Some r \<Longrightarrow> row_ok B r"
  by (auto simp: jobs_inv_def table_ok_row)

lemma table_ok_upd:
  assumes "table_ok B rows" and "keeps_id f"
    and "\<And>r. row_get i rows = Some r \<Longrightarrow> row_ok B r \<Longrightarrow> row_ok B (f r)"
  shows "table_ok B (row_upd i f rows)"
proof -
  have "row_ok B r'" if "r' \<in> set (row_upd i f rows)" for r'
  proof -
    from that obtain r where r: "r \<in> set rows" "r' = (if job_id r = i then f r else r)"
      by (auto simp: row_upd_def)
    with assms(1) have "row_get (job_id r) rows = Some r" "row_ok B r"
      by (auto simp: table_ok_def row_get_unique)
    with r assms(3) show ?thesis by auto
  qed
  with assms(1,2) show ?thesis by (auto simp: table_ok_def ids_row_upd)
qed

lemma covers_upd:
  assumes "covers st rows" and "keeps_id f"
    and "\<And>r. row_get i rows = Some r \<Longrightarrow> job_attempt r \<le> job_attempt (f r)"
  shows "covers st (row_upd i f rows)"
  unfolding covers_def
proof
  fix p assume "p \<in> set st"
  with assms(1) obtain r where "row_get (fst p) rows = Some r" "1 \<le> snd p" "snd p \<le> job_attempt r"
    by (auto simp: covers_def)
  with assms(2,3) show "\<exists>r. row_get (fst p) (row_upd i f rows) = Some r \<and> 1 \<le> snd p \<and> snd p \<le> job_attempt r"
    by (fastforce simp: row_get_upd)
qed

lemma jobs_inv_upd:
  assumes "jobs_inv B st rows" and "keeps_id f"
    and "\<And>r. row_get i rows = Some r \<Longrightarrow> row_ok B r \<Longrightarrow> row_ok B (f r) \<and> job_attempt r \<le> job_attempt (f r)"
  shows "jobs_inv B st (row_upd i f rows)"
  using assms by (metis covers_upd jobs_inv_def jobs_inv_row table_ok_upd)

lemma jobs_inv_append:
  assumes "jobs_inv B st rows" and "row_get (job_id j) rows = None" and "row_ok B j"
  shows "jobs_inv B st (rows @ [j])"
proof -
  have "table_ok B (rows @ [j])" using assms by (auto simp: jobs_inv_def table_ok_def row_get_None)
  moreover have "covers st (rows @ [j])" using assms(1)
    by (fastforce simp: jobs_inv_def covers_def row_get_append split: option.splits)
  ultimately show ?thesis by (simp add: jobs_inv_def)
qed

text \<open>The updates of one row that never disturb the invariant: they leave counter and bound alone
  and do not make a row pending.\<close>

definition gentle :: "(job \<Rightarrow> job) \<Rightarrow> bool" where
  "gentle f \<longleftrightarrow> (\<forall>r. job_id (f r) = job_id r \<and> job_attempt (f r) = job_attempt r
     \<and> job_max_retries (f r) = job_max_retries r
     \<and> (job_status (f r) = Pending \<longrightarrow> job_status r = Pending))"

lemma jobs_inv_gentle: "jobs_inv B st rows \<Longrightarrow> gentle f \<Longrightarrow> jobs_inv B st (row_upd i f rows)"
  by (rule jobs_inv_upd) (auto simp: gentle_def keeps_id_def row_ok_def)

lemma ids_row_put: "map job_id (row_upd (job_id j) (\<lambda>_. j) rows) = map job_id rows"
  by (induction rows) (auto simp: row_upd_def)

lemma new_job_ok: "row_ok B (new_job c a payload i now)"
  by (simp add: row_ok_def new_job_def le_max_iff_disj)

abbreviation inv_world :: "bool \<Rightarrow> starts \<Rightarrow> world \<Rightarrow> bool" where
  "inv_world B st \<equiv> jobs_only (jobs_inv B st)"

section \<open>Reads and writes of rows\<close>

context services
begin

lemma may_fail_triple:
  assumes "may_fail m g" and "triple P g Q E"
    and "\<And>w. P w \<Longrightarrow> E w" and "\<And>w. P w \<Longrightarrow> E (snd (g w))"
  shows "triple P m Q E"
  unfolding triple_def
proof (intro allI impI)
  fix w assume w: "P w"
  from assms(1) show "case m w of (Inl e, w') \<Rightarrow> E w' | (Inr x, w') \<Rightarrow> Q x w'"
    using assms(2-4) w by (cases rule: may_fail_cases [of m g w]) (auto simp: triple_def)
qed

lemma triple_job_get:
  "triple (jobs_only P) (sv_job_get S i)
     (\<lambda>j. jobs_only (\<lambda>rows. P rows \<and> row_get i rows = Some j)) (jobs_only P)"
  by (rule may_fail_triple, rule job_get)
    (auto simp: triple_def jobs_only_def d_job_get_def split: option.splits)

lemma triple_job_by_key:
  "triple (jobs_only P) (sv_job_by_key S k)
     (\<lambda>j. jobs_only (\<lambda>rows. P rows \<and> row_by_key k rows = Some j)) (jobs_only P)"
  by (rule may_fail_triple, rule job_by_key)
    (auto simp: triple_def jobs_only_def d_job_by_key_def split: option.splits)

lemma triple_job_save:
  assumes "\<And>rows r. P rows \<Longrightarrow> row_get i rows = Some r \<Longrightarrow> Q (row_upd i f rows)"
    and "\<And>rows. P rows \<Longrightarrow> E rows" and "\<And>rows. Q rows \<Longrightarrow> E rows"
  shows "triple (jobs_only P) (sv_job_save S i f) (\<lambda>_. jobs_only Q) (jobs_only E)"
  by (rule may_fail_triple, rule job_save)
    (auto simp: triple_def jobs_only_def d_job_save_def assms)

lemma triple_job_cas:
  assumes "\<And>rows r. P rows \<Longrightarrow> row_get i rows = Some r \<Longrightarrow> job_status r = s \<Longrightarrow> Q (row_upd i f rows)"
    and "\<And>rows. P rows \<Longrightarrow> E rows" and "\<And>rows. Q rows \<Longrightarrow> E rows"
  shows "triple (jobs_only P) (sv_job_cas S i s f)
    (\<lambda>n. jobs_only (\<lambda>rows. if n = 0 then P rows else Q rows)) (jobs_only E)"
  by (rule may_fail_triple, rule job_cas)
    (auto simp: triple_def jobs_only_def d_job_cas_def assms split: option.splits)

lemma inv_job_save [keeps_intro]: "gentle f \<Longrightarrow> keeps (inv_world B st) (sv_job_save S i f)"
  by (rule keeps_job_save) (rule jobs_inv_gentle)

end

lemma triple_weaken:
  "triple (jobs_only P) m (\<lambda>x. jobs_only (Q x)) (jobs_only E) \<Longrightarrow> (\<And>rows. P' rows \<Longrightarrow> P rows) \<Longrightarrow>
   (\<And>x rows. Q x rows \<Longrightarrow> Q' x rows) \<Longrightarrow> (\<And>rows. E rows \<Longrightarrow> E' rows) \<Longrightarrow>
   triple (jobs_only P') m (\<lambda>x. jobs_only (Q' x)) (jobs_only E')"
  by (rule triple_post, erule triple_pre) (auto simp: jobs_only_def)

lemma keeps_weaken_triple:
  "keeps (jobs_only Q) m \<Longrightarrow> (\<And>rows. P rows \<Longrightarrow> Q rows) \<Longrightarrow> triple (jobs_only P) m (\<lambda>_. jobs_only Q) (jobs_only Q)"
  by (rule triple_pre, erule keeps_triple) (simp add: jobs_only_def)

section \<open>Publishing\<close>

context services
begin

lemma inv_publish_checks: "keeps (inv_world B st) (publish_checks S c a)"
  unfolding publish_checks_def validate_channel_name_def report_undeclared_channel_def Let_def
  by (intro keeps_intro)

lemma inv_register [keeps_intro]: "keeps (jobs_only P) (register_sched_channel S c ch)"
  unfolding register_sched_channel_def by (intro keeps_intro)

lemma inv_resume_save:
  "triple (jobs_only (\<lambda>rows. jobs_inv B st rows \<and> row_by_key k rows = Some l))
     (if can_resume l
      then (let f = (\<lambda>j. j\<lparr>job_status := Pending, job_last_error := [], job_stack_trace := [],
                            job_finished_at := None, job_modified := now2\<rparr>)
            in seqs (sv_job_save S (job_id l) f) (ret (Mirror (f l) now2)))
      else if job_status l \<noteq> Pending then ret (Done (job_id l)) else ret (Mirror l now2))
     (\<lambda>_. inv_world B st) (inv_world B st)" (is "triple ?P ?m _ _")
proof (cases "can_resume l")
  case True
  let ?f = "\<lambda>j. j\<lparr>job_status := Pending, job_last_error := [], job_stack_trace := [],
                  job_finished_at := None, job_modified := now2\<rparr>"
  have "triple ?P (sv_job_save S (job_id l) ?f) (\<lambda>_. inv_world B st) (inv_world B st)"
  proof (rule triple_job_save)
    fix rows r assume P: "jobs_inv B st rows \<and> row_by_key k rows = Some l" and r: "row_get (job_id l) rows = Some r"
    then have "r = l" by (metis jobs_inv_def row_by_key_mem row_get_unique table_ok_def option.inject)
    with P r True show "jobs_inv B st (row_upd (job_id l) ?f rows)"
      by (intro jobs_inv_upd) (auto simp: keeps_id_def row_ok_def can_resume_def)
  qed auto
  with True show ?thesis
    by (auto simp: Let_def intro!: triple_seqs [OF _ keeps_triple [OF keeps_ret]])
next
  case False
  then show ?thesis
    by (auto intro!: triple_pre [OF keeps_triple [OF keeps_ret]] simp: jobs_only_def)
qed

lemma inv_resume_existing [keeps_intro]: "keeps (inv_world B st) (resume_existing S a payload key now2)"
  unfolding resume_existing_def
  by (intro keeps_intro triple_keeps [OF triple_bind [OF triple_job_by_key inv_resume_save]])

lemma inv_job_create [keeps_intro]: "row_ok B j \<Longrightarrow> keeps (inv_world B st) (sv_job_create S j)"
  by (rule keeps_job_create) (simp add: jobs_inv_append)

lemma inv_create_row [keeps_intro]: "keeps (inv_world B st) (create_row S c E a payload)"
  unfolding create_row_def Let_def by (intro keeps_intro new_job_ok)

lemma inv_mirror [keeps_intro]: "keeps (inv_world B st) (mirror_to_redis S c j now)"
  unfolding mirror_to_redis_def by (intro keeps_intro) (simp add: gentle_def)

lemma keeps_case_stage [keeps_intro]:
  "(\<And>i. x = Done i \<Longrightarrow> keeps P (f i)) \<Longrightarrow> (\<And>j t. x = Mirror j t \<Longrightarrow> keeps P (g j t)) \<Longrightarrow>
   keeps P (case x of Done i \<Rightarrow> f i | Mirror j t \<Rightarrow> g j t)"
  by (cases x) auto

lemma inv_publish_enqueue [keeps_intro]: "keeps (inv_world B st) (publish_enqueue S c E a payload)"
  unfolding publish_enqueue_def by (intro keeps_intro)

lemma inv_publish_single [keeps_intro]: "keeps (inv_world B st) (publish_single S c E a)"
  unfolding publish_single_def by (intro keeps_intro inv_publish_checks)

lemma inv_fan_out [keeps_intro]: "keeps (inv_world B st) (fan_out S c Es a payload ts)"
  by (induction ts) (auto intro!: keeps_intro)

lemma inv_publish:
  assumes "\<And>ch. keeps (inv_world B st) (get_runners ch)"
  shows "keeps (inv_world B st) (publish S c get_runners Es E a)"
  unfolding publish_def by (intro keeps_intro inv_publish_checks assms)

lemma inv_publish_webhook: "keeps (inv_world B st) (publish_webhook S c E wa a)"
  unfolding publish_webhook_def by (intro keeps_intro)

lemma inv_cancel: "keeps (inv_world B st) (cancel S now i)"
  unfolding cancel_def by (intro keeps_intro) (simp add: gentle_def)

section \<open>The engine\<close>

lemma inv_remove_loop [keeps_intro]: "keeps (jobs_only P) (remove_loop S c ch jid n)"
  by (induction n) (auto intro!: keeps_intro)

lemma inv_remove [keeps_intro]: "keeps (jobs_only P) (remove_from_processing S c ch jid)"
  unfolding remove_from_processing_def by (intro keeps_intro)

lemma inv_claim_next: "keeps (jobs_only P) (claim_next S c now en)"
  unfolding claim_next_def by (intro keeps_intro)

lemma inv_exec_load [keeps_intro]: "keeps (jobs_only P) (exec_load S c ch jid)"
  unfolding exec_load_def by (intro keeps_intro)

end

text \<open>The claim: whoever gets the row gets an attempt number that nobody started before.\<close>

definition fresh_claim :: "bool \<Rightarrow> starts \<Rightarrow> string \<Rightarrow> job list \<Rightarrow> bool" where
  "fresh_claim B st i rows \<longleftrightarrow> jobs_inv B st rows \<and>
     (\<exists>r. row_get i rows = Some r \<and> 1 \<le> job_attempt r \<and> (\<forall>p \<in> set st. fst p = i \<longrightarrow> snd p < job_attempt r))"

definition claim_post :: "bool \<Rightarrow> starts \<Rightarrow> string \<Rightarrow> job option \<Rightarrow> job list \<Rightarrow> bool" where
  "claim_post B st i x rows =
     (case x of
        None \<Rightarrow> jobs_inv B st rows
      | Some j \<Rightarrow> jobs_inv B ((i, job_attempt j) # st) rows \<and> (i, job_attempt j) \<notin> set st \<and> job_id j = i)"

lemma fresh_claim_cas:
  assumes inv: "jobs_inv B st rows" and r: "row_get i rows = Some r" and "job_status r = Pending"
  shows "fresh_claim B st i (row_upd i (claim_update runner now) rows)"
proof -
  have k: "keeps_id (claim_update runner now)" by (simp add: keeps_id_def claim_update_def)
  have "row_ok B r" using inv r by (rule jobs_inv_row)
  with assms(3) have ok: "row_ok B (claim_update runner now r)" and "0 \<le> job_attempt r"
    by (auto simp: row_ok_def claim_update_def)
  have inv': "jobs_inv B st (row_upd i (claim_update runner now) rows)"
    by (rule jobs_inv_upd [OF inv k]) (use r ok in \<open>auto simp: claim_update_def\<close>)
  have "snd p < job_attempt (claim_update runner now r)" if "p \<in> set st" "fst p = i" for p
    using inv r that by (fastforce simp: jobs_inv_def covers_def claim_update_def)
  with inv' k r \<open>0 \<le> job_attempt r\<close> show ?thesis
    by (auto simp: fresh_claim_def row_get_upd claim_update_def)
qed

lemma fresh_claim_post:
  assumes "fresh_claim B st i rows" and "row_get i rows = Some j"
  shows "claim_post B st i (Some j) rows"
  using assms by (auto simp: fresh_claim_def claim_post_def jobs_inv_def covers_def dest: row_get_id)

lemma claim_post_inv: "claim_post B st i x rows \<Longrightarrow> jobs_inv B st rows"
  by (auto simp: claim_post_def jobs_inv_def covers_def split: option.splits)

lemma fresh_claim_inv: "fresh_claim B st i rows \<Longrightarrow> jobs_inv B st rows"
  by (simp add: fresh_claim_def)

context services
begin

lemma inv_exec_claim:
  "triple (inv_world B st) (exec_claim S c runner now ch jid j)
     (\<lambda>x. jobs_only (claim_post B st jid x)) (inv_world B st)"
proof -
  let ?get = "bind (sv_job_get S jid) (\<lambda>j'. seqs (attempt (sv_event_create S (job_event_of j' EvRunning runner
                [(''queue'', JStr (k_queue (pfx c) ch))]))) (ret (Some j')))"
  have none: "triple (inv_world B st) m (\<lambda>x. jobs_only (claim_post B st jid x)) (inv_world B st)"
    if "keeps (inv_world B st) m" "\<And>w. case m w of (Inl e, w') \<Rightarrow> True | (Inr x, w') \<Rightarrow> x = None" for m
    using keeps_triple [OF that(1)] that(2)
    by (fastforce simp: triple_def jobs_only_def claim_post_def split: prod.splits sum.splits)
  have event: "triple (jobs_only (claim_post B st jid x)) (seqs (attempt (sv_event_create S e)) (ret x))
      (\<lambda>x. jobs_only (claim_post B st jid x)) (inv_world B st)" for x e
    by (rule triple_seqs [where R = "jobs_only (claim_post B st jid x)"],
        rule triple_post [OF keeps_triple [OF keeps_attempt [OF keeps_jobs_only(23)]]])
      (auto intro!: triple_ret simp: jobs_only_def dest: claim_post_inv)
  have get: "triple (jobs_only (fresh_claim B st jid)) ?get (\<lambda>x. jobs_only (claim_post B st jid x)) (inv_world B st)"
  proof (rule triple_bind)
    show "triple (jobs_only (fresh_claim B st jid)) (sv_job_get S jid)
        (\<lambda>x. jobs_only (claim_post B st jid (Some x))) (inv_world B st)"
      by (rule triple_weaken [OF triple_job_get [where P = "fresh_claim B st jid"]]) (auto intro: fresh_claim_post fresh_claim_inv)
  qed (rule event)
  have cas: "triple (inv_world B st) (bind (sv_job_cas S jid Pending (claim_update runner now)) (\<lambda>claimed.
      if claimed = 0 then seqs (remove_from_processing S c ch jid) (ret None) else ?get))
      (\<lambda>x. jobs_only (claim_post B st jid x)) (inv_world B st)"
  proof (rule triple_bind)
    show "triple (inv_world B st) (sv_job_cas S jid Pending (claim_update runner now))
      (\<lambda>n. jobs_only (\<lambda>rows. if n = 0 then jobs_inv B st rows else fresh_claim B st jid rows)) (inv_world B st)"
      by (rule triple_job_cas) (auto intro: fresh_claim_cas fresh_claim_inv)
  next
    fix n :: nat
    have "triple (inv_world B st) (seqs (remove_from_processing S c ch jid) (ret None))
        (\<lambda>x. jobs_only (claim_post B st jid x)) (inv_world B st)"
      by (intro none keeps_intro) (auto simp: act_defs split: prod.splits sum.splits)
    with get show "triple (jobs_only (\<lambda>rows. if n = 0 then jobs_inv B st rows else fresh_claim B st jid rows))
        (if n = 0 then seqs (remove_from_processing S c ch jid) (ret None) else ?get)
        (\<lambda>x. jobs_only (claim_post B st jid x)) (inv_world B st)"
      by (cases "n = 0") simp_all
  qed
  show ?thesis unfolding exec_claim_def
    by (intro triple_intro none cas keeps_intro)
      (auto simp: gentle_def act_defs split: prod.splits sum.splits)
qed

lemma triple_then_keeps:
  "triple P m (\<lambda>_. R) R \<Longrightarrow> keeps R n \<Longrightarrow> triple P (seqs m n) (\<lambda>_. R) R"
  by (rule triple_seqs, assumption) (rule keeps_triple)

lemma triple_read_keeps:
  "(\<And>rows. P rows \<Longrightarrow> Q rows) \<Longrightarrow> keeps (jobs_only Q) m \<Longrightarrow>
   triple (jobs_only P) m (\<lambda>_. jobs_only Q) (jobs_only Q)"
  by (rule triple_pre, erule keeps_triple) (simp add: jobs_only_def)

text \<open>The write that puts a failed row back: the row read just before still has attempts left.\<close>

lemma inv_retry_save:
  assumes "job_attempt j < job_max_retries j"
    and "\<And>r. job_id (f r) = job_id r \<and> job_attempt (f r) = job_attempt r \<and> job_max_retries (f r) = job_max_retries r"
  shows "triple (jobs_only (\<lambda>rows. jobs_inv B st rows \<and> row_get jid rows = Some j))
    (sv_job_save S jid f) (\<lambda>_. inv_world B st) (inv_world B st)"
  by (rule triple_job_save, rule jobs_inv_upd) (use assms in \<open>auto simp: keeps_id_def row_ok_def\<close>)

lemma inv_handle_failure [keeps_intro]: "keeps (inv_world B st) (handle_job_failure S c runner now rnd trace ch jid err)"
  unfolding handle_job_failure_def retry_or_fail_def [abs_def] Let_def
  by (intro keeps_attempt triple_keeps [OF triple_bind [OF triple_job_get]] triple_then_keeps
      triple_if inv_retry_save triple_read_keeps keeps_intro) (auto simp: gentle_def)

lemma inv_exec_failed [keeps_intro]: "keeps (inv_world B st) (exec_failed S c runner now rnd trace ch jid j err)"
  unfolding exec_failed_def add_log_def Let_def by (intro keeps_intro) (simp add: gentle_def)

lemma inv_exec_complete [keeps_intro]: "keeps (inv_world B st) (exec_complete S c runner now ch jid j)"
  unfolding exec_complete_def by (intro keeps_intro) (simp add: gentle_def)

lemma inv_exec_claim_keeps [keeps_intro]: "keeps (inv_world B st) (exec_claim S c runner now ch jid j)"
  by (rule triple_keeps, rule triple_post [OF inv_exec_claim]) (auto simp: jobs_only_def dest: claim_post_inv)

lemma inv_load_function [keeps_intro]: "keeps P (load_job_function importlib path)"
  unfolding load_job_function_def by (auto intro: keeps_intro split: option.splits)

lemma inv_execution [keeps_intro]: "keeps P (execution jid fn att ch runner)"
  unfolding execution_def by (intro keeps_intro)

lemma load_function_returns:
  "load_job_function importlib path w = (Inr h, w') \<Longrightarrow> (\<exists>m f. importlib m f = Some h) \<and> w' = w"
  by (auto simp: load_job_function_def act_defs split: option.splits prod.splits)

lemma keeps_bind_load:
  assumes "\<And>m f h. importlib m f = Some h \<Longrightarrow> keeps P (g h)"
  shows "keeps P (bind (load_job_function importlib path) g)"
  unfolding keeps_def bind_def
proof (intro allI impI)
  fix w assume "P w"
  then show "P (snd (case load_job_function importlib path w of (Inl e, w') \<Rightarrow> (Inl e, w') | (Inr x, w') \<Rightarrow> g x w'))"
    using load_function_returns [of importlib path w] inv_load_function [of P importlib path] assms
    by (fastforce simp: keeps_def split: prod.splits sum.splits)
qed

lemma inv_execute_job:
  assumes "\<And>m f h j. importlib m f = Some h \<Longrightarrow> keeps (inv_world B st) (h j)"
  shows "keeps (inv_world B st) (execute_job S c importlib runner t0 t1 rnd trace ch jid)"
  unfolding execute_job_def by (intro keeps_intro keeps_bind_load assms)

lemma inv_requeue_save:
  assumes "job_attempt j < job_max_retries j"
  shows "triple (jobs_only (\<lambda>rows. jobs_inv B st rows \<and> row_get jid rows = Some j))
    (sv_job_cas S jid Running (\<lambda>r. r\<lparr>job_status := Pending, job_runner_id := None\<rparr>))
    (\<lambda>_. inv_world B st) (inv_world B st)"
proof -
  let ?P = "\<lambda>rows. jobs_inv B st rows \<and> row_get jid rows = Some j"
  have "triple (jobs_only ?P) (sv_job_cas S jid Running (\<lambda>r. r\<lparr>job_status := Pending, job_runner_id := None\<rparr>))
     (\<lambda>n. jobs_only (\<lambda>rows. if n = 0 then ?P rows else jobs_inv B st rows)) (inv_world B st)"
    by (rule triple_job_cas, rule jobs_inv_upd) (use assms in \<open>auto simp: keeps_id_def row_ok_def\<close>)
  then show ?thesis by (rule triple_post) (auto simp: jobs_only_def split: if_splits)
qed

lemma inv_reap_body: "keeps (inv_world B st) (reap_body S c runner now ch jid)"
  unfolding reap_body_def reap_row_def [abs_def]
  apply (rule triple_keeps, rule triple_bind [OF triple_job_get])
  apply (intro triple_if)
     apply (intro triple_read_keeps keeps_intro; simp)
    apply (intro triple_read_keeps keeps_intro; simp add: gentle_def)
   apply (intro triple_read_keeps keeps_intro; simp add: gentle_def)
  apply (rule triple_bind [where R = "\<lambda>_. inv_world B st"])
   apply (intro triple_if triple_bind [OF inv_requeue_save] triple_read_keeps keeps_triple keeps_intro; simp)
  apply (intro keeps_triple keeps_intro)
  done

lemma inv_reaper_pass: "keeps (inv_world B st) (reaper_pass S c vis now en)"
  unfolding reaper_pass_def reap_channel_def reap_one_def by (intro keeps_intro inv_reap_body)

section \<open>The scheduler\<close>

lemma inv_promote_batch [keeps_intro]: "keeps (jobs_only P) (promote_batch S c sid ch bc t batch nd n)"
  by (induction batch arbitrary: nd n) (auto intro!: keeps_intro)

lemma inv_promote_loop [keeps_intro]: "keeps (jobs_only P) (promote_loop S c sid ch bc t key fuel n)"
  by (induction fuel arbitrary: n) (auto intro!: keeps_intro)

lemma inv_scheduler_turn: "keeps (jobs_only P) (scheduler_turn S c fuel interval now sc)"
  unfolding scheduler_turn_def acquire_lock_def renew_lock_def process_scheduled_jobs_def
    refresh_channels_def get_sched_channels_def process_channel_def Let_def
  by (intro keeps_intro)

lemma inv_mark_expired: "keeps (inv_world B st) (mark_expired S sid now jid ch)"
  unfolding mark_expired_def by (intro keeps_intro) (simp add: gentle_def)

section \<open>The operator's actions\<close>

lemma inv_cancel_job: "keeps (inv_world B st) (cancel_job S c now j)"
  unfolding cancel_job_def by (intro keeps_intro) (simp_all add: gentle_def canceled_row_def)

lemma inv_pause_job: "keeps (inv_world B st) (pause_job S c now j)"
  unfolding pause_job_def by (intro keeps_intro) (simp_all add: gentle_def pause_row_def)

lemma inv_from_template:
  assumes "\<And>ch. keeps (inv_world B st) (px_runners px ch)"
  shows "keeps (inv_world B st) (publish_job_from_template S c px j ov)"
  unfolding publish_job_from_template_def publish_in_def by (intro keeps_intro inv_publish assms)

text \<open>A manual retry resets the counter: it keeps the table's invariant, not the log of starts.\<close>

lemma inv_retry_job:
  assumes "\<And>ch. keeps (inv_world B []) (px_runners px ch)"
  shows "keeps (inv_world B []) (retry_job S c px now j delay)"
proof -
  let ?j = "retry_row now delay j"
  have ok: "row_ok B ?j" by (simp add: row_ok_def retry_row_def le_max_iff_disj)
  have put: "keeps (inv_world B []) (sv_job_put S ?j)"
  proof (rule keeps_job_put)
    fix rows r assume "jobs_inv B [] rows" "row_get (job_id ?j) rows = Some r"
    with ok show "jobs_inv B [] (row_upd (job_id ?j) (\<lambda>_. ?j) rows)"
      by (auto simp: jobs_inv_def covers_def table_ok_def ids_row_put) (auto simp: row_upd_def)
  qed (use ok in \<open>auto intro: jobs_inv_append\<close>)
  show ?thesis unfolding retry_job_def publish_in_def Let_def
    by (intro keeps_intro put inv_publish assms)
qed

end

end
