(* ===== verification/Job_System.thy ===== *)
theory Job_System
  imports Job_Safety
begin

text \<open>
  The jobs system as a transition system: worker threads of any number of engines, reapers,
  schedulers, publishers and operators interleave, each step being one operation of the previous
  theories. \<open>execute_job\<close> is split after the row is read and where the job function runs, so other steps
  can happen meanwhile; in \<open>stale_step\<close> failure handlers and reapers act on rows read before as well. Engines crash, Redis contents change arbitrarily, deliveries are duplicated and
  service calls fail with or without effect. \<open>sy_starts\<close> logs every start of a job function.
\<close>

section \<open>execute_job around the job function\<close>

record run =
  run_runner :: string
  run_channel :: string
  run_loaded :: job
  run_job :: job
  run_func :: handler

text \<open>From the row as it was read to the start of its function\<close>

definition exec_start :: "svc \<Rightarrow> jobs_cfg \<Rightarrow> (string \<Rightarrow> string \<Rightarrow> handler option) \<Rightarrow> string \<Rightarrow> rat \<Rightarrow> rat \<Rightarrow> rat
    \<Rightarrow> string \<Rightarrow> string \<Rightarrow> string \<Rightarrow> job \<Rightarrow> run option wact" where
  "exec_start S c importlib runner t0 t1 rnd trace ch jid j =
     catch
       (bind (exec_claim S c runner t0 ch jid j) (\<lambda>claimed.
        case claimed of
          None \<Rightarrow> ret None
        | Some j' \<Rightarrow>
            bind (load_job_function importlib (job_func j')) (\<lambda>func.
            seqs (execution (job_id j') (job_func j') (job_attempt j') (job_channel j') runner)
                 (ret (Some \<lparr>run_runner = runner, run_channel = ch, run_loaded = j, run_job = j',
                             run_func = func\<rparr>)))))
       (\<lambda>e. seqs (exec_failed S c runner t1 rnd trace ch jid j e) (ret None))"

definition exec_begin :: "svc \<Rightarrow> jobs_cfg \<Rightarrow> (string \<Rightarrow> string \<Rightarrow> handler option) \<Rightarrow> string \<Rightarrow> rat \<Rightarrow> rat \<Rightarrow> rat
    \<Rightarrow> string \<Rightarrow> string \<Rightarrow> string \<Rightarrow> run option wact" where
  "exec_begin S c importlib runner t0 t1 rnd trace ch jid =
     bind (exec_load S c ch jid) (\<lambda>loaded.
     case loaded of None \<Rightarrow> ret None | Some j \<Rightarrow> exec_start S c importlib runner t0 t1 rnd trace ch jid j)"

definition exec_finish :: "svc \<Rightarrow> jobs_cfg \<Rightarrow> rat \<Rightarrow> rat \<Rightarrow> string \<Rightarrow> string \<Rightarrow> run \<Rightarrow> job res \<Rightarrow> unit wact" where
  "exec_finish S c t1 rnd trace jid r outcome =
     (case outcome of
        Inl e \<Rightarrow> exec_failed S c (run_runner r) t1 rnd trace (run_channel r) jid (run_loaded r) e
      | Inr j \<Rightarrow> catch (exec_complete S c (run_runner r) t1 (run_channel r) jid j)
                  (exec_failed S c (run_runner r) t1 rnd trace (run_channel r) jid (run_loaded r)))"

text \<open>The outcome of a call as a value, so that the rest of the thread can be a later step.\<close>

definition outcome_of :: "'a wact \<Rightarrow> 'a res wact" where
  "outcome_of m w = (Inr (fst (m w)), snd (m w))"

lemma catch_bind_outcome:
  "catch (bind m f) h = bind (outcome_of m) (\<lambda>r. case r of Inl e \<Rightarrow> h e | Inr x \<Rightarrow> catch (f x) h)"
  by (auto simp: fun_eq_iff catch_def bind_def outcome_of_def split: prod.splits sum.splits)

lemma bind_catch_ret:
  "bind (catch m (\<lambda>e. seqs (h e) (ret None))) g =
   bind (outcome_of m) (\<lambda>r. case r of Inl e \<Rightarrow> seqs (h e) (g None) | Inr x \<Rightarrow> g x)"
  by (auto simp: fun_eq_iff act_defs outcome_of_def split: prod.splits sum.splits)

lemma outcome_bind:
  "bind (outcome_of (bind m f)) g = bind (outcome_of m) (\<lambda>r. case r of Inl e \<Rightarrow> g (Inl e) | Inr x \<Rightarrow> bind (outcome_of (f x)) g)"
  by (auto simp: fun_eq_iff act_defs outcome_of_def split: prod.splits sum.splits)

lemma outcome_ret [simp]: "bind (outcome_of (ret x)) g = g (Inr x)"
  by (auto simp: fun_eq_iff act_defs outcome_of_def)

text \<open>
  \<open>execute_job\<close> is exactly the begin step, the job function, and the finish step one after
  the other; nothing else happens in the thread.
\<close>

theorem execute_job_split:
  "execute_job S c importlib runner t0 t1 rnd trace ch jid =
   bind (exec_begin S c importlib runner t0 t1 rnd trace ch jid) (\<lambda>r.
   case r of
     None \<Rightarrow> ret ()
   | Some r \<Rightarrow> bind (outcome_of (run_func r (run_job r))) (exec_finish S c t1 rnd trace jid r))"
proof
  fix w
  show "execute_job S c importlib runner t0 t1 rnd trace ch jid w =
    bind (exec_begin S c importlib runner t0 t1 rnd trace ch jid) (\<lambda>r.
    case r of
      None \<Rightarrow> ret ()
    | Some r \<Rightarrow> bind (outcome_of (run_func r (run_job r))) (exec_finish S c t1 rnd trace jid r)) w"
    unfolding execute_job_def exec_begin_def exec_start_def
    by (simp add: act_defs outcome_of_def exec_finish_def split: prod.split sum.split option.split)
qed

section \<open>The transition system\<close>

record sys =
  sy_world :: world
  sy_running :: "run list"
  sy_starts :: starts

definition started :: "sys \<Rightarrow> run option \<Rightarrow> world \<Rightarrow> sys" where
  "started s r w =
     (case r of
        None \<Rightarrow> s\<lparr>sy_world := w\<rparr>
      | Some r \<Rightarrow> s\<lparr>sy_world := w, sy_running := r # sy_running s,
                   sy_starts := (job_id (run_job r), job_attempt (run_job r)) # sy_starts s\<rparr>)"

definition act_on :: "'a wact \<Rightarrow> sys \<Rightarrow> sys" where
  "act_on m s = s\<lparr>sy_world := snd (m (sy_world s))\<rparr>"

text \<open>
  One step. A delivery may name any job on any channel, so lost, late and duplicated queue entries
  are all covered. The row \<open>j\<close> that \<open>st_begin\<close> starts from is any row at all, so also one that its thread
  has read (\<open>st_load\<close>) long before: only the claiming update, with the read that follows it, sees
  the table of the moment. \<open>st_env\<close> stands for everything that does not write the job table:
  the job functions themselves (what they publish is a publish step), expiring keys, other
  users of Redis, a Redis that lost its data. \<open>st_crash\<close> kills any set of threads.
\<close>

inductive sys_step :: "svc \<Rightarrow> jobs_cfg \<Rightarrow> (string \<Rightarrow> string \<Rightarrow> handler option) \<Rightarrow> sys \<Rightarrow> sys \<Rightarrow> bool"
  for S c importlib where
  st_publish: "sys_step S c importlib s (act_on (publish S c (\<lambda>ch w. (roster ch, w)) Es E a) s)"
| st_webhook: "sys_step S c importlib s (act_on (publish_webhook S c E wa a) s)"
| st_template: "px_runners px = (\<lambda>ch w. (roster ch, w)) \<Longrightarrow>
    sys_step S c importlib s (act_on (publish_job_from_template S c px j ov) s)"
| st_pop: "sys_step S c importlib s (act_on (claim_next S c now en) s)"
| st_load: "sys_step S c importlib s (act_on (exec_load S c ch jid) s)"
| st_begin: "sys_step S c importlib s (case exec_start S c importlib runner t0 t1 rnd trace ch jid j (sy_world s) of
      (Inr r, w) \<Rightarrow> started s r w | (Inl e, w) \<Rightarrow> s\<lparr>sy_world := w\<rparr>)"
| st_finish: "r \<in> set (sy_running s) \<Longrightarrow>
    sys_step S c importlib s
      (act_on (exec_finish S c t1 rnd trace (job_id (run_job r)) r outcome) (s\<lparr>sy_running := removeAll r (sy_running s)\<rparr>))"
| st_reap: "sys_step S c importlib s (act_on (reaper_pass S c vis now en) s)"
| st_schedule: "sys_step S c importlib s (act_on (scheduler_turn S c fuel interval now sc) s)"
| st_expire: "sys_step S c importlib s (act_on (mark_expired S sid now jid ch) s)"
| st_request_cancel: "sys_step S c importlib s (act_on (cancel S now jid) s)"
| st_operator_cancel: "sys_step S c importlib s (act_on (cancel_job S c now j) s)"
| st_operator_pause: "sys_step S c importlib s (act_on (pause_job S c now j) s)"
| st_env: "w_jobs w = w_jobs (sy_world s) \<Longrightarrow> sys_step S c importlib s (s\<lparr>sy_world := w\<rparr>)"
| st_crash: "sys_step S c importlib s (s\<lparr>sy_running := filter alive (sy_running s)\<rparr>)"

inductive sys_reach :: "svc \<Rightarrow> jobs_cfg \<Rightarrow> (string \<Rightarrow> string \<Rightarrow> handler option) \<Rightarrow> sys \<Rightarrow> sys \<Rightarrow> bool"
  for S c importlib s where
  here: "sys_reach S c importlib s s"
| more: "sys_reach S c importlib s t \<Longrightarrow> sys_step S c importlib t u \<Longrightarrow> sys_reach S c importlib s u"

inductive_cases sys_reachE: "sys_reach S c importlib s t"

text \<open>
  The steps with failure handlers and reapers that act on a row \<open>j\<close> they have read before: what they then
  write does not depend on the row as it is now.
\<close>

inductive stale_step :: "svc \<Rightarrow> jobs_cfg \<Rightarrow> (string \<Rightarrow> string \<Rightarrow> handler option) \<Rightarrow> sys \<Rightarrow> sys \<Rightarrow> bool"
  for S c importlib where
  ss_step: "sys_step S c importlib s t \<Longrightarrow> stale_step S c importlib s t"
| ss_failure: "stale_step S c importlib s (act_on (attempt (retry_or_fail S c runner now rnd trace ch jid err j)) s)"
| ss_reap: "stale_step S c importlib s
    (act_on (catch (reap_row S c runner now ch jid j) (\<lambda>_. remove_from_processing S c ch jid)) s)"

text \<open>A system in which no job function has been started yet.\<close>

definition sys_init :: "world \<Rightarrow> sys" where
  "sys_init w = \<lparr>sy_world = w, sy_running = [], sy_starts = []\<rparr>"

definition sys_inv :: "bool \<Rightarrow> sys \<Rightarrow> bool" where
  "sys_inv B s \<longleftrightarrow> jobs_inv B (sy_starts s) (w_jobs (sy_world s)) \<and> distinct (sy_starts s)
     \<and> (\<forall>r \<in> set (sy_running s). (job_id (run_job r), job_attempt (run_job r)) \<in> set (sy_starts s))
     \<and> distinct (map (\<lambda>r. (job_id (run_job r), job_attempt (run_job r))) (sy_running s))"

lemma inv_act_on:
  assumes "keeps (inv_world B (sy_starts s)) m" and "sys_inv B s"
  shows "sys_inv B (act_on m s)"
  using assms by (auto simp: sys_inv_def act_on_def keeps_def jobs_only_def)

lemma inv_fewer:
  assumes "sys_inv B s"
  shows "sys_inv B (s\<lparr>sy_running := filter alive (sy_running s)\<rparr>)"
  using assms by (auto simp: sys_inv_def distinct_map_filter)

context services
begin

lemma begin_claims:
  "triple (inv_world B st) (exec_start S c importlib runner t0 t1 rnd trace ch jid j)
     (\<lambda>r. jobs_only (claim_post B st jid (map_option run_job r))) (inv_world B st)"
proof -
  let ?Q = "\<lambda>r. jobs_only (claim_post B st jid (map_option run_job r))"
  have none: "triple (inv_world B st) (ret None) ?Q (inv_world B st)"
    by (rule triple_ret) (simp add: jobs_only_def claim_post_def)
  have failed: "triple (inv_world B st) (seqs (exec_failed S c runner t1 rnd trace ch jid j e) (ret None)) ?Q (inv_world B st)"
    for j e by (rule triple_seqs [OF keeps_triple [OF inv_exec_failed]]) (rule none)
  have go: "triple (jobs_only (claim_post B st jid (Some j')))
      (bind (load_job_function importlib (job_func j')) (\<lambda>func.
       seqs (execution (job_id j') (job_func j') (job_attempt j') (job_channel j') runner)
            (ret (Some \<lparr>run_runner = runner, run_channel = ch, run_loaded = j, run_job = j', run_func = func\<rparr>))))
      ?Q (jobs_only (claim_post B st jid (Some j')))" for j j'
    by (intro triple_bind [OF keeps_triple [OF inv_load_function]]
        triple_seqs [OF keeps_triple [OF inv_execution]] triple_ret) simp
  have body: "triple (inv_world B st) (bind (exec_claim S c runner t0 ch jid j) (\<lambda>claimed.
      case claimed of
        None \<Rightarrow> ret None
      | Some j' \<Rightarrow>
          bind (load_job_function importlib (job_func j')) (\<lambda>func.
          seqs (execution (job_id j') (job_func j') (job_attempt j') (job_channel j') runner)
               (ret (Some \<lparr>run_runner = runner, run_channel = ch, run_loaded = j, run_job = j',
                           run_func = func\<rparr>))))) ?Q (inv_world B st)" for j
  proof (rule triple_bind [OF inv_exec_claim])
    fix x
    show "triple (jobs_only (claim_post B st jid x)) (case x of
        None \<Rightarrow> ret None
      | Some j' \<Rightarrow>
          bind (load_job_function importlib (job_func j')) (\<lambda>func.
          seqs (execution (job_id j') (job_func j') (job_attempt j') (job_channel j') runner)
               (ret (Some \<lparr>run_runner = runner, run_channel = ch, run_loaded = j, run_job = j',
                           run_func = func\<rparr>)))) ?Q (inv_world B st)"
      by (cases x; simp; rule triple_post [OF go] triple_ret) (auto simp: jobs_only_def dest: claim_post_inv)
  qed
  show ?thesis unfolding exec_start_def by (rule triple_catch [OF body failed])
qed

lemma inv_begin:
  assumes "sys_inv B s"
  shows "sys_inv B (case exec_start S c importlib runner t0 t1 rnd trace ch jid j (sy_world s) of
    (Inr r, w) \<Rightarrow> started s r w | (Inl e, w) \<Rightarrow> s\<lparr>sy_world := w\<rparr>)"
  using assms begin_claims [of B "sy_starts s" c importlib runner t0 t1 rnd trace ch jid j]
  by (fastforce simp: triple_def jobs_only_def sys_inv_def started_def claim_post_def
      split: prod.splits sum.splits option.splits)

lemma inv_exec_finish: "keeps (inv_world B st) (exec_finish S c t1 rnd trace jid r outcome)"
  unfolding exec_finish_def by (cases outcome) (auto intro!: keeps_intro)

lemma sys_inv_step:
  assumes "sys_step S c importlib s t" and "sys_inv B s"
  shows "sys_inv B t"
  using assms
proof (induction rule: sys_step.induct)
  case (st_finish r s t1 rnd trace outcome)
  let ?s = "s\<lparr>sy_running := removeAll r (sy_running s)\<rparr>"
  have "sys_inv B ?s" using inv_fewer [OF st_finish.prems, of "\<lambda>x. r \<noteq> x"]
    by (simp add: removeAll_filter_not_eq)
  then show ?case by (rule inv_act_on [OF inv_exec_finish])
next
  case (st_env w s)
  then show ?case by (simp add: sys_inv_def)
next
  case (st_template px roster s j ov)
  then show ?case
    by (intro inv_act_on inv_from_template) (simp_all add: keeps_def)
qed (auto intro!: inv_act_on inv_begin inv_fewer inv_publish inv_publish_webhook inv_claim_next inv_exec_load
    inv_reaper_pass inv_scheduler_turn inv_mark_expired inv_cancel inv_cancel_job inv_pause_job
    simp: keeps_def [of _ "\<lambda>w. (_, w)"])

lemma sys_inv_reach:
  assumes "sys_reach S c importlib (sys_init w) s" and "table_ok B (w_jobs w)"
  shows "sys_inv B s"
  using assms
proof (induction rule: sys_reach.induct)
  case here
  then show ?case by (simp add: sys_init_def sys_inv_def jobs_inv_def covers_def)
qed (rule sys_inv_step)

text \<open>The writes of a stale handler or reaper leave the counters alone.\<close>

definition loose :: "(job \<Rightarrow> job) \<Rightarrow> bool" where
  "loose f \<longleftrightarrow> (\<forall>r. job_id (f r) = job_id r \<and> job_attempt (f r) = job_attempt r)"

lemma jobs_inv_loose: "jobs_inv False st rows \<Longrightarrow> loose f \<Longrightarrow> jobs_inv False st (row_upd i f rows)"
  by (rule jobs_inv_upd) (auto simp: loose_def keeps_id_def row_ok_def)

lemma inv_loose_save: "loose f \<Longrightarrow> keeps (inv_world False st) (sv_job_save S i f)"
  by (rule keeps_job_save) (rule jobs_inv_loose)

lemma inv_loose_cas: "loose f \<Longrightarrow> keeps (inv_world False st) (sv_job_cas S i s f)"
  by (rule triple_keeps, rule triple_post [OF triple_job_cas [where P = "jobs_inv False st" and Q = "jobs_inv False st" and E = "jobs_inv False st"]])
     (auto intro: jobs_inv_loose)

lemma inv_stale_failure: "keeps (inv_world False st) (retry_or_fail S c runner now rnd trace ch jid err j)"
  unfolding retry_or_fail_def Let_def by (intro keeps_intro inv_loose_save) (simp_all add: loose_def)

lemma inv_stale_reap: "keeps (inv_world False st) (reap_row S c runner now ch jid j)"
  unfolding reap_row_def by (intro keeps_intro inv_loose_save inv_loose_cas) (simp_all add: loose_def)

lemma sys_inv_stale:
  assumes "(stale_step S c importlib)\<^sup>*\<^sup>* (sys_init w) s" and "distinct (map job_id (w_jobs w))"
    and "\<forall>r \<in> set (w_jobs w). 0 \<le> job_attempt r"
  shows "sys_inv False s"
  using assms(1)
proof (induction rule: rtranclp_induct)
  case base
  then show ?case using assms(2,3) by (simp add: sys_init_def sys_inv_def jobs_inv_def covers_def table_ok_def row_ok_def)
next
  case (step s t)
  from step(2,3) show ?case
    by cases (auto intro: sys_inv_step inv_act_on [OF keeps_attempt [OF inv_stale_failure]]
        inv_act_on [OF keeps_catch [OF inv_stale_reap inv_remove]])
qed

end

end
