(* ===== verification/Job_Behaviour.thy ===== *)
theory Job_Behaviour
  imports Job_System
begin

text \<open>
  What one execution does on every branch, with services that behave as documented: the world
  after it is given exactly. The last section has the branches that hold for any services.
\<close>

section \<open>Documented services\<close>

definition without_processing :: "jobs_cfg \<Rightarrow> string \<Rightarrow> string \<Rightarrow> world \<Rightarrow> world" where
  "without_processing c ch jid w =
     w\<lparr>w_zsets := (w_zsets w)(k_processing (pfx c) ch := zs_del jid (w_zsets w (k_processing (pfx c) ch)))\<rparr>"

lemma exec_load_doc:
  "row_get jid (w_jobs w) = Some j \<Longrightarrow> exec_load documented c ch jid w = (Inr (Some j), w)"
  by (simp add: exec_load_def act_defs d_job_get_def)

lemma exec_load_missing:
  "row_get jid (w_jobs w) = None \<Longrightarrow> exec_load documented c ch jid w =
     (Inr None, without_processing c ch jid w)"
  by (simp add: exec_load_def act_defs d_job_get_def d_zrem_def without_processing_def)

lemma zs_del_idem [simp]: "zs_del m (zs_del m z) = zs_del m z"
  by (simp add: zs_del_def)

lemma without_processing_idem [simp]:
  "without_processing c ch jid (without_processing c ch jid w) = without_processing c ch jid w"
  by (simp add: without_processing_def)

lemma remove_loop_doc_Suc:
  "remove_loop documented c ch jid (Suc n) w =
    (if jid \<in> fst ` set (w_zsets w (k_processing (pfx c) ch)) \<or> n = 0
     then (Inr (if jid \<in> fst ` set (w_zsets w (k_processing (pfx c) ch)) then 1 else 0), without_processing c ch jid w)
     else remove_loop documented c ch jid n (without_processing c ch jid w))"
  by (simp add: act_defs d_zrem_def without_processing_def)

lemma remove_loop_doc:
  "n > 0 \<Longrightarrow> snd (remove_loop documented c ch jid n w) = without_processing c ch jid w"
proof (induction n arbitrary: w)
  case (Suc n)
  show ?case
  proof (cases "jid \<in> fst ` set (w_zsets w (k_processing (pfx c) ch)) \<or> n = 0")
    case True
    then show ?thesis unfolding remove_loop_doc_Suc by simp
  next
    case False
    then show ?thesis unfolding remove_loop_doc_Suc
      using Suc.IH [of "without_processing c ch jid w"] by simp
  qed
qed simp

lemma remove_loop_returns: "\<exists>k. fst (remove_loop S c ch jid n w) = Inr k"
proof (induction n arbitrary: w)
  case (Suc n)
  then show ?case by (auto simp: act_defs split: prod.splits sum.splits)
qed (simp add: ret_def)

lemma remove_doc: "remove_from_processing documented c ch jid w = (Inr (), without_processing c ch jid w)"
  using remove_loop_doc [of 3 c ch jid w] remove_loop_returns [of documented c ch jid 3 w]
  by (cases "remove_loop documented c ch jid 3 w") (auto simp: remove_from_processing_def act_defs)

lemma remove_never_raises: "fst (remove_from_processing S c ch jid w) = Inr ()"
  using remove_loop_returns [of S c ch jid 3 w]
  by (cases "remove_loop S c ch jid 3 w") (auto simp: remove_from_processing_def act_defs)

text \<open>Adding log entries, metrics and rows to a world.\<close>

abbreviation add_event :: "job_event \<Rightarrow> world \<Rightarrow> world" where
  "add_event e w \<equiv> w\<lparr>w_events := w_events w @ [e]\<rparr>"

abbreviation add_metrics :: "string list \<Rightarrow> world \<Rightarrow> world" where
  "add_metrics ms w \<equiv> w\<lparr>w_metrics := w_metrics w @ ms\<rparr>"

abbreviation upd_row :: "string \<Rightarrow> (job \<Rightarrow> job) \<Rightarrow> world \<Rightarrow> world" where
  "upd_row i f w \<equiv> w\<lparr>w_jobs := row_upd i f (w_jobs w)\<rparr>"

definition claimed_world :: "jobs_cfg \<Rightarrow> string \<Rightarrow> rat \<Rightarrow> string \<Rightarrow> job \<Rightarrow> world \<Rightarrow> world" where
  "claimed_world c runner t0 ch j w =
     add_event (job_event_of (claim_update runner t0 j) EvRunning runner [(''queue'', JStr (k_queue (pfx c) ch))])
       (upd_row (job_id j) (claim_update runner t0) w)"

lemma exec_claim_doc:
  assumes "row_get jid (w_jobs w) = Some j" and "job_status j = Pending" and "\<not> is_expired t0 j"
  shows "exec_claim documented c runner t0 ch jid j w =
    (Inr (Some (claim_update runner t0 j)), claimed_world c runner t0 ch j w)"
proof -
  have "keeps_id (claim_update runner t0)" by (simp add: keeps_id_def claim_update_def)
  with assms row_get_id [OF assms(1)] show ?thesis
    by (simp add: exec_claim_def act_defs d_job_cas_def d_job_get_def d_event_create_def row_get_upd claimed_world_def)
qed

text \<open>The conditions under which a delivery starts its function \<open>h\<close>.\<close>

definition runnable :: "(string \<Rightarrow> string \<Rightarrow> handler option) \<Rightarrow> string \<Rightarrow> rat \<Rightarrow> string \<Rightarrow> world \<Rightarrow> job \<Rightarrow> handler \<Rightarrow> bool" where
  "runnable importlib runner t0 jid w j h \<longleftrightarrow>
     row_get jid (w_jobs w) = Some j \<and> job_status j = Pending \<and> \<not> is_expired t0 j
     \<and> load_job_function importlib (job_func j) w = (Inr h, w)
     \<and> execution (job_id j) (job_func j) (job_attempt j + 1) (job_channel j) runner w = (Inr (), w)"

lemma load_any_world: "load_job_function importlib p w = (Inr h, w) \<Longrightarrow> load_job_function importlib p w' = (Inr h, w')"
  by (auto simp: load_job_function_def act_defs split: option.splits)

lemma execution_any_world: "execution a b i ch r w = (Inr (), w) \<Longrightarrow> execution a b i ch r w' = (Inr (), w')"
  by (auto simp: execution_def act_defs split: if_splits)

lemma exec_begin_doc:
  assumes "runnable importlib runner t0 jid w j h"
  shows "exec_begin documented c importlib runner t0 t1 rnd trace ch jid w =
    (Inr (Some \<lparr>run_runner = runner, run_channel = ch, run_loaded = j, run_job = claim_update runner t0 j,
                run_func = h\<rparr>), claimed_world c runner t0 ch j w)"
proof -
  let ?w = "claimed_world c runner t0 ch j w" and ?j = "claim_update runner t0 j"
  have r: "row_get jid (w_jobs w) = Some j" "job_status j = Pending" "\<not> is_expired t0 j"
    using assms by (simp_all add: runnable_def)
  have "load_job_function importlib (job_func j) ?w = (Inr h, ?w)"
    using assms by (auto simp: runnable_def intro: load_any_world)
  moreover have "execution (job_id j) (job_func j) (job_attempt j + 1) (job_channel j) runner ?w = (Inr (), ?w)"
    using assms by (auto simp: runnable_def intro: execution_any_world)
  moreover have "job_func ?j = job_func j" "job_id ?j = job_id j" "job_attempt ?j = job_attempt j + 1"
    "job_channel ?j = job_channel j" by (simp_all add: claim_update_def)
  ultimately show ?thesis unfolding exec_begin_def exec_start_def
    by (simp add: bind_def catch_def seqs_def ret_def exec_load_doc [OF r(1)] exec_claim_doc [OF r])
qed

section \<open>A concrete world\<close>

text \<open>One published job and two job functions, on which the theorems are applied.\<close>

definition ex_import :: "string \<Rightarrow> string \<Rightarrow> handler option" where
  "ex_import m f = (if f = ''ok'' then Some (\<lambda>j. ret j)
     else if f = ''boom'' then Some (\<lambda>j. throw (HandlerError ''boom'')) else None)"

definition ex_job :: "string \<Rightarrow> string \<Rightarrow> job" where
  "ex_job i f = new_job default_cfg (default_args (Path f)) [] i 0"

definition ex_world :: "string \<Rightarrow> world" where
  "ex_world f = empty_world\<lparr>w_jobs := [ex_job ''a'' f]\<rparr>"

lemma ex_world_ok: "table_ok B (w_jobs (ex_world f))"
  by (simp add: ex_world_def table_ok_def ex_job_def new_job_ok)

definition ex_run :: "string \<Rightarrow> sys" where
  "ex_run f = (let s = sys_init (ex_world f) in
     case exec_start documented default_cfg ex_import ''r'' 1 2 0 [] ''default'' ''a'' (ex_job ''a'' f) (sy_world s) of
       (Inr r, w) \<Rightarrow> started s r w | (Inl e, w) \<Rightarrow> s\<lparr>sy_world := w\<rparr>)"

lemma ex_run_step: "sys_step documented default_cfg ex_import (sys_init (ex_world f)) (ex_run f)"
  unfolding ex_run_def Let_def by (rule st_begin)

lemma ex_run_reach: "sys_reach documented default_cfg ex_import (sys_init (ex_world f)) (ex_run f)"
  by (rule sys_reach.more [OF sys_reach.here ex_run_step])

lemmas ex_defs = ex_job_def new_job_def default_args_def default_cfg_def resolve_run_at_def
  resolve_expires_at_def ex_world_def empty_world_def

lemma ex_job_row: "row_get ''a'' (w_jobs (ex_world f)) = Some (ex_job ''a'' f)"
  by (simp add: ex_world_def row_get_def ex_job_def new_job_def)

lemma ex_path:
  "split_last CHR ''.'' ''m.ok'' = Some (''m'', ''ok'')" "split_last CHR ''.'' ''m.boom'' = Some (''m'', ''boom'')"
  by code_simp+

lemma ex_runnable:
  "runnable ex_import ''r'' 1 ''a'' (ex_world ''m.ok'') (ex_job ''a'' ''m.ok'') (\<lambda>j. ret j)"
  "runnable ex_import ''r'' 1 ''a'' (ex_world ''m.boom'') (ex_job ''a'' ''m.boom'') (\<lambda>j. throw (HandlerError ''boom''))"
  unfolding runnable_def ex_job_row
  by (simp_all add: is_expired_def ex_defs load_job_function_def ex_path ex_import_def execution_def
      exec_field_def token_char_def is_upper_def is_lower_def is_digit_def ret_def)

lemma exec_start_doc:
  assumes "runnable importlib runner t0 jid w j h"
  shows "exec_start documented c importlib runner t0 t1 rnd trace ch jid j w =
    (Inr (Some \<lparr>run_runner = runner, run_channel = ch, run_loaded = j, run_job = claim_update runner t0 j,
                run_func = h\<rparr>), claimed_world c runner t0 ch j w)"
  using exec_begin_doc [OF assms, of c t1 rnd trace ch] assms
  by (simp add: exec_begin_def bind_def exec_load_doc runnable_def)

lemma ex_run_starts: "sy_starts (ex_run ''m.ok'') = [(''a'', 1)]"
  using exec_start_doc [OF ex_runnable(1), of default_cfg 2 0 "[]" "''default''"]
  by (simp add: ex_run_def sys_init_def started_def claim_update_def ex_job_def new_job_def)

section \<open>Completion and failure\<close>

definition completed_row :: "rat \<Rightarrow> (string \<times> json) list \<Rightarrow> job \<Rightarrow> job" where
  "completed_row now md r = r\<lparr>job_status := Completed, job_finished_at := Some now, job_metadata := md\<rparr>"

definition completed_world :: "jobs_cfg \<Rightarrow> string \<Rightarrow> rat \<Rightarrow> string \<Rightarrow> string \<Rightarrow> job \<Rightarrow> world \<Rightarrow> world" where
  "completed_world c runner t1 ch jid j w =
     add_metrics [''jobs.completed'', ''jobs.channel.'' @ job_channel j @ ''.completed'']
       (without_processing c ch jid
         (add_event (job_event_of j EvCompleted runner [])
           (upd_row jid (completed_row t1 (job_metadata j)) w)))"

lemma exec_complete_doc:
  assumes "row_get jid (w_jobs w) \<noteq> None"
  shows "exec_complete documented c runner t1 ch jid j w = (Inr (), completed_world c runner t1 ch jid j w)"
  using assms
  by (auto simp: exec_complete_def act_defs d_job_save_def d_event_create_def d_metric_def remove_doc
      completed_world_def completed_row_def [abs_def])

definition retried_row :: "rat \<Rightarrow> string \<Rightarrow> string \<Rightarrow> job \<Rightarrow> job" where
  "retried_row next_at err trace r =
     r\<lparr>job_status := Pending, job_run_at := Some next_at, job_last_error := err, job_stack_trace := trace\<rparr>"

definition failed_row :: "rat \<Rightarrow> string \<Rightarrow> string \<Rightarrow> job \<Rightarrow> job" where
  "failed_row now err trace r =
     r\<lparr>job_status := Failed, job_finished_at := Some now, job_last_error := err, job_stack_trace := trace\<rparr>"

definition retried_world :: "jobs_cfg \<Rightarrow> string \<Rightarrow> rat \<Rightarrow> string \<Rightarrow> string \<Rightarrow> job \<Rightarrow> exn \<Rightarrow> world \<Rightarrow> world" where
  "retried_world c runner next_at trace jid j e w =
     add_metrics [''jobs.retried'']
       (w\<lparr>w_jobs := row_upd jid (retried_row next_at (exn_str e) trace) (w_jobs w),
          w_events := w_events w @ [job_event_of j EvRetry runner
            [(''reason'', JStr ''failure''), (''next_run_at'', JStr (isoformat next_at))]],
          w_zsets := (w_zsets w)(sched_zset c j := zs_add jid (score_ms next_at) (w_zsets w (sched_zset c j))),
          w_sets := (w_sets w)(k_sched_registry (pfx c) := List.insert (job_channel j) (w_sets w (k_sched_registry (pfx c))))\<rparr>)"

definition failed_world :: "string \<Rightarrow> rat \<Rightarrow> string \<Rightarrow> string \<Rightarrow> job \<Rightarrow> exn \<Rightarrow> world \<Rightarrow> world" where
  "failed_world runner now trace jid j e w =
     add_metrics [''jobs.failed'', ''jobs.channel.'' @ job_channel j @ ''.failed'']
       (add_event (job_event_of j EvFailed runner [(''error'', JStr (exn_str e))])
         (upd_row jid (failed_row now (exn_str e) trace) w))"

lemma handle_failure_row:
  assumes "row_get jid (w_jobs w) = Some j"
  shows "handle_job_failure documented c runner now rnd trace ch jid e w =
    (Inr (), without_processing c ch jid
       (if job_attempt j < job_max_retries j
        then retried_world c runner (now + jitter_of j rnd) trace jid j e w
        else failed_world runner now trace jid j e w))"
  using assms
  by (simp add: handle_job_failure_def retry_or_fail_def act_defs d_job_get_def d_job_save_def d_event_create_def d_zadd_def d_sadd_def
      d_metric_def register_sched_channel_def zs_adds_def remove_doc retried_world_def failed_world_def
      retried_row_def [abs_def] failed_row_def [abs_def] Let_def)

text \<open>
  The failure of a job whose row still has attempts left reschedules it after its backoff,
  on the sorted set of its channel; otherwise the row becomes failed. In both cases the in-flight
  entry goes away, and nothing else changes.
\<close>

theorem handle_job_failure_doc:
  assumes "row_get jid (w_jobs w) = Some j"
  shows "handle_job_failure documented c runner now rnd trace ch jid e w =
    (Inr (), without_processing c ch jid
       (if job_attempt j < job_max_retries j
        then retried_world c runner (now + jitter_of j rnd) trace jid j e w
        else failed_world runner now trace jid j e w))"
  using assms by (rule handle_failure_row)

theorem handle_job_failure_doc_witness:
  "handle_job_failure documented default_cfg ''r'' 5 0 [] ''default'' ''a'' DoesNotExist (ex_world ''m.ok'') =
    (Inr (), without_processing default_cfg ''default'' ''a''
       (failed_world ''r'' 5 [] ''a'' (ex_job ''a'' ''m.ok'') DoesNotExist (ex_world ''m.ok'')))"
  using handle_job_failure_doc [OF ex_job_row] by (simp add: ex_job_def new_job_def default_args_def default_cfg_def)

section \<open>execute_job\<close>

text \<open>
  A runnable delivery whose function returns leaves the row completed with the metadata the
  function set on its row object, the in-flight entry gone, the completion event and metrics
  written, and whatever the function did to the world.
\<close>

theorem execute_job_success:
  assumes "runnable importlib runner t0 jid w j h"
    and "h (claim_update runner t0 j) (claimed_world c runner t0 ch j w) = (Inr j', w2)"
    and "row_get jid (w_jobs w2) \<noteq> None"
  shows "execute_job documented c importlib runner t0 t1 rnd trace ch jid w =
    (Inr (), completed_world c runner t1 ch jid j' w2)"
  by (simp add: execute_job_split bind_def exec_begin_doc [OF assms(1)] outcome_of_def assms(2) exec_finish_def
      catch_def exec_complete_doc [OF assms(3)])

lemma ex_claimed_row:
  "row_get ''a'' (w_jobs (claimed_world c r t ch (ex_job ''a'' f) (ex_world f))) = Some (claim_update r t (ex_job ''a'' f))"
  using ex_job_row [of f] by (simp add: claimed_world_def row_get_upd keeps_id_def claim_update_def ex_job_def new_job_def)

theorem execute_job_success_witness:
  "execute_job documented default_cfg ex_import ''r'' 1 2 0 [] ''default'' ''a'' (ex_world ''m.ok'') =
   (let w = claimed_world default_cfg ''r'' 1 ''default'' (ex_job ''a'' ''m.ok'') (ex_world ''m.ok'') in
    (Inr (), completed_world default_cfg ''r'' 2 ''default'' ''a'' (claim_update ''r'' 1 (ex_job ''a'' ''m.ok'')) w))"
  unfolding Let_def
  by (rule execute_job_success [OF ex_runnable(1)]) (simp_all add: ret_def ex_claimed_row)

definition logged_world :: "rat \<Rightarrow> job \<Rightarrow> exn \<Rightarrow> world \<Rightarrow> world" where
  "logged_world now j e w =
     w\<lparr>w_logs := w_logs w @ [\<lparr>log_job = job_id j, log_channel = job_channel j, log_kind = ''error'',
         log_message = ''Failed to complete job: '' @ exn_str e, log_meta = []\<rparr>],
       w_jobs := row_upd (job_id j) (\<lambda>r. r\<lparr>job_modified := now\<rparr>) (w_jobs w)\<rparr>"

lemma lower_error: "lower ''error'' = ''error''"
  by (simp add: lower_def lower_char_def is_upper_def)

lemma exec_failed_doc:
  assumes "row_get jid (w_jobs w) = Some r" and "job_id j = jid"
  shows "exec_failed documented c runner t1 rnd trace ch jid j e w =
    (let w' = logged_world t1 j e w; r' = r\<lparr>job_modified := t1\<rparr> in
     (Inr (), without_processing c ch jid
        (if job_attempt r < job_max_retries r
         then retried_world c runner (t1 + jitter_of r rnd) trace jid r' e w'
         else failed_world runner t1 trace jid r' e w')))"
proof -
  let ?w = "logged_world t1 j e w" and ?r = "r\<lparr>job_modified := t1\<rparr>"
  have "attempt (add_log documented t1 j (''Failed to complete job: '' @ exn_str e) ''error'') w = (Inr (), ?w)"
    using assms by (simp add: add_log_def act_defs d_log_create_def d_job_save_def logged_world_def lower_error Let_def)
  moreover have "row_get jid (w_jobs ?w) = Some ?r"
    using assms by (simp add: logged_world_def row_get_upd keeps_id_def)
  moreover have "jitter_of ?r rnd = jitter_of r rnd" by (simp add: jitter_of_def backoff_of_def)
  ultimately show ?thesis
    by (simp add: exec_failed_def seqs_def bind_def handle_failure_row Let_def)
qed

text \<open>
  When the job function raises, the error is logged on the row and the job is rescheduled or
  failed, exactly as its attempt counter says; \<open>execute_job\<close> itself never raises.
\<close>

theorem execute_job_raise:
  assumes "runnable importlib runner t0 jid w j h"
    and "h (claim_update runner t0 j) (claimed_world c runner t0 ch j w) = (Inl e, w2)"
    and "row_get jid (w_jobs w2) = Some r"
  shows "execute_job documented c importlib runner t0 t1 rnd trace ch jid w =
    (let w' = logged_world t1 j e w2; r' = r\<lparr>job_modified := t1\<rparr> in
     (Inr (), without_processing c ch jid
        (if job_attempt r < job_max_retries r
         then retried_world c runner (t1 + jitter_of r rnd) trace jid r' e w'
         else failed_world runner t1 trace jid r' e w')))"
proof -
  have "job_id j = jid" using assms(1) by (auto simp: runnable_def dest: row_get_id)
  then show ?thesis
    by (simp add: execute_job_split bind_def exec_begin_doc [OF assms(1)] outcome_of_def assms(2) exec_finish_def
        exec_failed_doc [OF assms(3)])
qed

theorem execute_job_raise_witness:
  "execute_job documented default_cfg ex_import ''r'' 1 2 0 [] ''default'' ''a'' (ex_world ''m.boom'') =
   (let j = ex_job ''a'' ''m.boom'';
        w = claimed_world default_cfg ''r'' 1 ''default'' j (ex_world ''m.boom'');
        e = HandlerError ''boom'' in
    (Inr (), without_processing default_cfg ''default'' ''a''
       (failed_world ''r'' 2 [] ''a'' (claim_update ''r'' 1 j\<lparr>job_modified := 2\<rparr>) e (logged_world 2 j e w))))"
proof -
  let ?j = "ex_job ''a'' ''m.boom''"
  let ?w = "claimed_world default_cfg ''r'' 1 ''default'' ?j (ex_world ''m.boom'')"
  have "\<not> job_attempt (claim_update ''r'' 1 ?j) < job_max_retries (claim_update ''r'' 1 ?j)"
    by (simp add: claim_update_def ex_defs)
  then show ?thesis
    using execute_job_raise [OF ex_runnable(2), where c = default_cfg and ch = "''default''" and e = "HandlerError ''boom''"
        and r = "claim_update ''r'' 1 ?j" and ?w2.0 = ?w and ?t1.0 = 2 and rnd = 0 and trace = "[]"]
    by (simp add: throw_def ex_claimed_row Let_def)
qed

text \<open>
  An expired job is never started: the row becomes expired, the delivery leaves the in-flight
  set, and the function is not called.
\<close>

theorem expired_never_starts:
  assumes "row_get jid (w_jobs w) = Some j" and "job_status j = Pending" and "is_expired t0 j"
  shows "exec_begin documented c importlib runner t0 t1 rnd trace ch jid w =
    (Inr None, add_metrics [''jobs.expired'']
       (without_processing c ch jid
         (add_event (job_event_of j EvExpired runner [(''reason'', JStr ''job_expired_before_execution'')])
           (upd_row jid (\<lambda>r. r\<lparr>job_status := Expired, job_finished_at := Some t0\<rparr>) w))))"
  using assms
  by (simp add: exec_begin_def exec_start_def exec_claim_def act_defs exec_load_doc d_job_save_def d_event_create_def d_metric_def
      remove_doc)

theorem expired_never_starts_witness:
  "fst (exec_begin documented default_cfg ex_import ''r'' 1000 1001 0 [] ''default'' ''a'' (ex_world ''m.ok'')) = Inr None"
  using expired_never_starts [OF ex_job_row [of "''m.ok''"], of 1000]
  by (simp add: is_expired_def ex_defs)

section \<open>Redelivery\<close>

context services
begin

lemma exec_load_returns:
  assumes "exec_load S c ch jid w = (r, w')"
  shows "w_jobs w' = w_jobs w"
    and "\<exists>x. r = Inr x \<and> (\<forall>j. x = Some j \<longrightarrow> row_get jid (w_jobs w) = Some j)"
proof -
  show "w_jobs w' = w_jobs w"
    using keeps_snd [OF inv_exec_load [of "\<lambda>rows. rows = w_jobs w" c ch jid], of w] assms
    by (simp add: jobs_only_def)
  obtain q w1 where q: "sv_job_get S jid w = (q, w1)" by (cases "sv_job_get S jid w")
  obtain w2 where "attempt (sv_zrem S (k_processing (pfx c) ch) jid) w1 = (Inr (), w2)"
    by (metis attempt_never_raises prod.collapse)
  with assms q job_get_returns(1) [of jid w]
  show "\<exists>x. r = Inr x \<and> (\<forall>j. x = Some j \<longrightarrow> row_get jid (w_jobs w) = Some j)"
    by (cases q) (auto simp: exec_load_def catch_def bind_def ret_def seqs_def)
qed

lemma remove_keeps_rows: "w_jobs (snd (remove_from_processing S c ch jid w)) = w_jobs w"
  using keeps_snd [OF inv_remove [of "\<lambda>rows. rows = w_jobs w" c ch jid], of w]
  by (simp add: jobs_only_def)

lemma begin_not_pending:
  assumes "\<And>j. row_get jid (w_jobs w) = Some j \<Longrightarrow> job_status j \<noteq> Pending"
  shows "\<exists>w'. exec_begin S c importlib runner t0 t1 rnd trace ch jid w = (Inr None, w') \<and> w_jobs w' = w_jobs w"
proof -
  obtain r w1 where load: "exec_load S c ch jid w = (r, w1)" by (cases "exec_load S c ch jid w")
  from exec_load_returns [OF this] obtain x where x: "r = Inr x" and w1: "w_jobs w1 = w_jobs w"
    by blast
  show ?thesis
  proof (cases x)
    case None
    with load x w1 show ?thesis by (simp add: exec_begin_def exec_start_def bind_def ret_def)
  next
    case (Some j)
    with exec_load_returns [OF load] x assms have "job_status j \<noteq> Pending" by blast
    then have "exec_begin S c importlib runner t0 t1 rnd trace ch jid w =
        (Inr None, snd (remove_from_processing S c ch jid w1))"
      using load x Some remove_never_raises [of S c ch jid w1]
      by (cases "remove_from_processing S c ch jid w1") (simp add: exec_begin_def exec_start_def exec_claim_def act_defs)
    with w1 remove_keeps_rows show ?thesis by simp
  qed
qed

end

text \<open>
  Delivering a job that is not pending (running elsewhere, finished, canceled, or gone) never
  starts its function and leaves the job table as it was, whatever the services do.
\<close>

theorem redelivery_harmless:
  assumes "services S" and "\<And>j. row_get jid (w_jobs w) = Some j \<Longrightarrow> job_status j \<noteq> Pending"
  shows "fst (exec_begin S c importlib runner t0 t1 rnd trace ch jid w) = Inr None
    \<and> w_jobs (snd (execute_job S c importlib runner t0 t1 rnd trace ch jid w)) = w_jobs w
    \<and> fst (execute_job S c importlib runner t0 t1 rnd trace ch jid w) = Inr ()"
proof -
  obtain w' where "exec_begin S c importlib runner t0 t1 rnd trace ch jid w = (Inr None, w')" "w_jobs w' = w_jobs w"
    using services.begin_not_pending [OF assms(1)] assms(2) by metis
  then show ?thesis by (simp add: execute_job_split bind_def ret_def)
qed

theorem redelivery_harmless_witness:
  "w_jobs (snd (execute_job outage default_cfg ex_import ''r'' 1 2 0 [] ''default'' ''b'' (ex_world ''m.ok'')))
   = w_jobs (ex_world ''m.ok'')"
  using redelivery_harmless [OF down.services_axioms, of "''b''" "ex_world ''m.ok''"]
  by (simp add: row_get_def ex_defs)

text \<open>
  The delay before a retry is the capped exponential backoff with at most 20 percent of
  jitter either way, for every value of the random source in the unit interval.
\<close>

theorem jitter_bounds:
  assumes "0 \<le> rnd" and "rnd \<le> 1" and "0 \<le> job_backoff_base j" and "0 \<le> job_backoff_max_sec j"
  shows "8 / 10 * backoff_of j \<le> jitter_of j rnd \<and> jitter_of j rnd \<le> 12 / 10 * backoff_of j
    \<and> jitter_of j rnd \<le> 12 / 10 * of_int (job_backoff_max_sec j)"
proof -
  have b: "0 \<le> backoff_of j" "backoff_of j \<le> of_int (job_backoff_max_sec j)"
    using assms(3,4) by (auto simp: backoff_of_def)
  have "jitter_of j rnd = backoff_of j * (8 / 10) + backoff_of j * rnd * (4 / 10)"
    by (simp add: jitter_of_def algebra_simps)
  moreover have "0 \<le> backoff_of j * rnd" "backoff_of j * rnd \<le> backoff_of j"
    using assms(1,2) b by (simp_all add: mult_left_le)
  ultimately have "8 / 10 * backoff_of j \<le> jitter_of j rnd" "jitter_of j rnd \<le> 12 / 10 * backoff_of j"
    by (simp_all add: mult.commute)
  with b show ?thesis by simp
qed

theorem jitter_bounds_witness:
  "8 / 10 * backoff_of (ex_job ''a'' ''m.ok'') \<le> jitter_of (ex_job ''a'' ''m.ok'') (1 / 2)"
  using jitter_bounds [of "1 / 2" "ex_job ''a'' ''m.ok''"] by (simp add: ex_defs)

end
