(* ===== verification/Job_Guarantees.thy ===== *)
theory Job_Guarantees
  imports Job_Behaviour
begin

text \<open>
  What the transition systems of \<open>Job_System\<close> guarantee in every reachable state, for any services
  that satisfy the laws of \<open>services\<close>.
\<close>

lemma starts_below:
  assumes "distinct st" and "\<forall>p \<in> set st. fst p = i \<longrightarrow> 1 \<le> snd p \<and> snd p \<le> (n :: int)" and "0 \<le> n"
  shows "int (length (filter (\<lambda>p. fst p = i) st)) \<le> n"
proof -
  let ?l = "map snd (filter (\<lambda>p. fst p = i) st)"
  have "inj_on snd (set (filter (\<lambda>p. fst p = i) st))" by (auto simp: inj_on_def)
  with assms(1) have "distinct ?l" by (simp add: distinct_map)
  then have "length ?l = card (set ?l)" by (rule distinct_card [symmetric])
  also have "\<dots> \<le> card {1..n}" using assms(2) by (intro card_mono) auto
  finally show ?thesis using assms(3) by simp
qed

text \<open>
  C3: the job function of a job is started at most \<open>max 1 max_retries\<close> times, so it is never retried
  more than \<open>max_retries\<close> times. This holds in every state that the steps of \<open>sys_step\<close> reach: deliveries
  (duplicated ones and ones that start from a row read long before included), failing services,
  crashes and any contents of Redis. The handling of a failure and the reaping of an entry, which read the row and
  write it, are one step each here; job functions do not write job rows, and an operator does not retry jobs.
\<close>

theorem starts_bounded:
  assumes "services S" and "table_ok True (w_jobs w)" and "sys_reach S c importlib (sys_init w) s"
    and "row_get i (w_jobs (sy_world s)) = Some r"
  shows "int (length (filter (\<lambda>p. fst p = i) (sy_starts s))) \<le> max 1 (job_max_retries r)"
proof -
  from services.sys_inv_reach [OF assms(1,3,2)] have inv: "sys_inv True s" .
  then have ok: "row_ok True r" using assms(4) by (auto simp: sys_inv_def dest: jobs_inv_row)
  have "\<forall>p \<in> set (sy_starts s). fst p = i \<longrightarrow> 1 \<le> snd p \<and> snd p \<le> job_attempt r"
    using inv assms(4) by (fastforce simp: sys_inv_def jobs_inv_def covers_def)
  then have "int (length (filter (\<lambda>p. fst p = i) (sy_starts s))) \<le> job_attempt r"
    using inv ok by (intro starts_below) (auto simp: sys_inv_def row_ok_def)
  with ok show ?thesis by (simp add: row_ok_def)
qed

theorem starts_bounded_witness:
  "int (length (filter (\<lambda>p. fst p = ''a'') (sy_starts (ex_run ''m.ok'')))) \<le> 1
   \<and> sy_starts (ex_run ''m.ok'') \<noteq> []"
proof -
  have row: "row_get ''a'' (w_jobs (sy_world (ex_run ''m.ok''))) = Some (claim_update ''r'' 1 (ex_job ''a'' ''m.ok''))"
    using exec_start_doc [OF ex_runnable(1), of default_cfg 2 0 "[]" "''default''"]
    by (simp add: ex_run_def sys_init_def started_def ex_claimed_row)
  have "job_max_retries (claim_update ''r'' 1 (ex_job ''a'' ''m.ok'')) = 0"
    by (simp add: claim_update_def ex_defs)
  with starts_bounded [OF doc.services_axioms ex_world_ok ex_run_reach row] ex_run_starts show ?thesis
    by simp
qed

text \<open>
  C4: claims are exclusive. No attempt number of a job is started twice, and two threads that run at the same
  time never run the same attempt of a job. This holds in every state that the steps of \<open>stale_step\<close> reach: a thread
  may claim from a row it has read long before, and failure handlers and reapers may write what they
  decided on a row read long before. One step is the conditional update of the claim with the
  read that follows it; job functions do not write job rows, and an operator does not retry jobs.
\<close>

theorem attempts_exclusive:
  assumes "services S" and "distinct (map job_id (w_jobs w))" and "\<forall>r \<in> set (w_jobs w). 0 \<le> job_attempt r"
    and "(stale_step S c importlib)\<^sup>*\<^sup>* (sys_init w) s"
  shows "distinct (sy_starts s)
    \<and> distinct (map (\<lambda>r. (job_id (run_job r), job_attempt (run_job r))) (sy_running s))"
  using services.sys_inv_stale [OF assms(1,4,2,3)] by (simp add: sys_inv_def)

theorem attempts_exclusive_witness:
  "distinct (sy_starts (ex_run ''m.ok''))"
proof -
  have "(stale_step documented default_cfg ex_import)\<^sup>*\<^sup>* (sys_init (ex_world ''m.ok'')) (ex_run ''m.ok'')"
    by (rule r_into_rtranclp, rule ss_step, rule ex_run_step)
  from attempts_exclusive [OF doc.services_axioms _ _ this] show ?thesis by (simp add: ex_defs)
qed

end
