(* ===== verification/Job_Promotion.thy ===== *)
theory Job_Promotion
  imports Job_Guarantees
begin

text \<open>
  The scheduler: its promotion loop ends for every behaviour of the services, it moves exactly
  the due jobs, in order, and leaves the others in place; the leadership lock is never taken
  from its holder.
\<close>

section \<open>Termination\<close>

text \<open>Predicates that read one sorted set.\<close>

definition zset_only :: "string \<Rightarrow> (zset \<Rightarrow> bool) \<Rightarrow> world \<Rightarrow> bool" where
  "zset_only k P w = P (w_zsets w k)"

context services
begin

lemma keeps_zset_only [keeps_intro]:
  "keeps (zset_only k P) (sv_rpush S l v)"
  "keeps (zset_only k P) (sv_job_get S i)"
  "keeps (zset_only k P) (sv_event_create S e)"
  "keeps (zset_only k P) (sv_get S s)"
  by (rule keeps_may_fail, rule rpush job_get event_create get,
      simp add: keeps_def zset_only_def call_defs split: option.splits)+

lemma batch_keeps_zset [keeps_intro]: "keeps (zset_only k P) (promote_batch S c sid ch bc t batch nd n)"
  by (induction batch arbitrary: nd n) (auto intro!: keeps_intro)

lemma zpopmin_returns:
  assumes "sv_zpopmin S k n w = (Inr ps, w')"
  shows "ps = take n (w_zsets w k)" and "w' = w\<lparr>w_zsets := (w_zsets w)(k := drop n (w_zsets w k))\<rparr>"
  using zpopmin [of k n] assms unfolding may_fail_def d_zpopmin_def by (metis Pair_inject sum.distinct(1) sum.inject(2))+

lemma promote_loop_not_none:
  "length (w_zsets w key) < fuel \<Longrightarrow> fst (promote_loop S c sid ch bc t key fuel n w) \<noteq> Inr None"
proof (induction fuel arbitrary: n w)
  case (Suc fuel)
  obtain r w1 where pop: "sv_zpopmin S key 10 w = (r, w1)" by (cases "sv_zpopmin S key 10 w")
  show ?case
  proof (cases r)
    case (Inl e)
    with pop show ?thesis by (simp add: bind_def)
  next
    case (Inr ps)
    with pop zpopmin_returns [of key 10 w] have ps: "ps = take 10 (w_zsets w key)"
      and w1: "w_zsets w1 key = drop 10 (w_zsets w key)" by auto
    show ?thesis
    proof (cases "ps = []")
      case True
      with pop Inr show ?thesis by (simp add: bind_def ret_def)
    next
      case False
      obtain q w2 where batch: "promote_batch S c sid ch bc t ps [] n w1 = (q, w2)"
        by (cases "promote_batch S c sid ch bc t ps [] n w1")
      have w2: "w_zsets w2 key = drop 10 (w_zsets w key)"
        using keepsD [OF batch_keeps_zset [of key "\<lambda>z. z = drop 10 (w_zsets w key)"] _ batch] w1
        by (simp add: zset_only_def)
      have "w_zsets w key \<noteq> []" using False ps by auto
      then have "length (drop 10 (w_zsets w key)) < length (w_zsets w key)" by (cases "w_zsets w key") auto
      with Suc.prems w2 have shorter: "length (w_zsets w2 key) < fuel" by simp
      show ?thesis
      proof (cases q)
        case (Inl e)
        with pop Inr False batch show ?thesis by (simp add: bind_def)
      next
        case res: (Inr p)
        obtain nd n' where p: "p = (nd, n')" by (cases p)
        show ?thesis
        proof (cases "nd = []")
          case True
          with Suc.IH [OF shorter, of n'] pop Inr False batch res p show ?thesis by (simp add: bind_def)
        next
          case False
          with pop Inr \<open>ps \<noteq> []\<close> batch res p show ?thesis
            by (auto simp: bind_def seqs_def ret_def split: prod.splits sum.splits)
        qed
      qed
    qed
  qed
qed simp

end

text \<open>
  C28: the promotion loop over a sorted set always ends: with one more turn than the set has
  entries it never runs out, whichever calls fail on the way.
\<close>

theorem promote_loop_terminates:
  assumes "services S" and "length (w_zsets w key) < fuel"
  shows "fst (promote_loop S c sid ch bc t key fuel n w) \<noteq> Inr None"
  using services.promote_loop_not_none [OF assms] .

theorem promote_loop_terminates_witness:
  "fst (promote_loop documented default_cfg ''s'' ''c'' False 0 ''k'' 1 0 empty_world) \<noteq> Inr None"
  by (rule promote_loop_terminates [OF doc.services_axioms]) (simp add: empty_world_def)

section \<open>What a promotion does\<close>

definition promoted :: "jobs_cfg \<Rightarrow> string \<Rightarrow> rat \<Rightarrow> string \<Rightarrow> zset \<Rightarrow> world \<Rightarrow> world \<Rightarrow> bool" where
  "promoted c ch t key z w w' \<longleftrightarrow>
     w_lists w' = (w_lists w)(k_queue (pfx c) ch :=
        w_lists w (k_queue (pfx c) ch) @ map fst (takeWhile (\<lambda>p. snd p \<le> t) z))
     \<and> w_zsets w' = (w_zsets w)(key := dropWhile (\<lambda>p. snd p \<le> t) z)
     \<and> w_jobs w' = w_jobs w"

lemma batch_doc:
  "\<exists>w'. promote_batch documented c sid ch bc t batch nd n w =
      (Inr (nd @ filter (\<lambda>p. \<not> snd p \<le> t) batch, n + length (filter (\<lambda>p. snd p \<le> t) batch)), w')
    \<and> w_lists w' = (w_lists w)(k_queue (pfx c) ch :=
        w_lists w (k_queue (pfx c) ch) @ map fst (filter (\<lambda>p. snd p \<le> t) batch))
    \<and> w_zsets w' = w_zsets w \<and> w_jobs w' = w_jobs w \<and> w_strs w' = w_strs w"
proof (induction batch arbitrary: nd n w)
  case Nil
  then show ?case by (simp add: ret_def)
next
  case (Cons p batch)
  obtain jid score where p: "p = (jid, score)" by (cases p)
  show ?case
  proof (cases "score > t")
    case True
    then show ?thesis using Cons.IH [of "nd @ [p]" n w] p by simp
  next
    case False
    define w1 where "w1 = snd (d_rpush (k_queue (pfx c) ch) jid w)"
    define w2 where "w2 = snd (attempt (bind (d_job_get jid) (\<lambda>j.
                sv_event_create documented \<lparr>ev_job = jid, ev_channel = ch, ev_event = EvQueued,
                  ev_runner_id = None, ev_attempt = 0,
                  ev_details = [(''scheduler_id'', JStr sid), (''queue'', JStr (k_queue (pfx c) ch)),
                    (''scheduled_at'', JStr (isoformat (score / 1000)))]
                    @ (if bc then [(''broadcast'', JBool True)] else [])\<rparr>)) w1)"
    have run: "promote_batch documented c sid ch bc t (p # batch) nd n w =
        promote_batch documented c sid ch bc t batch nd (Suc n) w2"
    proof -
      have push: "bind (catch (bind (d_rpush k v) (\<lambda>_. ret True)) (\<lambda>_. ret False)) g w = g True (snd (d_rpush k v w))"
        for k v and g :: "bool \<Rightarrow> ((string \<times> rat) list \<times> nat) wact"
        by (simp add: bind_def catch_def ret_def d_rpush_def)
      show ?thesis using False p by (simp add: push seqs_attempt w1_def w2_def)
    qed
    have "w_lists w2 = w_lists w1" "w_zsets w2 = w_zsets w1" "w_jobs w2 = w_jobs w1" "w_strs w2 = w_strs w1"
      by (simp_all add: w2_def act_defs d_job_get_def d_event_create_def split: option.splits)
    then show ?thesis using Cons.IH [of nd "Suc n" w2] False p unfolding run
      by (auto simp: w1_def d_rpush_def fun_eq_iff)
  qed
qed

lemma sorted_due:
  assumes "sorted_wrt zs_less z"
  shows "filter (\<lambda>p. snd p \<le> t) z = takeWhile (\<lambda>p. snd p \<le> t) z"
    and "filter (\<lambda>p. \<not> snd p \<le> t) z = dropWhile (\<lambda>p. snd p \<le> t) z"
  using assms
proof (induction z)
  case (Cons p z)
  { case 1
    have "\<forall>q \<in> set z. snd p \<le> snd q" using 1 by (auto simp: zs_less_def)
    then have "\<not> snd p \<le> t \<Longrightarrow> filter (\<lambda>p. snd p \<le> t) z = []" by (fastforce simp: filter_empty_conv)
    with Cons.IH(1) 1 show ?case by auto
  next
    case 2
    have "\<forall>q \<in> set z. snd p \<le> snd q" using 2 by (auto simp: zs_less_def)
    then have "\<not> snd p \<le> t \<Longrightarrow> filter (\<lambda>p. \<not> snd p \<le> t) z = z" by (fastforce simp: filter_id_conv)
    with Cons.IH(2) 2 show ?case by auto
  }
qed simp_all

lemma due_split:
  assumes "filter (\<lambda>p. \<not> snd p \<le> t) (take k z) = []"
  shows "takeWhile (\<lambda>p. snd p \<le> t) z = take k z @ takeWhile (\<lambda>p. snd p \<le> t) (drop k z)"
    and "dropWhile (\<lambda>p. snd p \<le> t) z = dropWhile (\<lambda>p. snd p \<le> t) (drop k z)"
proof -
  have "\<forall>p \<in> set (take k z). snd p \<le> t" using assms by (simp add: filter_empty_conv)
  then have "takeWhile (\<lambda>p. snd p \<le> t) (take k z @ drop k z) = take k z @ takeWhile (\<lambda>p. snd p \<le> t) (drop k z)"
    and "dropWhile (\<lambda>p. snd p \<le> t) (take k z @ drop k z) = dropWhile (\<lambda>p. snd p \<le> t) (drop k z)"
    by (simp_all only: takeWhile_append2 dropWhile_append2)
  then show "takeWhile (\<lambda>p. snd p \<le> t) z = take k z @ takeWhile (\<lambda>p. snd p \<le> t) (drop k z)"
    and "dropWhile (\<lambda>p. snd p \<le> t) z = dropWhile (\<lambda>p. snd p \<le> t) (drop k z)"
    by (simp_all only: append_take_drop_id)
qed

lemma due_stop:
  assumes "filter (\<lambda>p. \<not> snd p \<le> t) (take k z) \<noteq> []"
  shows "takeWhile (\<lambda>p. snd p \<le> t) (take k z) = takeWhile (\<lambda>p. snd p \<le> t) z"
    and "dropWhile (\<lambda>p. snd p \<le> t) (take k z) @ drop k z = dropWhile (\<lambda>p. snd p \<le> t) z"
proof -
  obtain p where "p \<in> set (take k z)" "\<not> snd p \<le> t" using assms by (auto simp: filter_empty_conv)
  then have "takeWhile (\<lambda>p. snd p \<le> t) (take k z @ drop k z) = takeWhile (\<lambda>p. snd p \<le> t) (take k z)"
    and "dropWhile (\<lambda>p. snd p \<le> t) (take k z @ drop k z) = dropWhile (\<lambda>p. snd p \<le> t) (take k z) @ drop k z"
    by (rule takeWhile_append1, rule dropWhile_append1)
  then show "takeWhile (\<lambda>p. snd p \<le> t) (take k z) = takeWhile (\<lambda>p. snd p \<le> t) z"
    and "dropWhile (\<lambda>p. snd p \<le> t) (take k z) @ drop k z = dropWhile (\<lambda>p. snd p \<le> t) z"
    by (simp_all only: append_take_drop_id)
qed

lemma promotion_moves:
  assumes "zs_inv (w_zsets w key)" and "length (w_zsets w key) < fuel"
  shows "\<exists>w'. promote_loop documented c sid ch bc t key fuel n w =
      (Inr (Some (n + length (takeWhile (\<lambda>p. snd p \<le> t) (w_zsets w key)))), w')
    \<and> promoted c ch t key (w_zsets w key) w w'"
  using assms
proof (induction fuel arbitrary: n w)
  case (Suc fuel)
  let ?z = "w_zsets w key" and ?due = "\<lambda>p :: string \<times> rat. snd p \<le> t"
  let ?w1 = "w\<lparr>w_zsets := (w_zsets w)(key := drop 10 ?z)\<rparr>"
  have sorted: "sorted_wrt zs_less ?z" "sorted_wrt zs_less (take 10 ?z)"
    using Suc.prems by (auto simp: zs_inv_def sorted_wrt_take)
  obtain w2 where batch: "promote_batch documented c sid ch bc t (take 10 ?z) [] n ?w1 =
      (Inr (filter (\<lambda>p. \<not> ?due p) (take 10 ?z), n + length (filter ?due (take 10 ?z))), w2)"
    and w2: "w_lists w2 = (w_lists w)(k_queue (pfx c) ch :=
        w_lists w (k_queue (pfx c) ch) @ map fst (filter ?due (take 10 ?z)))"
      "w_zsets w2 = (w_zsets w)(key := drop 10 ?z)" "w_jobs w2 = w_jobs w"
    using batch_doc [of c sid ch bc t "take 10 ?z" "[]" n ?w1] by auto
  show ?case
  proof (cases "?z = []")
    case True
    then show ?thesis by (auto simp: bind_def ret_def d_zpopmin_def promoted_def)
  next
    case ne: False
    show ?thesis
    proof (cases "filter (\<lambda>p. \<not> ?due p) (take 10 ?z) = []")
      case True
      have z2: "w_zsets w2 key = drop 10 ?z" using w2 by simp
      have "length (drop 10 ?z) < length ?z" using ne by (cases ?z) auto
      with Suc.prems z2 have "zs_inv (w_zsets w2 key)" "length (w_zsets w2 key) < fuel"
        by (auto intro: zs_inv_drop)
      from Suc.IH [OF this, of "n + length (filter ?due (take 10 ?z))"] obtain w3 where
        w3: "promote_loop documented c sid ch bc t key fuel (n + length (filter ?due (take 10 ?z))) w2 =
            (Inr (Some (n + length (filter ?due (take 10 ?z)) + length (takeWhile ?due (drop 10 ?z)))), w3)"
          "promoted c ch t key (drop 10 ?z) w2 w3" using z2 by auto
      have all: "filter ?due (take 10 ?z) = take 10 ?z"
        using True by (simp add: filter_empty_conv filter_id_conv)
      have "promote_loop documented c sid ch bc t key (Suc fuel) n w =
          promote_loop documented c sid ch bc t key fuel (n + length (filter ?due (take 10 ?z))) w2"
        using ne batch True by (simp add: bind_def d_zpopmin_def)
      with w3 w2 due_split [OF True] all show ?thesis
        by (auto simp: promoted_def)
    next
      case False
      have "zs_adds (dropWhile ?due (take 10 ?z)) (drop 10 ?z) = dropWhile ?due ?z"
      proof -
        have "zs_inv (dropWhile ?due ?z)"
          using zs_inv_drop [OF Suc.prems(1), of "length (takeWhile ?due ?z)"] by (simp add: dropWhile_eq_drop)
        then show ?thesis
          using zs_adds_restore [of "dropWhile ?due (take 10 ?z)" "drop 10 ?z"] due_stop(2) [OF False] by simp
      qed
      then show ?thesis
        using ne batch False w2 due_stop(1) [OF False] sorted_due [OF sorted(2)]
        by (auto simp: bind_def seqs_def ret_def d_zpopmin_def d_zadd_def promoted_def)
    qed
  qed
qed simp

text \<open>
  The promotion of a sorted set moves exactly the entries whose time has come to the channel's
  queue, earliest first, and leaves the later ones in the set with their scores; it writes no row.
\<close>

theorem promotion_exact:
  assumes "zs_inv (w_zsets w key)" and "length (w_zsets w key) < fuel"
  shows "\<exists>w'. promote_loop documented c sid ch bc t key fuel n w =
      (Inr (Some (n + length (takeWhile (\<lambda>p. snd p \<le> t) (w_zsets w key)))), w')
    \<and> promoted c ch t key (w_zsets w key) w w'"
  by (rule promotion_moves [OF assms])

theorem promotion_exact_witness:
  "\<exists>w'. promote_loop documented default_cfg ''s'' ''c'' False 3 ''k'' 3 0
      (empty_world\<lparr>w_zsets := (\<lambda>_. [])(''k'' := [(''a'', 1), (''b'', 5)])\<rparr>) = (Inr (Some 1), w')
    \<and> w_zsets w' ''k'' = [(''b'', 5)] \<and> w_lists w' (k_queue (pfx default_cfg) ''c'') = [''a'']"
  using promotion_exact [of "empty_world\<lparr>w_zsets := (\<lambda>_. [])(''k'' := [(''a'', 1), (''b'', 5)])\<rparr>" "''k''" 3
      default_cfg "''s''" "''c''" False 3 0]
  by (auto simp: empty_world_def zs_inv_def zs_less_def promoted_def)

text \<open>
  A paused channel is left alone: no job is moved and nothing else changes.
\<close>

theorem paused_channel_untouched:
  assumes "w_strs w (k_channel_pause (pfx c) ch) = Some v" and "v \<noteq> []"
  shows "process_channel documented c fuel sid t ch w = (Inr (Some 0), w)"
  using assms by (cases v) (simp_all add: process_channel_def act_defs d_get_def)

theorem paused_channel_untouched_witness:
  "process_channel documented default_cfg 5 ''s'' 0 ''c''
     (empty_world\<lparr>w_strs := (\<lambda>_. None)(k_channel_pause (pfx default_cfg) ''c'' := Some ''1'')\<rparr>) =
   (Inr (Some 0), empty_world\<lparr>w_strs := (\<lambda>_. None)(k_channel_pause (pfx default_cfg) ''c'' := Some ''1'')\<rparr>)"
  by (rule paused_channel_untouched [where v = "''1''"]) simp_all

section \<open>The leadership lock\<close>

definition holds_lock :: "jobs_cfg \<Rightarrow> scheduler \<Rightarrow> world \<Rightarrow> bool" where
  "holds_lock c sc w \<longleftrightarrow> sc_has_lock sc \<and> w_strs w (k_scheduler_lock (pfx c)) = Some (sc_lock_value sc)"

context services
begin

lemma set_nx_taken:
  assumes "w_strs w k = Some v" and "sv_set_nx S k v' w = (r, w')"
  shows "w' = w \<and> r \<noteq> Inr True"
  using set_nx [of k v', THEN may_fail_cases, of w] assms by (auto simp: d_set_nx_def)

lemma get_returns:
  assumes "sv_get S k w = (r, w')"
  shows "w' = w \<and> (\<forall>x. r = Inr x \<longrightarrow> x = w_strs w k)"
  using get [of k, THEN may_fail_cases, of w] assms by (auto simp: d_get_def)

lemma lock_respected_ops:
  assumes b: "w_strs w (k_scheduler_lock (pfx c)) = Some v" and a: "sc_lock_value a \<noteq> v"
  shows "snd (acquire_lock S c a w) = w \<and> (\<forall>x. fst (acquire_lock S c a w) = Inr x \<longrightarrow> \<not> fst x)"
    and "snd (renew_lock S c a w) = w \<and> (\<forall>x. fst (renew_lock S c a w) = Inr x \<longrightarrow> \<not> fst x)"
    and "snd (release_lock S c a w) = w"
proof -
  obtain r w1 where "sv_set_nx S (k_scheduler_lock (pfx c)) (sc_lock_value a) w = (r, w1)"
    by (cases "sv_set_nx S (k_scheduler_lock (pfx c)) (sc_lock_value a) w")
  with set_nx_taken [OF b this]
  show "snd (acquire_lock S c a w) = w \<and> (\<forall>x. fst (acquire_lock S c a w) = Inr x \<longrightarrow> \<not> fst x)"
    by (cases r) (auto simp: acquire_lock_def catch_def bind_def ret_def)
  obtain q w2 where "sv_get S (k_scheduler_lock (pfx c)) w = (q, w2)"
    by (cases "sv_get S (k_scheduler_lock (pfx c)) w")
  with get_returns [OF this] a b
  show "snd (renew_lock S c a w) = w \<and> (\<forall>x. fst (renew_lock S c a w) = Inr x \<longrightarrow> \<not> fst x)"
    and "snd (release_lock S c a w) = w"
    by (cases q; auto simp: renew_lock_def release_lock_def catch_def bind_def ret_def seqs_def)+
qed

end

text \<open>
  While one scheduler holds the leadership lock, another scheduler's attempts to acquire,
  renew or release it leave the world as it is, and never report success.
\<close>

theorem lock_respected:
  assumes "services S" and "holds_lock c b w" and "sc_lock_value a \<noteq> sc_lock_value b"
  shows "snd (acquire_lock S c a w) = w \<and> (\<forall>x. fst (acquire_lock S c a w) = Inr x \<longrightarrow> \<not> fst x)
    \<and> snd (renew_lock S c a w) = w \<and> (\<forall>x. fst (renew_lock S c a w) = Inr x \<longrightarrow> \<not> fst x)
    \<and> snd (release_lock S c a w) = w"
  using services.lock_respected_ops [OF assms(1), of w c "sc_lock_value b" a] assms(2,3)
  unfolding holds_lock_def by blast

theorem lock_respected_witness:
  "let a = scheduler_init default_cfg ''h'' None None ''1'' 0;
       b = scheduler_init default_cfg ''i'' None None ''2'' 0\<lparr>sc_has_lock := True\<rparr>;
       w = empty_world\<lparr>w_strs := (\<lambda>_. None)(k_scheduler_lock (pfx default_cfg) := Some ''2'')\<rparr>
   in snd (acquire_lock documented default_cfg a w) = w \<and> snd (release_lock documented default_cfg a w) = w"
  unfolding Let_def
  using lock_respected [OF doc.services_axioms, of default_cfg
      "scheduler_init default_cfg ''i'' None None ''2'' 0\<lparr>sc_has_lock := True\<rparr>"
      "empty_world\<lparr>w_strs := (\<lambda>_. None)(k_scheduler_lock (pfx default_cfg) := Some ''2'')\<rparr>"
      "scheduler_init default_cfg ''h'' None None ''1'' 0"]
  by (auto simp: holds_lock_def scheduler_init_def)

end
