(* ===== verification/Job_Publishing.thy ===== *)
theory Job_Publishing
  imports Job_Behaviour
begin

text \<open>
  What \<open>publish\<close> promises: exactly one row and exactly one queue or schedule entry for an accepted
  call, idempotency keys, recovery from a Redis outage, the channel gate, and one job per live
  runner for a broadcast.
\<close>

section \<open>An accepted call\<close>

definition enqueued_world :: "jobs_cfg \<Rightarrow> job \<Rightarrow> rat \<Rightarrow> world \<Rightarrow> world" where
  "enqueued_world c j now w =
     (if scheduled_later j now
      then w\<lparr>w_zsets := (w_zsets w)(sched_zset c j :=
               zs_add (job_id j) (score_ms (the (job_run_at j))) (w_zsets w (sched_zset c j))),
             w_sets := (w_sets w)(k_sched_registry (pfx c) :=
               List.insert (job_channel j) (w_sets w (k_sched_registry (pfx c))))\<rparr>
      else w\<lparr>w_lists := (w_lists w)(k_queue (pfx c) (job_channel j) :=
               w_lists w (k_queue (pfx c) (job_channel j)) @ [job_id j])\<rparr>)"

definition announced_world :: "jobs_cfg \<Rightarrow> job \<Rightarrow> rat \<Rightarrow> world \<Rightarrow> world" where
  "announced_world c j now w =
     add_metrics [''jobs.published'', ''jobs.published.'' @ job_channel j]
       (add_event \<lparr>ev_job = job_id j, ev_channel = job_channel j,
            ev_event = (if scheduled_later j now then EvScheduled else EvQueued),
            ev_runner_id = None, ev_attempt = 0,
            ev_details = (if scheduled_later j now
              then [(''run_at'', JStr (isoformat (the (job_run_at j))))]
              else [(''queue'', JStr (k_queue (pfx c) (job_channel j)))])\<rparr>
         (enqueued_world c j now w))"

definition created_world :: "job \<Rightarrow> world \<Rightarrow> world" where
  "created_world j w =
     add_event \<lparr>ev_job = job_id j, ev_channel = job_channel j, ev_event = EvCreated,
          ev_runner_id = None, ev_attempt = 0,
          ev_details = [(''func'', JStr (job_func j)), (''channel'', JStr (job_channel j))]\<rparr>
       (w\<lparr>w_jobs := w_jobs w @ [j]\<rparr>)"

text \<open>No row has the identifier or the idempotency key yet.\<close>

definition fresh :: "pub_env \<Rightarrow> publish_args \<Rightarrow> world \<Rightarrow> bool" where
  "fresh E a w \<longleftrightarrow> row_get (pe_uuid E) (w_jobs w) = None
     \<and> (case pa_idempotency_key a of None \<Rightarrow> True | Some k \<Rightarrow> row_by_key k (w_jobs w) = None)"

lemma new_job_simps [simp]:
  "job_id (new_job c a p i now) = i" "job_channel (new_job c a p i now) = pa_channel a"
  "job_idempotency_key (new_job c a p i now) = pa_idempotency_key a"
  "job_status (new_job c a p i now) = Pending" "job_attempt (new_job c a p i now) = 0"
  "job_func (new_job c a p i now) = func_path (pa_func a)" "job_payload (new_job c a p i now) = p"
  "job_broadcast (new_job c a p i now) = pa_broadcast a" "job_run_at (new_job c a p i now) = resolve_run_at a now"
  by (simp_all add: new_job_def)

lemma create_row_doc:
  assumes "fresh E a w"
  shows "create_row documented c E a payload w =
    (let j = new_job c a payload (pe_uuid E) (pe_now E) in (Inr (Mirror j (pe_now E)), created_world j w))"
  using assms
  by (auto simp: create_row_def fresh_def act_defs atomic_def d_job_create_def d_event_create_def created_world_def
      Let_def split: option.splits)

lemma mirror_doc: "mirror_to_redis documented c j now w = (Inr (), enqueued_world c j now w)"
  by (simp add: mirror_to_redis_def act_defs register_sched_channel_def d_zadd_def d_sadd_def d_rpush_def
      zs_adds_def enqueued_world_def)

lemma publish_enqueue_mirror:
  assumes "create_row documented c E a payload w = (Inr (Mirror j now), w1)"
  shows "publish_enqueue documented c E a payload w = (Inr (job_id j), announced_world c j now w1)"
  using assms
  by (simp add: publish_enqueue_def act_defs mirror_doc d_event_create_def d_metric_def announced_world_def)

lemma publish_enqueue_doc:
  "fresh E a w \<Longrightarrow> publish_enqueue documented c E a payload w =
    (let j = new_job c a payload (pe_uuid E) (pe_now E) in
     (Inr (pe_uuid E), announced_world c j (pe_now E) (created_world j w)))"
  using publish_enqueue_mirror [of c E a payload w "new_job c a payload (pe_uuid E) (pe_now E)" "pe_now E"]
  by (simp add: create_row_doc Let_def)

definition fanned_out :: "publish_args \<Rightarrow> bool" where
  "fanned_out a \<longleftrightarrow> pa_broadcast a \<and> \<not> (pa_run_at a \<noteq> None \<or> int_truthy (pa_delay a))"

lemma publish_plain:
  assumes "\<not> fanned_out a"
  shows "publish S c rn Es E a = bind (publish_checks S c a) (\<lambda>p. bind (publish_enqueue S c E a p) (\<lambda>i. ret (JobId i)))"
  using assms by (auto simp: publish_def fanned_out_def intro: arg_cong [where f = "bind _"])

lemma publish_accepted_row:
  assumes "publish_checks documented c a w = (Inr payload, w1)" and "\<not> fanned_out a" and "fresh E a w1"
  shows "publish documented c rn Es E a w =
    (let j = new_job c a payload (pe_uuid E) (pe_now E) in
     (Inr (JobId (pe_uuid E)), announced_world c j (pe_now E) (created_world j w1)))"
  using assms(1) publish_enqueue_doc [OF assms(3), of c payload]
  by (simp add: publish_plain [OF assms(2)] bind_def ret_def Let_def)

text \<open>
  C26: with services that answer, a publish that passes the checks, is not fanned out (an immediate broadcast is, when
  runners are known) and repeats neither an identifier nor an idempotency key adds exactly one pending row and puts its identifier
  in exactly one place: the queue of its channel when it is immediate, the sorted set of its channel,
  scored by its run time, when it is delayed (the channel is then registered with the scheduler).
\<close>

theorem publish_accepted:
  assumes "publish_checks documented c a w = (Inr payload, w1)" and "\<not> fanned_out a" and "fresh E a w1"
  shows "publish documented c rn Es E a w =
    (let j = new_job c a payload (pe_uuid E) (pe_now E) in
     (Inr (JobId (pe_uuid E)), announced_world c j (pe_now E) (created_world j w1)))"
  using assms by (rule publish_accepted_row)

definition ex_env :: "string \<Rightarrow> pub_env" where
  "ex_env i = \<lparr>pe_uuid = i, pe_now = 10, pe_now2 = 20\<rparr>"

lemma ex_checks:
  assumes "pa_payload a = JNull" and "pa_channel a = ''default''"
  shows "publish_checks S default_cfg a w = (Inr [], w)"
proof -
  have "CHANNEL_NAME_RE ''default''" by code_simp
  moreover have "is_channel_allowed default_cfg ''default''"
    by (simp add: is_channel_allowed_def DEFAULT_CHANNELS_def)
  moreover have "length (json_dumps (JObj [])) \<le> 16384" by (simp add: json_dumps.simps)
  ultimately show ?thesis using assms
    by (simp add: publish_checks_def validate_channel_name_def act_defs default_cfg_def)
qed

theorem publish_accepted_witness:
  "let a = default_args (Path ''m.ok'')\<lparr>pa_delay := Some 5\<rparr>;
       w = snd (publish documented default_cfg (\<lambda>_. ret []) ex_env (ex_env ''i'') a empty_world)
   in w_zsets w (k_sched (pfx default_cfg) ''default'') = [(''i'', 15000)] \<and> length (w_jobs w) = 1"
  unfolding Let_def
  using publish_accepted [OF ex_checks, where a = "default_args (Path ''m.ok'')\<lparr>pa_delay := Some 5\<rparr>"
      and w = empty_world and E = "ex_env ''i''" and rn = "\<lambda>_. ret []" and Es = ex_env]
  by (simp add: default_args_def fanned_out_def fresh_def empty_world_def row_get_def announced_world_def
      enqueued_world_def created_world_def scheduled_later_def resolve_run_at_def ex_env_def sched_zset_def
      score_ms_def zs_add_def zs_del_def)

section \<open>The channel gate\<close>

context services
begin

lemma report_keeps_rows: "keeps (jobs_only P) (report_undeclared_channel S c ch b)"
  unfolding report_undeclared_channel_def Let_def by (intro keeps_intro)

lemma caught_then_attempt:
  "fst (bind (catch m (\<lambda>_. ret x)) (\<lambda>s. if s then ret () else attempt n) w) = Inr ()"
proof -
  obtain y w1 where "catch m (\<lambda>_. ret x) w = (Inr y, w1)"
    by (cases "m w"; cases "fst (m w)") (auto simp: catch_def ret_def)
  then show ?thesis by (simp add: bind_def ret_def attempt_never_raises)
qed

lemma report_never_raises: "fst (report_undeclared_channel S c ch b w) = Inr ()"
  unfolding report_undeclared_channel_def Let_def by (rule caught_then_attempt)

lemma gate_refuses:
  assumes "channels_enforced c" and "\<not> is_channel_allowed c (pa_channel a)"
  shows "\<exists>m w'. publish_checks S c a w = (Inl (ValueError m), w') \<and> w_jobs w' = w_jobs w"
proof -
  let ?r = "report_undeclared_channel S c (pa_channel a) True"
  have keep: "w_jobs (snd (?r w)) = w_jobs w"
    using keeps_snd [OF report_keeps_rows [of "\<lambda>rows. rows = w_jobs w"], of w] by (simp add: jobs_only_def)
  show ?thesis
  proof (cases "validate_channel_name (pa_channel a) w = (Inr (pa_channel a), w)")
    case True
    then have "publish_checks S c a w =
        (Inl (ValueError ''Job channel is not a declared publish target.''), snd (?r w))"
      using assms report_never_raises [of c "pa_channel a" True w]
      by (cases "?r w") (simp add: publish_checks_def seqs_def bind_def throw_def)
    with keep show ?thesis by blast
  next
    case False
    then obtain m where "validate_channel_name (pa_channel a) w = (Inl (ValueError m), w)"
      by (auto simp: validate_channel_name_def act_defs split: if_splits)
    then show ?thesis by (simp add: publish_checks_def seqs_def bind_def)
  qed
qed

end

text \<open>
  With the allow-list enforced, a publish to a channel outside it is refused with a
  \<open>ValueError\<close>, whatever its other arguments, and no row is written.
\<close>

theorem publish_gate:
  assumes "services S" and "channels_enforced c" and "\<not> is_channel_allowed c (pa_channel a)"
  shows "\<exists>m. fst (publish S c rn Es E a w) = Inl (ValueError m)
    \<and> w_jobs (snd (publish S c rn Es E a w)) = w_jobs w"
  using services.gate_refuses [OF assms, of w] by (auto simp: publish_def bind_def)

theorem publish_gate_witness:
  "\<exists>m. fst (publish outage (default_cfg\<lparr>JOBS_ALLOWED_CHANNELS := Some []\<rparr>) (\<lambda>_. ret []) ex_env (ex_env ''i'')
      (default_args (Path ''m.ok'')\<lparr>pa_channel := ''typo''\<rparr>) empty_world) = Inl (ValueError m)"
proof -
  have "\<not> is_channel_allowed (default_cfg\<lparr>JOBS_ALLOWED_CHANNELS := Some []\<rparr>) ''typo''"
    by code_simp
  then show ?thesis
    using publish_gate [OF down.services_axioms, where c = "default_cfg\<lparr>JOBS_ALLOWED_CHANNELS := Some []\<rparr>"
        and a = "default_args (Path ''m.ok'')\<lparr>pa_channel := ''typo''\<rparr>" and w = empty_world and E = "ex_env ''i''"
        and rn = "\<lambda>_. ret []" and Es = ex_env]
    by (auto simp: channels_enforced_def default_args_def)
qed

section \<open>Idempotency keys\<close>

lemma key_conflict_duplicate:
  "str_truthy (pa_idempotency_key a) \<Longrightarrow>
   key_conflict a (IntegrityError ''duplicate key value violates unique constraint'')"
proof -
  have "contains ''duplicate key value violates unique constraint'' ''duplicate key''" by code_simp
  then show "str_truthy (pa_idempotency_key a) \<Longrightarrow> ?thesis" by (simp add: key_conflict_def)
qed

lemma create_row_taken:
  assumes "pa_idempotency_key a = Some k" and "k \<noteq> []" and "row_by_key k (w_jobs w) = Some r"
  shows "create_row documented c E a payload w =
    (case resume_existing documented a payload k (pe_now2 E) w of
       (Inl e, w') \<Rightarrow> if e = DoesNotExist
         then (Inl (RuntimeError (''Failed to create job: duplicate key value violates unique constraint'')), w')
         else (Inl e, w')
     | (Inr x, w') \<Rightarrow> (Inr x, w'))"
proof -
  have "str_truthy (pa_idempotency_key a)" using assms by (cases k) simp_all
  from key_conflict_duplicate [OF this] assms show ?thesis
    by (simp add: create_row_def act_defs atomic_def d_job_create_def Let_def split: prod.split sum.split)
qed

text \<open>
  Publishing again with the idempotency key of a job that already left the queue (it is
  running, finished, canceled, or failed for a reason of its own) returns that job's identifier
  and changes nothing.
\<close>

theorem publish_idempotent:
  assumes "publish_checks documented c a w = (Inr payload, w)" and "\<not> fanned_out a"
    and "pa_idempotency_key a = Some k" and "k \<noteq> []"
    and "row_by_key k (w_jobs w) = Some r" and "job_status r \<noteq> Pending" and "\<not> can_resume r"
  shows "publish documented c rn Es E a w = (Inr (JobId (job_id r)), w)"
proof -
  have "resume_existing documented a payload k (pe_now2 E) w = (Inr (Done (job_id r)), w)"
    using assms(5-7) by (simp add: resume_existing_def act_defs d_job_by_key_def)
  then have "create_row documented c E a payload w = (Inr (Done (job_id r)), w)"
    using create_row_taken [OF assms(3-5)] by simp
  then show ?thesis
    by (simp add: publish_plain [OF assms(2)] bind_def ret_def assms(1) publish_enqueue_def)
qed

definition ex_keyed :: "job_status \<Rightarrow> world" where
  "ex_keyed s = empty_world\<lparr>w_jobs := [ex_job ''a'' ''m.ok''\<lparr>job_status := s, job_idempotency_key := Some ''k''\<rparr>]\<rparr>"

theorem publish_idempotent_witness:
  "publish documented default_cfg (\<lambda>_. ret []) ex_env (ex_env ''i'')
      (default_args (Path ''m.ok'')\<lparr>pa_idempotency_key := Some ''k''\<rparr>) (ex_keyed Completed) =
   (Inr (JobId ''a''), ex_keyed Completed)"
  by (subst publish_idempotent [where k = "''k''" and payload = "[]" and
        r = "ex_job ''a'' ''m.ok''\<lparr>job_status := Completed, job_idempotency_key := Some ''k''\<rparr>"])
    (simp_all add: ex_checks default_args_def fanned_out_def ex_keyed_def row_by_key_def can_resume_def ex_job_def)

section \<open>A Redis outage\<close>

text \<open>The calls that pass every check on a declared channel.\<close>

definition acceptable :: "jobs_cfg \<Rightarrow> publish_args \<Rightarrow> (string \<times> json) list \<Rightarrow> bool" where
  "acceptable c a payload \<longleftrightarrow> pa_channel a \<noteq> [] \<and> CHANNEL_NAME_RE (pa_channel a)
     \<and> is_channel_allowed c (pa_channel a) \<and> payload_dict (pa_payload a) = Some payload
     \<and> length (json_dumps (JObj payload)) \<le> JOBS_PAYLOAD_MAX_BYTES c"

lemma checks_acceptable: "acceptable c a payload \<Longrightarrow> publish_checks S c a w = (Inr payload, w)"
  by (simp add: acceptable_def publish_checks_def validate_channel_name_def act_defs del: payload_dict.simps)

lemma outage_simps [simp]:
  "sv_rpush outage = (\<lambda>k v. redis_down k)" "sv_zadd outage = (\<lambda>k v. redis_down k)"
  "sv_job_create outage = d_job_create" "sv_event_create outage = d_event_create"
  "sv_job_save outage = d_job_save" "sv_job_by_key outage = d_job_by_key"
  by (simp_all add: outage_def)

lemma row_upd_last: "row_get (job_id j) rows = None \<Longrightarrow> row_upd (job_id j) f (rows @ [j]) = rows @ [f j]"
  by (induction rows) (auto simp: row_upd_def row_get_def split: if_splits)

lemma row_by_key_append:
  "row_by_key k (rows @ [j]) =
    (case row_by_key k rows of Some r \<Rightarrow> Some r | None \<Rightarrow> if job_idempotency_key j = Some k then Some j else None)"
  by (induction rows) (auto simp: row_by_key_def)

definition outage_message :: string where
  "outage_message = ''redis: connection refused''"

text \<open>The row after a publish whose Redis write failed, and the same row taken up again.\<close>

definition unqueued :: "job \<Rightarrow> rat \<Rightarrow> job" where
  "unqueued j now = j\<lparr>job_status := Failed, job_last_error := ''Failed to queue: '' @ outage_message, job_modified := now\<rparr>"

definition requeued :: "job \<Rightarrow> rat \<Rightarrow> job" where
  "requeued j now = j\<lparr>job_status := Pending, job_last_error := [], job_stack_trace := [],
     job_finished_at := None, job_modified := now\<rparr>"

text \<open>
  When Redis is down, publish raises and leaves the job's row in the table, marked failed with
  the reason; nothing is in any queue or schedule.
\<close>

theorem publish_outage:
  assumes "acceptable c a payload" and "\<not> fanned_out a" and "fresh E a w"
  shows "publish outage c rn Es E a w =
    (let j = new_job c a payload (pe_uuid E) (pe_now E) in
     (Inl (RuntimeError (''Failed to queue job: '' @ outage_message)),
      (created_world j w)\<lparr>w_jobs := w_jobs w @ [unqueued j (pe_now E)]\<rparr>))"
proof -
  let ?j = "new_job c a payload (pe_uuid E) (pe_now E)"
  have new: "row_get (job_id ?j) (w_jobs w) = None" using assms(3) by (simp add: fresh_def)
  have create: "create_row outage c E a payload w = (Inr (Mirror ?j (pe_now E)), created_world ?j w)"
    using assms(3)
    by (auto simp: create_row_def fresh_def act_defs atomic_def d_job_create_def d_event_create_def created_world_def
        Let_def split: option.splits)
  have "row_get (job_id ?j) (w_jobs w @ [?j]) = Some ?j" using new by (simp add: row_get_append)
  then have "mirror_to_redis outage c ?j (pe_now E) (created_world ?j w) =
      (Inl (RuntimeError (''Failed to queue job: '' @ outage_message)),
       (created_world ?j w)\<lparr>w_jobs := w_jobs w @ [unqueued ?j (pe_now E)]\<rparr>)"
    using row_upd_last [OF new]
    by (simp add: mirror_to_redis_def act_defs redis_down_def d_job_save_def created_world_def outage_message_def
        unqueued_def)
  with create show ?thesis
    by (simp add: publish_plain [OF assms(2)] bind_def seqs_def checks_acceptable [OF assms(1)] publish_enqueue_def Let_def)
qed

lemma ex_acceptable: "acceptable default_cfg (default_args (Path ''m.ok'')\<lparr>pa_idempotency_key := k\<rparr>) []"
proof -
  have "CHANNEL_NAME_RE ''default''" by code_simp
  then show ?thesis
    by (simp add: acceptable_def default_args_def is_channel_allowed_def DEFAULT_CHANNELS_def json_dumps.simps default_cfg_def)
qed

theorem publish_outage_witness:
  "map job_status (w_jobs (snd (publish outage default_cfg (\<lambda>_. ret []) ex_env (ex_env ''i'')
      (default_args (Path ''m.ok'')\<lparr>pa_idempotency_key := None\<rparr>) empty_world))) = [Failed]"
  by (subst publish_outage [OF ex_acceptable])
    (simp_all add: fanned_out_def default_args_def fresh_def empty_world_def row_get_def Let_def unqueued_def)



section \<open>Broadcast\<close>

lemma publish_single_doc:
  assumes "acceptable c a payload" and "fresh E a w"
  shows "publish_single documented c E a w =
    (let j = new_job c a payload (pe_uuid E) (pe_now E) in
     (Inr (pe_uuid E), announced_world c j (pe_now E) (created_world j w)))"
  using publish_enqueue_doc [OF assms(2), of c payload]
  by (simp add: publish_single_def bind_def checks_acceptable [OF assms(1)])

definition fan_job :: "jobs_cfg \<Rightarrow> (string \<Rightarrow> pub_env) \<Rightarrow> publish_args \<Rightarrow> (string \<times> json) list \<Rightarrow> string \<Rightarrow> job" where
  "fan_job c Es a payload t = new_job c (fan_args a payload t) payload (pe_uuid (Es t)) (pe_now (Es t))"

lemma fan_job_now: "\<not> scheduled_later (fan_job c Es a payload t) now"
  by (simp add: scheduled_later_def fan_job_def resolve_run_at_def fan_args_def)

lemma fan_out_doc:
  assumes "\<forall>t \<in> set ts. acceptable c (fan_args a payload t) payload" and "\<not> str_truthy (pa_idempotency_key a)"
    and "distinct (map (\<lambda>t. pe_uuid (Es t)) ts)"
    and "\<forall>t \<in> set ts. row_get (pe_uuid (Es t)) (w_jobs w) = None"
  shows "\<exists>w'. fan_out documented c Es a payload ts w = (Inr (map (\<lambda>t. pe_uuid (Es t)) ts), w')
    \<and> w_jobs w' = w_jobs w @ map (fan_job c Es a payload) ts
    \<and> (\<forall>k. w_lists w' k = w_lists w k @ map (\<lambda>t. pe_uuid (Es t)) (filter (\<lambda>t. k_queue (pfx c) t = k) ts))"
  using assms
proof (induction ts arbitrary: w)
  case Nil
  then show ?case by (simp add: ret_def)
next
  case (Cons t ts)
  let ?j = "fan_job c Es a payload t"
  let ?w1 = "announced_world c ?j (pe_now (Es t)) (created_world ?j w)"
  have "fresh (Es t) (fan_args a payload t) w"
    using Cons.prems(2,4) by (simp add: fresh_def fan_args_def)
  then have one: "publish_single documented c (Es t) (fan_args a payload t) w = (Inr (pe_uuid (Es t)), ?w1)"
    using publish_single_doc [of c "fan_args a payload t" payload "Es t" w] Cons.prems(1) by (simp add: fan_job_def Let_def)
  have ids: "job_id ?j = pe_uuid (Es t)" "job_channel ?j = t" by (simp_all add: fan_job_def fan_args_def)
  have w1: "w_jobs ?w1 = w_jobs w @ [?j]"
    "w_lists ?w1 = (w_lists w)(k_queue (pfx c) t := w_lists w (k_queue (pfx c) t) @ [pe_uuid (Es t)])"
    using fan_job_now ids by (simp_all add: announced_world_def enqueued_world_def created_world_def)
  have "\<forall>u \<in> set ts. row_get (pe_uuid (Es u)) (w_jobs ?w1) = None"
    using Cons.prems(3,4) ids unfolding w1 by (auto simp: row_get_append image_iff)
  with Cons.IH [of ?w1] Cons.prems obtain w2 where
    "fan_out documented c Es a payload ts ?w1 = (Inr (map (\<lambda>t. pe_uuid (Es t)) ts), w2)"
    "w_jobs w2 = w_jobs ?w1 @ map (fan_job c Es a payload) ts"
    "\<forall>k. w_lists w2 k = w_lists ?w1 k @ map (\<lambda>t. pe_uuid (Es t)) (filter (\<lambda>t. k_queue (pfx c) t = k) ts)"
    by auto
  with one w1 show ?case by (auto simp: bind_def ret_def)
qed

text \<open>
  An immediate broadcast creates one pending job per live runner of the channel, addressed to
  that runner's own channel and pushed on that runner's own queue, and nothing on the shared queue.
\<close>

theorem broadcast_fans_out:
  assumes "acceptable c a payload" and "fanned_out a" and "\<not> str_truthy (pa_idempotency_key a)"
    and "rn (pa_channel a) w = (Inr rs, w)" and "live_targets rs \<noteq> []"
    and "\<forall>t \<in> set (live_targets rs). acceptable c (fan_args a payload t) payload
           \<and> row_get (pe_uuid (Es t)) (w_jobs w) = None"
    and "distinct (map (\<lambda>t. pe_uuid (Es t)) (live_targets rs))"
  shows "\<exists>w'. publish documented c rn Es E a w =
      (Inr (JobIds (map (\<lambda>t. pe_uuid (Es t)) (sort (live_targets rs)))), w')
    \<and> w_jobs w' = w_jobs w @ map (fan_job c Es a payload) (sort (live_targets rs))
    \<and> (\<forall>k. w_lists w' k = w_lists w k @
          map (\<lambda>t. pe_uuid (Es t)) (filter (\<lambda>t. k_queue (pfx c) t = k) (sort (live_targets rs))))"
proof -
  have "distinct (map (\<lambda>t. pe_uuid (Es t)) (sort (live_targets rs)))"
    using assms(7) by (metis distinct_sort distinct_map set_sort)
  from fan_out_doc [of "sort (live_targets rs)" c a payload Es w, OF _ assms(3) this] assms(6)
  obtain w' where w': "fan_out documented c Es a payload (sort (live_targets rs)) w =
      (Inr (map (\<lambda>t. pe_uuid (Es t)) (sort (live_targets rs))), w')"
    "w_jobs w' = w_jobs w @ map (fan_job c Es a payload) (sort (live_targets rs))"
    "\<forall>k. w_lists w' k = w_lists w k @
          map (\<lambda>t. pe_uuid (Es t)) (filter (\<lambda>t. k_queue (pfx c) t = k) (sort (live_targets rs)))" by auto
  have "publish documented c rn Es E a w = (Inr (JobIds (map (\<lambda>t. pe_uuid (Es t)) (sort (live_targets rs)))), w')"
    using assms(2,4,5) w'(1)
    by (simp add: publish_def bind_def checks_acceptable [OF assms(1)] fanned_out_def ret_def)
  with w' show ?thesis by blast
qed

theorem broadcast_fans_out_witness:
  "let a = default_args (Path ''m.ok'')\<lparr>pa_idempotency_key := None, pa_broadcast := True\<rparr>;
       rs = [\<lparr>ri_runner_id = Some ''b-engine'', ri_alive = True\<rparr>, \<lparr>ri_runner_id = Some ''c-engine'', ri_alive = False\<rparr>]
   in fst (publish documented default_cfg (\<lambda>_. ret rs) ex_env (ex_env ''i'') a empty_world) = Inr (JobIds [''b-engine''])"
proof -
  let ?a = "default_args (Path ''m.ok'')\<lparr>pa_idempotency_key := None, pa_broadcast := True\<rparr>"
  let ?rs = "[\<lparr>ri_runner_id = Some ''b-engine'', ri_alive = True\<rparr>, \<lparr>ri_runner_id = Some ''c-engine'', ri_alive = False\<rparr>]"
  have t: "live_targets ?rs = [''b-engine'']" by (simp add: live_targets_def)
  have "CHANNEL_NAME_RE ''b-engine''" "CHANNEL_NAME_RE ''default''" "is_channel_allowed default_cfg ''b-engine''"
    "is_channel_allowed default_cfg ''default''" by code_simp+
  moreover have "length (json_dumps (JObj [])) \<le> JOBS_PAYLOAD_MAX_BYTES default_cfg"
    by (simp add: json_dumps.simps default_cfg_def)
  ultimately have "acceptable default_cfg ?a []" "acceptable default_cfg (fan_args ?a [] ''b-engine'') []"
    by (simp_all add: acceptable_def default_args_def fan_args_def)
  then show ?thesis
    using broadcast_fans_out [where c = default_cfg and a = ?a and payload = "[]" and rn = "\<lambda>_. ret ?rs" and rs = ?rs
        and w = empty_world and Es = ex_env and E = "ex_env ''i''"] t
    by (auto simp: fanned_out_def default_args_def ret_def empty_world_def row_get_def ex_env_def)
qed

end
