(* ===== verification/Job_Delivery.thy ===== *)
theory Job_Delivery
  imports Job_Promotion Job_Publishing
begin

text \<open>
  No job is lost: with services that behave as documented, every pending row is in the queue, in
  a schedule, or in the in-flight set of its own channel, after any interleaving of publishers,
  engines that may crash at any time, reapers, schedulers and cancellations.
\<close>

section \<open>Where a job is\<close>

type_synonym lists = "string \<Rightarrow> string list"
type_synonym zsets = "string \<Rightarrow> zset"

definition at_channel :: "jobs_cfg \<Rightarrow> string \<Rightarrow> string \<Rightarrow> lists \<Rightarrow> zsets \<Rightarrow> bool" where
  "at_channel c ch i L Z \<longleftrightarrow>
     i \<in> set (L (k_queue (pfx c) ch))
     \<or> i \<in> fst ` set (Z (k_sched (pfx c) ch))
     \<or> i \<in> fst ` set (Z (k_sched_broadcast (pfx c) ch))
     \<or> i \<in> fst ` set (Z (k_processing (pfx c) ch))"

text \<open>
  Every pending row outside \<open>X\<close> is at its channel, no row is at another channel, and the
  identifiers in \<open>U\<close> are still unused.
\<close>

definition flow_ok :: "jobs_cfg \<Rightarrow> string set \<Rightarrow> string set \<Rightarrow> job list \<Rightarrow> lists \<Rightarrow> zsets \<Rightarrow> bool" where
  "flow_ok c U X R L Z \<longleftrightarrow> distinct (map job_id R)
     \<and> (\<forall>r \<in> set R. CHR '':'' \<notin> set (job_channel r)
         \<and> (job_status r = Pending \<and> job_id r \<notin> X \<longrightarrow> at_channel c (job_channel r) (job_id r) L Z)
         \<and> (\<forall>ch. at_channel c ch (job_id r) L Z \<longrightarrow> ch = job_channel r))
     \<and> (\<forall>u \<in> U. u \<notin> job_id ` set R \<and> (\<forall>ch. \<not> at_channel c ch u L Z))"

definition flow :: "(job list \<Rightarrow> lists \<Rightarrow> zsets \<Rightarrow> bool) \<Rightarrow> world \<Rightarrow> bool" where
  "flow P w = P (w_jobs w) (w_lists w) (w_zsets w)"

definition settled :: "string \<Rightarrow> job list \<Rightarrow> bool" where
  "settled i R \<longleftrightarrow> (\<forall>r \<in> set R. job_id r = i \<longrightarrow> job_status r \<noteq> Pending)"

lemma flow_ok_at:
  "flow_ok c U X R L Z \<Longrightarrow> (\<And>ch i. at_channel c ch i L' Z' = at_channel c ch i L Z) \<Longrightarrow> flow_ok c U X R L' Z'"
  by (simp add: flow_ok_def)

lemma flow_ok_fewer: "flow_ok c U X R L Z \<Longrightarrow> V \<subseteq> U \<Longrightarrow> X \<subseteq> Y \<Longrightarrow> flow_ok c V Y R L Z"
  by (auto simp: flow_ok_def)

lemma flow_ok_settled: "flow_ok c U (insert i X) R L Z \<Longrightarrow> settled i R \<Longrightarrow> flow_ok c U X R L Z"
  by (auto simp: flow_ok_def settled_def)

lemma flow_ok_zrem: "flow_ok c U X R L Z \<Longrightarrow> i \<in> X \<Longrightarrow> flow_ok c U X R L (Z(k := zs_del i (Z k)))"
proof -
  have less: "at_channel c ch j L (Z(k := zs_del i (Z k))) \<Longrightarrow> at_channel c ch j L Z" for ch j
    by (auto simp: at_channel_def split: if_splits)
  have same: "j \<noteq> i \<Longrightarrow> at_channel c ch j L (Z(k := zs_del i (Z k))) = at_channel c ch j L Z" for ch j
    by (auto simp: at_channel_def)
  assume "flow_ok c U X R L Z" "i \<in> X"
  then show ?thesis using less same unfolding flow_ok_def by metis
qed

lemma flow_ok_zrem_settled:
  "flow_ok c U X R L Z \<Longrightarrow> settled i R \<Longrightarrow> flow_ok c U X R L (Z(k := zs_del i (Z k)))"
  by (rule flow_ok_settled [of c U i], rule flow_ok_zrem) (auto intro: flow_ok_fewer)

text \<open>Adding the identifier of a row to a place of its own channel.\<close>

lemma flow_ok_arrive:
  assumes "flow_ok c U (insert i X) R L Z"
    and "\<And>r. r \<in> set R \<Longrightarrow> job_id r = i \<Longrightarrow> job_channel r = ch" and "i \<notin> U"
    and "\<And>k j. at_channel c k j L' Z' \<longleftrightarrow> at_channel c k j L Z \<or> (k = ch \<and> j = i)"
  shows "flow_ok c U X R L' Z'"
  unfolding flow_ok_def
proof (intro conjI ballI allI impI)
  show "distinct (map job_id R)" using assms(1) by (simp add: flow_ok_def)
next
  fix r assume "r \<in> set R"
  with assms(1) show "CHR '':'' \<notin> set (job_channel r)" by (simp add: flow_ok_def)
next
  fix r assume "r \<in> set R" "job_status r = Pending \<and> job_id r \<notin> X"
  with assms show "at_channel c (job_channel r) (job_id r) L' Z'" by (cases "job_id r = i") (auto simp: flow_ok_def)
next
  fix r k assume "r \<in> set R" "at_channel c k (job_id r) L' Z'"
  with assms show "k = job_channel r" by (auto simp: flow_ok_def)
next
  fix u assume "u \<in> U"
  with assms(1) show "u \<notin> job_id ` set R" by (auto simp: flow_ok_def)
next
  fix u k assume "u \<in> U"
  with assms show "\<not> at_channel c k u L' Z'" by (auto simp: flow_ok_def)
qed

lemma at_push:
  "at_channel c k j (L(k_queue (pfx c) ch := L (k_queue (pfx c) ch) @ [i])) Z \<longleftrightarrow>
   at_channel c k j L Z \<or> (k = ch \<and> j = i)"
  by (auto simp: at_channel_def)

lemma at_sched:
  "key \<in> {k_sched (pfx c) ch, k_sched_broadcast (pfx c) ch, k_processing (pfx c) ch} \<Longrightarrow>
   at_channel c k j L (Z(key := zs_add i s (Z key))) \<longleftrightarrow> at_channel c k j L Z \<or> (k = ch \<and> j = i)"
  by (auto simp: at_channel_def image_iff set_zs_add) (metis fst_conv members_zs_add imageI image_iff insertE)+

lemma flow_ok_upd:
  assumes "flow_ok c U X R L Z"
    and "\<And>r. job_id (f r) = job_id r \<and> job_channel (f r) = job_channel r"
    and "\<And>r. job_status (f r) = Pending \<Longrightarrow> job_status r = Pending \<or> i \<in> X"
  shows "flow_ok c U X (row_upd i f R) L Z"
proof -
  have "keeps_id f" using assms(2) by (simp add: keeps_id_def)
  then have ids: "map job_id (row_upd i f R) = map job_id R" by (rule ids_row_upd)
  then have "job_id ` set (row_upd i f R) = job_id ` set R" by (metis list.set_map)
  moreover have "\<exists>r \<in> set R. job_id r' = job_id r \<and> job_channel r' = job_channel r
      \<and> (job_status r' = Pending \<and> job_id r' \<notin> X \<longrightarrow> job_status r = Pending)"
    if "r' \<in> set (row_upd i f R)" for r'
    using that assms(2,3) by (fastforce simp: row_upd_def split: if_splits)
  ultimately show ?thesis using assms(1) ids unfolding flow_ok_def by metis
qed

lemma settled_upd: "(\<And>r. job_id (f r) = job_id r \<and> job_status (f r) \<noteq> Pending) \<Longrightarrow> settled i (row_upd i f R)"
  by (auto simp: settled_def row_upd_def)

section \<open>Each operation keeps every pending job somewhere\<close>

abbreviation flows :: "jobs_cfg \<Rightarrow> string set \<Rightarrow> world \<Rightarrow> bool" where
  "flows c U \<equiv> flow (flow_ok c U {})"

lemma keeps_flow [keeps_intro]:
  "keeps (flow P) (d_get k)" "keeps (flow P) (d_set k v)" "keeps (flow P) (d_set_nx k v)"
  "keeps (flow P) (d_expire k)" "keeps (flow P) (d_delete k)" "keeps (flow P) (d_sadd k v)"
  "keeps (flow P) (d_smembers k)" "keeps (flow P) (d_pub k msg)" "keeps (flow P) (d_job_get i)"
  "keeps (flow P) (d_job_by_key k)" "keeps (flow P) (d_event_create e)" "keeps (flow P) (d_log_create l)"
  "keeps (flow P) (d_metric m)" "keeps (flow P) (d_incident a b)" "keeps (flow P) (d_zrangebyscore k x n)"
  by (simp_all add: keeps_def flow_def call_defs split: option.splits)

lemma flows_save [keeps_intro]:
  assumes "\<And>r. job_id (f r) = job_id r \<and> job_channel (f r) = job_channel r"
    and "\<And>r. job_status (f r) = Pending \<Longrightarrow> job_status r = Pending"
  shows "keeps (flows c U) (d_job_save i f)"
  using flow_ok_upd [of c U "{}" _ _ _ f i] assms by (auto simp: keeps_def flow_def d_job_save_def)

lemma flows_without:
  "flows c U w \<Longrightarrow> settled jid (w_jobs w) \<Longrightarrow> flows c U (without_processing c ch jid w)"
  by (simp add: flow_def without_processing_def flow_ok_zrem_settled)

lemma settledI: "distinct (map job_id R) \<Longrightarrow> row_get i R = Some j \<Longrightarrow> job_status j \<noteq> Pending \<Longrightarrow> settled i R"
  unfolding settled_def by (metis row_get_unique option.inject)

lemma settled_none: "row_get i R = None \<Longrightarrow> settled i R"
  by (auto simp: settled_def row_get_None)

lemma flows_settledI: "flows c U w \<Longrightarrow> row_get i (w_jobs w) = Some j \<Longrightarrow> job_status j \<noteq> Pending \<Longrightarrow> settled i (w_jobs w)"
  by (auto simp: flow_def flow_ok_def intro: settledI)

lemma flows_upd_settle:
  assumes "flows c U w" and "\<And>r. job_id (f r) = job_id r \<and> job_channel (f r) = job_channel r \<and> job_status (f r) \<noteq> Pending"
  shows "flows c U (upd_row jid f w) \<and> settled jid (w_jobs (upd_row jid f w))"
  using assms flow_ok_upd [of c U "{}" "w_jobs w" "w_lists w" "w_zsets w" f jid] settled_upd [of f jid "w_jobs w"]
  by (auto simp: flow_def)

lemma flow_congr:
  "w_jobs w' = w_jobs w \<Longrightarrow> w_lists w' = w_lists w \<Longrightarrow> w_zsets w' = w_zsets w \<Longrightarrow> flow P w' = flow P w"
  by (simp add: flow_def)

lemma flows_retried:
  assumes "flows c U w" and j: "row_get jid (w_jobs w) = Some j"
  shows "flows c U (without_processing c ch jid (retried_world c runner next_at trace jid j e w))"
proof -
  let ?R = "row_upd jid (retried_row next_at (exn_str e) trace) (w_jobs w)" and ?Z = "w_zsets w"
  let ?P = "k_processing (pfx c) ch" and ?S = "sched_zset c j"
  have ok: "flow_ok c U {} (w_jobs w) (w_lists w) ?Z" using assms(1) by (simp add: flow_def)
  then have "flow_ok c U {jid} (w_jobs w) (w_lists w) ?Z" by (rule flow_ok_fewer) auto
  then have upd: "flow_ok c U {jid} ?R (w_lists w) ?Z"
    by (rule flow_ok_upd) (auto simp: retried_row_def)
  then have rem: "flow_ok c U {jid} ?R (w_lists w) (?Z(?P := zs_del jid (?Z ?P)))"
    by (rule flow_ok_zrem) simp
  have ch: "job_channel r = job_channel j" if mem: "r \<in> set ?R" "job_id r = jid" for r
  proof -
    from mem(1) obtain r' where r': "r' \<in> set (w_jobs w)"
      "r = (if job_id r' = jid then retried_row next_at (exn_str e) trace r' else r')"
      unfolding row_upd_def set_map by blast
    with mem(2) have same: "job_id r' = jid" "job_channel r = job_channel r'"
      by (simp_all add: retried_row_def split: if_splits)
    have "distinct (map job_id (w_jobs w))" using ok by (simp add: flow_ok_def)
    from row_get_unique [OF this r'(1)] same j show ?thesis by simp
  qed
  have inU: "jid \<notin> U" using ok row_get_mem [OF j] row_get_id [OF j] by (auto simp: flow_ok_def)
  have key: "?S \<in> {k_sched (pfx c) (job_channel j), k_sched_broadcast (pfx c) (job_channel j),
      k_processing (pfx c) (job_channel j)}" by (simp add: sched_zset_def)
  have ne: "?S \<noteq> ?P" by (simp add: sched_zset_def)
  have "flow_ok c U {} ?R (w_lists w)
      ((?Z(?P := zs_del jid (?Z ?P)))(?S := zs_add jid (score_ms next_at) ((?Z(?P := zs_del jid (?Z ?P))) ?S)))"
    by (rule flow_ok_arrive [OF rem _ inU at_sched [OF key]]) (rule ch)
  then show ?thesis
    using ne by (simp add: flow_def without_processing_def retried_world_def fun_upd_twist)
qed

lemma flows_handle_failure [keeps_intro]:
  "keeps (flows c U) (handle_job_failure documented c runner now rnd trace ch jid e)"
  unfolding keeps_def
proof (intro allI impI)
  fix w assume ok: "flows c U w"
  show "flows c U (snd (handle_job_failure documented c runner now rnd trace ch jid e w))"
  proof (cases "row_get jid (w_jobs w)")
    case None
    then have "snd (handle_job_failure documented c runner now rnd trace ch jid e w) = w"
      by (simp add: handle_job_failure_def retry_or_fail_def act_defs d_job_get_def)
    with ok show ?thesis by simp
  next
    case (Some j)
    have "flows c U (without_processing c ch jid (failed_world runner now trace jid j e w))"
      using flows_upd_settle [OF ok, of "failed_row now (exn_str e) trace" jid]
      by (intro flows_without) (simp_all add: failed_row_def failed_world_def flow_def)
    with flows_retried [OF ok Some] show ?thesis by (simp add: handle_failure_row [OF Some])
  qed
qed

lemma flows_exec_failed [keeps_intro]:
  "keeps (flows c U) (exec_failed documented c runner now rnd trace ch jid j e)"
  unfolding exec_failed_def add_log_def Let_def documented_simps by (intro keeps_intro) auto

lemma flows_begin:
  assumes ok: "flows c U w"
  shows "flows c U (snd (exec_begin documented c importlib runner t0 t1 rnd trace ch jid w))"
proof (cases "row_get jid (w_jobs w)")
  case None
  then have "snd (exec_begin documented c importlib runner t0 t1 rnd trace ch jid w) = without_processing c ch jid w"
    by (simp add: exec_begin_def exec_start_def bind_def exec_load_missing ret_def)
  with flows_without [OF ok settled_none [OF None]] show ?thesis by simp
next
  case (Some j)
  consider "job_status j \<noteq> Pending" | "job_status j = Pending" "is_expired t0 j" | "job_status j = Pending" "\<not> is_expired t0 j"
    by blast
  then show ?thesis
  proof cases
    case 1
    then have "snd (exec_begin documented c importlib runner t0 t1 rnd trace ch jid w) = without_processing c ch jid w"
      by (simp add: exec_begin_def exec_start_def exec_claim_def act_defs exec_load_doc [OF Some] remove_doc)
    with flows_without [OF ok flows_settledI [OF ok Some 1]] show ?thesis by simp
  next
    case 2
    have "flows c U (without_processing c ch jid
        (upd_row jid (\<lambda>r. r\<lparr>job_status := Expired, job_finished_at := Some t0\<rparr>) w))"
      using flows_upd_settle [OF ok, of "\<lambda>r. r\<lparr>job_status := Expired, job_finished_at := Some t0\<rparr>" jid]
      by (intro flows_without) simp_all
    then show ?thesis
      by (simp add: expired_never_starts [OF Some 2] flow_def without_processing_def)
  next
    case 3
    let ?w = "claimed_world c runner t0 ch j w"
    have claimed: "flows c U ?w"
      using flows_upd_settle [OF ok, of "claim_update runner t0" "job_id j"]
      by (simp add: claimed_world_def flow_def claim_update_def)
    have "keeps (flows c U) (catch
        (bind (load_job_function importlib (job_func (claim_update runner t0 j))) (\<lambda>func.
         seqs (execution (job_id (claim_update runner t0 j)) (job_func (claim_update runner t0 j))
                 (job_attempt (claim_update runner t0 j)) (job_channel (claim_update runner t0 j)) runner)
              (ret (Some \<lparr>run_runner = runner, run_channel = ch, run_loaded = j,
                          run_job = claim_update runner t0 j, run_func = func\<rparr>))))
        (\<lambda>e. seqs (exec_failed documented c runner t1 rnd trace ch jid j e) (ret None)))" (is "keeps _ ?m")
      by (intro keeps_intro doc.inv_load_function doc.inv_execution)
    moreover have "exec_begin documented c importlib runner t0 t1 rnd trace ch jid w = ?m ?w"
      by (simp add: exec_begin_def exec_start_def bind_def catch_def exec_load_doc [OF Some] exec_claim_doc [OF Some 3])
    ultimately show ?thesis using claimed by (simp add: keeps_def)
  qed
qed

lemma flows_finish [keeps_intro]: "keeps (flows c U) (exec_finish documented c t1 rnd trace jid r outcome)"
proof -
  have "keeps (flows c U) (catch (exec_complete documented c (run_runner r) t1 (run_channel r) jid j)
      (exec_failed documented c (run_runner r) t1 rnd trace (run_channel r) jid (run_loaded r)))" for j
    unfolding keeps_def
  proof (intro allI impI)
    fix w assume ok: "flows c U w"
    let ?m = "catch (exec_complete documented c (run_runner r) t1 (run_channel r) jid j)
      (exec_failed documented c (run_runner r) t1 rnd trace (run_channel r) jid (run_loaded r))"
    show "flows c U (snd (?m w))"
    proof (cases "row_get jid (w_jobs w)")
      case None
      then have "snd (?m w) = snd (exec_failed documented c (run_runner r) t1 rnd trace (run_channel r) jid (run_loaded r)
          (ServiceError ''Save with update_fields did not affect any rows.'') w)"
        by (simp add: catch_def exec_complete_def seqs_def bind_def d_job_save_def)
      with keeps_snd [OF flows_exec_failed ok] show ?thesis by simp
    next
      case (Some x)
      have "flows c U (without_processing c (run_channel r) jid (upd_row jid (completed_row t1 (job_metadata j)) w))"
        using flows_upd_settle [OF ok, of "completed_row t1 (job_metadata j)" jid]
        by (intro flows_without) (simp_all add: completed_row_def)
      then show ?thesis using Some
        by (simp add: catch_def exec_complete_doc completed_world_def flow_def without_processing_def)
    qed
  qed
  then show ?thesis unfolding exec_finish_def by (cases outcome) (auto intro: keeps_intro)
qed

subsection \<open>Engines and schedulers move entries within a channel\<close>

lemma flows_at:
  "flows c U w \<Longrightarrow> w_jobs w' = w_jobs w \<Longrightarrow>
   (\<And>ch i. at_channel c ch i (w_lists w') (w_zsets w') = at_channel c ch i (w_lists w) (w_zsets w)) \<Longrightarrow> flows c U w'"
  using flow_ok_at [of c U "{}" "w_jobs w" "w_lists w" "w_zsets w" "w_lists w'" "w_zsets w'"] by (simp add: flow_def)

lemma at_popped:
  assumes "L (k_queue (pfx c) ch) \<noteq> []"
  shows "at_channel c k i (L(k_queue (pfx c) ch := butlast (L (k_queue (pfx c) ch))))
      (Z(k_processing (pfx c) ch := zs_add (last (L (k_queue (pfx c) ch))) s (Z (k_processing (pfx c) ch)))) =
    at_channel c k i L Z"
proof -
  have "set (L (k_queue (pfx c) ch)) = insert (last (L (k_queue (pfx c) ch))) (set (butlast (L (k_queue (pfx c) ch))))"
    using assms by (metis append_butlast_last_id list.simps(15) rotate1.simps(2) set_rotate1)
  then show ?thesis by (auto simp: at_channel_def)
qed

lemma flows_claim:
  assumes "\<forall>ch \<in> set (en_channels en). CHR '':'' \<notin> set ch"
  shows "keeps (flows c U) (claim_next documented c now en)"
  unfolding keeps_def
proof (intro allI impI)
  fix w assume ok: "flows c U w"
  let ?ks = "map (k_queue (pfx c)) (channels_ordered (en_channels en))"
  show "flows c U (snd (claim_next documented c now en w))"
  proof (cases "length (en_active en) \<ge> en_max_workers en \<or> find (\<lambda>k. w_lists w k \<noteq> []) ?ks = None")
    case True
    then have "snd (claim_next documented c now en w) = w"
      by (auto simp: claim_next_def act_defs d_brpop_def)
    with ok show ?thesis by simp
  next
    case False
    then obtain k where k: "find (\<lambda>k. w_lists w k \<noteq> []) ?ks = Some k" by auto
    then have "k \<in> set ?ks" and ne: "w_lists w k \<noteq> []" by (auto simp: find_Some_iff)
    then obtain ch where ch: "k = k_queue (pfx c) ch" "ch \<in> set (en_channels en)"
      by (auto simp: channels_ordered_def split: if_splits)
    then have key: "channel_of_key k = ch" using assms channel_of_queue_key by simp
    have "snd (claim_next documented c now en w) =
        w\<lparr>w_lists := (w_lists w)(k := butlast (w_lists w k)),
          w_zsets := (w_zsets w)(k_processing (pfx c) ch :=
             zs_add (last (w_lists w k)) (now_ms now) (w_zsets w (k_processing (pfx c) ch)))\<rparr>"
      using False k key by (simp add: claim_next_def act_defs d_brpop_def d_zadd_def zs_adds_def)
    with ok show ?thesis
      using at_popped [of "w_lists w" c ch] ne ch(1) by (intro flows_at [OF ok]) simp_all
  qed
qed

lemma at_promoted:
  assumes "key \<in> {k_sched (pfx c) ch, k_sched_broadcast (pfx c) ch}"
    and "set ps = set due \<union> set rest" and "fst ` set (Z key) = fst ` set ps \<union> fst ` set z"
    and "fst ` set z' = fst ` set rest \<union> fst ` set z"
  shows "at_channel c k i (L(k_queue (pfx c) ch := L (k_queue (pfx c) ch) @ map fst due)) (Z(key := z')) =
    at_channel c k i L Z"
  using assms by (auto simp: at_channel_def)

lemma flows_promote [keeps_intro]:
  assumes "key \<in> {k_sched (pfx c) ch, k_sched_broadcast (pfx c) ch}"
  shows "keeps (flows c U) (promote_loop documented c sid ch bc t key fuel n)"
proof (induction fuel arbitrary: n)
  case 0
  then show ?case by (simp add: keeps_ret)
next
  case (Suc fuel)
  show ?case unfolding keeps_def
  proof (intro allI impI)
    fix w assume ok: "flows c U w"
    let ?z = "w_zsets w key" and ?due = "\<lambda>p :: string \<times> rat. snd p \<le> t"
    let ?nd = "filter (\<lambda>p. \<not> ?due p) (take 10 ?z)"
    let ?w1 = "w\<lparr>w_zsets := (w_zsets w)(key := drop 10 ?z)\<rparr>"
    obtain w2 where batch: "promote_batch documented c sid ch bc t (take 10 ?z) [] n ?w1 =
        (Inr (?nd, n + length (filter ?due (take 10 ?z))), w2)"
      and w2: "w_lists w2 = (w_lists w)(k_queue (pfx c) ch :=
          w_lists w (k_queue (pfx c) ch) @ map fst (filter ?due (take 10 ?z)))"
        "w_zsets w2 = (w_zsets w)(key := drop 10 ?z)" "w_jobs w2 = w_jobs w"
      using batch_doc [of c sid ch bc t "take 10 ?z" "[]" n ?w1] by auto
    let ?w3 = "w2\<lparr>w_zsets := (w_zsets w2)(key := zs_adds ?nd (w_zsets w2 key))\<rparr>"
    have all: "fst ` set ?z = fst ` set (take 10 ?z) \<union> fst ` set (drop 10 ?z)"
      by (metis append_take_drop_id image_Un set_append)
    have w3: "flows c U ?w3"
    proof (rule flows_at [OF ok])
      fix k i
      show "at_channel c k i (w_lists ?w3) (w_zsets ?w3) = at_channel c k i (w_lists w) (w_zsets w)"
        using at_promoted [OF assms, of "take 10 ?z" "filter ?due (take 10 ?z)" ?nd "w_zsets w" "drop 10 ?z"
            "zs_adds ?nd (drop 10 ?z)" k i "w_lists w"] all w2 by (auto simp: members_zs_adds)
    qed (use w2 in simp)
    show "flows c U (snd (promote_loop documented c sid ch bc t key (Suc fuel) n w))"
    proof (cases "?z = [] \<or> ?nd \<noteq> []")
      case True
      then show ?thesis
      proof
        assume "?z = []"
        then have "snd (promote_loop documented c sid ch bc t key (Suc fuel) n w) = ?w1"
          by (simp add: bind_def d_zpopmin_def ret_def)
        then show ?thesis using ok \<open>?z = []\<close> by (simp add: flow_def fun_upd_idem)
      next
        assume "?nd \<noteq> []"
        moreover from this have "?z \<noteq> []" by auto
        ultimately have "snd (promote_loop documented c sid ch bc t key (Suc fuel) n w) = ?w3"
          using batch by (simp add: bind_def seqs_def d_zpopmin_def d_zadd_def ret_def)
        with w3 show ?thesis by simp
      qed
    next
      case False
      then have "promote_loop documented c sid ch bc t key (Suc fuel) n w =
          promote_loop documented c sid ch bc t key fuel (n + length (filter ?due (take 10 ?z))) w2"
        using batch by (simp add: bind_def d_zpopmin_def)
      moreover have "flows c U w2" using w3 False by (simp add: flow_def zs_adds_def)
      ultimately show ?thesis using keeps_snd [OF Suc.IH] by simp
    qed
  qed
qed

lemma flows_scheduler: "keeps (flows c U) (scheduler_turn documented c fuel interval now sc)"
  unfolding scheduler_turn_def acquire_lock_def renew_lock_def process_scheduled_jobs_def
    refresh_channels_def get_sched_channels_def process_channel_def Let_def documented_simps
  by (intro keeps_intro) simp_all

subsection \<open>The reaper\<close>

text \<open>The rows among the stale identifiers belong to the channel whose in-flight set held them.\<close>

definition homed :: "string list \<Rightarrow> string \<Rightarrow> job list \<Rightarrow> bool" where
  "homed ids ch R \<longleftrightarrow> (\<forall>r \<in> set R. job_id r \<in> set ids \<longrightarrow> job_channel r = ch)"

definition reaped :: "jobs_cfg \<Rightarrow> string \<Rightarrow> string \<Rightarrow> (job \<Rightarrow> job) \<Rightarrow> world \<Rightarrow> world" where
  "reaped c ch jid f w = without_processing c ch jid (upd_row jid f w)"

definition requeued_world :: "jobs_cfg \<Rightarrow> string \<Rightarrow> string \<Rightarrow> (job \<Rightarrow> job) \<Rightarrow> world \<Rightarrow> world" where
  "requeued_world c ch jid f w = (reaped c ch jid f w)\<lparr>w_lists := (w_lists w)(k_queue (pfx c) ch :=
     w_lists w (k_queue (pfx c) ch) @ [jid])\<rparr>"

lemma upd_row_id: "upd_row jid (\<lambda>r. r) w = w"
  by (simp add: row_upd_def)

definition agrees :: "world \<Rightarrow> world \<Rightarrow> bool" where
  "agrees v w \<longleftrightarrow> w_jobs v = w_jobs w \<and> w_lists v = w_lists w \<and> w_zsets v = w_zsets w"

lemma agrees_flow: "agrees v w \<Longrightarrow> flow P v = flow P w"
  by (simp add: agrees_def flow_def)

lemma agrees_jobs: "agrees v w \<Longrightarrow> w_jobs v = w_jobs w"
  by (simp add: agrees_def)

text \<open>What one stale entry leaves behind, up to the event log.\<close>

lemma reap_one_doc:
  assumes "row_get jid (w_jobs w) = Some j"
  shows "\<exists>w'. reap_one documented c runner now ch jid w = (Inr (), w')
    \<and> (if is_terminal j then agrees w' (without_processing c ch jid w)
       else if is_expired now j
         then agrees w' (reaped c ch jid (\<lambda>r. r\<lparr>job_status := Expired, job_finished_at := Some now\<rparr>) w)
       else if job_attempt j \<ge> job_max_retries j
         then agrees w' (reaped c ch jid (\<lambda>r. r\<lparr>job_status := Failed, job_finished_at := Some now,
               job_last_error := ''in-flight lease expired and the job is not retryable''\<rparr>) w)
       else agrees w' (requeued_world c ch jid
               (if job_status j = Running then (\<lambda>r. r\<lparr>job_status := Pending, job_runner_id := None\<rparr>) else (\<lambda>r. r)) w))"
proof -
  note reap = reap_one_def catch_def reap_body_def reap_row_def bind_def seqs_def ret_def d_job_get_def assms
    remove_doc d_job_save_def d_event_create_def d_rpush_def d_job_cas_def
  have gone: "row_get jid (w_jobs (without_processing c ch jid w)) = Some j"
    using assms by (simp add: without_processing_def)
  consider "is_terminal j" | "\<not> is_terminal j" "is_expired now j"
    | "\<not> is_terminal j" "\<not> is_expired now j" "job_attempt j \<ge> job_max_retries j"
    | "\<not> is_terminal j" "\<not> is_expired now j" "\<not> job_attempt j \<ge> job_max_retries j" by blast
  then show ?thesis
  proof cases
    case 1
    then show ?thesis by (cases "job_status j") (simp_all add: reap is_terminal_def agrees_def)
  next
    case 2
    with gone show ?thesis
      by (cases "job_status j") (auto simp: reap reaped_def without_processing_def is_terminal_def agrees_def)
  next
    case 3
    with gone show ?thesis
      by (cases "job_status j") (auto simp: reap reaped_def without_processing_def is_terminal_def agrees_def)
  next
    case 4
    show ?thesis
    proof (cases "job_status j = Running")
      case True
      with 4 show ?thesis by (auto simp: reap requeued_world_def reaped_def without_processing_def agrees_def)
    next
      case False
      with 4 have "job_status j = Pending" by (simp add: is_terminal_iff)
      with 4 show ?thesis by (auto simp: reap requeued_world_def reaped_def without_processing_def row_upd_def agrees_def)
    qed
  qed
qed

lemma reaped_jobs [simp]: "w_jobs (reaped c ch jid f w) = row_upd jid f (w_jobs w)"
  by (simp add: reaped_def without_processing_def)

lemma requeued_jobs [simp]: "w_jobs (requeued_world c ch jid f w) = row_upd jid f (w_jobs w)"
  by (simp add: requeued_world_def)

lemma flows_reaped:
  assumes "flows c U w" and "\<And>r. job_id (f r) = job_id r \<and> job_channel (f r) = job_channel r \<and> job_status (f r) \<noteq> Pending"
  shows "flows c U (reaped c ch jid f w)"
  unfolding reaped_def using flows_upd_settle [OF assms, of jid] by (intro flows_without) simp_all

lemma flows_requeued:
  assumes "flows c U w" and "homed [jid] ch (w_jobs w)" and "row_get jid (w_jobs w) = Some j"
    and f: "\<And>r. job_id (f r) = job_id r \<and> job_channel (f r) = job_channel r"
  shows "flows c U (requeued_world c ch jid f w)"
proof -
  let ?R = "row_upd jid f (w_jobs w)" and ?P = "k_processing (pfx c) ch"
  let ?Z = "(w_zsets w)(?P := zs_del jid (w_zsets w ?P))"
  have ok: "flow_ok c U {} (w_jobs w) (w_lists w) (w_zsets w)" using assms(1) by (simp add: flow_def)
  then have "flow_ok c U {jid} (w_jobs w) (w_lists w) (w_zsets w)" by (rule flow_ok_fewer) auto
  then have "flow_ok c U {jid} ?R (w_lists w) (w_zsets w)" by (rule flow_ok_upd) (use f in auto)
  then have rem: "flow_ok c U {jid} ?R (w_lists w) ?Z" by (rule flow_ok_zrem) simp
  have inU: "jid \<notin> U" using ok row_get_mem [OF assms(3)] row_get_id [OF assms(3)] by (auto simp: flow_ok_def)
  have home: "job_channel r = ch" if mem: "r \<in> set ?R" "job_id r = jid" for r
    using mem assms(2) f by (auto simp: row_upd_def homed_def split: if_splits)
  have "flow_ok c U {} ?R ((w_lists w)(k_queue (pfx c) ch := w_lists w (k_queue (pfx c) ch) @ [jid])) ?Z"
    by (rule flow_ok_arrive [OF rem _ inU at_push]) (rule home)
  then show ?thesis by (simp add: flow_def requeued_world_def reaped_def without_processing_def)
qed

lemma homed_upd:
  "homed ids ch R \<Longrightarrow> (\<And>r. job_id (f r) = job_id r \<and> job_channel (f r) = job_channel r) \<Longrightarrow> homed ids ch (row_upd i f R)"
  by (auto simp: homed_def row_upd_def)

lemma flows_reap_one:
  assumes ok: "flows c U w" and home: "homed ids ch (w_jobs w)" and jid: "jid \<in> set ids"
  shows "\<exists>w'. reap_one documented c runner now ch jid w = (Inr (), w') \<and> flows c U w' \<and> homed ids ch (w_jobs w')"
proof (cases "row_get jid (w_jobs w)")
  case None
  then have "reap_one documented c runner now ch jid w = (Inr (), without_processing c ch jid w)"
    by (simp add: reap_one_def reap_body_def reap_row_def act_defs d_job_get_def remove_doc)
  then show ?thesis using flows_without [OF ok settled_none [OF None]] home by (simp add: without_processing_def)
next
  case (Some j)
  have one: "homed [jid] ch (w_jobs w)" using home jid by (auto simp: homed_def)
  from reap_one_doc [OF Some, of c runner now ch] obtain w' where w': "reap_one documented c runner now ch jid w = (Inr (), w')"
    and res: "(if is_terminal j then agrees w' (without_processing c ch jid w)
       else if is_expired now j
         then agrees w' (reaped c ch jid (\<lambda>r. r\<lparr>job_status := Expired, job_finished_at := Some now\<rparr>) w)
       else if job_attempt j \<ge> job_max_retries j
         then agrees w' (reaped c ch jid (\<lambda>r. r\<lparr>job_status := Failed, job_finished_at := Some now,
               job_last_error := ''in-flight lease expired and the job is not retryable''\<rparr>) w)
       else agrees w' (requeued_world c ch jid
               (if job_status j = Running then (\<lambda>r. r\<lparr>job_status := Pending, job_runner_id := None\<rparr>) else (\<lambda>r. r)) w))"
    by blast
  have "flows c U w' \<and> homed ids ch (w_jobs w')"
  proof (cases "is_terminal j")
    case True
    then have "job_status j \<noteq> Pending" by (simp add: is_terminal_iff)
    from flows_without [OF ok flows_settledI [OF ok Some this]] True res home show ?thesis
      by (simp add: agrees_flow agrees_jobs) (simp add: without_processing_def)
  next
    case False
    have "flows c U (reaped c ch jid (\<lambda>r. r\<lparr>job_status := Expired, job_finished_at := Some now\<rparr>) w)"
      "flows c U (reaped c ch jid (\<lambda>r. r\<lparr>job_status := Failed, job_finished_at := Some now,
               job_last_error := ''in-flight lease expired and the job is not retryable''\<rparr>) w)"
      by (rule flows_reaped [OF ok]; simp)+
    moreover have "flows c U (requeued_world c ch jid
               (if job_status j = Running then (\<lambda>r. r\<lparr>job_status := Pending, job_runner_id := None\<rparr>) else (\<lambda>r. r)) w)"
      by (rule flows_requeued [OF ok one Some]) simp
    moreover have "homed ids ch (row_upd jid f (w_jobs w))"
      if "\<And>r. job_id (f r) = job_id r \<and> job_channel (f r) = job_channel r" for f
      using homed_upd [OF home that] .
    ultimately show ?thesis using False res
      by (cases "is_expired now j"; cases "job_attempt j \<ge> job_max_retries j") (auto simp: agrees_flow agrees_jobs)
  qed
  with w' show ?thesis by blast
qed

lemma flows_reap_all:
  "flows c U w \<Longrightarrow> homed ids ch (w_jobs w) \<Longrightarrow> set xs \<subseteq> set ids \<Longrightarrow>
   flows c U (snd (for_each xs (reap_one documented c runner now ch) w))"
proof (induction xs arbitrary: w)
  case (Cons x xs)
  from flows_reap_one [OF Cons.prems(1,2), of x runner now] Cons.prems(3) obtain w' where
    "reap_one documented c runner now ch x w = (Inr (), w')" "flows c U w'" "homed ids ch (w_jobs w')" by auto
  with Cons.IH [of w'] Cons.prems(3) show ?case by (simp add: seqs_def bind_def)
qed (simp add: ret_def)

lemma flows_reaper: "keeps (flows c U) (reaper_pass documented c vis now en)"
proof -
  have pass: "keeps (flows c U) (bind (catch (d_zrangebyscore (k_processing (pfx c) ch) cutoff 100) (\<lambda>_. ret []))
      (\<lambda>ids. for_each ids (reap_one documented c runner now ch)))" for ch cutoff runner
    unfolding keeps_def
  proof (intro allI impI)
    fix w assume ok: "flows c U w"
    let ?ids = "take 100 (map fst (filter (\<lambda>p. snd p \<le> cutoff) (w_zsets w (k_processing (pfx c) ch))))"
    have "set ?ids \<subseteq> fst ` set (w_zsets w (k_processing (pfx c) ch))"
      using set_take_subset [of 100 "map fst (filter (\<lambda>p. snd p \<le> cutoff) (w_zsets w (k_processing (pfx c) ch)))"] by auto
    then have "at_channel c ch i (w_lists w) (w_zsets w)" if "i \<in> set ?ids" for i
      using that by (auto simp: at_channel_def)
    with ok have "homed ?ids ch (w_jobs w)"
      unfolding homed_def flow_def flow_ok_def by blast
    from flows_reap_all [OF ok this subset_refl, of runner now]
    show "flows c U (snd (bind (catch (d_zrangebyscore (k_processing (pfx c) ch) cutoff 100) (\<lambda>_. ret []))
      (\<lambda>ids. for_each ids (reap_one documented c runner now ch)) w))"
      by (simp add: bind_def catch_def d_zrangebyscore_def)
  qed
  have "keeps (flows c U) (reap_channel documented c runner now cutoff ch)" for runner cutoff ch
    unfolding reap_channel_def documented_simps
    by (rule keeps_bind, intro keeps_intro, rule keeps_if, rule keeps_ret, rule pass)
  then show ?thesis unfolding reaper_pass_def by (intro keeps_attempt keeps_for_each)
qed

subsection \<open>Publishing\<close>

lemma channel_no_colon: "CHANNEL_NAME_RE ch \<Longrightarrow> CHR '':'' \<notin> set ch"
proof -
  have ok: "CHR '':'' \<notin> set b" if "list_all channel_char b" for b
    using that by (auto simp: list_all_iff channel_char_def is_upper_def is_lower_def is_digit_def)
  assume "CHANNEL_NAME_RE ch"
  then consider "list_all channel_char ch" | "ch \<noteq> []" "last ch = CHR 0x0A" "list_all channel_char (butlast ch)"
    by (auto simp: CHANNEL_NAME_RE_def Let_def)
  then show ?thesis
  proof cases
    case 2
    then have "set ch = insert (CHR 0x0A) (set (butlast ch))"
      by (metis append_butlast_last_id list.simps(15) rotate1.simps(2) set_rotate1)
    with ok [OF 2(3)] show ?thesis by auto
  qed (rule ok)
qed

lemma checks_channel: "publish_checks S c a w = (Inr p, w') \<Longrightarrow> CHR '':'' \<notin> set (pa_channel a)"
  by (rule channel_no_colon)
    (auto simp: publish_checks_def validate_channel_name_def act_defs split: if_splits)

lemma flows_checks [keeps_intro]: "keeps (flow P) (publish_checks documented c a)"
  unfolding publish_checks_def validate_channel_name_def report_undeclared_channel_def Let_def documented_simps
  by (intro keeps_intro)

lemma flows_fewer: "flows c U w \<Longrightarrow> V \<subseteq> U \<Longrightarrow> flows c V w"
  by (auto simp: flow_def intro: flow_ok_fewer)

text \<open>Enqueueing a row on its own channel, whatever the reason.\<close>

lemma flows_enqueued:
  assumes "flow (flow_ok c U {job_id j}) w" and "j \<in> set (w_jobs w)"
  shows "flows c U (announced_world c j now w)"
proof -
  have ok: "flow_ok c U (insert (job_id j) {}) (w_jobs w) (w_lists w) (w_zsets w)" using assms(1) by (simp add: flow_def)
  then have inU: "job_id j \<notin> U" and "distinct (map job_id (w_jobs w))" using assms(2) by (auto simp: flow_ok_def)
  then have home: "job_channel r = job_channel j" if "r \<in> set (w_jobs w)" "job_id r = job_id j" for r
    using that assms(2) by (metis distinct_map inj_on_contraD)
  have key: "sched_zset c j \<in> {k_sched (pfx c) (job_channel j), k_sched_broadcast (pfx c) (job_channel j),
      k_processing (pfx c) (job_channel j)}" by (simp add: sched_zset_def)
  show ?thesis
  proof (cases "scheduled_later j now")
    case True
    have "flow_ok c U {} (w_jobs w) (w_lists w) ((w_zsets w)(sched_zset c j :=
        zs_add (job_id j) (score_ms (the (job_run_at j))) (w_zsets w (sched_zset c j))))"
      by (rule flow_ok_arrive [OF ok _ inU at_sched [OF key]]) (rule home)
    with True show ?thesis by (simp add: flow_def announced_world_def enqueued_world_def)
  next
    case False
    have "flow_ok c U {} (w_jobs w) ((w_lists w)(k_queue (pfx c) (job_channel j) :=
        w_lists w (k_queue (pfx c) (job_channel j)) @ [job_id j])) (w_zsets w)"
      by (rule flow_ok_arrive [OF ok _ inU at_push]) (rule home)
    with False show ?thesis by (simp add: flow_def announced_world_def enqueued_world_def)
  qed
qed

lemma flow_ok_new:
  assumes "flow_ok c U {} R L Z" and "job_id j \<in> U" and "CHR '':'' \<notin> set (job_channel j)"
  shows "flow_ok c (U - {job_id j}) {job_id j} (R @ [j]) L Z"
  using assms unfolding flow_ok_def by auto

lemma resume_doc:
  assumes "row_by_key k (w_jobs w) = Some r"
  shows "resume_existing documented a payload k now2 w =
    (if \<not> can_resume r \<and> job_status r \<noteq> Pending then (Inr (Done (job_id r)), w)
     else if can_resume r \<and> (job_func r \<noteq> func_path (pa_func a) \<or> job_payload r \<noteq> payload
          \<or> job_channel r \<noteq> pa_channel a \<or> job_broadcast r \<noteq> pa_broadcast a)
     then (Inl (ValueError ''Idempotency key belongs to different failed job content''), w)
     else if can_resume r
     then (Inr (Mirror (requeued r now2) now2), upd_row (job_id r) (\<lambda>j. requeued j now2) w)
     else (Inr (Mirror r now2), w))"
proof -
  have "row_get (job_id r) (w_jobs w) \<noteq> None" using row_by_key_mem [OF assms] by (auto simp: row_get_None)
  then show ?thesis using assms
    by (auto simp: resume_existing_def act_defs atomic_def d_job_by_key_def d_job_save_def Let_def requeued_def)
qed

lemma publish_enqueue_stage:
  "publish_enqueue documented c E a payload w =
    (case create_row documented c E a payload w of
       (Inl e, w') \<Rightarrow> (Inl e, w')
     | (Inr (Done i), w') \<Rightarrow> (Inr i, w')
     | (Inr (Mirror j now), w') \<Rightarrow> (Inr (job_id j), announced_world c j now w'))"
proof (cases "create_row documented c E a payload w")
  case (Pair r w')
  show ?thesis
  proof (cases r)
    case (Inr st)
    with Pair publish_enqueue_mirror [of c E a payload w] show ?thesis
      by (cases st) (auto simp: publish_enqueue_def bind_def ret_def)
  qed (simp add: publish_enqueue_def bind_def Pair)
qed

lemma flows_enqueue:
  assumes ok: "flows c U w" and new: "pe_uuid E \<in> U" and ch: "CHR '':'' \<notin> set (pa_channel a)"
  shows "flows c (U - {pe_uuid E}) (snd (publish_enqueue documented c E a payload w))"
proof (cases "fresh E a w")
  case True
  let ?j = "new_job c a payload (pe_uuid E) (pe_now E)"
  have "flow_ok c (U - {job_id ?j}) {job_id ?j} (w_jobs w @ [?j]) (w_lists w) (w_zsets w)"
    by (rule flow_ok_new) (use ok new ch in \<open>simp_all add: flow_def\<close>)
  then have "flows c (U - {pe_uuid E}) (announced_world c ?j (pe_now E) (created_world ?j w))"
    by (intro flows_enqueued) (simp_all add: flow_def created_world_def)
  then show ?thesis by (simp add: publish_enqueue_doc [OF True] Let_def)
next
  case False
  have less: "flows c (U - {pe_uuid E}) w" using ok by (rule flows_fewer) auto
  have "row_get (pe_uuid E) (w_jobs w) = None" using ok new by (auto simp: flow_def flow_ok_def row_get_None)
  with False obtain k r where k: "pa_idempotency_key a = Some k" "row_by_key k (w_jobs w) = Some r"
    by (auto simp: fresh_def split: option.splits)
  show ?thesis
  proof (cases "k = []")
    case True
    have "\<exists>m. create_row documented c E a payload w = (Inl (RuntimeError m), w)"
      using k True by (auto simp: create_row_def act_defs atomic_def d_job_create_def Let_def key_conflict_def)
    with less show ?thesis by (auto simp: publish_enqueue_stage)
  next
    case False
    have r: "r \<in> set (w_jobs w)" using row_by_key_mem [OF k(2)] .
    have up: "flow (flow_ok c (U - {pe_uuid E}) {job_id r}) (upd_row (job_id r) (\<lambda>j. requeued j (pe_now2 E)) w)"
      unfolding flow_def
      by simp (rule flow_ok_upd, rule flow_ok_fewer, use less in \<open>auto simp: flow_def requeued_def\<close>)
    have "requeued r (pe_now2 E) \<in> set (w_jobs (upd_row (job_id r) (\<lambda>j. requeued j (pe_now2 E)) w))"
      using r by (auto simp: row_upd_def)
    then have resumed: "flows c (U - {pe_uuid E}) (announced_world c (requeued r (pe_now2 E)) (pe_now2 E)
        (upd_row (job_id r) (\<lambda>j. requeued j (pe_now2 E)) w))"
      by (intro flows_enqueued) (use up in \<open>simp_all add: requeued_def\<close>)
    have "flow (flow_ok c (U - {pe_uuid E}) {job_id r}) w"
      using less by (auto simp: flow_def intro: flow_ok_fewer)
    from flows_enqueued [OF this r, of "pe_now2 E"]
    show ?thesis using resumed less create_row_taken [OF k(1) False k(2), of c E payload] resume_doc [OF k(2)]
      by (simp add: publish_enqueue_stage)
  qed
qed

lemma flows_single:
  assumes ok: "flows c U w" and new: "pe_uuid E \<in> U"
  shows "flows c (U - {pe_uuid E}) (snd (publish_single documented c E a w))"
proof -
  obtain r w1 where r: "publish_checks documented c a w = (r, w1)" by (cases "publish_checks documented c a w")
  then have w1: "flows c U w1" using keepsD [OF flows_checks ok] by blast
  then have "flows c (U - {pe_uuid E}) w1" by (rule flows_fewer) auto
  with r checks_channel [of documented c a w] flows_enqueue [OF w1 new, of a] show ?thesis
    by (cases r) (simp_all add: publish_single_def bind_def)
qed

lemma flows_fan_out:
  "flows c (U \<union> (\<lambda>t. pe_uuid (Es t)) ` set ts) w \<Longrightarrow> distinct (map (\<lambda>t. pe_uuid (Es t)) ts) \<Longrightarrow>
   flows c {} (snd (fan_out documented c Es a payload ts w))"
proof (induction ts arbitrary: w U)
  case Nil
  then show ?case by (auto simp: ret_def intro: flows_fewer)
next
  case (Cons t ts)
  obtain r w1 where r: "publish_single documented c (Es t) (fan_args a payload t) w = (r, w1)"
    by (cases "publish_single documented c (Es t) (fan_args a payload t) w")
  with flows_single [OF Cons.prems(1), of "Es t" "fan_args a payload t"]
  have w1: "flows c (U \<union> (\<lambda>t. pe_uuid (Es t)) ` set (t # ts) - {pe_uuid (Es t)}) w1" by simp
  then have none: "flows c {} w1" by (rule flows_fewer) auto
  have "flows c ({} \<union> (\<lambda>t. pe_uuid (Es t)) ` set ts) w1"
    using w1 by (rule flows_fewer) (use Cons.prems(2) in \<open>force simp: image_iff\<close>)
  from Cons.IH [OF this] Cons.prems(2) r none show ?case
    by (auto simp: bind_def ret_def split: prod.splits sum.splits)
qed

lemma flows_publish:
  assumes ok: "flows c (insert (pe_uuid E) ((\<lambda>t. pe_uuid (Es t)) ` set (live_targets rs))) w"
    and "distinct (map (\<lambda>t. pe_uuid (Es t)) (live_targets rs))" and "roster = Inr rs \<or> roster = Inl e"
  shows "flows c {} (snd (publish documented c (\<lambda>_ w. (roster, w)) Es E a w))"
proof -
  let ?U = "insert (pe_uuid E) ((\<lambda>t. pe_uuid (Es t)) ` set (live_targets rs))"
  obtain r w1 where r: "publish_checks documented c a w = (r, w1)" by (cases "publish_checks documented c a w")
  then have w1: "flows c ?U w1" using keepsD [OF flows_checks ok] by blast
  then have none: "flows c {} w1" by (rule flows_fewer) auto
  have enq: "flows c {} (snd (publish_enqueue documented c E a p w1))" if "r = Inr p" for p
    by (rule flows_fewer, rule flows_enqueue [OF w1]) (use r that checks_channel in auto)
  have fan: "flows c {} (snd (fan_out documented c Es a p (sort (live_targets rs)) w1))" for p
  proof (rule flows_fan_out)
    show "flows c ({pe_uuid E} \<union> (\<lambda>t. pe_uuid (Es t)) ` set (sort (live_targets rs))) w1" using w1 by simp
    show "distinct (map (\<lambda>t. pe_uuid (Es t)) (sort (live_targets rs)))"
      using assms(2) by (metis distinct_map distinct_sort set_sort)
  qed
  show ?thesis
  proof (cases r)
    case (Inl e)
    with r none show ?thesis by (simp add: publish_def bind_def)
  next
    case (Inr p)
    let ?enq = "bind (publish_enqueue documented c E a p) (\<lambda>i. ret (JobId i))"
    let ?rest = "\<lambda>rs. if live_targets rs \<noteq> []
        then bind (fan_out documented c Es a p (sort (live_targets rs))) (\<lambda>is. ret (JobIds is)) else ?enq"
    have "flows c {} (snd (bind (\<lambda>w. (roster, w)) ?rest w1))"
      using assms(3) none fan [of p] enq [OF Inr] by (auto simp: bind_def [of "\<lambda>w. (roster, w)"])
    with r Inr enq [OF Inr] show ?thesis
      by (simp add: publish_def bind_def [of "publish_checks documented c a"])
  qed
qed

subsection \<open>Operators\<close>

lemma flows_save_then [keeps_intro]:
  assumes "\<And>r. job_id (f r) = job_id r \<and> job_channel (f r) = job_channel r \<and> job_status (f r) \<noteq> Pending"
    and "keeps (flow (\<lambda>R L Z. flow_ok c U {} R L Z \<and> settled i R)) m"
  shows "keeps (flows c U) (seqs (d_job_save i f) m)"
  unfolding keeps_def
proof (intro allI impI)
  fix w assume ok: "flows c U w"
  have "flow (\<lambda>R L Z. flow_ok c U {} R L Z \<and> settled i R) (upd_row i f w)"
    using flows_upd_settle [OF ok assms(1), of i] by (simp add: flow_def)
  from keeps_snd [OF assms(2) this] have "flows c U (snd (m (upd_row i f w)))" by (simp add: flow_def)
  with ok show "flows c U (snd (seqs (d_job_save i f) m w))"
    by (simp add: seqs_def bind_def d_job_save_def)
qed

lemma settled_zrem [keeps_intro]: "keeps (flow (\<lambda>R L Z. flow_ok c U {} R L Z \<and> settled i R)) (d_zrem k i)"
  by (simp add: keeps_def flow_def d_zrem_def flow_ok_zrem_settled)

lemma flows_cancel_job: "keeps (flows c U) (cancel_job documented c now j)"
  unfolding cancel_job_def documented_simps
  by (intro keeps_intro) (simp_all add: canceled_row_def)

lemma flows_pause_job: "keeps (flows c U) (pause_job documented c now j)"
  unfolding pause_job_def documented_simps
  by (intro keeps_intro) (simp_all add: pause_row_def)

lemma flows_cancel: "keeps (flows c U) (cancel documented now i)"
  unfolding cancel_def documented_simps by (intro keeps_intro) simp_all

lemma flows_mark_expired: "keeps (flows c U) (mark_expired documented sid now jid ch)"
  unfolding mark_expired_def documented_simps by (intro keeps_intro) simp_all

section \<open>The theorem\<close>

text \<open>
  The steps, on the shared world: threads and engines have no other lasting effect, so a crash
  of any of them is the absence of its further steps (a finish step may come for any run, or never
  come). A publish uses identifiers that occur nowhere yet, as fresh UUIDs do; queue names come
  from settings without colons. What job functions do besides publishing, canceling and the like
  touches neither the rows nor the queues.
\<close>

inductive delivery_step :: "jobs_cfg \<Rightarrow> (string \<Rightarrow> string \<Rightarrow> handler option) \<Rightarrow> world \<Rightarrow> world \<Rightarrow> bool"
  for c importlib where
  ds_publish: "flows c (insert (pe_uuid E) ((\<lambda>t. pe_uuid (Es t)) ` set (live_targets rs))) w \<Longrightarrow>
    distinct (map (\<lambda>t. pe_uuid (Es t)) (live_targets rs)) \<Longrightarrow> roster = Inr rs \<or> roster = Inl e \<Longrightarrow>
    delivery_step c importlib w (snd (publish documented c (\<lambda>_ w. (roster, w)) Es E a w))"
| ds_pop: "\<forall>ch \<in> set (en_channels en). CHR '':'' \<notin> set ch \<Longrightarrow>
    delivery_step c importlib w (snd (claim_next documented c now en w))"
| ds_begin: "delivery_step c importlib w (snd (exec_begin documented c importlib runner t0 t1 rnd trace ch jid w))"
| ds_finish: "delivery_step c importlib w (snd (exec_finish documented c t1 rnd trace jid r outcome w))"
| ds_reap: "delivery_step c importlib w (snd (reaper_pass documented c vis now en w))"
| ds_schedule: "delivery_step c importlib w (snd (scheduler_turn documented c fuel interval now sc w))"
| ds_cancel: "delivery_step c importlib w (snd (cancel documented now jid w))"
| ds_operator_cancel: "delivery_step c importlib w (snd (cancel_job documented c now j w))"
| ds_operator_pause: "delivery_step c importlib w (snd (pause_job documented c now j w))"
| ds_expire: "delivery_step c importlib w (snd (mark_expired documented sid now jid ch w))"
| ds_env: "w_jobs v = w_jobs w \<Longrightarrow> w_lists v = w_lists w \<Longrightarrow> w_zsets v = w_zsets w \<Longrightarrow>
    delivery_step c importlib w v"

lemma flows_step: "delivery_step c importlib w v \<Longrightarrow> flows c {} w \<Longrightarrow> flows c {} v"
proof (induction rule: delivery_step.induct)
  case (ds_env v w)
  then show ?case by (simp add: flow_def)
next
  case (ds_begin w runner t0 t1 rnd trace ch jid)
  then show ?case by (rule flows_begin)
qed (auto intro: flows_publish keeps_snd [OF flows_claim] keeps_snd [OF flows_finish] keeps_snd [OF flows_reaper]
      keeps_snd [OF flows_scheduler] keeps_snd [OF flows_cancel] keeps_snd [OF flows_cancel_job]
      keeps_snd [OF flows_pause_job] keeps_snd [OF flows_mark_expired])

lemma flows_steps: "(delivery_step c importlib)\<^sup>*\<^sup>* w v \<Longrightarrow> flows c {} w \<Longrightarrow> flows c {} v"
  by (induction rule: rtranclp_induct) (auto intro: flows_step)

text \<open>
  No job is lost. From any world where it holds (an empty one, say), after any sequence of
  publishes, deliveries, completions, failures, crashes, reaper and scheduler passes and
  cancellations, a pending row is in the queue, a schedule or the in-flight set of its channel.
\<close>

theorem no_job_lost:
  assumes "flows c {} w" and "(delivery_step c importlib)\<^sup>*\<^sup>* w v" and "r \<in> set (w_jobs v)"
    and "job_status r = Pending"
  shows "at_channel c (job_channel r) (job_id r) (w_lists v) (w_zsets v)"
  using flows_steps [OF assms(2,1)] assms(3,4) by (auto simp: flow_def flow_ok_def)

lemma flows_empty: "flows c U empty_world"
  by (simp add: flow_def flow_ok_def at_channel_def empty_world_def)

theorem no_job_lost_witness:
  "\<exists>w r. (delivery_step default_cfg ex_import)\<^sup>*\<^sup>* empty_world w \<and> r \<in> set (w_jobs w) \<and> job_status r = Pending
    \<and> at_channel default_cfg (job_channel r) ''i'' (w_lists w) (w_zsets w)"
proof -
  let ?a = "default_args (Path ''m.ok'')"
  let ?w = "snd (publish documented default_cfg (\<lambda>_ w. (Inr [], w)) ex_env (ex_env ''i'') ?a empty_world)"
  let ?j = "new_job default_cfg ?a [] ''i'' 10"
  have "publish_checks documented default_cfg ?a empty_world = (Inr [], empty_world)"
    by (rule ex_checks) (simp_all add: default_args_def)
  from publish_accepted_row [OF this, of "ex_env ''i''" "\<lambda>_ w. (Inr [], w)" ex_env]
  have w: "?w = announced_world default_cfg ?j 10 (created_world ?j empty_world)"
    by (simp add: fanned_out_def default_args_def fresh_def empty_world_def row_get_def ex_env_def Let_def)
  have step: "(delivery_step default_cfg ex_import)\<^sup>*\<^sup>* empty_world ?w"
    by (rule r_into_rtranclp, rule ds_publish [where rs = "[]"]) (simp_all add: flows_empty live_targets_def)
  have row: "?j \<in> set (w_jobs ?w)"
    unfolding w by (simp add: announced_world_def enqueued_world_def created_world_def)
  from no_job_lost [OF flows_empty step row] step row show ?thesis by (auto intro!: exI [of _ ?w] bexI [of _ ?j])
qed

end
