(* ===== verification/Job_Liveness.thy ===== *)
theory Job_Liveness
  imports Job_Delivery
begin

text \<open>
  A due job reaches a worker: one pass of the scheduler over its channel and as many turns of an engine
  as the queue then has entries hand it to the thread pool. The turns are consecutive, since the queue
  is a stack: a job pushed later is taken first.
\<close>

section \<open>Consecutive turns of an engine\<close>

fun polls :: "svc \<Rightarrow> jobs_cfg \<Rightarrow> rat \<Rightarrow> nat \<Rightarrow> engine \<Rightarrow> engine wact" where
  "polls S c now 0 en = ret en"
| "polls S c now (Suc n) en = bind (claim_next S c now en) (polls S c now n)"

lemma claim_single:
  assumes "en_channels en = [ch]" and "CHR '':'' \<notin> set ch" and "w_lists w (k_queue (pfx c) ch) \<noteq> []"
    and "length (en_active en) < en_max_workers en"
  shows "claim_next documented c now en w =
    (let q = k_queue (pfx c) ch; p = k_processing (pfx c) ch; jid = last (w_lists w q)
     in (Inr (en\<lparr>en_active := (jid, ch) # filter (\<lambda>p. fst p \<noteq> jid) (en_active en)\<rparr>),
         w\<lparr>w_lists := (w_lists w)(q := butlast (w_lists w q)),
           w_zsets := (w_zsets w)(p := zs_add jid (now_ms now) (w_zsets w p))\<rparr>))"
  using assms channel_of_queue_key [OF assms(2)]
  by (simp add: claim_next_def channels_ordered_def act_defs d_brpop_def d_zadd_def zs_adds_def Let_def)

lemma active_add:
  "(j, ch) \<in> set xs \<Longrightarrow> (j, ch) \<in> set ((i, ch) # filter (\<lambda>p. fst p \<noteq> i) xs)"
  by auto

text \<open>Everything in the queue is claimed; what was being processed stays so.\<close>

lemma polls_drain:
  assumes "en_channels en = [ch]" and "CHR '':'' \<notin> set ch" and "length (w_lists w (k_queue (pfx c) ch)) = n"
    and "length (en_active en) + n \<le> en_max_workers en"
  shows "\<exists>en' w'. polls documented c now n en w = (Inr en', w') \<and> w_lists w' (k_queue (pfx c) ch) = []
    \<and> w_jobs w' = w_jobs w
    \<and> (\<lambda>j. (j, ch)) ` set (w_lists w (k_queue (pfx c) ch)) \<union> {p \<in> set (en_active en). snd p = ch} \<subseteq> set (en_active en')
    \<and> set (w_lists w (k_queue (pfx c) ch)) \<union> fst ` set (w_zsets w (k_processing (pfx c) ch))
        \<subseteq> fst ` set (w_zsets w' (k_processing (pfx c) ch))"
  using assms
proof (induction n arbitrary: en w)
  case 0
  then show ?case by (auto simp: ret_def)
next
  case (Suc n)
  let ?q = "k_queue (pfx c) ch" and ?p = "k_processing (pfx c) ch"
  define jid where "jid = last (w_lists w ?q)"
  define en1 where "en1 = en\<lparr>en_active := (jid, ch) # filter (\<lambda>p. fst p \<noteq> jid) (en_active en)\<rparr>"
  define w1 where "w1 = w\<lparr>w_lists := (w_lists w)(?q := butlast (w_lists w ?q)),
     w_zsets := (w_zsets w)(?p := zs_add jid (now_ms now) (w_zsets w ?p))\<rparr>"
  have ne: "w_lists w ?q \<noteq> []" using Suc.prems(3) by auto
  have claim: "claim_next documented c now en w = (Inr en1, w1)"
    using claim_single [OF Suc.prems(1,2) ne] Suc.prems(4) by (simp add: Let_def en1_def w1_def jid_def)
  have "length (filter (\<lambda>p. fst p \<noteq> jid) (en_active en)) \<le> length (en_active en)" by (rule length_filter_le)
  then have "length (en_active en1) + n \<le> en_max_workers en1"
    using Suc.prems(4) unfolding en1_def by (simp del: length_filter_le)
  with Suc.prems have prems: "en_channels en1 = [ch]" "length (w_lists w1 ?q) = n"
    "length (en_active en1) + n \<le> en_max_workers en1"
    by (simp_all add: en1_def w1_def)
  from Suc.IH [OF prems(1) Suc.prems(2) prems(2,3)] obtain en' w' where rest:
    "polls documented c now n en1 w1 = (Inr en', w')" "w_lists w' ?q = []" "w_jobs w' = w_jobs w1"
    "(\<lambda>j. (j, ch)) ` set (w_lists w1 ?q) \<union> {p \<in> set (en_active en1). snd p = ch} \<subseteq> set (en_active en')"
    "set (w_lists w1 ?q) \<union> fst ` set (w_zsets w1 ?p) \<subseteq> fst ` set (w_zsets w' ?p)" by blast
  have queue: "set (w_lists w ?q) = insert jid (set (w_lists w1 ?q))"
  proof -
    have "set (w_lists w ?q) = set (butlast (w_lists w ?q) @ [jid])" using append_butlast_last_id [OF ne] by (simp add: jid_def)
    then show ?thesis by (simp add: w1_def)
  qed
  have active: "{p \<in> set (en_active en). snd p = ch} \<subseteq> {p \<in> set (en_active en1). snd p = ch}"
    "(jid, ch) \<in> {p \<in> set (en_active en1). snd p = ch}"
    by (auto simp: en1_def)
  have flight: "insert jid (fst ` set (w_zsets w ?p)) \<subseteq> fst ` set (w_zsets w1 ?p)"
    by (auto simp: w1_def)
  have run: "polls documented c now (Suc n) en w = (Inr en', w')" using claim rest(1) by (simp add: bind_def)
  have jobs: "w_jobs w' = w_jobs w" using rest(3) by (simp add: w1_def)
  have "(\<lambda>j. (j, ch)) ` set (w_lists w ?q) \<union> {p \<in> set (en_active en). snd p = ch} \<subseteq> set (en_active en')"
    using rest(4) active unfolding queue by blast
  moreover have "set (w_lists w ?q) \<union> fst ` set (w_zsets w ?p) \<subseteq> fst ` set (w_zsets w' ?p)"
    using rest(5) flight unfolding queue by blast
  ultimately show ?case using run rest(2) jobs by blast
qed

section \<open>One scheduler pass\<close>

text \<open>What the pass makes of the queue, and that a due entry of either schedule is then in it.\<close>

lemma pass_queue:
  assumes "zs_inv (w_zsets w (k_sched (pfx c) ch))" and "zs_inv (w_zsets w (k_sched_broadcast (pfx c) ch))"
    and "length (w_zsets w (k_sched (pfx c) ch)) < fuel" and "length (w_zsets w (k_sched_broadcast (pfx c) ch)) < fuel"
    and "w_strs w (k_channel_pause (pfx c) ch) = None"
  shows "\<exists>n w'. process_channel documented c fuel sid t ch w = (Inr (Some n), w') \<and> w_jobs w' = w_jobs w
    \<and> w_lists w' (k_queue (pfx c) ch) = w_lists w (k_queue (pfx c) ch)
        @ map fst (takeWhile (\<lambda>p. snd p \<le> t) (w_zsets w (k_sched (pfx c) ch)))
        @ map fst (takeWhile (\<lambda>p. snd p \<le> t) (w_zsets w (k_sched_broadcast (pfx c) ch)))"
proof -
  let ?a = "k_sched (pfx c) ch" and ?b = "k_sched_broadcast (pfx c) ch"
  from promotion_moves [OF assms(1,3), of c sid ch False t 0] obtain n1 w1 where
    1: "promote_loop documented c sid ch False t ?a fuel 0 w = (Inr (Some n1), w1)" "promoted c ch t ?a (w_zsets w ?a) w w1" by blast
  have b: "w_zsets w1 ?b = w_zsets w ?b" using 1(2) by (simp add: promoted_def)
  with assms(2,4) have inv: "zs_inv (w_zsets w1 ?b)" "length (w_zsets w1 ?b) < fuel" by simp_all
  from promotion_moves [OF inv, of c sid ch True t n1] obtain n2 w2 where
    2: "promote_loop documented c sid ch True t ?b fuel n1 w1 = (Inr (Some n2), w2)" "promoted c ch t ?b (w_zsets w1 ?b) w1 w2" by blast
  have "process_channel documented c fuel sid t ch w = (Inr (Some n2), w2)"
    using assms(5) 1(1) 2(1) by (simp add: process_channel_def act_defs d_get_def)
  with 1(2) 2(2) show ?thesis by (simp add: promoted_def b)
qed

lemma due_taken:
  assumes "(jid, due) \<in> set z" and "zs_inv z" and "due \<le> t"
  shows "jid \<in> fst ` set (takeWhile (\<lambda>p. snd p \<le> t) z)"
proof -
  have "filter (\<lambda>p. snd p \<le> t) z = takeWhile (\<lambda>p. snd p \<le> t) z"
    by (rule sorted_due(1)) (use assms(2) in \<open>simp add: zs_inv_def\<close>)
  moreover have "(jid, due) \<in> set (filter (\<lambda>p. snd p \<le> t) z)" using assms by simp
  ultimately have "(jid, due) \<in> set (takeWhile (\<lambda>p. snd p \<le> t) z)" by simp
  then show ?thesis by (rule rev_image_eqI) simp
qed

text \<open>
  C2: a due job of a channel reaches a worker, with services that answer: after one pass of the scheduler over the
  channel, which is not paused, an engine that serves this channel alone and has a free worker for every entry that is
  then in the queue takes one turn per entry, and after these turns the job is among its active jobs and in the in-flight
  set; no row changes on the way.
\<close>

theorem due_job_claimed:
  assumes "zs_inv (w_zsets w (k_sched (pfx c) ch))" and "zs_inv (w_zsets w (k_sched_broadcast (pfx c) ch))"
    and "length (w_zsets w (k_sched (pfx c) ch)) < fuel" and "length (w_zsets w (k_sched_broadcast (pfx c) ch)) < fuel"
    and "w_strs w (k_channel_pause (pfx c) ch) = None"
    and "(jid, due) \<in> set (w_zsets w (k_sched (pfx c) ch)) \<union> set (w_zsets w (k_sched_broadcast (pfx c) ch))" and "due \<le> t"
    and "process_channel documented c fuel sid t ch w = (r, w1)"
    and "en_channels en = [ch]" and "CHR '':'' \<notin> set ch"
    and "length (en_active en) + length (w_lists w1 (k_queue (pfx c) ch)) \<le> en_max_workers en"
  shows "\<exists>en' w2. polls documented c now (length (w_lists w1 (k_queue (pfx c) ch))) en w1 = (Inr en', w2)
    \<and> (jid, ch) \<in> set (en_active en') \<and> jid \<in> fst ` set (w_zsets w2 (k_processing (pfx c) ch))
    \<and> w_jobs w2 = w_jobs w"
proof -
  from pass_queue [OF assms(1-5), of sid t] assms(8)
  have q: "jid \<in> set (w_lists w1 (k_queue (pfx c) ch))" "w_jobs w1 = w_jobs w"
    using assms(6) due_taken [OF _ assms(1,7)] due_taken [OF _ assms(2,7)] by auto
  from polls_drain [OF assms(9,10) refl assms(11), of now] q show ?thesis by fastforce
qed

definition ex_engine :: engine where
  "ex_engine = \<lparr>en_runner_id = ''r'', en_channels = [''c''], en_max_workers = 4, en_running = True, en_initialized = True,
     en_stopped = False, en_active = [], en_processed = 0, en_failed = 0, en_start_time = None\<rparr>"

definition ex_due :: world where
  "ex_due = empty_world\<lparr>w_zsets := (\<lambda>_. [])(k_sched (pfx default_cfg) ''c'' := [(''a'', 1), (''b'', 9)]),
     w_lists := (\<lambda>_. [])(k_queue (pfx default_cfg) ''c'' := [''z''])\<rparr>"

theorem due_job_claimed_witness:
  "\<exists>r w1 en' w2. process_channel documented default_cfg 3 ''s'' 5 ''c'' ex_due = (r, w1)
    \<and> polls documented default_cfg 5 2 ex_engine w1 = (Inr en', w2) \<and> (''a'', ''c'') \<in> set (en_active en')"
proof -
  let ?c = default_cfg
  let ?a = "k_sched (pfx ?c) ''c''" and ?b = "k_sched_broadcast (pfx ?c) ''c''" and ?q = "k_queue (pfx ?c) ''c''"
  obtain r w1 where run: "process_channel documented ?c 3 ''s'' 5 ''c'' ex_due = (r, w1)" by (cases "process_channel documented ?c 3 ''s'' 5 ''c'' ex_due")
  have z: "w_zsets ex_due ?a = [(''a'', 1), (''b'', 9)]" "w_zsets ex_due ?b = []" by (simp_all add: ex_due_def empty_world_def)
  have inv: "zs_inv (w_zsets ex_due ?a)" "zs_inv (w_zsets ex_due ?b)" by (simp_all add: z zs_inv_def zs_less_def)
  have len: "length (w_zsets ex_due ?a) < 3" "length (w_zsets ex_due ?b) < 3" by (simp_all add: z)
  have up: "w_strs ex_due (k_channel_pause (pfx ?c) ''c'') = None" by (simp add: ex_due_def empty_world_def)
  have due: "(''a'', 1) \<in> set (w_zsets ex_due ?a) \<union> set (w_zsets ex_due ?b)" by (simp add: z)
  have "w_lists ex_due ?q = [''z'']" by (simp add: ex_due_def)
  with pass_queue [OF inv len up, of "''s''" 5] run have q: "w_lists w1 ?q = [''z'', ''a'']" by (simp add: z)
  have "\<exists>en' w2. polls documented ?c 5 (length (w_lists w1 ?q)) ex_engine w1 = (Inr en', w2)
    \<and> (''a'', ''c'') \<in> set (en_active en') \<and> ''a'' \<in> fst ` set (w_zsets w2 (k_processing (pfx ?c) ''c'')) \<and> w_jobs w2 = w_jobs ex_due"
    by (rule due_job_claimed [OF inv len up due _ run]) (simp_all add: q ex_engine_def)
  with run q show ?thesis by (auto simp: numeral_2_eq_2)
qed

end
