(* ===== verification/Scheduled_Tasks.thy ===== *)
theory Scheduled_Tasks
  imports Job_Publishing
begin

text \<open>
  User-defined scheduled tasks: the validation in \<open>mojo/apps/jobs/models/scheduled_task.py\<close> and
  the hourly dispatch in \<open>mojo/apps/jobs/cronjobs.py\<close>. The JSON columns hold arbitrary JSON, as the
  REST layer lets the owner write them. Time zones are a parameter: the offset from UTC, in
  seconds, that the owner's zone has at an instant.
\<close>

definition TASK_TYPES :: "string list" where
  "TASK_TYPES = [''job'', ''webhook'', ''llm'']"

record scheduled_task =
  st_id :: string
  st_enabled :: bool
  st_task_type :: string
  st_run_times :: json
  st_run_days :: json
  st_notify :: json
  st_channel :: string
  st_max_retries :: int

section \<open>Validation\<close>

text \<open>\<open>int(t[:2]), int(t[3:])\<close>\<close>

definition parse_time :: "string \<Rightarrow> (int \<times> int) option" where
  "parse_time t =
     (case (py_int (take 2 t), py_int (drop 3 t)) of (Some h, Some m) \<Rightarrow> Some (h, m) | _ \<Rightarrow> None)"

fun validate_time :: "json \<Rightarrow> unit wact" where
  "validate_time (JStr t) =
     (if length t \<noteq> 5 \<or> t ! 2 \<noteq> CHR '':'' then throw (ValueError ''Invalid time format. Use HH:MM'')
      else case parse_time t of
        None \<Rightarrow> throw (ValueError ''Invalid time value'')
      | Some (h, m) \<Rightarrow>
          if 0 \<le> h \<and> h \<le> 23 \<and> 0 \<le> m \<and> m \<le> 59 then ret () else throw (ValueError ''Invalid time value''))"
| "validate_time _ = throw (ValueError ''Invalid time format. Use HH:MM'')"

text \<open>\<open>isinstance(d, int)\<close> holds of booleans too.\<close>

fun int_of_json :: "json \<Rightarrow> int option" where
  "int_of_json (JInt i) = Some i"
| "int_of_json (JBool b) = Some (if b then 1 else 0)"
| "int_of_json _ = None"

definition validate_day :: "json \<Rightarrow> unit wact" where
  "validate_day d =
     (case int_of_json d of
        None \<Rightarrow> throw (ValueError ''Invalid weekday. Must be 0-6 (Mon=0)'')
      | Some i \<Rightarrow> if 0 \<le> i \<and> i \<le> 6 then ret () else throw (ValueError ''Invalid weekday. Must be 0-6 (Mon=0)''))"

fun as_list :: "json \<Rightarrow> json list option" where
  "as_list (JList xs) = Some xs"
| "as_list _ = None"

text \<open>\<open>ScheduledTask._validate\<close>; \<open>existing\<close> is the number of tasks the owner has.\<close>

definition validate_task :: "jobs_cfg \<Rightarrow> nat \<Rightarrow> nat \<Rightarrow> scheduled_task \<Rightarrow> unit wact" where
  "validate_task c max_per_user existing t =
     (case as_list (st_run_times t) of
        None \<Rightarrow> throw (ValueError ''run_times must be a list'')
      | Some ts \<Rightarrow>
          if length ts > 2 then throw (ValueError ''run_times cannot have more than 2 entries'')
          else seqs (for_each ts validate_time)
         (case as_list (st_run_days t) of
            None \<Rightarrow> throw (ValueError ''run_days must be a list'')
          | Some days \<Rightarrow>
              seqs (for_each days validate_day)
              (if st_task_type t \<notin> set TASK_TYPES then throw (ValueError ''Invalid task_type'')
               else seqs (validate_channel_name (st_channel t))
              (if channels_enforced c \<and> \<not> is_channel_allowed c (st_channel t)
               then throw (ValueError ''Channel is not a declared publish target'')
               else case as_list (st_notify t) of
                 None \<Rightarrow> throw (ValueError ''notify must be a list'')
               | Some chs \<Rightarrow>
                   seqs (for_each chs (\<lambda>ch.
                           if ch \<notin> {JStr ''email'', JStr ''in_app'', JStr ''sms'', JStr ''push''}
                           then throw (ValueError ''Invalid notify channel'') else ret ()))
                        (if st_id t = [] \<and> existing \<ge> max_per_user
                         then throw (ValueError ''Maximum scheduled tasks per user'') else ret ())))))"

text \<open>\<open>save\<close>: a row without an identifier gets one before it is validated; the row to write.\<close>

definition save_task :: "jobs_cfg \<Rightarrow> nat \<Rightarrow> nat \<Rightarrow> string \<Rightarrow> scheduled_task \<Rightarrow> scheduled_task wact" where
  "save_task c max_per_user existing uuid t =
     (let t' = (if st_id t = [] then t\<lparr>st_id := uuid\<rparr> else t)
      in seqs (validate_task c max_per_user existing t') (ret t'))"

section \<open>Schedule\<close>

text \<open>A malformed time raises \<open>ValueError\<close> here.\<close>

fun times_for_hour :: "json list \<Rightarrow> int \<Rightarrow> (int \<times> int) list res" where
  "times_for_hour [] hour = Inr []"
| "times_for_hour (JStr t # ts) hour =
     (case parse_time t of
        None \<Rightarrow> Inl (ValueError ''invalid literal for int()'')
      | Some (h, m) \<Rightarrow> (case times_for_hour ts hour of
            Inl e \<Rightarrow> Inl e
          | Inr r \<Rightarrow> Inr (if h = hour then (h, m) # r else r)))"
| "times_for_hour (_ # ts) hour = Inl (TypeError ''object is not subscriptable'')"

definition get_run_times_for_hour :: "scheduled_task \<Rightarrow> int \<Rightarrow> (int \<times> int) list res" where
  "get_run_times_for_hour t hour =
     (case as_list (st_run_times t) of
        Some ts \<Rightarrow> times_for_hour ts hour
      | None \<Rightarrow> Inl (TypeError ''not a list of times''))"

text \<open>Equality of Python identifies \<open>True\<close> with 1 and \<open>False\<close> with 0.\<close>

definition matches_day :: "scheduled_task \<Rightarrow> int \<Rightarrow> bool" where
  "matches_day t weekday \<longleftrightarrow>
     \<not> truthy (st_run_days t)
     \<or> (case as_list (st_run_days t) of None \<Rightarrow> False | Some ds \<Rightarrow> Some weekday \<in> int_of_json ` set ds)"

text \<open>
  The instants at which a task is due in the current hour. \<open>now\<close> is in whole seconds; the hour is
  the owner's, the weekday is that of UTC. The replacement of hour and minute keeps the local day.
\<close>

definition task_runs :: "(scheduled_task \<Rightarrow> int \<Rightarrow> int) \<Rightarrow> int \<Rightarrow> scheduled_task \<Rightarrow> int list res" where
  "task_runs tz now t =
     (if \<not> matches_day t (weekday_of_days (now div 86400)) then Inr []
      else (let off = tz t now; local = now + off in
        case get_run_times_for_hour t (local mod 86400 div 3600) of
          Inl e \<Rightarrow> Inl e
        | Inr hms \<Rightarrow> Inr (filter (\<lambda>r. r \<ge> now)
            (map (\<lambda>(h, m). local div 86400 * 86400 + h * 3600 + m * 60 - off) hms))))"

definition task_args :: "scheduled_task \<Rightarrow> int \<Rightarrow> publish_args" where
  "task_args t run_at = (default_args (Path ''mojo.apps.jobs.asyncjobs.run_scheduled_task''))
     \<lparr>pa_payload := JObj [(''task_id'', JStr (st_id t))], pa_run_at := Some (of_int run_at),
      pa_idempotency_key := Some (''schtask:'' @ st_id t @ '':'' @ show_int run_at),
      pa_channel := st_channel t, pa_max_retries := Some (st_max_retries t)\<rparr>"

definition publish_run :: "svc \<Rightarrow> jobs_cfg \<Rightarrow> (string \<Rightarrow> pub_env) \<Rightarrow> scheduled_task \<Rightarrow> int \<Rightarrow> unit wact" where
  "publish_run S c envs t run_at =
     (let a = task_args t run_at in
      attempt (publish_single S c (envs (the (pa_idempotency_key a))) a))"

definition dispatch_scheduled_tasks :: "svc \<Rightarrow> jobs_cfg \<Rightarrow> (scheduled_task \<Rightarrow> int \<Rightarrow> int) \<Rightarrow> (string \<Rightarrow> pub_env)
    \<Rightarrow> int \<Rightarrow> scheduled_task list \<Rightarrow> unit wact" where
  "dispatch_scheduled_tasks S c tz envs now tasks =
     for_each (filter st_enabled tasks) (\<lambda>t.
       case task_runs tz now t of
         Inl e \<Rightarrow> throw e
       | Inr runs \<Rightarrow> for_each runs (publish_run S c envs t))"

section \<open>Properties\<close>

lemma for_each_returns:
  "fst (for_each xs f w) = Inr () \<Longrightarrow> (\<And>x w'. snd (f x w') = w') \<Longrightarrow> \<forall>x \<in> set xs. fst (f x w) = Inr ()"
proof (induction xs arbitrary: w)
  case (Cons x xs)
  obtain r w1 where r: "f x w = (r, w1)" by (cases "f x w")
  with Cons.prems(2) [of x w] have "w1 = w" by simp
  with Cons r show ?case by (cases r) (auto simp: seqs_def bind_def)
qed simp

lemma seqs_returns:
  assumes "fst (seqs m n w) = Inr x"
  obtains y w' where "m w = (Inr y, w')" and "fst (n w') = Inr x"
  using assms by (auto simp: seqs_def bind_def split: prod.splits sum.splits)

lemma validate_time_pure: "snd (validate_time j w) = w"
  by (cases j) (auto simp: throw_def ret_def split: option.splits)

lemma validate_time_ok:
  "fst (validate_time j w) = Inr () \<Longrightarrow>
   \<exists>t h m. j = JStr t \<and> parse_time t = Some (h, m) \<and> 0 \<le> h \<and> h \<le> 23 \<and> 0 \<le> m \<and> m \<le> 59"
  by (cases j) (auto simp: throw_def split: if_splits option.splits)

lemma times_for_hour_ok:
  assumes "\<forall>j \<in> set ts. \<exists>t h m. j = JStr t \<and> parse_time t = Some (h, m) \<and> 0 \<le> h \<and> h \<le> 23 \<and> 0 \<le> m \<and> m \<le> 59"
  shows "\<exists>r. times_for_hour ts hour = Inr r \<and> (\<forall>p \<in> set r. fst p = hour \<and> 0 \<le> snd p \<and> snd p \<le> 59)
    \<and> (\<forall>t m. JStr t \<in> set ts \<and> parse_time t = Some (hour, m) \<longrightarrow> (hour, m) \<in> set r)"
  using assms
proof (induction ts)
  case (Cons j ts)
  then obtain t h m r where j: "j = JStr t" "parse_time t = Some (h, m)" "0 \<le> m" "m \<le> 59"
    and r: "times_for_hour ts hour = Inr r" "\<forall>p \<in> set r. fst p = hour \<and> 0 \<le> snd p \<and> snd p \<le> 59"
      "\<forall>t m. JStr t \<in> set ts \<and> parse_time t = Some (hour, m) \<longrightarrow> (hour, m) \<in> set r" by auto
  then show ?case by auto
qed simp

lemma validated_times:
  assumes "fst (validate_task c mx ex t w) = Inr ()"
  obtains ts where "as_list (st_run_times t) = Some ts"
    "\<forall>j \<in> set ts. \<exists>t h m. j = JStr t \<and> parse_time t = Some (h, m) \<and> 0 \<le> h \<and> h \<le> 23 \<and> 0 \<le> m \<and> m \<le> 59"
proof -
  obtain ts where ts: "as_list (st_run_times t) = Some ts"
    using assms by (auto simp: validate_task_def throw_def split: option.splits)
  have len: "\<not> length ts > 2"
    using assms ts by (auto simp: validate_task_def throw_def)
  from assms ts len obtain y w' where "for_each ts validate_time w = (Inr y, w')"
    unfolding validate_task_def by (auto elim: seqs_returns)
  then have "\<forall>j \<in> set ts. fst (validate_time j w) = Inr ()"
    by (intro for_each_returns) (simp_all add: validate_time_pure)
  with ts that validate_time_ok show thesis by blast
qed

text \<open>
  A task that passes validation never makes the dispatcher fail: for every hour its run times
  parse, and what they yield is exactly the entries of that hour, with minutes of a clock.
\<close>

theorem validated_task_schedules:
  assumes "fst (validate_task c mx ex t w) = Inr ()"
  shows "\<exists>r. get_run_times_for_hour t hour = Inr r \<and> (\<forall>p \<in> set r. fst p = hour \<and> 0 \<le> snd p \<and> snd p \<le> 59)
    \<and> (\<forall>s m ts. st_run_times t = JList ts \<and> JStr s \<in> set ts \<and> parse_time s = Some (hour, m) \<longrightarrow> (hour, m) \<in> set r)"
proof -
  from validated_times [OF assms] obtain ts where ts: "as_list (st_run_times t) = Some ts"
    "\<forall>j \<in> set ts. \<exists>t h m. j = JStr t \<and> parse_time t = Some (h, m) \<and> 0 \<le> h \<and> h \<le> 23 \<and> 0 \<le> m \<and> m \<le> 59" .
  from times_for_hour_ok [OF ts(2), of hour] ts(1) show ?thesis
    by (auto simp: get_run_times_for_hour_def)
qed

definition ex_task :: scheduled_task where
  "ex_task = \<lparr>st_id = ''t'', st_enabled = True, st_task_type = ''job'', st_run_times = JList [JStr ''20:30''],
     st_run_days = JList [JInt 0], st_notify = JList [], st_channel = ''default'', st_max_retries = 0\<rparr>"

lemma ex_task_valid: "validate_task default_cfg 10 0 ex_task empty_world = (Inr (), empty_world)"
proof -
  have "parse_time ''20:30'' = Some (20, 30)" by code_simp
  moreover have "CHANNEL_NAME_RE ''default''" by code_simp
  ultimately show ?thesis
    by (simp add: validate_task_def ex_task_def act_defs validate_day_def TASK_TYPES_def validate_channel_name_def
        channels_enforced_def default_cfg_def)
qed

theorem validated_task_schedules_witness:
  "get_run_times_for_hour ex_task 20 = Inr [(20, 30)]"
proof -
  have "parse_time ''20:30'' = Some (20, 30)" by code_simp
  then have "get_run_times_for_hour ex_task 20 = Inr [(20, 30)]"
    by (simp add: get_run_times_for_hour_def ex_task_def)
  moreover have "\<exists>r. get_run_times_for_hour ex_task 20 = Inr r \<and> (\<forall>p \<in> set r. fst p = 20)"
    using validated_task_schedules [of default_cfg 10 0 ex_task empty_world 20] ex_task_valid by fastforce
  ultimately show ?thesis by auto
qed

lemma day_decompose:
  fixes local m h :: int
  assumes "h = local mod 86400 div 3600" and "0 \<le> m" and "m \<le> 59"
  defines "q \<equiv> local div 86400 * 86400 + h * 3600 + m * 60"
  shows "q - local < 3600" and "q mod 86400 div 3600 = h" and "q mod 3600 div 60 = m" and "q mod 60 = 0"
proof -
  have "0 \<le> local mod 86400" "local mod 86400 < 86400" by simp_all
  from clock_of_second [OF this] have h: "0 \<le> h" "h \<le> 23" by (simp_all only: assms(1))
  have rest: "local mod 86400 = h * 3600 + local mod 86400 mod 3600"
    unfolding assms(1) by (rule div_mult_mod_eq [symmetric])
  have low: "0 \<le> local mod 86400 mod 3600" "local mod 86400 mod 3600 < 3600" by simp_all
  have whole: "local = local div 86400 * 86400 + local mod 86400" by (rule div_mult_mod_eq [symmetric])
  show "q - local < 3600" using whole rest low assms(2,3) unfolding q_def by linarith
  have small: "0 \<le> h * 3600 + m * 60" "h * 3600 + m * 60 < 86400" "0 \<le> m * 60" "m * 60 < 3600"
    using h assms(2,3) by linarith+
  have q: "q = (h * 3600 + m * 60) + local div 86400 * 86400" by (simp only: q_def add.commute add.left_commute)
  have day: "q mod 86400 = h * 3600 + m * 60" unfolding q mod_mult_self1 by (rule mod_pos_pos_trivial) (fact small)+
  show "q mod 86400 div 3600 = h"
    unfolding day by (simp only: div_mult_self3 div_pos_pos_trivial [OF small(3,4)])
  have q': "q = m * 60 + (local div 86400 * 24 + h) * 3600" unfolding q_def by (simp only: algebra_simps) 
  have hour: "q mod 3600 = m * 60" unfolding q' mod_mult_self1 by (rule mod_pos_pos_trivial) (fact small)+
  show "q mod 3600 div 60 = m" unfolding hour by simp
  have "q = 0 + (local div 86400 * 1440 + h * 60 + m) * 60" unfolding q_def by (simp only: algebra_simps) 
  then show "q mod 60 = 0" by (simp only: mod_mult_self1) simp
qed

lemma times_from_text:
  "times_for_hour xs hour = Inr ps \<Longrightarrow> p \<in> set ps \<Longrightarrow>
   \<exists>s. JStr s \<in> set xs \<and> parse_time s = Some p \<and> fst p = hour"
proof (induction xs hour arbitrary: ps rule: times_for_hour.induct)
  case (2 t ts hour)
  then obtain h m qs where q: "parse_time t = Some (h, m)" "times_for_hour ts hour = Inr qs"
    "ps = (if h = hour then (h, m) # qs else qs)"
    by (auto split: option.splits sum.splits)
  show ?case
  proof (cases "p \<in> set qs")
    case True
    from "2.IH" [OF q(1) refl q(2) True] show ?thesis by auto
  next
    case False
    with q "2.prems"(2) have "p = (h, m)" "h = hour" by (auto split: if_splits)
    with q show ?thesis by auto
  qed
qed simp_all

text \<open>
  The hourly dispatch of a validated task publishes only instants that lie within the next hour
  and whose hour and minute in the owner's zone are one of the task's run times.
\<close>

theorem task_runs_due:
  assumes "fst (validate_task c mx ex t w) = Inr ()" and "task_runs tz now t = Inr runs" and "r \<in> set runs"
  shows "now \<le> r \<and> r < now + 3600 \<and> (r + tz t now) mod 60 = 0
    \<and> (\<exists>s ts. st_run_times t = JList ts \<and> JStr s \<in> set ts
         \<and> parse_time s = Some ((r + tz t now) mod 86400 div 3600, (r + tz t now) mod 3600 div 60))"
proof -
  let ?local = "now + tz t now"
  let ?h = "?local mod 86400 div 3600"
  from validated_times [OF assms(1)] obtain ts where ts: "as_list (st_run_times t) = Some ts"
    "\<forall>j \<in> set ts. \<exists>t h m. j = JStr t \<and> parse_time t = Some (h, m) \<and> 0 \<le> h \<and> h \<le> 23 \<and> 0 \<le> m \<and> m \<le> 59" .
  have jl: "st_run_times t = JList ts" using ts(1) by (cases "st_run_times t") auto
  obtain hms where hms: "times_for_hour ts ?h = Inr hms" using times_for_hour_ok [OF ts(2), of ?h] by blast
  have "runs \<noteq> []" using assms(3) by auto
  with assms(2) hms ts(1) have runs: "runs = filter (\<lambda>r. r \<ge> now)
      (map (\<lambda>(h, m). ?local div 86400 * 86400 + h * 3600 + m * 60 - tz t now) hms)"
    by (simp add: task_runs_def get_run_times_for_hour_def Let_def split: if_splits)
  from assms(3) have late: "now \<le> r" and
    "r \<in> (\<lambda>(h, m). ?local div 86400 * 86400 + h * 3600 + m * 60 - tz t now) ` set hms"
    unfolding runs set_filter set_map by blast+
  then obtain h m where hm: "(h, m) \<in> set hms"
    "r = ?local div 86400 * 86400 + h * 3600 + m * 60 - tz t now" by (elim imageE) (simp only: split_paired_all prod.case)
  from times_from_text [OF hms hm(1)] obtain s where s: "JStr s \<in> set ts" "parse_time s = Some (h, m)" "h = ?h"
    by auto
  with ts(2) have m: "0 \<le> m" "m \<le> 59" by fastforce+
  let ?q = "?local div 86400 * 86400 + h * 3600 + m * 60"
  have rq: "r + tz t now = ?q" unfolding hm(2) by (rule diff_add_cancel)
  then have soon: "r < now + 3600" using day_decompose(1) [OF s(3) m] by linarith
  have hour: "?q mod 86400 div 3600 = h" "?q mod 3600 div 60 = m" "?q mod 60 = 0"
    by (rule day_decompose [OF s(3) m])+
  show ?thesis unfolding rq hour using late soon s(1,2) jl by blast
qed

theorem task_runs_due_witness:
  "task_runs (\<lambda>_ _. 0) (86400 * 4 + 72000) ex_task = Inr [86400 * 4 + 73800]
   \<and> 86400 * 4 + 73800 < (86400 * 4 + 72000) + (3600 :: int)"
proof -
  have "parse_time ''20:30'' = Some (20, 30)" by code_simp
  then have runs: "task_runs (\<lambda>_ _. 0) (86400 * 4 + 72000) ex_task = Inr [86400 * 4 + 73800]"
    by (simp add: task_runs_def get_run_times_for_hour_def matches_day_def ex_task_def weekday_of_days_def Let_def)
  from task_runs_due [OF _ runs, of default_cfg 10 0 empty_world] ex_task_valid runs show ?thesis by auto
qed

text \<open>
  Saving a task never applies the limit on the number of tasks per user: \<open>save\<close> gives the row
  its identifier before \<open>_validate\<close> tests that it has none, so the count is not looked at.
\<close>

theorem task_limit_not_applied:
  assumes "uuid \<noteq> []"
  shows "save_task c limit existing uuid t w = save_task c limit' existing' uuid t w"
proof -
  have "validate_task c limit existing u = validate_task c limit' existing' u" if "st_id u \<noteq> []" for u
    using that unfolding validate_task_def by (simp only: simp_thms if_False)
  then show ?thesis using assms by (simp add: save_task_def Let_def)
qed

theorem task_limit_not_applied_witness:
  "save_task default_cfg 10 1000 ''u'' (ex_task\<lparr>st_id := []\<rparr>) empty_world =
   save_task default_cfg 10 0 ''u'' (ex_task\<lparr>st_id := []\<rparr>) empty_world"
  by (rule task_limit_not_applied) simp

text \<open>
  The weekday is that of UTC while the hour is the owner's: a task for Mondays at 20:30 of an
  owner eight hours behind UTC is dispatched on the owner's Sunday at 20:30 (04:30 UTC on Monday),
  and not on the owner's Monday.
\<close>

theorem weekday_is_utc:
  "task_runs (\<lambda>_ _. - 28800) (86400 * 4 + 14400) ex_task = Inr [86400 * 4 + 16200]
   \<and> weekday_of_days ((86400 * 4 + 16200 - 28800) div 86400) = 6
   \<and> task_runs (\<lambda>_ _. - 28800) (86400 * 5 + 14400) ex_task = Inr []"
proof -
  have "parse_time ''20:30'' = Some (20, 30)" by code_simp
  then show ?thesis
    by (simp add: task_runs_def get_run_times_for_hour_def matches_day_def ex_task_def weekday_of_days_def Let_def)
qed

end
