(* ===== verification/Cron.thy ===== *)
theory Cron
  imports Job_Services
begin

text \<open>
  The cron of the framework (\<open>mojo/helpers/cron.py\<close>, \<open>mojo/decorators/cron.py\<close>): matching of
  cron fields, the functions due at a wall-clock time, and \<open>run_now\<close> with its heartbeat records.
  The main theorem says that a field written in the documented syntax matches exactly the values
  that its patterns denote.
\<close>

section \<open>Matching\<close>

datatype cron_value = CronStr string | CronList "string list"

text \<open>
  One pattern of a field. \<open>Inr True\<close> returns, \<open>Inr False\<close> goes on to the next one. A step of zero
  raises \<open>ZeroDivisionError\<close>, which the \<open>except ValueError\<close> does not catch.
\<close>

definition step_matches :: "int \<Rightarrow> int \<Rightarrow> bool res" where
  "step_matches v step = (if step = 0 then Inl ZeroDivisionError else Inr (v mod step = 0))"

definition range_of :: "string \<Rightarrow> (int \<times> int) option" where
  "range_of s =
     (case split_first CHR ''-'' s of
        None \<Rightarrow> None
      | Some (a, b) \<Rightarrow> (case (py_int a, py_int b) of (Some x, Some y) \<Rightarrow> Some (x, y) | _ \<Rightarrow> None))"

definition match_pattern :: "string \<Rightarrow> int \<Rightarrow> bool res" where
  "match_pattern pattern0 v =
     (let pattern = strip pattern0 in
      case split_first CHR ''/'' pattern of
        Some (range_part, step) \<Rightarrow>
          (case py_int step of
             None \<Rightarrow> Inr False
           | Some n \<Rightarrow>
               if range_part = ''*'' then step_matches v n
               else if CHR ''-'' \<in> set range_part then
                 (case range_of range_part of
                    None \<Rightarrow> Inr False
                  | Some (a, b) \<Rightarrow> if a \<le> v \<and> v \<le> b then step_matches (v - a) n else Inr False)
               else Inr False)
      | None \<Rightarrow>
          if CHR ''-'' \<in> set pattern then
            (case range_of pattern of None \<Rightarrow> Inr False | Some (a, b) \<Rightarrow> Inr (a \<le> v \<and> v \<le> b))
          else Inr (py_int pattern = Some v))"

fun match_any :: "string list \<Rightarrow> int \<Rightarrow> bool res" where
  "match_any [] v = Inr False"
| "match_any (p # ps) v =
     (case match_pattern p v of
        Inl e \<Rightarrow> Inl e
      | Inr b \<Rightarrow> if b then Inr True else match_any ps v)"

definition matches :: "cron_value \<Rightarrow> int \<Rightarrow> bool res" where
  "matches cron_value v =
     (case cron_value of
        CronStr s \<Rightarrow> if s = ''*'' then Inr True else match_any (split_on CHR '','' s) v
      | CronList ps \<Rightarrow> match_any ps v)"

record cron_spec =
  cs_func :: "unit wact"
  cs_minutes :: cron_value
  cs_hours :: cron_value
  cs_days :: cron_value
  cs_months :: cron_value
  cs_weekdays :: cron_value

text \<open>The decorator appends a specification to the registry.\<close>

definition schedule :: "cron_spec \<Rightarrow> cron_spec list \<Rightarrow> cron_spec list" where
  "schedule spec registry = registry @ [spec]"

fun all_match :: "(cron_value \<times> int) list \<Rightarrow> bool res" where
  "all_match [] = Inr True"
| "all_match ((c, v) # rest) =
     (case matches c v of Inl e \<Rightarrow> Inl e | Inr b \<Rightarrow> if b then all_match rest else Inr False)"

definition match_time :: "datetime \<Rightarrow> cron_spec \<Rightarrow> bool res" where
  "match_time t spec = all_match
     [(cs_minutes spec, dt_minute t), (cs_hours spec, dt_hour t), (cs_days spec, dt_day t),
      (cs_months spec, dt_month t), (cs_weekdays spec, dt_weekday t)]"

fun find_scheduled_functions :: "datetime \<Rightarrow> cron_spec list \<Rightarrow> unit wact list res" where
  "find_scheduled_functions t [] = Inr []"
| "find_scheduled_functions t (s # ss) =
     (case match_time t s of
        Inl e \<Rightarrow> Inl e
      | Inr b \<Rightarrow> (case find_scheduled_functions t ss of
            Inl e \<Rightarrow> Inl e
          | Inr fs \<Rightarrow> Inr (if b then cs_func s # fs else fs)))"

section \<open>Heartbeats and runs\<close>

definition CRON_HEARTBEAT_PREFIX :: string where
  "CRON_HEARTBEAT_PREFIX = ''mojo:cron:heartbeat''"

definition CRON_HEARTBEAT_INDEX :: string where
  "CRON_HEARTBEAT_INDEX = CRON_HEARTBEAT_PREFIX @ '':runs''"

definition CRON_HEARTBEAT_TTL :: rat where
  "CRON_HEARTBEAT_TTL = 86400"

definition heartbeat_key :: "string \<Rightarrow> string" where
  "heartbeat_key run_id = CRON_HEARTBEAT_PREFIX @ '':run:'' @ run_id"

text \<open>\<open>json.dumps(payload, sort_keys=True)\<close>\<close>

definition dumps_sorted :: "(string \<times> json) list \<Rightarrow> string" where
  "dumps_sorted m = json_dumps (JObj (sort_key fst m))"

definition write_heartbeat :: "svc \<Rightarrow> rat \<Rightarrow> string \<Rightarrow> (string \<times> json) list \<Rightarrow> rat \<Rightarrow> unit wact" where
  "write_heartbeat S now run_id payload started =
     attempt (seqs (sv_set S (heartbeat_key run_id) (dumps_sorted payload))
             (seqs (sv_zadd S CRON_HEARTBEAT_INDEX [(run_id, started)])
             (seqs (sv_zremrangebyscore S CRON_HEARTBEAT_INDEX (now - CRON_HEARTBEAT_TTL))
                   (sv_expire S CRON_HEARTBEAT_INDEX))))"

text \<open>The loop over the due functions: how many completed, and the exception that stopped it.\<close>

fun run_functions :: "unit wact list \<Rightarrow> nat \<Rightarrow> (nat \<times> exn option) wact" where
  "run_functions [] n = ret (n, None)"
| "run_functions (f # fs) n = (\<lambda>w.
     case f w of
        (Inl e, w') \<Rightarrow> (Inr (n, Some e), w')
      | (Inr _, w') \<Rightarrow> run_functions fs (Suc n) w')"

definition run_payload :: "string \<Rightarrow> string \<Rightarrow> rat \<Rightarrow> nat \<Rightarrow> nat \<Rightarrow> nat \<Rightarrow> (string \<times> json) list \<Rightarrow> (string \<times> json) list" where
  "run_payload run_id state started matched completed failed extra =
     [(''version'', JInt 1), (''run_id'', JStr run_id), (''state'', JStr state),
      (''started_at'', JStr (isoformat started)), (''matched_count'', JInt (int matched)),
      (''completed_count'', JInt (int completed)), (''failed_count'', JInt (int failed))] @ extra"

text \<open>\<open>t0\<close> and \<open>t1\<close> are the clock at the start and at the end, \<open>name\<close> the class of the exception.\<close>

definition run_now :: "svc \<Rightarrow> datetime \<Rightarrow> string \<Rightarrow> rat \<Rightarrow> rat \<Rightarrow> (exn \<Rightarrow> string) \<Rightarrow> cron_spec list \<Rightarrow> unit wact" where
  "run_now S local_now run_id t0 t1 name registry =
     (case find_scheduled_functions local_now registry of
        Inl e \<Rightarrow> throw e
      | Inr fs \<Rightarrow>
          seqs (write_heartbeat S t0 run_id (run_payload run_id ''started'' t0 (length fs) 0 0 []) t0)
         (bind (run_functions fs 0) (\<lambda>(completed, failure).
          case failure of
            Some e \<Rightarrow>
              seqs (write_heartbeat S t1 run_id (run_payload run_id ''failed'' t0 (length fs) completed 1
                     [(''completed_at'', JStr (isoformat t1)), (''failure'', JStr (name e))]) t0)
                   (throw e)
          | None \<Rightarrow>
              write_heartbeat S t1 run_id (run_payload run_id ''completed'' t0 (length fs) completed 0
                [(''completed_at'', JStr (isoformat t1))]) t0)))"

section \<open>The documented syntax\<close>

datatype cron_pat = Value nat | Range nat nat | Every nat | RangeEvery nat nat nat

fun render :: "cron_pat \<Rightarrow> string" where
  "render (Value n) = show_nat n"
| "render (Range a b) = show_nat a @ ''-'' @ show_nat b"
| "render (Every n) = ''*/'' @ show_nat n"
| "render (RangeEvery a b n) = show_nat a @ ''-'' @ show_nat b @ ''/'' @ show_nat n"

fun denotes :: "cron_pat \<Rightarrow> int \<Rightarrow> bool" where
  "denotes (Value n) v \<longleftrightarrow> v = int n"
| "denotes (Range a b) v \<longleftrightarrow> int a \<le> v \<and> v \<le> int b"
| "denotes (Every n) v \<longleftrightarrow> int n dvd v"
| "denotes (RangeEvery a b n) v \<longleftrightarrow> int a \<le> v \<and> v \<le> int b \<and> int n dvd (v - int a)"

fun steps_positive :: "cron_pat \<Rightarrow> bool" where
  "steps_positive (Every n) = (0 < n)"
| "steps_positive (RangeEvery a b n) = (0 < n)"
| "steps_positive _ = True"

text \<open>
  A whole field: the wildcard, which the matcher knows only as the whole text, or patterns separated by
  commas. A step of 0 has no meaning in the syntax (and raises when it is reached).
\<close>

datatype cron_field = Wildcard | Patterns "cron_pat list"

fun render_field :: "cron_field \<Rightarrow> string" where
  "render_field Wildcard = ''*''"
| "render_field (Patterns ps) = join_with '','' (map render ps)"

fun field_denotes :: "cron_field \<Rightarrow> int \<Rightarrow> bool" where
  "field_denotes Wildcard v = True"
| "field_denotes (Patterns ps) v = (\<exists>p \<in> set ps. denotes p v)"

fun field_ok :: "cron_field \<Rightarrow> bool" where
  "field_ok Wildcard = True"
| "field_ok (Patterns ps) = (ps \<noteq> [] \<and> list_all steps_positive ps)"

lemma py_int_show_nat [simp]: "py_int (show_nat n) = Some (int n)"
  using py_int_show_int [of "int n"] by (simp add: show_int_def)

lemma digits_plain:
  assumes "c \<in> set (show_nat n)"
  shows "c \<noteq> CHR ''/''" and "c \<noteq> CHR ''-''" and "c \<noteq> CHR '',''" and "c \<noteq> CHR ''*''" and "\<not> is_space c"
  using show_nat_digits [OF assms] by (auto simp: is_digit_def is_space_def)

lemma split_first_at: "c \<notin> set a \<Longrightarrow> split_first c (a @ c # b) = Some (a, b)"
  by (induction a) (auto simp: split_first_def)

lemma split_first_none: "c \<notin> set a \<Longrightarrow> split_first c a = None"
  by (simp add: split_first_def)

lemma render_plain: "c \<in> set (render p) \<Longrightarrow> c \<noteq> CHR '','' \<and> \<not> is_space c"
  by (cases p) (auto dest: digits_plain simp: is_space_def)

lemma range_of_shown: "range_of (show_nat a @ ''-'' @ show_nat b) = Some (int a, int b)"
proof -
  have "CHR ''-'' \<notin> set (show_nat a)" by (auto dest: digits_plain)
  from split_first_at [OF this] show ?thesis by (simp add: range_of_def)
qed

lemma match_pattern_render:
  assumes "steps_positive p"
  shows "match_pattern (render p) v = Inr (denotes p v)"
proof -
  have st: "strip (render p) = render p" using render_plain by (intro strip_no_space) blast
  have slash: "CHR ''/'' \<notin> set (show_nat n)" "CHR ''-'' \<notin> set (show_nat n)" for n
    by (auto dest: digits_plain)
  show ?thesis
  proof (cases p)
    case (Value n)
    with st slash show ?thesis by (auto simp: match_pattern_def Let_def split_first_none)
  next
    case (Range a b)
    with st slash range_of_shown [of a b] show ?thesis
      by (simp add: match_pattern_def Let_def split_first_none)
  next
    case (Every n)
    have "split_first CHR ''/'' (''*'' @ CHR ''/'' # show_nat n) = Some (''*'', show_nat n)"
      by (rule split_first_at) simp
    with Every st assms show ?thesis
      by (simp add: match_pattern_def Let_def step_matches_def dvd_eq_mod_eq_0)
  next
    case (RangeEvery a b n)
    have "split_first CHR ''/'' ((show_nat a @ ''-'' @ show_nat b) @ CHR ''/'' # show_nat n) =
        Some (show_nat a @ ''-'' @ show_nat b, show_nat n)"
      by (rule split_first_at) (use slash in simp)
    moreover have "show_nat a @ ''-'' @ show_nat b \<noteq> ''*''" by (cases "show_nat a") auto
    ultimately show ?thesis using RangeEvery st assms range_of_shown [of a b]
      by (auto simp: match_pattern_def Let_def step_matches_def dvd_eq_mod_eq_0)
  qed
qed

lemma match_any_render:
  "\<forall>p \<in> set ps. steps_positive p \<Longrightarrow> match_any (map render ps) v = Inr (\<exists>p \<in> set ps. denotes p v)"
  by (induction ps) (auto simp: match_pattern_render)

lemma join_not_star: "join_with '','' (map render ps) \<noteq> ''*''"
proof (cases ps)
  case (Cons p qs)
  have "show_nat n \<noteq> ''*''" for n using digits_plain(4) [of "CHR ''*''" n] by auto
  then have "render p \<noteq> ''*''" by (cases p) (auto simp: append_eq_Cons_conv)
  moreover have "render p \<noteq> []" by (cases p) auto
  ultimately show ?thesis using Cons by (cases qs) (auto simp: append_eq_Cons_conv)
qed simp

text \<open>
  C33: a cron field written in the documented syntax (the wildcard alone, or values, ranges, steps and
  ranges with steps, separated by commas, every step above 0) matches exactly the values that it
  denotes, and raises for none.
\<close>

theorem matches_denotes:
  assumes "field_ok f"
  shows "matches (CronStr (render_field f)) v = Inr (field_denotes f v)"
proof (cases f)
  case Wildcard
  then show ?thesis by (simp add: matches_def)
next
  case (Patterns ps)
  with assms have ps: "ps \<noteq> []" "\<forall>p \<in> set ps. steps_positive p" by (auto simp: list_all_iff)
  have "split_on CHR '','' (join_with [CHR '',''] (map render ps)) = map render ps"
    by (rule split_join) (use ps(1) render_plain in auto)
  then show ?thesis
    using Patterns join_not_star [of ps] match_any_render [OF ps(2)] by (simp add: matches_def)
qed

theorem matches_denotes_witness:
  "matches (CronStr ''5,10-50/5'') 35 = Inr True \<and> matches (CronStr ''5,10-50/5'') 36 = Inr False \<and> matches (CronStr ''*'') 36 = Inr True"
proof -
  have "render_field (Patterns [Value 5, RangeEvery 10 50 5]) = ''5,10-50/5''" by code_simp
  with matches_denotes [of "Patterns [Value 5, RangeEvery 10 50 5]"] matches_denotes [of Wildcard 36] show ?thesis by simp
qed

lemma heartbeat_written:
  "w_strs (snd (write_heartbeat documented now i p s v)) (heartbeat_key i) = Some (dumps_sorted p)"
  "fst (write_heartbeat documented now i p s v) = Inr ()"
  by (simp_all add: write_heartbeat_def act_defs d_set_def d_zadd_def d_zremrangebyscore_def d_expire_def)

text \<open>
  One run executes the due functions in registration order and stops at the first that
  raises: with documented services the record left behind says how many completed, and the
  exception reaches the caller.
\<close>

theorem run_now_records:
  assumes "find_scheduled_functions t registry = Inr fs"
    and "run_functions fs 0 (snd (write_heartbeat documented t0 run_id
           (run_payload run_id ''started'' t0 (length fs) 0 0 []) t0 w)) = (Inr (n, failure), w1)"
  shows "w_strs (snd (run_now documented t run_id t0 t1 name registry w)) (heartbeat_key run_id) =
      Some (dumps_sorted (case failure of
        None \<Rightarrow> run_payload run_id ''completed'' t0 (length fs) n 0 [(''completed_at'', JStr (isoformat t1))]
      | Some e \<Rightarrow> run_payload run_id ''failed'' t0 (length fs) n 1
          [(''completed_at'', JStr (isoformat t1)), (''failure'', JStr (name e))]))
    \<and> fst (run_now documented t run_id t0 t1 name registry w) = (case failure of None \<Rightarrow> Inr () | Some e \<Rightarrow> Inl e)"
proof -
  let ?start = "write_heartbeat documented t0 run_id (run_payload run_id ''started'' t0 (length fs) 0 0 []) t0"
  have seq: "seqs (write_heartbeat documented now i p s) m v = m (snd (write_heartbeat documented now i p s v))"
    for now i p s v and m :: "unit wact"
    unfolding write_heartbeat_def by (rule seqs_attempt)
  have "run_now documented t run_id t0 t1 name registry w =
    (case failure of
       Some e \<Rightarrow> seqs (write_heartbeat documented t1 run_id (run_payload run_id ''failed'' t0 (length fs) n 1
                     [(''completed_at'', JStr (isoformat t1)), (''failure'', JStr (name e))]) t0) (throw e) w1
     | None \<Rightarrow> write_heartbeat documented t1 run_id (run_payload run_id ''completed'' t0 (length fs) n 0
                [(''completed_at'', JStr (isoformat t1))]) t0 w1)"
    using assms by (cases failure) (simp_all add: run_now_def seq bind_def)
  then show ?thesis
    by (cases failure) (simp_all add: seq throw_def heartbeat_written)
qed

definition ex_spec :: "unit wact \<Rightarrow> cron_spec" where
  "ex_spec f = \<lparr>cs_func = f, cs_minutes = CronStr ''*'', cs_hours = CronStr ''*'', cs_days = CronStr ''*'',
     cs_months = CronStr ''*'', cs_weekdays = CronStr ''*''\<rparr>"

theorem run_now_records_witness:
  "fst (run_now documented (dt_of_secs 0) ''r'' 0 1 (\<lambda>_. ''ValueError'')
     [ex_spec (ret ()), ex_spec (throw (ValueError ''x'')), ex_spec (ret ())] empty_world) = Inl (ValueError ''x'')"
proof -
  let ?t = "dt_of_secs 0" and ?fs = "[ret (), throw (ValueError ''x''), ret ()] :: unit wact list"
  have "find_scheduled_functions ?t (map ex_spec ?fs) = Inr ?fs"
    by (simp add: match_time_def matches_def ex_spec_def)
  from run_now_records [OF this, where n = 1 and failure = "Some (ValueError ''x'')" and ?t0.0 = 0 and run_id = "''r''"
      and w = empty_world and ?t1.0 = 1 and name = "\<lambda>_. ''ValueError''"]
  show ?thesis by (simp add: ret_def throw_def)
qed

end
