(* ===== verification/Metrics.thy ===== *)
theory Metrics
  imports Job_Services
begin

text \<open>
  The metrics app (\<open>mojo/apps/metrics/utils.py\<close> and \<open>redis_metrics.py\<close>): time buckets, the keys of
  the counters, recording and reading. A \<open>datetime\<close> is its wall-clock reading in seconds (Python's
  arithmetic on a zoned \<open>datetime\<close> is wall-clock arithmetic); its fields are those of the calendar
  of \<open>Py_Datetime\<close>. Years have four digits.
\<close>

datatype granularity = Minutes | Hours | Days | Weeks | Months | Years

fun granularity_prefix :: "granularity \<Rightarrow> string" where
  "granularity_prefix Minutes = ''min''"
| "granularity_prefix Hours = ''hr''"
| "granularity_prefix Days = ''day''"
| "granularity_prefix Weeks = ''wk''"
| "granularity_prefix Months = ''mon''"
| "granularity_prefix Years = ''yr''"

fun parse_granularity :: "string \<Rightarrow> granularity option" where
  "parse_granularity s =
     (if s = ''minutes'' then Some Minutes else if s = ''hours'' then Some Hours
      else if s = ''days'' then Some Days else if s = ''weeks'' then Some Weeks
      else if s = ''months'' then Some Months else if s = ''years'' then Some Years else None)"

definition GRANULARITIES :: "granularity list" where
  "GRANULARITIES = [Minutes, Hours, Days, Weeks, Months, Years]"

fun expires_days :: "granularity \<Rightarrow> int option" where
  "expires_days Minutes = Some 1"
| "expires_days Hours = Some 3"
| "expires_days Days = Some 360"
| "expires_days Weeks = Some 360"
| "expires_days Months = None"
| "expires_days Years = None"

text \<open>\<open>GRANULARITY_END_MAP\<close>, in seconds\<close>

fun end_span :: "granularity \<Rightarrow> int" where
  "end_span Minutes = 29 * 60"
| "end_span Hours = 24 * 3600"
| "end_span Days = 30 * 86400"
| "end_span Weeks = 11 * 7 * 86400"
| "end_span Months = 12 * 30 * 86400"
| "end_span Years = 11 * 360 * 86400"

fun granularity_index :: "granularity \<Rightarrow> nat" where
  "granularity_index Minutes = 0"
| "granularity_index Hours = 1"
| "granularity_index Days = 2"
| "granularity_index Weeks = 3"
| "granularity_index Months = 4"
| "granularity_index Years = 5"

definition generate_granularities :: "string \<Rightarrow> string \<Rightarrow> granularity list res" where
  "generate_granularities lo hi =
     (case (parse_granularity lo, parse_granularity hi) of
        (Some a, Some b) \<Rightarrow>
          if granularity_index a > granularity_index b
          then Inl (ValueError ''min_granularity must be less than or equal to max_granularity.'')
          else Inr (drop (granularity_index a) (take (granularity_index b + 1) GRANULARITIES))
      | _ \<Rightarrow> Inl (ValueError ''Invalid granularity.''))"

section \<open>Keys\<close>

definition normalize_slug :: "string \<Rightarrow> string" where
  "normalize_slug slug = replace_char CHR '':'' CHR ''|'' slug"

definition generate_slug_prefix :: "string \<Rightarrow> string \<Rightarrow> string" where
  "generate_slug_prefix slug account = ''mets:'' @ account @ ''::'' @ normalize_slug slug"

text \<open>\<open>%U\<close>: the week of the year, weeks start on Sunday, days before the first Sunday are week 0.\<close>

definition week_number :: "datetime \<Rightarrow> int" where
  "week_number t =
     (let yday = dt_days t - days_from_civil (dt_year t) 1 1; sunday0 = (dt_weekday t + 1) mod 7
      in (yday + 7 - sunday0) div 7)"

fun date_slug :: "granularity \<Rightarrow> datetime \<Rightarrow> string" where
  "date_slug Minutes t = iso_date t @ ''T'' @ pad 2 (dt_hour t) @ ''-'' @ pad 2 (dt_minute t)"
| "date_slug Hours t = iso_date t @ ''T'' @ pad 2 (dt_hour t)"
| "date_slug Days t = iso_date t"
| "date_slug Weeks t = pad 4 (dt_year t) @ ''-'' @ pad 2 (week_number t)"
| "date_slug Months t = pad 4 (dt_year t) @ ''-'' @ pad 2 (dt_month t)"
| "date_slug Years t = pad 4 (dt_year t)"

definition generate_slug :: "string \<Rightarrow> int \<Rightarrow> granularity \<Rightarrow> string \<Rightarrow> string" where
  "generate_slug slug when g account =
     generate_slug_prefix slug account @ '':'' @ granularity_prefix g @ '':'' @ date_slug g (dt_of_secs when)"

definition generate_category_slug :: "string \<Rightarrow> string \<Rightarrow> string" where
  "generate_category_slug account category = ''mets:'' @ account @ '':c:'' @ category"

definition generate_category_key :: "string \<Rightarrow> string" where
  "generate_category_key account = ''mets:'' @ account @ '':cats''"

definition generate_slugs_key :: "string \<Rightarrow> string" where
  "generate_slugs_key account = ''mets:'' @ account @ '':slugs''"

definition generate_perm_write_key :: "string \<Rightarrow> string" where
  "generate_perm_write_key account = ''mets:'' @ account @ '':perm:w''"

definition generate_perm_view_key :: "string \<Rightarrow> string" where
  "generate_perm_view_key account = ''mets:'' @ account @ '':perm:v''"

definition generate_accounts_key :: string where
  "generate_accounts_key = ''mets:_accounts_''"

definition generate_value_key :: "string \<Rightarrow> string \<Rightarrow> string" where
  "generate_value_key slug account = ''mets:'' @ account @ '':val:'' @ normalize_slug slug"

text \<open>The hash tag in front of a key.\<close>

definition tkey :: "string \<Rightarrow> string \<Rightarrow> string" where
  "tkey account key = (if starts_with key ''{'' then key else ''{mets:'' @ account @ ''}:'' @ key)"

section \<open>Ranges of buckets\<close>

definition get_date_range :: "int \<Rightarrow> int option \<Rightarrow> int option \<Rightarrow> granularity \<Rightarrow> int \<times> int" where
  "get_date_range now dt_start dt_end g =
     (case (dt_start, dt_end) of
        (None, None) \<Rightarrow> (now - end_span g, now)
      | (Some s, None) \<Rightarrow> (s, s + end_span g)
      | (None, Some e) \<Rightarrow> (e - end_span g, e)
      | (Some s, Some e) \<Rightarrow> (s, e))"

text \<open>Midnight of the first of the next month, and of the next year.\<close>

definition next_month :: "int \<Rightarrow> int" where
  "next_month s = (let t = dt_of_secs s in
     days_from_civil (dt_year t + dt_month t div 12) (dt_month t mod 12 + 1) 1 * 86400)"

definition next_year :: "int \<Rightarrow> int" where
  "next_year s = days_from_civil (dt_year (dt_of_secs s) + 1) 1 1 * 86400"

fun bucket_step :: "granularity \<Rightarrow> int \<Rightarrow> int" where
  "bucket_step Minutes s = s + 60"
| "bucket_step Hours s = s + 3600"
| "bucket_step Days s = s + 86400"
| "bucket_step Weeks s = s + 604800"
| "bucket_step Months s = next_month s"
| "bucket_step Years s = next_year s"

text \<open>The \<open>while current <= dt_end\<close> loop, with fuel; \<open>None\<close> when it runs out.\<close>

fun walk_range :: "granularity \<Rightarrow> int \<Rightarrow> nat \<Rightarrow> int \<Rightarrow> int list option" where
  "walk_range g dt_end 0 s = (if s \<le> dt_end then None else Some [])"
| "walk_range g dt_end (Suc n) s =
     (if s \<le> dt_end then map_option (Cons s) (walk_range g dt_end n (bucket_step g s)) else Some [])"

definition generate_slugs_for_range :: "string \<Rightarrow> int \<Rightarrow> int option \<Rightarrow> int option \<Rightarrow> granularity \<Rightarrow> string \<Rightarrow> nat
    \<Rightarrow> string list option" where
  "generate_slugs_for_range slug now dt_start dt_end g account fuel =
     (let (s, e) = get_date_range now dt_start dt_end g
      in map_option (map (\<lambda>t. generate_slug slug t g account)) (walk_range g e fuel s))"

text \<open>\<open>when.replace(year=when.year - 1)\<close> raises on 29 February.\<close>

definition previous_bucket :: "int \<Rightarrow> granularity \<Rightarrow> int res" where
  "previous_bucket when g =
     (let t = dt_of_secs when in
      case g of
        Minutes \<Rightarrow> Inr (when - 60)
      | Hours \<Rightarrow> Inr (when - 3600)
      | Days \<Rightarrow> Inr (when - 86400)
      | Weeks \<Rightarrow> Inr (when - 604800)
      | Months \<Rightarrow> Inr (dt_secs (t\<lparr>dt_day := 1\<rparr>) - 86400)
      | Years \<Rightarrow> if dt_day t > days_in_month (dt_year t - 1) (dt_month t)
                 then Inl (ValueError ''day is out of range for month'')
                 else Inr (dt_secs (t\<lparr>dt_year := dt_year t - 1\<rparr>)))"

definition month_abbr :: "int \<Rightarrow> string" where
  "month_abbr m = [''Jan'', ''Feb'', ''Mar'', ''Apr'', ''May'', ''Jun'', ''Jul'', ''Aug'', ''Sep'', ''Oct'',
     ''Nov'', ''Dec''] ! nat (m - 1)"

definition week_start_of :: "int \<Rightarrow> int \<Rightarrow> int" where
  "week_start_of year week =
     (let jan1 = days_from_civil year 1 1
      in jan1 + (if weekday_of_days jan1 = 6 then 0 else 6 - weekday_of_days jan1) + 7 * (week - 1))"

definition week_label_of :: "int \<Rightarrow> string" where
  "week_label_of ws =
     (let (sy, sm, sd) = civil_from_days ws; (ey, em, ed) = civil_from_days (ws + 6)
      in if sy \<noteq> ey then month_abbr sm @ '' '' @ show_int sd @ '', '' @ show_int sy @ '' - '' @ month_abbr em
           @ '' '' @ show_int ed @ '', '' @ show_int ey
         else if sm \<noteq> em then month_abbr sm @ '' '' @ show_int sd @ '' - '' @ month_abbr em @ '' '' @ show_int ed
         else month_abbr sm @ '' '' @ show_int sd @ ''-'' @ show_int ed)"

text \<open>Dates outside the years 1 to 9999 raise: the period is returned as it is.\<close>

definition format_week_label :: "string \<Rightarrow> string" where
  "format_week_label period =
     (case split_on CHR ''-'' period of
        [y, w] \<Rightarrow> (case (py_int y, py_int w) of
            (Some year, Some week) \<Rightarrow>
              if 1 \<le> year \<and> year \<le> 9999 \<and> days_from_civil 1 1 1 \<le> week_start_of year week
                \<and> week_start_of year week + 6 \<le> days_from_civil 9999 12 31
              then week_label_of (week_start_of year week) else period
          | _ \<Rightarrow> period)
      | _ \<Rightarrow> period)"

text \<open>The label of a bucket. A key without two colon-separated parts at its end raises.\<close>

definition period_from_dr_slug :: "string \<Rightarrow> string res" where
  "period_from_dr_slug slug =
     (let parts = split_on CHR '':'' slug in
      if length parts < 2 then Inl (ValueError ''list index out of range'')
      else (let gran = parts ! (length parts - 2); period = last parts in
        Inr (if gran = ''hr'' then drop (length period - 2) period @ '':00''
             else if gran = ''min'' then replace_char CHR ''-'' CHR '':'' (drop (length period - 5) period)
             else if gran = ''wk'' then format_week_label period
             else period)))"

section \<open>Recording and reading\<close>

definition add_metrics_slug :: "svc \<Rightarrow> string \<Rightarrow> string \<Rightarrow> unit wact" where
  "add_metrics_slug S slug account =
     seqs (sv_sadd S generate_accounts_key account) (sv_sadd S (generate_slugs_key account) slug)"

definition add_category_slug :: "svc \<Rightarrow> string \<Rightarrow> string \<Rightarrow> string \<Rightarrow> unit wact" where
  "add_category_slug S category slug account =
     seqs (sv_sadd S (generate_category_slug account category) slug)
          (sv_sadd S (generate_category_key account) category)"

definition counter_key :: "string \<Rightarrow> int \<Rightarrow> granularity \<Rightarrow> string \<Rightarrow> string" where
  "counter_key slug when g account = tkey account (generate_slug slug when g account)"

text \<open>\<open>record\<close>: the pipeline is built first, so an invalid granularity writes nothing.\<close>

definition record_metric :: "svc \<Rightarrow> string \<Rightarrow> int \<Rightarrow> int \<Rightarrow> string option \<Rightarrow> string \<Rightarrow> string \<Rightarrow> string
    \<Rightarrow> int option \<Rightarrow> bool \<Rightarrow> unit wact" where
  "record_metric S slug when count category account lo hi expires_at disable_expiry =
     (case generate_granularities lo hi of
        Inl e \<Rightarrow> throw e
      | Inr gs \<Rightarrow>
          seqs (case category of None \<Rightarrow> ret () | Some cat \<Rightarrow> add_category_slug S cat slug account)
         (seqs (add_metrics_slug S slug account)
               (for_each gs (\<lambda>g.
                  bind (sv_incrby S (counter_key slug when g account) count) (\<lambda>_.
                  if \<not> disable_expiry \<and> (expires_at \<noteq> None \<and> expires_at \<noteq> Some 0 \<or> expires_at = None \<and> expires_days g \<noteq> None)
                  then sv_expire S (counter_key slug when g account) else ret ())))))"

text \<open>\<open>int(v) if v is not None else 0\<close>\<close>

fun read_count :: "string option \<Rightarrow> int res" where
  "read_count None = Inr 0"
| "read_count (Some s) = (case py_int s of None \<Rightarrow> Inl (ValueError ''invalid literal for int()'') | Some i \<Rightarrow> Inr i)"

fun read_counts :: "string option list \<Rightarrow> int list res" where
  "read_counts [] = Inr []"
| "read_counts (v # vs) =
     (case read_count v of
        Inl e \<Rightarrow> Inl e
      | Inr i \<Rightarrow> (case read_counts vs of Inl e \<Rightarrow> Inl e | Inr is \<Rightarrow> Inr (i # is)))"

definition mget_counts :: "svc \<Rightarrow> string list \<Rightarrow> int list wact" where
  "mget_counts S ks =
     (if ks = [] then ret []
      else bind (sv_mget S ks) (\<lambda>vs. case read_counts vs of Inl e \<Rightarrow> throw e | Inr is \<Rightarrow> ret is))"

text \<open>\<open>fetch\<close> of one slug, without labels\<close>

definition fetch :: "svc \<Rightarrow> string \<Rightarrow> int \<Rightarrow> int option \<Rightarrow> int option \<Rightarrow> granularity \<Rightarrow> string \<Rightarrow> nat \<Rightarrow> int list option wact" where
  "fetch S slug now dt_start dt_end g account fuel =
     (case generate_slugs_for_range (if slug = [] then ''no_slugs_found'' else slug) now dt_start dt_end g account fuel of
        None \<Rightarrow> ret None
      | Some ks \<Rightarrow> bind (mget_counts S (map (tkey account) ks)) (\<lambda>is. ret (Some is)))"

definition fetch_values :: "svc \<Rightarrow> string list \<Rightarrow> int \<Rightarrow> granularity \<Rightarrow> string \<Rightarrow> (string \<times> int) list wact" where
  "fetch_values S slugs when g account =
     bind (mget_counts S (map (\<lambda>s. counter_key s when g account) slugs)) (\<lambda>is. ret (zip slugs is))"

text \<open>
  With \<open>with_delta\<close>: the values, those of the previous bucket, and per slug the difference with the
  percentage (of two values) when the previous one is positive. \<open>round(..., 2)\<close> is left exact.
\<close>

definition delta_entry :: "int \<Rightarrow> int \<Rightarrow> int \<times> rat option" where
  "delta_entry cur prev =
     (cur - prev, if prev > 0 then Some (of_int (cur - prev) / of_int prev * 100) else None)"

definition fetch_deltas :: "svc \<Rightarrow> string list \<Rightarrow> int \<Rightarrow> granularity \<Rightarrow> string \<Rightarrow>
    ((string \<times> int) list \<times> (string \<times> int) list \<times> (string \<times> int \<times> rat option) list) wact" where
  "fetch_deltas S slugs when g account =
     bind (fetch_values S slugs when g account) (\<lambda>data.
     case previous_bucket when g of
       Inl e \<Rightarrow> throw e
     | Inr pw \<Rightarrow> bind (fetch_values S slugs pw g account) (\<lambda>prev.
         ret (data, prev, map (\<lambda>((s, c), (_, p)). (s, delta_entry c p)) (zip data prev))))"

section \<open>Values, categories, accounts, permissions\<close>

definition set_value :: "svc \<Rightarrow> string \<Rightarrow> string \<Rightarrow> string \<Rightarrow> unit wact" where
  "set_value S slug value account = sv_set S (tkey account (generate_value_key slug account)) value"

definition get_value :: "svc \<Rightarrow> string \<Rightarrow> string \<Rightarrow> string option \<Rightarrow> string option wact" where
  "get_value S slug account dflt =
     bind (sv_get S (tkey account (generate_value_key slug account))) (\<lambda>v.
     ret (case v of None \<Rightarrow> dflt | Some x \<Rightarrow> Some x))"

definition get_category_slugs :: "svc \<Rightarrow> string \<Rightarrow> string \<Rightarrow> string list wact" where
  "get_category_slugs S category account = sv_smembers S (generate_category_slug account category)"

definition get_categories :: "svc \<Rightarrow> string \<Rightarrow> string list wact" where
  "get_categories S account = sv_smembers S (generate_category_key account)"

definition add_account :: "svc \<Rightarrow> string \<Rightarrow> unit wact" where
  "add_account S account = sv_sadd S generate_accounts_key account"

text \<open>Permissions as a list; a single one is stored, and returned, as a bare string.\<close>

definition set_perms :: "svc \<Rightarrow> string \<Rightarrow> string \<Rightarrow> string list option \<Rightarrow> unit wact" where
  "set_perms S base account perms =
     (case perms of
        None \<Rightarrow> sv_delete S (tkey account base)
      | Some ps \<Rightarrow> seqs (add_account S account) (sv_set S (tkey account base) (join_with '','' ps)))"

fun str_truthy_opt :: "string option \<Rightarrow> bool" where
  "str_truthy_opt None = False"
| "str_truthy_opt (Some s) = (s \<noteq> [])"

definition get_perms :: "svc \<Rightarrow> string \<Rightarrow> string \<Rightarrow> string list option wact" where
  "get_perms S base account =
     bind (sv_get S (tkey account base)) (\<lambda>v.
     ret (if str_truthy_opt v then Some (split_on CHR '','' (the v)) else None))"

definition delete_account :: "svc \<Rightarrow> string \<Rightarrow> nat wact" where
  "delete_account S account =
     seqs (set_perms S (generate_perm_view_key account) account None)
    (seqs (set_perms S (generate_perm_write_key account) account None)
          (sv_srem S generate_accounts_key account))"

definition list_accounts :: "svc \<Rightarrow> string list wact" where
  "list_accounts S = sv_smembers S generate_accounts_key"

definition get_account_slugs :: "svc \<Rightarrow> string \<Rightarrow> string list wact" where
  "get_account_slugs S account = sv_smembers S (generate_slugs_key account)"

definition delete_category :: "svc \<Rightarrow> string \<Rightarrow> string \<Rightarrow> unit wact" where
  "delete_category S category account =
     seqs (sv_del S (generate_category_slug account category))
          (bind (sv_srem S (generate_category_key account) category) (\<lambda>_. ret ()))"

text \<open>
  \<open>fetch\<close> of several slugs: a dict keyed by the part of the slug after its last colon, so a later
  slug with the same last part replaces an earlier one.
\<close>

definition trunc_slug :: "string \<Rightarrow> string" where
  "trunc_slug s = last (split_on CHR '':'' s)"

fun fetch_many :: "svc \<Rightarrow> string list \<Rightarrow> int \<Rightarrow> int option \<Rightarrow> int option \<Rightarrow> granularity \<Rightarrow> string \<Rightarrow> nat
    \<Rightarrow> (string \<Rightarrow> int list option) \<Rightarrow> (string \<Rightarrow> int list option) option wact" where
  "fetch_many S [] now dt_start dt_end g account fuel resp = ret (Some resp)"
| "fetch_many S (s # ss) now dt_start dt_end g account fuel resp =
     bind (fetch S s now dt_start dt_end g account fuel) (\<lambda>r.
     case r of
       None \<Rightarrow> ret None
     | Some values \<Rightarrow> fetch_many S ss now dt_start dt_end g account fuel (resp(trunc_slug s \<mapsto> values)))"

text \<open>An empty category is fetched as the single slug \<open>no_slugs_found\<close>: a list and no dict.\<close>

definition fetch_by_category :: "svc \<Rightarrow> string \<Rightarrow> int \<Rightarrow> int option \<Rightarrow> int option \<Rightarrow> granularity \<Rightarrow> string \<Rightarrow> nat
    \<Rightarrow> (int list + (string \<Rightarrow> int list option)) option wact" where
  "fetch_by_category S category now dt_start dt_end g account fuel =
     bind (get_category_slugs S category account) (\<lambda>slugs.
     if slugs = []
     then bind (fetch S [] now dt_start dt_end g account fuel) (\<lambda>r. ret (map_option Inl r))
     else bind (fetch_many S slugs now dt_start dt_end g account fuel Map.empty) (\<lambda>r. ret (map_option Inr r)))"

text \<open>
  \<open>delete_metrics_slug\<close>: the keys that \<open>scan_iter\<close> returns for the pattern \<open>prefix*\<close> (the slug holds
  no glob characters) are those of the key list that start with the prefix; how many were deleted.
\<close>

definition series_prefix :: "string \<Rightarrow> string \<Rightarrow> string" where
  "series_prefix slug account = tkey account (generate_slug_prefix slug account)"

definition delete_metrics_slug :: "svc \<Rightarrow> string list wact \<Rightarrow> string \<Rightarrow> string \<Rightarrow> nat wact" where
  "delete_metrics_slug S all_keys slug account =
     bind (sv_srem S (generate_slugs_key account) slug) (\<lambda>_.
     bind all_keys (\<lambda>ks.
     let doomed = filter (\<lambda>k. starts_with k (series_prefix slug account)) ks
     in seqs (for_each doomed (sv_delete S)) (ret (length doomed))))"

section \<open>Properties\<close>

lemma granularity_drop_take:
  "a \<le> b \<Longrightarrow> b \<le> 5 \<Longrightarrow> map granularity_index (drop a (take (b + 1) GRANULARITIES)) = [a..<b + 1]"
proof -
  have all: "map granularity_index GRANULARITIES = [0..<6]" by (simp add: GRANULARITIES_def upt_rec)
  assume "a \<le> b" "b \<le> 5"
  then show ?thesis by (simp add: drop_map [symmetric] take_map [symmetric] all)
qed

text \<open>
  \<open>generate_granularities\<close> yields the granularities from the minimum to the maximum, in order and
  without gaps, and raises exactly on unknown names or an empty range.
\<close>

theorem granularities_between:
  "case (parse_granularity lo, parse_granularity hi) of
     (Some a, Some b) \<Rightarrow>
       if granularity_index a \<le> granularity_index b
       then \<exists>gs. generate_granularities lo hi = Inr gs
         \<and> map granularity_index gs = [granularity_index a..<granularity_index b + 1]
       else \<exists>m. generate_granularities lo hi = Inl (ValueError m)
   | _ \<Rightarrow> \<exists>m. generate_granularities lo hi = Inl (ValueError m)"
proof -
  have "granularity_index g \<le> 5" for g by (cases g) simp_all
  then show ?thesis using granularity_drop_take
    by (auto simp: generate_granularities_def simp del: parse_granularity.simps split: option.splits)
qed

lemma tkey_mets: "tkey account (''mets:'' @ k) = ''{mets:'' @ account @ ''}:mets:'' @ k"
  by (simp add: tkey_def starts_with_def)

lemma counter_key_shape: "counter_key slug when g account =
    series_prefix slug account @ '':'' @ granularity_prefix g @ '':'' @ date_slug g (dt_of_secs when)"
  unfolding counter_key_def series_prefix_def generate_slug_def generate_slug_prefix_def append_assoc tkey_mets
  by simp

lemma granularity_prefix_inj:
  "granularity_prefix g @ '':'' @ x = granularity_prefix h @ '':'' @ y \<Longrightarrow> g = h"
  by (cases g; cases h) simp_all

lemma counter_key_inj: "counter_key slug when g account = counter_key slug when h account \<Longrightarrow> g = h"
  unfolding counter_key_shape same_append_eq append_assoc [symmetric]
  using granularity_prefix_inj by (metis append_assoc same_append_eq)

lemma counts_added:
  assumes "distinct gs" and "\<forall>g \<in> set gs. \<exists>v. read_count (w_strs w (key g)) = Inr v"
    and "inj_on key (set gs)"
  shows "\<exists>w'. for_each gs (\<lambda>g. bind (d_incrby (key g) n) (\<lambda>_. if P g then d_expire (key g) else ret ())) w = (Inr (), w')
    \<and> (\<forall>g \<in> set gs. \<exists>v. read_count (w_strs w (key g)) = Inr v \<and> read_count (w_strs w' (key g)) = Inr (v + n))
    \<and> (\<forall>k. k \<notin> key ` set gs \<longrightarrow> w_strs w' k = w_strs w k)"
  using assms
proof (induction gs arbitrary: w)
  case Nil
  then show ?case by (simp add: ret_def)
next
  case (Cons g gs)
  then obtain v where v: "read_count (w_strs w (key g)) = Inr v" by auto
  let ?w1 = "w\<lparr>w_strs := (w_strs w)(key g := Some (show_int (v + n)))\<rparr>"
  have incr: "d_incrby (key g) n w = (Inr (v + n), ?w1)"
    using v by (cases "w_strs w (key g)") (auto simp: d_incrby_def py_int_show_int split: option.splits)
  have other: "key h \<noteq> key g" if "h \<in> set gs" for h
    using that Cons.prems(1,3) by (auto simp: inj_on_def)
  have "\<forall>h \<in> set gs. \<exists>v. read_count (w_strs ?w1 (key h)) = Inr v" using Cons.prems(2) other by auto
  with Cons.IH [of ?w1] Cons.prems obtain w2 where w2:
    "for_each gs (\<lambda>g. bind (d_incrby (key g) n) (\<lambda>_. if P g then d_expire (key g) else ret ())) ?w1 = (Inr (), w2)"
    "\<forall>h \<in> set gs. \<exists>v. read_count (w_strs ?w1 (key h)) = Inr v \<and> read_count (w_strs w2 (key h)) = Inr (v + n)"
    "\<forall>k. k \<notin> key ` set gs \<longrightarrow> w_strs w2 k = w_strs ?w1 k"
    by auto
  have "key g \<notin> key ` set gs" using other by fastforce
  then have w2g: "w_strs w2 (key g) = Some (show_int (v + n))" using w2(3) by simp
  have run: "for_each (g # gs) (\<lambda>g. bind (d_incrby (key g) n) (\<lambda>_. if P g then d_expire (key g) else ret ())) w = (Inr (), w2)"
    using incr w2(1) by (simp add: seqs_def bind_def d_expire_def ret_def)
  have "read_count (w_strs w (key h)) = read_count (w_strs ?w1 (key h))" if "h \<in> set gs" for h
    using other [OF that] by simp
  then have all: "\<forall>h \<in> set (g # gs). \<exists>v. read_count (w_strs w (key h)) = Inr v \<and> read_count (w_strs w2 (key h)) = Inr (v + n)"
    using v w2(2) w2g by (simp add: py_int_show_int)
  have "\<forall>k. k \<notin> key ` set (g # gs) \<longrightarrow> w_strs w2 k = w_strs w k" using w2(3) by simp
  with run all show ?case by blast
qed

lemma distinct_granularities: "distinct GRANULARITIES"
  by (simp add: GRANULARITIES_def)

lemma granularities_distinct: "generate_granularities lo hi = Inr gs \<Longrightarrow> distinct gs"
  by (auto simp: generate_granularities_def distinct_granularities simp del: parse_granularity.simps
      intro!: distinct_drop distinct_take split: option.splits if_splits)

text \<open>
  Recording a metric adds its count to the counter of the current bucket at every granularity of
  the range, and to no other counter or value.
\<close>

theorem record_adds:
  assumes "generate_granularities lo hi = Inr gs"
    and "\<forall>g \<in> set gs. \<exists>v. read_count (w_strs w (counter_key slug when g account)) = Inr v"
  shows "\<exists>w'. record_metric documented slug when n cat account lo hi ea de w = (Inr (), w')
    \<and> (\<forall>g \<in> set gs. \<exists>v. read_count (w_strs w (counter_key slug when g account)) = Inr v
          \<and> read_count (w_strs w' (counter_key slug when g account)) = Inr (v + n))
    \<and> (\<forall>k. k \<notin> (\<lambda>g. counter_key slug when g account) ` set gs \<longrightarrow> w_strs w' k = w_strs w k)"
proof -
  let ?index = "seqs (case cat of None \<Rightarrow> ret () | Some cat \<Rightarrow> add_category_slug documented cat slug account)
      (add_metrics_slug documented slug account)"
  obtain w1 where w1: "?index w = (Inr (), w1)" "w_strs w1 = w_strs w"
    by (cases cat) (auto simp: act_defs add_category_slug_def add_metrics_slug_def d_sadd_def)
  have inj: "inj_on (\<lambda>g. counter_key slug when g account) (set gs)"
    by (rule inj_onI) (rule counter_key_inj)
  have run: "record_metric documented slug when n cat account lo hi ea de w =
      for_each gs (\<lambda>g. bind (d_incrby (counter_key slug when g account) n) (\<lambda>_.
        if \<not> de \<and> (ea \<noteq> None \<and> ea \<noteq> Some 0 \<or> ea = None \<and> expires_days g \<noteq> None)
        then d_expire (counter_key slug when g account) else ret ())) w1"
    using assms(1) w1(1) by (cases cat) (simp_all add: record_metric_def seqs_def bind_def ret_def cong: if_cong split: prod.splits sum.splits)
  show ?thesis unfolding run
    using counts_added [OF granularities_distinct [OF assms(1)], of w1 "\<lambda>g. counter_key slug when g account" n
        "\<lambda>g. \<not> de \<and> (ea \<noteq> None \<and> ea \<noteq> Some 0 \<or> ea = None \<and> expires_days g \<noteq> None)"] assms(2) inj w1(2)
    by simp
qed

theorem record_adds_witness:
  "\<exists>w'. record_metric documented ''login'' 0 3 None ''global'' ''hours'' ''days'' None False empty_world = (Inr (), w')
    \<and> read_count (w_strs w' (counter_key ''login'' 0 Days ''global'')) = Inr 3"
proof -
  have "generate_granularities ''hours'' ''days'' = Inr [Hours, Days]"
    by (simp add: generate_granularities_def GRANULARITIES_def)
  from record_adds [OF this, of empty_world "''login''" 0 "''global''" 3 None None False]
  show ?thesis by (auto simp: empty_world_def)
qed

section \<open>Ranges, labels and series\<close>

text \<open>The fixed width of a bucket; months and years have none.\<close>

fun bucket_width :: "granularity \<Rightarrow> int" where
  "bucket_width Minutes = 60"
| "bucket_width Hours = 3600"
| "bucket_width Days = 86400"
| "bucket_width Weeks = 604800"
| "bucket_width Months = 0"
| "bucket_width Years = 0"

lemma walk_fixed:
  assumes "bucket_width g > 0" and "e - s < int n * bucket_width g"
  shows "walk_range g e n s =
    Some (map (\<lambda>i. s + int i * bucket_width g) [0..<nat ((e - s) div bucket_width g + 1)])"
  using assms(2)
proof (induction n arbitrary: s)
  case 0
  then have "(e - s) div bucket_width g < 0" using assms(1) by (simp add: div_neg_pos_less0)
  with 0 show ?case by simp
next
  case (Suc n)
  let ?w = "bucket_width g"
  have step: "bucket_step g s = s + ?w" using assms(1) by (cases g) simp_all
  show ?case
  proof (cases "s \<le> e")
    case False
    then have "(e - s) div ?w < 0" using assms(1) by (simp add: div_neg_pos_less0)
    with False show ?thesis by simp
  next
    case True
    have d: "(e - s) div ?w = (e - (s + ?w)) div ?w + 1"
      using div_add_self2 [of ?w "e - (s + ?w)"] assms(1) by simp
    have nn: "0 \<le> (e - s) div ?w" using True assms(1) by (simp add: pos_imp_zdiv_nonneg_iff)
    have m: "nat ((e - s) div ?w + 1) = Suc (nat ((e - (s + ?w)) div ?w + 1))" using d nn by simp
    have "e - (s + ?w) < int n * ?w" using Suc.prems by (simp add: algebra_simps)
    from Suc.IH [OF this] True show ?thesis
      unfolding m walk_range.simps step
      by (simp add: map_upt_Suc algebra_simps del: upt_Suc)
  qed
qed

text \<open>
  Over a range \<open>s <= e\<close>, minutes, hours, days and weeks are walked one bucket width at a time from
  \<open>s\<close> itself, with the loop ending within \<open>(e - s) / width + 1\<close> turns. The bucket of \<open>e\<close> is reached
  exactly when the offset of \<open>s\<close> in its bucket does not exceed that of \<open>e\<close>.
\<close>

theorem range_buckets:
  assumes "bucket_width g > 0" and "s \<le> e" and "nat ((e - s) div bucket_width g) < fuel"
  shows "\<exists>ts. generate_slugs_for_range slug now (Some s) (Some e) g account fuel
        = Some (map (\<lambda>t. generate_slug slug t g account) ts)
    \<and> ts = map (\<lambda>i. s + int i * bucket_width g) [0..<nat ((e - s) div bucket_width g + 1)]
    \<and> (last ts div bucket_width g = e div bucket_width g \<longleftrightarrow> s mod bucket_width g \<le> e mod bucket_width g)"
proof -
  let ?w = "bucket_width g" and ?q = "(e - s) div bucket_width g"
  have nn: "0 \<le> ?q" using assms(1,2) by (simp add: pos_imp_zdiv_nonneg_iff)
  have "?q + 1 \<le> int fuel" using assms(3) nn by linarith
  moreover have "e - s < (?q + 1) * ?w"
    using assms(1) by (metis add.commute distrib_right div_mult_mod_eq mult_1 add_less_cancel_left pos_mod_bound)
  ultimately have "e - s < int fuel * ?w"
    using assms(1) by (meson less_le_trans mult_right_mono less_imp_le)
  then have walk: "walk_range g e fuel s = Some (map (\<lambda>i. s + int i * ?w) [0..<nat (?q + 1)])"
    by (rule walk_fixed [OF assms(1)])
  have "nat (?q + 1) = Suc (nat ?q)" using nn by simp
  then have last: "last (map (\<lambda>i. s + int i * ?w) [0..<nat (?q + 1)]) = s + ?q * ?w" using nn by simp
  have r: "0 \<le> s mod ?w" "s mod ?w < ?w" "0 \<le> e mod ?w" "e mod ?w < ?w" using assms(1) by simp_all
  have e: "e = e div ?w * ?w + e mod ?w" and s: "s = s div ?w * ?w + s mod ?w" by simp_all
  have "(s + ?q * ?w) div ?w = s div ?w + ?q" using assms(1) by simp
  moreover have "?q = e div ?w - s div ?w \<longleftrightarrow> s mod ?w \<le> e mod ?w"
  proof -
    have eq: "e - s = (e mod ?w - s mod ?w) + (e div ?w - s div ?w) * ?w"
      using e s by (simp add: algebra_simps)
    have "?q = (e mod ?w - s mod ?w) div ?w + (e div ?w - s div ?w)"
      unfolding eq using assms(1) by simp
    moreover have "(e mod ?w - s mod ?w) div ?w = 0 \<longleftrightarrow> s mod ?w \<le> e mod ?w"
    proof (cases "s mod ?w \<le> e mod ?w")
      case True
      with r have "0 \<le> e mod ?w - s mod ?w" "e mod ?w - s mod ?w < ?w" by linarith+
      with True show ?thesis by simp
    next
      case False
      then have "(e mod ?w - s mod ?w) div ?w < 0" using assms(1) by (intro div_neg_pos_less0) simp_all
      with False show ?thesis by simp
    qed
    ultimately show ?thesis by simp
  qed
  ultimately have "last (map (\<lambda>i. s + int i * ?w) [0..<nat (?q + 1)]) div ?w = e div ?w \<longleftrightarrow> s mod ?w \<le> e mod ?w"
    unfolding last by (simp add: algebra_simps)
  with walk show ?thesis by (simp add: generate_slugs_for_range_def get_date_range_def)
qed

text \<open>10:45 to 12:15: the hour of 12:15 is missed.\<close>

theorem range_buckets_witness:
  "\<exists>ts. generate_slugs_for_range ''login'' 0 (Some 38700) (Some 44100) Hours ''global'' 2
        = Some (map (\<lambda>t. generate_slug ''login'' t Hours ''global'') ts)
    \<and> ts = [38700, 42300] \<and> last ts div 3600 \<noteq> (44100 :: int) div 3600"
  using range_buckets [of Hours 38700 44100 2 "''login''" 0 "''global''"] by (auto simp: upt_rec)

lemma pad2: "0 \<le> i \<Longrightarrow> i < 100 \<Longrightarrow> length (pad 2 i) = 2"
proof -
  assume i: "0 \<le> i" "i < 100"
  show ?thesis
  proof (cases "i < 10")
    case True
    with i have "nat i < 10" by linarith
    then have "show_nat (nat i) = [digit_char (nat i)]" by (subst show_nat.simps) simp
    then show ?thesis by (simp add: pad_def)
  next
    case False
    with i have "nat i div 10 < 10" "\<not> nat i < 10" by linarith+
    then have "show_nat (nat i) = show_nat (nat i div 10) @ [digit_char (nat i mod 10)]"
      "show_nat (nat i div 10) = [digit_char (nat i div 10)]"
      by (subst show_nat.simps, simp)+
    then show ?thesis by (simp add: pad_def)
  qed
qed

lemma date_slug_no_colon: "CHR '':'' \<notin> set (date_slug g t)"
  by (cases g) (auto simp: iso_date_def dest!: pad_digits dest: is_digit_not)

lemma slug_parts:
  "\<exists>ps. split_on CHR '':'' (generate_slug slug when g account) = ps @ [granularity_prefix g, date_slug g (dt_of_secs when)]"
proof -
  have "CHR '':'' \<notin> set (granularity_prefix g)" by (cases g) simp_all
  then show ?thesis
    by (simp add: generate_slug_def split_on_append_sep split_on_no_sep date_slug_no_colon)
qed

lemma period_of_slug:
  "period_from_dr_slug (generate_slug slug when g account) =
     (let p = date_slug g (dt_of_secs when) in
      Inr (case g of Hours \<Rightarrow> drop (length p - 2) p @ '':00''
         | Minutes \<Rightarrow> replace_char CHR ''-'' CHR '':'' (drop (length p - 5) p)
         | Weeks \<Rightarrow> format_week_label p | _ \<Rightarrow> p))"
proof -
  obtain ps where "split_on CHR '':'' (generate_slug slug when g account) =
      ps @ [granularity_prefix g, date_slug g (dt_of_secs when)]" using slug_parts by blast
  then show ?thesis by (cases g) (simp_all add: period_from_dr_slug_def Let_def)
qed

lemma drop_append_exact: "length b = n \<Longrightarrow> drop (length (a @ b) - n) (a @ b) = b"
  by simp

text \<open>
  The label of a bucket's key, whatever the slug and account, is the wall-clock time of the bucket:
  \<open>HH:00\<close> for hours, \<open>HH:MM\<close> for minutes, and the date text itself for days, months and years.
\<close>

theorem bucket_label:
  "period_from_dr_slug (generate_slug slug when g account) =
     (let t = dt_of_secs when in Inr
      (case g of Hours \<Rightarrow> pad 2 (dt_hour t) @ '':00''
       | Minutes \<Rightarrow> pad 2 (dt_hour t) @ '':'' @ pad 2 (dt_minute t)
       | Weeks \<Rightarrow> format_week_label (pad 4 (dt_year t) @ ''-'' @ pad 2 (week_number t))
       | Days \<Rightarrow> iso_date t
       | Months \<Rightarrow> pad 4 (dt_year t) @ ''-'' @ pad 2 (dt_month t)
       | Years \<Rightarrow> pad 4 (dt_year t)))"
proof -
  let ?t = "dt_of_secs when"
  have hm: "length (pad 2 (dt_hour ?t)) = 2" "length (pad 2 (dt_minute ?t)) = 2"
    using dt_of_secs_time [of "when"] by (auto intro!: pad2)
  have nd: "CHR ''-'' \<notin> set (pad n i)" for n i by (auto dest!: pad_digits dest: is_digit_not)
  have hours: "drop (length (date_slug Hours ?t) - 2) (date_slug Hours ?t) = pad 2 (dt_hour ?t)"
    using hm by (simp add: drop_append)
  have minutes: "drop (length (date_slug Minutes ?t) - 5) (date_slug Minutes ?t)
      = pad 2 (dt_hour ?t) @ ''-'' @ pad 2 (dt_minute ?t)"
    using hm drop_append_exact [of "pad 2 (dt_hour ?t) @ ''-'' @ pad 2 (dt_minute ?t)" 5 "iso_date ?t @ ''T''"]
    by simp
  have rep: "replace_char CHR ''-'' CHR '':'' (pad 2 i @ ''-'' @ pad 2 j) = pad 2 i @ '':'' @ pad 2 j" for i j
    using replace_char_id [OF nd] by (simp add: replace_char_def)
  show ?thesis unfolding period_of_slug Let_def
    by (cases g) (simp_all only: granularity.case hours minutes rep, simp_all)
qed

lemma for_each_delete:
  "\<exists>w'. for_each ks d_delete w = (Inr (), w') \<and> (\<forall>k. w_strs w' k = (if k \<in> set ks then None else w_strs w k))"
proof (induction ks arbitrary: w)
  case Nil
  then show ?case by (simp add: ret_def)
next
  case (Cons k ks)
  obtain w1 where w1: "d_delete k w = (Inr (), w1)" "w_strs w1 = (w_strs w)(k := None)"
    by (simp add: d_delete_def)
  with Cons.IH [of w1] show ?case by (auto simp: seqs_def bind_def)
qed

text \<open>
  Deleting a metric removes every stored key under its prefix, so all its counters are gone; but
  the prefix has no separator at its end, so the counters of every slug that merely starts with the
  deleted one are removed as well. Keys outside the prefix keep their values.
\<close>

theorem delete_removes_series:
  assumes "\<forall>w'. w_strs w' = w_strs w \<longrightarrow> all_keys w' = (Inr ks, w')" and "{k. w_strs w k \<noteq> None} \<subseteq> set ks"
  shows "\<exists>n w'. delete_metrics_slug documented all_keys slug account w = (Inr n, w')
    \<and> (\<forall>when g. w_strs w' (counter_key slug when g account) = None)
    \<and> (\<forall>when g. w_strs w' (counter_key (slug @ rest) when g account) = None)
    \<and> (\<forall>k. \<not> starts_with k (series_prefix slug account) \<longrightarrow> w_strs w' k = w_strs w k)"
proof -
  obtain w1 n1 where w1: "d_srem (generate_slugs_key account) slug w = (Inr n1, w1)" "w_strs w1 = w_strs w"
    by (simp add: d_srem_def)
  have ks: "all_keys w1 = (Inr ks, w1)" using assms(1) w1(2) by blast
  let ?d = "filter (\<lambda>k. starts_with k (series_prefix slug account)) ks"
  obtain w2 where w2: "for_each ?d d_delete w1 = (Inr (), w2)"
    "\<forall>k. w_strs w2 k = (if k \<in> set ?d then None else w_strs w1 k)" using for_each_delete by blast
  have run: "delete_metrics_slug documented all_keys slug account w = (Inr (length ?d), w2)"
    using w1(1) ks w2(1) by (simp add: delete_metrics_slug_def bind_def seqs_def ret_def Let_def)
  have gone: "w_strs w2 k = None" if "starts_with k (series_prefix slug account)" for k
    using w2(2) assms(2) w1(2) that by (auto simp: subset_iff)
  have "series_prefix (slug @ rest) account = series_prefix slug account @ normalize_slug rest"
    unfolding series_prefix_def generate_slug_prefix_def normalize_slug_def replace_char_def map_append
      append_assoc tkey_mets by simp
  then have pre: "starts_with (counter_key slug t g account) (series_prefix slug account)"
    "starts_with (counter_key (slug @ rest) t g account) (series_prefix slug account)" for t g
    by (simp_all add: counter_key_shape starts_with_append)
  show ?thesis
    by (intro exI conjI allI impI, rule run) (use gone pre w2(2) w1(2) in auto)
qed

theorem delete_removes_series_witness:
  "let k = counter_key ''login_attempts'' 0 Days ''global'';
       w = empty_world\<lparr>w_strs := (\<lambda>_. None)(k := Some ''7'')\<rparr>
   in \<exists>n w'. delete_metrics_slug documented (\<lambda>w. (Inr [k], w)) ''login'' ''global'' w = (Inr n, w')
    \<and> w_strs w k = Some ''7'' \<and> w_strs w' k = None"
proof -
  let ?k = "counter_key ''login_attempts'' 0 Days ''global''"
  let ?w = "empty_world\<lparr>w_strs := (\<lambda>_. None)(?k := Some ''7'')\<rparr>"
  have hyps: "\<forall>w'. w_strs w' = w_strs ?w \<longrightarrow> (\<lambda>w. (Inr [?k], w)) w' = (Inr [?k] :: exn + string list, w')"
    "{k. w_strs ?w k \<noteq> None} \<subseteq> set [?k]"
    by auto
  from delete_removes_series [OF hyps, of "''login''" "''global''" "''_attempts''"] show ?thesis
    by (fastforce simp: Let_def)
qed

text \<open>
  Permissions that were set are what is read back, for the view key and the write key alike, as
  long as none of them holds a comma and they are not a single empty string.
\<close>

theorem perms_roundtrip:
  assumes "ps \<noteq> []" and "ps \<noteq> [[]]" and "\<forall>p \<in> set ps. CHR '','' \<notin> set p"
  shows "\<exists>w'. set_perms documented base account (Some ps) w = (Inr (), w')
    \<and> get_perms documented base account w' = (Inr (Some ps), w')
    \<and> account \<in> set (w_sets w' generate_accounts_key)"
proof -
  have "join_with '','' ps \<noteq> []" using assms(1,2) by (cases "('','', ps)" rule: join_with.cases) auto
  moreover have "split_on CHR '','' (join_with '','' ps) = ps" using assms(1,3) by (rule split_join)
  ultimately show ?thesis
    by (simp add: set_perms_def get_perms_def add_account_def act_defs call_defs)
qed

theorem perms_roundtrip_witness:
  "\<exists>w'. set_perms documented (generate_perm_view_key ''global'') ''global'' (Some [''view_metrics'', ''metrics'']) empty_world = (Inr (), w')
    \<and> get_perms documented (generate_perm_view_key ''global'') ''global'' w' = (Inr (Some [''view_metrics'', ''metrics'']), w')"
  using perms_roundtrip [of "[''view_metrics'', ''metrics'']" "generate_perm_view_key ''global''" "''global''" empty_world] by auto

end
