(* ===== verification/Rate_Limits.thy ===== *)
theory Rate_Limits
  imports Metrics
begin

text \<open>
  Rate limits (\<open>mojo/decorators/limits.py\<close>): fixed and sliding windows over Redis, the two decorators,
  the per-account counter, the global API throttle with its traffic accounting, the clearing of
  counters and the endpoint metrics. A request is the part of it that the code reads; the clock is
  read once per operation (\<open>now\<close>, seconds since 1970); \<open>repr\<close> is \<open>str\<close> on floats; \<open>local\<close> is the
  wall clock that \<open>metrics.record\<close> uses. Limits of API keys are integers.
\<close>

record group_ref =
  g_pk :: string

record api_key =
  ak_pk :: string
  ak_group :: "group_ref option"
  ak_limits :: "string \<Rightarrow> (int option \<times> int option) option"

record user_ref =
  u_pk :: string
  u_org :: "group_ref option"
  u_authenticated :: bool
  u_is_request_user :: bool

record request =
  rq_method :: string
  rq_path :: string
  rq_ip :: "string option"
  rq_remote_addr :: "string option"
  rq_duid :: "string option"
  rq_muid :: "string option"
  rq_api_key :: "api_key option"
  rq_group :: "group_ref option"
  rq_user :: "user_ref option"

record http_response =
  rs_status :: int
  rs_body :: json
  rs_retry_after :: "string option"

text \<open>The parameters of a decorator; \<open>None\<close> turns an optional check off.\<close>

record limit_cfg =
  lc_key :: string
  lc_ip_limit :: int
  lc_duid_limit :: "int option"
  lc_muid_limit :: "int option"
  lc_apikey_limit :: "int option"
  lc_ip_window :: int
  lc_duid_window :: int
  lc_muid_window :: int
  lc_apikey_window :: int
  lc_min_granularity :: string

text \<open>\<open>a or b\<close> on strings that may be \<open>None\<close>\<close>

fun str_or :: "string option \<Rightarrow> string option \<Rightarrow> string option" where
  "str_or (Some (c # s)) b = Some (c # s)"
| "str_or _ b = b"

definition client_ip :: "request \<Rightarrow> string" where
  "client_ip rq = the (str_or (rq_ip rq) (Some (case rq_remote_addr rq of None \<Rightarrow> ''unknown'' | Some a \<Rightarrow> a)))"

definition retry_after_fixed :: "int \<Rightarrow> int \<Rightarrow> rat \<Rightarrow> int" where
  "retry_after_fixed window_start window now = max 1 (window_start + window - \<lfloor>now\<rfloor>)"

definition retry_after_sliding :: "int \<Rightarrow> int" where
  "retry_after_sliding window = max 1 window"

definition too_many :: "int \<Rightarrow> http_response" where
  "too_many retry_after = \<lparr>rs_status = 429,
     rs_body = JObj [(''error'', JStr ''Rate limit exceeded''), (''code'', JInt 429), (''status'', JBool False)],
     rs_retry_after = Some (show_int retry_after)\<rparr>"

text \<open>\<open>_block\<close>: the metric and the incident once per key and address a minute, the 429 always.\<close>

definition block_request :: "svc \<Rightarrow> int \<Rightarrow> string \<Rightarrow> request \<Rightarrow> int \<Rightarrow> string \<Rightarrow> http_response wact" where
  "block_request S local key rq retry_after min_granularity =
     bind (catch (sv_set_nx S (''rlb:'' @ key @ '':'' @ client_ip rq) ''1'') (\<lambda>_. ret False)) (\<lambda>first_engage.
     seqs (if first_engage
           then attempt (seqs
             (record_metric S (''rate_limit:'' @ key) local 1 (Some ''rate_limits'') ''global'' min_granularity ''years'' None False)
             (sv_incident S (''rate_limit:'' @ key) ''api''))
           else ret ())
          (ret (too_many retry_after)))"

definition incr_fixed :: "svc \<Rightarrow> string \<Rightarrow> int wact" where
  "incr_fixed S k =
     bind (sv_incrby S k 1) (\<lambda>count.
     seqs (if count = 1 then sv_expire S k else ret ()) (ret count))"

definition check_sliding :: "svc \<Rightarrow> (rat \<Rightarrow> string) \<Rightarrow> string \<Rightarrow> int \<Rightarrow> int \<Rightarrow> rat \<Rightarrow> (int \<times> bool) wact" where
  "check_sliding S repr k window limit now =
     seqs (sv_zremrangebyscore S k (now - of_int window))
    (seqs (sv_zadd S k [(repr now, now)])
    (bind (sv_zcard S k) (\<lambda>count.
     seqs (sv_expire S k) (ret (int count, int count \<le> limit)))))"

text \<open>
  \<open>_get_apikey_limits\<close>: the group that is charged, the limit and the window in seconds. Without a key
  and without a group on the request the organisation of the user is charged.
\<close>

definition get_apikey_limits :: "request \<Rightarrow> string \<Rightarrow> int \<Rightarrow> int \<Rightarrow> (string \<times> int \<times> int) option" where
  "get_apikey_limits rq key default_limit default_window =
     (case rq_api_key rq of
        None \<Rightarrow>
          (case (rq_group rq, rq_user rq) of
             (None, Some u) \<Rightarrow> (case u_org u of None \<Rightarrow> None | Some g \<Rightarrow> Some (g_pk g, default_limit, default_window))
           | _ \<Rightarrow> None)
      | Some ak \<Rightarrow>
          (case ak_group ak of
             None \<Rightarrow> None
           | Some g \<Rightarrow>
               (case ak_limits ak key of
                  None \<Rightarrow> Some (g_pk g, default_limit, default_window)
                | Some (l, w) \<Rightarrow>
                    Some (g_pk g, (case l of None \<Rightarrow> default_limit | Some x \<Rightarrow> x),
                      (case w of None \<Rightarrow> default_window div 60 | Some x \<Rightarrow> x) * 60))))"

section \<open>The decorators\<close>

text \<open>One fixed-window check; a window of 0 divides by zero.\<close>

definition fixed_check :: "svc \<Rightarrow> int \<Rightarrow> string \<Rightarrow> request \<Rightarrow> string \<Rightarrow> string \<Rightarrow> int \<Rightarrow> int \<Rightarrow> string \<Rightarrow> rat \<Rightarrow> http_response option wact" where
  "fixed_check S local key rq dm value limit window min_granularity now =
     (if window = 0 then throw ZeroDivisionError
      else let start = \<lfloor>now\<rfloor> div window * window in
        bind (incr_fixed S (''rl:'' @ key @ '':'' @ dm @ '':'' @ value @ '':'' @ show_int start)) (\<lambda>count.
        if count > limit
        then bind (block_request S local key rq (retry_after_fixed start window now) min_granularity) (\<lambda>r. ret (Some r))
        else ret None))"

definition sliding_check :: "svc \<Rightarrow> (rat \<Rightarrow> string) \<Rightarrow> int \<Rightarrow> string \<Rightarrow> request \<Rightarrow> string \<Rightarrow> string \<Rightarrow> int \<Rightarrow> int \<Rightarrow> string \<Rightarrow> rat
    \<Rightarrow> http_response option wact" where
  "sliding_check S repr local key rq dm value limit window min_granularity now =
     bind (check_sliding S repr (''srl:'' @ key @ '':'' @ dm @ '':'' @ value) window limit now) (\<lambda>(_, allowed).
     if \<not> allowed
     then bind (block_request S local key rq (retry_after_sliding window) min_granularity) (\<lambda>r. ret (Some r))
     else ret None)"

text \<open>The checks in order; the first that blocks ends them.\<close>

fun first_block :: "http_response option wact list \<Rightarrow> http_response option wact" where
  "first_block [] = ret None"
| "first_block (c # cs) = bind c (\<lambda>r. case r of None \<Rightarrow> first_block cs | Some x \<Rightarrow> ret (Some x))"

text \<open>The checks a decorator makes, over the kind of window: dimension, value, limit, window.\<close>

definition limit_checks :: "limit_cfg \<Rightarrow> request \<Rightarrow> (string \<times> string \<times> int \<times> int) list" where
  "limit_checks c rq =
     [(''ip'', client_ip rq, lc_ip_limit c, lc_ip_window c)]
     @ (case (lc_duid_limit c, str_or (rq_duid rq) None) of
          (Some l, Some d) \<Rightarrow> [(''duid'', d, l, lc_duid_window c)] | _ \<Rightarrow> [])
     @ (case (lc_muid_limit c, str_or (rq_muid rq) None) of
          (Some l, Some m) \<Rightarrow> [(''muid'', m, l, lc_muid_window c)] | _ \<Rightarrow> [])
     @ (case lc_apikey_limit c of
          None \<Rightarrow> []
        | Some l0 \<Rightarrow> (case get_apikey_limits rq (lc_key c) l0 (lc_apikey_window c) of
             None \<Rightarrow> [] | Some (g, l, win) \<Rightarrow> [(''apikey'', g, l, win)]))"

text \<open>\<open>rate_limit\<close> and \<open>strict_rate_limit\<close>: a service that fails lets the request through.\<close>

definition rate_limit :: "svc \<Rightarrow> int \<Rightarrow> limit_cfg \<Rightarrow> rat \<Rightarrow> (request \<Rightarrow> http_response wact) \<Rightarrow> request \<Rightarrow> http_response wact" where
  "rate_limit S local c now func rq =
     bind (catch (first_block (map (\<lambda>(dm, value, limit, window).
             fixed_check S local (lc_key c) rq dm value limit window (lc_min_granularity c) now) (limit_checks c rq)))
           (\<lambda>_. ret None))
       (\<lambda>r. case r of Some resp \<Rightarrow> ret resp | None \<Rightarrow> func rq)"

definition strict_rate_limit :: "svc \<Rightarrow> (rat \<Rightarrow> string) \<Rightarrow> int \<Rightarrow> limit_cfg \<Rightarrow> rat \<Rightarrow> (request \<Rightarrow> http_response wact) \<Rightarrow> request
    \<Rightarrow> http_response wact" where
  "strict_rate_limit S repr local c now func rq =
     bind (catch (first_block (map (\<lambda>(dm, value, limit, window).
             sliding_check S repr local (lc_key c) rq dm value limit window (lc_min_granularity c) now) (limit_checks c rq)))
           (\<lambda>_. ret None))
       (\<lambda>r. case r of Some resp \<Rightarrow> ret resp | None \<Rightarrow> func rq)"

section \<open>Attempts on an account\<close>

definition account_key :: "string \<Rightarrow> string \<Rightarrow> string" where
  "account_key key account = ''srl:'' @ key @ '':account:'' @ account"

definition check_account_attempt :: "svc \<Rightarrow> (rat \<Rightarrow> string) \<Rightarrow> int \<Rightarrow> string \<Rightarrow> string \<Rightarrow> int \<Rightarrow> int \<Rightarrow> request option \<Rightarrow> string
    \<Rightarrow> rat \<Rightarrow> (int \<times> http_response option) wact" where
  "check_account_attempt S repr local key account limit window rq min_granularity now =
     catch (bind (check_sliding S repr (account_key key account) window limit now) (\<lambda>(count, allowed).
        case rq of
          Some q \<Rightarrow> if \<not> allowed
             then bind (block_request S local key q (retry_after_sliding window) min_granularity) (\<lambda>r. ret (count, Some r))
             else ret (count, None)
        | None \<Rightarrow> ret (count, None)))
      (\<lambda>_. ret (0, None))"

text \<open>The count and \<open>retry_after_seconds\<close>. A failing second read keeps the count of the first.\<close>

definition read_account_attempt :: "svc \<Rightarrow> string \<Rightarrow> string \<Rightarrow> int option \<Rightarrow> int option \<Rightarrow> rat \<Rightarrow> (int \<times> int) wact" where
  "read_account_attempt S key account limit window now =
     (case window of
        None \<Rightarrow> ret (0, 0)
      | Some win \<Rightarrow>
          let k = account_key key account; cutoff = now - of_int win in
          bind (catch (bind (sv_zcount S k cutoff) (\<lambda>n. ret (int n, True))) (\<lambda>_. ret (0, False))) (\<lambda>(count, ok).
          if ok \<and> (case limit of None \<Rightarrow> False | Some l \<Rightarrow> count \<ge> l)
          then catch (bind (sv_zfirst S k cutoff) (\<lambda>oldest. ret (count,
                 (case oldest of
                    None \<Rightarrow> max 1 win
                  | Some (_, score) \<Rightarrow>
                      let d = score + of_int win - now in max 1 ((if d < 0 then \<lceil>d\<rceil> else \<lfloor>d\<rfloor>) + 1)))))
               (\<lambda>_. ret (count, 0))
          else ret (count, 0)))"

section \<open>The API throttle\<close>

record throttle_cfg =
  tc_enabled :: bool
  tc_user_limit :: int
  tc_apikey_limit :: int
  tc_window :: int
  tc_exempt_prefixes :: "string list"
  tc_report_floor :: int
  tc_config_ttl :: int

definition TRAFFIC_BUCKET_SECONDS :: int where
  "TRAFFIC_BUCKET_SECONDS = 300"

text \<open>
  \<open>_get_throttle_config\<close>: the cached configuration until it is \<open>config_ttl\<close> seconds old; \<open>fresh\<close> reads
  the settings. The result is the configuration with the cache after the call.
\<close>

definition get_throttle_config :: "throttle_cfg \<Rightarrow> rat \<Rightarrow> (throttle_cfg \<times> rat) option \<Rightarrow> throttle_cfg \<times> (throttle_cfg \<times> rat) option" where
  "get_throttle_config fresh now cache =
     (case cache of
        Some (cfg, ts) \<Rightarrow>
          if now - ts < of_int (tc_config_ttl cfg) then (cfg, cache) else (fresh, Some (fresh, now))
      | None \<Rightarrow> (fresh, Some (fresh, now)))"

definition HTTP_METHODS :: "string list" where
  "HTTP_METHODS = [''GET'', ''POST'', ''PUT'', ''DELETE'', ''PATCH'', ''HEAD'', ''OPTIONS'']"

definition matches_prefix_rule :: "request \<Rightarrow> string \<Rightarrow> bool" where
  "matches_prefix_rule rq rule =
     (let (meth, path_prefix) =
        (case split_first CHR '':'' rule of
           Some (a, b) \<Rightarrow> if upper a \<in> set HTTP_METHODS then (Some (upper a), b) else (None, rule)
         | None \<Rightarrow> (None, rule))
      in starts_with (rq_path rq) path_prefix \<and> (meth = None \<or> meth = Some (rq_method rq)))"

definition resolve_throttle_identity :: "request \<Rightarrow> (string \<times> string) option" where
  "resolve_throttle_identity rq =
     (case rq_api_key rq of
        Some ak \<Rightarrow> Some (''apikey'', ak_pk ak)
      | None \<Rightarrow> (case rq_user rq of
           Some u \<Rightarrow> if u_is_request_user u \<and> u_authenticated u then Some (''user'', u_pk u) else None
         | None \<Rightarrow> None))"

definition throttle_key :: "string \<Rightarrow> string \<Rightarrow> int \<Rightarrow> string" where
  "throttle_key kind pk start = ''rl:api:'' @ kind @ '':'' @ pk @ '':'' @ show_int start"

definition traffic_total_key :: "rat \<Rightarrow> string" where
  "traffic_total_key now = ''traffic:total:'' @ show_int (\<lfloor>now\<rfloor> div TRAFFIC_BUCKET_SECONDS * TRAFFIC_BUCKET_SECONDS)"

definition throttle_block :: "svc \<Rightarrow> int \<Rightarrow> string \<Rightarrow> string \<Rightarrow> int \<Rightarrow> int \<Rightarrow> rat \<Rightarrow> http_response wact" where
  "throttle_block S local kind pk window_start window now =
     seqs (attempt (bind (sv_set_nx S (''rl:api:blocked:'' @ kind @ '':'' @ pk @ '':'' @ show_int window_start) ''1'') (\<lambda>first.
       if first
       then seqs (record_metric S ''rate_limit:api'' local 1 (Some ''rate_limits'') ''global'' ''hours'' ''years'' None False)
              (sv_incident S ''rate_limit:api'' ''api'')
       else ret ())))
     (ret (too_many (retry_after_fixed window_start window now)))"

text \<open>The identity's budget and window; a limit of 0 or less means no limit.\<close>

definition throttle_budget :: "throttle_cfg \<Rightarrow> request \<Rightarrow> string \<Rightarrow> int \<times> int" where
  "throttle_budget cfg rq kind =
     (let window = (if tc_window cfg = 0 then 60 else tc_window cfg) in
      if kind = ''apikey''
      then (case get_apikey_limits rq ''api'' (tc_apikey_limit cfg) window of
              None \<Rightarrow> (tc_apikey_limit cfg, window) | Some (_, l, win) \<Rightarrow> (l, win))
      else (tc_user_limit cfg, window))"

text \<open>The first request of a window credits the previous one to the traffic accounting.\<close>

definition flush_traffic :: "svc \<Rightarrow> throttle_cfg \<Rightarrow> request \<Rightarrow> string \<Rightarrow> string \<Rightarrow> int \<Rightarrow> int \<Rightarrow> unit wact" where
  "flush_traffic S cfg rq kind pk window_start window =
     bind (sv_get S (throttle_key kind pk (window_start - window))) (\<lambda>prev.
     case prev of
       None \<Rightarrow> ret ()
     | Some s \<Rightarrow>
         if s = [] then ret ()
         else (case py_int s of
           None \<Rightarrow> throw (ValueError ''invalid literal for int()'')
         | Some n \<Rightarrow>
             if n < tc_report_floor cfg then ret ()
             else let top = ''traffic:top:'' @ show_int ((window_start - window) div TRAFFIC_BUCKET_SECONDS * TRAFFIC_BUCKET_SECONDS) in
               seqs (sv_zincrby S top (of_int n) (kind @ '':'' @ pk))
              (seqs (case str_or (rq_ip rq) None of
                       None \<Rightarrow> ret () | Some ip \<Rightarrow> sv_zincrby S top (of_int n) (''ip:'' @ ip))
                    (sv_expire S top))))"

definition check_api_throttle :: "svc \<Rightarrow> int \<Rightarrow> throttle_cfg \<Rightarrow> rat \<Rightarrow> request \<Rightarrow> http_response option wact" where
  "check_api_throttle S local cfg now rq =
     catch
      (case resolve_throttle_identity rq of
         None \<Rightarrow> ret None
       | Some (kind, pk) \<Rightarrow>
           let (limit, window) = throttle_budget cfg rq kind in
           if limit \<le> 0 then ret None
           else if \<exists>p \<in> set (tc_exempt_prefixes cfg). matches_prefix_rule rq p then ret None
           else if window = 0 then throw ZeroDivisionError
           else let start = \<lfloor>now\<rfloor> div window * window; total = traffic_total_key now in
             bind (sv_incrby S (throttle_key kind pk start) 1) (\<lambda>count.
             seqs (sv_expire S (throttle_key kind pk start))
            (bind (sv_incrby S total 1) (\<lambda>_.
             seqs (sv_expire S total)
            (seqs (if count = 1 then flush_traffic S cfg rq kind pk start window else ret ())
             (if tc_enabled cfg \<and> count > limit
              then bind (throttle_block S local kind pk start window now) (\<lambda>r. ret (Some r))
              else ret None))))))
      (\<lambda>_. ret None)"

section \<open>Clearing, and endpoint metrics\<close>

text \<open>\<open>scan\<close> is \<open>scan_iter\<close>: the keys that match a glob pattern. The result is the number deleted.\<close>

definition delete_matching :: "svc \<Rightarrow> (string \<Rightarrow> string list wact) \<Rightarrow> string \<Rightarrow> nat wact" where
  "delete_matching S scan pattern =
     bind (scan pattern) (\<lambda>ks. seqs (for_each ks (sv_del S)) (ret (length ks)))"

fun delete_all_matching :: "svc \<Rightarrow> (string \<Rightarrow> string list wact) \<Rightarrow> string list \<Rightarrow> nat wact" where
  "delete_all_matching S scan [] = ret 0"
| "delete_all_matching S scan (p # ps) =
     bind (delete_matching S scan p) (\<lambda>n. bind (delete_all_matching S scan ps) (\<lambda>m. ret (n + m)))"

record clear_args =
  cl_ip :: "string option"
  cl_key :: "string option"
  cl_duid :: "string option"
  cl_muid :: "string option"
  cl_account_id :: "string option"
  cl_user_id :: "string option"
  cl_apikey_id :: "string option"

definition identity_patterns :: "string \<Rightarrow> string option \<Rightarrow> string list" where
  "identity_patterns kind ident =
     (case ident of None \<Rightarrow> []
      | Some i \<Rightarrow> [''rl:api:'' @ kind @ '':'' @ i @ '':*'', ''rl:api:blocked:'' @ kind @ '':'' @ i @ '':*''])"

definition ip_patterns :: "string option \<Rightarrow> string option \<Rightarrow> string list" where
  "ip_patterns ip key =
     (case str_or ip None of None \<Rightarrow> []
      | Some a \<Rightarrow>
          let k = (case str_or key None of None \<Rightarrow> ''*'' | Some k \<Rightarrow> k) in
          [''srl:'' @ k @ '':ip:'' @ a, ''rl:'' @ k @ '':ip:'' @ a @ '':*''])"

definition clear_rate_limits :: "svc \<Rightarrow> (string \<Rightarrow> string list wact) \<Rightarrow> clear_args \<Rightarrow> nat wact" where
  "clear_rate_limits S scan a =
     bind (delete_all_matching S scan
             (identity_patterns ''user'' (cl_user_id a) @ identity_patterns ''apikey'' (cl_apikey_id a)
              @ ip_patterns (cl_ip a) (cl_key a))) (\<lambda>n.
     bind (case (str_or (cl_duid a) None, str_or (cl_key a) None) of
             (Some d, Some k) \<Rightarrow> seqs (sv_del S (''srl:'' @ k @ '':duid:'' @ d))
               (seqs (sv_del S (''rl:'' @ k @ '':duid:'' @ d)) (ret 1))
           | _ \<Rightarrow> ret 0) (\<lambda>n1.
     bind (case (str_or (cl_muid a) None, str_or (cl_key a) None) of
             (Some m, Some k) \<Rightarrow> seqs (sv_del S (''srl:'' @ k @ '':muid:'' @ m))
               (bind (delete_matching S scan (''rl:'' @ k @ '':muid:'' @ m @ '':*'')) (\<lambda>x. ret (1 + x)))
           | _ \<Rightarrow> ret 0) (\<lambda>n2.
     bind (case (cl_account_id a, str_or (cl_key a) None) of
             (Some i, Some k) \<Rightarrow> seqs (sv_del S (account_key k i))
               (seqs (sv_del S (''rl:'' @ k @ '':account:'' @ i)) (ret 1))
           | _ \<Rightarrow> ret 0) (\<lambda>n3.
     ret (n + n1 + n2 + n3)))))"

text \<open>\<open>_get_dimension\<close>\<close>

definition get_dimension :: "request \<Rightarrow> string \<Rightarrow> string option" where
  "get_dimension rq dm =
     (if dm = ''ip'' then str_or (rq_ip rq) (rq_remote_addr rq)
      else if dm = ''duid'' then rq_duid rq
      else if dm = ''muid'' then str_or (rq_muid rq) None
      else if dm = ''api_key'' then map_option ak_pk (rq_api_key rq)
      else if dm = ''user'' then
        (case rq_api_key rq of
           Some ak \<Rightarrow> Some (''apikey-'' @ ak_pk ak)
         | None \<Rightarrow> (case rq_user rq of
              Some u \<Rightarrow> if u_authenticated u then Some (u_pk u) else None
            | None \<Rightarrow> None))
      else if dm = ''group'' then
        map_option g_pk
          (case rq_group rq of
             Some g \<Rightarrow> Some g
           | None \<Rightarrow> (case rq_api_key rq of
                Some ak \<Rightarrow> ak_group ak
              | None \<Rightarrow> (case rq_user rq of Some u \<Rightarrow> u_org u | None \<Rightarrow> None)))
      else None)"

definition metrics_group :: "request \<Rightarrow> group_ref option" where
  "metrics_group rq =
     (case rq_group rq of
        Some g \<Rightarrow> Some g
      | None \<Rightarrow> (case rq_api_key rq of
           Some ak \<Rightarrow> ak_group ak
         | None \<Rightarrow> (case rq_user rq of Some u \<Rightarrow> u_org u | None \<Rightarrow> None)))"

text \<open>The wrapper of \<open>endpoint_metrics\<close>; \<open>enabled\<close> is the setting \<open>API_METRICS\<close>.\<close>

definition endpoint_metrics :: "svc \<Rightarrow> bool \<Rightarrow> int \<Rightarrow> string \<Rightarrow> string list \<Rightarrow> string \<Rightarrow> string \<Rightarrow> (request \<Rightarrow> http_response wact)
    \<Rightarrow> request \<Rightarrow> http_response wact" where
  "endpoint_metrics S enabled local slug dims min_granularity category func rq =
     (if \<not> enabled then func rq
      else seqs (attempt (seqs
         (record_metric S slug local 1 (Some category) ''global'' min_granularity ''years'' None False)
         (for_each dims (\<lambda>dm.
            case str_or (get_dimension rq dm) None of
              None \<Rightarrow> ret ()
            | Some v \<Rightarrow> record_metric S (if dm = ''group'' then slug else slug @ '':'' @ dm @ '':'' @ v) local 1
                 (Some (category @ ''_'' @ dm))
                 (case metrics_group rq of None \<Rightarrow> ''global'' | Some g \<Rightarrow> ''group-'' @ g_pk g)
                 min_granularity ''years'' None False))))
        (func rq))"

section \<open>Properties\<close>

lemma record_metric_safe: "\<exists>x w'. record_metric documented slug when n cat account lo hi ea de w = (x, w')"
  by (metis surj_pair)

lemma block_returns: "\<exists>w'. block_request documented local key rq ra lo w = (Inr (too_many ra), w')"
proof -
  let ?m = "attempt (seqs (record_metric documented (''rate_limit:'' @ key) local 1 (Some ''rate_limits'') ''global'' lo ''years'' None False)
             (sv_incident documented (''rate_limit:'' @ key) ''api''))"
  show ?thesis
    by (auto simp: block_request_def bind_def catch_def ret_def seqs_attempt d_set_nx_def seqs_def [symmetric]
        split: option.splits)
qed

lemma retry_after_bounds:
  assumes "window > 0"
  shows "1 \<le> retry_after_fixed (\<lfloor>now\<rfloor> div window * window) window now"
    and "retry_after_fixed (\<lfloor>now\<rfloor> div window * window) window now \<le> window"
proof -
  have "\<lfloor>now\<rfloor> div window * window + window - \<lfloor>now\<rfloor> = window - \<lfloor>now\<rfloor> mod window"
    by (simp add: minus_mod_eq_div_mult [symmetric])
  moreover have "0 \<le> \<lfloor>now\<rfloor> mod window" "\<lfloor>now\<rfloor> mod window < window" using assms by simp_all
  ultimately show "1 \<le> retry_after_fixed (\<lfloor>now\<rfloor> div window * window) window now"
    and "retry_after_fixed (\<lfloor>now\<rfloor> div window * window) window now \<le> window"
    using assms by (simp_all add: retry_after_fixed_def)
qed

lemma incr_fixed_documented:
  assumes "read_count (w_strs w k) = Inr n"
  shows "incr_fixed documented k w = (Inr (n + 1), w\<lparr>w_strs := (w_strs w)(k := Some (show_int (n + 1)))\<rparr>)"
  using assms by (cases "w_strs w k") (auto simp: incr_fixed_def bind_def seqs_def ret_def d_incrby_def d_expire_def
      split: option.splits)

definition window_key :: "string \<Rightarrow> rat \<Rightarrow> string \<times> string \<times> int \<times> int \<Rightarrow> string" where
  "window_key key now = (\<lambda>(dm, v, limit, window).
     ''rl:'' @ key @ '':'' @ dm @ '':'' @ v @ '':'' @ show_int (\<lfloor>now\<rfloor> div window * window))"

lemma fixed_check_under:
  assumes "window > 0" and "read_count (w_strs w (window_key key now (dm, v, limit, window))) = Inr n" and "n < limit"
  shows "fixed_check documented local key rq dm v limit window lo now w =
    (Inr None, w\<lparr>w_strs := (w_strs w)(window_key key now (dm, v, limit, window) := Some (show_int (n + 1)))\<rparr>)"
  using incr_fixed_documented [OF assms(2)] assms
  by (simp add: fixed_check_def window_key_def bind_def ret_def Let_def)

lemma fixed_check_over:
  assumes "window > 0" and "read_count (w_strs w (window_key key now (dm, v, limit, window))) = Inr n" and "\<not> n < limit"
  shows "\<exists>ra w'. fixed_check documented local key rq dm v limit window lo now w = (Inr (Some (too_many ra)), w')
    \<and> 1 \<le> ra \<and> ra \<le> window"
proof -
  let ?w = "w\<lparr>w_strs := (w_strs w)(window_key key now (dm, v, limit, window) := Some (show_int (n + 1)))\<rparr>"
  let ?ra = "retry_after_fixed (\<lfloor>now\<rfloor> div window * window) window now"
  obtain w' where "block_request documented local key rq ?ra lo ?w = (Inr (too_many ?ra), w')"
    using block_returns by blast
  then have "fixed_check documented local key rq dm v limit window lo now w = (Inr (Some (too_many ?ra)), w')"
    using incr_fixed_documented [OF assms(2)] assms
    by (simp add: fixed_check_def window_key_def bind_def ret_def Let_def)
  with retry_after_bounds [OF assms(1)] show ?thesis by blast
qed

text \<open>What each counter of a list of checks reads before the request.\<close>

definition counters_ok :: "string \<Rightarrow> rat \<Rightarrow> world \<Rightarrow> (string \<times> string \<times> int \<times> int) list \<Rightarrow> bool" where
  "counters_ok key now w cs \<longleftrightarrow>
     (\<forall>c \<in> set cs. snd (snd (snd c)) > 0 \<and> (\<exists>n. read_count (w_strs w (window_key key now c)) = Inr n))"

definition under_limit :: "string \<Rightarrow> rat \<Rightarrow> world \<Rightarrow> string \<times> string \<times> int \<times> int \<Rightarrow> bool" where
  "under_limit key now w c \<longleftrightarrow>
     (\<exists>n. read_count (w_strs w (window_key key now c)) = Inr n \<and> n < fst (snd (snd c)))"

lemma first_block_fixed:
  assumes "counters_ok key now w cs" and "distinct (map (window_key key now) cs)"
  shows "\<exists>r w'. first_block (map (\<lambda>(dm, v, limit, window).
        fixed_check documented local key rq dm v limit window lo now) cs) w = (Inr r, w')
    \<and> (if \<forall>c \<in> set cs. under_limit key now w c
       then r = None \<and> w' = w\<lparr>w_strs := w_strs w'\<rparr>
         \<and> (\<forall>c \<in> set cs. \<forall>n. read_count (w_strs w (window_key key now c)) = Inr n \<longrightarrow>
              w_strs w' (window_key key now c) = Some (show_int (n + 1)))
         \<and> (\<forall>k. k \<notin> window_key key now ` set cs \<longrightarrow> w_strs w' k = w_strs w k)
       else \<exists>ra \<ge> 1. r = Some (too_many ra))"
  using assms
proof (induction cs arbitrary: w)
  case Nil
  then show ?case by (simp add: ret_def)
next
  case (Cons c cs)
  obtain dm v limit window where c: "c = (dm, v, limit, window)" by (cases c)
  from Cons.prems c obtain n where n: "window > 0" "read_count (w_strs w (window_key key now c)) = Inr n"
    by (auto simp: counters_ok_def)
  show ?case
  proof (cases "n < limit")
    case False
    with n c obtain ra w' where "fixed_check documented local key rq dm v limit window lo now w
        = (Inr (Some (too_many ra)), w')" "1 \<le> ra"
      using fixed_check_over by blast
    moreover have "\<not> under_limit key now w c" using n False c by (simp add: under_limit_def)
    ultimately show ?thesis using c by (auto simp: bind_def ret_def)
  next
    case True
    let ?k = "window_key key now c"
    let ?w1 = "w\<lparr>w_strs := (w_strs w)(?k := Some (show_int (n + 1)))\<rparr>"
    have step: "fixed_check documented local key rq dm v limit window lo now w = (Inr None, ?w1)"
      using fixed_check_under n True c by blast
    have other: "window_key key now d \<noteq> ?k" if "d \<in> set cs" for d
      using Cons.prems(2) that by (metis distinct.simps(2) image_eqI list.set_map list.simps(9))
    have same: "w_strs ?w1 (window_key key now d) = w_strs w (window_key key now d)" if "d \<in> set cs" for d
      using other [OF that] by simp
    have "counters_ok key now ?w1 cs" using Cons.prems(1) same by (simp add: counters_ok_def)
    from Cons.IH [OF this] Cons.prems(2) obtain r w' where IH:
      "first_block (map (\<lambda>(dm, v, limit, window).
          fixed_check documented local key rq dm v limit window lo now) cs) ?w1 = (Inr r, w')"
      "if \<forall>c \<in> set cs. under_limit key now ?w1 c
       then r = None \<and> w' = ?w1\<lparr>w_strs := w_strs w'\<rparr>
         \<and> (\<forall>c \<in> set cs. \<forall>n. read_count (w_strs ?w1 (window_key key now c)) = Inr n \<longrightarrow>
              w_strs w' (window_key key now c) = Some (show_int (n + 1)))
         \<and> (\<forall>k. k \<notin> window_key key now ` set cs \<longrightarrow> w_strs w' k = w_strs ?w1 k)
       else \<exists>ra \<ge> 1. r = Some (too_many ra)" by auto
    have run: "first_block (map (\<lambda>(dm, v, limit, window).
        fixed_check documented local key rq dm v limit window lo now) (c # cs)) w = (Inr r, w')"
      using step IH(1) c by (simp add: bind_def)
    have u: "under_limit key now w c" using n(2) True c by (simp add: under_limit_def)
    have us: "under_limit key now ?w1 d = under_limit key now w d" if "d \<in> set cs" for d
      using same [OF that] by (simp add: under_limit_def)
    show ?thesis
    proof (cases "\<forall>d \<in> set cs. under_limit key now w d")
      case False
      then show ?thesis using run IH(2) us by auto
    next
      case True
      then have r: "r = None" "w' = ?w1\<lparr>w_strs := w_strs w'\<rparr>"
        "\<forall>d \<in> set cs. \<forall>n. read_count (w_strs w (window_key key now d)) = Inr n \<longrightarrow>
              w_strs w' (window_key key now d) = Some (show_int (n + 1))"
        "\<forall>k. k \<notin> window_key key now ` set cs \<longrightarrow> w_strs w' k = w_strs ?w1 k"
        using IH(2) us same by auto
      have "?k \<notin> window_key key now ` set cs" using other by fastforce
      then have "w_strs w' ?k = Some (show_int (n + 1))" using r(4) by simp
      moreover have "w' = w\<lparr>w_strs := w_strs w'\<rparr>" using r(2) by simp
      ultimately show ?thesis using run r(1,3,4) u True n(2) by auto
    qed
  qed
qed


lemma limit_checks_dims: "distinct (map fst (limit_checks c rq)) \<and> set (map fst (limit_checks c rq)) \<subseteq> {''ip'', ''duid'', ''muid'', ''apikey''}"
  by (auto simp: limit_checks_def split: option.splits)

lemma window_key_dim:
  assumes "window_key key now c = window_key key now d" and "fst c \<in> {''ip'', ''duid'', ''muid'', ''apikey''}"
    and "fst d \<in> {''ip'', ''duid'', ''muid'', ''apikey''}"
  shows "fst c = fst d"
  using assms by (cases c; cases d) (auto simp: window_key_def)

lemma limit_checks_keys: "distinct (map (window_key key now) (limit_checks c rq))"
proof -
  have inj: "inj_on fst (set (limit_checks c rq))" and dist: "distinct (limit_checks c rq)"
    using limit_checks_dims [of c rq] by (simp_all add: distinct_map)
  have dims: "fst d \<in> {''ip'', ''duid'', ''muid'', ''apikey''}" if "d \<in> set (limit_checks c rq)" for d
    using limit_checks_dims [of c rq] that by (auto simp del: insert_iff)
  have "inj_on (window_key key now) (set (limit_checks c rq))"
  proof (rule inj_onI)
    fix d e assume de: "d \<in> set (limit_checks c rq)" "e \<in> set (limit_checks c rq)"
      "window_key key now d = window_key key now e"
    from window_key_dim [OF de(3) dims [OF de(1)] dims [OF de(2)]] show "d = e"
      using inj_onD [OF inj] de(1,2) by blast
  qed
  with dist show ?thesis by (simp add: distinct_map)
qed

text \<open>
  C30: with the counters readable, the fixed-window decorator lets a request through exactly when every
  dimension it checks is below its limit, and then the view runs in a world where each of their
  counters has grown by one and nothing else has changed; otherwise the view is not called and the
  answer is a 429 with a positive Retry-After.
\<close>

theorem rate_limit_budget:
  assumes "counters_ok (lc_key c) now w (limit_checks c rq)"
  shows "if \<forall>d \<in> set (limit_checks c rq). under_limit (lc_key c) now w d
    then \<exists>w'. rate_limit documented local c now func rq w = func rq w' \<and> w' = w\<lparr>w_strs := w_strs w'\<rparr>
      \<and> (\<forall>d \<in> set (limit_checks c rq). \<forall>n. read_count (w_strs w (window_key (lc_key c) now d)) = Inr n \<longrightarrow>
            w_strs w' (window_key (lc_key c) now d) = Some (show_int (n + 1)))
      \<and> (\<forall>k. k \<notin> window_key (lc_key c) now ` set (limit_checks c rq) \<longrightarrow> w_strs w' k = w_strs w k)
    else \<exists>ra w'. rate_limit documented local c now func rq w = (Inr (too_many ra), w') \<and> 1 \<le> ra"
proof -
  obtain r w' where b: "first_block (map (\<lambda>(dm, v, limit, window).
        fixed_check documented local (lc_key c) rq dm v limit window (lc_min_granularity c) now) (limit_checks c rq)) w
      = (Inr r, w')"
    "if \<forall>d \<in> set (limit_checks c rq). under_limit (lc_key c) now w d
       then r = None \<and> w' = w\<lparr>w_strs := w_strs w'\<rparr>
         \<and> (\<forall>d \<in> set (limit_checks c rq). \<forall>n. read_count (w_strs w (window_key (lc_key c) now d)) = Inr n \<longrightarrow>
              w_strs w' (window_key (lc_key c) now d) = Some (show_int (n + 1)))
         \<and> (\<forall>k. k \<notin> window_key (lc_key c) now ` set (limit_checks c rq) \<longrightarrow> w_strs w' k = w_strs w k)
       else \<exists>ra \<ge> 1. r = Some (too_many ra)"
    using first_block_fixed [OF assms limit_checks_keys] by blast
  have run: "rate_limit documented local c now func rq w = (case r of None \<Rightarrow> func rq | Some resp \<Rightarrow> ret resp) w'"
    using b(1) by (simp add: rate_limit_def bind_def catch_def split: option.split)
  show ?thesis
  proof (cases "\<forall>d \<in> set (limit_checks c rq). under_limit (lc_key c) now w d")
    case True
    with b(2) have r: "r = None" "w' = w\<lparr>w_strs := w_strs w'\<rparr>"
      "\<forall>d \<in> set (limit_checks c rq). \<forall>n. read_count (w_strs w (window_key (lc_key c) now d)) = Inr n \<longrightarrow>
              w_strs w' (window_key (lc_key c) now d) = Some (show_int (n + 1))"
      "\<forall>k. k \<notin> window_key (lc_key c) now ` set (limit_checks c rq) \<longrightarrow> w_strs w' k = w_strs w k"
      by simp_all
    have "rate_limit documented local c now func rq w = func rq w'" using run r(1) by simp
    with r(2-4) show ?thesis unfolding if_P [OF True] by blast
  next
    case False
    with b(2) obtain ra where "r = Some (too_many ra)" "1 \<le> ra" by (simp only: if_False) blast
    then show ?thesis unfolding if_not_P [OF False] using run by (auto simp: ret_def)
  qed
qed

definition ex_request :: request where
  "ex_request = \<lparr>rq_method = ''POST'', rq_path = ''/api/login'', rq_ip = Some ''10.0.0.1'', rq_remote_addr = None,
     rq_duid = Some ''d1'', rq_muid = None, rq_api_key = None, rq_group = None, rq_user = None\<rparr>"

definition ex_limits :: limit_cfg where
  "ex_limits = \<lparr>lc_key = ''login'', lc_ip_limit = 10, lc_duid_limit = Some 5, lc_muid_limit = None, lc_apikey_limit = None,
     lc_ip_window = 60, lc_duid_window = 300, lc_muid_window = 60, lc_apikey_window = 60, lc_min_granularity = ''hours''\<rparr>"

lemma ex_limit_checks: "limit_checks ex_limits ex_request = [(''ip'', ''10.0.0.1'', 10, 60), (''duid'', ''d1'', 5, 300)]"
  by (simp add: limit_checks_def ex_limits_def ex_request_def client_ip_def)

theorem rate_limit_budget_witness:
  "\<exists>w'. rate_limit documented 0 ex_limits 1000 (\<lambda>_. ret (too_many 0)) ex_request empty_world = ret (too_many 0) w'
    \<and> w_strs w' (window_key ''login'' 1000 (''duid'', ''d1'', 5, 300)) = Some (show_int 1)"
proof -
  have ok: "counters_ok (lc_key ex_limits) 1000 empty_world (limit_checks ex_limits ex_request)"
    by (simp add: counters_ok_def ex_limit_checks empty_world_def)
  have under: "\<forall>d \<in> set (limit_checks ex_limits ex_request). under_limit (lc_key ex_limits) 1000 empty_world d"
    by (simp add: under_limit_def ex_limit_checks empty_world_def)
  have key: "lc_key ex_limits = ''login''" by (simp add: ex_limits_def)
  from rate_limit_budget [OF ok, of 0 "\<lambda>_. ret (too_many 0)", unfolded if_P [OF under]] obtain w' where
    w': "rate_limit documented 0 ex_limits 1000 (\<lambda>_. ret (too_many 0)) ex_request empty_world = ret (too_many 0) w'"
    "\<forall>d \<in> set (limit_checks ex_limits ex_request). \<forall>n. read_count (w_strs empty_world (window_key (lc_key ex_limits) 1000 d)) = Inr n
      \<longrightarrow> w_strs w' (window_key (lc_key ex_limits) 1000 d) = Some (show_int (n + 1))" by blast
  from w'(2) have "w_strs w' (window_key ''login'' 1000 (''duid'', ''d1'', 5, 300)) = Some (show_int 1)"
    unfolding ex_limit_checks key by (simp add: empty_world_def)
  with w'(1) show ?thesis by blast
qed

subsection \<open>Sliding windows\<close>

text \<open>Checks of one key one after the other.\<close>

fun sliding_run :: "svc \<Rightarrow> (rat \<Rightarrow> string) \<Rightarrow> string \<Rightarrow> int \<Rightarrow> int \<Rightarrow> rat list \<Rightarrow> (int \<times> bool) list wact" where
  "sliding_run S repr k window limit [] = ret []"
| "sliding_run S repr k window limit (t # ts) =
     bind (check_sliding S repr k window limit t) (\<lambda>x. bind (sliding_run S repr k window limit ts) (\<lambda>xs. ret (x # xs)))"

lemma zs_ins_last: "\<forall>q \<in> set z. \<not> zs_less p q \<Longrightarrow> zs_ins p z = z @ [p]"
  by (induction z) auto

lemma zs_add_last:
  assumes "inj repr" and "\<forall>u \<in> set us. u < t"
  shows "zs_adds [(repr t, t)] (map (\<lambda>u. (repr u, u)) us) = map (\<lambda>u. (repr u, u)) (us @ [t])"
proof -
  have "zs_del (repr t) (map (\<lambda>u. (repr u, u)) us) = map (\<lambda>u. (repr u, u)) us"
    using assms by (fastforce simp: zs_del_def inj_def filter_id_conv)
  moreover have "zs_ins (repr t, t) (map (\<lambda>u. (repr u, u)) us) = map (\<lambda>u. (repr u, u)) us @ [(repr t, t)]"
    using assms(2) by (intro zs_ins_last) (fastforce simp: zs_less_def)
  ultimately show ?thesis by (simp add: zs_adds_def zs_add_def)
qed

lemma check_sliding_documented:
  assumes "inj repr" and "\<forall>u \<in> set us. u < t" and "w_zsets w k = map (\<lambda>u. (repr u, u)) us"
  shows "check_sliding documented repr k window limit t w =
    (let vs = filter (\<lambda>u. t - of_int window < u) us @ [t] in
     ((Inr (int (length vs), int (length vs) \<le> limit)),
      w\<lparr>w_zsets := (w_zsets w)(k := map (\<lambda>u. (repr u, u)) vs)\<rparr>))"
proof -
  let ?us = "filter (\<lambda>u. t - of_int window < u) us"
  have "filter (\<lambda>p. \<not> snd p \<le> t - of_int window) (map (\<lambda>u. (repr u, u)) us) = map (\<lambda>u. (repr u, u)) ?us"
    by (simp add: filter_map comp_def not_le)
  moreover have "zs_adds [(repr t, t)] (map (\<lambda>u. (repr u, u)) ?us) = map (\<lambda>u. (repr u, u)) (?us @ [t])"
    using assms(1,2) by (intro zs_add_last) auto
  ultimately show ?thesis using assms(3)
    by (simp add: check_sliding_def act_defs call_defs Let_def)
qed

definition hits_in_window :: "int \<Rightarrow> rat list \<Rightarrow> nat \<Rightarrow> nat" where
  "hits_in_window window ts i = length (filter (\<lambda>u. ts ! i - of_int window < u) (take (i + 1) ts))"

lemma sliding_run_from:
  assumes "inj repr" and "window > 0" and "sorted_wrt (<) (us @ ts)" and "w_zsets w k = map (\<lambda>u. (repr u, u)) (filter p us)"
    and "\<forall>t \<in> set ts. \<forall>u \<in> set us. t - of_int window < u \<longrightarrow> p u"
  shows "\<exists>w'. sliding_run documented repr k window limit ts w =
    (Inr (map (\<lambda>i. let n = int (hits_in_window window (us @ ts) i) in (n, n \<le> limit)) [length us..<length us + length ts]), w')"
  using assms(3-)
proof (induction ts arbitrary: us w p)
  case Nil
  then show ?case by (simp add: ret_def)
next
  case (Cons t ts)
  let ?vs = "filter (\<lambda>u. t - of_int window < u) (filter p us) @ [t]"
  let ?w1 = "w\<lparr>w_zsets := (w_zsets w)(k := map (\<lambda>u. (repr u, u)) ?vs)\<rparr>"
  have before: "\<forall>u \<in> set us. u < t" using Cons.prems(1) by (simp add: sorted_wrt_append)
  then have step: "check_sliding documented repr k window limit t w = (Inr (int (length ?vs), int (length ?vs) \<le> limit), ?w1)"
    using check_sliding_documented [OF assms(1), of "filter p us" t w k window limit] Cons.prems(2) by (simp add: Let_def)
  have vs: "?vs = filter (\<lambda>u. t - of_int window < u) (us @ [t])"
    using Cons.prems(3) assms(2) by (auto intro!: filter_cong)
  then have count: "length ?vs = hits_in_window window (us @ t # ts) (length us)"
    by (simp add: hits_in_window_def)
  have later: "\<forall>t' \<in> set ts. \<forall>u \<in> set (us @ [t]). t' - of_int window < u \<longrightarrow> t - of_int window < u"
    using Cons.prems(1) by (fastforce simp: sorted_wrt_append)
  have zs: "w_zsets ?w1 k = map (\<lambda>u. (repr u, u)) (filter (\<lambda>u. t - of_int window < u) (us @ [t]))"
    using vs by simp
  from Cons.prems(1) have "sorted_wrt (<) ((us @ [t]) @ ts)" by simp
  from Cons.IH [OF this zs later] obtain w' where
    "sliding_run documented repr k window limit ts ?w1 =
      (Inr (map (\<lambda>i. let n = int (hits_in_window window (us @ t # ts) i) in (n, n \<le> limit))
        [Suc (length us)..<Suc (length us) + length ts]), w')" by auto
  moreover have "[length us..<length us + length (t # ts)] = length us # [Suc (length us)..<Suc (length us) + length ts]"
    by (simp add: upt_conv_Cons del: upt_Suc)
  ultimately show ?case unfolding sliding_run.simps bind_def step count by (simp add: ret_def Let_def del: upt_Suc)
qed

text \<open>
  C29: for requests of one key at increasing times, the sliding window counts exactly the requests of
  the last \<open>window\<close> seconds, blocked ones and the present one included, and allows a request
  exactly when that number is at most the limit; so no window holds more allowed requests than it.
\<close>

theorem sliding_exact:
  assumes "inj repr" and "window > 0" and "sorted_wrt (<) ts" and "w_zsets w k = []"
  shows "\<exists>w'. sliding_run documented repr k window limit ts w =
      (Inr (map (\<lambda>i. let n = int (hits_in_window window ts i) in (n, n \<le> limit)) [0..<length ts]), w')"
  using sliding_run_from [of repr window "[]" ts w k "\<lambda>_. True" limit] assms by simp

lemma show_int_no_slash: "CHR ''/'' \<notin> set (show_int i)"
proof -
  have "CHR ''/'' \<notin> set (show_nat n)" for n using show_nat_digits [of "CHR ''/''" n] by (auto simp: is_digit_def)
  then show ?thesis by (simp add: show_int_def)
qed

theorem sliding_exact_witness:
  "\<exists>w'. sliding_run documented (\<lambda>t. show_int (fst (quotient_of t)) @ ''/'' @ show_int (snd (quotient_of t))) ''k'' 60 2 [0, 10, 20, 75]
     empty_world = (Inr [(1, True), (2, True), (3, False), (2, True)], w')"
proof -
  let ?r = "\<lambda>t. show_int (fst (quotient_of t)) @ ''/'' @ show_int (snd (quotient_of t))"
  have split: "split_on CHR ''/'' (show_int i @ ''/'' @ show_int j) = [show_int i, show_int j]" for i j
    by (simp add: split_on_append_sep split_on_no_sep show_int_no_slash)
  have "inj ?r"
  proof (rule injI)
    fix x y assume "?r x = ?r y"
    then have "split_on CHR ''/'' (?r x) = split_on CHR ''/'' (?r y)" by simp
    then have "quotient_of x = quotient_of y" unfolding split by (simp add: show_int_inj prod_eq_iff)
    then show "x = y" by (rule quotient_of_inject)
  qed
  from sliding_exact [OF this, of 60 "[0, 10, 20, 75]" empty_world "''k''" 2]
  show ?thesis by (simp add: hits_in_window_def empty_world_def upt_rec Let_def)
qed

subsection \<open>Failing services, and the throttle\<close>

text \<open>
  When Redis fails at the first command, no limiter turns a request away: both decorators call the
  view in the unchanged world, the account check answers with no block, the throttle lets the
  request pass, all without raising.
\<close>

theorem limits_fail_open:
  assumes "\<forall>k. sv_incrby S k 1 w = (Inl e, w)" and "\<forall>k x. sv_zremrangebyscore S k x w = (Inl e, w)"
  shows "rate_limit S local c now func rq w = func rq w
    \<and> strict_rate_limit S repr local c now func rq w = func rq w
    \<and> check_account_attempt S repr local key account limit window rq' lo now w = (Inr (0, None), w)
    \<and> check_api_throttle S local cfg now rq w = (Inr None, w)"
proof (intro conjI)
  obtain rest where cs: "limit_checks c rq = (''ip'', client_ip rq, lc_ip_limit c, lc_ip_window c) # rest"
    by (simp add: limit_checks_def)
  show "rate_limit S local c now func rq w = func rq w"
    unfolding rate_limit_def cs using assms(1)
    by (simp add: fixed_check_def incr_fixed_def act_defs Let_def)
  show "strict_rate_limit S repr local c now func rq w = func rq w"
    unfolding strict_rate_limit_def cs using assms(2)
    by (simp add: sliding_check_def check_sliding_def act_defs split_beta)
  show "check_account_attempt S repr local key account limit window rq' lo now w = (Inr (0, None), w)"
    using assms(2) by (simp add: check_account_attempt_def check_sliding_def act_defs)
  show "check_api_throttle S local cfg now rq w = (Inr None, w)"
    using assms(1) by (auto simp: check_api_throttle_def act_defs Let_def split: option.split prod.split)
qed

theorem limits_fail_open_witness:
  "rate_limit (documented\<lparr>sv_incrby := \<lambda>k n. redis_down k, sv_zremrangebyscore := \<lambda>k x. redis_down k\<rparr>) 0 ex_limits 1000
     (\<lambda>_. ret (too_many 0)) ex_request empty_world = (Inr (too_many 0), empty_world)"
proof -
  let ?S = "documented\<lparr>sv_incrby := \<lambda>k n. redis_down k, sv_zremrangebyscore := \<lambda>k x. redis_down k\<rparr>"
  have "\<forall>k. sv_incrby ?S k 1 empty_world = (Inl (ServiceError ''redis: connection refused''), empty_world)"
    "\<forall>k x. sv_zremrangebyscore ?S k x empty_world = (Inl (ServiceError ''redis: connection refused''), empty_world)"
    by (simp_all add: redis_down_def)
  from limits_fail_open [OF this, of 0 ex_limits 1000 "\<lambda>_. ret (too_many 0)" ex_request] show ?thesis by (simp add: ret_def)
qed

text \<open>
  An API key whose override leaves the window out, on an endpoint with a window below 60 seconds,
  is not limited at all by its key: the window rounds down to 0 minutes, the division by it raises,
  and the request goes through whatever the counters say.
\<close>

theorem short_window_override:
  fixes c :: limit_cfg
  assumes "lc_duid_limit c = None" and "lc_muid_limit c = None" and "lc_apikey_limit c = Some l0"
    and "0 \<le> lc_apikey_window c" and "lc_apikey_window c < 60"
    and "rq_api_key rq = Some ak" and "ak_group ak = Some g" and "ak_limits ak (lc_key c) = Some (l, None)"
    and "counters_ok (lc_key c) now w [(''ip'', client_ip rq, lc_ip_limit c, lc_ip_window c)]"
    and "under_limit (lc_key c) now w (''ip'', client_ip rq, lc_ip_limit c, lc_ip_window c)"
  shows "\<exists>w'. rate_limit documented local c now func rq w = func rq w'"
proof -
  let ?ip = "(''ip'', client_ip rq, lc_ip_limit c, lc_ip_window c)"
  from assms(9,10) obtain n where n: "lc_ip_window c > 0" "read_count (w_strs w (window_key (lc_key c) now ?ip)) = Inr n"
      "n < lc_ip_limit c" by (auto simp: counters_ok_def under_limit_def)
  have zero: "lc_apikey_window c div 60 = 0" using assms(4,5) by simp
  have cs: "\<exists>x. limit_checks c rq = [?ip, (''apikey'', g_pk g, x, 0)]"
    using assms(1-3,6-8) zero by (simp add: limit_checks_def get_apikey_limits_def)
  then show ?thesis using fixed_check_under [OF n]
    by (auto simp: rate_limit_def bind_def catch_def ret_def fixed_check_def [where window = 0] throw_def)
qed

definition ex_keyed :: request where
  "ex_keyed = ex_request\<lparr>rq_api_key := Some \<lparr>ak_pk = ''7'', ak_group = Some \<lparr>g_pk = ''3''\<rparr>, ak_limits = (\<lambda>_. Some (Some 1, None))\<rparr>\<rparr>"

theorem short_window_override_witness:
  "let c = ex_limits\<lparr>lc_duid_limit := None, lc_apikey_limit := Some 100, lc_apikey_window := 30\<rparr>;
       w = empty_world\<lparr>w_strs := (\<lambda>_. None)(window_key ''login'' 1000 (''apikey'', ''3'', 1, 30) := Some ''5000'')\<rparr>
   in \<exists>w'. rate_limit documented 0 c 1000 (\<lambda>_. ret (too_many 0)) ex_keyed w = (Inr (too_many 0), w')"
proof -
  let ?c = "ex_limits\<lparr>lc_duid_limit := None, lc_apikey_limit := Some 100, lc_apikey_window := 30\<rparr>"
  let ?w = "empty_world\<lparr>w_strs := (\<lambda>_. None)(window_key ''login'' 1000 (''apikey'', ''3'', 1, 30) := Some ''5000'')\<rparr>"
  let ?ak = "\<lparr>ak_pk = ''7'', ak_group = Some \<lparr>g_pk = ''3''\<rparr>, ak_limits = (\<lambda>_. Some (Some 1, None))\<rparr>"
  have "window_key ''login'' 1000 (''ip'', client_ip ex_keyed, 10, 60) \<noteq> window_key ''login'' 1000 (''apikey'', ''3'', 1, 30)"
    by (auto dest: window_key_dim)
  then have "counters_ok ''login'' 1000 ?w [(''ip'', client_ip ex_keyed, 10, 60)]"
    "under_limit ''login'' 1000 ?w (''ip'', client_ip ex_keyed, 10, 60)"
    by (simp_all add: counters_ok_def under_limit_def)
  then have "\<exists>w'. rate_limit documented 0 ?c 1000 (\<lambda>_. ret (too_many 0)) ex_keyed ?w = ret (too_many 0) w'"
    using short_window_override [of ?c 100 ex_keyed ?ak "\<lparr>g_pk = ''3''\<rparr>" "Some 1" 1000 ?w 0 "\<lambda>_. ret (too_many 0)"]
    by (simp add: ex_limits_def ex_keyed_def)
  then show ?thesis by (simp add: ret_def Let_def)
qed

lemma flush_documented:
  assumes "w_strs w (throttle_key kind pk (start - win)) = None
      \<or> (\<exists>s i. w_strs w (throttle_key kind pk (start - win)) = Some s \<and> py_int s = Some i)"
  shows "\<exists>w'. flush_traffic documented cfg rq kind pk start win w = (Inr (), w') \<and> w_strs w' = w_strs w"
  using assms by (auto simp: flush_traffic_def act_defs call_defs Let_def split: option.split)

lemma throttle_block_documented:
  "\<exists>w'. throttle_block documented local kind pk start win now w =
     (Inr (too_many (retry_after_fixed start win now)), w')"
  by (auto simp: throttle_block_def seqs_attempt ret_def)

text \<open>
  The global throttle, for an identity with a positive budget on a path that is not exempt:
  the counter of its window grows by one, enforcement on or off, and the request is refused exactly
  when enforcement is on and the budget was used up, with a Retry-After between 1 and the window.
\<close>

theorem throttle_enforced:
  assumes "resolve_throttle_identity rq = Some (kind, pk)" and "throttle_budget cfg rq kind = (limit, win)"
    and "0 < limit" and "0 < win" and "\<forall>p \<in> set (tc_exempt_prefixes cfg). \<not> matches_prefix_rule rq p"
    and "read_count (w_strs w (throttle_key kind pk (\<lfloor>now\<rfloor> div win * win))) = Inr n"
    and "\<exists>i. read_count (w_strs w (traffic_total_key now)) = Inr i"
    and "\<exists>i. read_count (w_strs w (throttle_key kind pk (\<lfloor>now\<rfloor> div win * win - win))) = Inr i"
  shows "\<exists>r w'. check_api_throttle documented local cfg now rq w = (Inr r, w')
    \<and> (tc_enabled cfg \<and> n \<ge> limit \<longrightarrow> (\<exists>ra. r = Some (too_many ra) \<and> 1 \<le> ra \<and> ra \<le> win))
    \<and> (\<not> (tc_enabled cfg \<and> n \<ge> limit) \<longrightarrow> r = None
         \<and> w_strs w' (throttle_key kind pk (\<lfloor>now\<rfloor> div win * win)) = Some (show_int (n + 1)))"
proof -
  let ?start = "\<lfloor>now\<rfloor> div win * win"
  let ?key = "throttle_key kind pk ?start" and ?prev = "throttle_key kind pk (?start - win)"
    and ?total = "traffic_total_key now"
  let ?w1 = "w\<lparr>w_strs := (w_strs w)(?key := Some (show_int (n + 1)))\<rparr>"
  from assms(7) obtain i where i: "read_count (w_strs w ?total) = Inr i" by blast
  let ?w2 = "?w1\<lparr>w_strs := (w_strs ?w1)(?total := Some (show_int (i + 1)))\<rparr>"
  have incr: "d_incrby k 1 v = (Inr (m + 1), v\<lparr>w_strs := (w_strs v)(k := Some (show_int (m + 1)))\<rparr>)"
    if "read_count (w_strs v k) = Inr m" for k v m
    using that by (cases "w_strs v k") (auto simp: d_incrby_def split: option.splits)
  have ne: "?total \<noteq> throttle_key kind pk s" "throttle_key kind pk s \<noteq> ?total" for s
    by (simp_all add: throttle_key_def traffic_total_key_def)
  have "read_count (w_strs ?w1 ?total) = Inr i" using i ne by simp
  then have step2: "d_incrby ?total 1 ?w1 = (Inr (i + 1), ?w2)" by (rule incr)
  have "?prev \<noteq> ?key" using assms(4) by (simp add: throttle_key_def show_int_inj)
  then have "w_strs ?w2 ?prev = w_strs w ?prev" using ne by auto
  with assms(8) have "w_strs ?w2 ?prev = None \<or> (\<exists>s i. w_strs ?w2 ?prev = Some s \<and> py_int s = Some i)"
    by (cases "w_strs w ?prev") (auto split: option.splits)
  from flush_documented [OF this] obtain w3 where w3:
    "(if n + 1 = 1 then flush_traffic documented cfg rq kind pk ?start win else ret ()) ?w2 = (Inr (), w3)"
    "w_strs w3 = w_strs ?w2" by (cases "n + 1 = 1") (auto simp: ret_def)
  have notex: "\<not> (\<exists>p \<in> set (tc_exempt_prefixes cfg). matches_prefix_rule rq p)" using assms(5) by blast
  have run: "check_api_throttle documented local cfg now rq w =
     catch (if tc_enabled cfg \<and> n + 1 > limit
              then bind (throttle_block documented local kind pk ?start win now) (\<lambda>r. ret (Some r))
              else ret None) (\<lambda>_. ret None) w3"
    using assms(1-4) notex incr [OF assms(6)] step2 w3(1)
    by (simp add: check_api_throttle_def Let_def catch_def bind_def seqs_def d_expire_def)
  show ?thesis
  proof (cases "tc_enabled cfg \<and> n \<ge> limit")
    case True
    obtain w4 where "throttle_block documented local kind pk ?start win now w3 =
        (Inr (too_many (retry_after_fixed ?start win now)), w4)" using throttle_block_documented by blast
    with run True have "check_api_throttle documented local cfg now rq w =
        (Inr (Some (too_many (retry_after_fixed ?start win now))), w4)" by (simp add: act_defs)
    with True retry_after_bounds [OF assms(4), of now] show ?thesis by blast
  next
    case False
    then have "check_api_throttle documented local cfg now rq w = (Inr None, w3)"
      using run by (auto simp: act_defs)
    moreover have "w_strs w3 ?key = Some (show_int (n + 1))" using w3(2) ne [of ?start] by auto
    ultimately show ?thesis using False by blast
  qed
qed

definition ex_throttle :: throttle_cfg where
  "ex_throttle = \<lparr>tc_enabled = True, tc_user_limit = 2, tc_apikey_limit = 600, tc_window = 60,
     tc_exempt_prefixes = [''POST:/api/health''], tc_report_floor = 60, tc_config_ttl = 30\<rparr>"

theorem throttle_enforced_witness:
  "let rq = ex_request\<lparr>rq_user := Some \<lparr>u_pk = ''9'', u_org = None, u_authenticated = True, u_is_request_user = True\<rparr>\<rparr>;
       w = empty_world\<lparr>w_strs := (\<lambda>_. None)(throttle_key ''user'' ''9'' 960 := Some (show_int 2))\<rparr>
   in \<exists>ra w'. check_api_throttle documented 0 ex_throttle 1000 rq w = (Inr (Some (too_many ra)), w') \<and> 1 \<le> ra \<and> ra \<le> 60"
proof -
  let ?rq = "ex_request\<lparr>rq_user := Some \<lparr>u_pk = ''9'', u_org = None, u_authenticated = True, u_is_request_user = True\<rparr>\<rparr>"
  let ?w = "empty_world\<lparr>w_strs := (\<lambda>_. None)(throttle_key ''user'' ''9'' 960 := Some (show_int 2))\<rparr>"
  have "resolve_throttle_identity ?rq = Some (''user'', ''9'')" "throttle_budget ex_throttle ?rq ''user'' = (2, 60)"
    by (simp_all add: resolve_throttle_identity_def throttle_budget_def ex_request_def ex_throttle_def)
  moreover have "\<forall>p \<in> set (tc_exempt_prefixes ex_throttle). \<not> matches_prefix_rule ?rq p"
    by (simp add: ex_throttle_def ex_request_def matches_prefix_rule_def split_first_def upper_def
        HTTP_METHODS_def starts_with_def is_lower_def)
  moreover have "read_count (w_strs ?w (throttle_key ''user'' ''9'' (\<lfloor>1000 :: rat\<rfloor> div 60 * 60))) = Inr 2"
    by (simp add: py_int_show_int)
  moreover have "traffic_total_key 1000 \<noteq> throttle_key ''user'' ''9'' 960"
    by (simp add: traffic_total_key_def throttle_key_def)
  moreover have "throttle_key ''user'' ''9'' (\<lfloor>1000 :: rat\<rfloor> div 60 * 60 - 60) \<noteq> throttle_key ''user'' ''9'' 960"
    by (simp add: throttle_key_def show_int_inj)
  ultimately have "\<exists>r w'. check_api_throttle documented 0 ex_throttle 1000 ?rq ?w = (Inr r, w')
    \<and> (tc_enabled ex_throttle \<and> (2::int) \<ge> 2 \<longrightarrow> (\<exists>ra. r = Some (too_many ra) \<and> 1 \<le> ra \<and> ra \<le> 60))"
    using throttle_enforced [of ?rq "''user''" "''9''" ex_throttle 2 60 ?w 1000 2 0] by fastforce
  then show ?thesis by (auto simp: ex_throttle_def Let_def)
qed

end
