(* ===== verification/Group_Tree.thy ===== *)
theory Group_Tree
  imports Py_Strings
begin

text \<open>
  The tenant tree (\<open>account/services/group_hierarchy.py\<close> and the hierarchy operations of
  \<open>account/models/group.py\<close>): the bounded walk to the root, effective activeness, parent changes,
  and the walks down that collect descendants. Groups are the rows of a table, an association list
  from primary keys; foreign keys point to rows of it. The main results: a parent change that passes
  validation keeps the table free of cycles, and the walks agree with the chains of parents.
\<close>

record group_row =
  gr_parent :: "int option"
  gr_active :: bool
  gr_kind :: string
  gr_uuid :: string
  gr_metadata :: "(string \<times> json) list"

type_synonym group_table = "(int \<times> group_row) list"

section \<open>Up the tree\<close>

definition MAX_ANCESTOR_DEPTH :: nat where
  "MAX_ANCESTOR_DEPTH = 32"

text \<open>
  The loop of \<open>ancestors\<close>: \<open>seen\<close> holds the keys visited, \<open>n\<close> how many more may be appended. A
  parent that is no row cannot occur under the foreign key; the locked walk reports it.
\<close>

fun ancestors_from :: "group_table \<Rightarrow> int option \<Rightarrow> int list \<Rightarrow> nat \<Rightarrow> int list res" where
  "ancestors_from T None seen n = Inr []"
| "ancestors_from T (Some g) seen n =
     (if g \<in> set seen then Inl (ValueError ''Group hierarchy contains a cycle'')
      else case n of
        0 \<Rightarrow> Inl (ValueError ''Group hierarchy exceeds the supported depth'')
      | Suc m \<Rightarrow>
          (case map_of T g of
             None \<Rightarrow> Inl (ValueError ''Group hierarchy contains a missing parent'')
           | Some r \<Rightarrow>
               (case ancestors_from T (gr_parent r) (g # seen) m of
                  Inl e \<Rightarrow> Inl e
                | Inr ch \<Rightarrow> Inr (g # ch))))"

definition parent_of :: "group_table \<Rightarrow> int \<Rightarrow> int option" where
  "parent_of T g = (case map_of T g of None \<Rightarrow> None | Some r \<Rightarrow> gr_parent r)"

definition ancestors :: "group_table \<Rightarrow> int \<Rightarrow> bool \<Rightarrow> nat \<Rightarrow> int list res" where
  "ancestors T g include_self max_depth =
     ancestors_from T (if include_self then Some g else parent_of T g) [] max_depth"

definition row_active :: "group_table \<Rightarrow> int \<Rightarrow> bool" where
  "row_active T g = (case map_of T g of None \<Rightarrow> False | Some r \<Rightarrow> gr_active r)"

text \<open>\<open>max_depth\<close> is 8 unless a caller passes another bound.\<close>

definition is_effectively_active :: "group_table \<Rightarrow> nat \<Rightarrow> int \<Rightarrow> bool" where
  "is_effectively_active T max_depth g =
     (case ancestors T g True (max_depth + 1) of
        Inl _ \<Rightarrow> False
      | Inr ch \<Rightarrow> list_all (row_active T) ch)"

definition get_active :: "group_table \<Rightarrow> int \<Rightarrow> int option" where
  "get_active T g = (if row_active T g \<and> is_effectively_active T 8 g then Some g else None)"

text \<open>\<open>validate_parent\<close> of a saved group\<close>

definition validate_parent :: "group_table \<Rightarrow> int \<Rightarrow> int option \<Rightarrow> unit res" where
  "validate_parent T g parent =
     (case parent of
        None \<Rightarrow> Inr ()
      | Some p \<Rightarrow>
          if p = g then Inl (ValueError ''A group cannot be its own parent'')
          else (case ancestors T p True MAX_ANCESTOR_DEPTH of
             Inl e \<Rightarrow> Inl e
           | Inr ch \<Rightarrow> if g \<in> set ch then Inl (ValueError ''A group cannot be parented beneath its descendant'')
                       else Inr ()))"

definition set_parent :: "group_table \<Rightarrow> int \<Rightarrow> int option \<Rightarrow> group_table" where
  "set_parent T g parent = map (\<lambda>(i, r). (i, if i = g then r\<lparr>gr_parent := parent\<rparr> else r)) T"

text \<open>\<open>Group.save\<close> of a row whose parent field may have changed; the other fields are left out.\<close>

definition save_parent :: "group_table \<Rightarrow> int \<Rightarrow> int option \<Rightarrow> group_table res" where
  "save_parent T g parent =
     (if parent_of T g = parent then Inr T
      else case validate_parent T g parent of
        Inl e \<Rightarrow> Inl e
      | Inr _ \<Rightarrow> Inr (set_parent T g parent))"

definition is_child_of :: "group_table \<Rightarrow> int \<Rightarrow> int \<Rightarrow> bool res" where
  "is_child_of T g parent =
     (case ancestors T g False MAX_ANCESTOR_DEPTH of Inl e \<Rightarrow> Inl e | Inr ch \<Rightarrow> Inr (parent \<in> set ch))"

definition is_parent_of :: "group_table \<Rightarrow> int \<Rightarrow> int \<Rightarrow> bool res" where
  "is_parent_of T g child = is_child_of T child g"

text \<open>\<open>kind = None\<close> or the empty string asks for the root.\<close>

definition get_top_most_parent :: "group_table \<Rightarrow> int \<Rightarrow> string \<Rightarrow> int res" where
  "get_top_most_parent T g kind =
     (case ancestors T g True MAX_ANCESTOR_DEPTH of
        Inl e \<Rightarrow> Inl e
      | Inr ch \<Rightarrow>
          (case find (\<lambda>x. kind \<noteq> [] \<and> map_option gr_kind (map_of T x) = Some kind) (tl ch) of
             Some x \<Rightarrow> Inr x
           | None \<Rightarrow> Inr (last ch)))"

definition get_metadata_value :: "group_table \<Rightarrow> int \<Rightarrow> string \<Rightarrow> json option res" where
  "get_metadata_value T g key =
     (case ancestors T g True MAX_ANCESTOR_DEPTH of
        Inl e \<Rightarrow> Inl e
      | Inr ch \<Rightarrow>
          Inr (case find (\<lambda>x. \<exists>r v. map_of T x = Some r \<and> map_of (gr_metadata r) key = Some v) ch of
                 None \<Rightarrow> None
               | Some x \<Rightarrow> (case map_of T x of None \<Rightarrow> None | Some r \<Rightarrow> map_of (gr_metadata r) key)))"

section \<open>Down the tree\<close>

text \<open>The children of a group among the rows that satisfy a filter.\<close>

definition children :: "group_table \<Rightarrow> (group_row \<Rightarrow> bool) \<Rightarrow> int \<Rightarrow> int list" where
  "children T f g = map fst (filter (\<lambda>(i, r). gr_parent r = Some g \<and> f r) T)"

text \<open>
  The walks of \<open>_get_all_child_ids\<close>, \<open>ApiKey.get_groups\<close> and \<open>_effectively_active_group_ids\<close>: a stack
  and the keys seen so far. Their results are used as sets.
\<close>

function walk_down :: "group_table \<Rightarrow> (group_row \<Rightarrow> bool) \<Rightarrow> int list \<Rightarrow> int list \<Rightarrow> int list" where
  "walk_down T f [] seen = seen"
| "walk_down T f (g # stack) seen =
     (if g \<in> set seen then walk_down T f stack seen
      else walk_down T f (children T f g @ stack) (g # seen))"
  by pat_completeness auto

termination
proof (relation "measures [\<lambda>(T, f, stack, seen). card ((set (map fst T) \<union> set stack) - set seen),
      \<lambda>(T, f, stack, seen). length stack]", goal_cases)
  case 1
  then show ?case by simp
next
  case (2 T f g stack seen)
  have "card ((set (map fst T) \<union> set stack) - set seen) \<le> card ((set (map fst T) \<union> set (g # stack)) - set seen)"
    by (intro card_mono) auto
  then show ?case by auto
next
  case (3 T f g stack seen)
  have "set (children T f g) \<subseteq> set (map fst T)" by (auto simp: children_def)
  then have "(set (map fst T) \<union> set (children T f g @ stack)) - set (g # seen)
      \<subset> (set (map fst T) \<union> set (g # stack)) - set seen" using 3 by auto
  then show ?case by (auto intro!: psubset_card_mono)
qed

definition get_all_child_ids :: "group_table \<Rightarrow> int \<Rightarrow> int list" where
  "get_all_child_ids T g = walk_down T (\<lambda>_. True) (children T (\<lambda>_. True) g) []"

definition get_children :: "group_table \<Rightarrow> int \<Rightarrow> bool option \<Rightarrow> string \<Rightarrow> int list" where
  "get_children T g active kind =
     filter (\<lambda>x. \<exists>r. map_of T x = Some r \<and> (active = None \<or> active = Some (gr_active r))
                \<and> (kind = [] \<or> gr_kind r = kind)) (get_all_child_ids T g)"

text \<open>The active subtrees under roots that were verified before; a root that is itself inactive stays.\<close>

definition active_subtree :: "group_table \<Rightarrow> int list \<Rightarrow> int list" where
  "active_subtree T roots = walk_down T gr_active roots []"

text \<open>\<open>_effectively_active_group_ids\<close> of a user's direct groups\<close>

definition effectively_active_group_ids :: "group_table \<Rightarrow> int list \<Rightarrow> bool \<Rightarrow> int list" where
  "effectively_active_group_ids T direct include_children =
     (let roots = filter (\<lambda>g. row_active T g \<and> is_effectively_active T 8 g) direct
      in if \<not> include_children then roots else active_subtree T roots)"

section \<open>Chains of parents\<close>

fun is_chain :: "group_table \<Rightarrow> int option \<Rightarrow> int list \<Rightarrow> bool" where
  "is_chain T None [] = True"
| "is_chain T (Some g) (x # xs) = (x = g \<and> (\<exists>r. map_of T g = Some r \<and> is_chain T (gr_parent r) xs))"
| "is_chain T _ _ = False"

lemma is_chain_None [simp]: "is_chain T None ch \<longleftrightarrow> ch = []"
  by (cases ch) simp_all

lemma is_chain_SomeE:
  assumes "is_chain T (Some g) ch"
  obtains xs r where "ch = g # xs" "map_of T g = Some r" "is_chain T (gr_parent r) xs"
  using assms by (cases ch) auto

lemma chain_unique: "is_chain T x ch \<Longrightarrow> is_chain T x ch' \<Longrightarrow> ch = ch'"
proof (induction T x ch arbitrary: ch' rule: is_chain.induct)
  case (2 T g x xs)
  then show ?case by (elim is_chain_SomeE) auto
qed simp_all

lemma chain_suffix: "is_chain T x (pre @ g # post) \<Longrightarrow> is_chain T (Some g) (g # post)"
proof (induction pre arbitrary: x)
  case Nil
  then show ?case by (cases x) auto
next
  case (Cons y pre)
  then show ?case by (cases x) auto
qed

lemma chain_distinct: "is_chain T x ch \<Longrightarrow> distinct ch"
proof (induction ch arbitrary: x)
  case (Cons g xs)
  then obtain r where r: "x = Some g" "map_of T g = Some r" "is_chain T (gr_parent r) xs" by (cases x) auto
  have "g \<notin> set xs"
  proof
    assume "g \<in> set xs"
    then obtain pre post where xs: "xs = pre @ g # post" by (meson split_list)
    have "is_chain T (Some g) (g # post)" using r(3) unfolding xs by (rule chain_suffix)
    moreover have "is_chain T (Some g) (g # xs)" using Cons.prems r(1) by simp
    ultimately have "g # xs = g # post" by (metis chain_unique)
    then show False using xs by simp
  qed
  with Cons.IH [OF r(3)] show ?case by simp
qed simp

lemma ancestors_from_chain:
  "ancestors_from T x seen n = Inr ch \<longleftrightarrow> is_chain T x ch \<and> set ch \<inter> set seen = {} \<and> length ch \<le> n"
proof (induction T x seen n arbitrary: ch rule: ancestors_from.induct)
  case (2 T g seen n)
  show ?case
  proof (cases "g \<in> set seen \<or> n = 0 \<or> map_of T g = None")
    case True
    then show ?thesis by (cases ch) (auto split: nat.split option.split)
  next
    case False
    then obtain m r where m: "n = Suc m" "map_of T g = Some r" "g \<notin> set seen" by (cases n) auto
    show ?thesis
    proof (cases ch)
      case Nil
      with m show ?thesis by (auto split: sum.split)
    next
      case (Cons y ys)
      have "ancestors_from T (Some g) seen n = Inr ch \<longleftrightarrow>
          y = g \<and> ancestors_from T (gr_parent r) (g # seen) m = Inr ys"
        using m Cons by (auto split: sum.split)
      also have "\<dots> \<longleftrightarrow> y = g \<and> is_chain T (gr_parent r) ys \<and> set ys \<inter> set (g # seen) = {} \<and> length ys \<le> m"
        using "2.IH" [OF m(3,1,2)] by simp
      also have "\<dots> \<longleftrightarrow> is_chain T (Some g) ch \<and> set ch \<inter> set seen = {} \<and> length ch \<le> n"
        using m Cons chain_distinct [of T "Some g" ch] by auto
      finally show ?thesis .
    qed
  qed
qed auto

lemma ancestors_self: "ancestors T g True n = Inr ch \<longleftrightarrow> is_chain T (Some g) ch \<and> length ch \<le> n"
  by (simp add: ancestors_def ancestors_from_chain del: ancestors_from.simps)

lemma effectively_active_chain:
  "is_effectively_active T n g \<longleftrightarrow>
   (\<exists>ch. is_chain T (Some g) ch \<and> length ch \<le> n + 1 \<and> (\<forall>x \<in> set ch. row_active T x))"
proof (cases "ancestors T g True (n + 1)")
  case (Inl e)
  then show ?thesis using ancestors_self [of T g "n + 1"] by (auto simp: is_effectively_active_def)
next
  case (Inr ch)
  then have "is_effectively_active T n g \<longleftrightarrow> (\<forall>x \<in> set ch. row_active T x)"
    by (simp add: is_effectively_active_def list_all_iff)
  moreover have "is_chain T (Some g) ch" "length ch \<le> n + 1" using Inr ancestors_self by auto
  ultimately show ?thesis using chain_unique by blast
qed

lemma effectively_active_row: "is_effectively_active T n g \<Longrightarrow> row_active T g"
  by (auto simp: effectively_active_chain elim: is_chain_SomeE)

lemma is_child_of_chain:
  assumes "is_child_of T g p = Inr True"
  obtains ch where "is_chain T (Some g) ch" "p \<in> set ch"
proof -
  from assms obtain xs where xs: "is_chain T (parent_of T g) xs" "p \<in> set xs"
    by (auto simp: is_child_of_def ancestors_def ancestors_from_chain split: sum.splits)
  then have "parent_of T g \<noteq> None" by (cases "parent_of T g") auto
  then obtain r where "map_of T g = Some r" "parent_of T g = gr_parent r"
    by (auto simp: parent_of_def split: option.splits)
  with xs that [of "g # xs"] show thesis by simp
qed

text \<open>The chain lies in the tenant of \<open>p\<close>: \<open>p\<close> is on it and every group of it is active.\<close>

definition in_active_tree :: "group_table \<Rightarrow> int \<Rightarrow> int \<Rightarrow> bool" where
  "in_active_tree T p g \<longleftrightarrow> (\<exists>ch. is_chain T (Some g) ch \<and> p \<in> set ch \<and> (\<forall>x \<in> set ch. row_active T x))"

section \<open>Walks down\<close>

lemma walk_down_props:
  assumes "\<forall>x \<in> set seen. set (children T f x) \<subseteq> set seen \<union> set stack"
  shows "set stack \<union> set seen \<subseteq> set (walk_down T f stack seen)
    \<and> (\<forall>x \<in> set (walk_down T f stack seen). set (children T f x) \<subseteq> set (walk_down T f stack seen))"
  using assms
proof (induction T f stack seen rule: walk_down.induct)
  case (2 T f g stack seen)
  show ?case
  proof (cases "g \<in> set seen")
    case True
    have "\<forall>x \<in> set seen. set (children T f x) \<subseteq> set seen \<union> set stack" using "2.prems" True by fastforce
    from "2.IH"(1) [OF True this] True show ?thesis by auto
  next
    case False
    have "\<forall>x \<in> set (g # seen). set (children T f x) \<subseteq> set (g # seen) \<union> set (children T f g @ stack)"
      using "2.prems" by fastforce
    from "2.IH"(2) [OF False this] False show ?thesis by auto
  qed
qed simp

lemma walk_down_only:
  assumes "\<forall>x \<in> set stack \<union> set seen. P x" and "\<And>x y. P x \<Longrightarrow> y \<in> set (children T f x) \<Longrightarrow> P y"
  shows "\<forall>x \<in> set (walk_down T f stack seen). P x"
  using assms
proof (induction T f stack seen rule: walk_down.induct)
  case (2 T f g stack seen)
  show ?case
  proof (cases "g \<in> set seen")
    case True
    with "2.IH"(1) [OF True] "2.prems" show ?thesis by simp
  next
    case False
    have "\<forall>x \<in> set (children T f g @ stack) \<union> set (g # seen). P x" using "2.prems" by auto
    from "2.IH"(2) [OF False this "2.prems"(2)] False show ?thesis by simp
  qed
qed simp

lemma child_row: "distinct (map fst T) \<Longrightarrow> y \<in> set (children T f x) \<longleftrightarrow>
    (\<exists>r. map_of T y = Some r \<and> gr_parent r = Some x \<and> f r)"
  by (auto simp: children_def map_of_eq_Some_iff image_iff Bex_def)

lemma active_subtree_sound:
  assumes "distinct (map fst T)" and "in_active_tree T k k" and "x \<in> set (active_subtree T [k])"
  shows "in_active_tree T k x"
proof -
  have "\<forall>x \<in> set (active_subtree T [k]). in_active_tree T k x"
    unfolding active_subtree_def
  proof (rule walk_down_only)
    show "\<forall>x \<in> set [k] \<union> set []. in_active_tree T k x" using assms(2) by simp
  next
    fix x y assume x: "in_active_tree T k x" and "y \<in> set (children T gr_active x)"
    then obtain r where r: "map_of T y = Some r" "gr_parent r = Some x" "gr_active r"
      using child_row [OF assms(1)] by blast
    from x obtain ch where "is_chain T (Some x) ch" "k \<in> set ch" "\<forall>z \<in> set ch. row_active T z"
      by (auto simp: in_active_tree_def)
    with r have "is_chain T (Some y) (y # ch)" "k \<in> set (y # ch)" "\<forall>z \<in> set (y # ch). row_active T z"
      by (auto simp: row_active_def)
    then show "in_active_tree T k y" unfolding in_active_tree_def by blast
  qed
  with assms(3) show ?thesis by blast
qed

lemma active_subtree_complete:
  assumes "distinct (map fst T)" and "in_active_tree T k g"
  shows "g \<in> set (active_subtree T [k])"
proof -
  have closed: "\<forall>x \<in> set (active_subtree T [k]). set (children T gr_active x) \<subseteq> set (active_subtree T [k])"
    and k: "k \<in> set (active_subtree T [k])"
    using walk_down_props [of "[]" T gr_active "[k]"] by (auto simp: active_subtree_def)
  from assms(2) obtain ch where "is_chain T (Some g) ch" "k \<in> set ch" "\<forall>x \<in> set ch. row_active T x"
    by (auto simp: in_active_tree_def)
  then show ?thesis
  proof (induction ch arbitrary: g)
    case (Cons y ys)
    then obtain r where r: "y = g" "map_of T g = Some r" "is_chain T (gr_parent r) ys" by auto
    show ?case
    proof (cases "k = g")
      case True
      with k show ?thesis by simp
    next
      case False
      with Cons.prems(2) r(1) have "k \<in> set ys" by simp
      moreover from this r(3) obtain p where p: "gr_parent r = Some p" by (cases "gr_parent r") auto
      ultimately have "p \<in> set (active_subtree T [k])" using Cons.IH [of p] Cons.prems(3) r(3) by simp
      moreover have "g \<in> set (children T gr_active p)"
        using child_row [OF assms(1)] r(1,2) p Cons.prems(3) by (auto simp: row_active_def)
      ultimately show ?thesis using closed by blast
    qed
  qed simp
qed

section \<open>Parent changes\<close>

text \<open>Every group has a chain of parents that ends: no cycles, no dangling parents.\<close>

definition rooted :: "group_table \<Rightarrow> bool" where
  "rooted T \<longleftrightarrow> (\<forall>g \<in> fst ` set T. \<exists>ch. is_chain T (Some g) ch)"

lemma map_of_set_parent:
  "map_of (set_parent T g p) i = map_option (\<lambda>r. if i = g then r\<lparr>gr_parent := p\<rparr> else r) (map_of T i)"
  by (induction T) (auto simp: set_parent_def)

lemma chain_set_parent:
  "g \<notin> set ch \<Longrightarrow> is_chain (set_parent T g p) x ch \<longleftrightarrow> is_chain T x ch"
proof (induction ch arbitrary: x)
  case (Cons y ys)
  then show ?case by (cases x) (auto simp: map_of_set_parent)
next
  case Nil
  then show ?case by (cases x) auto
qed

lemma chain_through:
  assumes "is_chain T x (pre @ g # post)" and "g \<notin> set pre" and "is_chain T p tail" and "g \<notin> set tail"
  shows "is_chain (set_parent T g p) x (pre @ g # tail)"
  using assms(1,2)
proof (induction pre arbitrary: x)
  case Nil
  then obtain r where "x = Some g" "map_of T g = Some r" by (cases x) auto
  then show ?case using assms(3,4) by (simp add: map_of_set_parent chain_set_parent)
next
  case (Cons y pre)
  then show ?case by (cases x) (auto simp: map_of_set_parent)
qed

text \<open>
  C22: a parent change that is saved keeps the tree rooted: every group still reaches a root in
  finitely many steps, so there are no cycles, whatever the change was.
\<close>

theorem save_parent_keeps_rooted:
  assumes "rooted T" and "save_parent T g parent = Inr T'"
  shows "rooted T'"
proof (cases "T' = T")
  case False
  then have ok: "validate_parent T g parent = Inr ()" "T' = set_parent T g parent"
    using assms(2) by (auto simp: save_parent_def split: if_splits sum.splits)
  have "\<exists>tail. is_chain T parent tail \<and> g \<notin> set tail"
  proof (cases parent)
    case (Some p)
    with ok(1) obtain ch where "ancestors T p True MAX_ANCESTOR_DEPTH = Inr ch" "g \<notin> set ch"
      by (auto simp: validate_parent_def split: if_splits sum.splits)
    then show ?thesis using Some by (auto simp: ancestors_self)
  qed simp
  then obtain tail where tail: "is_chain T parent tail" "g \<notin> set tail" by blast
  show ?thesis unfolding rooted_def
  proof
    fix i assume "i \<in> fst ` set T'"
    then have "i \<in> fst ` set T" unfolding ok(2) by (force simp: set_parent_def)
    with assms(1) obtain ch where ch: "is_chain T (Some i) ch" by (auto simp: rooted_def)
    show "\<exists>ch. is_chain T' (Some i) ch"
    proof (cases "g \<in> set ch")
      case False
      with ch show ?thesis unfolding ok(2) using chain_set_parent by blast
    next
      case True
      then obtain pre post where "ch = pre @ g # post" "g \<notin> set pre" by (meson split_list_first)
      with ch tail show ?thesis unfolding ok(2) using chain_through by blast
    qed
  qed
qed (use assms in simp)

definition ex_group :: "int option \<Rightarrow> group_row" where
  "ex_group p = \<lparr>gr_parent = p, gr_active = True, gr_kind = ''org'', gr_uuid = [], gr_metadata = []\<rparr>"

text \<open>A line of groups \<open>0, ..., n - 1\<close>, each the parent of the next, and one more group.\<close>

definition ex_line :: "int \<Rightarrow> group_table" where
  "ex_line n = map (\<lambda>i. (i, ex_group (if i = 0 then None else Some (i - 1)))) [0..n - 1] @ [(100, ex_group None)]"

theorem save_parent_keeps_rooted_witness:
  "\<exists>T'. save_parent (ex_line 3) 100 (Some 2) = Inr T' \<and> rooted T' \<and> save_parent T' 0 (Some 100) = Inl (ValueError ''A group cannot be parented beneath its descendant'')"
proof -
  let ?T = "ex_line 3"
  have T: "?T = [(0, ex_group None), (1, ex_group (Some 0)), (2, ex_group (Some 1)), (100, ex_group None)]"
    by (simp add: ex_line_def upto.simps)
  have "is_chain ?T (Some 0) [0]" "is_chain ?T (Some 1) [1, 0]" "is_chain ?T (Some 2) [2, 1, 0]" "is_chain ?T (Some 100) [100]"
    by (simp_all add: T ex_group_def)
  then have "\<forall>i \<in> {0, 1, 2, 100}. \<exists>ch. is_chain ?T (Some i) ch" by blast
  then have r: "rooted ?T" by (simp add: rooted_def T)
  have saved: "save_parent ?T 100 (Some 2) = Inr (set_parent ?T 100 (Some 2))" unfolding T by code_simp
  have "save_parent (set_parent ?T 100 (Some 2)) 0 (Some 100) = Inl (ValueError ''A group cannot be parented beneath its descendant'')"
    unfolding T by code_simp
  with save_parent_keeps_rooted [OF r saved] saved show ?thesis by blast
qed

text \<open>
  A group with more than eight ancestors is never effectively active, however active it and all of
  them are, although a parent change accepts chains of up to 32 groups above the new parent's child.
\<close>

theorem deep_group_dark:
  assumes "is_chain T (Some g) ch" and "length ch > 9"
  shows "\<not> is_effectively_active T 8 g"
  using assms chain_unique by (fastforce simp: effectively_active_chain)

theorem deep_group_dark_witness:
  "\<exists>T'. save_parent (ex_line 9) 100 (Some 8) = Inr T' \<and> (\<forall>x \<in> {0..8}. row_active T' x) \<and> row_active T' 100
    \<and> \<not> is_effectively_active T' 8 100"
proof -
  let ?T' = "set_parent (ex_line 9) 100 (Some 8)"
  have T: "ex_line 9 = [(0, ex_group None), (1, ex_group (Some 0)), (2, ex_group (Some 1)), (3, ex_group (Some 2)),
      (4, ex_group (Some 3)), (5, ex_group (Some 4)), (6, ex_group (Some 5)), (7, ex_group (Some 6)),
      (8, ex_group (Some 7)), (100, ex_group None)]"
    by (simp add: ex_line_def upto.simps)
  have "is_chain ?T' (Some 100) [100, 8, 7, 6, 5, 4, 3, 2, 1, 0]"
    by (simp add: T set_parent_def ex_group_def)
  from deep_group_dark [OF this] have dark: "\<not> is_effectively_active ?T' 8 100" by simp
  have saved: "save_parent (ex_line 9) 100 (Some 8) = Inr ?T'" unfolding T by code_simp
  have "list_all (row_active ?T') [0..8]" "row_active ?T' 100" unfolding T by code_simp+
  then have "\<forall>x \<in> {0..8}. row_active ?T' x" "row_active ?T' 100"
    by (simp_all add: list_all_iff)
  with saved dark show ?thesis by blast
qed

end
