(* ===== verification/Permissions.thy ===== *)
theory Permissions
  imports Group_Tree "HOL-Library.AList"
begin

text \<open>
  Who may do what: permission dicts of users, group members and API keys
  (\<open>helpers/perms.py\<close>, \<open>account/models/user.py\<close>, \<open>member.py\<close>, \<open>api_key.py\<close>, \<open>group.py\<close>,
  \<open>services/group_token.py\<close>), the identities of a request (\<open>helpers/request.py\<close>) and the setters that
  guard the dicts. A JSON object is an association list in insertion order, so assigning to a key is
  \<open>AList.update\<close> and \<open>del\<close> is \<open>AList.delete\<close>.
\<close>

type_synonym dict = "(string \<times> json) list"

record user_row =
  us_active :: bool
  us_superuser :: bool
  us_perms :: dict
  us_auth_key :: string

record member_row =
  mb_id :: int
  mb_user :: int
  mb_group :: int
  mb_active :: bool
  mb_perms :: dict

record key_row =
  ky_id :: int
  ky_group :: int
  ky_user :: "int option"
  ky_override :: bool
  ky_active :: bool
  ky_expires :: "rat option"
  ky_hash :: string
  ky_perms :: dict

text \<open>The tables; members are in the order of their primary keys.\<close>

record account_db =
  ad_groups :: group_table
  ad_users :: "(int \<times> user_row) list"
  ad_members :: "member_row list"
  ad_keys :: "key_row list"

section \<open>Permission dicts\<close>

definition DOMAIN_CATEGORIES :: "string list" where
  "DOMAIN_CATEGORIES = [''users'', ''groups'', ''security'', ''comms'', ''jobs'', ''metrics'', ''files'']"

definition implied_perms :: "string \<Rightarrow> string list" where
  "implied_perms p =
     (if starts_with p ''view_'' \<and> drop 5 p \<in> set DOMAIN_CATEGORIES then [p, drop 5 p]
      else if starts_with p ''manage_'' \<and> drop 7 p \<in> set DOMAIN_CATEGORIES then [p, drop 7 p]
      else [p])"

definition granted :: "dict \<Rightarrow> string \<Rightarrow> bool" where
  "granted d p = (case map_of d p of None \<Rightarrow> False | Some v \<Rightarrow> truthy v)"

definition dict_grants :: "dict \<Rightarrow> string \<Rightarrow> bool" where
  "dict_grants d p = list_ex (granted d) (implied_perms p)"

text \<open>\<open>User.has_permission\<close> of a list: any of it; a superuser holds everything.\<close>

definition user_has :: "user_row \<Rightarrow> string list \<Rightarrow> bool" where
  "user_has u perms \<longleftrightarrow>
     us_superuser u \<or> list_ex (\<lambda>p. p \<in> {''all'', ''authenticated''} \<or> dict_grants (us_perms u) p) perms"

definition user_of :: "account_db \<Rightarrow> int \<Rightarrow> user_row option" where
  "user_of db u = map_of (ad_users db) u"

definition id_has :: "account_db \<Rightarrow> int \<Rightarrow> string list \<Rightarrow> bool" where
  "id_has db u perms = (case user_of db u of None \<Rightarrow> False | Some r \<Rightarrow> user_has r perms)"

text \<open>\<open>sys.\<close> asks the user; \<open>full_member\<close> is read off the guest marker alone.\<close>

definition member_has1 :: "account_db \<Rightarrow> member_row \<Rightarrow> string \<Rightarrow> bool" where
  "member_has1 db m p =
     (if starts_with p ''sys.'' then id_has db (mb_user m) [drop 4 p]
      else if p \<in> {''all'', ''authenticated'', ''member''} then True
      else if p = ''full_member'' then \<not> granted (mb_perms m) ''guest''
      else dict_grants (mb_perms m) p)"

definition member_has :: "account_db \<Rightarrow> member_row \<Rightarrow> string list \<Rightarrow> bool" where
  "member_has db m perms = list_ex (member_has1 db m) perms"

definition key_has :: "key_row \<Rightarrow> string list \<Rightarrow> bool" where
  "key_has k perms = list_ex (\<lambda>p. \<not> starts_with p ''sys.''
      \<and> (p \<in> {''all'', ''authenticated'', ''member''} \<or> dict_grants (ky_perms k) p)) perms"

section \<open>Identities\<close>

text \<open>
  \<open>request.user\<close>. The anonymous user answers every attribute, the marker \<open>is_request_user\<close>
  included, but holds no row. \<open>Machine\<close> is an identity of a custom bearer handler.
\<close>

datatype principal = NoUser | Anonymous | AsUser int | AsKey key_row | Machine "string list \<Rightarrow> bool"

fun is_authenticated :: "principal \<Rightarrow> bool" where
  "is_authenticated (AsUser u) = True"
| "is_authenticated (AsKey k) = True"
| "is_authenticated (Machine f) = True"
| "is_authenticated _ = False"

fun has_user_marker :: "principal \<Rightarrow> bool" where
  "has_user_marker (AsUser u) = True"
| "has_user_marker Anonymous = True"
| "has_user_marker _ = False"

fun no_identity :: "principal \<Rightarrow> bool" where
  "no_identity NoUser = True"
| "no_identity _ = False"

fun anonymous :: "principal \<Rightarrow> bool" where
  "anonymous Anonymous = True"
| "anonymous _ = False"

fun user_pk :: "principal \<Rightarrow> int option" where
  "user_pk (AsUser u) = Some u"
| "user_pk _ = None"

fun principal_has :: "account_db \<Rightarrow> principal \<Rightarrow> string list \<Rightarrow> bool" where
  "principal_has db (AsUser u) perms = id_has db u perms"
| "principal_has db (AsKey k) perms = key_has k perms"
| "principal_has db (Machine f) perms = f perms"
| "principal_has db _ perms = False"

text \<open>A confined credential: an API key, or a token of a user for a group.\<close>

datatype confined = ConfKey key_row | ConfToken int int

record auth_request =
  aq_user :: principal
  aq_api_key :: "key_row option"
  aq_group_token :: "(int \<times> int) option"
  aq_group :: "int option"
  aq_acting_user :: "int option"
  aq_method :: string
  aq_graph :: "string option"
  aq_group_param :: "json option"
  aq_group_uuid :: "string option"
  aq_bearer :: "string option"

definition restricted_identity :: "auth_request \<Rightarrow> confined option" where
  "restricted_identity rq =
     (case aq_api_key rq of
        Some k \<Rightarrow> Some (ConfKey k)
      | None \<Rightarrow> (case aq_group_token rq of Some (u, g) \<Rightarrow> Some (ConfToken u g) | None \<Rightarrow> None))"

definition is_key_backed_session :: "auth_request \<Rightarrow> bool" where
  "is_key_backed_session rq \<longleftrightarrow> restricted_identity rq \<noteq> None"

fun conf_override :: "confined \<Rightarrow> bool" where
  "conf_override (ConfKey k) = ky_override k"
| "conf_override (ConfToken u g) = True"

definition is_override_user_session :: "auth_request \<Rightarrow> bool" where
  "is_override_user_session rq = (case restricted_identity rq of None \<Rightarrow> False | Some c \<Rightarrow> conf_override c)"

definition is_request_user :: "auth_request \<Rightarrow> bool" where
  "is_request_user rq = has_user_marker (aq_user rq)"

text \<open>
  \<open>is_group_allowed\<close>: the group of the key or a descendant, effectively active; the signed group
  alone for a token. The walk of \<open>is_child_of\<close> is bounded by 32 and an effectively active group has
  at most 8 ancestors, so the walk never fails here (\<open>conf_allowed_walk\<close> below).
\<close>

fun conf_allowed :: "account_db \<Rightarrow> confined \<Rightarrow> int \<Rightarrow> bool" where
  "conf_allowed db (ConfKey k) g \<longleftrightarrow>
     is_effectively_active (ad_groups db) 8 g
     \<and> (g = ky_group k \<or> is_child_of (ad_groups db) g (ky_group k) = Inr True)"
| "conf_allowed db (ConfToken u t) g \<longleftrightarrow> is_effectively_active (ad_groups db) 8 g \<and> g = t"

fun conf_has :: "confined \<Rightarrow> string list \<Rightarrow> bool" where
  "conf_has (ConfKey k) perms = key_has k perms"
| "conf_has (ConfToken u g) perms = False"

definition identity_allows_group :: "account_db \<Rightarrow> auth_request \<Rightarrow> int option \<Rightarrow> bool" where
  "identity_allows_group db rq og =
     (case restricted_identity rq of
        None \<Rightarrow> True
      | Some c \<Rightarrow> (case og of None \<Rightarrow> False | Some g \<Rightarrow> conf_allowed db c g))"

section \<open>Membership\<close>

fun first_member :: "account_db \<Rightarrow> int \<Rightarrow> bool \<Rightarrow> int list \<Rightarrow> member_row option" where
  "first_member db u act [] = None"
| "first_member db u act (g # gs) =
     (case filter (\<lambda>m. mb_user m = u \<and> mb_group m = g \<and> (act \<longrightarrow> mb_active m)) (ad_members db) of
        [] \<Rightarrow> first_member db u act gs
      | ms \<Rightarrow> Some (last ms))"

definition get_member_for_user :: "account_db \<Rightarrow> int \<Rightarrow> principal \<Rightarrow> bool \<Rightarrow> bool \<Rightarrow> nat \<Rightarrow> member_row option" where
  "get_member_for_user db g p check_parents act max_depth =
     (case p of
        AsUser u \<Rightarrow>
          if act \<and> \<not> is_effectively_active (ad_groups db) max_depth g then None
          else (case ancestors (ad_groups db) g True (max_depth + 1) of
             Inl _ \<Rightarrow> None
           | Inr ch \<Rightarrow> first_member db u act (if check_parents then ch else take 1 ch))
      | _ \<Rightarrow> None)"

definition user_has_permission :: "account_db \<Rightarrow> int \<Rightarrow> principal \<Rightarrow> string list \<Rightarrow> bool \<Rightarrow> bool" where
  "user_has_permission db g p perms check_user =
     (if check_user \<and> principal_has db p perms then True
      else if \<not> has_user_marker p then False
      else (case get_member_for_user db g p True True 8 of
              None \<Rightarrow> False | Some m \<Rightarrow> member_has db m perms))"

text \<open>The groups whose rows an identity may list, as the ids of the query set.\<close>

definition in_table :: "account_db \<Rightarrow> int list \<Rightarrow> int list" where
  "in_table db ids = filter (\<lambda>g. map_of (ad_groups db) g \<noteq> None) ids"

definition user_groups :: "account_db \<Rightarrow> int \<Rightarrow> int list" where
  "user_groups db u = in_table db (effectively_active_group_ids (ad_groups db)
     (map mb_group (filter (\<lambda>m. mb_user m = u \<and> mb_active m) (ad_members db))) True)"

definition user_groups_with_permission :: "account_db \<Rightarrow> int \<Rightarrow> string list \<Rightarrow> int list" where
  "user_groups_with_permission db u perms =
     (if id_has db u perms then user_groups db u
      else in_table db (effectively_active_group_ids (ad_groups db)
        (map mb_group (filter (\<lambda>m. mb_user m = u \<and> mb_active m \<and> member_has db m perms) (ad_members db))) True))"

definition key_groups :: "account_db \<Rightarrow> key_row \<Rightarrow> int list" where
  "key_groups db k =
     (if is_effectively_active (ad_groups db) 8 (ky_group k)
      then in_table db (active_subtree (ad_groups db) [ky_group k]) else [])"

fun conf_groups_with_permission :: "account_db \<Rightarrow> confined \<Rightarrow> string list \<Rightarrow> int list" where
  "conf_groups_with_permission db (ConfKey k) perms = (if key_has k perms then key_groups db k else [])"
| "conf_groups_with_permission db (ConfToken u g) perms =
     (if is_effectively_active (ad_groups db) 8 g \<and> user_has_permission db g (AsUser u) perms False
      then in_table db [g] else [])"

text \<open>\<open>None\<close>: the identity has no such method (the anonymous user never gets here).\<close>

definition groups_with_permission :: "account_db \<Rightarrow> auth_request \<Rightarrow> string list \<Rightarrow> int list option" where
  "groups_with_permission db rq perms =
     (case restricted_identity rq of
        Some c \<Rightarrow> Some (conf_groups_with_permission db c perms)
      | None \<Rightarrow>
          (case aq_user rq of
             AsUser u \<Rightarrow> Some (user_groups_with_permission db u perms)
           | AsKey k \<Rightarrow> Some (conf_groups_with_permission db (ConfKey k) perms)
           | _ \<Rightarrow> None))"

section \<open>Changing permissions\<close>

text \<open>
  A setting that protects permissions: which permissions a requester needs in order to assign one.
  The floor of the API keys wins over the configuration.
\<close>

type_synonym protection = "string \<Rightarrow> string list option"

definition APIKEY_PERMS_PROTECTION_DEFAULTS :: protection where
  "APIKEY_PERMS_PROTECTION_DEFAULTS =
     [''geoip_sync'' \<mapsto> [''sys.geoip_sync''], ''dnsman_acme_federation'' \<mapsto> [''sys.dnsman_acme_federation''],
      ''edge_node'' \<mapsto> [''sys.edge_node''], ''mojosec_ingest'' \<mapsto> [''sys.mojosec_ingest'']]"

definition apikey_perms_protection :: "protection \<Rightarrow> protection" where
  "apikey_perms_protection configured = configured ++ APIKEY_PERMS_PROTECTION_DEFAULTS"

definition MANAGER_PERMS :: "string list" where
  "MANAGER_PERMS = [''manage_group'', ''manage_members'', ''manage_users'', ''manage_groups'']"

definition protected_check :: "account_db \<Rightarrow> protection \<Rightarrow> string \<Rightarrow> member_row \<Rightarrow> bool" where
  "protected_check db protection perm m =
     (case protection perm of Some need \<Rightarrow> member_has db m need | None \<Rightarrow> member_has db m MANAGER_PERMS)"

definition member_can_change :: "account_db \<Rightarrow> protection \<Rightarrow> auth_request \<Rightarrow> member_row \<Rightarrow> string \<Rightarrow> bool" where
  "member_can_change db protection rq m perm =
     (if \<not> is_override_user_session rq \<and> principal_has db (aq_user rq) [''manage_groups'', ''manage_users''] then True
      else (case get_member_for_user db (mb_group m) (aq_user rq) True True 8 of
              None \<Rightarrow> False | Some r \<Rightarrow> protected_check db protection perm r))"

text \<open>A key without a group yet (during creation) uses the group of the request.\<close>

definition key_can_change :: "account_db \<Rightarrow> protection \<Rightarrow> auth_request \<Rightarrow> int option \<Rightarrow> string \<Rightarrow> bool" where
  "key_can_change db configured rq key_group perm =
     (if no_identity (aq_user rq) then False
      else if is_key_backed_session rq \<and> apikey_perms_protection configured perm \<noteq> None then False
      else if \<not> is_override_user_session rq \<and> principal_has db (aq_user rq) [''manage_groups'', ''manage_users''] then True
      else (case (case key_group of Some g \<Rightarrow> Some g | None \<Rightarrow> aq_group rq) of
              None \<Rightarrow> False
            | Some g \<Rightarrow> (case get_member_for_user db g (aq_user rq) True True 8 of
                None \<Rightarrow> False | Some r \<Rightarrow> protected_check db (apikey_perms_protection configured) perm r)))"

text \<open>
  Equality of JSON values as Python has it: \<open>True\<close> is \<open>1\<close>, and dicts are equal when they have the same
  items. Floats compare by their \<open>repr\<close>, and never equal an integer here.
\<close>

fun py_eq :: "json \<Rightarrow> json \<Rightarrow> bool" where
  "py_eq (JBool a) (JInt i) = (i = (if a then 1 else 0))"
| "py_eq (JInt i) (JBool a) = (i = (if a then 1 else 0))"
| "py_eq (JList xs) (JList ys) = list_all2 py_eq xs ys"
| "py_eq (JObj d) (JObj e) \<longleftrightarrow>
     list_all (\<lambda>(k, v). case map_of e k of None \<Rightarrow> False | Some w \<Rightarrow> py_eq v w) d
     \<and> list_all (\<lambda>(k, w). map_of d k \<noteq> None) e"
| "py_eq a b = (a = b)"

text \<open>
  The setters of members and keys skip a value that changes nothing; any other needs authority. A
  refusal is an exception, before which a key has changed in memory only.
\<close>

definition no_op :: "dict \<Rightarrow> string \<Rightarrow> json \<Rightarrow> bool" where
  "no_op current perm v =
     (let stored = (case map_of current perm of None \<Rightarrow> JBool False | Some x \<Rightarrow> x)
      in if truthy v then py_eq stored v else \<not> truthy stored)"

fun set_permissions :: "(string \<Rightarrow> bool) \<Rightarrow> dict \<Rightarrow> dict \<Rightarrow> dict res" where
  "set_permissions can current [] = Inr current"
| "set_permissions can current ((perm, v) # rest) =
     (if no_op current perm v then set_permissions can current rest
      else if \<not> can perm then Inl (HandlerError ''PermissionDeniedException'')
      else set_permissions can
        (if truthy v then AList.update perm v current else AList.delete perm current) rest)"

definition key_set_permissions :: "account_db \<Rightarrow> protection \<Rightarrow> auth_request \<Rightarrow> int option \<Rightarrow> dict \<Rightarrow> json \<Rightarrow> dict res" where
  "key_set_permissions db configured rq key_group current v =
     (case v of
        JObj d \<Rightarrow> set_permissions (key_can_change db configured rq key_group) current d
      | _ \<Rightarrow> Inl (ValueError ''permissions must be a JSON object''))"

text \<open>
  A member stores \<open>True\<close> for any granted value, and each change is saved before the next one is
  checked: the table of a later check holds it.
\<close>

definition with_member :: "account_db \<Rightarrow> member_row \<Rightarrow> account_db" where
  "with_member db m = db\<lparr>ad_members := map (\<lambda>r. if mb_id r = mb_id m then m else r) (ad_members db)\<rparr>"

definition add_permission :: "member_row \<Rightarrow> string \<Rightarrow> member_row" where
  "add_permission m perm = m\<lparr>mb_perms := AList.update perm (JBool True) (mb_perms m)\<rparr>"

definition remove_permission :: "member_row \<Rightarrow> string \<Rightarrow> member_row" where
  "remove_permission m perm = m\<lparr>mb_perms := AList.delete perm (mb_perms m)\<rparr>"

fun member_set_loop :: "protection \<Rightarrow> auth_request \<Rightarrow> account_db \<Rightarrow> member_row \<Rightarrow> dict \<Rightarrow> exn option \<times> account_db" where
  "member_set_loop protection rq db m [] = (None, db)"
| "member_set_loop protection rq db m ((perm, v) # rest) =
     (if no_op (mb_perms m) perm v then member_set_loop protection rq db m rest
      else if \<not> member_can_change db protection rq m perm then (Some (HandlerError ''PermissionDeniedException''), db)
      else let m' = (if truthy v then add_permission m perm else remove_permission m perm)
           in member_set_loop protection rq (with_member db m') m' rest)"

definition member_set_permissions :: "account_db \<Rightarrow> protection \<Rightarrow> auth_request \<Rightarrow> member_row \<Rightarrow> json \<Rightarrow> exn option \<times> account_db" where
  "member_set_permissions db protection rq m v =
     (case v of JObj d \<Rightarrow> member_set_loop protection rq db m d | _ \<Rightarrow> (None, db))"

text \<open>
  A user's setter has no such exemption: every key of the payload needs authority, a global grant of
  the session's identity.
\<close>

definition SYS_USER_PERMS_PROTECTION :: protection where
  "SYS_USER_PERMS_PROTECTION = map_of (map (\<lambda>p. (p, [''users'', ''manage_users'']))
     [''manage_users'', ''manage_groups'', ''view_logs'', ''view_incidents'', ''view_admin'', ''view_taskqueue'',
      ''view_global'', ''manage_notifications'', ''manage_files'', ''force_single_session'', ''file_vault'', ''manage_aws''])"

definition user_can_change :: "account_db \<Rightarrow> protection \<Rightarrow> principal \<Rightarrow> string \<Rightarrow> bool" where
  "user_can_change db configured p perm =
     (case (configured ++ SYS_USER_PERMS_PROTECTION) perm of
        Some need \<Rightarrow> principal_has db p need
      | None \<Rightarrow> principal_has db p [''users'', ''manage_users''])"

fun user_set_permissions :: "(string \<Rightarrow> bool) \<Rightarrow> dict \<Rightarrow> dict \<Rightarrow> dict res" where
  "user_set_permissions can current [] = Inr current"
| "user_set_permissions can current ((perm, v) # rest) =
     (if \<not> can perm then Inl (HandlerError ''PermissionDeniedException'')
      else user_set_permissions can
        (if \<not> truthy v then AList.delete perm current
         else if (case map_of current perm of None \<Rightarrow> False | Some x \<Rightarrow> py_eq x (JBool True)) then current
         else AList.update perm (JBool True) current) rest)"

end
