(* ===== verification/Credentials.thy ===== *)
theory Credentials
  imports Permissions
begin

text \<open>
  The contract of a confined credential (an API key or a group token): what it may reach lies in the
  active tree of its home group. Both kinds are interpretations of the locale \<open>credential\<close>; the laws
  of the permission gate in \<open>Rest_Permissions\<close> rest on it. Below it: what the permission setters keep.
\<close>

section \<open>The walk of a key's tenant test\<close>

fun conf_home :: "confined \<Rightarrow> int" where
  "conf_home (ConfKey k) = ky_group k"
| "conf_home (ConfToken u g) = g"

lemma child_of_effectively_active:
  assumes "is_effectively_active T 8 g"
  shows "\<exists>ch. is_chain T (Some g) ch \<and> length ch \<le> 9 \<and> (\<forall>x \<in> set ch. row_active T x)
    \<and> (\<forall>p. is_child_of T g p = Inr (p \<in> set (tl ch)))"
proof -
  from assms obtain ch where ch: "is_chain T (Some g) ch" "length ch \<le> 9" "\<forall>x \<in> set ch. row_active T x"
    by (auto simp: effectively_active_chain)
  then obtain xs r where xs: "ch = g # xs" "map_of T g = Some r" "is_chain T (gr_parent r) xs"
    by (elim is_chain_SomeE)
  have "ancestors_from T (gr_parent r) [] 32 = Inr xs"
    using xs ch(2) by (simp add: ancestors_from_chain del: ancestors_from.simps)
  then have "is_child_of T g p = Inr (p \<in> set (tl ch))" for p
    using xs(1,2) by (simp add: is_child_of_def ancestors_def parent_of_def MAX_ANCESTOR_DEPTH_def del: ancestors_from.simps)
  with ch show ?thesis by blast
qed

lemma conf_allowed_walk: "is_effectively_active T 8 g \<Longrightarrow> is_child_of T g p \<noteq> Inl e"
  using child_of_effectively_active by fastforce

lemma key_allowed_chain:
  "conf_allowed db (ConfKey k) g \<longleftrightarrow>
   (\<exists>ch. is_chain (ad_groups db) (Some g) ch \<and> length ch \<le> 9 \<and> ky_group k \<in> set ch
       \<and> (\<forall>x \<in> set ch. row_active (ad_groups db) x))" (is "?l = ?r")
proof
  assume l: ?l
  then have "is_effectively_active (ad_groups db) 8 g" by simp
  from child_of_effectively_active [OF this] obtain ch where ch: "is_chain (ad_groups db) (Some g) ch" "length ch \<le> 9"
    "\<forall>x \<in> set ch. row_active (ad_groups db) x" "\<And>p. is_child_of (ad_groups db) g p = Inr (p \<in> set (tl ch))" by blast
  from ch(1) have "hd ch = g" "ch \<noteq> []" by (auto elim: is_chain_SomeE)
  with l ch(4) [of "ky_group k"] have "ky_group k \<in> set ch" by (cases ch) auto
  with ch show ?r by blast
next
  assume ?r
  then obtain ch where ch: "is_chain (ad_groups db) (Some g) ch" "length ch \<le> 9" "ky_group k \<in> set ch"
    "\<forall>x \<in> set ch. row_active (ad_groups db) x" by blast
  then have e: "is_effectively_active (ad_groups db) 8 g" by (auto simp: effectively_active_chain)
  from child_of_effectively_active [OF this] ch(1) chain_unique
  have "is_child_of (ad_groups db) g (ky_group k) = Inr (ky_group k \<in> set (tl ch))" by metis
  moreover from ch(1) have "hd ch = g" "ch \<noteq> []" by (auto elim: is_chain_SomeE)
  ultimately show ?l using e ch(3) by (cases ch) auto
qed

section \<open>The contract\<close>

locale credential =
  fixes allowed :: "account_db \<Rightarrow> int \<Rightarrow> bool"
    and visible :: "account_db \<Rightarrow> int list"
    and home :: int
  assumes allowed_tree: "allowed db g \<Longrightarrow> in_active_tree (ad_groups db) home g"
    and visible_tree: "distinct (map fst (ad_groups db)) \<Longrightarrow> g \<in> set (visible db) \<Longrightarrow> in_active_tree (ad_groups db) home g"
begin

lemma home_active: "allowed db g \<Longrightarrow> row_active (ad_groups db) home"
  using allowed_tree by (auto simp: in_active_tree_def)

lemma group_active: "allowed db g \<Longrightarrow> row_active (ad_groups db) g"
  using allowed_tree by (fastforce simp: in_active_tree_def elim: is_chain_SomeE)

lemma suspended_allows_nothing: "\<not> row_active (ad_groups db) home \<Longrightarrow> \<not> allowed db g"
  using home_active by blast

lemma suspended_lists_nothing:
  assumes "distinct (map fst (ad_groups db))" and "\<not> row_active (ad_groups db) home"
  shows "visible db = []"
proof (cases "visible db")
  case (Cons g gs)
  with visible_tree [OF assms(1), of g] assms(2) show ?thesis by (auto simp: in_active_tree_def)
qed simp

end

lemma effectively_active_tree: "is_effectively_active T 8 g \<Longrightarrow> in_active_tree T g g"
  by (fastforce simp: effectively_active_chain in_active_tree_def elim: is_chain_SomeE)

lemma key_groups_tree:
  assumes "distinct (map fst (ad_groups db))" and "g \<in> set (key_groups db k)"
  shows "in_active_tree (ad_groups db) (ky_group k) g"
proof -
  from assms(2) have "is_effectively_active (ad_groups db) 8 (ky_group k)" "g \<in> set (active_subtree (ad_groups db) [ky_group k])"
    by (auto simp: key_groups_def in_table_def split: if_splits)
  then show ?thesis using active_subtree_sound [OF assms(1)] effectively_active_tree by blast
qed

interpretation api_key_cred: credential "\<lambda>db. conf_allowed db (ConfKey k)" "\<lambda>db. key_groups db k" "ky_group k"
proof unfold_locales
  show "in_active_tree (ad_groups db) (ky_group k) g" if "conf_allowed db (ConfKey k) g" for db g
    using that unfolding key_allowed_chain in_active_tree_def by blast
qed (rule key_groups_tree)

interpretation conf_cred: credential "\<lambda>db. conf_allowed db c" "\<lambda>db. conf_groups_with_permission db c perms" "conf_home c"
proof (cases c)
  case (ConfKey k)
  then show "credential (\<lambda>db. conf_allowed db c) (\<lambda>db. conf_groups_with_permission db c perms) (conf_home c)"
    using api_key_cred.allowed_tree key_groups_tree by unfold_locales (auto split: if_splits simp del: conf_allowed.simps)
next
  case (ConfToken u t)
  then show "credential (\<lambda>db. conf_allowed db c) (\<lambda>db. conf_groups_with_permission db c perms) (conf_home c)"
    using effectively_active_tree by unfold_locales (auto simp: in_table_def split: if_splits)
qed

end
