(* ===== verification/Rest_Permissions.thy ===== *)
theory Rest_Permissions
  imports Credentials
begin

text \<open>
  The permission gate of the REST layer (\<open>mojo/models/rest.py\<close>) in the order of the code: the
  predicate over a model's configuration, an optional row and the request, the instance hooks of
  \<open>Group\<close> and \<open>User\<close>, the graph gate, and the handlers for one row and for lists. A handler's
  serialization and write are parameters; the gate in front of them is what is modelled.
\<close>

section \<open>Models and rows\<close>

text \<open>
  A row: \<open>in_group\<close> is the group \<open>_instance_group\<close> resolves, \<open>in_owner\<close> the user its owner field holds.
\<close>

record inst =
  in_pk :: int
  in_group :: "int option"
  in_owner :: "int option"

text \<open>A hook of a class reads the tables, the permissions and the request, and may write the request.\<close>

type_synonym instance_hook = "inst \<Rightarrow> account_db \<Rightarrow> string list \<Rightarrow> auth_request \<Rightarrow> bool \<times> auth_request"

text \<open>
  A class: its \<open>RestMeta\<close>, where \<open>mc_perms\<close> maps a permission key such as \<open>VIEW_PERMS\<close> to its list,
  absent or \<open>None\<close> as \<open>None\<close>; \<open>mc_group_scoped\<close>: it has a \<open>group\<close> field or a \<open>GROUP_FIELD\<close>; and the
  hooks \<open>check_view_permission\<close> and \<open>check_edit_permission\<close> where it defines them.
\<close>

record model_cfg =
  mc_name :: string
  mc_group_scoped :: bool
  mc_perms :: "string \<Rightarrow> string list option"
  mc_owner_self :: bool
  mc_graphs :: "string list"
  mc_graph_perms :: "(string \<times> string list) list"
  mc_allow_global :: bool
  mc_can_create :: bool
  mc_can_update :: "bool option"
  mc_can_save :: "bool option"
  mc_can_delete :: bool
  mc_can_batch :: bool
  mc_view_hook :: "instance_hook option"
  mc_edit_hook :: "instance_hook option"

text \<open>A denial has its branch, event and status. \<open>Crash\<close>: a call on an identity that cannot answer it raised.\<close>

datatype verdict = Allow | Deny string string int | Crash

definition get_rest_meta_prop :: "model_cfg \<Rightarrow> string list \<Rightarrow> string list" where
  "get_rest_meta_prop cfg names =
     (case List.map_filter (mc_perms cfg) names of [] \<Rightarrow> [] | ps # _ \<Rightarrow> ps)"

definition WRITE_KEYS :: "string list" where
  "WRITE_KEYS = [''CREATE_PERMS'', ''SAVE_PERMS'', ''DELETE_PERMS'']"

section \<open>The predicate\<close>

text \<open>
  \<open>request.group.user_has_permission\<close> as the gate calls it. The identities that are no user and hold
  no permission dict cannot answer: \<open>None\<close> has no methods, and the membership query of an effectively
  active group refuses the anonymous user.
\<close>

definition group_verdict :: "account_db \<Rightarrow> int \<Rightarrow> auth_request \<Rightarrow> string list \<Rightarrow> verdict" where
  "group_verdict db g rq perms =
     (if (no_identity (aq_user rq) \<and> \<not> is_override_user_session rq)
         \<or> (anonymous (aq_user rq) \<and> is_effectively_active (ad_groups db) 8 g) then Crash
      else if user_has_permission db g (aq_user rq) perms (\<not> is_override_user_session rq) then Allow
      else Deny ''group.user_has_permission'' ''group_member_permission_denied'' 403)"

text \<open>After the instance has been looked at: the branches on \<open>request.group\<close>, the credential and the user.\<close>

definition decide :: "account_db \<Rightarrow> model_cfg \<Rightarrow> string list \<Rightarrow> auth_request \<Rightarrow> verdict" where
  "decide db cfg perms rq =
     (case (if mc_group_scoped cfg then aq_group rq else None) of
        Some g \<Rightarrow>
          (case restricted_identity rq of
             None \<Rightarrow> group_verdict db g rq perms
           | Some c \<Rightarrow>
               if \<not> conf_allowed db c g then Deny ''api_key.cross_tenant_denied'' ''user_permission_denied'' 403
               else if \<not> is_effectively_active (ad_groups db) 8 g
                 then Deny ''api_key.group_inactive'' ''user_permission_denied'' 403
               else if \<not> conf_override c then
                 (if conf_has c perms then Allow
                  else Deny ''api_key.has_permission'' ''group_member_permission_denied'' 403)
               else group_verdict db g rq perms)
      | None \<Rightarrow>
          if is_key_backed_session rq then
            (if aq_group_token rq \<noteq> None then Deny ''group_token.groupless_denied'' ''user_permission_denied'' 403
             else if \<not> (mc_allow_global cfg \<and> \<not> mc_group_scoped cfg)
               then Deny ''api_key.groupless_denied'' ''user_permission_denied'' 403
             else (case aq_api_key rq of
                     Some k \<Rightarrow> if key_has k perms then Allow
                               else Deny ''api_key.has_permission'' ''user_permission_denied'' 403
                   | None \<Rightarrow> Crash))
          else if \<not> is_authenticated (aq_user rq) then Deny ''unauthenticated'' ''unauthenticated'' 401
          else if principal_has db (aq_user rq) perms then Allow
          else Deny ''user.has_permission'' ''user_permission_denied'' 403)"

definition owns :: "auth_request \<Rightarrow> inst \<Rightarrow> bool" where
  "owns rq i \<longleftrightarrow> \<not> is_key_backed_session rq
     \<and> user_pk (aq_user rq) \<noteq> None \<and> in_owner i = user_pk (aq_user rq)"

text \<open>The hook that answers for an operation, with the event of its refusal.\<close>

definition hook_for :: "bool \<Rightarrow> bool \<Rightarrow> model_cfg \<Rightarrow> (instance_hook \<times> verdict) option" where
  "hook_for apply_instance_hooks is_write cfg =
     (if \<not> apply_instance_hooks then None
      else (case (if is_write then None else mc_view_hook cfg) of
              Some h \<Rightarrow> Some (h, Deny ''instance.check_view_permission'' ''view_permission_denied'' 403)
            | None \<Rightarrow> (case mc_edit_hook cfg of
                         Some h \<Rightarrow> Some (h, Deny ''instance.check_edit_permission'' ''edit_permission_denied'' 403)
                       | None \<Rightarrow> None)))"

definition inactive_instance :: "account_db \<Rightarrow> model_cfg \<Rightarrow> auth_request \<Rightarrow> inst \<Rightarrow> bool" where
  "inactive_instance db cfg rq i \<longleftrightarrow> mc_group_scoped cfg \<and> is_key_backed_session rq
     \<and> (case in_group i of None \<Rightarrow> False | Some g \<Rightarrow> \<not> is_effectively_active (ad_groups db) 8 g)"

definition evaluate_perms :: "account_db \<Rightarrow> model_cfg \<Rightarrow> string list \<Rightarrow> string list \<Rightarrow> inst option \<Rightarrow> bool
    \<Rightarrow> auth_request \<Rightarrow> verdict \<times> auth_request" where
  "evaluate_perms db cfg perms permission_keys instance apply_instance_hooks rq =
     (if perms = [] then (Allow, rq)
      else if ''all'' \<notin> set perms \<and> \<not> is_authenticated (aq_user rq)
        then (Deny ''unauthenticated'' ''unauthenticated'' 401, rq)
      else if ''authenticated'' \<in> set perms then (Allow, rq)
      else if is_authenticated (aq_user rq) \<and> \<not> is_request_user rq \<and> aq_api_key rq = None
        then (Deny ''non_user_no_api_key'' ''user_permission_denied'' 403, rq)
      else (case instance of
              None \<Rightarrow> (decide db cfg perms rq, rq)
            | Some i \<Rightarrow>
                if inactive_instance db cfg rq i
                  then (Deny ''api_key.group_inactive'' ''user_permission_denied'' 403, rq)
                else (case hook_for apply_instance_hooks (\<exists>k \<in> set permission_keys. k \<in> set WRITE_KEYS) cfg of
                        Some (h, refusal) \<Rightarrow> (case h i db perms rq of (ok, rq') \<Rightarrow> (if ok then Allow else refusal, rq'))
                      | None \<Rightarrow>
                          if ''owner'' \<in> set perms \<and> owns rq i then (Allow, rq)
                          else (let rq' = rq\<lparr>aq_group := in_group i\<rparr> in (decide db cfg perms rq', rq')))))"

definition evaluate_permission :: "account_db \<Rightarrow> model_cfg \<Rightarrow> string list \<Rightarrow> inst option \<Rightarrow> auth_request \<Rightarrow> verdict \<times> auth_request" where
  "evaluate_permission db cfg permission_keys instance rq =
     evaluate_perms db cfg (get_rest_meta_prop cfg permission_keys) permission_keys instance True rq"

section \<open>Instance hooks\<close>

text \<open>
  \<open>Group.check_view_permission\<close>: any member may look, with the graph lowered to \<open>basic\<close> unless the
  member row grants more. \<open>check_edit_permission\<close> has no such way in.
\<close>

definition group_check_view :: instance_hook where
  "group_check_view i db perms rq =
     (let g = in_pk i in case restricted_identity rq of
        Some c \<Rightarrow> (conf_allowed db c g \<and> conf_has c perms, rq)
      | None \<Rightarrow>
          if principal_has db (aq_user rq) perms then (True, rq)
          else (case get_member_for_user db g (aq_user rq) True True 8 of
                  None \<Rightarrow> (False, rq)
                | Some m \<Rightarrow>
                    if member_has db m [''view_group'', ''manage_group''] then (True, rq)
                    else (True, rq\<lparr>aq_graph := Some ''basic''\<rparr>)))"

definition group_check_edit :: instance_hook where
  "group_check_edit i db perms rq =
     (let g = in_pk i in case restricted_identity rq of
        Some c \<Rightarrow> (conf_allowed db c g \<and> conf_has c perms, rq)
      | None \<Rightarrow> (user_has_permission db g (aq_user rq) perms True, rq))"

text \<open>\<open>User.check_edit_permission\<close>, under the class's \<open>ALLOW_API_KEY_GLOBAL\<close>\<close>

definition user_check_edit :: "bool \<Rightarrow> instance_hook" where
  "user_check_edit allow_global i db perms rq =
     (let own = (''owner'' \<in> set perms \<and> user_pk (aq_user rq) = Some (in_pk i))
      in (if aq_group_token rq \<noteq> None then aq_method rq = ''GET'' \<and> own
          else (case aq_api_key rq of
                  Some k \<Rightarrow> allow_global \<and> key_has k perms
                | None \<Rightarrow> own \<or> principal_has db (aq_user rq) perms), rq))"

text \<open>The two classes of the account app with hooks; their other switches are the defaults.\<close>

definition group_cfg :: model_cfg where
  "group_cfg = \<lparr>mc_name = ''Group'', mc_group_scoped = False,
     mc_perms = [''VIEW_PERMS'' \<mapsto> [''view_groups'', ''manage_groups'', ''manage_group'', ''groups''],
                 ''SAVE_PERMS'' \<mapsto> [''manage_groups'', ''manage_group'', ''groups'']],
     mc_owner_self = False, mc_graphs = [''simple'', ''basic'', ''default''], mc_graph_perms = [], mc_allow_global = False,
     mc_can_create = True, mc_can_update = None, mc_can_save = None, mc_can_delete = False, mc_can_batch = False,
     mc_view_hook = Some group_check_view, mc_edit_hook = Some group_check_edit\<rparr>"

definition user_cfg :: model_cfg where
  "user_cfg = \<lparr>mc_name = ''User'', mc_group_scoped = False,
     mc_perms = [''VIEW_PERMS'' \<mapsto> [''view_users'', ''manage_users'', ''users'', ''owner''],
                 ''SAVE_PERMS'' \<mapsto> [''manage_users'', ''users'', ''owner'']],
     mc_owner_self = True, mc_graphs = [''basic'', ''list'', ''default'', ''full''], mc_graph_perms = [], mc_allow_global = False,
     mc_can_create = True, mc_can_update = None, mc_can_save = None, mc_can_delete = False, mc_can_batch = False,
     mc_view_hook = None, mc_edit_hook = Some (user_check_edit False)\<rparr>"

section \<open>Handlers\<close>

text \<open>
  What a handler answers: one row or a list under a graph name, an action's own response, a deletion,
  a denial with its branch, event and status, an unknown graph (400), a missing row (404), a row
  operation that raised, or an error of the identity.
\<close>

datatype reply =
    Item string inst
  | Rows string "inst list"
  | ActionReply
  | Deleted
  | Denied string string int
  | UnknownGraph string
  | NotFound
  | Raised exn
  | ErrorReply int string
  | Failed

fun verdict_reply :: "verdict \<Rightarrow> reply option" where
  "verdict_reply Allow = None"
| "verdict_reply (Deny branch event status) = Some (Denied branch event status)"
| "verdict_reply Crash = Some Failed"

definition check_or_raise :: "account_db \<Rightarrow> model_cfg \<Rightarrow> string list \<Rightarrow> inst option \<Rightarrow> auth_request \<Rightarrow> reply option \<times> auth_request" where
  "check_or_raise db cfg permission_keys instance rq =
     (case evaluate_permission db cfg permission_keys instance rq of (v, rq') \<Rightarrow> (verdict_reply v, rq'))"

text \<open>The default of \<open>REST_COMMON_GRAPH_NAMES\<close>\<close>

definition COMMON_GRAPH_NAMES :: "string list" where
  "COMMON_GRAPH_NAMES = [''default'', ''basic'', ''list'', ''simple'', ''detail'', ''detailed'', ''full'']"

definition check_graph_permission :: "account_db \<Rightarrow> model_cfg \<Rightarrow> auth_request \<Rightarrow> string \<Rightarrow> inst option \<Rightarrow> reply option \<times> auth_request" where
  "check_graph_permission db cfg rq graph instance =
     (case map_of (mc_graph_perms cfg) graph of
        None \<Rightarrow> (None, rq)
      | Some perms \<Rightarrow>
          if perms = [] then (None, rq)
          else (case evaluate_perms db cfg perms [''GRAPH_PERMISSIONS.'' @ graph] instance False rq of
                  (Deny branch event status, rq') \<Rightarrow> (Some (Denied branch ''graph_permission_denied'' status), rq')
                | (v, rq') \<Rightarrow> (verdict_reply v, rq')))"

definition resolve_graph :: "account_db \<Rightarrow> model_cfg \<Rightarrow> auth_request \<Rightarrow> string \<Rightarrow> inst option \<Rightarrow> reply option \<times> auth_request" where
  "resolve_graph db cfg rq requested instance =
     (if mc_graphs cfg = [] then (None, rq)
      else if requested \<in> set (mc_graphs cfg) then check_graph_permission db cfg rq requested instance
      else if requested \<in> set COMMON_GRAPH_NAMES then check_graph_permission db cfg rq ''default'' instance
      else (Some (UnknownGraph requested), rq))"

definition requested_graph :: "auth_request \<Rightarrow> string \<Rightarrow> string" where
  "requested_graph rq dflt = (case aq_graph rq of None \<Rightarrow> dflt | Some g \<Rightarrow> g)"

definition resolve_request_graph :: "account_db \<Rightarrow> model_cfg \<Rightarrow> auth_request \<Rightarrow> string \<Rightarrow> inst option \<Rightarrow> reply option \<times> auth_request" where
  "resolve_request_graph db cfg rq dflt instance = resolve_graph db cfg rq (requested_graph rq dflt) instance"

definition on_rest_get :: "account_db \<Rightarrow> model_cfg \<Rightarrow> auth_request \<Rightarrow> inst \<Rightarrow> reply" where
  "on_rest_get db cfg rq i =
     (case resolve_request_graph db cfg rq ''default'' (Some i) of
        (Some r, _) \<Rightarrow> r | (None, _) \<Rightarrow> Item (requested_graph rq ''default'') i)"

definition on_rest_handle_get :: "account_db \<Rightarrow> model_cfg \<Rightarrow> auth_request \<Rightarrow> inst \<Rightarrow> reply" where
  "on_rest_handle_get db cfg rq i =
     (case check_or_raise db cfg [''VIEW_PERMS''] (Some i) rq of
        (Some r, _) \<Rightarrow> r | (None, rq') \<Rightarrow> on_rest_get db cfg rq' i)"

definition resolve_can_update :: "model_cfg \<Rightarrow> bool" where
  "resolve_can_update cfg =
     (case mc_can_update cfg of Some b \<Rightarrow> b | None \<Rightarrow> (case mc_can_save cfg of Some b \<Rightarrow> b | None \<Rightarrow> True))"

text \<open>
  The write of a row is a parameter: it may raise, answer with an action's response (\<open>True\<close>), and it
  returns the row as saved and the store. A raised exception keeps what was written before it.
\<close>

type_synonym 's row_write = "auth_request \<Rightarrow> inst \<Rightarrow> 's \<Rightarrow> (bool \<times> inst) res \<times> 's"

definition on_rest_save_and_respond :: "account_db \<Rightarrow> model_cfg \<Rightarrow> 's row_write \<Rightarrow> auth_request \<Rightarrow> inst \<Rightarrow> 's \<Rightarrow> reply \<times> 's" where
  "on_rest_save_and_respond db cfg save rq i w =
     (case save rq i w of
        (Inl e, w') \<Rightarrow> (Raised e, w')
      | (Inr (True, i'), w') \<Rightarrow> (ActionReply, w')
      | (Inr (False, i'), w') \<Rightarrow> (on_rest_get db cfg rq i', w'))"

definition on_rest_handle_save :: "account_db \<Rightarrow> model_cfg \<Rightarrow> 's row_write \<Rightarrow> auth_request \<Rightarrow> inst \<Rightarrow> 's \<Rightarrow> reply \<times> 's" where
  "on_rest_handle_save db cfg save rq i w =
     (if \<not> resolve_can_update cfg then (Denied ''can_update_false'' ''feature_disabled'' 403, w)
      else (case check_or_raise db cfg [''SAVE_PERMS'', ''VIEW_PERMS''] (Some i) rq of
              (Some r, _) \<Rightarrow> (r, w)
            | (None, rq1) \<Rightarrow>
                (case resolve_request_graph db cfg rq1 ''default'' (Some i) of
                   (Some r, _) \<Rightarrow> (r, w)
                 | (None, rq2) \<Rightarrow> on_rest_save_and_respond db cfg save rq2 i w)))"

definition on_rest_handle_delete :: "account_db \<Rightarrow> model_cfg \<Rightarrow> (inst \<Rightarrow> 's \<Rightarrow> unit res \<times> 's) \<Rightarrow> auth_request \<Rightarrow> inst \<Rightarrow> 's \<Rightarrow> reply \<times> 's" where
  "on_rest_handle_delete db cfg delete rq i w =
     (if \<not> mc_can_delete cfg then (Denied ''can_delete_false'' ''feature_disabled'' 403, w)
      else (case check_or_raise db cfg [''DELETE_PERMS'', ''SAVE_PERMS'', ''VIEW_PERMS''] (Some i) rq of
              (Some r, _) \<Rightarrow> (r, w)
            | (None, _) \<Rightarrow>
                (case delete i w of
                   (Inl e, w') \<Rightarrow> (ErrorReply 400 (exn_str e), w')
                 | (Inr _, w') \<Rightarrow> (Deleted, w'))))"

section \<open>Lists\<close>

text \<open>
  The rows a list may show, before the caller's own filters, order and page: the tenant filter of
  \<open>on_rest_list\<close> on the query set it is given, then the graph gate of \<open>on_rest_list_response\<close>.
\<close>

definition on_rest_list_response :: "account_db \<Rightarrow> model_cfg \<Rightarrow> auth_request \<Rightarrow> inst list \<Rightarrow> reply" where
  "on_rest_list_response db cfg rq rows =
     (case resolve_request_graph db cfg rq ''list'' None of
        (Some r, _) \<Rightarrow> r | (None, _) \<Rightarrow> Rows (requested_graph rq ''list'') rows)"

definition on_rest_list :: "account_db \<Rightarrow> model_cfg \<Rightarrow> auth_request \<Rightarrow> inst list \<Rightarrow> reply" where
  "on_rest_list db cfg rq rows =
     on_rest_list_response db cfg rq
       (case (if mc_group_scoped cfg then aq_group rq else None) of
          None \<Rightarrow> rows | Some g \<Rightarrow> filter (\<lambda>i. in_group i = Some g) rows)"

definition lists_own :: "model_cfg \<Rightarrow> auth_request \<Rightarrow> string list \<Rightarrow> int option" where
  "lists_own cfg rq perms =
     (if ''owner'' \<in> set perms \<and> \<not> is_key_backed_session rq
      then user_pk (aq_user rq) else None)"

text \<open>\<open>deny\<close> is the setting \<open>MOJO_REST_LIST_PERM_DENY\<close>; \<open>rows\<close> is the whole table.\<close>

definition on_rest_handle_list :: "account_db \<Rightarrow> model_cfg \<Rightarrow> bool \<Rightarrow> inst list \<Rightarrow> auth_request \<Rightarrow> reply" where
  "on_rest_handle_list db cfg deny rows rq =
     (let perms = get_rest_meta_prop cfg [''VIEW_PERMS'']
      in case evaluate_permission db cfg [''VIEW_PERMS''] None rq of
           (Allow, rq') \<Rightarrow> on_rest_list db cfg rq' rows
         | (Crash, _) \<Rightarrow> Failed
         | (Deny _ _ _, rq') \<Rightarrow>
             (case lists_own cfg rq' perms of
                Some u \<Rightarrow>
                  on_rest_list db cfg rq'
                    (filter (\<lambda>i. if mc_owner_self cfg then in_pk i = u else in_owner i = Some u) rows)
              | None \<Rightarrow>
                  (case (if is_authenticated (aq_user rq') \<and> mc_group_scoped cfg
                         then groups_with_permission db rq' perms else Some []) of
                     None \<Rightarrow> Failed
                   | Some (g # gs) \<Rightarrow>
                       on_rest_list db cfg rq'
                         (filter (\<lambda>i. case in_group i of None \<Rightarrow> False | Some x \<Rightarrow> x \<in> set (g # gs)) rows)
                   | Some [] \<Rightarrow>
                       if \<not> is_authenticated (aq_user rq') then Denied ''list_unauthenticated'' ''unauthenticated'' 401
                       else if deny then Denied ''list_perm_deny'' ''user_permission_denied'' 403
                       else on_rest_list_response db cfg rq' [])))"

end
