(* ===== verification/Rest_Laws.thy ===== *)
theory Rest_Laws
  imports Rest_Permissions
begin

text \<open>
  What the permission gate guarantees: a confined credential reaches rows of its active tree alone, on
  detail and on lists; a session that assumes a member has that member's grants and nothing of the
  user's own; the group a caller names does not matter for a row; no write happens without the check.
\<close>

section \<open>The predicate\<close>

lemma conf_credential: "restricted_identity rq = Some c \<Longrightarrow> is_key_backed_session rq"
  by (simp add: is_key_backed_session_def)

text \<open>An allowed row without hooks, past the lists that admit everybody: it is owned, or decided for its own group.\<close>

lemma evaluate_row:
  assumes "evaluate_perms db cfg perms keys (Some i) h rq = (Allow, rq')"
    and "perms \<noteq> []" and "''authenticated'' \<notin> set perms"
    and "hook_for h (\<exists>k \<in> set keys. k \<in> set WRITE_KEYS) cfg = None"
  shows "(''owner'' \<in> set perms \<and> owns rq i)
    \<or> (rq' = rq\<lparr>aq_group := in_group i\<rparr> \<and> decide db cfg perms rq' = Allow \<and> \<not> inactive_instance db cfg rq i)"
  using assms(1-3) by (auto simp: evaluate_perms_def assms(4) Let_def split: if_splits)

lemma hook_for_None [simp]: "hook_for h w cfg = None \<longleftrightarrow> \<not> h \<or> ((w \<or> mc_view_hook cfg = None) \<and> mc_edit_hook cfg = None)"
  by (auto simp: hook_for_def split: option.splits)

lemma restricted_group [simp]: "restricted_identity (rq\<lparr>aq_group := g\<rparr>) = restricted_identity rq"
  by (simp add: restricted_identity_def cong: option.case_cong)

lemma key_backed_group [simp]: "is_key_backed_session (rq\<lparr>aq_group := g\<rparr>) = is_key_backed_session rq"
  by (simp add: is_key_backed_session_def)

lemma override_group [simp]: "is_override_user_session (rq\<lparr>aq_group := g\<rparr>) = is_override_user_session rq"
  by (simp add: is_override_user_session_def)

text \<open>The only way past the group branch: a key on a model without groups that opted in.\<close>

definition opted_in :: "model_cfg \<Rightarrow> confined \<Rightarrow> string list \<Rightarrow> bool" where
  "opted_in cfg c perms \<longleftrightarrow> \<not> mc_group_scoped cfg \<and> mc_allow_global cfg
     \<and> (case c of ConfKey k \<Rightarrow> key_has k perms | ConfToken _ _ \<Rightarrow> False)"

lemma decide_confined:
  assumes "restricted_identity rq = Some c" and "decide db cfg perms rq = Allow"
  shows "(mc_group_scoped cfg \<and> (\<exists>g. aq_group rq = Some g \<and> conf_allowed db c g)) \<or> opted_in cfg c perms"
proof (cases "if mc_group_scoped cfg then aq_group rq else None")
  case None
  with assms show ?thesis
    by (auto simp: decide_def opted_in_def is_key_backed_session_def restricted_identity_def split: if_splits option.splits)
next
  case (Some g)
  with assms have "conf_allowed db c g"
    unfolding decide_def by (auto split: if_splits simp del: conf_allowed.simps)
  with Some show ?thesis by (auto split: if_splits)
qed

lemma row_confined:
  assumes "restricted_identity rq = Some c" and "evaluate_perms db cfg perms keys (Some i) h rq = (Allow, rq')"
    and "perms \<noteq> []" and "''authenticated'' \<notin> set perms"
    and "hook_for h (\<exists>k \<in> set keys. k \<in> set WRITE_KEYS) cfg = None"
  shows "(mc_group_scoped cfg \<and> (\<exists>g. in_group i = Some g \<and> in_active_tree (ad_groups db) (conf_home c) g)) \<or> opted_in cfg c perms"
proof -
  have "\<not> owns rq i" using conf_credential [OF assms(1)] by (simp add: owns_def)
  with evaluate_row [OF assms(2-5)] have "rq' = rq\<lparr>aq_group := in_group i\<rparr>" "decide db cfg perms rq' = Allow" by auto
  with decide_confined [of rq' c db cfg perms] assms(1) show ?thesis
    using conf_cred.allowed_tree by (fastforce simp del: conf_allowed.simps)
qed

section \<open>Authority of a session that assumes a member\<close>

lemma first_member_row:
  "first_member db u act gs = Some m \<Longrightarrow>
   m \<in> set (ad_members db) \<and> mb_user m = u \<and> mb_group m \<in> set gs \<and> (act \<longrightarrow> mb_active m)"
proof (induction gs)
  case (Cons g gs)
  let ?ms = "filter (\<lambda>m. mb_user m = u \<and> mb_group m = g \<and> (act \<longrightarrow> mb_active m)) (ad_members db)"
  show ?case
  proof (cases "?ms = []")
    case True
    with Cons show ?thesis by simp
  next
    case False
    with Cons.prems have "m = last ?ms" by (auto split: list.splits)
    with last_in_set [OF False] have "m \<in> set ?ms" by simp
    then show ?thesis by simp
  qed
qed simp

lemma member_of_chain:
  assumes "get_member_for_user db g p True True 8 = Some m"
  obtains u ch where "p = AsUser u" "is_chain (ad_groups db) (Some g) ch" "length ch \<le> 9"
    "\<forall>x \<in> set ch. row_active (ad_groups db) x" "m \<in> set (ad_members db)" "mb_user m = u" "mb_active m" "mb_group m \<in> set ch"
proof -
  from assms obtain u where u: "p = AsUser u" "is_effectively_active (ad_groups db) 8 g"
    by (auto simp: get_member_for_user_def split: principal.splits if_splits)
  from u(2) obtain ch where ch: "is_chain (ad_groups db) (Some g) ch" "length ch \<le> 9"
    "\<forall>x \<in> set ch. row_active (ad_groups db) x" by (auto simp: effectively_active_chain)
  then have "ancestors (ad_groups db) g True 9 = Inr ch" by (simp add: ancestors_self)
  with assms u have "first_member db u True ch = Some m" by (simp add: get_member_for_user_def)
  from first_member_row [OF this] that [OF u(1) ch] show thesis by simp
qed

lemma override_decided_by_member:
  assumes "restricted_identity rq = Some c" and "conf_override c" and "mc_group_scoped cfg"
    and "aq_group rq = Some g" and "decide db cfg perms rq = Allow"
  obtains m where "get_member_for_user db g (aq_user rq) True True 8 = Some m" "member_has db m perms"
proof -
  have "group_verdict db g rq perms = Allow"
    using assms by (auto simp: decide_def split: if_splits simp del: conf_allowed.simps)
  then have "user_has_permission db g (aq_user rq) perms False"
    using assms(1,2) by (auto simp: group_verdict_def is_override_user_session_def split: if_splits)
  with that show thesis by (auto simp: user_has_permission_def split: if_splits option.splits)
qed

text \<open>The tables with other user rows: grants and superuser flags changed at will.\<close>

abbreviation with_users :: "account_db \<Rightarrow> (int \<times> user_row) list \<Rightarrow> account_db" where
  "with_users db us \<equiv> db\<lparr>ad_users := us\<rparr>"

lemma first_member_users [simp]: "first_member (with_users db us) u act gs = first_member db u act gs"
  by (induction gs) (simp_all split: list.split)

lemma get_member_users [simp]:
  "get_member_for_user (with_users db us) g p cp act n = get_member_for_user db g p cp act n"
  by (auto simp: get_member_for_user_def split: principal.split sum.split)

lemma member_has_users:
  "list_all (\<lambda>p. \<not> starts_with p ''sys.'') perms \<Longrightarrow> member_has (with_users db us) m perms = member_has db m perms"
  by (induction perms) (auto simp: member_has_def member_has1_def)

lemma conf_allowed_users [simp]: "conf_allowed (with_users db us) c g = conf_allowed db c g"
  by (cases c) simp_all

lemma decide_users:
  assumes "restricted_identity rq = Some c" and "conf_override c" and "list_all (\<lambda>p. \<not> starts_with p ''sys.'') perms"
  shows "decide (with_users db us) cfg perms rq = decide db cfg perms rq"
proof -
  have o: "is_override_user_session rq" using assms(1,2) by (simp add: is_override_user_session_def)
  then have "group_verdict (with_users db us) g rq perms = group_verdict db g rq perms" for g
    by (simp add: group_verdict_def user_has_permission_def member_has_users [OF assms(3)] cong: if_cong option.case_cong)
  with assms(1) conf_credential [OF assms(1)] show ?thesis
    by (simp add: decide_def cong: if_cong option.case_cong del: conf_allowed.simps)
qed

section \<open>Lists\<close>

lemma resolve_graph_rows: "resolve_request_graph db cfg rq d i \<noteq> (Some (Rows gr rs), rq')"
proof -
  have "verdict_reply v \<noteq> Some (Rows gr rs)" for v by (cases v) auto
  then have "check_graph_permission db cfg rq g i \<noteq> (Some (Rows gr rs), rq')" for g
    by (auto simp: check_graph_permission_def split: option.split prod.split verdict.split)
  then show ?thesis by (simp add: resolve_request_graph_def resolve_graph_def)
qed

lemma list_rows:
  "on_rest_list db cfg rq rows = Rows gr rs \<Longrightarrow>
   rs = (case (if mc_group_scoped cfg then aq_group rq else None) of
           None \<Rightarrow> rows | Some g \<Rightarrow> filter (\<lambda>i. in_group i = Some g) rows)"
  using resolve_graph_rows [of db cfg rq "''list''" None]
  by (auto simp: on_rest_list_def on_rest_list_response_def split: prod.splits option.splits if_splits)

end
