(* ===== verification/Rest_Security.thy ===== *)
theory Rest_Security
  imports Rest_Laws
begin

text \<open>The security properties of the permission gate, with a small tenant world as their witness.\<close>

section \<open>A world of three tenants\<close>

text \<open>Group 1 has the child 2; group 3 is another tenant, group 4 a suspended child of 1.\<close>

definition ex_groups :: group_table where
  "ex_groups = [(1, ex_group None), (2, ex_group (Some 1)), (3, ex_group None),
     (4, (ex_group (Some 1))\<lparr>gr_active := False\<rparr>)]"

definition ex_user :: "dict \<Rightarrow> user_row" where
  "ex_user d = \<lparr>us_active = True, us_superuser = False, us_perms = d, us_auth_key = ''k''\<rparr>"

definition ex_member :: "int \<Rightarrow> int \<Rightarrow> int \<Rightarrow> dict \<Rightarrow> member_row" where
  "ex_member i u g d = \<lparr>mb_id = i, mb_user = u, mb_group = g, mb_active = True, mb_perms = d\<rparr>"

definition ex_key :: "int \<Rightarrow> bool \<Rightarrow> dict \<Rightarrow> key_row" where
  "ex_key g ovr d = \<lparr>ky_id = 1, ky_group = g, ky_user = Some 7, ky_override = ovr, ky_active = True,
     ky_expires = None, ky_hash = ''h'', ky_perms = d\<rparr>"

text \<open>User 7 manages devices everywhere by a global grant, is a plain member of 1 and a manager of 3.\<close>

definition ex_db :: account_db where
  "ex_db = \<lparr>ad_groups = ex_groups, ad_users = [(7, ex_user [(''manage_devices'', JBool True)]), (8, ex_user [])],
     ad_members = [ex_member 1 7 1 [], ex_member 2 7 3 [(''manage_devices'', JBool True)],
                   ex_member 3 8 1 [(''view_devices'', JBool True)], ex_member 4 8 2 []], ad_keys = []\<rparr>"

definition ex_cfg :: model_cfg where
  "ex_cfg = \<lparr>mc_name = ''Device'', mc_group_scoped = True,
     mc_perms = [''VIEW_PERMS'' \<mapsto> [''view_devices'', ''manage_devices''], ''SAVE_PERMS'' \<mapsto> [''manage_devices'']],
     mc_owner_self = False, mc_graphs = [], mc_graph_perms = [], mc_allow_global = False,
     mc_can_create = True, mc_can_update = None, mc_can_save = None, mc_can_delete = False, mc_can_batch = True,
     mc_view_hook = None, mc_edit_hook = None\<rparr>"

definition ex_row :: "int \<Rightarrow> int option \<Rightarrow> inst" where
  "ex_row i g = \<lparr>in_pk = i, in_group = g, in_owner = None\<rparr>"

definition ex_rq :: "principal \<Rightarrow> key_row option \<Rightarrow> int option \<Rightarrow> auth_request" where
  "ex_rq p k g = \<lparr>aq_user = p, aq_api_key = k, aq_group_token = None, aq_group = g, aq_acting_user = None,
     aq_method = ''GET'', aq_graph = None, aq_group_param = None, aq_group_uuid = None, aq_bearer = None\<rparr>"

lemmas ex_world = ex_groups_def ex_group_def ex_user_def ex_member_def ex_key_def ex_db_def ex_cfg_def ex_row_def ex_rq_def

lemma ex_chains:
  "is_chain ex_groups (Some 1) [1]" "is_chain ex_groups (Some 2) [2, 1]" "is_chain ex_groups (Some 3) [3]"
  by (simp_all add: ex_groups_def ex_group_def)

lemma ex_ancestors:
  "ancestors ex_groups 1 True n = (if n = 0 then Inl (ValueError ''Group hierarchy exceeds the supported depth'') else Inr [1])"
  "ancestors ex_groups 3 True n = (if n = 0 then Inl (ValueError ''Group hierarchy exceeds the supported depth'') else Inr [3])"
  by (simp_all add: ancestors_def ex_groups_def ex_group_def split: nat.split)

section \<open>Confined credentials\<close>

definition guarded :: "model_cfg \<Rightarrow> string list \<Rightarrow> bool" where
  "guarded cfg names \<longleftrightarrow> get_rest_meta_prop cfg names \<noteq> [] \<and> ''authenticated'' \<notin> set (get_rest_meta_prop cfg names)"

text \<open>A row is within reach of a credential: its group is in the active tree, or the model opted in.\<close>

definition in_reach :: "account_db \<Rightarrow> model_cfg \<Rightarrow> confined \<Rightarrow> string list \<Rightarrow> inst \<Rightarrow> bool" where
  "in_reach db cfg c perms i \<longleftrightarrow>
     (mc_group_scoped cfg \<and> (\<exists>g. in_group i = Some g \<and> in_active_tree (ad_groups db) (conf_home c) g))
     \<or> opted_in cfg c perms"

lemma refusal_None [simp]: "verdict_reply v = None \<longleftrightarrow> v = Allow"
  by (cases v) simp_all

lemma check_in_reach:
  assumes "restricted_identity rq = Some c" and "check_or_raise db cfg names (Some i) rq = (None, rq')"
    and "guarded cfg names" and "mc_view_hook cfg = None" and "mc_edit_hook cfg = None"
  shows "in_reach db cfg c (get_rest_meta_prop cfg names) i"
proof -
  from assms(2) have "evaluate_perms db cfg (get_rest_meta_prop cfg names) names (Some i) True rq = (Allow, rq')"
    by (simp add: check_or_raise_def evaluate_permission_def split: prod.splits)
  from row_confined [OF assms(1) this] assms(3-5) show ?thesis by (auto simp: in_reach_def guarded_def)
qed

lemma get_checked: "on_rest_handle_get db cfg rq i = Item gr j \<Longrightarrow> \<exists>rq'. check_or_raise db cfg [''VIEW_PERMS''] (Some i) rq = (None, rq')"
proof -
  have "verdict_reply v \<noteq> Some (Item gr j)" for v by (cases v) auto
  then have "check_or_raise db cfg names x rq \<noteq> (Some (Item gr j), rq')" for names x rq'
    by (auto simp: check_or_raise_def split: prod.split)
  then show "on_rest_handle_get db cfg rq i = Item gr j \<Longrightarrow> ?thesis"
    by (auto simp: on_rest_handle_get_def split: prod.splits option.splits)
qed

lemma save_checked: "on_rest_handle_save db cfg save rq i w = (r, w') \<Longrightarrow> w' \<noteq> w \<Longrightarrow>
    \<exists>rq'. check_or_raise db cfg [''SAVE_PERMS'', ''VIEW_PERMS''] (Some i) rq = (None, rq')"
  by (auto simp: on_rest_handle_save_def split: if_splits prod.splits option.splits)

lemma delete_checked: "on_rest_handle_delete db cfg del rq i w = (r, w') \<Longrightarrow> w' \<noteq> w \<Longrightarrow>
    \<exists>rq'. check_or_raise db cfg [''DELETE_PERMS'', ''SAVE_PERMS'', ''VIEW_PERMS''] (Some i) rq = (None, rq')"
  by (auto simp: on_rest_handle_delete_def split: if_splits prod.splits option.splits)

text \<open>
  C5: a credential confined to a group (an API key, or a group token) reads, saves or deletes a row only
  where the row's own group lies in the credential's active tree: on the path to the root the home
  group occurs and no group is suspended. The one exception is a key on a model without groups that
  opted in.
\<close>

theorem credential_row_confined:
  assumes "restricted_identity rq = Some c"
    and "(names = [''VIEW_PERMS''] \<and> on_rest_handle_get db cfg rq i = Item gr j)
      \<or> (names = [''SAVE_PERMS'', ''VIEW_PERMS''] \<and> on_rest_handle_save db cfg save rq i w = (r, w') \<and> w' \<noteq> w)
      \<or> (names = [''DELETE_PERMS'', ''SAVE_PERMS'', ''VIEW_PERMS''] \<and> on_rest_handle_delete db cfg del rq i w = (r, w') \<and> w' \<noteq> w)"
    and "guarded cfg names" and "mc_view_hook cfg = None" and "mc_edit_hook cfg = None"
  shows "in_reach db cfg c (get_rest_meta_prop cfg names) i"
proof -
  from assms(2) obtain rq' where "check_or_raise db cfg names (Some i) rq = (None, rq')"
    using get_checked save_checked delete_checked by metis
  from check_in_reach [OF assms(1) this assms(3-5)] show ?thesis .
qed

lemma on_rest_list_nil: "on_rest_list db cfg rq [] = on_rest_list_response db cfg rq []"
  by (simp add: on_rest_list_def split: option.split)

lemma list_denied:
  assumes "evaluate_permission db cfg [''VIEW_PERMS''] None rq = (Deny a b s, rq)"
    and "lists_own cfg rq (get_rest_meta_prop cfg [''VIEW_PERMS'']) = None"
    and "is_authenticated (aq_user rq)" and "mc_group_scoped cfg"
    and "groups_with_permission db rq (get_rest_meta_prop cfg [''VIEW_PERMS'']) = Some ids"
  shows "on_rest_handle_list db cfg deny rows rq =
     (if ids = [] then (if deny then Denied ''list_perm_deny'' ''user_permission_denied'' 403
                        else on_rest_list_response db cfg rq [])
      else on_rest_list db cfg rq (filter (\<lambda>i. \<exists>g. in_group i = Some g \<and> g \<in> set ids) rows))"
proof -
  have "filter (\<lambda>i. case in_group i of None \<Rightarrow> False | Some x \<Rightarrow> x \<in> set xs) rows =
      filter (\<lambda>i. \<exists>g. in_group i = Some g \<and> g \<in> set xs) rows" for xs
    by (rule filter_cong) (auto split: option.split)
  with assms show ?thesis by (cases ids) (simp_all only: on_rest_handle_list_def Let_def prod.case verdict.case option.case list.case if_True simp_thms list.distinct if_False)
qed

text \<open>
  C6: a list that a confined credential is served holds only such rows, whatever group the caller names
  and whatever rows the table has.
\<close>

theorem credential_list_confined:
  assumes "restricted_identity rq = Some c" and "distinct (map fst (ad_groups db))"
    and "guarded cfg [''VIEW_PERMS'']"
    and "on_rest_handle_list db cfg deny rows rq = Rows gr rs" and "i \<in> set rs"
  shows "in_reach db cfg c (get_rest_meta_prop cfg [''VIEW_PERMS'']) i"
proof -
  let ?ps = "get_rest_meta_prop cfg [''VIEW_PERMS'']"
  obtain v rq' where ev: "evaluate_permission db cfg [''VIEW_PERMS''] None rq = (v, rq')" by (cases "evaluate_permission db cfg [''VIEW_PERMS''] None rq")
  then have rq': "rq' = rq" and v: "v = Allow \<Longrightarrow> decide db cfg ?ps rq = Allow"
    using assms(3) by (auto simp: evaluate_permission_def evaluate_perms_def guarded_def split: if_splits)
  show ?thesis
  proof (cases v)
    case Allow
    then have "on_rest_list db cfg rq rows = Rows gr rs" using assms(4) ev rq' by (simp add: on_rest_handle_list_def)
    then have rs: "rs = (case (if mc_group_scoped cfg then aq_group rq else None) of
        None \<Rightarrow> rows | Some g \<Rightarrow> filter (\<lambda>i. in_group i = Some g) rows)" by (rule list_rows)
    from decide_confined [OF assms(1) v [OF Allow]] show ?thesis
      using rs assms(5) conf_cred.allowed_tree by (fastforce simp: in_reach_def simp del: conf_allowed.simps)
  next
    case (Deny a b s)
    have own: "lists_own cfg rq ?ps = None" using conf_credential [OF assms(1)] by (simp add: lists_own_def)
    show ?thesis
    proof (cases "is_authenticated (aq_user rq) \<and> mc_group_scoped cfg")
      case False
      with own Deny assms(4) ev rq' have "on_rest_list_response db cfg rq [] = Rows gr rs"
        by (auto simp: on_rest_handle_list_def Let_def split: if_splits)
      then have "on_rest_list db cfg rq [] = Rows gr rs" by (simp add: on_rest_list_nil)
      from list_rows [OF this] assms(5) show ?thesis by (simp split: option.splits)
    next
      case True
      define ids where "ids = conf_groups_with_permission db c ?ps"
      then have "groups_with_permission db rq ?ps = Some ids" using assms(1) by (simp add: groups_with_permission_def)
      from list_denied [OF ev [unfolded rq' Deny] own _ _ this] True assms(4)
      have "\<exists>xs. on_rest_list db cfg rq xs = Rows gr rs \<and> (\<forall>x \<in> set xs. \<exists>g. in_group x = Some g \<and> g \<in> set ids)"
        by (fastforce split: if_splits simp: on_rest_list_nil)
      then obtain xs where xs: "on_rest_list db cfg rq xs = Rows gr rs" "\<forall>x \<in> set xs. \<exists>g. in_group x = Some g \<and> g \<in> set ids" by blast
      from list_rows [OF xs(1)] assms(5) have "i \<in> set xs" by (auto split: option.splits if_splits)
      with xs(2) obtain g where "in_group i = Some g" "g \<in> set ids" by blast
      with conf_cred.visible_tree [OF assms(2)] True show ?thesis unfolding in_reach_def ids_def by blast
    qed
  next
    case Crash
    with assms(4) ev show ?thesis by (simp add: on_rest_handle_list_def)
  qed
qed

lemma ex_distinct: "distinct (map fst (ad_groups ex_db))"
  by (simp add: ex_db_def ex_groups_def)

lemma ex_rq_key [simp]: "restricted_identity (ex_rq p (Some k) g) = Some (ConfKey k)" "restricted_identity (ex_rq p None g) = None"
  by (simp_all add: restricted_identity_def ex_rq_def)

lemma ex_guarded: "guarded ex_cfg [''VIEW_PERMS'']" "guarded ex_cfg [''SAVE_PERMS'', ''VIEW_PERMS'']"
  by (simp_all add: guarded_def get_rest_meta_prop_def ex_cfg_def List.map_filter_def)

theorem credential_row_confined_witness:
  "\<exists>i gr. on_rest_handle_get ex_db ex_cfg (ex_rq (AsKey (ex_key 1 False [(''view_devices'', JBool True)]))
       (Some (ex_key 1 False [(''view_devices'', JBool True)])) (Some 3)) i = Item gr i \<and> in_group i = Some 2
     \<and> in_reach ex_db ex_cfg (ConfKey (ex_key 1 False [(''view_devices'', JBool True)])) [''view_devices'', ''manage_devices''] i"
proof -
  let ?k = "ex_key 1 False [(''view_devices'', JBool True)]"
  let ?rq = "ex_rq (AsKey ?k) (Some ?k) (Some 3)" and ?i = "ex_row 10 (Some 2)"
  have served: "on_rest_handle_get ex_db ex_cfg ?rq ?i = Item ''default'' ?i" by code_simp
  have "in_reach ex_db ex_cfg (ConfKey ?k) (get_rest_meta_prop ex_cfg [''VIEW_PERMS'']) ?i"
    by (rule credential_row_confined [where rq = ?rq and names = "[''VIEW_PERMS'']" and j = ?i and gr = "''default''"])
      (use served ex_guarded in \<open>simp_all add: ex_cfg_def\<close>)
  then show ?thesis using served by (auto simp: get_rest_meta_prop_def ex_cfg_def List.map_filter_def ex_row_def)
qed


text \<open>The rows of the four groups and one without a group.\<close>

definition ex_rows :: "inst list" where
  "ex_rows = [ex_row 10 (Some 2), ex_row 11 (Some 3), ex_row 12 (Some 1), ex_row 13 None, ex_row 14 (Some 4)]"

theorem credential_list_confined_witness:
  "\<exists>gr rs i. on_rest_handle_list ex_db ex_cfg True ex_rows (ex_rq (AsKey (ex_key 1 False [(''view_devices'', JBool True)]))
       (Some (ex_key 1 False [(''view_devices'', JBool True)])) None) = Rows gr rs \<and> map in_pk rs = [10, 12] \<and> i \<in> set rs
     \<and> in_reach ex_db ex_cfg (ConfKey (ex_key 1 False [(''view_devices'', JBool True)])) [''view_devices'', ''manage_devices''] i"
proof -
  let ?k = "ex_key 1 False [(''view_devices'', JBool True)]"
  let ?rq = "ex_rq (AsKey ?k) (Some ?k) None"
  have served: "on_rest_handle_list ex_db ex_cfg True ex_rows ?rq = Rows ''list'' [ex_row 10 (Some 2), ex_row 12 (Some 1)]"
    by code_simp
  have "in_reach ex_db ex_cfg (ConfKey ?k) (get_rest_meta_prop ex_cfg [''VIEW_PERMS'']) (ex_row 10 (Some 2))"
    by (rule credential_list_confined [OF _ ex_distinct ex_guarded(1) served]) simp_all
  moreover have "get_rest_meta_prop ex_cfg [''VIEW_PERMS''] = [''view_devices'', ''manage_devices'']" by code_simp
  moreover have "map in_pk [ex_row 10 (Some 2), ex_row 12 (Some 1)] = [10, 12]" by (simp add: ex_row_def)
  ultimately show ?thesis using served by (metis list.set_intros(1))
qed

section \<open>Sessions that assume a member\<close>

text \<open>
  For a session that assumes a member (an override key, or a group token), what is allowed does not
  depend on the user rows at all: neither the user's own grants nor the superuser flag count, unless
  the model asks for a \<open>sys.\<close> permission.
\<close>

theorem override_ignores_own_grants:
  assumes "restricted_identity rq = Some c" and "conf_override c"
    and "list_all (\<lambda>p. \<not> starts_with p ''sys.'') perms"
    and "case target of None \<Rightarrow> True | Some i \<Rightarrow> hook_for h (\<exists>k \<in> set keys. k \<in> set WRITE_KEYS) cfg = None"
  shows "evaluate_perms (with_users db us) cfg perms keys target h rq = evaluate_perms db cfg perms keys target h rq"
proof -
  have d: "restricted_identity r = Some c \<Longrightarrow> decide (with_users db us) cfg perms r = decide db cfg perms r" for r
    using decide_users assms(2,3) by blast
  show ?thesis
  proof (cases target)
    case None
    with d [OF assms(1)] show ?thesis by (simp add: evaluate_perms_def)
  next
    case (Some i)
    then have nh: "hook_for h (\<exists>k \<in> set keys. k \<in> set WRITE_KEYS) cfg = None" using assms(4) by simp
    have "inactive_instance (with_users db us) cfg rq i = inactive_instance db cfg rq i"
      by (simp add: inactive_instance_def cong: option.case_cong)
    with d [of "rq\<lparr>aq_group := in_group i\<rparr>"] assms(1) Some show ?thesis
      unfolding evaluate_perms_def by (simp add: nh Let_def)
  qed
qed

theorem override_ignores_own_grants_witness:
  "evaluate_perms (with_users ex_db []) ex_cfg [''manage_devices''] [''SAVE_PERMS''] (Some (ex_row 10 (Some 2))) True
      (ex_rq (AsUser 7) (Some (ex_key 1 True [])) None)
   = evaluate_perms ex_db ex_cfg [''manage_devices''] [''SAVE_PERMS''] (Some (ex_row 10 (Some 2))) True
      (ex_rq (AsUser 7) (Some (ex_key 1 True [])) None)
   \<and> fst (evaluate_perms ex_db ex_cfg [''manage_devices''] [''SAVE_PERMS''] (Some (ex_row 10 (Some 2))) True
      (ex_rq (AsUser 7) (Some (ex_key 1 True [])) None)) = Deny ''group.user_has_permission'' ''group_member_permission_denied'' 403
   \<and> fst (evaluate_perms ex_db ex_cfg [''manage_devices''] [''SAVE_PERMS''] (Some (ex_row 10 (Some 2))) True
      (ex_rq (AsUser 7) None None)) = Allow"
proof (intro conjI)
  show "evaluate_perms (with_users ex_db []) ex_cfg [''manage_devices''] [''SAVE_PERMS''] (Some (ex_row 10 (Some 2))) True
      (ex_rq (AsUser 7) (Some (ex_key 1 True [])) None)
   = evaluate_perms ex_db ex_cfg [''manage_devices''] [''SAVE_PERMS''] (Some (ex_row 10 (Some 2))) True
      (ex_rq (AsUser 7) (Some (ex_key 1 True [])) None)"
    by (rule override_ignores_own_grants [where c = "ConfKey (ex_key 1 True [])"])
      (simp_all add: ex_key_def ex_cfg_def starts_with_def)
qed code_simp+

text \<open>
  C7: and what such a session is allowed on a row of a tenant is what an active member row of its user
  grants, in the row's group or an ancestor of it, all of them active.
\<close>

theorem override_needs_member:
  assumes "restricted_identity rq = Some c" and "conf_override c" and "mc_group_scoped cfg"
    and "evaluate_perms db cfg perms keys (Some i) h rq = (Allow, rq')"
    and "perms \<noteq> []" and "''authenticated'' \<notin> set perms"
    and "hook_for h (\<exists>k \<in> set keys. k \<in> set WRITE_KEYS) cfg = None"
  shows "\<exists>g m ch. in_group i = Some g \<and> is_chain (ad_groups db) (Some g) ch \<and> (\<forall>x \<in> set ch. row_active (ad_groups db) x)
    \<and> m \<in> set (ad_members db) \<and> user_pk (aq_user rq) = Some (mb_user m) \<and> mb_active m \<and> mb_group m \<in> set ch
    \<and> conf_home c \<in> set ch \<and> member_has db m perms"
proof -
  have "\<not> owns rq i" using conf_credential [OF assms(1)] by (simp add: owns_def)
  with evaluate_row [OF assms(4-7)] have rq': "rq' = rq\<lparr>aq_group := in_group i\<rparr>" and d: "decide db cfg perms rq' = Allow" by auto
  have r: "restricted_identity rq' = Some c" using rq' assms(1) by simp
  from decide_confined [OF r d] assms(3) rq' obtain g where g: "in_group i = Some g" "aq_group rq' = Some g" "conf_allowed db c g"
    by (auto simp: opted_in_def)
  from override_decided_by_member [OF r assms(2,3) g(2) d] obtain m
    where m: "get_member_for_user db g (aq_user rq') True True 8 = Some m" "member_has db m perms" .
  from member_of_chain [OF m(1)] obtain u ch where ch: "aq_user rq' = AsUser u" "is_chain (ad_groups db) (Some g) ch"
    "\<forall>x \<in> set ch. row_active (ad_groups db) x" "m \<in> set (ad_members db)" "mb_user m = u" "mb_active m" "mb_group m \<in> set ch" .
  from conf_cred.allowed_tree [OF g(3)] ch(2) have "conf_home c \<in> set ch"
    using chain_unique by (auto simp: in_active_tree_def)
  with g(1) m(2) ch rq' show ?thesis by auto
qed

theorem override_needs_member_witness:
  "fst (evaluate_perms ex_db ex_cfg [''view_devices''] [''VIEW_PERMS''] (Some (ex_row 12 (Some 1))) True
      (ex_rq (AsUser 8) (Some (ex_key 1 True [])) None)) = Allow
   \<and> (\<exists>m \<in> set (ad_members ex_db). mb_user m = 8 \<and> mb_active m \<and> member_has ex_db m [''view_devices''])"
proof -
  let ?rq = "ex_rq (AsUser 8) (Some (ex_key 1 True [])) None" and ?i = "ex_row 12 (Some 1)"
  have ok: "evaluate_perms ex_db ex_cfg [''view_devices''] [''VIEW_PERMS''] (Some ?i) True ?rq =
      (Allow, snd (evaluate_perms ex_db ex_cfg [''view_devices''] [''VIEW_PERMS''] (Some ?i) True ?rq))"
    (is "?e = _")
  proof -
    have "fst ?e = Allow" by code_simp
    then show ?thesis by (metis prod.collapse)
  qed
  have "conf_override (ConfKey (ex_key 1 True []))" "mc_group_scoped ex_cfg" by (simp_all add: ex_key_def ex_cfg_def)
  from override_needs_member [OF ex_rq_key(1) this ok]
  have "\<exists>m \<in> set (ad_members ex_db). mb_user m = 8 \<and> mb_active m \<and> member_has ex_db m [''view_devices'']"
    by (auto simp: ex_cfg_def ex_rq_def)
  with ok show ?thesis by (metis fst_conv)
qed

section \<open>The group a caller names\<close>

text \<open>
  On a row of a class without hooks the answer does not depend on the group the request carries,
  which a caller chooses: it is decided for the row's own group.
\<close>

theorem caller_group_irrelevant:
  assumes "hook_for h (\<exists>k \<in> set keys. k \<in> set WRITE_KEYS) cfg = None"
  shows "fst (evaluate_perms db cfg perms keys (Some i) h (rq\<lparr>aq_group := g\<rparr>))
       = fst (evaluate_perms db cfg perms keys (Some i) h rq)"
proof -
  have "inactive_instance db cfg (rq\<lparr>aq_group := g\<rparr>) i = inactive_instance db cfg rq i"
    "owns (rq\<lparr>aq_group := g\<rparr>) i = owns rq i" "is_request_user (rq\<lparr>aq_group := g\<rparr>) = is_request_user rq"
    by (simp_all add: inactive_instance_def owns_def is_request_user_def)
  then show ?thesis by (simp add: evaluate_perms_def assms Let_def)
qed

theorem caller_group_irrelevant_witness:
  "fst (evaluate_perms ex_db ex_cfg [''view_devices''] [''VIEW_PERMS''] (Some (ex_row 11 (Some 3))) True
      ((ex_rq (AsUser 8) None None)\<lparr>aq_group := Some 1\<rparr>))
   = fst (evaluate_perms ex_db ex_cfg [''view_devices''] [''VIEW_PERMS''] (Some (ex_row 11 (Some 3))) True (ex_rq (AsUser 8) None None))
   \<and> fst (evaluate_perms ex_db ex_cfg [''view_devices''] [''VIEW_PERMS''] None True ((ex_rq (AsUser 8) None None)\<lparr>aq_group := Some 1\<rparr>)) = Allow
   \<and> fst (evaluate_perms ex_db ex_cfg [''view_devices''] [''VIEW_PERMS''] (Some (ex_row 11 (Some 3))) True (ex_rq (AsUser 8) None None)) \<noteq> Allow"
proof (intro conjI)
  show "fst (evaluate_perms ex_db ex_cfg [''view_devices''] [''VIEW_PERMS''] (Some (ex_row 11 (Some 3))) True
      ((ex_rq (AsUser 8) None None)\<lparr>aq_group := Some 1\<rparr>))
   = fst (evaluate_perms ex_db ex_cfg [''view_devices''] [''VIEW_PERMS''] (Some (ex_row 11 (Some 3))) True (ex_rq (AsUser 8) None None))"
    by (rule caller_group_irrelevant) (simp add: ex_cfg_def)
qed code_simp+

section \<open>Unauthenticated requests\<close>

text \<open>
  A request without an authenticated identity is refused with 401 by every handler of a model whose
  permissions do not admit \<open>all\<close>, before hooks and writes.
\<close>

theorem unauthenticated_refused:
  assumes "\<not> is_authenticated (aq_user rq)"
    and "\<And>names. names \<in> {[''VIEW_PERMS''], [''SAVE_PERMS'', ''VIEW_PERMS''], [''DELETE_PERMS'', ''SAVE_PERMS'', ''VIEW_PERMS'']}
           \<Longrightarrow> get_rest_meta_prop cfg names \<noteq> [] \<and> ''all'' \<notin> set (get_rest_meta_prop cfg names)"
    and "resolve_can_update cfg" and "mc_can_delete cfg"
  shows "on_rest_handle_get db cfg rq i = Denied ''unauthenticated'' ''unauthenticated'' 401
    \<and> on_rest_handle_save db cfg save rq i w = (Denied ''unauthenticated'' ''unauthenticated'' 401, w)
    \<and> on_rest_handle_delete db cfg del rq i w = (Denied ''unauthenticated'' ''unauthenticated'' 401, w)
    \<and> on_rest_handle_list db cfg deny rows rq = Denied ''list_unauthenticated'' ''unauthenticated'' 401"
proof -
  have ev: "evaluate_permission db cfg names x rq = (Deny ''unauthenticated'' ''unauthenticated'' 401, rq)"
    if "names \<in> {[''VIEW_PERMS''], [''SAVE_PERMS'', ''VIEW_PERMS''], [''DELETE_PERMS'', ''SAVE_PERMS'', ''VIEW_PERMS'']}" for names x
    using assms(1) assms(2) [OF that] by (simp add: evaluate_permission_def evaluate_perms_def)
  then have ch: "check_or_raise db cfg names x rq = (Some (Denied ''unauthenticated'' ''unauthenticated'' 401), rq)"
    if "names \<in> {[''VIEW_PERMS''], [''SAVE_PERMS'', ''VIEW_PERMS''], [''DELETE_PERMS'', ''SAVE_PERMS'', ''VIEW_PERMS'']}" for names x
    using that by (simp add: check_or_raise_def)
  have "user_pk (aq_user rq) = None" using assms(1) by (cases "aq_user rq") simp_all
  then have "lists_own cfg rq ps = None" for ps by (simp add: lists_own_def)
  with ev ch assms(1,3,4) show ?thesis
    by (simp add: on_rest_handle_get_def on_rest_handle_save_def on_rest_handle_delete_def on_rest_handle_list_def Let_def)
qed

theorem unauthenticated_refused_witness:
  "on_rest_handle_get ex_db (ex_cfg\<lparr>mc_can_delete := True\<rparr>) (ex_rq Anonymous None (Some 1)) (ex_row 12 (Some 1))
     = Denied ''unauthenticated'' ''unauthenticated'' 401"
proof -
  let ?cfg = "ex_cfg\<lparr>mc_can_delete := True\<rparr>"
  have ok: "\<not> is_authenticated (aq_user (ex_rq Anonymous None (Some 1)))" "resolve_can_update ?cfg" "mc_can_delete ?cfg"
    by (simp_all add: ex_rq_def ex_cfg_def resolve_can_update_def)
  have ps: "get_rest_meta_prop ?cfg names \<noteq> [] \<and> ''all'' \<notin> set (get_rest_meta_prop ?cfg names)"
    if "names \<in> {[''VIEW_PERMS''], [''SAVE_PERMS'', ''VIEW_PERMS''], [''DELETE_PERMS'', ''SAVE_PERMS'', ''VIEW_PERMS'']}" for names
    using that by (auto simp: get_rest_meta_prop_def ex_cfg_def List.map_filter_def)
  show ?thesis by (rule unauthenticated_refused [OF ok(1) ps ok(2,3), THEN conjunct1])
qed

section \<open>Lists and details of ordinary users\<close>

lemma chain_of_suffix:
  assumes "is_chain T (Some g) ch" and "a \<in> set ch"
  obtains ch' where "is_chain T (Some a) ch'" "length ch' \<le> length ch" "set ch' \<subseteq> set ch"
proof -
  from assms(2) obtain pre post where ch: "ch = pre @ a # post" by (meson split_list)
  with assms(1) have "is_chain T (Some a) (a # post)" using chain_suffix by metis
  with ch that [of "a # post"] show thesis by auto
qed

lemma subtree_more_roots: "set roots \<subseteq> set roots' \<Longrightarrow> set (active_subtree T roots) \<subseteq> set (active_subtree T roots')"
proof
  fix x assume "set roots \<subseteq> set roots'" "x \<in> set (active_subtree T roots)"
  moreover have "\<forall>x \<in> set (active_subtree T roots). x \<in> set (active_subtree T roots')" if "set roots \<subseteq> set roots'"
    unfolding active_subtree_def [of T roots]
  proof (rule walk_down_only)
    have "set roots' \<subseteq> set (active_subtree T roots')" using walk_down_props [of "[]" T gr_active roots'] by (simp add: active_subtree_def)
    with that show "\<forall>x \<in> set roots \<union> set []. x \<in> set (active_subtree T roots')" by auto
    show "y \<in> set (active_subtree T roots')" if "x \<in> set (active_subtree T roots')" "y \<in> set (children T gr_active x)" for x y
      using walk_down_props [of "[]" T gr_active roots'] that by (auto simp: active_subtree_def)
  qed
  ultimately show "x \<in> set (active_subtree T roots')" by blast
qed

lemma member_group_listed:
  assumes "distinct (map fst (ad_groups db))"
    and "get_member_for_user db g (AsUser u) True True 8 = Some m" and "member_has db m perms"
  shows "g \<in> set (user_groups_with_permission db u perms)"
proof -
  let ?T = "ad_groups db"
  from member_of_chain [OF assms(2)] obtain u' ch where u: "AsUser u = AsUser u'" and ch: "is_chain ?T (Some g) ch" "length ch \<le> 9"
    "\<forall>x \<in> set ch. row_active ?T x" "m \<in> set (ad_members db)" "mb_user m = u'" "mb_active m" "mb_group m \<in> set ch" .
  obtain ch' where ch': "is_chain ?T (Some (mb_group m)) ch'" "length ch' \<le> length ch" "set ch' \<subseteq> set ch"
    using chain_of_suffix [OF ch(1,7)] .
  have active: "row_active ?T (mb_group m) \<and> is_effectively_active ?T 8 (mb_group m)"
    unfolding effectively_active_chain using ch ch' by fastforce
  have g: "map_of ?T g \<noteq> None" using ch(1) by (auto elim: is_chain_SomeE)
  have "g \<in> set (active_subtree ?T [mb_group m])"
    using active_subtree_complete [OF assms(1), of "mb_group m" g] ch unfolding in_active_tree_def by blast
  then have listed: "g \<in> set (effectively_active_group_ids ?T direct True)" if "mb_group m \<in> set direct" for direct
    using subtree_more_roots [of "[mb_group m]" "filter (\<lambda>g. row_active ?T g \<and> is_effectively_active ?T 8 g) direct"] that active
    by (auto simp: effectively_active_group_ids_def)
  have "mb_group m \<in> set (map mb_group (filter (\<lambda>m. mb_user m = u \<and> mb_active m) (ad_members db)))"
    "mb_group m \<in> set (map mb_group (filter (\<lambda>m. mb_user m = u \<and> mb_active m \<and> member_has db m perms) (ad_members db)))"
    using ch(4-6) u assms(3) by auto
  from listed [OF this(1)] listed [OF this(2)] g show ?thesis
    by (simp add: user_groups_with_permission_def user_groups_def in_table_def)
qed

text \<open>
  What the detail gate grants a member, the list shows: a row that an ordinary user may read by a
  member grant, and not by ownership, is in the list of the same user without a group parameter, when
  the user has no global grant and the model no graph gate.
\<close>

theorem readable_rows_are_listed:
  assumes "aq_user rq = AsUser u" and "restricted_identity rq = None" and "aq_group rq = None"
    and "distinct (map fst (ad_groups db))" and "mc_group_scoped cfg" and "mc_graphs cfg = []"
    and "guarded cfg [''VIEW_PERMS'']" and "mc_view_hook cfg = None" and "mc_edit_hook cfg = None"
    and "''owner'' \<notin> set (get_rest_meta_prop cfg [''VIEW_PERMS''])"
    and "\<not> id_has db u (get_rest_meta_prop cfg [''VIEW_PERMS''])"
    and "on_rest_handle_get db cfg rq i = Item gr i" and "i \<in> set rows"
  shows "\<exists>gr rs. on_rest_handle_list db cfg deny rows rq = Rows gr rs \<and> i \<in> set rs"
proof -
  let ?ps = "get_rest_meta_prop cfg [''VIEW_PERMS'']"
  have ak: "aq_api_key rq = None" "aq_group_token rq = None" using assms(2) by (auto simp: restricted_identity_def split: option.splits)
  have nk: "\<not> is_key_backed_session rq" using assms(2) by (simp add: is_key_backed_session_def)
  have no: "\<not> is_override_user_session rq" using assms(2) by (simp add: is_override_user_session_def)
  from get_checked [OF assms(12)] obtain rq' where "evaluate_perms db cfg ?ps [''VIEW_PERMS''] (Some i) True rq = (Allow, rq')"
    by (auto simp: check_or_raise_def evaluate_permission_def split: prod.splits)
  from evaluate_row [OF this] assms(7-10) have rq': "rq' = rq\<lparr>aq_group := in_group i\<rparr>" and d: "decide db cfg ?ps rq' = Allow"
    by (auto simp: guarded_def)
  obtain g where g: "in_group i = Some g" and v: "group_verdict db g rq' ?ps = Allow"
    using d rq' nk assms(1,2,5,11) by (cases "in_group i") (auto simp: decide_def split: if_splits)
  from v rq' no have "user_has_permission db g (AsUser u) ?ps True"
    using assms(1) by (auto simp: group_verdict_def split: if_splits)
  with assms(11) obtain m where m: "get_member_for_user db g (AsUser u) True True 8 = Some m" "member_has db m ?ps"
    by (auto simp: user_has_permission_def split: option.splits)
  from member_group_listed [OF assms(4) m] have listed: "g \<in> set (user_groups_with_permission db u ?ps)" .
  have gp: "groups_with_permission db rq ?ps = Some (user_groups_with_permission db u ?ps)"
    using assms(1,2) by (simp add: groups_with_permission_def)
  have "is_request_user rq" using assms(1) by (simp add: is_request_user_def)
  then have ev: "evaluate_permission db cfg [''VIEW_PERMS''] None rq = (Deny ''user.has_permission'' ''user_permission_denied'' 403, rq)"
    using assms(1,3,7,11) nk by (simp add: evaluate_permission_def evaluate_perms_def decide_def guarded_def)
  have "lists_own cfg rq ?ps = None" using assms(10) by (simp add: lists_own_def)
  from list_denied [OF ev this _ assms(5) gp] assms(1) listed
  have "on_rest_handle_list db cfg deny rows rq =
      on_rest_list db cfg rq (filter (\<lambda>i. \<exists>g. in_group i = Some g \<and> g \<in> set (user_groups_with_permission db u ?ps)) rows)"
    by auto
  also have "\<dots> = Rows (requested_graph rq ''list'') (filter (\<lambda>i. \<exists>g. in_group i = Some g \<and> g \<in> set (user_groups_with_permission db u ?ps)) rows)"
    using assms(3,6) by (simp add: on_rest_list_def on_rest_list_response_def resolve_request_graph_def resolve_graph_def)
  finally show ?thesis using listed g assms(13) by auto
qed

theorem readable_rows_are_listed_witness:
  "on_rest_handle_get ex_db ex_cfg (ex_rq (AsUser 8) None None) (ex_row 12 (Some 1)) = Item ''default'' (ex_row 12 (Some 1))
   \<and> (\<exists>gr rs. on_rest_handle_list ex_db ex_cfg True ex_rows (ex_rq (AsUser 8) None None) = Rows gr rs \<and> ex_row 12 (Some 1) \<in> set rs)"
proof
  let ?rq = "ex_rq (AsUser 8) None None"
  show served: "on_rest_handle_get ex_db ex_cfg ?rq (ex_row 12 (Some 1)) = Item ''default'' (ex_row 12 (Some 1))" by code_simp
  have ps: "get_rest_meta_prop ex_cfg [''VIEW_PERMS''] = [''view_devices'', ''manage_devices'']" by code_simp
  have "\<not> id_has ex_db 8 (get_rest_meta_prop ex_cfg [''VIEW_PERMS''])" by code_simp
  then show "\<exists>gr rs. on_rest_handle_list ex_db ex_cfg True ex_rows ?rq = Rows gr rs \<and> ex_row 12 (Some 1) \<in> set rs"
    by (intro readable_rows_are_listed [OF _ ex_rq_key(2) _ ex_distinct _ _ ex_guarded(1) _ _ _ _ served])
      (simp_all add: ps, simp_all add: ex_rq_def ex_cfg_def ex_rows_def)
qed

text \<open>
  The converse fails. The list follows every grant down the tree, the detail gate asks the member
  row nearest to the row's group alone: a user with a grant in a group and a plain member row in its
  child is listed the child's rows and refused each of them.
\<close>

theorem listed_row_not_readable:
  "\<exists>gr rs i. on_rest_handle_list ex_db ex_cfg True ex_rows (ex_rq (AsUser 8) None None) = Rows gr rs \<and> i \<in> set rs
     \<and> on_rest_handle_get ex_db ex_cfg (ex_rq (AsUser 8) None None) i
         = Denied ''group.user_has_permission'' ''group_member_permission_denied'' 403"
proof -
  have "on_rest_handle_list ex_db ex_cfg True ex_rows (ex_rq (AsUser 8) None None) = Rows ''list'' [ex_row 10 (Some 2), ex_row 12 (Some 1)]"
    "on_rest_handle_get ex_db ex_cfg (ex_rq (AsUser 8) None None) (ex_row 10 (Some 2))
         = Denied ''group.user_has_permission'' ''group_member_permission_denied'' 403"
    by code_simp+
  then show ?thesis by (metis list.set_intros(1))
qed

section \<open>Lists and details of keys\<close>

text \<open>
  C24: \<open>ApiKey.get_groups\<close>, one walk down from the key's group, collects exactly the groups that
  \<open>ApiKey.is_group_allowed\<close> admits one by one on the way up, for groups within the supported depth.
\<close>

theorem key_groups_exact:
  assumes "distinct (map fst (ad_groups db))" and "is_chain (ad_groups db) (Some g) ch" and "length ch \<le> 9"
  shows "g \<in> set (key_groups db k) \<longleftrightarrow> conf_allowed db (ConfKey k) g"
proof
  assume "g \<in> set (key_groups db k)"
  from key_groups_tree [OF assms(1) this] obtain ch' where "is_chain (ad_groups db) (Some g) ch'" "ky_group k \<in> set ch'"
    "\<forall>x \<in> set ch'. row_active (ad_groups db) x" by (auto simp: in_active_tree_def)
  with assms(2,3) chain_unique show "conf_allowed db (ConfKey k) g" unfolding key_allowed_chain by blast
next
  assume a: "conf_allowed db (ConfKey k) g"
  then obtain ch' where ch: "is_chain (ad_groups db) (Some g) ch'" "length ch' \<le> 9" "ky_group k \<in> set ch'"
    "\<forall>x \<in> set ch'. row_active (ad_groups db) x" unfolding key_allowed_chain by blast
  obtain up where "is_chain (ad_groups db) (Some (ky_group k)) up" "length up \<le> length ch'" "set up \<subseteq> set ch'"
    using chain_of_suffix [OF ch(1,3)] .
  with ch have "is_effectively_active (ad_groups db) 8 (ky_group k)" unfolding effectively_active_chain by fastforce
  moreover have "g \<in> set (active_subtree (ad_groups db) [ky_group k])"
    using active_subtree_complete [OF assms(1)] api_key_cred.allowed_tree [OF a] .
  moreover have "map_of (ad_groups db) g \<noteq> None" using ch(1) by (auto elim: is_chain_SomeE)
  ultimately show "g \<in> set (key_groups db k)" by (simp add: key_groups_def in_table_def)
qed

theorem key_groups_exact_witness:
  "2 \<in> set (key_groups ex_db (ex_key 1 False [])) \<and> 4 \<notin> set (key_groups ex_db (ex_key 1 False []))"
proof
  have "conf_allowed ex_db (ConfKey (ex_key 1 False [])) 2" by code_simp
  with key_groups_exact [OF ex_distinct, of 2 "[2, 1]"] ex_chains show "2 \<in> set (key_groups ex_db (ex_key 1 False []))"
    by (simp add: ex_db_def del: conf_allowed.simps)
qed code_simp

section \<open>Permission setters\<close>

text \<open>
  A session of an API key or a group token never changes a permission of the floor (or of the
  configured protection) on a key: whatever it submits, the stored value stays or the save fails.
\<close>

theorem key_session_keeps_floor:
  assumes "is_key_backed_session rq" and "apikey_perms_protection configured p \<noteq> None"
    and "key_set_permissions db configured rq kg current v = Inr d"
  shows "map_of d p = map_of current p"
proof -
  have no: "\<not> key_can_change db configured rq kg p"
    using assms(1,2) by (auto simp: key_can_change_def)
  have "set_permissions can current xs = Inr d \<Longrightarrow> \<not> can p \<Longrightarrow> map_of d p = map_of current p" for can xs
  proof (induction can current xs rule: set_permissions.induct)
    case (2 can current perm v rest)
    then show ?case by (cases "perm = p") (auto simp: update_conv' delete_conv' split: if_splits)
  qed simp
  with assms(3) no show ?thesis by (auto simp: key_set_permissions_def split: json.splits)
qed

theorem key_session_keeps_floor_witness:
  "\<exists>d. key_set_permissions ex_db (\<lambda>_. None) (ex_rq (AsKey (ex_key 1 False [(''groups'', JBool True)])) (Some (ex_key 1 False [(''groups'', JBool True)])) (Some 1))
      (Some 1) [] (JObj [(''edge_node'', JBool False), (''view_devices'', JBool True)]) = Inr d
    \<and> map_of d ''view_devices'' = Some (JBool True) \<and> map_of d ''edge_node'' = None"
proof -
  let ?k = "ex_key 1 False [(''groups'', JBool True)]"
  let ?rq = "ex_rq (AsKey ?k) (Some ?k) (Some 1)"
  have ok: "key_set_permissions ex_db (\<lambda>_. None) ?rq (Some 1) [] (JObj [(''edge_node'', JBool False), (''view_devices'', JBool True)])
      = Inr [(''view_devices'', JBool True)]" by code_simp
  have "map_of [(''view_devices'', JBool True)] ''edge_node'' = map_of [] ''edge_node''"
    by (rule key_session_keeps_floor [OF _ _ ok])
      (simp_all add: is_key_backed_session_def apikey_perms_protection_def APIKEY_PERMS_PROTECTION_DEFAULTS_def)
  with ok show ?thesis by auto
qed

text \<open>
  A platform permission of the protected list changes on a user only when the session's identity
  holds \<open>users\<close> or \<open>manage_users\<close>, whatever the deployment configures.
\<close>

theorem protected_user_permission:
  assumes "SYS_USER_PERMS_PROTECTION p \<noteq> None"
    and "user_set_permissions (user_can_change db configured who) current xs = Inr d"
    and "map_of d p \<noteq> map_of current p"
  shows "principal_has db who [''users'', ''manage_users'']"
proof (rule ccontr)
  assume "\<not> ?thesis"
  moreover from assms(1) obtain need where need: "SYS_USER_PERMS_PROTECTION p = Some need" by blast
  then have "SYS_USER_PERMS_PROTECTION p = Some [''users'', ''manage_users'']"
    using map_of_SomeD [OF need [unfolded SYS_USER_PERMS_PROTECTION_def]] by (simp only: set_map) blast
  ultimately have no: "\<not> user_can_change db configured who p" by (simp add: user_can_change_def map_add_def)
  have "user_set_permissions can current xs = Inr d \<Longrightarrow> \<not> can p \<Longrightarrow> map_of d p = map_of current p" for can
  proof (induction can current xs rule: user_set_permissions.induct)
    case (2 can current perm v rest)
    then show ?case by (cases "perm = p") (auto simp: update_conv' delete_conv' split: if_splits)
  qed simp
  with assms(2,3) no show False by blast
qed

definition ex_admin_db :: account_db where
  "ex_admin_db = ex_db\<lparr>ad_users := [(7, ex_user [(''users'', JBool True)])]\<rparr>"

theorem protected_user_permission_witness:
  "user_set_permissions (user_can_change ex_admin_db (\<lambda>_. None) (AsUser 7)) [] [(''manage_aws'', JBool True)] = Inr [(''manage_aws'', JBool True)]
   \<and> principal_has ex_admin_db (AsUser 7) [''users'', ''manage_users'']"
proof
  show ok: "user_set_permissions (user_can_change ex_admin_db (\<lambda>_. None) (AsUser 7)) [] [(''manage_aws'', JBool True)] = Inr [(''manage_aws'', JBool True)]"
    by code_simp
  show "principal_has ex_admin_db (AsUser 7) [''users'', ''manage_users'']"
    by (rule protected_user_permission [OF _ ok, of "''manage_aws''"]) (simp_all add: SYS_USER_PERMS_PROTECTION_def)
qed

end
