(* ===== verification/Credential_Tokens.thy ===== *)
theory Credential_Tokens
  imports Rest_Security
begin

text \<open>
  The two confined bearer credentials: API keys (\<open>account/models/api_key.py\<close>) and group tokens
  (\<open>account/services/group_token.py\<close> with the epoch of \<open>account/models/group.py\<close>), and the middleware
  that puts them on a request (\<open>middleware/auth.py\<close>). The hash, the HMAC and the encoding of a token's
  payload are the standard library's: parameters of the model.
\<close>

section \<open>API keys\<close>

text \<open>Linking a key to a member is the act of an interactive administrator of the key's group, or of the
  request's while the key is being created.\<close>

definition acting_group :: "auth_request \<Rightarrow> int option \<Rightarrow> int option" where
  "acting_group rq key_group = (case key_group of Some g \<Rightarrow> Some g | None \<Rightarrow> aq_group rq)"

definition can_manage_acting_user :: "account_db \<Rightarrow> auth_request \<Rightarrow> int option \<Rightarrow> bool" where
  "can_manage_acting_user db rq key_group =
     (if is_key_backed_session rq \<or> no_identity (aq_user rq) then False
      else if principal_has db (aq_user rq) [''manage_groups'', ''manage_users''] then True
      else (case acting_group rq key_group of
              None \<Rightarrow> False
            | Some g \<Rightarrow> (case get_member_for_user db g (aq_user rq) True True 8 of
                None \<Rightarrow> False | Some m \<Rightarrow> member_has db m MANAGER_PERMS)))"

definition denied :: "'a res" where
  "denied = Inl (HandlerError ''PermissionDeniedException'')"

definition validate_acting_user :: "account_db \<Rightarrow> auth_request \<Rightarrow> int option \<Rightarrow> int \<Rightarrow> unit res" where
  "validate_acting_user db rq key_group u =
     (case user_of db u of
        None \<Rightarrow> Inl DoesNotExist
      | Some r \<Rightarrow>
          if us_superuser r then denied
          else (case acting_group rq key_group of
                  None \<Rightarrow> denied
                | Some g \<Rightarrow> if get_member_for_user db g (AsUser u) False True 8 = None then denied else Inr ()))"

text \<open>The setters; \<open>target\<close> is the user id a REST value names, \<open>None\<close> for a falsy value.\<close>

definition set_user :: "account_db \<Rightarrow> auth_request \<Rightarrow> int option \<Rightarrow> key_row \<Rightarrow> int option \<Rightarrow> key_row res" where
  "set_user db rq key_group k target =
     (if \<not> can_manage_acting_user db rq key_group then denied
      else (case target of
              None \<Rightarrow> Inr (k\<lparr>ky_user := None, ky_override := False\<rparr>)
            | Some u \<Rightarrow>
                if user_of db u = None then Inl (ValueError ''user must be a valid user id'')
                else (case validate_acting_user db rq key_group u of
                        Inl e \<Rightarrow> Inl e | Inr _ \<Rightarrow> Inr (k\<lparr>ky_user := Some u\<rparr>))))"

definition set_override_user :: "account_db \<Rightarrow> auth_request \<Rightarrow> int option \<Rightarrow> key_row \<Rightarrow> bool \<Rightarrow> key_row res" where
  "set_override_user db rq key_group k enabled =
     (if \<not> can_manage_acting_user db rq key_group then denied
      else if enabled \<and> ky_user k = None then Inl (ValueError ''override_user requires a linked user'')
      else Inr (k\<lparr>ky_override := enabled\<rparr>))"

text \<open>\<open>create_for_group\<close> with the raw token drawn; the row is appended under a new id.\<close>

definition create_for_group :: "(string \<Rightarrow> string) \<Rightarrow> account_db \<Rightarrow> int \<Rightarrow> int \<Rightarrow> dict \<Rightarrow> int option \<Rightarrow> bool \<Rightarrow> string \<Rightarrow> (account_db \<times> string) res" where
  "create_for_group sha db new_id g perms u override token =
     (let k = \<lparr>ky_id = new_id, ky_group = g, ky_user = u, ky_override = (u \<noteq> None \<and> override), ky_active = True,
               ky_expires = None, ky_hash = sha token, ky_perms = perms\<rparr>
      in case u of
           None \<Rightarrow> if override then Inl (ValueError ''override_user requires a user'')
                   else Inr (db\<lparr>ad_keys := ad_keys db @ [k]\<rparr>, token)
         | Some x \<Rightarrow>
             (case user_of db x of
                None \<Rightarrow> Inl DoesNotExist
              | Some r \<Rightarrow>
                  if us_superuser r \<or> get_member_for_user db g (AsUser x) False True 8 = None then denied
                  else Inr (db\<lparr>ad_keys := ad_keys db @ [k]\<rparr>, token)))"

text \<open>
  \<open>validate_token\<close>: the error string, or the identity and the request with its group, its key and the
  member it acts as. The stamp of \<open>last_used\<close> is left out.
\<close>

definition key_live :: "account_db \<Rightarrow> key_row \<Rightarrow> bool" where
  "key_live db k \<longleftrightarrow> (case ky_user k of None \<Rightarrow> True
     | Some u \<Rightarrow> (case user_of db u of None \<Rightarrow> False | Some r \<Rightarrow> us_active r \<and> \<not> us_superuser r))"

definition validate_key :: "(string \<Rightarrow> string) \<Rightarrow> account_db \<Rightarrow> rat \<Rightarrow> string \<Rightarrow> auth_request \<Rightarrow> string + (principal \<times> auth_request)" where
  "validate_key sha db now token rq =
     (case find (\<lambda>k. ky_hash k = sha token) (ad_keys db) of
        None \<Rightarrow> Inl ''Invalid API key''
      | Some k \<Rightarrow>
          if \<not> ky_active k then Inl ''API key is inactive''
          else if (case ky_expires k of None \<Rightarrow> False | Some t \<Rightarrow> now > t) then Inl ''API key has expired''
          else if \<not> key_live db k then Inl ''API key is inactive''
          else (let g = (if is_effectively_active (ad_groups db) 8 (ky_group k) then Some (ky_group k) else None);
                    rq' = rq\<lparr>aq_group := g, aq_api_key := Some k, aq_acting_user := ky_user k\<rparr>
                in Inr (case ky_user k of
                          Some u \<Rightarrow> (if ky_override k then AsUser u else AsKey k, rq')
                        | None \<Rightarrow> (AsKey k, rq'))))"

section \<open>Group tokens\<close>

record wire =
  wr_sign :: "string \<Rightarrow> string \<Rightarrow> string"
  wr_encode :: "json \<Rightarrow> string"
  wr_decode :: "string \<Rightarrow> json option"

definition get_group_token_epoch :: "group_row \<Rightarrow> int res" where
  "get_group_token_epoch r =
     (case map_of (gr_metadata r) ''protected'' of
        None \<Rightarrow> Inr 0
      | Some p \<Rightarrow>
          if \<not> truthy p then Inr 0
          else (case p of
                  JObj d \<Rightarrow> (case map_of d ''group_token_epoch'' of Some (JInt i) \<Rightarrow> Inr i | _ \<Rightarrow> Inr 0)
                | _ \<Rightarrow> Inl (HandlerError ''AttributeError'')))"

definition set_epoch :: "group_row \<Rightarrow> int \<Rightarrow> group_row" where
  "set_epoch r e =
     (let d = (case map_of (gr_metadata r) ''protected'' of Some (JObj d) \<Rightarrow> d | _ \<Rightarrow> [])
      in r\<lparr>gr_metadata := AList.update ''protected'' (JObj (AList.update ''group_token_epoch'' (JInt e) d)) (gr_metadata r)\<rparr>)"

definition bump_group_token_epoch :: "group_table \<Rightarrow> int \<Rightarrow> group_table res" where
  "bump_group_token_epoch T g =
     (case map_of T g of
        None \<Rightarrow> Inl DoesNotExist
      | Some r \<Rightarrow> (case get_group_token_epoch r of
          Inl e \<Rightarrow> Inl e
        | Inr n \<Rightarrow> Inr (AList.update g (set_epoch r (n + 1)) T)))"

definition can_mint :: "account_db \<Rightarrow> int \<Rightarrow> int \<Rightarrow> bool" where
  "can_mint db u g =
     (case (user_of db u, map_of (ad_groups db) g) of
        (Some r, Some _) \<Rightarrow>
          \<not> us_superuser r \<and> us_active r \<and> is_effectively_active (ad_groups db) 8 g
          \<and> get_member_for_user db g (AsUser u) False True 8 \<noteq> None
      | _ \<Rightarrow> False)"

definition gt_payload :: "int \<Rightarrow> int \<Rightarrow> int \<Rightarrow> int \<Rightarrow> json" where
  "gt_payload u g e iat = JObj [(''u'', JInt u), (''g'', JInt g), (''e'', JInt e), (''iat'', JInt iat)]"

definition mint :: "wire \<Rightarrow> account_db \<Rightarrow> int \<Rightarrow> int \<Rightarrow> int \<Rightarrow> string res" where
  "mint wr db u g iat =
     (if \<not> can_mint db u g then denied
      else (case (user_of db u, map_of (ad_groups db) g) of
              (Some r, Some row) \<Rightarrow>
                (case get_group_token_epoch row of
                   Inl e \<Rightarrow> Inl e
                 | Inr e \<Rightarrow> (let signed = ''gt1.'' @ wr_encode wr (gt_payload u g e iat)
                             in Inr (signed @ ''.'' @ wr_sign wr signed (us_auth_key r))))
            | _ \<Rightarrow> denied))"

definition INVALID_TOKEN :: string where "INVALID_TOKEN = ''Invalid group token''"
definition EXPIRED_TOKEN :: string where "EXPIRED_TOKEN = ''Group token expired''"
definition MAX_FUTURE_SKEW :: int where "MAX_FUTURE_SKEW = 60"

fun payload_int :: "json \<Rightarrow> string \<Rightarrow> int option" where
  "payload_int (JObj d) k = (case map_of d k of Some (JInt i) \<Rightarrow> Some i | _ \<Rightarrow> None)"
| "payload_int _ k = None"

text \<open>The checks once the payload is read, in the order of the code.\<close>

definition check_payload :: "wire \<Rightarrow> account_db \<Rightarrow> int \<Rightarrow> int \<Rightarrow> string \<Rightarrow> string \<Rightarrow> int \<times> int \<times> int \<times> int \<Rightarrow> string + (int \<times> int)" where
  "check_payload wr db ttl now body sig p =
     (case p of (u, g, e, iat) \<Rightarrow>
        (case user_of db u of
           None \<Rightarrow> Inl INVALID_TOKEN
         | Some r \<Rightarrow>
             if \<not> us_active r then Inl INVALID_TOKEN
             else if wr_sign wr (''gt1.'' @ body) (us_auth_key r) \<noteq> sig then Inl INVALID_TOKEN
             else if now - iat > ttl then Inl EXPIRED_TOKEN
             else if iat - now > MAX_FUTURE_SKEW then Inl INVALID_TOKEN
             else if us_superuser r then Inl INVALID_TOKEN
             else (case map_of (ad_groups db) g of
                     None \<Rightarrow> Inl INVALID_TOKEN
                   | Some row \<Rightarrow>
                       if \<not> is_effectively_active (ad_groups db) 8 g then Inl INVALID_TOKEN
                       else if get_group_token_epoch row \<noteq> Inr e then Inl INVALID_TOKEN
                       else if get_member_for_user db g (AsUser u) False True 8 = None then Inl INVALID_TOKEN
                       else Inr (u, g))))"

definition validate_group_token :: "wire \<Rightarrow> account_db \<Rightarrow> int \<Rightarrow> int \<Rightarrow> string \<Rightarrow> auth_request \<Rightarrow> string + (principal \<times> auth_request)" where
  "validate_group_token wr db ttl now token rq =
     (case split_on (CHR ''.'') token of
        [v, body, sig] \<Rightarrow>
          if v \<noteq> ''gt1'' then Inl INVALID_TOKEN
          else (case wr_decode wr body of
                  None \<Rightarrow> Inl INVALID_TOKEN
                | Some p \<Rightarrow>
                    (case (payload_int p ''u'', payload_int p ''g'', payload_int p ''e'', payload_int p ''iat'') of
                       (Some u, Some g, Some e, Some iat) \<Rightarrow>
                         (case check_payload wr db ttl now body sig (u, g, e, iat) of
                            Inl m \<Rightarrow> Inl m
                          | Inr _ \<Rightarrow> Inr (AsUser u, rq\<lparr>aq_group := Some g, aq_group_token := Some (u, g), aq_acting_user := Some u\<rparr>))
                     | _ \<Rightarrow> Inl INVALID_TOKEN))
      | _ \<Rightarrow> Inl INVALID_TOKEN)"

section \<open>The middleware\<close>

text \<open>A bearer handler answers with an error string, or the identity and the request it wrote.\<close>

type_synonym bearer_handler = "string \<Rightarrow> auth_request \<Rightarrow> string + (principal \<times> auth_request)"

datatype auth_reply = Continue auth_request | Unauthorized string

text \<open>\<open>str.split()\<close> without an argument\<close>

fun py_words :: "string \<Rightarrow> string \<Rightarrow> string list" where
  "py_words w [] = (if w = [] then [] else [rev w])"
| "py_words w (c # cs) =
     (if is_space c then (if w = [] then py_words [] cs else rev w # py_words [] cs) else py_words (c # w) cs)"

text \<open>\<open>user_named\<close>: the scheme's identity is stored under \<open>request.user\<close> (\<open>AUTH_BEARER_NAME_MAP\<close>).\<close>

definition process_request :: "(string \<times> bearer_handler) list \<Rightarrow> (string \<Rightarrow> bool) \<Rightarrow> string option \<Rightarrow> auth_request \<Rightarrow> auth_reply" where
  "process_request handlers user_named header rq =
     (let rq0 = rq\<lparr>aq_bearer := None\<rparr>
      in case header of
           None \<Rightarrow> Continue rq0
         | Some h \<Rightarrow>
             (case py_words [] h of
                [scheme, token] \<Rightarrow>
                  (case map_of handlers (lower scheme) of
                     None \<Rightarrow> Unauthorized (''Invalid token type: '' @ lower scheme)
                   | Some handle \<Rightarrow>
                       (case handle token rq0 of
                          Inl e \<Rightarrow> Unauthorized e
                        | Inr (p, rq') \<Rightarrow>
                            Continue ((if user_named (lower scheme) then rq'\<lparr>aq_user := p\<rparr> else rq')\<lparr>aq_bearer := Some (lower scheme)\<rparr>)))
              | _ \<Rightarrow> Continue rq0))"

end
