(* ===== verification/Auth_Gates.thy ===== *)
theory Auth_Gates
  imports Credential_Tokens
begin

text \<open>
  The path of a request to its view: the group a caller names (\<open>dispatcher\<close> in \<open>decorators/http.py\<close>)
  and the gates of \<open>decorators/auth.py\<close>. A view is what a gate passes the request to.
\<close>

section \<open>The group parameter\<close>

definition allows :: "account_db \<Rightarrow> auth_request \<Rightarrow> int \<Rightarrow> bool" where
  "allows db rq g = (case restricted_identity rq of None \<Rightarrow> True | Some c \<Rightarrow> conf_allowed db c g)"

text \<open>The request with its group, or the status of the error; the group's activity stamp is left out.\<close>

datatype dispatched = Dispatch auth_request | Rejected int | Escaped

definition group_by_uuid :: "account_db \<Rightarrow> string \<Rightarrow> int option" where
  "group_by_uuid db u =
     (case find (\<lambda>(i, r). gr_uuid r = u \<and> gr_active r) (ad_groups db) of
        Some (i, _) \<Rightarrow> if is_effectively_active (ad_groups db) 8 i then Some i else None
      | None \<Rightarrow> None)"

definition dispatch_group :: "account_db \<Rightarrow> auth_request \<Rightarrow> dispatched" where
  "dispatch_group db rq =
     (case (case aq_group_param rq of Some v \<Rightarrow> if truthy v then Some v else None | None \<Rightarrow> None) of
        Some v \<Rightarrow>
          (case int_of_value v of
             Inl (HandlerError _) \<Rightarrow> Escaped
           | Inl _ \<Rightarrow> Rejected 400
           | Inr i \<Rightarrow>
               (case get_active (ad_groups db) i of
                  None \<Rightarrow> Dispatch (rq\<lparr>aq_group := None\<rparr>)
                | Some g \<Rightarrow> if allows db rq g then Dispatch (rq\<lparr>aq_group := Some g\<rparr>) else Rejected 403))
      | None \<Rightarrow>
          (case (aq_group_uuid rq, aq_group rq) of
             (Some u, None) \<Rightarrow>
               (case (if strip u = [] then None else group_by_uuid db (strip u)) of
                  None \<Rightarrow> Dispatch rq
                | Some g \<Rightarrow> if allows db rq g then Dispatch (rq\<lparr>aq_group := Some g\<rparr>) else Rejected 403)
           | _ \<Rightarrow> Dispatch rq))"

section \<open>Gates\<close>

datatype gate = Pass auth_request | Refuse

definition deny_machine_without_group :: "account_db \<Rightarrow> auth_request \<Rightarrow> bool" where
  "deny_machine_without_group db rq \<longleftrightarrow>
     \<not> (is_request_user rq \<and> \<not> is_key_backed_session rq)
     \<and> (case aq_group rq of None \<Rightarrow> True | Some g \<Rightarrow> \<not> is_effectively_active (ad_groups db) 8 g)"

definition denies_key_backed_session :: "string list option \<Rightarrow> auth_request \<Rightarrow> gate" where
  "denies_key_backed_session methods rq =
     (if is_key_backed_session rq
         \<and> (case methods of None \<Rightarrow> True | Some ms \<Rightarrow> upper (aq_method rq) \<in> set (map upper ms))
      then Refuse else Pass rq)"

text \<open>The group of the fallback: an unusable parameter leaves none.\<close>

definition fallback_group :: "account_db \<Rightarrow> auth_request \<Rightarrow> auth_request" where
  "fallback_group db rq =
     (case (aq_group_param rq, aq_group rq) of
        (Some v, None) \<Rightarrow> rq\<lparr>aq_group := (case int_of_value v of Inr i \<Rightarrow> get_active (ad_groups db) i | Inl _ \<Rightarrow> None)\<rparr>
      | _ \<Rightarrow> rq)"

definition group_fallback :: "account_db \<Rightarrow> string list \<Rightarrow> auth_request \<Rightarrow> gate" where
  "group_fallback db perms rq =
     (let rq' = fallback_group db rq
      in case aq_group rq' of
           None \<Rightarrow> Refuse
         | Some g \<Rightarrow>
             if user_has_permission db g (aq_user rq') perms (\<not> is_override_user_session rq') then Pass rq' else Refuse)"

text \<open>\<open>is_group\<close> is the setting \<open>REQUIRES_PERMS_IS_GROUP\<close>; \<open>requires_group_perms\<close> is the same with it on.\<close>

definition requires_perms :: "bool \<Rightarrow> account_db \<Rightarrow> string list \<Rightarrow> auth_request \<Rightarrow> gate" where
  "requires_perms is_group db perms rq =
     (if \<not> is_authenticated (aq_user rq) then Refuse
      else if deny_machine_without_group db rq then Refuse
      else if \<not> is_override_user_session rq \<and> principal_has db (aq_user rq) perms then Pass rq
      else if is_group then group_fallback db perms rq
      else Refuse)"

definition requires_group_perms :: "account_db \<Rightarrow> string list \<Rightarrow> auth_request \<Rightarrow> gate" where
  "requires_group_perms db perms rq =
     (if \<not> is_authenticated (aq_user rq) then Refuse
      else if deny_machine_without_group db rq then Refuse
      else if \<not> is_override_user_session rq \<and> principal_has db (aq_user rq) perms then Pass rq
      else group_fallback db perms rq)"

definition requires_global_perms :: "bool \<Rightarrow> account_db \<Rightarrow> string list \<Rightarrow> auth_request \<Rightarrow> gate" where
  "requires_global_perms allow_api_keys db perms rq =
     (if \<not> is_authenticated (aq_user rq) then Refuse
      else if aq_group_token rq \<noteq> None then Refuse
      else if \<not> allow_api_keys \<and> is_key_backed_session rq then Refuse
      else if \<not> allow_api_keys \<and> \<not> is_request_user rq then Refuse
      else if principal_has db (aq_user rq) perms then Pass rq
      else Refuse)"

definition requires_auth :: "auth_request \<Rightarrow> gate" where
  "requires_auth rq = (if is_authenticated (aq_user rq) then Pass rq else Refuse)"

definition requires_bearer :: "string \<Rightarrow> auth_request \<Rightarrow> gate" where
  "requires_bearer bearer rq =
     (case aq_bearer rq of None \<Rightarrow> Refuse | Some b \<Rightarrow> if lower b = lower bearer then Pass rq else Refuse)"

end
