(* ===== verification/Auth_Laws.thy ===== *)
theory Auth_Laws
  imports Auth_Gates
begin

text \<open>
  What the credentials and the gates guarantee: minting and validation of group tokens are inverse and
  every use is checked anew, a bump of the epoch revokes, a token reaches its own group alone, and the
  decorators never let a confined credential out of an active tenant, with the one exception recorded
  in \<open>global_gate_reads_member_grants\<close>.
\<close>

section \<open>Laws of the tokens\<close>

text \<open>What the wire is relied on for: the payload is read back as it was written, and no part has a dot.\<close>

definition wire_ok :: "wire \<Rightarrow> json \<Rightarrow> string \<Rightarrow> bool" where
  "wire_ok wr p key \<longleftrightarrow>
     wr_decode wr (wr_encode wr p) = Some p \<and> CHR ''.'' \<notin> set (wr_encode wr p)
     \<and> CHR ''.'' \<notin> set (wr_sign wr (''gt1.'' @ wr_encode wr p) key)"

lemma split_on_absent: "c \<notin> set s \<Longrightarrow> split_on c s = [s]"
  by (induction s) auto

lemma split_on_append: "c \<notin> set s \<Longrightarrow> split_on c (s @ c # t) = s # split_on c t"
  by (induction s) auto

lemma split_token:
  "CHR ''.'' \<notin> set b \<Longrightarrow> CHR ''.'' \<notin> set s \<Longrightarrow> split_on (CHR ''.'') ((''gt1.'' @ b) @ ''.'' @ s) = [''gt1'', b, s]"
  using split_on_append [of "CHR ''.''" "''gt1''" "b @ CHR ''.'' # s"] split_on_append [of "CHR ''.''" b s] split_on_absent [of "CHR ''.''" s]
  by simp

lemma mint_cases:
  assumes "mint wr db u g iat = Inr token"
  obtains r row e where "user_of db u = Some r" "map_of (ad_groups db) g = Some row" "get_group_token_epoch row = Inr e"
    "can_mint db u g"
    "token = (''gt1.'' @ wr_encode wr (gt_payload u g e iat)) @ ''.'' @ wr_sign wr (''gt1.'' @ wr_encode wr (gt_payload u g e iat)) (us_auth_key r)"
  using assms by (auto simp: mint_def denied_def Let_def split: if_splits option.splits sum.splits)

lemma payload_read: "payload_int (gt_payload u g e iat) ''u'' = Some u" "payload_int (gt_payload u g e iat) ''g'' = Some g"
  "payload_int (gt_payload u g e iat) ''e'' = Some e" "payload_int (gt_payload u g e iat) ''iat'' = Some iat"
  by (simp_all add: gt_payload_def)

lemma validate_minted:
  assumes "mint wr db0 u g iat = Inr token" and "user_of db0 u = Some r" and "map_of (ad_groups db0) g = Some row"
    and "get_group_token_epoch row = Inr e" and "wire_ok wr (gt_payload u g e iat) (us_auth_key r)"
  shows "validate_group_token wr db ttl now token rq =
    (case check_payload wr db ttl now (wr_encode wr (gt_payload u g e iat))
            (wr_sign wr (''gt1.'' @ wr_encode wr (gt_payload u g e iat)) (us_auth_key r)) (u, g, e, iat) of
       Inl m \<Rightarrow> Inl m
     | Inr _ \<Rightarrow> Inr (AsUser u, rq\<lparr>aq_group := Some g, aq_group_token := Some (u, g), aq_acting_user := Some u\<rparr>))"
proof -
  from mint_cases [OF assms(1)] assms(2-4) have t: "token = (''gt1.'' @ wr_encode wr (gt_payload u g e iat)) @ ''.'' @
      wr_sign wr (''gt1.'' @ wr_encode wr (gt_payload u g e iat)) (us_auth_key r)" by force
  show ?thesis using assms(5) unfolding t validate_group_token_def
    by (simp add: split_token wire_ok_def payload_read del: append.simps append_assoc)
qed

text \<open>
  C10: a minted token authenticates, as long as it is young enough and nothing about the user and the
  group has changed: it puts its user, its group and nothing else on the request.
\<close>

theorem minted_token_validates:
  assumes "mint wr db u g iat = Inr token" and "user_of db u = Some r" and "map_of (ad_groups db) g = Some row"
    and "get_group_token_epoch row = Inr e" and "wire_ok wr (gt_payload u g e iat) (us_auth_key r)"
    and "iat \<le> now" and "now - iat \<le> ttl"
  shows "validate_group_token wr db ttl now token rq =
    Inr (AsUser u, rq\<lparr>aq_group := Some g, aq_group_token := Some (u, g), aq_acting_user := Some u\<rparr>)"
proof -
  from mint_cases [OF assms(1)] have "can_mint db u g" .
  with assms show ?thesis
    by (auto simp: validate_minted [OF assms(1-5)] check_payload_def can_mint_def MAX_FUTURE_SKEW_def)
qed

lemma validate_accepted:
  assumes "validate_group_token wr db ttl now token rq = Inr (p, rq')"
  obtains u g r row e iat where "p = AsUser u" "rq' = rq\<lparr>aq_group := Some g, aq_group_token := Some (u, g), aq_acting_user := Some u\<rparr>"
    "can_mint db u g" "user_of db u = Some r" "map_of (ad_groups db) g = Some row" "get_group_token_epoch row = Inr e"
    "now - iat \<le> ttl" "iat - now \<le> MAX_FUTURE_SKEW"
proof -
  from assms obtain u g e iat body sig x where p: "p = AsUser u"
    "rq' = rq\<lparr>aq_group := Some g, aq_group_token := Some (u, g), aq_acting_user := Some u\<rparr>"
    and c: "check_payload wr db ttl now body sig (u, g, e, iat) = Inr x"
    unfolding validate_group_token_def by (auto split: list.splits if_splits option.splits sum.splits)
  from c obtain r where r: "user_of db u = Some r" by (auto simp: check_payload_def split: option.splits)
  from c r obtain row where row: "map_of (ad_groups db) g = Some row"
    by (auto simp: check_payload_def split: if_splits option.splits)
  from c r row have "can_mint db u g" "get_group_token_epoch row = Inr e" "now - iat \<le> ttl" "iat - now \<le> MAX_FUTURE_SKEW"
    by (auto simp: check_payload_def can_mint_def split: if_splits)
  with that p r row show thesis by blast
qed

text \<open>
  C8: whatever string is presented: if it is accepted, then at that moment its user could be issued the
  token anew (active, no superuser, a direct active member of an effectively active group), so that
  deactivating the user, the member row, the group or any ancestor, or promoting the user, revokes it.
\<close>

theorem accepted_token_is_mintable:
  assumes "validate_group_token wr db ttl now token rq = Inr (p, rq')"
  shows "\<exists>u g. p = AsUser u \<and> aq_group rq' = Some g \<and> aq_group_token rq' = Some (u, g) \<and> can_mint db u g"
  by (rule validate_accepted [OF assms]) auto

lemma epoch_of_set: "get_group_token_epoch (set_epoch r e) = Inr e"
  by (simp add: get_group_token_epoch_def set_epoch_def Let_def update_conv' split: option.split json.split)

lemma update_groups_other:
  assumes "map_of T g = Some row" and "gr_parent row' = gr_parent row" and "gr_active row' = gr_active row"
  shows "is_effectively_active (AList.update g row' T) n x = is_effectively_active T n x"
proof -
  have "is_chain (AList.update g row' T) y ch = is_chain T y ch" for y ch
  proof (induction ch arbitrary: y)
    case (Cons z zs)
    then show ?case using assms(1,2) by (cases y) (auto simp: update_conv')
  qed (case_tac y, simp_all)
  moreover have "row_active (AList.update g row' T) y = row_active T y" for y
    using assms(1,3) by (auto simp: row_active_def update_conv')
  ultimately show ?thesis by (simp add: effectively_active_chain)
qed

text \<open>The epoch a group's row carries, and what later changes of the database may do to it: bumps of any
  group, the deletion of the row, and whatever else leaves it as it is.\<close>

definition epoch_at :: "int \<Rightarrow> account_db \<Rightarrow> int option" where
  "epoch_at g db = (case map_of (ad_groups db) g of
     None \<Rightarrow> None | Some row \<Rightarrow> (case get_group_token_epoch row of Inl _ \<Rightarrow> None | Inr e \<Rightarrow> Some e))"

inductive group_change :: "int \<Rightarrow> account_db \<Rightarrow> account_db \<Rightarrow> bool" for g where
  bumped: "bump_group_token_epoch (ad_groups db) h = Inr T \<Longrightarrow> group_change g db (db\<lparr>ad_groups := T\<rparr>)"
| deleted: "map_of (ad_groups db') g = None \<Longrightarrow> group_change g db db'"
| unrelated: "epoch_at g db' = epoch_at g db \<Longrightarrow> group_change g db db'"

lemma epoch_at_bump:
  assumes "bump_group_token_epoch (ad_groups db) h = Inr T"
  shows "epoch_at g (db\<lparr>ad_groups := T\<rparr>) = (if g = h then map_option (\<lambda>e. e + 1) (epoch_at g db) else epoch_at g db)"
  using assms by (cases "g = h") (auto simp: bump_group_token_epoch_def epoch_at_def update_conv' epoch_of_set split: option.splits sum.splits)

lemma group_change_mono:
  "group_change g db db' \<Longrightarrow> \<forall>x. epoch_at g db = Some x \<longrightarrow> e \<le> x \<Longrightarrow> \<forall>x. epoch_at g db' = Some x \<longrightarrow> e \<le> x"
proof (induction rule: group_change.induct)
  case (bumped db h T)
  then show ?case by (auto simp: epoch_at_bump split: if_splits)
qed (simp_all add: epoch_at_def)

lemma group_changes_mono:
  assumes "(group_change g)\<^sup>*\<^sup>* db db'" and "\<forall>x. epoch_at g db = Some x \<longrightarrow> e \<le> x"
  shows "\<forall>x. epoch_at g db' = Some x \<longrightarrow> e \<le> x"
  using assms by (induction rule: rtranclp_induct) (blast dest: group_change_mono)+


section \<open>End to end\<close>

text \<open>
  C11: a request that a group token authenticated is served a row of a group-scoped model only if the row
  belongs to the token's group itself, no descendant, and an active member row of its user, in the
  group or above, grants a view permission of the model.
\<close>

theorem group_token_end_to_end:
  assumes "validate_group_token wr db ttl now token rq = Inr (p, rq')" and "aq_api_key rq = None"
    and "mc_group_scoped cfg" and "guarded cfg [''VIEW_PERMS'']" and "mc_view_hook cfg = None" and "mc_edit_hook cfg = None"
    and "on_rest_handle_get db cfg (rq'\<lparr>aq_user := p, aq_group := any\<rparr>) i = Item gr j"
  shows "\<exists>u g m. p = AsUser u \<and> aq_group rq' = Some g \<and> in_group i = Some g
    \<and> get_member_for_user db g p True True 8 = Some m \<and> member_has db m (get_rest_meta_prop cfg [''VIEW_PERMS''])"
proof -
  let ?rq = "rq'\<lparr>aq_user := p, aq_group := any\<rparr>" and ?ps = "get_rest_meta_prop cfg [''VIEW_PERMS'']"
  from validate_accepted [OF assms(1)] obtain u g where p: "p = AsUser u" and rq': "rq' = rq\<lparr>aq_group := Some g,
      aq_group_token := Some (u, g), aq_acting_user := Some u\<rparr>" by metis
  have r: "restricted_identity ?rq = Some (ConfToken u g)" using rq' assms(2) by (simp add: restricted_identity_def)
  from get_checked [OF assms(7)] obtain rq2 where ev: "evaluate_perms db cfg ?ps [''VIEW_PERMS''] (Some i) True ?rq = (Allow, rq2)"
    by (auto simp: check_or_raise_def evaluate_permission_def split: prod.splits)
  have "\<not> owns ?rq i" using conf_credential [OF r] by (simp add: owns_def)
  with evaluate_row [OF ev] assms(4-6) have rq2: "rq2 = ?rq\<lparr>aq_group := in_group i\<rparr>" and d: "decide db cfg ?ps rq2 = Allow"
    by (auto simp: guarded_def)
  have r2: "restricted_identity rq2 = Some (ConfToken u g)" using rq2 r by simp
  from decide_confined [OF r2 d] assms(3) rq2 obtain g' where g': "in_group i = Some g'" "conf_allowed db (ConfToken u g) g'"
    by (auto simp: opted_in_def simp del: conf_allowed.simps)
  then have eq: "g' = g" by simp
  have "aq_group rq2 = Some g" using rq2 g' eq by simp
  from override_decided_by_member [OF r2 _ assms(3) this d] obtain m
    where "get_member_for_user db g (aq_user rq2) True True 8 = Some m" "member_has db m ?ps" by auto
  then show ?thesis using p rq' rq2 g' eq by auto
qed

section \<open>Gates\<close>

text \<open>
  A confined credential passes \<open>requires_perms\<close> only in an effectively active group, and by what
  the key itself holds or, when it assumes a member, by a member row of that group's chain.
\<close>

theorem gate_confined:
  assumes "restricted_identity rq = Some c" and "requires_perms is_group db perms rq = Pass rq'"
  shows "\<exists>g. aq_group rq' = Some g \<and> is_effectively_active (ad_groups db) 8 g
    \<and> ((\<not> conf_override c \<and> principal_has db (aq_user rq) perms)
       \<or> (\<exists>m. get_member_for_user db g (aq_user rq) True True 8 = Some m \<and> member_has db m perms))"
proof -
  have k: "is_key_backed_session rq" and o: "is_override_user_session rq = conf_override c"
    using assms(1) by (simp_all add: is_key_backed_session_def is_override_user_session_def)
  from assms(2) k obtain g where g: "aq_group rq = Some g" "is_effectively_active (ad_groups db) 8 g"
    by (auto simp: requires_perms_def deny_machine_without_group_def split: if_splits option.splits)
  then have fb: "fallback_group db rq = rq" by (simp add: fallback_group_def split: option.split)
  show ?thesis
  proof (cases "\<not> conf_override c \<and> principal_has db (aq_user rq) perms")
    case True
    with assms(2) o g show ?thesis by (auto simp: requires_perms_def split: if_splits)
  next
    case False
    with assms(2) o have "group_fallback db perms rq = Pass rq'" by (auto simp: requires_perms_def split: if_splits)
    then have "rq' = rq" "user_has_permission db g (aq_user rq) perms (\<not> conf_override c)"
      using g o by (auto simp: group_fallback_def fb split: if_splits)
    with g False show ?thesis by (auto simp: user_has_permission_def split: if_splits option.splits)
  qed
qed

text \<open>
  A platform-wide gate that does not admit keys is passed by a user alone, on the strength of the
  user's own grants: no member row, key or token counts, and the request's group plays no part.
\<close>

theorem global_gate_users_only:
  assumes "requires_global_perms False db perms rq = Pass rq'"
  shows "restricted_identity rq = None \<and> (\<exists>u. aq_user rq = AsUser u \<and> id_has db u perms) \<and> rq' = rq"
  using assms by (cases "aq_user rq")
    (auto simp: requires_global_perms_def is_key_backed_session_def is_request_user_def split: if_splits)

text \<open>
  On a gate that admits keys, a key that assumes a member is judged by the member's own platform
  grants: a key that holds nothing itself, of a suspended tenant, passes with what its member may do.
\<close>

theorem global_gate_reads_member_grants:
  "\<exists>db k rq. ky_perms k = [] \<and> \<not> is_effectively_active (ad_groups db) 8 (ky_group k) \<and> restricted_identity rq = Some (ConfKey k)
     \<and> validate_key (\<lambda>t. t) db 0 ''h'' (rq\<lparr>aq_api_key := None, aq_user := Anonymous\<rparr>) = Inr (aq_user rq, rq\<lparr>aq_user := Anonymous\<rparr>)
     \<and> requires_global_perms True db [''geoip_sync''] rq = Pass rq
     \<and> requires_perms True db [''geoip_sync''] rq = Refuse"
proof -
  define k where "k = ex_key 4 True []"
  define db where "db = ex_db\<lparr>ad_users := [(7, ex_user [(''geoip_sync'', JBool True)])], ad_keys := [k]\<rparr>"
  define rq where "rq = (ex_rq (AsUser 7) (Some k) None)\<lparr>aq_acting_user := Some 7\<rparr>"
  have "\<not> is_effectively_active (ad_groups db) 8 (ky_group k)" unfolding db_def k_def by code_simp
  moreover have "requires_global_perms True db [''geoip_sync''] rq = Pass rq"
    by (simp add: requires_global_perms_def rq_def ex_rq_def db_def id_has_def user_of_def user_has_def ex_user_def
      dict_grants_def implied_perms_def starts_with_def granted_def)
  moreover have "requires_perms True db [''geoip_sync''] rq = Refuse"
    by (simp add: requires_perms_def rq_def ex_rq_def deny_machine_without_group_def is_key_backed_session_def restricted_identity_def)
  moreover have "validate_key (\<lambda>t. t) db 0 ''h'' (rq\<lparr>aq_api_key := None, aq_user := Anonymous\<rparr>) = Inr (aq_user rq, rq\<lparr>aq_user := Anonymous\<rparr>)"
    using calculation(1)
    by (simp add: validate_key_def db_def k_def ex_key_def key_live_def user_of_def ex_user_def rq_def ex_rq_def Let_def)
  moreover have "ky_perms k = []" "restricted_identity rq = Some (ConfKey k)" by (simp_all add: k_def ex_key_def rq_def ex_rq_def restricted_identity_def)
  ultimately show ?thesis by blast
qed

section \<open>A wire and its tokens\<close>

definition ex_payload :: json where
  "ex_payload = gt_payload 8 1 0 100"

definition ex_wire :: wire where
  "ex_wire = \<lparr>wr_sign = (\<lambda>m k. map (\<lambda>c. if c = CHR ''.'' then CHR ''_'' else c) (k @ m)), wr_encode = json_dumps,
     wr_decode = (\<lambda>s. if s = json_dumps ex_payload then Some ex_payload else None)\<rparr>"

definition ex_token :: string where
  "ex_token = ''gt1.'' @ json_dumps ex_payload @ ''.'' @ wr_sign ex_wire (''gt1.'' @ json_dumps ex_payload) ''k''"

lemma ex_wire_ok: "wire_ok ex_wire ex_payload ''k''"
proof -
  have "CHR ''.'' \<notin> set (json_dumps ex_payload)" by code_simp
  then show ?thesis by (auto simp: wire_ok_def ex_wire_def)
qed

definition ex_org :: group_row where
  "ex_org = ex_group None"

lemma ex_mint: "mint ex_wire ex_db 8 1 100 = Inr ex_token" "user_of ex_db 8 = Some (ex_user [])"
  "map_of (ad_groups ex_db) 1 = Some ex_org" "get_group_token_epoch ex_org = Inr 0"
proof -
  show "user_of ex_db 8 = Some (ex_user [])" "map_of (ad_groups ex_db) 1 = Some ex_org" "get_group_token_epoch ex_org = Inr 0"
    by (simp_all add: user_of_def ex_db_def ex_groups_def ex_org_def get_group_token_epoch_def ex_group_def)
  moreover have "can_mint ex_db 8 1" by code_simp
  moreover have "us_auth_key (ex_user []) = ''k''" by (simp add: ex_user_def)
  ultimately show "mint ex_wire ex_db 8 1 100 = Inr ex_token"
    by (simp add: mint_def ex_token_def Let_def ex_payload_def [symmetric]) (simp add: ex_wire_def)
qed

lemma ex_wire_ok': "wire_ok ex_wire (gt_payload 8 1 0 100) (us_auth_key (ex_user []))"
  using ex_wire_ok by (simp add: ex_payload_def ex_user_def)

lemma ex_token_accepted:
  "validate_group_token ex_wire ex_db 3600 200 ex_token (ex_rq Anonymous None None)
     = Inr (AsUser 8, (ex_rq Anonymous None None)\<lparr>aq_group := Some 1, aq_group_token := Some (8, 1), aq_acting_user := Some 8\<rparr>)"
proof -
  have "check_payload ex_wire ex_db 3600 200 (wr_encode ex_wire (gt_payload 8 1 0 100))
      (wr_sign ex_wire (''gt1.'' @ wr_encode ex_wire (gt_payload 8 1 0 100)) (us_auth_key (ex_user []))) (8, 1, 0, 100) = Inr (8, 1)"
    by code_simp
  then show ?thesis by (simp add: validate_minted [OF ex_mint ex_wire_ok'])
qed

theorem minted_token_validates_witness:
  "validate_group_token ex_wire ex_db 3600 200 ex_token (ex_rq Anonymous None None)
     = Inr (AsUser 8, (ex_rq Anonymous None None)\<lparr>aq_group := Some 1, aq_group_token := Some (8, 1), aq_acting_user := Some 8\<rparr>)"
  by (rule minted_token_validates [OF ex_mint ex_wire_ok']) simp_all

theorem accepted_token_is_mintable_witness:
  "\<exists>p rq'. validate_group_token ex_wire ex_db 3600 200 ex_token (ex_rq Anonymous None None) = Inr (p, rq') \<and> p = AsUser 8
     \<and> (\<exists>g. aq_group rq' = Some g \<and> can_mint ex_db 8 g)"
  using accepted_token_is_mintable [OF ex_token_accepted] ex_token_accepted by auto



theorem group_token_end_to_end_witness:
  "\<exists>p rq' m. validate_group_token ex_wire ex_db 3600 200 ex_token (ex_rq Anonymous None None) = Inr (p, rq')
     \<and> on_rest_handle_get ex_db ex_cfg (rq'\<lparr>aq_user := p, aq_group := Some 3\<rparr>) (ex_row 12 (Some 1)) = Item ''default'' (ex_row 12 (Some 1))
     \<and> get_member_for_user ex_db 1 p True True 8 = Some m \<and> member_has ex_db m [''view_devices'', ''manage_devices'']"
proof -
  let ?rq = "(ex_rq Anonymous None None)\<lparr>aq_group := Some 1, aq_group_token := Some (8, 1), aq_acting_user := Some 8\<rparr>"
  have served: "on_rest_handle_get ex_db ex_cfg (?rq\<lparr>aq_user := AsUser 8, aq_group := Some 3\<rparr>) (ex_row 12 (Some 1))
      = Item ''default'' (ex_row 12 (Some 1))" by code_simp
  have ps: "get_rest_meta_prop ex_cfg [''VIEW_PERMS''] = [''view_devices'', ''manage_devices'']" by code_simp
  have c: "aq_api_key (ex_rq Anonymous None None) = None" "mc_group_scoped ex_cfg" "mc_view_hook ex_cfg = None" "mc_edit_hook ex_cfg = None"
    by (simp_all add: ex_rq_def ex_cfg_def)
  from group_token_end_to_end [OF ex_token_accepted c(1,2) ex_guarded(1) c(3,4) served] obtain m
    where "get_member_for_user ex_db 1 (AsUser 8) True True 8 = Some m" "member_has ex_db m [''view_devices'', ''manage_devices'']"
    by (auto simp: ps)
  with served ex_token_accepted show ?thesis by blast
qed

theorem gate_confined_witness:
  "\<exists>rq' g. requires_perms True ex_db [''view_devices''] (ex_rq (AsUser 8) (Some (ex_key 1 True [])) (Some 1)) = Pass rq'
     \<and> aq_group rq' = Some g \<and> is_effectively_active (ad_groups ex_db) 8 g"
proof -
  let ?rq = "ex_rq (AsUser 8) (Some (ex_key 1 True [])) (Some 1)"
  have "(case requires_perms True ex_db [''view_devices''] ?rq of Pass _ \<Rightarrow> True | Refuse \<Rightarrow> False)" by code_simp
  then obtain rq' where ok: "requires_perms True ex_db [''view_devices''] ?rq = Pass rq'" by (auto split: gate.splits)
  from gate_confined [OF ex_rq_key(1) this] ok show ?thesis by blast
qed

theorem global_gate_users_only_witness:
  "requires_global_perms False ex_db [''manage_devices''] (ex_rq (AsUser 7) None (Some 3)) = Pass (ex_rq (AsUser 7) None (Some 3))
   \<and> id_has ex_db 7 [''manage_devices'']"
proof -
  let ?rq = "ex_rq (AsUser 7) None (Some 3)"
  have "(case requires_global_perms False ex_db [''manage_devices''] ?rq of Pass _ \<Rightarrow> True | Refuse \<Rightarrow> False)" by code_simp
  then obtain rq' where ok: "requires_global_perms False ex_db [''manage_devices''] ?rq = Pass rq'" by (auto split: gate.splits)
  from global_gate_users_only [OF this] ok show ?thesis by (auto simp: ex_rq_def)
qed

end
