(* ===== verification/Rest_Writes.thy ===== *)
theory Rest_Writes
  imports Auth_Laws
begin

text \<open>
  The write side of the REST layer (\<open>mojo/models/rest.py\<close>): creating and batches behind the permission
  gate, the loop over the fields of a save with its stamps, foreign keys attached by id, and the guard
  of the \<open>protected\<close> subtree of JSON fields. The store is a parameter type; what single fields do to it
  and the third-party merge of two dicts are functions given to the model.
\<close>

section \<open>Creating and dispatching\<close>

definition on_rest_handle_create :: "account_db \<Rightarrow> model_cfg \<Rightarrow> (auth_request \<Rightarrow> 's \<Rightarrow> inst res \<times> 's) \<Rightarrow> auth_request \<Rightarrow> 's \<Rightarrow> reply \<times> 's" where
  "on_rest_handle_create db cfg create rq w =
     (if \<not> mc_can_create cfg then (Denied ''can_create_false'' ''feature_disabled'' 403, w)
      else (case check_or_raise db cfg [''CREATE_PERMS'', ''SAVE_PERMS'', ''VIEW_PERMS''] None rq of
              (Some r, _) \<Rightarrow> (r, w)
            | (None, rq1) \<Rightarrow>
                (case resolve_request_graph db cfg rq1 ''default'' None of
                   (Some r, _) \<Rightarrow> (r, w)
                 | (None, rq2) \<Rightarrow>
                     (case create rq2 w of
                        (Inl e, w') \<Rightarrow> (Raised e, w')
                      | (Inr i, w') \<Rightarrow> (on_rest_get db cfg rq2 i, w')))))"

text \<open>
  One item of a batch: no object, or an object with the id it names. \<open>find\<close> looks a row up in the store,
  \<open>update\<close> and \<open>create\<close> write the item at an index, and may leave the request changed, as a permission
  check does. An exception becomes an entry of the error list.
\<close>

datatype batch_item = BadItem | BatchItem "int option"

record 's batch_ops =
  bo_find :: "'s \<Rightarrow> int \<Rightarrow> inst option"
  bo_update :: "nat \<Rightarrow> auth_request \<Rightarrow> inst \<Rightarrow> 's \<Rightarrow> inst res \<times> auth_request \<times> 's"
  bo_create :: "nat \<Rightarrow> auth_request \<Rightarrow> 's \<Rightarrow> inst res \<times> auth_request \<times> 's"

definition batch_target :: "'s batch_ops \<Rightarrow> 's \<Rightarrow> int option \<Rightarrow> inst option" where
  "batch_target ops w pk = (case pk of None \<Rightarrow> None | Some i \<Rightarrow> bo_find ops w i)"

definition batch_row :: "account_db \<Rightarrow> model_cfg \<Rightarrow> 's batch_ops \<Rightarrow> nat \<Rightarrow> batch_item \<Rightarrow> auth_request \<Rightarrow> 's
    \<Rightarrow> (string + inst) \<times> auth_request \<times> 's" where
  "batch_row db cfg ops n item rq w =
     (let done = (\<lambda>(r, rq', w'). (case r of Inl e \<Rightarrow> Inl (exn_str e) | Inr i \<Rightarrow> Inr i, rq', w')) in
      case item of
        BadItem \<Rightarrow> (Inl ''Batch item must be an object'', rq, w)
      | BatchItem pk \<Rightarrow>
          (case batch_target ops w pk of
             Some i \<Rightarrow>
               if \<not> resolve_can_update cfg then (Inl ''UPDATE not allowed'', rq, w)
               else (case evaluate_permission db cfg [''SAVE_PERMS'', ''VIEW_PERMS''] (Some i) rq of
                       (Allow, rq') \<Rightarrow> done (bo_update ops n rq' i w)
                     | (Deny _ _ _, rq') \<Rightarrow> (Inl ''permission denied'', rq', w)
                     | (Crash, rq') \<Rightarrow> (Inl ''error'', rq', w))
           | None \<Rightarrow>
               if \<not> mc_can_create cfg then (Inl ''CREATE not allowed'', rq, w)
               else (case evaluate_permission db cfg [''CREATE_PERMS'', ''SAVE_PERMS'', ''VIEW_PERMS''] None rq of
                       (Allow, rq') \<Rightarrow> done (bo_create ops n rq' w)
                     | (Deny _ _ _, rq') \<Rightarrow> (Inl ''permission denied'', rq', w)
                     | (Crash, rq') \<Rightarrow> (Inl ''error'', rq', w))))"

text \<open>The request runs through the rows; each row starts from the caller's group \<open>g0\<close> again.\<close>

fun batch_loop :: "account_db \<Rightarrow> model_cfg \<Rightarrow> 's batch_ops \<Rightarrow> int option \<Rightarrow> nat \<Rightarrow> batch_item list \<Rightarrow> auth_request \<Rightarrow> 's
    \<Rightarrow> inst list \<times> (nat \<times> string) list \<times> auth_request \<times> 's" where
  "batch_loop db cfg ops g0 n [] rq w = ([], [], rq, w)"
| "batch_loop db cfg ops g0 n (item # items) rq w =
     (case batch_row db cfg ops n item (rq\<lparr>aq_group := g0\<rparr>) w of
        (r, rq', w') \<Rightarrow>
          (case batch_loop db cfg ops g0 (Suc n) items rq' w' of
             (done, errors, rq'', w'') \<Rightarrow>
               (case r of Inl e \<Rightarrow> (done, (n, e) # errors, rq'', w'') | Inr i \<Rightarrow> (i # done, errors, rq'', w''))))"

text \<open>\<open>None\<close> stands for a payload that is no list. The request is returned as the handler leaves it.\<close>

definition on_rest_handle_batch :: "account_db \<Rightarrow> model_cfg \<Rightarrow> 's batch_ops \<Rightarrow> batch_item list option \<Rightarrow> auth_request \<Rightarrow> 's
    \<Rightarrow> reply \<times> (nat \<times> string) list \<times> auth_request \<times> 's" where
  "on_rest_handle_batch db cfg ops batched rq w =
     (if \<not> mc_can_batch cfg then (Denied ''can_batch_false'' ''feature_disabled'' 403, [], rq, w)
      else (case check_or_raise db cfg [''SAVE_PERMS'', ''VIEW_PERMS''] None rq of
              (Some r, rq1) \<Rightarrow> (r, [], rq1, w)
            | (None, rq1) \<Rightarrow>
                (case resolve_request_graph db cfg rq1 ''list'' None of
                   (Some r, rq2) \<Rightarrow> (r, [], rq2, w)
                 | (None, rq2) \<Rightarrow>
                     (case batched of
                        None \<Rightarrow> (ErrorReply 400 ''Invalid 'batched' payload: expected a list'', [], rq2, w)
                      | Some items \<Rightarrow>
                          (case batch_loop db cfg ops (aq_group rq2) 0 items rq2 w of
                             (done, errors, rq3, w') \<Rightarrow>
                               (let rq4 = rq3\<lparr>aq_group := aq_group rq2\<rparr>
                                in (Rows (requested_graph rq4 ''list'') done, errors, rq4, w')))))))"

section \<open>The field loop\<close>

text \<open>
  \<open>_resolve_stamp_actor\<close>: the member a key acts as, else the user of the request when it is one.
\<close>

definition resolve_stamp_actor :: "auth_request \<Rightarrow> int option" where
  "resolve_stamp_actor rq = (case aq_acting_user rq of Some u \<Rightarrow> Some u | None \<Rightarrow> user_pk (aq_user rq))"

text \<open>
  \<open>save_field\<close> writes one field and may change the request, as the permission check of a related row
  does; the request's group is put back after every field, raised exceptions included.
\<close>

type_synonym 's field_write = "string \<Rightarrow> json \<Rightarrow> auth_request \<Rightarrow> 's \<Rightarrow> exn option \<times> auth_request \<times> 's"

fun save_fields :: "string list \<Rightarrow> string list \<Rightarrow> 's field_write \<Rightarrow> (string \<times> json) list \<Rightarrow> auth_request \<Rightarrow> 's
    \<Rightarrow> exn option \<times> bool \<times> (string \<times> json) list \<times> auth_request \<times> 's" where
  "save_fields no_save actions save_field [] rq s = (None, True, [], rq, s)"
| "save_fields no_save actions save_field ((k, v) # data) rq s =
     (if k \<in> set no_save then save_fields no_save actions save_field data rq s
      else if k \<in> set actions then
        (case save_fields no_save actions save_field data rq s of
           (e, only, post, rq', s') \<Rightarrow> (e, only, (k, v) # post, rq', s'))
      else (case save_field k v rq s of
              (Some e, rq1, s1) \<Rightarrow> (Some e, False, [], rq1\<lparr>aq_group := aq_group rq\<rparr>, s1)
            | (None, rq1, s1) \<Rightarrow>
                (case save_fields no_save actions save_field data (rq1\<lparr>aq_group := aq_group rq\<rparr>) s1 of
                   (e, only, post, rq', s') \<Rightarrow> (e, False, post, rq', s'))))"

text \<open>
  The rest of \<open>on_rest_save\<close>: a new row takes the actor and the caller's group where the body left them
  open; an update overwrites who modified it. \<open>persist\<close> covers the hooks around \<open>save\<close>, \<open>act\<close> one action
  (\<open>None\<close> where the model has no handler for it, else whether it left a response).
\<close>

record 's save_ops =
  so_owner :: "'s \<Rightarrow> int option option"
  so_set_owner :: "int \<Rightarrow> 's \<Rightarrow> 's"
  so_group :: "'s \<Rightarrow> int option option"
  so_set_group :: "int \<Rightarrow> 's \<Rightarrow> 's"
  so_modified_by :: "'s \<Rightarrow> int option option"
  so_set_modified_by :: "int \<Rightarrow> 's \<Rightarrow> 's"
  so_persist :: "bool \<Rightarrow> 's \<Rightarrow> exn option \<times> 's"
  so_act :: "string \<Rightarrow> json \<Rightarrow> 's \<Rightarrow> bool option res \<times> 's"

text \<open>A field accessor is \<open>None\<close> when the model has no such field, and \<open>Some None\<close> when it is not set.\<close>

definition stamp :: "'s save_ops \<Rightarrow> bool \<Rightarrow> auth_request \<Rightarrow> 's \<Rightarrow> 's" where
  "stamp ops created rq s =
     (if created then
        (let s1 = (case (so_owner ops s, resolve_stamp_actor rq) of (Some None, Some u) \<Rightarrow> so_set_owner ops u s | _ \<Rightarrow> s)
         in (case (aq_group rq, so_group ops s1) of (Some g, Some None) \<Rightarrow> so_set_group ops g s1 | _ \<Rightarrow> s1))
      else (case (so_modified_by ops s, resolve_stamp_actor rq) of (Some _, Some u) \<Rightarrow> so_set_modified_by ops u s | _ \<Rightarrow> s))"

fun run_actions :: "'s save_ops \<Rightarrow> (string \<times> json) list \<Rightarrow> bool \<Rightarrow> 's \<Rightarrow> bool res \<times> 's" where
  "run_actions ops [] resp s = (Inr resp, s)"
| "run_actions ops ((k, v) # post) resp s =
     (case so_act ops k v s of
        (Inl e, s') \<Rightarrow> (Inl e, s')
      | (Inr r, s') \<Rightarrow> run_actions ops post (case r of None \<Rightarrow> resp | Some b \<Rightarrow> b) s')"

text \<open>The result says whether an action left a response of its own.\<close>

definition on_rest_save :: "'s save_ops \<Rightarrow> string list \<Rightarrow> string list \<Rightarrow> 's field_write \<Rightarrow> bool \<Rightarrow> (string \<times> json) list \<Rightarrow> auth_request \<Rightarrow> 's
    \<Rightarrow> bool res \<times> auth_request \<times> 's" where
  "on_rest_save ops no_save actions save_field created data rq s =
     (case save_fields no_save actions save_field data rq s of
        (Some e, _, _, rq', s') \<Rightarrow> (Inl e, rq', s')
      | (None, only, post, rq', s') \<Rightarrow>
          (case (if \<not> only \<or> created then so_persist ops created (stamp ops created rq' s') else (None, s')) of
             (Some e, s1) \<Rightarrow> (Inl e, rq', s1)
           | (None, s1) \<Rightarrow> (case run_actions ops post False s1 of (r, s2) \<Rightarrow> (r, rq', s2))))"

section \<open>Foreign keys\<close>

fun dict_of :: "json \<Rightarrow> (string \<times> json) list option" where
  "dict_of (JObj d) = Some d"
| "dict_of _ = None"

text \<open>
  \<open>on_rest_save_related_field\<close>: what becomes of the field, and the request as the check left it. The two
  hooks a related class may define are functions given to the model: \<open>resolve_rest_related_candidate\<close>
  names the row to attach, \<open>on_rest_related_save\<close> does the rest itself. \<open>exempt\<close>: the field is in
  \<open>NO_FK_VIEW_CHECK_FIELDS\<close>; \<open>self_pk\<close>: the row's own key when the related class is its own.
\<close>

datatype fk_outcome =
  Unchanged | Detached | Attached int | Resolved "int option" | UpdatedRelated inst | CustomSave json | Reported string | FkError exn

record related =
  rel_cfg :: model_cfg
  rel_rows :: "inst list"
  rel_checked :: bool
  rel_exempt :: bool
  rel_self_pk :: "int option"
  rel_resolver :: "(json \<Rightarrow> auth_request \<Rightarrow> int option res) option"
  rel_save_hook :: "(json \<Rightarrow> exn option) option"

text \<open>The target row and the view check it has to pass, under the name of the branch that reports a refusal.\<close>

definition attach_checked :: "account_db \<Rightarrow> related \<Rightarrow> int \<Rightarrow> string \<Rightarrow> auth_request \<Rightarrow> fk_outcome option \<times> auth_request" where
  "attach_checked db rel pk branch rq =
     (case find (\<lambda>i. in_pk i = pk) (rel_rows rel) of
        None \<Rightarrow> (Some (FkError DoesNotExist), rq)
      | Some i \<Rightarrow>
          if rel_exempt rel \<or> \<not> rel_checked rel then (None, rq)
          else (case evaluate_permission db (rel_cfg rel) [''VIEW_PERMS''] (Some i) rq of
                  (Allow, rq') \<Rightarrow> (None, rq')
                | (Deny _ _ _, rq') \<Rightarrow> (Some (Reported branch), rq')
                | (Crash, rq') \<Rightarrow> (Some (FkError (HandlerError ''AttributeError'')), rq')))"

definition attach_pk :: "account_db \<Rightarrow> related \<Rightarrow> int \<Rightarrow> auth_request \<Rightarrow> fk_outcome \<times> auth_request" where
  "attach_pk db rel pk rq =
     (if pk = 0 then (Detached, rq)
      else if rel_self_pk rel = Some pk then (Unchanged, rq)
      else (case attach_checked db rel pk ''related_pk_assign'' rq of
              (Some r, rq') \<Rightarrow> (r, rq') | (None, rq') \<Rightarrow> (Attached pk, rq')))"

text \<open>\<open>isinstance(value, int)\<close>, which a bool is as well.\<close>

fun int_value :: "json \<Rightarrow> int option" where
  "int_value (JInt i) = Some i"
| "int_value (JBool b) = Some (if b then 1 else 0)"
| "int_value _ = None"

definition related_hook :: "account_db \<Rightarrow> related \<Rightarrow> (json \<Rightarrow> exn option) \<Rightarrow> json \<Rightarrow> auth_request \<Rightarrow> fk_outcome \<times> auth_request" where
  "related_hook db rel hook v rq =
     (let run = (\<lambda>rq'. (case hook v of Some e \<Rightarrow> FkError e | None \<Rightarrow> CustomSave v, rq')) in
      case int_value v of
        Some pk \<Rightarrow>
          if rel_exempt rel \<or> \<not> rel_checked rel then run rq
          else (case attach_checked db rel pk ''related_save_pk_assign'' rq of
                  (Some r, rq') \<Rightarrow> (r, rq') | (None, rq') \<Rightarrow> run rq')
      | None \<Rightarrow> run rq)"

definition save_related_field :: "account_db \<Rightarrow> related \<Rightarrow> inst option \<Rightarrow> json \<Rightarrow> auth_request \<Rightarrow> fk_outcome \<times> auth_request" where
  "save_related_field db rel current v rq =
     (if v = JNull then (Detached, rq)
      else (case rel_resolver rel of
        Some resolve \<Rightarrow> (case resolve v rq of Inl e \<Rightarrow> FkError e | Inr c \<Rightarrow> Resolved c, rq)
      | None \<Rightarrow>
          if dict_of v \<noteq> None then
            (case current of
               None \<Rightarrow> (Unchanged, rq)
             | Some i \<Rightarrow>
                 if \<not> rel_checked rel then (Unchanged, rq)
                 else (case evaluate_permission db (rel_cfg rel) [''SAVE_PERMS'', ''VIEW_PERMS''] (Some i) rq of
                         (Allow, rq') \<Rightarrow> (UpdatedRelated i, rq')
                       | (Deny _ _ _, rq') \<Rightarrow> (Reported ''related_dict_save'', rq')
                       | (Crash, rq') \<Rightarrow> (FkError (HandlerError ''AttributeError''), rq')))
          else (case rel_save_hook rel of
             Some hook \<Rightarrow> related_hook db rel hook v rq
           | None \<Rightarrow>
               (case (int_value v, v) of
                  (Some pk, _) \<Rightarrow> attach_pk db rel pk rq
                | (None, JStr s) \<Rightarrow>
                    if strip s = [] then (Detached, rq)
                    else (case py_int s of
                            None \<Rightarrow> (FkError (ValueError ''invalid literal for int()''), rq)
                          | Some pk \<Rightarrow> attach_pk db rel pk rq)
                | _ \<Rightarrow> (Unchanged, rq)))))"

section \<open>Protected JSON\<close>

text \<open>\<open>perms\<close> is \<open>PROTECTED_JSON_PERMS\<close> of the class; a superuser always may.\<close>

definition can_edit_protected_json :: "account_db \<Rightarrow> string list \<Rightarrow> auth_request \<Rightarrow> bool" where
  "can_edit_protected_json db perms rq \<longleftrightarrow>
     is_authenticated (aq_user rq)
     \<and> ((case user_pk (aq_user rq) of
           None \<Rightarrow> False | Some u \<Rightarrow> (case user_of db u of None \<Rightarrow> False | Some r \<Rightarrow> us_superuser r))
        \<or> (perms \<noteq> [] \<and> principal_has db (aq_user rq) perms))"

definition has_key :: "json \<Rightarrow> string \<Rightarrow> bool" where
  "has_key j k = (jdict_get j k \<noteq> None)"

text \<open>
  \<open>on_rest_update_jsonfield\<close>: \<open>loads\<close> reads a JSON text, \<open>merge\<close> is the third-party merge of two dicts,
  \<open>replace\<close> says that the field is in \<open>JSON_REPLACE_FIELDS\<close>. The \<open>__replace\<close> marker is only taken out of
  the value when the field is not. The audit lines are left out.
\<close>

definition update_jsonfield :: "account_db \<Rightarrow> string list \<Rightarrow> (string \<Rightarrow> json option) \<Rightarrow> (json \<Rightarrow> json \<Rightarrow> json) \<Rightarrow> bool
    \<Rightarrow> auth_request \<Rightarrow> json \<Rightarrow> json \<Rightarrow> json res" where
  "update_jsonfield db perms loads merge replace rq current value0 =
     (let val = (case value0 of JStr s \<Rightarrow> (case loads s of Some j \<Rightarrow> j | None \<Rightarrow> value0) | _ \<Rightarrow> value0);
          existing = (if truthy current then current else JObj [])
      in case (dict_of val, dict_of existing) of
           (Some d, Some e) \<Rightarrow>
             (let should_replace = (replace \<or> (case map_of d ''__replace'' of None \<Rightarrow> False | Some m \<Rightarrow> truthy m));
                  d' = (if replace then d else AList.delete ''__replace'' d);
                  touches = (has_key (JObj d') ''protected'' \<or> (should_replace \<and> has_key existing ''protected''))
              in if touches \<and> \<not> can_edit_protected_json db perms rq then denied
                 else Inr (if should_replace then JObj d' else merge existing (JObj d')))
         | _ \<Rightarrow>
             if (has_key existing ''protected'' \<or> has_key val ''protected'') \<and> \<not> can_edit_protected_json db perms rq then denied
             else Inr val)"

section \<open>One field\<close>

text \<open>
  \<open>on_rest_save_field\<close>: a setter of the class wins, keys that are no field are passed over, the others go
  by the type of the field. \<open>field_ops\<close> is what the class and the row provide: \<open>attach\<close> writes what has
  become of a relation, the updated related row or the save hook included; \<open>parse\<close> reads a date.
\<close>

datatype field_kind = RelationField | JsonField | BooleanField | DateField | NumberField | OtherField

record 's field_ops =
  fo_setter :: "string \<Rightarrow> (json \<Rightarrow> 's \<Rightarrow> exn option \<times> 's) option"
  fo_kind :: "string \<Rightarrow> (field_kind \<times> bool) option"
  fo_get :: "string \<Rightarrow> 's \<Rightarrow> json"
  fo_set :: "string \<Rightarrow> json \<Rightarrow> 's \<Rightarrow> 's"
  fo_related :: "string \<Rightarrow> 's \<Rightarrow> related"
  fo_current :: "string \<Rightarrow> 's \<Rightarrow> inst option"
  fo_attach :: "string \<Rightarrow> fk_outcome \<Rightarrow> auth_request \<Rightarrow> 's \<Rightarrow> exn option \<times> 's"
  fo_parse :: "json \<Rightarrow> json res"
  fo_protected_perms :: "string list"
  fo_loads :: "string \<Rightarrow> json option"
  fo_merge :: "json \<Rightarrow> json \<Rightarrow> json"
  fo_replace :: "string list"

definition coerce :: "(json \<Rightarrow> json res) \<Rightarrow> field_kind \<Rightarrow> bool \<Rightarrow> json \<Rightarrow> json res" where
  "coerce parse kind nullable v =
     (if kind = BooleanField then
        Inr (JBool (case v of JStr s \<Rightarrow> lower s \<in> {''true'', ''1''} | _ \<Rightarrow> truthy v))
      else if v = JStr [] \<and> nullable then Inr JNull
      else if v = JNull then Inr JNull
      else if kind = DateField then parse v
      else if v = JStr [] \<and> kind = NumberField then Inr (JInt 0)
      else Inr v)"

definition on_rest_save_field :: "account_db \<Rightarrow> 's field_ops \<Rightarrow> 's field_write" where
  "on_rest_save_field db fo k v rq s =
     (case fo_setter fo k of
        Some setter \<Rightarrow> (case setter v s of (e, s') \<Rightarrow> (e, rq, s'))
      | None \<Rightarrow>
          (case fo_kind fo k of
             None \<Rightarrow> (None, rq, s)
           | Some (kind, nullable) \<Rightarrow>
               if kind = RelationField then
                 (case save_related_field db (fo_related fo k s) (fo_current fo k s) v rq of
                    (FkError e, rq') \<Rightarrow> (Some e, rq', s)
                  | (r, rq') \<Rightarrow> (case fo_attach fo k r rq' s of (e, s') \<Rightarrow> (e, rq', s')))
               else
                 (case (if kind = JsonField
                        then update_jsonfield db (fo_protected_perms fo) (fo_loads fo) (fo_merge fo) (k \<in> set (fo_replace fo)) rq (fo_get fo k s) v
                        else coerce (fo_parse fo) kind nullable v) of
                    Inl e \<Rightarrow> (Some e, rq, s)
                  | Inr x \<Rightarrow> (None, rq, fo_set fo k x s))))"

end
