(* ===== verification/Rest_Write_Laws.thy ===== *)
theory Rest_Write_Laws
  imports Rest_Writes
begin

text \<open>
  What the write side guarantees: a save leaves the caller's group on the request, a batch writes no row
  that the single handlers would refuse, the \<open>protected\<close> subtree is changed by its editors alone. Two
  theorems record ways around a gate: a batch answers under a graph its rows' tenant does not grant, and
  a key minted by a group administrator is an editor of \<open>protected\<close>.
\<close>

section \<open>The request's group\<close>

lemma save_fields_group:
  "save_fields no_save actions save_field data rq s = (e, only, post, rq', s') \<Longrightarrow> aq_group rq' = aq_group rq"
proof (induction no_save actions save_field data rq s arbitrary: e only post rq' s' rule: save_fields.induct)
  case (2 no_save actions save_field k v data rq s)
  show ?case
  proof (cases "k \<in> set no_save \<or> k \<in> set actions")
    case True
    with 2 show ?thesis by (auto split: if_splits prod.splits)
  next
    case False
    obtain r rq1 s1 where f: "save_field k v rq s = (r, rq1, s1)" by (cases "save_field k v rq s")
    show ?thesis
    proof (cases r)
      case (Some x)
      with False f "2.prems" show ?thesis by auto
    next
      case None
      obtain e2 o2 p2 rq2 s2 where rest: "save_fields no_save actions save_field data (rq1\<lparr>aq_group := aq_group rq\<rparr>) s1 = (e2, o2, p2, rq2, s2)"
        by (metis prod_cases5)
      from False have "k \<notin> set no_save" "k \<notin> set actions" by auto
      from "2.IH"(3) [OF this f [symmetric] None refl rest] have "aq_group rq2 = aq_group rq" by simp
      with False f None rest "2.prems" show ?thesis by auto
    qed
  qed
qed simp

text \<open>
  Whatever the writes of the single fields do to the request, and also when one raises, a save
  leaves the caller's group on it; the stamps of a new row see that group.
\<close>

theorem save_keeps_caller_group:
  assumes "on_rest_save ops no_save actions save_field created data rq s = (r, rq', s')"
  shows "aq_group rq' = aq_group rq"
proof -
  obtain e only post rq1 s1 where f: "save_fields no_save actions save_field data rq s = (e, only, post, rq1, s1)"
    by (metis prod_cases5)
  with assms have "rq' = rq1" by (auto simp: on_rest_save_def split: option.splits prod.splits)
  with save_fields_group [OF f] show ?thesis by simp
qed

text \<open>A field write that drops the group, as a check on a row without a tenant does.\<close>

definition ex_field_write :: "(int option \<times> int option) field_write" where
  "ex_field_write k v rq s = (None, rq\<lparr>aq_group := None\<rparr>, s)"

definition ex_save_ops :: "(int option \<times> int option) save_ops" where
  "ex_save_ops = \<lparr>so_owner = (\<lambda>s. Some (fst s)), so_set_owner = (\<lambda>u s. (Some u, snd s)), so_group = (\<lambda>s. Some (snd s)),
     so_set_group = (\<lambda>g s. (fst s, Some g)), so_modified_by = (\<lambda>s. None), so_set_modified_by = (\<lambda>u s. s),
     so_persist = (\<lambda>c s. (None, s)), so_act = (\<lambda>k v s. (Inr (Some True), s))\<rparr>"

theorem save_keeps_caller_group_witness:
  "\<exists>r rq' s'. on_rest_save ex_save_ops [] [] ex_field_write True [(''project'', JInt 4)] (ex_rq (AsUser 8) None (Some 1)) (None, None) = (r, rq', s')
     \<and> aq_group rq' = Some 1 \<and> s' = (Some 8, Some 1)"
proof -
  let ?c = "on_rest_save ex_save_ops [] [] ex_field_write True [(''project'', JInt 4)] (ex_rq (AsUser 8) None (Some 1)) (None, None)"
  obtain r rq' s' where c: "?c = (r, rq', s')" by (cases ?c)
  have "aq_group rq' = Some 1" using save_keeps_caller_group [OF c] by (simp add: ex_rq_def)
  moreover have "snd (snd ?c) = (Some 8, Some 1)"
    by (simp add: on_rest_save_def ex_save_ops_def ex_field_write_def ex_rq_def stamp_def resolve_stamp_actor_def Let_def)
  ultimately show ?thesis using c by auto
qed

section \<open>Foreign keys\<close>

lemma attach_checked_view:
  assumes "attach_checked db rel pk branch rq = (None, rq')" and "rel_checked rel" and "\<not> rel_exempt rel"
  obtains i where "i \<in> set (rel_rows rel)" "in_pk i = pk" "fst (evaluate_permission db (rel_cfg rel) [''VIEW_PERMS''] (Some i) rq) = Allow"
  using assms by (auto simp: attach_checked_def find_Some_iff split: option.splits prod.splits verdict.splits) (metis fst_conv nth_mem)

lemma attach_checked_refuses:
  "attach_checked db rel pk branch rq = (Some r, rq') \<Longrightarrow> r = Reported branch \<or> (\<exists>e. r = FkError e)"
  by (auto simp: attach_checked_def split: option.splits prod.splits verdict.splits if_splits)

definition viewable :: "account_db \<Rightarrow> related \<Rightarrow> auth_request \<Rightarrow> int \<Rightarrow> bool" where
  "viewable db rel rq pk \<longleftrightarrow> (\<exists>i \<in> set (rel_rows rel). in_pk i = pk
     \<and> fst (evaluate_permission db (rel_cfg rel) [''VIEW_PERMS''] (Some i) rq) = Allow)"

lemma attach_pk_view:
  assumes "attach_pk db rel pk' rq = (r, rq')" and "rel_checked rel" and "\<not> rel_exempt rel"
  shows "(r = Attached pk \<longrightarrow> viewable db rel rq pk) \<and> (\<forall>v. r \<noteq> CustomSave v)"
  using assms attach_checked_view [of db rel pk' "''related_pk_assign''" rq]
  by (auto simp: attach_pk_def viewable_def split: if_splits prod.splits option.splits dest: attach_checked_refuses)

lemma related_hook_view:
  assumes "related_hook db rel h v rq = (r, rq')" and "rel_checked rel" and "\<not> rel_exempt rel"
  shows "(r = CustomSave v \<and> int_value v = Some pk \<longrightarrow> viewable db rel rq pk) \<and> (\<forall>p. r \<noteq> Attached p)"
  using assms attach_checked_view [of db rel pk "''related_save_pk_assign''" rq]
  by (auto simp: related_hook_def viewable_def Let_def split: if_splits prod.splits option.splits dest: attach_checked_refuses)

text \<open>
  C20: a foreign key is only attached by its number to a row that the request may view, whether the
  related class saves such values itself or leaves it to the layer, and whether the number comes as a
  number, a truth value or a text; the exceptions are fields the model exempts and classes without
  permissions.
\<close>

theorem fk_attach_needs_view:
  assumes "save_related_field db rel current v rq = (r, rq')" and "rel_resolver rel = None"
    and "rel_checked rel" and "\<not> rel_exempt rel" and "r = Attached pk \<or> r = CustomSave v \<and> int_value v = Some pk"
  shows "\<exists>i \<in> set (rel_rows rel). in_pk i = pk \<and> fst (evaluate_permission db (rel_cfg rel) [''VIEW_PERMS''] (Some i) rq) = Allow"
proof -
  have "v \<noteq> JNull" "dict_of v = None"
    using assms(1,2,5) by (auto simp: save_related_field_def split: option.splits prod.splits verdict.splits if_splits)
  then have "viewable db rel rq pk"
  proof (cases "rel_save_hook rel")
    case (Some h)
    with assms(1,2) \<open>v \<noteq> JNull\<close> \<open>dict_of v = None\<close> have "related_hook db rel h v rq = (r, rq')"
      by (simp add: save_related_field_def)
    from related_hook_view [OF this assms(3,4)] assms(5) show ?thesis by blast
  next
    case None
    with assms(1,2,5) \<open>v \<noteq> JNull\<close> \<open>dict_of v = None\<close> obtain pk' where "attach_pk db rel pk' rq = (r, rq')"
      by (auto simp: save_related_field_def split: option.splits json.splits if_splits)
    from attach_pk_view [OF this assms(3,4)] assms(5) show ?thesis by blast
  qed
  then show ?thesis by (simp add: viewable_def)
qed

text \<open>User 8 holds \<open>view_devices\<close> in group 1 and attaches row 11 of that group by its number as a text, but not row 10.\<close>

definition ex_related :: related where
  "ex_related = \<lparr>rel_cfg = ex_cfg, rel_rows = [ex_row 10 (Some 3), ex_row 11 (Some 1)], rel_checked = True, rel_exempt = False,
     rel_self_pk = None, rel_resolver = None, rel_save_hook = None\<rparr>"

theorem fk_attach_needs_view_witness:
  "(\<exists>i \<in> set (rel_rows ex_related). in_pk i = 11
      \<and> fst (evaluate_permission ex_db (rel_cfg ex_related) [''VIEW_PERMS''] (Some i) (ex_rq (AsUser 8) None None)) = Allow)
   \<and> fst (save_related_field ex_db ex_related None (JInt 10) (ex_rq (AsUser 8) None None)) = Reported ''related_pk_assign''"
proof
  obtain r rq' where run: "save_related_field ex_db ex_related None (JStr ''11'') (ex_rq (AsUser 8) None None) = (r, rq')"
    by (cases "save_related_field ex_db ex_related None (JStr ''11'') (ex_rq (AsUser 8) None None)")
  have "fst (save_related_field ex_db ex_related None (JStr ''11'') (ex_rq (AsUser 8) None None)) = Attached 11" by code_simp
  with run have "r = Attached 11" by simp
  with fk_attach_needs_view [OF run, of 11] show "\<exists>i \<in> set (rel_rows ex_related). in_pk i = 11
      \<and> fst (evaluate_permission ex_db (rel_cfg ex_related) [''VIEW_PERMS''] (Some i) (ex_rq (AsUser 8) None None)) = Allow"
    by (simp add: ex_related_def)
  show "fst (save_related_field ex_db ex_related None (JInt 10) (ex_rq (AsUser 8) None None)) = Reported ''related_pk_assign''"
    by code_simp
qed

section \<open>Batches\<close>

text \<open>
  What the handlers of single rows would have let the caller write: one row, of a verb the model has
  enabled, under the request as the check of that very row leaves it. The check starts from the
  caller's own request \<open>rq\<close>.
\<close>

inductive allowed_write :: "account_db \<Rightarrow> model_cfg \<Rightarrow> 's batch_ops \<Rightarrow> auth_request \<Rightarrow> 's \<Rightarrow> 's \<Rightarrow> bool"
  for db cfg ops rq where
  update: "bo_find ops w pk = Some i \<Longrightarrow> resolve_can_update cfg
    \<Longrightarrow> evaluate_permission db cfg [''SAVE_PERMS'', ''VIEW_PERMS''] (Some i) rq = (Allow, rq2)
    \<Longrightarrow> bo_update ops n rq2 i w = (x, rq3, w') \<Longrightarrow> allowed_write db cfg ops rq w w'"
| create: "mc_can_create cfg
    \<Longrightarrow> evaluate_permission db cfg [''CREATE_PERMS'', ''SAVE_PERMS'', ''VIEW_PERMS''] None rq = (Allow, rq2)
    \<Longrightarrow> bo_create ops n rq2 w = (x, rq3, w') \<Longrightarrow> allowed_write db cfg ops rq w w'"

text \<open>The request but for its group; the model's own hook and writes are to leave the rest alone.\<close>

definition same_but_group :: "auth_request \<Rightarrow> auth_request \<Rightarrow> bool" where
  "same_but_group rq rq' \<longleftrightarrow> rq'\<lparr>aq_group := aq_group rq\<rparr> = rq"

definition tame :: "account_db \<Rightarrow> model_cfg \<Rightarrow> 's batch_ops \<Rightarrow> bool" where
  "tame db cfg ops \<longleftrightarrow>
     (\<forall>h i ps rq. mc_edit_hook cfg = Some h \<longrightarrow> same_but_group rq (snd (h i db ps rq)))
     \<and> (\<forall>n rq i w. same_but_group rq (fst (snd (bo_update ops n rq i w))))
     \<and> (\<forall>n rq w. same_but_group rq (fst (snd (bo_create ops n rq w))))"

lemma same_but_group_refl [simp]: "same_but_group rq rq" "same_but_group rq (rq\<lparr>aq_group := g\<rparr>)"
  by (simp_all add: same_but_group_def)

lemma same_but_group_trans: "same_but_group rq rq1 \<Longrightarrow> same_but_group rq1 rq2 \<Longrightarrow> same_but_group rq rq2"
  by (cases rq; cases rq1; cases rq2) (simp add: same_but_group_def)

lemma same_but_group_reset: "same_but_group rq rq' \<Longrightarrow> rq'\<lparr>aq_group := aq_group rq\<rparr> = rq"
  by (simp add: same_but_group_def)

lemma class_check_keeps: "evaluate_permission db cfg keys None rq = (v, rq') \<Longrightarrow> rq' = rq"
  by (auto simp: evaluate_permission_def evaluate_perms_def split: if_splits)

lemma row_check_tame:
  assumes "evaluate_permission db cfg [''SAVE_PERMS'', ''VIEW_PERMS''] (Some i) rq = (v, rq')" and "tame db cfg ops"
  shows "same_but_group rq rq'"
proof (cases "mc_edit_hook cfg")
  case None
  with assms(1) show ?thesis
    by (auto simp: evaluate_permission_def evaluate_perms_def hook_for_def WRITE_KEYS_def Let_def split: if_splits)
next
  case (Some h)
  then have hook: "same_but_group rq (snd (h i db ps rq))" for ps using assms(2) by (simp add: tame_def)
  from Some assms(1) have "rq' = rq \<or> (\<exists>ps. rq' = snd (h i db ps rq))"
    by (auto simp: evaluate_permission_def evaluate_perms_def hook_for_def WRITE_KEYS_def split: if_splits prod.splits) (metis snd_conv)+
  with hook show ?thesis by auto
qed

lemma graph_check_keeps: "resolve_request_graph db cfg rq dflt None = (v, rq') \<Longrightarrow> rq' = rq"
  by (auto simp: resolve_request_graph_def resolve_graph_def check_graph_permission_def evaluate_perms_def
      split: option.splits prod.splits verdict.splits if_splits)

lemma update_tame: "tame db cfg ops \<Longrightarrow> same_but_group rq rq2 \<Longrightarrow> same_but_group rq (fst (snd (bo_update ops n rq2 i w)))"
  and create_tame: "tame db cfg ops \<Longrightarrow> same_but_group rq rq2 \<Longrightarrow> same_but_group rq (fst (snd (bo_create ops n rq2 w)))"
  by (auto simp: tame_def intro: same_but_group_trans)

lemma batch_row_allowed:
  assumes "batch_row db cfg ops n item rq w = (r, rq', w')" and "tame db cfg ops"
  shows "same_but_group rq rq' \<and> (w' = w \<or> allowed_write db cfg ops rq w w')"
proof -
  show ?thesis
  proof (cases item)
    case BadItem
    with assms(1) show ?thesis by (auto simp: batch_row_def)
  next
    case (BatchItem pk)
    show ?thesis
    proof (cases "batch_target ops w pk")
      case None
      show ?thesis
      proof (cases "evaluate_permission db cfg [''CREATE_PERMS'', ''SAVE_PERMS'', ''VIEW_PERMS''] None rq")
        case (Pair v rq2)
        with class_check_keeps [OF this] None BatchItem assms create_tame [OF assms(2), of rq rq n w] show ?thesis
          by (cases v) (auto simp: batch_row_def split: if_splits prod.splits intro: allowed_write.create)
      qed
    next
      case (Some i)
      then obtain k where k: "bo_find ops w k = Some i" by (auto simp: batch_target_def split: option.splits)
      show ?thesis
      proof (cases "evaluate_permission db cfg [''SAVE_PERMS'', ''VIEW_PERMS''] (Some i) rq")
        case (Pair v rq2)
        with row_check_tame [OF this assms(2)] Some BatchItem assms update_tame [OF assms(2), of rq rq2 n i w] show ?thesis
          by (cases v) (auto simp: batch_row_def split: if_splits prod.splits intro: allowed_write.update [OF k])
      qed
    qed
  qed
qed

lemma batch_loop_allowed:
  assumes "batch_loop db cfg ops (aq_group rq) n items rq1 w = (rows, errors, rq2, w')" and "tame db cfg ops"
    and "same_but_group rq rq1"
  shows "same_but_group rq rq2 \<and> (allowed_write db cfg ops rq)\<^sup>*\<^sup>* w w'"
  using assms(1,3)
proof (induction items arbitrary: n rq1 w rows errors rq2 w')
  case (Cons item items)
  obtain r rq3 w3 where row: "batch_row db cfg ops n item rq w = (r, rq3, w3)" by (metis prod_cases3)
  obtain d e rq4 w4 where rest: "batch_loop db cfg ops (aq_group rq) (Suc n) items rq3 w3 = (d, e, rq4, w4)" by (metis prod_cases4)
  from batch_row_allowed [OF row assms(2)] Cons.IH [OF rest]
  have "same_but_group rq rq4" "(allowed_write db cfg ops rq)\<^sup>*\<^sup>* w w4" by (auto intro: converse_rtranclp_into_rtranclp)
  with Cons.prems row rest show ?case by (simp add: same_but_group_reset split: sum.splits)
qed simp

text \<open>
  C21: whatever items a batch names, the store it leaves is reached by writes of single rows that the
  handlers for single rows would have let the same caller make: for each, the verb is enabled and the
  check of that very row allows it, from the caller's own request, whatever group the rows before it have
  left behind; and the request gets its group back. The model's own edit hook and its writes are
  taken to change nothing of the request but its group.
\<close>

theorem batch_writes_allowed:
  assumes "on_rest_handle_batch db cfg ops batched rq w = (r, errors, rq', w')" and "tame db cfg ops"
  shows "(allowed_write db cfg ops rq)\<^sup>*\<^sup>* w w' \<and> aq_group rq' = aq_group rq"
proof -
  obtain a rq1 where a: "check_or_raise db cfg [''SAVE_PERMS'', ''VIEW_PERMS''] None rq = (a, rq1)" by (metis surj_pair)
  then have "rq1 = rq" by (auto simp: check_or_raise_def split: prod.splits dest: class_check_keeps)
  moreover obtain b rq2 where b: "resolve_request_graph db cfg rq ''list'' None = (b, rq2)" by (metis surj_pair)
  moreover from b have "rq2 = rq" by (rule graph_check_keeps)
  ultimately have run: "on_rest_handle_batch db cfg ops batched rq w =
     (if \<not> mc_can_batch cfg then (Denied ''can_batch_false'' ''feature_disabled'' 403, [], rq, w)
      else case (a, b, batched) of
        (Some r, _) \<Rightarrow> (r, [], rq, w) | (None, Some r, _) \<Rightarrow> (r, [], rq, w)
      | (None, None, None) \<Rightarrow> (ErrorReply 400 ''Invalid 'batched' payload: expected a list'', [], rq, w)
      | (None, None, Some items) \<Rightarrow>
          (case batch_loop db cfg ops (aq_group rq) 0 items rq w of
             (rows, errors, rq3, w') \<Rightarrow>
               (Rows (requested_graph (rq3\<lparr>aq_group := aq_group rq\<rparr>) ''list'') rows, errors, rq3\<lparr>aq_group := aq_group rq\<rparr>, w')))"
    using a by (simp add: on_rest_handle_batch_def Let_def split: option.split)
  show ?thesis
  proof (cases "a = None \<and> b = None \<and> mc_can_batch cfg \<and> batched \<noteq> None")
    case True
    then obtain items where items: "batched = Some items" by blast
    obtain rows e rq3 w3 where loop: "batch_loop db cfg ops (aq_group rq) 0 items rq w = (rows, e, rq3, w3)" by (metis prod_cases4)
    with run assms(1) True items have "w' = w3" "aq_group rq' = aq_group rq" by auto
    with batch_loop_allowed [OF loop assms(2)] show ?thesis by simp
  next
    case False
    with run assms(1) have "w' = w" "rq' = rq" by (auto split: if_splits option.splits)
    then show ?thesis by simp
  qed
qed

definition ex_batch_ops :: "inst list batch_ops" where
  "ex_batch_ops = \<lparr>bo_find = (\<lambda>w pk. find (\<lambda>i. in_pk i = pk) w), bo_update = (\<lambda>n rq i w. (Inr i, rq, i # w)),
     bo_create = (\<lambda>n rq w. (Inr (ex_row 99 (aq_group rq)), rq, ex_row 99 (aq_group rq) # w))\<rparr>"

text \<open>An update of a row of group 3 and then a new row, which is of the caller's group 1.\<close>

theorem batch_writes_allowed_witness:
  "\<exists>r rq' w'. on_rest_handle_batch ex_db ex_cfg ex_batch_ops (Some [BatchItem (Some 11), BatchItem None]) (ex_rq (AsUser 7) None (Some 1)) ex_rows
       = (r, [], rq', w')
     \<and> map in_group (take 2 w') = [Some 1, Some 3]
     \<and> (allowed_write ex_db ex_cfg ex_batch_ops (ex_rq (AsUser 7) None (Some 1)))\<^sup>*\<^sup>* ex_rows w' \<and> aq_group rq' = Some 1"
proof -
  let ?c = "on_rest_handle_batch ex_db ex_cfg ex_batch_ops (Some [BatchItem (Some 11), BatchItem None]) (ex_rq (AsUser 7) None (Some 1)) ex_rows"
  have "fst (snd ?c) = [] \<and> map in_group (take 2 (snd (snd (snd ?c)))) = [Some 1, Some 3]" by code_simp
  moreover obtain r e rq' w' where c: "?c = (r, e, rq', w')" by (metis prod_cases4)
  moreover have "tame ex_db ex_cfg ex_batch_ops" by (simp add: tame_def ex_cfg_def ex_batch_ops_def)
  ultimately show ?thesis using batch_writes_allowed [OF c] by (auto simp: ex_rq_def)
qed

definition ex_graph_cfg :: model_cfg where
  "ex_graph_cfg = ex_cfg\<lparr>mc_graphs := [''default'', ''secret''], mc_graph_perms := [(''secret'', [''view_secret''])]\<rparr>"

definition ex_two_tenants :: account_db where
  "ex_two_tenants = ex_db\<lparr>ad_users := [(9, ex_user [])],
     ad_members := [ex_member 1 9 1 [(''manage_devices'', JBool True), (''view_secret'', JBool True)],
                    ex_member 2 9 3 [(''manage_devices'', JBool True)]]\<rparr>"

text \<open>
  The graph of a batch's answer is checked once, for the caller's group: rows of another tenant come
  back under a graph that the handler of the single row refuses to serve.
\<close>

theorem batch_graph_not_checked_per_row:
  "\<exists>rq i done errors rq' w. on_rest_handle_batch ex_two_tenants ex_graph_cfg ex_batch_ops (Some [BatchItem (Some 11)]) rq ex_rows = (Rows ''secret'' done, errors, rq', w)
     \<and> i \<in> set done \<and> in_group i = Some 3
     \<and> fst (on_rest_handle_save ex_two_tenants ex_graph_cfg (\<lambda>rq i w. (Inr (False, i), w)) rq i ex_rows)
         = Denied ''group.user_has_permission'' ''graph_permission_denied'' 403"
proof -
  let ?rq = "(ex_rq (AsUser 9) None (Some 1))\<lparr>aq_graph := Some ''secret''\<rparr>" and ?i = "ex_row 11 (Some 3)"
  let ?c = "on_rest_handle_batch ex_two_tenants ex_graph_cfg ex_batch_ops (Some [BatchItem (Some 11)]) ?rq ex_rows"
  have "fst ?c = Rows ''secret'' [?i]" by code_simp
  then obtain e rq' w' where "?c = (Rows ''secret'' [?i], e, rq', w')" by (metis prod_cases4 fst_conv)
  moreover have "fst (on_rest_handle_save ex_two_tenants ex_graph_cfg (\<lambda>rq i w. (Inr (False, i), w)) ?rq ?i ex_rows)
      = Denied ''group.user_has_permission'' ''graph_permission_denied'' 403" by code_simp
  moreover have "in_group ?i = Some 3" by (simp add: ex_row_def)
  ultimately show ?thesis by (metis list.set_intros(1))
qed

section \<open>Protected JSON\<close>

definition protected_of :: "json \<Rightarrow> json option" where
  "protected_of j = (if truthy j then jdict_get j ''protected'' else None)"

lemma update_guarded:
  assumes "update_jsonfield db perms loads merge replace rq current val = Inr new" and "\<not> can_edit_protected_json db perms rq"
    and "\<And>e d. \<not> has_key d ''protected'' \<Longrightarrow> jdict_get (merge e d) ''protected'' = jdict_get e ''protected''"
  shows "jdict_get new ''protected'' = protected_of current"
proof -
  define v where "v = (case val of JStr s \<Rightarrow> (case loads s of Some j \<Rightarrow> j | None \<Rightarrow> val) | _ \<Rightarrow> val)"
  define e where "e = (if truthy current then current else JObj [])"
  have cur: "protected_of current = jdict_get e ''protected''" by (simp add: protected_of_def e_def)
  show ?thesis
  proof (cases "dict_of v = None \<or> dict_of e = None")
    case True
    with assms(1,2) have "new = v" "\<not> has_key e ''protected''" "\<not> has_key v ''protected''"
      by (auto simp: update_jsonfield_def v_def [symmetric] e_def [symmetric] denied_def split: option.splits if_splits)
    with cur show ?thesis by (simp add: has_key_def)
  next
    case False
    then obtain d x where d: "v = JObj d" "e = JObj x" by (cases v; cases e) auto
    with assms show ?thesis unfolding cur
      by (auto simp: update_jsonfield_def v_def [symmetric] e_def [symmetric] denied_def has_key_def Let_def split: if_splits)
  qed
qed

lemma update_keeps_protected:
  assumes "update_jsonfield db perms loads merge replace rq current val = Inr new" and "\<not> can_edit_protected_json db perms rq"
    and "\<And>e d. \<not> has_key d ''protected'' \<Longrightarrow> jdict_get (merge e d) ''protected'' = jdict_get e ''protected''"
  shows "protected_of new = protected_of current"
proof -
  have "\<not> truthy new \<Longrightarrow> jdict_get new ''protected'' = None" by (cases new) auto
  with update_guarded [OF assms] show ?thesis by (auto simp: protected_of_def [of new])
qed

definition ex_merge :: "json \<Rightarrow> json \<Rightarrow> json" where
  "ex_merge a b = (case (a, b) of (JObj x, JObj y) \<Rightarrow> JObj (fold (\<lambda>(k, v). AList.update k v) y x) | _ \<Rightarrow> a)"

lemma map_of_fold_update: "k \<notin> fst ` set y \<Longrightarrow> map_of (fold (\<lambda>(k, v). AList.update k v) y x) k = map_of x k"
  by (induction y arbitrary: x) (auto simp: update_conv')

lemma ex_merge_keeps: "\<not> has_key d ''protected'' \<Longrightarrow> jdict_get (ex_merge e d) ''protected'' = jdict_get e ''protected''"
  by (auto simp: ex_merge_def has_key_def map_of_fold_update map_of_eq_None_iff split: json.split)

definition ex_meta :: json where
  "ex_meta = JObj [(''protected'', JObj [(''group_token_epoch'', JInt 5)]), (''color'', JStr ''red'')]"

text \<open>A group administrator: user 8 holds \<open>manage_group\<close> in group 1 and nothing else.\<close>

definition ex_admin_world :: account_db where
  "ex_admin_world = ex_db\<lparr>ad_users := [(8, ex_user [])], ad_members := [ex_member 1 8 1 [(''manage_group'', JBool True)]]\<rparr>"

text \<open>
  A group administrator who may not edit protected metadata can give an API key of the group the
  permissions \<open>groups\<close> and \<open>admin_verify\<close>, and a request of that key may save the group and move its
  token epoch back, which brings revoked group tokens to life.
\<close>

theorem group_admin_rewinds_epoch:
  "\<exists>perms new. key_set_permissions ex_admin_world (\<lambda>_. None) (ex_rq (AsUser 8) None (Some 1)) (Some 1) []
        (JObj [(''groups'', JBool True), (''admin_verify'', JBool True)]) = Inr perms
     \<and> \<not> can_edit_protected_json ex_admin_world [''admin_compliance'', ''admin_verify''] (ex_rq (AsUser 8) None (Some 1))
     \<and> (let k = ex_key 1 False perms; rq = ex_rq (AsKey k) (Some k) (Some 1)
        in fst (evaluate_permission ex_admin_world group_cfg [''SAVE_PERMS'', ''VIEW_PERMS''] (Some (ex_row 1 None)) rq) = Allow
         \<and> update_jsonfield ex_admin_world [''admin_compliance'', ''admin_verify''] (\<lambda>_. None) ex_merge False rq ex_meta
             (JObj [(''protected'', JObj [(''group_token_epoch'', JInt 0)])]) = Inr new
         \<and> jdict_get new ''protected'' = Some (JObj [(''group_token_epoch'', JInt 0)]))"
proof -
  let ?p = "[(''groups'', JBool True), (''admin_verify'', JBool True)]"
  let ?k = "ex_key 1 False ?p"
  let ?rq = "ex_rq (AsKey ?k) (Some ?k) (Some 1)"
  have 1: "key_set_permissions ex_admin_world (\<lambda>_. None) (ex_rq (AsUser 8) None (Some 1)) (Some 1) [] (JObj ?p) = Inr ?p" by code_simp
  have 2: "\<not> can_edit_protected_json ex_admin_world [''admin_compliance'', ''admin_verify''] (ex_rq (AsUser 8) None (Some 1))" by code_simp
  have 3: "fst (evaluate_permission ex_admin_world group_cfg [''SAVE_PERMS'', ''VIEW_PERMS''] (Some (ex_row 1 None)) ?rq) = Allow" by code_simp
  have 4: "update_jsonfield ex_admin_world [''admin_compliance'', ''admin_verify''] (\<lambda>_. None) ex_merge False ?rq ex_meta
      (JObj [(''protected'', JObj [(''group_token_epoch'', JInt 0)])])
      = Inr (JObj [(''protected'', JObj [(''group_token_epoch'', JInt 0)]), (''color'', JStr ''red'')])" by code_simp
  show ?thesis
    by (rule exI [of _ ?p], rule exI [of _ "JObj [(''protected'', JObj [(''group_token_epoch'', JInt 0)]), (''color'', JStr ''red'')]"]) (use 1 2 3 4 in \<open>simp add: Let_def\<close>)
qed

end
