(* ===== verification/Rest_Save_Laws.thy ===== *)
theory Rest_Save_Laws
  imports Rest_Write_Laws
begin

text \<open>
  The whole save: the guard of the \<open>protected\<close> subtree holds through the field loop, whatever else the
  body contains, provided the class's own setters, relations, stamps, hooks and actions stay away from
  the field.
\<close>

section \<open>The identity of a request\<close>

text \<open>Permission checks move the group and the graph of a request, never who it is.\<close>

definition hook_keeps_user :: "instance_hook option \<Rightarrow> bool" where
  "hook_keeps_user h \<longleftrightarrow> (\<forall>f i db perms rq. h = Some f \<longrightarrow> aq_user (snd (f i db perms rq)) = aq_user rq)"

definition keeps_user :: "model_cfg \<Rightarrow> bool" where
  "keeps_user cfg \<longleftrightarrow> hook_keeps_user (mc_view_hook cfg) \<and> hook_keeps_user (mc_edit_hook cfg)"

lemma group_keeps_user: "keeps_user group_cfg"
  by (auto simp: keeps_user_def hook_keeps_user_def group_cfg_def group_check_view_def group_check_edit_def Let_def split: option.split)

lemma user_keeps_user: "keeps_user user_cfg"
  by (auto simp: keeps_user_def hook_keeps_user_def user_cfg_def user_check_edit_def Let_def)

lemma evaluate_user:
  assumes "evaluate_permission db cfg keys i rq = (v, rq')" and "keeps_user cfg"
  shows "aq_user rq' = aq_user rq"
proof -
  have hook: "aq_user rq1 = aq_user rq" if "hook_for True w cfg = Some (h, d)" "h x db perms rq = (ok, rq1)" for w h d x perms ok rq1
  proof -
    from that(1) have "mc_view_hook cfg = Some h \<or> mc_edit_hook cfg = Some h"
      by (auto simp: hook_for_def split: option.splits if_splits)
    then have "aq_user (snd (h x db perms rq)) = aq_user rq"
      using assms(2) by (auto simp: keeps_user_def hook_keeps_user_def)
    with that(2) show ?thesis by simp
  qed
  show ?thesis using assms(1) hook
    by (auto simp: evaluate_permission_def evaluate_perms_def Let_def split: if_splits option.splits prod.splits)
qed

lemma attach_checked_user:
  "attach_checked db rel pk branch rq = (r, rq') \<Longrightarrow> keeps_user (rel_cfg rel) \<Longrightarrow> aq_user rq' = aq_user rq"
  by (auto simp: attach_checked_def split: option.splits if_splits prod.splits verdict.splits dest: evaluate_user)

lemma attach_pk_user: "attach_pk db rel pk rq = (r, rq') \<Longrightarrow> keeps_user (rel_cfg rel) \<Longrightarrow> aq_user rq' = aq_user rq"
  by (auto simp: attach_pk_def split: if_splits prod.splits option.splits dest: attach_checked_user)

lemma related_hook_user: "related_hook db rel h v rq = (r, rq') \<Longrightarrow> keeps_user (rel_cfg rel) \<Longrightarrow> aq_user rq' = aq_user rq"
  by (auto simp: related_hook_def Let_def split: if_splits prod.splits option.splits dest: attach_checked_user)

lemma save_related_user:
  assumes "save_related_field db rel current v rq = (r, rq')" and "keeps_user (rel_cfg rel)"
  shows "aq_user rq' = aq_user rq"
  using assms
  by (auto simp: save_related_field_def split: if_splits option.splits prod.splits verdict.splits json.splits
      dest: evaluate_user attach_pk_user related_hook_user)

lemma can_edit_user: "aq_user rq' = aq_user rq \<Longrightarrow> can_edit_protected_json db perms rq' = can_edit_protected_json db perms rq"
  by (simp add: can_edit_protected_json_def)

section \<open>The field loop\<close>

text \<open>A predicate on the identity and the row that every single write keeps is kept by the loop.\<close>

lemma save_fields_keeps:
  assumes "save_fields no_save actions save_field data rq s = (e, only, post, rq', s')"
    and "\<And>k v rq s e rq' s'. save_field k v rq s = (e, rq', s') \<Longrightarrow> k \<in> K \<Longrightarrow> Q (aq_user rq) s \<Longrightarrow> Q (aq_user rq') s'"
    and "Q (aq_user rq) s" and "fst ` set data \<subseteq> K"
  shows "Q (aq_user rq') s'"
  using assms(1,3,4)
proof (induction data arbitrary: rq s e only post)
  case (Cons kv data)
  obtain k v where kv: "kv = (k, v)" by (cases kv)
  obtain e1 rq1 s1 where f: "save_field k v rq s = (e1, rq1, s1)" by (cases "save_field k v rq s")
  have step: "Q (aq_user (rq1\<lparr>aq_group := aq_group rq\<rparr>)) s1"
    using assms(2) [OF f _ Cons.prems(2)] Cons.prems(3) kv by simp
  have rest: "fst ` set data \<subseteq> K" using Cons.prems(3) by auto
  show ?case
  proof (cases "k \<in> set no_save \<or> k \<in> set actions")
    case True
    with Cons rest kv show ?thesis by (auto split: if_splits prod.splits)
  next
    case False
    show ?thesis
    proof (cases e1)
      case None
      with Cons.prems(1) kv False f obtain e2 o2 p2 where
        "save_fields no_save actions save_field data (rq1\<lparr>aq_group := aq_group rq\<rparr>) s1 = (e2, o2, p2, rq', s')"
        by (auto split: prod.splits)
      from Cons.IH [OF this step rest] show ?thesis .
    next
      case (Some x)
      with Cons.prems(1) kv False f step show ?thesis by auto
    qed
  qed
qed simp

section \<open>The field with the subtree\<close>

text \<open>
  The parts of a class that are its own keep away from the field: the setters of the keys in the body,
  the relations, writes of other fields, the stamps, the hooks around \<open>save\<close> and the actions that the body
  asks for.
\<close>

definition stays_away :: "'s field_ops \<Rightarrow> 's save_ops \<Rightarrow> (string \<times> json) list \<Rightarrow> string \<Rightarrow> bool" where
  "stays_away fo ops data f \<longleftrightarrow>
     (\<forall>k st v s. k \<in> fst ` set data \<longrightarrow> fo_setter fo k = Some st \<longrightarrow> fo_get fo f (snd (st v s)) = fo_get fo f s)
   \<and> (\<forall>k r rq s. fo_get fo f (snd (fo_attach fo k r rq s)) = fo_get fo f s)
   \<and> (\<forall>k v s. k \<noteq> f \<longrightarrow> fo_get fo f (fo_set fo k v s) = fo_get fo f s)
   \<and> (\<forall>v s. fo_get fo f (fo_set fo f v s) = v)
   \<and> (\<forall>u s. fo_get fo f (so_set_owner ops u s) = fo_get fo f s \<and> fo_get fo f (so_set_group ops u s) = fo_get fo f s
          \<and> fo_get fo f (so_set_modified_by ops u s) = fo_get fo f s)
   \<and> (\<forall>c s. fo_get fo f (snd (so_persist ops c s)) = fo_get fo f s)
   \<and> (\<forall>k v s. k \<in> fst ` set data \<longrightarrow> fo_get fo f (snd (so_act ops k v s)) = fo_get fo f s)"

lemma stays_awayD:
  assumes "stays_away fo ops data f"
  shows "fo_setter fo k = Some st \<Longrightarrow> k \<in> fst ` set data \<Longrightarrow> st v s = (e, s') \<Longrightarrow> fo_get fo f s' = fo_get fo f s"
    and "fo_attach fo k r rq s = (e, s') \<Longrightarrow> fo_get fo f s' = fo_get fo f s"
    and "fo_get fo f (fo_set fo k x s) = (if k = f then x else fo_get fo f s)"
    and "fo_get fo f (stamp ops created rq s) = fo_get fo f s"
    and "so_persist ops c s = (e, s') \<Longrightarrow> fo_get fo f s' = fo_get fo f s"
    and "so_act ops k v s = (a, s') \<Longrightarrow> k \<in> fst ` set data \<Longrightarrow> fo_get fo f s' = fo_get fo f s"
proof -
  note away = assms [unfolded stays_away_def]
  show "fo_setter fo k = Some st \<Longrightarrow> k \<in> fst ` set data \<Longrightarrow> st v s = (e, s') \<Longrightarrow> fo_get fo f s' = fo_get fo f s" using away by (metis snd_conv)
  show "fo_attach fo k r rq s = (e, s') \<Longrightarrow> fo_get fo f s' = fo_get fo f s" using away by (metis snd_conv)
  show "fo_get fo f (fo_set fo k x s) = (if k = f then x else fo_get fo f s)" using away by simp
  show "fo_get fo f (stamp ops created rq s) = fo_get fo f s" using away by (simp add: stamp_def Let_def split: option.split)
  show "so_persist ops c s = (e, s') \<Longrightarrow> fo_get fo f s' = fo_get fo f s" using away by (metis snd_conv)
  show "so_act ops k v s = (a, s') \<Longrightarrow> k \<in> fst ` set data \<Longrightarrow> fo_get fo f s' = fo_get fo f s" using away by (metis snd_conv)
qed

lemma run_actions_away:
  "stays_away fo ops data f \<Longrightarrow> set post \<subseteq> set data \<Longrightarrow> run_actions ops post resp s = (r, s') \<Longrightarrow> fo_get fo f s' = fo_get fo f s"
proof (induction post arbitrary: resp s)
  case (Cons kv post)
  obtain k v where kv: "kv = (k, v)" by (cases kv)
  obtain a s1 where act: "so_act ops k v s = (a, s1)" by (cases "so_act ops k v s")
  from Cons.prems(2) kv have "k \<in> fst ` set data" by force
  from stays_awayD(6) [OF Cons.prems(1) act this] Cons kv act show ?case by (auto split: sum.splits)
qed simp

text \<open>What the loop puts off is part of the body.\<close>

lemma post_in_body:
  "save_fields no_save actions save_field data rq s = (e, only, post, rq', s') \<Longrightarrow> set post \<subseteq> set data"
proof (induction no_save actions save_field data rq s arbitrary: e only post rq' s' rule: save_fields.induct)
  case (2 no_save actions save_field k v data rq s)
  then show ?case by (fastforce split: if_splits prod.splits option.splits)
qed simp

lemma save_field_guarded:
  assumes "on_rest_save_field db fo k v rq s = (e, rq', s')" and "stays_away fo ops data f" and "k \<in> fst ` set data"
    and "fo_kind fo f = Some (JsonField, nl)" and "\<And>k s. keeps_user (rel_cfg (fo_related fo k s))"
    and "\<And>e d. \<not> has_key d ''protected'' \<Longrightarrow> jdict_get (fo_merge fo e d) ''protected'' = jdict_get e ''protected''"
    and "\<not> can_edit_protected_json db (fo_protected_perms fo) rq"
  shows "aq_user rq' = aq_user rq \<and> protected_of (fo_get fo f s') = protected_of (fo_get fo f s)"
proof (cases "fo_setter fo k")
  case (Some st)
  with assms(1) stays_awayD(1) [OF assms(2) Some assms(3)] show ?thesis by (auto simp: on_rest_save_field_def split: prod.splits)
next
  case None
  show ?thesis
  proof (cases "fo_kind fo k")
    case None
    with assms(1) \<open>fo_setter fo k = None\<close> show ?thesis by (simp add: on_rest_save_field_def)
  next
    case (Some kn)
    obtain kind nullable where kn: "kn = (kind, nullable)" by (cases kn)
    note field = assms(1) \<open>fo_setter fo k = None\<close> Some kn
    show ?thesis
    proof (cases "kind = RelationField")
      case True
      obtain r rq1 where r: "save_related_field db (fo_related fo k s) (fo_current fo k s) v rq = (r, rq1)"
        by (cases "save_related_field db (fo_related fo k s) (fo_current fo k s) v rq")
      from save_related_user [OF r assms(5)] True field r show ?thesis
        by (auto simp: on_rest_save_field_def split: fk_outcome.splits prod.splits dest: stays_awayD(2) [OF assms(2)])
    next
      case False
      show ?thesis
      proof (cases "k = f")
        case True
        with assms(4) Some kn have "kind = JsonField" by simp
        with True field False show ?thesis
          using update_keeps_protected [OF _ assms(7) assms(6)]
          by (auto simp: on_rest_save_field_def stays_awayD(3) [OF assms(2)] split: sum.splits)
      next
        case neq: False
        with field False show ?thesis
          by (auto simp: on_rest_save_field_def stays_awayD(3) [OF assms(2)] split: sum.splits if_splits)
      qed
    qed
  qed
qed

text \<open>
  C19: a save by a requester who may not edit protected metadata leaves the \<open>protected\<close> subtree of a JSON
  field as it was, whether the save succeeds or raises on the way, whatever the body says about this
  field and all the others, except that it names no setter or action of the class that writes the field
  itself (as \<open>revoke_group_tokens\<close> of a group does), and the class's stamps, relations and save hooks do
  not write it either. The merge of two dicts is taken to keep the keys it is not given, and the
  permission hooks of related classes to leave the identity on the request.
\<close>

theorem save_guards_protected:
  assumes "on_rest_save ops no_save actions (on_rest_save_field db fo) created data rq s = (r, rq', s')"
    and "\<not> can_edit_protected_json db (fo_protected_perms fo) rq"
    and "stays_away fo ops data f" and "fo_kind fo f = Some (JsonField, nl)"
    and "\<And>k s. keeps_user (rel_cfg (fo_related fo k s))"
    and "\<And>e d. \<not> has_key d ''protected'' \<Longrightarrow> jdict_get (fo_merge fo e d) ''protected'' = jdict_get e ''protected''"
  shows "protected_of (fo_get fo f s') = protected_of (fo_get fo f s)"
proof -
  define Q where "Q u t \<longleftrightarrow> u = aq_user rq \<and> protected_of (fo_get fo f t) = protected_of (fo_get fo f s)" for u t
  obtain e only post rq1 s1 where loop: "save_fields no_save actions (on_rest_save_field db fo) data rq s = (e, only, post, rq1, s1)"
    by (metis prod_cases5)
  have "Q (aq_user rq1) s1"
  proof (rule save_fields_keeps [OF loop])
    fix k v rq2 s2 e rq3 s3
    assume f: "on_rest_save_field db fo k v rq2 s2 = (e, rq3, s3)" and q: "Q (aq_user rq2) s2" and k: "k \<in> fst ` set data"
    then have "\<not> can_edit_protected_json db (fo_protected_perms fo) rq2"
      using assms(2) can_edit_user [of rq2 rq] by (simp add: Q_def)
    from save_field_guarded [OF f assms(3) k assms(4-6) this] q show "Q (aq_user rq3) s3" by (simp add: Q_def)
  qed (simp_all add: Q_def)
  then have s1: "protected_of (fo_get fo f s1) = protected_of (fo_get fo f s)" by (simp add: Q_def)
  have "fo_get fo f s' = fo_get fo f s1"
    using assms(1) loop post_in_body [OF loop]
    by (auto simp: on_rest_save_def stays_awayD(4) [OF assms(3)] split: option.splits if_splits prod.splits
        dest!: stays_awayD(5) [OF assms(3)] run_actions_away [OF assms(3)])
  with s1 show ?thesis by simp
qed

text \<open>A row as an association list of its fields.\<close>

definition ex_field_ops :: "(string \<times> json) list field_ops" where
  "ex_field_ops = \<lparr>fo_setter = (\<lambda>k. None),
     fo_kind = (\<lambda>k. if k = ''metadata'' then Some (JsonField, True) else Some (OtherField, True)),
     fo_get = (\<lambda>k s. case map_of s k of None \<Rightarrow> JNull | Some v \<Rightarrow> v), fo_set = AList.update,
     fo_related = (\<lambda>k s. ex_related), fo_current = (\<lambda>k s. None), fo_attach = (\<lambda>k r rq s. (None, s)),
     fo_parse = Inr, fo_protected_perms = [''admin_verify''], fo_loads = (\<lambda>s. None), fo_merge = ex_merge, fo_replace = []\<rparr>"

text \<open>The class has an action that writes the field; the body does not ask for it.\<close>

definition ex_row_ops :: "(string \<times> json) list save_ops" where
  "ex_row_ops = \<lparr>so_owner = (\<lambda>s. None), so_set_owner = (\<lambda>u s. s), so_group = (\<lambda>s. None), so_set_group = (\<lambda>g s. s),
     so_modified_by = (\<lambda>s. None), so_set_modified_by = (\<lambda>u s. s), so_persist = (\<lambda>c s. (None, s)), so_act = (\<lambda>k v s. (Inr None, if k = ''revoke_group_tokens'' then AList.update ''metadata'' JNull s else s))\<rparr>"

theorem save_guards_protected_witness:
  "\<exists>r rq' s'. on_rest_save ex_row_ops [] [''revoke_group_tokens''] (on_rest_save_field ex_db ex_field_ops) False
      [(''name'', JStr ''x''), (''metadata'', JObj [(''__replace'', JBool True), (''color'', JStr ''blue'')])]
      (ex_rq (AsUser 8) None (Some 1)) [(''metadata'', ex_meta)] = (r, rq', s')
    \<and> r = denied \<and> fo_get ex_field_ops ''name'' s' = JStr ''x''
    \<and> protected_of (fo_get ex_field_ops ''metadata'' s') = Some (JObj [(''group_token_epoch'', JInt 5)])"
proof -
  let ?run = "on_rest_save ex_row_ops [] [''revoke_group_tokens''] (on_rest_save_field ex_db ex_field_ops) False
      [(''name'', JStr ''x''), (''metadata'', JObj [(''__replace'', JBool True), (''color'', JStr ''blue'')])]
      (ex_rq (AsUser 8) None (Some 1)) [(''metadata'', ex_meta)]"
  obtain r rq' s' where run: "?run = (r, rq', s')" by (cases ?run)
  have no: "\<not> can_edit_protected_json ex_db (fo_protected_perms ex_field_ops) (ex_rq (AsUser 8) None (Some 1))" by code_simp
  have away: "stays_away ex_field_ops ex_row_ops [(''name'', JStr ''x''), (''metadata'', JObj [(''__replace'', JBool True), (''color'', JStr ''blue'')])] ''metadata''"
    by (simp add: stays_away_def ex_field_ops_def ex_row_ops_def update_conv')
  have "keeps_user (rel_cfg ex_related)" by (simp add: keeps_user_def hook_keeps_user_def ex_related_def ex_cfg_def)
  then have "protected_of (fo_get ex_field_ops ''metadata'' s') = protected_of (fo_get ex_field_ops ''metadata'' [(''metadata'', ex_meta)])"
    by (intro save_guards_protected [OF run no away, of True]) (simp_all add: ex_field_ops_def ex_merge_keeps)
  moreover have "fst ?run = denied" "fo_get ex_field_ops ''name'' (snd (snd ?run)) = JStr ''x''" by code_simp+
  ultimately show ?thesis using run by (simp add: ex_field_ops_def ex_meta_def protected_of_def)
qed

end
