(* ===== verification/Account_Tokens.thy ===== *)
theory Account_Tokens
  imports Py_Strings "HOL-Library.AList"
begin

text \<open>
  Single-use account tokens and codes (\<open>account/utils/tokens.py\<close>): signed tokens of several kinds whose
  identifier is stored in the user's secrets, six-digit codes, cached invites and the two ways to
  change an address. The signature, the encoding of the payload and random strings are parameters;
  a user's secrets are an association list, \<open>set_secret\<close> of \<open>None\<close> removes a key. The auth key is the
  one \<open>get_auth_key\<close> returns.
\<close>

record tok_user =
  tu_auth_key :: string
  tu_secrets :: "(string \<times> json) list"

record tok_world =
  tw_users :: "(int \<times> tok_user) list"
  tw_events :: "string list"

record tok_env =
  te_sign :: "string \<Rightarrow> string \<Rightarrow> string"
  te_encode :: "json \<Rightarrow> string"
  te_decode :: "string \<Rightarrow> json option"
  te_ttl :: "string \<Rightarrow> int"

type_synonym 'a tact = "tok_world \<Rightarrow> 'a res \<times> tok_world"

definition get_secret :: "tok_user \<Rightarrow> string \<Rightarrow> json option" where
  "get_secret t k = map_of (tu_secrets t) k"

definition set_secret :: "string \<Rightarrow> json option \<Rightarrow> tok_user \<Rightarrow> tok_user" where
  "set_secret k v t = t\<lparr>tu_secrets := (case v of None \<Rightarrow> AList.delete k (tu_secrets t) | Some x \<Rightarrow> AList.update k x (tu_secrets t))\<rparr>"

definition tok_user_of :: "tok_world \<Rightarrow> int \<Rightarrow> tok_user option" where
  "tok_user_of w u = map_of (tw_users w) u"

definition save_user :: "int \<Rightarrow> tok_user \<Rightarrow> tok_world \<Rightarrow> tok_world" where
  "save_user u t w = w\<lparr>tw_users := AList.update u t (tw_users w)\<rparr>"

definition report :: "string \<Rightarrow> tok_world \<Rightarrow> tok_world" where
  "report event w = w\<lparr>tw_events := tw_events w @ [event]\<rparr>"

section \<open>Kinds and the wire form\<close>

definition JTI_KEYS :: "(string \<times> string) list" where
  "JTI_KEYS = [(''pr'', ''password_reset_jti''), (''ml'', ''magic_login_jti''), (''ev'', ''email_verify_jti''),
     (''iv'', ''invite_jti''), (''ec'', ''email_change_jti''), (''pc'', ''phone_change_jti''),
     (''dv'', ''deactivate_jti''), (''tp'', ''forced_password_jti'')]"

definition TS_KEYS :: "(string \<times> string) list" where
  "TS_KEYS = [(''pr'', ''password_reset_ts''), (''ml'', ''magic_login_ts''), (''ev'', ''email_verify_ts''),
     (''iv'', ''invite_ts''), (''ec'', ''email_change_ts''), (''pc'', ''phone_change_ts''),
     (''dv'', ''deactivate_ts''), (''tp'', ''forced_password_ts'')]"

definition jti_key :: "string \<Rightarrow> string" where
  "jti_key kind = (case map_of JTI_KEYS kind of Some k \<Rightarrow> k | None \<Rightarrow> [])"

definition ts_key :: "string \<Rightarrow> string" where
  "ts_key kind = (case map_of TS_KEYS kind of Some k \<Rightarrow> k | None \<Rightarrow> [])"

text \<open>\<open>token.encode("utf-8").hex()\<close> and \<open>bytes.fromhex\<close>, which skips white space between bytes\<close>

definition to_hex :: "string \<Rightarrow> string" where
  "to_hex s = concat (map (\<lambda>c. let n = (of_char c :: nat) in [hex_digit (n div 16), hex_digit (n mod 16)]) s)"

definition hex_val :: "char \<Rightarrow> nat option" where
  "hex_val c =
     (let n = (of_char c :: nat) in
      if is_digit c then Some (n - 48)
      else if 97 \<le> n \<and> n \<le> 102 then Some (n - 87)
      else if 65 \<le> n \<and> n \<le> 70 then Some (n - 55) else None)"

fun from_hex :: "string \<Rightarrow> string option" where
  "from_hex [] = Some []"
| "from_hex [c] = (if is_space c then Some [] else None)"
| "from_hex (a # b # s) =
     (if is_space a then from_hex (b # s)
      else (case (hex_val a, hex_val b) of
              (Some x, Some y) \<Rightarrow> map_option (\<lambda>t. char_of (16 * x + y) # t) (from_hex s)
            | _ \<Rightarrow> None))"

text \<open>\<open>s[-n:]\<close> and \<open>s[:-n]\<close>\<close>

definition suffix_of :: "nat \<Rightarrow> string \<Rightarrow> string" where
  "suffix_of n s = drop (length s - n) s"

definition prefix_of :: "nat \<Rightarrow> string \<Rightarrow> string" where
  "prefix_of n s = take (length s - n) s"

section \<open>Generating and verifying\<close>

definition tok_payload :: "int \<Rightarrow> int \<Rightarrow> string \<Rightarrow> string \<Rightarrow> json" where
  "tok_payload u now jti kind = JObj [(''uid'', JInt u), (''ts'', JInt now), (''jti'', JStr jti), (''kind'', JStr kind)]"

text \<open>The token of a payload under a key, and the secrets that make it verify.\<close>

definition token_text :: "tok_env \<Rightarrow> string \<Rightarrow> string \<Rightarrow> json \<Rightarrow> string" where
  "token_text ev key kind p =
     (let token = te_encode ev p
      in kind @ '':'' @ to_hex token @ suffix_of 6 (te_sign ev token key))"

definition generate :: "tok_env \<Rightarrow> int \<Rightarrow> string \<Rightarrow> int \<Rightarrow> string \<Rightarrow> string tact" where
  "generate ev now jti u kind w =
     (case tok_user_of w u of
        None \<Rightarrow> (Inl DoesNotExist, w)
      | Some t \<Rightarrow>
          (Inr (token_text ev (tu_auth_key t) kind (tok_payload u now jti kind)),
           save_user u (set_secret (ts_key kind) (Some (JInt now)) (set_secret (jti_key kind) (Some (JStr jti)) t)) w))"

definition invalid_format :: "tok_world \<Rightarrow> 'a res \<times> tok_world" where
  "invalid_format w = (Inl (ValueError ''Invalid token format''), report ''token:unknown'' w)"

definition consume_token :: "int \<Rightarrow> string \<Rightarrow> tok_user \<Rightarrow> tok_world \<Rightarrow> tok_world" where
  "consume_token u kind t w =
     (let t1 = set_secret (ts_key kind) None (set_secret (jti_key kind) None t)
      in save_user u (if kind = ''iv'' then set_secret ''invite_token'' None t1 else t1) w)"

text \<open>Once the user is found: signature, age, identifier.\<close>

definition verify_user :: "tok_env \<Rightarrow> int \<Rightarrow> string \<Rightarrow> string \<Rightarrow> string \<Rightarrow> json \<Rightarrow> json \<Rightarrow> bool \<Rightarrow> int \<Rightarrow> tok_user \<Rightarrow> int tact" where
  "verify_user ev now kind token tsig ts jti consume u t w =
     (if suffix_of 6 (te_sign ev token (tu_auth_key t)) \<noteq> tsig
        then (Inl (ValueError ''Invalid token signature''), report ''invalid_token'' w)
      else (case int_of_value ts of
              Inl _ \<Rightarrow> invalid_format w
            | Inr i \<Rightarrow>
                if now - i > te_ttl ev kind then (Inl (ValueError ''Expired token''), report ''expired_token'' w)
                else (case get_secret t (jti_key kind) of
                        None \<Rightarrow> (Inl (ValueError ''Token already used''), report ''invalid_token'' w)
                      | Some expected \<Rightarrow>
                          if \<not> truthy expected \<or> expected \<noteq> jti
                            then (Inl (ValueError ''Token already used''), report ''invalid_token'' w)
                          else (Inr u, if consume then consume_token u kind t w else w))))"

definition verify_payload :: "tok_env \<Rightarrow> int \<Rightarrow> string \<Rightarrow> string \<Rightarrow> string \<Rightarrow> json \<Rightarrow> bool \<Rightarrow> int tact" where
  "verify_payload ev now kind token tsig p consume w =
     (case (jdict_get p ''uid'', jdict_get p ''ts'', jdict_get p ''jti'') of
        (Some uid, Some ts, Some jti) \<Rightarrow>
          if jdict_get p ''kind'' \<noteq> Some (JStr kind) then (Inl (ValueError ''Token kind mismatch''), w)
          else (case int_of_value uid of
                  Inl _ \<Rightarrow> invalid_format w
                | Inr u \<Rightarrow>
                    (case tok_user_of w u of
                       None \<Rightarrow> invalid_format w
                     | Some t \<Rightarrow> verify_user ev now kind token tsig ts jti consume u t w))
      | _ \<Rightarrow> (Inl (ValueError ''Invalid token''), w))"

definition verify :: "tok_env \<Rightarrow> int \<Rightarrow> string \<Rightarrow> string option \<Rightarrow> bool \<Rightarrow> int tact" where
  "verify ev now raw expected_kind consume w =
     (case split_first (CHR '':'') raw of
        None \<Rightarrow> (Inl (ValueError ''Invalid token format''), w)
      | Some (kind, rest) \<Rightarrow>
          if map_of JTI_KEYS kind = None then (Inl (ValueError ''Unknown token kind''), w)
          else if expected_kind \<noteq> None \<and> expected_kind \<noteq> Some kind then (Inl (ValueError ''Invalid token kind''), w)
          else (case from_hex (prefix_of 6 rest) of
                  None \<Rightarrow> invalid_format w
                | Some token \<Rightarrow>
                    (case te_decode ev token of
                       None \<Rightarrow> invalid_format w
                     | Some p \<Rightarrow> verify_payload ev now kind token (suffix_of 6 rest) p consume w)))"

section \<open>Codes\<close>

text \<open>
  The six-digit codes of e-mail and phone verification: the same two functions under different secrets
  and event names.
\<close>

definition generate_code :: "string \<Rightarrow> string \<Rightarrow> int \<Rightarrow> string \<Rightarrow> int \<Rightarrow> string tact" where
  "generate_code code_key stamp_key now code u w =
     (case tok_user_of w u of
        None \<Rightarrow> (Inl DoesNotExist, w)
      | Some t \<Rightarrow> (Inr code, save_user u (set_secret stamp_key (Some (JInt now)) (set_secret code_key (Some (JStr code)) t)) w))"

text \<open>\<open>int(user.get_secret(key) or 0)\<close>\<close>

definition secret_int :: "tok_user \<Rightarrow> string \<Rightarrow> int res" where
  "secret_int t k = (case get_secret t k of None \<Rightarrow> Inr 0 | Some v \<Rightarrow> if truthy v then int_of_value v else Inr 0)"

definition verify_code :: "string \<Rightarrow> string \<Rightarrow> string \<Rightarrow> int \<Rightarrow> int \<Rightarrow> string \<Rightarrow> int \<Rightarrow> unit tact" where
  "verify_code code_key stamp_key event ttl now code u w =
     (case tok_user_of w u of
        None \<Rightarrow> (Inl DoesNotExist, w)
      | Some t \<Rightarrow>
          (case secret_int t stamp_key of
             Inl e \<Rightarrow> (Inl e, w)
           | Inr stamp \<Rightarrow>
               if (case get_secret t code_key of None \<Rightarrow> True | Some s \<Rightarrow> \<not> truthy s \<or> s \<noteq> JStr code)
                 then (Inl (ValueError ''Invalid code''), report (event @ '':invalid'') w)
               else if now - stamp > ttl then (Inl (ValueError ''Expired code''), report (event @ '':expired'') w)
               else (Inr (), save_user u (set_secret stamp_key None (set_secret code_key None t)) w)))"

definition generate_email_verify_code :: "int \<Rightarrow> string \<Rightarrow> int \<Rightarrow> string tact" where
  "generate_email_verify_code = generate_code ''email_verify_code'' ''email_verify_code_ts''"

definition verify_email_verify_code :: "int \<Rightarrow> int \<Rightarrow> string \<Rightarrow> int \<Rightarrow> unit tact" where
  "verify_email_verify_code = verify_code ''email_verify_code'' ''email_verify_code_ts'' ''email_verify''"

definition generate_phone_verify_code :: "int \<Rightarrow> string \<Rightarrow> int \<Rightarrow> string tact" where
  "generate_phone_verify_code = generate_code ''phone_verify_code'' ''phone_verify_ts''"

definition verify_phone_verify_code :: "int \<Rightarrow> int \<Rightarrow> string \<Rightarrow> int \<Rightarrow> unit tact" where
  "verify_phone_verify_code = verify_code ''phone_verify_code'' ''phone_verify_ts'' ''phone_verify''"

section \<open>Flows\<close>

text \<open>Write secrets of a user in order and save the row.\<close>

definition put_secrets :: "int \<Rightarrow> (string \<times> json option) list \<Rightarrow> tok_world \<Rightarrow> tok_world" where
  "put_secrets u kvs w =
     (case tok_user_of w u of
        None \<Rightarrow> w
      | Some t \<Rightarrow> save_user u (fold (\<lambda>(k, v). set_secret k v) kvs t) w)"

definition secret_of :: "tok_world \<Rightarrow> int \<Rightarrow> string \<Rightarrow> json option" where
  "secret_of w u k = (case tok_user_of w u of None \<Rightarrow> None | Some t \<Rightarrow> get_secret t k)"

definition truthy_secret :: "tok_world \<Rightarrow> int \<Rightarrow> string \<Rightarrow> json option" where
  "truthy_secret w u k = (case secret_of w u k of None \<Rightarrow> None | Some v \<Rightarrow> if truthy v then Some v else None)"

definition generate_magic_login_token :: "tok_env \<Rightarrow> int \<Rightarrow> string \<Rightarrow> string \<Rightarrow> int \<Rightarrow> string tact" where
  "generate_magic_login_token ev now jti channel u w =
     (case generate ev now jti u ''ml'' w of
        (Inl e, w') \<Rightarrow> (Inl e, w')
      | (Inr tok, w') \<Rightarrow> (Inr tok, put_secrets u [(''magic_login_channel'', Some (JStr channel))] w'))"

definition verify_magic_login_token :: "tok_env \<Rightarrow> int \<Rightarrow> string \<Rightarrow> (int \<times> json) tact" where
  "verify_magic_login_token ev now raw w =
     (case verify ev now raw (Some ''ml'') True w of
        (Inl e, w') \<Rightarrow> (Inl e, w')
      | (Inr u, w') \<Rightarrow>
          (Inr (u, case truthy_secret w' u ''magic_login_channel'' of Some c \<Rightarrow> c | None \<Rightarrow> JStr ''email''),
           put_secrets u [(''magic_login_channel'', None)] w'))"

definition generate_invite_token :: "tok_env \<Rightarrow> int \<Rightarrow> string \<Rightarrow> int \<Rightarrow> string tact" where
  "generate_invite_token ev now jti u w =
     (case generate ev now jti u ''iv'' w of
        (Inl e, w') \<Rightarrow> (Inl e, w')
      | (Inr tok, w') \<Rightarrow> (Inr tok, put_secrets u [(''invite_token'', Some (JStr tok))] w'))"

text \<open>A cached token is a string: what else the secret might hold would be returned as it is.\<close>

definition get_or_generate_invite_token :: "tok_env \<Rightarrow> int \<Rightarrow> string \<Rightarrow> int \<Rightarrow> string tact" where
  "get_or_generate_invite_token ev now jti u w =
     (case tok_user_of w u of
        None \<Rightarrow> (Inl DoesNotExist, w)
      | Some t \<Rightarrow>
          (case secret_int t ''invite_ts'' of
             Inl e \<Rightarrow> (Inl e, w)
           | Inr stamp \<Rightarrow>
               (case truthy_secret w u ''invite_token'' of
                  Some (JStr tok) \<Rightarrow>
                    if stamp \<noteq> 0 \<and> now - stamp < te_ttl ev ''iv'' then (Inr tok, w) else generate_invite_token ev now jti u w
                | _ \<Rightarrow> generate_invite_token ev now jti u w)))"

definition generate_email_change_token :: "tok_env \<Rightarrow> int \<Rightarrow> string \<Rightarrow> string \<Rightarrow> int \<Rightarrow> string tact" where
  "generate_email_change_token ev now jti new_email u w =
     (case generate ev now jti u ''ec'' w of
        (Inl e, w') \<Rightarrow> (Inl e, w')
      | (Inr tok, w') \<Rightarrow>
          (Inr tok, put_secrets u [(''pending_email'', Some (JStr new_email)), (''email_change_otp'', None), (''email_change_otp_ts'', None)] w'))"

definition verify_email_change_token :: "tok_env \<Rightarrow> int \<Rightarrow> string \<Rightarrow> (int \<times> json) tact" where
  "verify_email_change_token ev now raw w =
     (case verify ev now raw (Some ''ec'') True w of
        (Inl e, w') \<Rightarrow> (Inl e, w')
      | (Inr u, w') \<Rightarrow>
          (case truthy_secret w' u ''pending_email'' of
             None \<Rightarrow> (Inl (ValueError ''Invalid token''), report ''email_change:invalid'' (put_secrets u [(''pending_email'', None)] w'))
           | Some email \<Rightarrow> (Inr (u, email), put_secrets u [(''pending_email'', None)] w')))"

definition generate_email_change_otp :: "int \<Rightarrow> string \<Rightarrow> string \<Rightarrow> int \<Rightarrow> string tact" where
  "generate_email_change_otp now otp new_email u w =
     (case tok_user_of w u of
        None \<Rightarrow> (Inl DoesNotExist, w)
      | Some _ \<Rightarrow>
          (Inr otp, put_secrets u [(jti_key ''ec'', None), (ts_key ''ec'', None), (''pending_email'', Some (JStr new_email)),
             (''email_change_otp'', Some (JStr otp)), (''email_change_otp_ts'', Some (JInt now))] w))"

definition clear_email_change :: "int \<Rightarrow> tok_world \<Rightarrow> tok_world" where
  "clear_email_change u = put_secrets u [(''pending_email'', None), (''email_change_otp'', None), (''email_change_otp_ts'', None)]"

definition verify_email_change_otp :: "int \<Rightarrow> int \<Rightarrow> string \<Rightarrow> int \<Rightarrow> json tact" where
  "verify_email_change_otp ttl now code u w =
     (case tok_user_of w u of
        None \<Rightarrow> (Inl DoesNotExist, w)
      | Some t \<Rightarrow>
          (case secret_int t ''email_change_otp_ts'' of
             Inl e \<Rightarrow> (Inl e, w)
           | Inr stamp \<Rightarrow>
               (case (truthy_secret w u ''pending_email'', truthy_secret w u ''email_change_otp'') of
                  (Some email, Some otp) \<Rightarrow>
                    if now - stamp > ttl
                      then (Inl (ValueError ''Expired code''), report ''email_change:expired'' (clear_email_change u w))
                    else if otp \<noteq> JStr code
                      then (Inl (ValueError ''Invalid code''), report ''email_change:invalid_otp'' w)
                    else (Inr email, clear_email_change u w)
                | _ \<Rightarrow> (Inl (ValueError ''No pending email change''), report ''email_change:invalid'' w))))"

definition generate_phone_change_token :: "tok_env \<Rightarrow> int \<Rightarrow> string \<Rightarrow> string \<Rightarrow> string \<Rightarrow> int \<Rightarrow> (string \<times> string) tact" where
  "generate_phone_change_token ev now jti otp new_phone u w =
     (case generate ev now jti u ''pc'' w of
        (Inl e, w') \<Rightarrow> (Inl e, w')
      | (Inr tok, w') \<Rightarrow>
          (Inr (tok, otp), put_secrets u [(''pending_phone'', Some (JStr new_phone)), (''phone_change_otp'', Some (JStr otp)),
             (''phone_change_otp_ts'', Some (JInt now))] w'))"

definition clear_phone_change :: "int \<Rightarrow> tok_world \<Rightarrow> tok_world" where
  "clear_phone_change u = put_secrets u [(''pending_phone'', None), (''phone_change_otp'', None), (''phone_change_otp_ts'', None)]"

definition verify_phone_change_token :: "tok_env \<Rightarrow> int \<Rightarrow> string \<Rightarrow> string \<Rightarrow> (int \<times> json) tact" where
  "verify_phone_change_token ev now raw code w =
     (case verify ev now raw (Some ''pc'') True w of
        (Inl e, w') \<Rightarrow> (Inl e, w')
      | (Inr u, w') \<Rightarrow>
          (case tok_user_of w' u of
             None \<Rightarrow> (Inl DoesNotExist, w')
           | Some t \<Rightarrow>
               (case secret_int t ''phone_change_otp_ts'' of
                  Inl e \<Rightarrow> (Inl e, w')
                | Inr stamp \<Rightarrow>
                    (case (truthy_secret w' u ''pending_phone'', truthy_secret w' u ''phone_change_otp'') of
                       (Some phone, Some otp) \<Rightarrow>
                         if now - stamp > te_ttl ev ''pc''
                           then (Inl (ValueError ''Expired code''), report ''phone_change:expired'' (clear_phone_change u w'))
                         else if otp \<noteq> JStr code
                           then (Inl (ValueError ''Invalid code''), report ''phone_change:invalid_otp'' w')
                         else (Inr (u, phone), clear_phone_change u w')
                     | _ \<Rightarrow> (Inl (ValueError ''Invalid token''), report ''phone_change:invalid'' w')))))"

end
