(* ===== verification/Account_Token_Laws.thy ===== *)
theory Account_Token_Laws
  imports Account_Tokens
begin

text \<open>
  What the single-use tokens guarantee: they verify until they are consumed, superseded or too old, the
  kinds do not interfere, and an address change has one confirmation path at a time. Two theorems
  record where the code does less than it says.
\<close>

section \<open>Secrets\<close>

lemma get_set_secret [simp]: "get_secret (set_secret k v t) k' = (if k' = k then v else get_secret t k')"
  by (auto simp: get_secret_def set_secret_def update_conv' delete_conv' split: option.split)

lemma auth_key_set_secret [simp]: "tu_auth_key (set_secret k v t) = tu_auth_key t"
  by (simp add: set_secret_def)

lemma saved_user [simp]: "tok_user_of (save_user u t w) v = (if v = u then Some t else tok_user_of w v)"
  by (simp add: tok_user_of_def save_user_def update_conv')

lemma reported_user [simp]: "tok_user_of (report e w) v = tok_user_of w v"
  by (simp add: tok_user_of_def report_def)

definition kinds :: "string set" where
  "kinds = fst ` set JTI_KEYS"

lemma kinds_listed: "kinds = {''pr'', ''ml'', ''ev'', ''iv'', ''ec'', ''pc'', ''dv'', ''tp''}"
  by (simp add: kinds_def JTI_KEYS_def)

lemma known_kind: "map_of JTI_KEYS kind = None \<longleftrightarrow> kind \<notin> kinds"
  by (simp add: kinds_def map_of_eq_None_iff)

lemma jti_keys_apart:
  assumes "k \<in> kinds" and "k' \<in> kinds"
  shows "jti_key k = jti_key k' \<longleftrightarrow> k = k'" "jti_key k \<noteq> ts_key k'" "jti_key k \<noteq> ''invite_token''"
  using assms by (auto simp: kinds_listed jti_key_def ts_key_def JTI_KEYS_def TS_KEYS_def)

section \<open>The wire form\<close>

lemma hex_val_digit: "n < 16 \<Longrightarrow> hex_val (hex_digit n) = Some n"
  by (auto simp: hex_val_def hex_digit_def digit_char_def is_digit_def Let_def)

lemma hex_digit_no_space: "n < 16 \<Longrightarrow> \<not> is_space (hex_digit n)"
  by (auto simp: is_space_def hex_digit_def digit_char_def)

lemma from_to_hex: "from_hex (to_hex s) = Some s"
proof (induction s)
  case (Cons c s)
  have "(of_char c :: nat) < 256" by simp
  then have "(of_char c :: nat) div 16 < 16" "(of_char c :: nat) mod 16 < 16" by (auto simp: less_mult_imp_div_less)
  moreover have "16 * ((of_char c :: nat) div 16) + of_char c mod 16 = of_char c" by simp
  ultimately show ?case using Cons by (simp add: to_hex_def Let_def hex_val_digit hex_digit_no_space)
qed (simp add: to_hex_def)

lemma affixes: "length s = n \<Longrightarrow> prefix_of n (t @ s) = t \<and> suffix_of n (t @ s) = s"
  by (simp add: prefix_of_def suffix_of_def)

lemma length_suffix: "n \<le> length s \<Longrightarrow> length (suffix_of n s) = n"
  by (simp add: suffix_of_def)

text \<open>What is relied on of the encoding and of the signature, which is hexadecimal and long.\<close>

definition codec_ok :: "tok_env \<Rightarrow> json \<Rightarrow> string \<Rightarrow> bool" where
  "codec_ok ev p key \<longleftrightarrow> te_decode ev (te_encode ev p) = Some p \<and> 6 \<le> length (te_sign ev (te_encode ev p) key)"

lemma split_kind: "k \<in> kinds \<Longrightarrow> split_first (CHR '':'') (k @ CHR '':'' # s) = Some (k, s)"
  by (auto simp: kinds_listed split_first_def)

lemma verify_token_text:
  assumes "k \<in> kinds" and "codec_ok ev p key" and "expected = None \<or> expected = Some k"
  shows "verify ev now (token_text ev key k p) expected consume w =
    verify_payload ev now k (te_encode ev p) (suffix_of 6 (te_sign ev (te_encode ev p) key)) p consume w"
proof -
  let ?s = "suffix_of 6 (te_sign ev (te_encode ev p) key)"
  have "length ?s = 6" using assms(2) by (simp add: codec_ok_def length_suffix)
  from affixes [OF this, of "to_hex (te_encode ev p)"]
  show ?thesis using assms
    by (auto simp: verify_def token_text_def Let_def split_kind known_kind from_to_hex codec_ok_def)
qed

lemma verify_payload_text:
  "verify_payload ev now k token s (tok_payload u t0 jti k) c w =
    (case tok_user_of w u of None \<Rightarrow> invalid_format w
     | Some t \<Rightarrow> verify_user ev now k token s (JInt t0) (JStr jti) c u t w)"
  by (simp add: verify_payload_def tok_payload_def)

lemma generate_cases:
  assumes "generate ev now jti u k w = (Inr raw, w')"
  obtains t where "tok_user_of w u = Some t" "raw = token_text ev (tu_auth_key t) k (tok_payload u now jti k)"
    "w' = save_user u (set_secret (ts_key k) (Some (JInt now)) (set_secret (jti_key k) (Some (JStr jti)) t)) w"
  using assms by (auto simp: generate_def split: option.splits)

lemma token_verifies:
  assumes "generate ev t0 jti u k w = (Inr raw, w1)" and "tok_user_of w u = Some t"
    and "k \<in> kinds" and "jti \<noteq> []" and "codec_ok ev (tok_payload u t0 jti k) (tu_auth_key t)"
    and "now - t0 \<le> te_ttl ev k" and "expected = None \<or> expected = Some k"
  shows "\<exists>t1. tok_user_of w1 u = Some t1 \<and> verify ev now raw expected consume w1
    = (Inr u, if consume then consume_token u k t1 w1 else w1)"
proof -
  from generate_cases [OF assms(1)] assms(2) have raw: "raw = token_text ev (tu_auth_key t) k (tok_payload u t0 jti k)"
    and w1: "w1 = save_user u (set_secret (ts_key k) (Some (JInt t0)) (set_secret (jti_key k) (Some (JStr jti)) t)) w" by auto
  show ?thesis using assms(4,6) jti_keys_apart(2) [OF assms(3,3)]
    unfolding raw verify_token_text [OF assms(3,5,7)] verify_payload_text
    by (simp add: w1 verify_user_def)
qed

text \<open>
  A token verifies for its own user and kind until its lifetime is over, and consuming it takes
  exactly its own secrets away.
\<close>

theorem token_roundtrip:
  assumes "generate ev t0 jti u k w = (Inr raw, w1)" and "tok_user_of w u = Some t"
    and "k \<in> kinds" and "jti \<noteq> []" and "codec_ok ev (tok_payload u t0 jti k) (tu_auth_key t)"
    and "now - t0 \<le> te_ttl ev k" and "expected = None \<or> expected = Some k"
  shows "\<exists>t1. tok_user_of w1 u = Some t1 \<and> verify ev now raw expected consume w1
    = (Inr u, if consume then consume_token u k t1 w1 else w1)"
  using assms by (rule token_verifies)

section \<open>Single use\<close>

text \<open>What a successful verification has seen.\<close>

lemma verify_ok:
  assumes "verify ev now raw expected consume w = (Inr u, w')"
  obtains k rest token p ts jti t x where "split_first (CHR '':'') raw = Some (k, rest)" "k \<in> kinds"
    "from_hex (prefix_of 6 rest) = Some token" "te_decode ev token = Some p"
    "jdict_get p ''uid'' = Some x" "int_of_value x = Inr u" "jdict_get p ''ts'' = Some ts" "jdict_get p ''jti'' = Some jti"
    "jdict_get p ''kind'' = Some (JStr k)"
    "tok_user_of w u = Some t" "w' = (if consume then consume_token u k t w else w)"
proof -
  from assms obtain k rest token p where 1: "split_first (CHR '':'') raw = Some (k, rest)" "k \<in> kinds"
    "from_hex (prefix_of 6 rest) = Some token" "te_decode ev token = Some p"
    and vp: "verify_payload ev now k token (suffix_of 6 rest) p consume w = (Inr u, w')"
    by (auto simp: verify_def invalid_format_def known_kind split: option.splits if_splits)
  from vp obtain x ts jti where 2: "jdict_get p ''uid'' = Some x" "jdict_get p ''ts'' = Some ts" "jdict_get p ''jti'' = Some jti"
    "jdict_get p ''kind'' = Some (JStr k)"
    by (auto simp: verify_payload_def split: option.splits if_splits)
  from vp 2 obtain v t where 3: "int_of_value x = Inr v" "tok_user_of w v = Some t"
    and vu: "verify_user ev now k token (suffix_of 6 rest) ts jti consume v t w = (Inr u, w')"
    by (auto simp: verify_payload_def invalid_format_def split: option.splits sum.splits)
  from vu have "v = u" "w' = (if consume then consume_token u k t w else w)"
    by (auto simp: verify_user_def invalid_format_def split: option.splits sum.splits if_splits)
  with 1 2 3 that show thesis by blast
qed

lemma verify_without_jti:
  assumes "split_first (CHR '':'') raw = Some (k, rest)" "from_hex (prefix_of 6 rest) = Some token" "te_decode ev token = Some p"
    "jdict_get p ''uid'' = Some x" "int_of_value x = Inr u" "secret_of w u (jti_key k) = None"
  shows "fst (verify ev now raw expected consume w) \<noteq> Inr v"
proof
  assume "fst (verify ev now raw expected consume w) = Inr v"
  then obtain w' where "verify ev now raw expected consume w = (Inr v, w')" by (metis prod.collapse)
  with assms show False
    by (auto simp: verify_def verify_payload_def verify_user_def invalid_format_def secret_of_def
        split: option.splits if_splits sum.splits)
qed

lemma consumed_jti: "k \<in> kinds \<Longrightarrow> secret_of (consume_token u k t w) u (jti_key k) = None"
  by (simp add: consume_token_def secret_of_def Let_def jti_keys_apart)

lemma consumed_refused:
  assumes "verify ev now raw expected True w = (Inr u, w')"
  shows "fst (verify ev now' raw expected' consume' w') \<noteq> Inr v"
proof (rule verify_ok [OF assms])
  fix k rest token p ts jti t x
  assume "split_first (CHR '':'') raw = Some (k, rest)" "k \<in> kinds" "from_hex (prefix_of 6 rest) = Some token"
    "te_decode ev token = Some p" "jdict_get p ''uid'' = Some x" "int_of_value x = Inr u"
    "w' = (if True then consume_token u k t w else w)"
  then show ?thesis using verify_without_jti consumed_jti by auto
qed

text \<open>
  A token is good for one use: once a verification has consumed it, the same string is refused at
  any time, under any expectation, until the user's secrets change again.
\<close>

theorem token_single_use:
  assumes "verify ev now raw expected True w = (Inr u, w')"
  shows "fst (verify ev now' raw expected' consume' w') \<noteq> Inr v"
  using assms by (rule consumed_refused)

text \<open>
  A new token supersedes the old one of the same kind: after it has been issued the old string is
  refused.
\<close>

theorem token_superseded:
  assumes "generate ev t0 jti u k w = (Inr raw, w1)" and "tok_user_of w u = Some t"
    and "k \<in> kinds" and "codec_ok ev (tok_payload u t0 jti k) (tu_auth_key t)"
    and "generate ev t1 jti' u k w2 = (Inr raw', w3)" and "jti' \<noteq> jti" and "expected = None \<or> expected = Some k"
  shows "fst (verify ev now raw expected consume w3) \<noteq> Inr v"
proof -
  from generate_cases [OF assms(1)] assms(2) have raw: "raw = token_text ev (tu_auth_key t) k (tok_payload u t0 jti k)" by auto
  obtain t2 where w3: "tok_user_of w3 u = Some t2" "get_secret t2 (jti_key k) = Some (JStr jti')"
    by (rule generate_cases [OF assms(5)]) (use jti_keys_apart(2) [OF assms(3,3)] in auto)
  show ?thesis using w3 assms(6)
    unfolding raw verify_token_text [OF assms(3,4,7)] verify_payload_text
    by (simp add: verify_user_def invalid_format_def)
qed


section \<open>Kinds do not interfere\<close>

text \<open>What a verification of kind \<open>k\<close> reads of the world: the auth key and one secret of each user.\<close>

definition same_for :: "string \<Rightarrow> tok_world \<Rightarrow> tok_world \<Rightarrow> bool" where
  "same_for k w w' \<longleftrightarrow> (\<forall>u. map_option tu_auth_key (tok_user_of w' u) = map_option tu_auth_key (tok_user_of w u)
      \<and> secret_of w' u (jti_key k) = secret_of w u (jti_key k))"

lemma verify_same:
  assumes "same_for k w w'" and "split_first (CHR '':'') raw = Some (k, rest)"
  shows "fst (verify ev now raw expected c w') = fst (verify ev now raw expected c w)"
proof -
  have eq: "map_option tu_auth_key (tok_user_of w' u) = map_option tu_auth_key (tok_user_of w u)"
    "secret_of w' u (jti_key k) = secret_of w u (jti_key k)" for u
    using assms(1) by (simp_all add: same_for_def)
  have vu: "fst (verify_user ev now k tok s ts j c u t' w') = fst (verify_user ev now k tok s ts j c u t w)"
    if "tok_user_of w u = Some t" "tok_user_of w' u = Some t'" for u t t' tok s ts j
    using eq [of u] that by (auto simp: verify_user_def invalid_format_def secret_of_def split: sum.split option.split)
  have none: "tok_user_of w' u = None \<longleftrightarrow> tok_user_of w u = None" for u
    using eq(1) [of u] by (cases "tok_user_of w u"; cases "tok_user_of w' u") simp_all
  have user: "fst (case tok_user_of w' u of None \<Rightarrow> invalid_format w' | Some t \<Rightarrow> verify_user ev now k tok s ts j c u t w')
      = fst (case tok_user_of w u of None \<Rightarrow> invalid_format w | Some t \<Rightarrow> verify_user ev now k tok s ts j c u t w)" for u tok s ts j
  proof (cases "tok_user_of w u")
    case None
    with none [of u] show ?thesis by (simp add: invalid_format_def)
  next
    case (Some t)
    then obtain t' where "tok_user_of w' u = Some t'" using none [of u] by auto
    with vu [OF Some this] Some show ?thesis by simp
  qed
  have "fst (verify_payload ev now k tok s p c w') = fst (verify_payload ev now k tok s p c w)" for tok s p
  proof (cases "\<exists>x ts j u. jdict_get p ''uid'' = Some x \<and> jdict_get p ''ts'' = Some ts \<and> jdict_get p ''jti'' = Some j \<and> int_of_value x = Inr u")
    case True
    then show ?thesis using user by (auto simp: verify_payload_def)
  next
    case False
    then show ?thesis by (auto simp: verify_payload_def invalid_format_def split: option.split sum.split)
  qed
  with assms(2) show ?thesis by (auto simp: verify_def invalid_format_def split: option.split)
qed

lemma verify_report: "fst (verify ev now raw expected c (report e w)) = fst (verify ev now raw expected c w)"
proof (cases "split_first (CHR '':'') raw")
  case None
  then show ?thesis by (simp add: verify_def)
next
  case (Some kr)
  have "same_for k w (report e w)" for k by (simp add: same_for_def secret_of_def)
  with Some verify_same show ?thesis by (cases kr) blast
qed

lemma consume_same: "k \<in> kinds \<Longrightarrow> k2 \<in> kinds \<Longrightarrow> k2 \<noteq> k \<Longrightarrow> tok_user_of w u = Some t \<Longrightarrow> same_for k w (consume_token u k2 t w)"
  by (auto simp: same_for_def consume_token_def secret_of_def Let_def jti_keys_apart jti_keys_apart(2) [of k k2])

text \<open>
  The kinds do not interfere: consuming a token of one kind, whoever's it is, leaves the answer to
  every string of another kind as it was.
\<close>

theorem kinds_independent:
  assumes "verify ev now raw2 (Some k2) True w = (Inr u, w')" and "k \<in> kinds" and "k \<noteq> k2"
    and "split_first (CHR '':'') raw = Some (k, rest)"
  shows "fst (verify ev now' raw expected c w') = fst (verify ev now' raw expected c w)"
proof (rule verify_ok [OF assms(1)])
  fix kk rest2 token p ts jti t x
  assume s: "split_first (CHR '':'') raw2 = Some (kk, rest2)" and kk: "kk \<in> kinds" and t: "tok_user_of w u = Some t"
    and w': "w' = (if True then consume_token u kk t w else w)"
  from assms(1) s have "kk = k2" by (auto simp: verify_def invalid_format_def split: if_splits)
  with kk t w' assms(2,3) have "same_for k w w'" using consume_same by simp
  then show ?thesis using verify_same assms(4) by blast
qed

section \<open>Changing an address\<close>

text \<open>The operations on e-mail changes and on all the other kinds, in any order, by any users.\<close>

inductive tok_step :: "tok_world \<Rightarrow> tok_world \<Rightarrow> bool" where
  "tok_step w (snd (generate_email_change_token ev now jti new_email u w))"
| "tok_step w (snd (verify_email_change_token ev now raw w))"
| "tok_step w (snd (generate_email_change_otp now otp new_email u w))"
| "tok_step w (snd (verify_email_change_otp ttl now code u w))"
| "k \<in> kinds \<Longrightarrow> k \<noteq> ''ec'' \<Longrightarrow> tok_step w (snd (generate ev now jti u k w))"
| "tok_step w (snd (verify ev now raw expected consume w))"
| "tok_step w (snd (generate_email_verify_code now code u w))"
| "tok_step w (snd (verify_email_verify_code ttl now code u w))"

definition one_path :: "tok_world \<Rightarrow> bool" where
  "one_path w \<longleftrightarrow> (\<forall>u. secret_of w u (jti_key ''ec'') = None \<or> secret_of w u ''email_change_otp'' = None)"

lemma otp_key_apart: "k \<in> kinds \<Longrightarrow> jti_key k \<noteq> ''email_change_otp'' \<and> ts_key k \<noteq> ''email_change_otp''
    \<and> ts_key k \<noteq> jti_key ''ec'' \<and> (jti_key k = jti_key ''ec'' \<longleftrightarrow> k = ''ec'')"
  by (auto simp: kinds_listed jti_key_def ts_key_def JTI_KEYS_def TS_KEYS_def)

lemma save_secret_of: "secret_of (save_user u t w) v k = (if v = u then get_secret t k else secret_of w v k)"
  by (simp add: secret_of_def)

lemma secret_of_user: "tok_user_of w u = Some t \<Longrightarrow> get_secret t k = secret_of w u k"
  by (simp add: secret_of_def)

lemma fold_get_secret:
  "get_secret (fold (\<lambda>(k, v). set_secret k v) kvs t) k =
    (case map_of (rev kvs) k of None \<Rightarrow> get_secret t k | Some v \<Rightarrow> v)"
  by (induction kvs rule: rev_induct) auto

lemma put_secret_of:
  "secret_of (put_secrets u kvs w) v k =
    (if v = u \<and> tok_user_of w u \<noteq> None then (case map_of (rev kvs) k of None \<Rightarrow> secret_of w v k | Some x \<Rightarrow> x) else secret_of w v k)"
  by (auto simp: put_secrets_def secret_of_def fold_get_secret split: option.split)

lemma report_secret [simp]: "secret_of (report e w) u k = secret_of w u k"
  by (simp add: secret_of_def)

lemma report_one_path [simp]: "one_path (report e w) = one_path w"
  by (simp add: one_path_def)

lemma invalid_format_world [simp]: "snd (invalid_format w) = report ''token:unknown'' w"
  by (simp add: invalid_format_def)

lemma verify_worlds:
  assumes "verify ev now raw expected consume w = (r, w')"
  obtains (same) "\<And>u k. secret_of w' u k = secret_of w u k"
  | (consumed) u k t where "k \<in> kinds" "tok_user_of w u = Some t" "w' = consume_token u k t w" "r = Inr u"
proof (cases r)
  case (Inr u)
  with assms have "verify ev now raw expected consume w = (Inr u, w')" by simp
  then show thesis by (rule verify_ok) (cases consume; use same consumed Inr in auto)
next
  case (Inl e)
  have "\<forall>u k. secret_of w' u k = secret_of w u k"
    using assms Inl by (auto simp: verify_def verify_payload_def verify_user_def invalid_format_def split: option.splits sum.splits if_splits)
  with same show thesis by blast
qed

lemma consume_one_path: "k \<in> kinds \<Longrightarrow> tok_user_of w u = Some t \<Longrightarrow> one_path w \<Longrightarrow> one_path (consume_token u k t w)"
proof -
  assume w: "tok_user_of w u = Some t" "one_path w"
  have t: "get_secret t x = secret_of w u x" for x using w(1) by (simp add: secret_of_def)
  have less: "secret_of (consume_token u k t w) v x = None \<or> secret_of (consume_token u k t w) v x = secret_of w v x" for v x
  proof (cases "v = u")
    case True
    then show ?thesis unfolding consume_token_def Let_def save_secret_of by (cases "k = ''iv''") (simp_all add: t)
  next
    case False
    then show ?thesis unfolding consume_token_def Let_def save_secret_of by simp
  qed
  show ?thesis unfolding one_path_def
  proof
    fix v
    show "secret_of (consume_token u k t w) v (jti_key ''ec'') = None \<or> secret_of (consume_token u k t w) v ''email_change_otp'' = None"
      using w(2) less [of v "jti_key ''ec''"] less [of v "''email_change_otp''"] unfolding one_path_def by metis
  qed
qed

lemma verify_one_path: "verify ev now raw expected consume w = (r, w') \<Longrightarrow> one_path w \<Longrightarrow> one_path w'"
  by (erule verify_worlds) (simp add: one_path_def, simp add: consume_one_path)

lemma put_one_path:
  assumes "one_path w" and "map_of (rev kvs) (jti_key ''ec'') \<in> {None, Some None}" and "map_of (rev kvs) ''email_change_otp'' \<in> {None, Some None}"
  shows "one_path (put_secrets u kvs w)"
  unfolding one_path_def
proof
  fix v
  from assms(1) have "secret_of w v (jti_key ''ec'') = None \<or> secret_of w v ''email_change_otp'' = None"
    by (simp add: one_path_def)
  with assms(2,3) show "secret_of (put_secrets u kvs w) v (jti_key ''ec'') = None \<or> secret_of (put_secrets u kvs w) v ''email_change_otp'' = None"
    by (auto simp: put_secret_of)
qed

text \<open>
  C13: at any time a user has at most one way to confirm a change of address: the link token and the
  code are never both outstanding, in whatever order links and codes are requested and used.
\<close>

theorem one_email_change_path:
  assumes "tok_step\<^sup>*\<^sup>* w w'" and "one_path w"
  shows "one_path w'"
  using assms
proof (induction rule: rtranclp_induct)
  case (step y z)
  have ec: "jti_key ''ec'' = ''email_change_jti''" "ts_key ''ec'' = ''email_change_ts''"
    by (simp_all add: jti_key_def ts_key_def JTI_KEYS_def TS_KEYS_def)
  have y: "one_path y" using step by simp
  from step(2) show ?case
  proof cases
    case (1 ev now jti new_email u)
    then show ?thesis using y
      by (auto simp: generate_email_change_token_def generate_def one_path_def put_secret_of save_secret_of secret_of_user ec split: option.split)
  next
    case (2 ev now raw)
    obtain r w1 where v: "verify ev now raw (Some ''ec'') True y = (r, w1)" by fastforce
    have "one_path (put_secrets u [(''pending_email'', None)] w1)" for u
      by (rule put_one_path [OF verify_one_path [OF v y]]) (auto simp: ec)
    with verify_one_path [OF v y] 2 v show ?thesis
      by (auto simp: verify_email_change_token_def split: sum.split option.split)
  next
    case (3 now otp new_email u)
    then show ?thesis using y
      by (auto simp: generate_email_change_otp_def one_path_def put_secret_of ec split: option.split)
  next
    case (4 ttl now code u)
    have "one_path (clear_email_change u y)" unfolding clear_email_change_def by (rule put_one_path [OF y]) (auto simp: ec)
    with y 4 show ?thesis by (auto simp: verify_email_change_otp_def split: option.split sum.split json.split)
  next
    case (5 k ev now jti u)
    then show ?thesis using y otp_key_apart [of k]
      by (auto simp: generate_def one_path_def save_secret_of secret_of_user split: option.split)
  next
    case (6 ev now raw expected consume)
    then show ?thesis using verify_one_path y by (metis prod.collapse)
  next
    case (7 now code u)
    then show ?thesis using y
      by (auto simp: generate_email_verify_code_def generate_code_def one_path_def save_secret_of secret_of_user ec split: option.split)
  next
    case (8 ttl now code u)
    then show ?thesis using y
      by (auto simp: verify_email_verify_code_def verify_code_def one_path_def save_secret_of secret_of_user ec split: option.split sum.split)
  qed
qed

lemma int_of_value_not: "int_of_value j \<noteq> Inl (ValueError ''Invalid code'')"
  by (cases j) (auto split: option.split)

text \<open>
  The session token of a phone change is spent before the code is looked at: after one wrong code
  the right one is refused as well, and the pending number stays.
\<close>

theorem wrong_phone_code_burns:
  assumes "verify_phone_change_token ev now raw code w = (Inl (ValueError ''Invalid code''), w')"
  shows "fst (verify_phone_change_token ev now' raw code' w') \<noteq> Inr r"
proof -
  obtain v w1 where v: "verify ev now raw (Some ''pc'') True w = (v, w1)" by fastforce
  have "v \<noteq> Inl (ValueError ''Invalid code'')"
    using v by (auto simp: verify_def verify_payload_def verify_user_def invalid_format_def split: option.splits sum.splits if_splits)
  with assms v obtain u where u: "v = Inr u"
    by (cases v) (auto simp: verify_phone_change_token_def)
  have "secret_int t k \<noteq> Inl (ValueError ''Invalid code'')" for t k
    by (auto simp: secret_int_def int_of_value_not split: option.split)
  with u v assms have "w' = report ''phone_change:invalid_otp'' w1"
    by (auto simp: verify_phone_change_token_def split: option.splits sum.splits if_splits)
  with consumed_refused v u have "fst (verify ev now' raw (Some ''pc'') True w') \<noteq> Inr x" for x
    unfolding \<open>w' = _\<close> verify_report by blast
  then obtain e where "fst (verify ev now' raw (Some ''pc'') True w') = Inl e"
    by (cases "fst (verify ev now' raw (Some ''pc'') True w')") auto
  then show ?thesis
    by (auto simp: verify_phone_change_token_def split: prod.split sum.split)
qed

section \<open>A world with one user\<close>

definition ex_tok_env :: tok_env where
  "ex_tok_env = \<lparr>te_sign = (\<lambda>m k. k @ m @ ''padded''),
     te_encode = (\<lambda>p. case jdict_get p ''kind'' of Some (JStr k) \<Rightarrow> k | _ \<Rightarrow> []),
     te_decode = (\<lambda>k. Some (tok_payload 5 (if k = ''iv'' then 1 else 0) ''a'' k)), te_ttl = (\<lambda>_. 600)\<rparr>"

definition ex_tok_world :: tok_world where
  "ex_tok_world = \<lparr>tw_users = [(5, \<lparr>tu_auth_key = ''secret'', tu_secrets = []\<rparr>)], tw_events = []\<rparr>"

lemma ex_codec: "k \<in> {''pc'', ''pr''} \<Longrightarrow> codec_ok ex_tok_env (tok_payload 5 0 ''a'' k) key"
  by (auto simp: codec_ok_def ex_tok_env_def tok_payload_def)

lemma ex_tok_user: "tok_user_of ex_tok_world 5 = Some \<lparr>tu_auth_key = ''secret'', tu_secrets = []\<rparr>"
  by (simp add: tok_user_of_def ex_tok_world_def)

lemma ex_generate: "\<exists>raw w1. generate ex_tok_env 0 ''a'' 5 k ex_tok_world = (Inr raw, w1)"
  by (simp add: generate_def ex_tok_user)

theorem token_roundtrip_witness:
  "\<exists>raw w1 w2. generate ex_tok_env 0 ''a'' 5 ''pr'' ex_tok_world = (Inr raw, w1) \<and> verify ex_tok_env 600 raw (Some ''pr'') True w1 = (Inr 5, w2)"
proof -
  from ex_generate [of "''pr''"] obtain raw w1 where g: "generate ex_tok_env 0 ''a'' 5 ''pr'' ex_tok_world = (Inr raw, w1)" by blast
  from token_roundtrip [OF g ex_tok_user _ _ ex_codec, of 600 "Some ''pr''" True] g show ?thesis
    by (auto simp: kinds_listed ex_tok_env_def)
qed

theorem token_single_use_witness:
  "\<exists>raw w1 w2. generate ex_tok_env 0 ''a'' 5 ''pr'' ex_tok_world = (Inr raw, w1) \<and> fst (verify ex_tok_env 0 raw None True w1) = Inr 5
     \<and> w2 = snd (verify ex_tok_env 0 raw None True w1) \<and> fst (verify ex_tok_env 0 raw None False w2) \<noteq> Inr 5"
proof -
  from ex_generate [of "''pr''"] obtain raw w1 where g: "generate ex_tok_env 0 ''a'' 5 ''pr'' ex_tok_world = (Inr raw, w1)" by blast
  have "fst (case generate ex_tok_env 0 ''a'' 5 ''pr'' ex_tok_world of (Inr r, w) \<Rightarrow> verify ex_tok_env 0 r None True w) = Inr 5" by code_simp
  with g have v: "verify ex_tok_env 0 raw None True w1 = (Inr 5, snd (verify ex_tok_env 0 raw None True w1))"
    by (metis (mono_tags, lifting) old.prod.case old.sum.simps(6) prod.collapse)
  from token_single_use [OF v] g v show ?thesis by (metis fst_conv)
qed

theorem token_superseded_witness:
  "\<exists>raw w1 raw' w2. generate ex_tok_env 0 ''a'' 5 ''pr'' ex_tok_world = (Inr raw, w1) \<and> generate ex_tok_env 1 ''b'' 5 ''pr'' w1 = (Inr raw', w2)
     \<and> fst (verify ex_tok_env 1 raw None True w2) \<noteq> Inr 5"
proof -
  from ex_generate [of "''pr''"] obtain raw w1 where g: "generate ex_tok_env 0 ''a'' 5 ''pr'' ex_tok_world = (Inr raw, w1)" by blast
  then have "tok_user_of w1 5 \<noteq> None" by (rule generate_cases) simp
  then obtain raw' w2 where g2: "generate ex_tok_env 1 ''b'' 5 ''pr'' w1 = (Inr raw', w2)" by (auto simp: generate_def)
  have "''pr'' \<in> kinds" by (simp add: kinds_listed)
  from token_superseded [OF g ex_tok_user this ex_codec g2] g g2 show ?thesis by auto
qed

theorem kinds_independent_witness:
  "\<exists>raw2 w1 w2. generate ex_tok_env 0 ''a'' 5 ''pr'' ex_tok_world = (Inr raw2, w1) \<and> verify ex_tok_env 0 raw2 (Some ''pr'') True w1 = (Inr 5, w2)
     \<and> fst (verify ex_tok_env 0 ''pc:00'' None True w2) = fst (verify ex_tok_env 0 ''pc:00'' None True w1)"
proof -
  from ex_generate [of "''pr''"] obtain raw w1 where g: "generate ex_tok_env 0 ''a'' 5 ''pr'' ex_tok_world = (Inr raw, w1)" by blast
  then obtain w2 where v: "verify ex_tok_env 0 raw (Some ''pr'') True w1 = (Inr 5, w2)"
    using token_verifies [OF g ex_tok_user _ _ ex_codec, of 0 "Some ''pr''" True] by (auto simp: kinds_listed ex_tok_env_def)
  have "split_first (CHR '':'') ''pc:00'' = Some (''pc'', ''00'')" by code_simp
  from kinds_independent [OF v _ _ this] g v show ?thesis by (auto simp: kinds_listed)
qed

theorem one_email_change_path_witness:
  "\<exists>w. tok_step\<^sup>*\<^sup>* ex_tok_world w \<and> secret_of w 5 ''email_change_otp'' \<noteq> None \<and> secret_of w 5 (jti_key ''ec'') = None"
proof -
  let ?w1 = "snd (generate_email_change_token ex_tok_env 0 ''a'' ''x'' 5 ex_tok_world)"
  let ?w2 = "snd (generate_email_change_otp 0 ''123456'' ''y'' 5 ?w1)"
  have steps: "tok_step\<^sup>*\<^sup>* ex_tok_world ?w2" 
    by (rule converse_rtranclp_into_rtranclp, rule tok_step.intros(1), rule r_into_rtranclp, rule tok_step.intros(3))
  have "one_path ex_tok_world" by (auto simp: one_path_def secret_of_def tok_user_of_def ex_tok_world_def get_secret_def)
  from one_email_change_path [OF steps this] have "secret_of ?w2 5 (jti_key ''ec'') = None \<or> secret_of ?w2 5 ''email_change_otp'' = None"
    by (simp add: one_path_def)
  moreover have "secret_of ?w2 5 ''email_change_otp'' \<noteq> None" by code_simp
  ultimately show ?thesis using steps by blast
qed

theorem wrong_phone_code_burns_witness:
  "\<exists>raw w1 w2. generate_phone_change_token ex_tok_env 0 ''a'' ''123456'' ''555'' 5 ex_tok_world = (Inr (raw, ''123456''), w1)
     \<and> verify_phone_change_token ex_tok_env 0 raw ''000000'' w1 = (Inl (ValueError ''Invalid code''), w2)
     \<and> fst (verify_phone_change_token ex_tok_env 0 raw ''123456'' w2) \<noteq> Inr (5, JStr ''555'')
     \<and> secret_of w2 5 ''pending_phone'' = Some (JStr ''555'')"
proof -
  let ?g = "generate_phone_change_token ex_tok_env 0 ''a'' ''123456'' ''555'' 5 ex_tok_world"
  have "\<exists>raw w1. ?g = (Inr (raw, ''123456''), w1)" by (simp add: generate_phone_change_token_def generate_def ex_tok_user)
  then obtain raw w1 where g: "?g = (Inr (raw, ''123456''), w1)" by blast
  let ?v = "\<lambda>raw w. verify_phone_change_token ex_tok_env 0 raw ''000000'' w"
  have "(case ?g of (Inr (r, _), w) \<Rightarrow> fst (?v r w)) = Inl (ValueError ''Invalid code'')" by code_simp
  with g have f: "fst (?v raw w1) = Inl (ValueError ''Invalid code'')" by simp
  have "(case ?g of (Inr (r, _), w) \<Rightarrow> secret_of (snd (?v r w)) 5 ''pending_phone'') = Some (JStr ''555'')" by code_simp
  with g have p: "secret_of (snd (?v raw w1)) 5 ''pending_phone'' = Some (JStr ''555'')" by simp
  from f have v: "?v raw w1 = (Inl (ValueError ''Invalid code''), snd (?v raw w1))" by (metis prod.collapse)
  from wrong_phone_code_burns [OF v] g v p show ?thesis by blast
qed

text \<open>
  A cached invite is handed out again as long as it is young, also when the user's auth key has been
  rotated since (as ending all sessions does): then the token that is returned does not verify.
\<close>

theorem stale_invite_returned:
  "\<exists>ev w raw w1 w2. generate_invite_token ev 1 ''a'' 5 w = (Inr raw, w1)
     \<and> w2 = w1\<lparr>tw_users := map (\<lambda>(u, t). (u, t\<lparr>tu_auth_key := ''rotated''\<rparr>)) (tw_users w1)\<rparr>
     \<and> fst (verify ev 2 raw (Some ''iv'') False w1) = Inr 5
     \<and> fst (get_or_generate_invite_token ev 2 ''b'' 5 w2) = Inr raw
     \<and> fst (verify ev 2 raw (Some ''iv'') False w2) = Inl (ValueError ''Invalid token signature'')"
proof -
  define ev where "ev = ex_tok_env\<lparr>te_sign := \<lambda>m k. m @ k\<rparr>"
  let ?g = "generate_invite_token ev 1 ''a'' 5 ex_tok_world"
  let ?rot = "\<lambda>w. w\<lparr>tw_users := map (\<lambda>(u, t). (u, t\<lparr>tu_auth_key := ''rotated''\<rparr>)) (tw_users w)\<rparr>"
  have "\<exists>raw w1. ?g = (Inr raw, w1)" by (simp add: generate_invite_token_def generate_def ex_tok_user)
  then obtain raw w1 where g: "?g = (Inr raw, w1)" by blast
  have "(case ?g of (Inr r, w) \<Rightarrow> fst (verify ev 2 r (Some ''iv'') False w)) = Inr 5" unfolding ev_def by code_simp
  moreover have "(case ?g of (Inr r, w) \<Rightarrow> fst (get_or_generate_invite_token ev 2 ''b'' 5 (?rot w)) = Inr r)" unfolding ev_def by code_simp
  moreover have "(case ?g of (Inr r, w) \<Rightarrow> fst (verify ev 2 r (Some ''iv'') False (?rot w))) = Inl (ValueError ''Invalid token signature'')"
    unfolding ev_def by code_simp
  ultimately have r: "fst (verify ev 2 raw (Some ''iv'') False w1) = Inr 5"
    "fst (get_or_generate_invite_token ev 2 ''b'' 5 (?rot w1)) = Inr raw"
    "fst (verify ev 2 raw (Some ''iv'') False (?rot w1)) = Inl (ValueError ''Invalid token signature'')" using g by simp_all
  with g show ?thesis by blast
qed

end
