(* ===== verification/Account_Token_Spec.thy ===== *)
theory Account_Token_Spec
  imports Account_Token_Laws
begin

text \<open>
  What the signed tokens promise, as a ticket office: for each user and kind at most one identifier is
  outstanding; issuing replaces it, presenting it in time redeems it. The generator and the verifier
  refine the office, step by step and for whole runs.
\<close>

section \<open>The ticket office\<close>

type_synonym tickets = "int \<Rightarrow> string \<Rightarrow> string option"

datatype token_op =
  Issue int string int string
| Present int int string int string bool

text \<open>\<open>Issue now jti u k\<close>; \<open>Present now t0 jti u k consume\<close>, for the token dated \<open>t0\<close>.\<close>

fun ticket_step :: "(string \<Rightarrow> int) \<Rightarrow> token_op \<Rightarrow> tickets \<Rightarrow> bool \<times> tickets" where
  "ticket_step ttl (Issue now jti u k) T = (True, T(u := (T u)(k := Some jti)))"
| "ticket_step ttl (Present now t0 jti u k c) T =
     (let ok = (T u k = Some jti \<and> now - t0 \<le> ttl k)
      in (ok, if ok \<and> c then T(u := (T u)(k := None)) else T))"

fun token_step :: "tok_env \<Rightarrow> token_op \<Rightarrow> tok_world \<Rightarrow> bool \<times> tok_world" where
  "token_step ev (Issue now jti u k) w = (case generate ev now jti u k w of (r, w') \<Rightarrow> (case r of Inr _ \<Rightarrow> True | Inl _ \<Rightarrow> False, w'))"
| "token_step ev (Present now t0 jti u k c) w =
     (case tok_user_of w u of
        None \<Rightarrow> (False, w)
      | Some t \<Rightarrow>
          (case verify ev now (token_text ev (tu_auth_key t) k (tok_payload u t0 jti k)) (Some k) c w of
             (r, w') \<Rightarrow> (r = Inr u, w')))"

fun run :: "('op \<Rightarrow> 's \<Rightarrow> bool \<times> 's) \<Rightarrow> 'op list \<Rightarrow> 's \<Rightarrow> bool list \<times> 's" where
  "run step [] s = ([], s)"
| "run step (x # xs) s = (let (b, s1) = step x s; (bs, s2) = run step xs s1 in (b # bs, s2))"

section \<open>Abstraction\<close>

fun ticket_of :: "json option \<Rightarrow> string option" where
  "ticket_of (Some (JStr j)) = (if j = [] then None else Some j)"
| "ticket_of _ = None"

definition tickets_of :: "tok_world \<Rightarrow> tickets" where
  "tickets_of w u k = (if k \<in> kinds then ticket_of (secret_of w u (jti_key k)) else None)"

lemma ticket_of_Some: "j \<noteq> [] \<Longrightarrow> ticket_of v = Some j \<longleftrightarrow> v = Some (JStr j)"
  by (cases v rule: ticket_of.cases) auto

text \<open>The operations the office is meant for: known users and kinds, identifiers that are not empty.\<close>

fun op_ok :: "tok_env \<Rightarrow> tok_world \<Rightarrow> token_op \<Rightarrow> bool" where
  "op_ok ev w (Issue now jti u k) \<longleftrightarrow> k \<in> kinds \<and> jti \<noteq> [] \<and> tok_user_of w u \<noteq> None"
| "op_ok ev w (Present now t0 jti u k c) \<longleftrightarrow> k \<in> kinds \<and> jti \<noteq> []
     \<and> (case tok_user_of w u of None \<Rightarrow> False | Some t \<Rightarrow> codec_ok ev (tok_payload u t0 jti k) (tu_auth_key t))"

definition auth_keys :: "tok_world \<Rightarrow> int \<Rightarrow> string option" where
  "auth_keys w u = map_option tu_auth_key (tok_user_of w u)"

lemma op_ok_keys:
  assumes "auth_keys w' = auth_keys w"
  shows "op_ok ev w' x = op_ok ev w x"
proof -
  have keys: "map_option tu_auth_key (tok_user_of w' u) = map_option tu_auth_key (tok_user_of w u)" for u
    using assms by (auto simp: auth_keys_def dest: fun_cong [of _ _ u])
  show ?thesis
  proof (cases x)
    case (Issue now jti u k)
    with keys [of u] show ?thesis by (cases "tok_user_of w u"; cases "tok_user_of w' u") auto
  next
    case (Present now t0 jti u k c)
    with keys [of u] show ?thesis by (cases "tok_user_of w u"; cases "tok_user_of w' u") auto
  qed
qed

lemma tickets_saved:
  "tickets_of (save_user u t w) v k =
    (if v = u then if k \<in> kinds then ticket_of (get_secret t (jti_key k)) else None else tickets_of w v k)"
  by (simp add: tickets_of_def save_secret_of)

lemma tickets_report [simp]: "tickets_of (report e w) = tickets_of w"
  by (simp add: tickets_of_def fun_eq_iff)

lemma keys_report [simp]: "auth_keys (report e w) = auth_keys w"
  by (simp add: auth_keys_def fun_eq_iff)

lemma keys_saved: "tok_user_of w u = Some t \<Longrightarrow> tu_auth_key t1 = tu_auth_key t \<Longrightarrow> auth_keys (save_user u t1 w) = auth_keys w"
  by (simp add: auth_keys_def fun_eq_iff)

section \<open>One step\<close>

lemma tickets_put:
  assumes "tok_user_of w u = Some t" and "k \<in> kinds" and "\<And>k'. k' \<in> kinds \<Longrightarrow> k' \<noteq> k \<Longrightarrow> get_secret t1 (jti_key k') = get_secret t (jti_key k')"
  shows "tickets_of (save_user u t1 w) = (tickets_of w)(u := (tickets_of w u)(k := ticket_of (get_secret t1 (jti_key k))))"
proof (intro ext)
  fix v k'
  show "tickets_of (save_user u t1 w) v k' = ((tickets_of w)(u := (tickets_of w u)(k := ticket_of (get_secret t1 (jti_key k))))) v k'"
    using assms by (cases "v = u"; cases "k' = k") (simp_all add: tickets_saved tickets_of_def secret_of_def)
qed

lemma issue_refines:
  assumes "op_ok ev w (Issue now jti u k)" and "token_step ev (Issue now jti u k) w = (b, w')"
  shows "ticket_step (te_ttl ev) (Issue now jti u k) (tickets_of w) = (b, tickets_of w') \<and> auth_keys w' = auth_keys w"
proof -
  from assms obtain t where t: "tok_user_of w u = Some t" and k: "k \<in> kinds" "jti \<noteq> []" by auto
  define t1 where "t1 = set_secret (ts_key k) (Some (JInt now)) (set_secret (jti_key k) (Some (JStr jti)) t)"
  have w': "w' = save_user u t1 w" "b" using assms(2) by (simp_all add: generate_def t t1_def)
  have "tickets_of w' = (tickets_of w)(u := (tickets_of w u)(k := ticket_of (get_secret t1 (jti_key k))))"
    unfolding w' by (rule tickets_put [OF t k(1)]) (use k jti_keys_apart in \<open>simp add: t1_def\<close>)
  moreover have "ticket_of (get_secret t1 (jti_key k)) = Some jti"
    using k jti_keys_apart by (simp add: t1_def)
  ultimately show ?thesis using w'(2) keys_saved [OF t, of t1] by (simp add: w'(1) t1_def)
qed

lemma tickets_consumed:
  assumes "tok_user_of w u = Some t" and "k \<in> kinds"
  shows "tickets_of (consume_token u k t w) = (tickets_of w)(u := (tickets_of w u)(k := None))"
    and "auth_keys (consume_token u k t w) = auth_keys w"
proof -
  define t1 where "t1 = set_secret (ts_key k) None (set_secret (jti_key k) None t)"
  define t2 where "t2 = (if k = ''iv'' then set_secret ''invite_token'' None t1 else t1)"
  have c: "consume_token u k t w = save_user u t2 w" by (simp add: consume_token_def t1_def t2_def Let_def)
  have "tickets_of (save_user u t2 w) = (tickets_of w)(u := (tickets_of w u)(k := ticket_of (get_secret t2 (jti_key k))))"
  proof (rule tickets_put [OF assms])
    fix k' assume "k' \<in> kinds" "k' \<noteq> k"
    with assms(2) jti_keys_apart [of k' k] show "get_secret t2 (jti_key k') = get_secret t (jti_key k')"
      by (cases "k = ''iv''") (simp_all add: t1_def t2_def)
  qed
  moreover have "get_secret t2 (jti_key k) = None" using assms jti_keys_apart by (simp add: t1_def t2_def)
  ultimately show "tickets_of (consume_token u k t w) = (tickets_of w)(u := (tickets_of w u)(k := None))" by (simp add: c)
  show "auth_keys (consume_token u k t w) = auth_keys w"
    unfolding c by (rule keys_saved [OF assms(1)]) (simp add: t1_def t2_def)
qed

lemma present_refines:
  assumes "op_ok ev w (Present now t0 jti u k c)" and "token_step ev (Present now t0 jti u k c) w = (b, w')"
  shows "ticket_step (te_ttl ev) (Present now t0 jti u k c) (tickets_of w) = (b, tickets_of w') \<and> auth_keys w' = auth_keys w"
proof -
  from assms obtain t where t: "tok_user_of w u = Some t" and k: "k \<in> kinds" "jti \<noteq> []"
    and ok: "codec_ok ev (tok_payload u t0 jti k) (tu_auth_key t)" by (auto split: option.splits)
  have out: "tickets_of w u k = Some jti \<longleftrightarrow> get_secret t (jti_key k) = Some (JStr jti)"
    using k by (simp add: tickets_of_def secret_of_def t ticket_of_Some)
  have step: "token_step ev (Present now t0 jti u k c) w =
      (if now - t0 > te_ttl ev k then (False, report ''expired_token'' w)
       else if get_secret t (jti_key k) = Some (JStr jti) then (True, if c then consume_token u k t w else w)
       else (False, report ''invalid_token'' w))"
    using k by (simp add: t verify_token_text [OF k(1) ok] verify_payload_text verify_user_def split: option.split)
  show ?thesis using assms(2) tickets_consumed [OF t k(1)] unfolding step by (auto simp: out Let_def split: if_splits)
qed

lemma step_refines:
  assumes "op_ok ev w x" and "token_step ev x w = (b, w')"
  shows "ticket_step (te_ttl ev) x (tickets_of w) = (b, tickets_of w') \<and> auth_keys w' = auth_keys w"
proof (cases x)
  case (Issue now jti u k)
  with assms show ?thesis using issue_refines by blast
next
  case (Present now t0 jti u k c)
  with assms show ?thesis using present_refines by blast
qed

text \<open>
  C12: the signed tokens refine the ticket office: over any run of issues and presentations, for
  several users and kinds, the code accepts exactly what the office redeems, and what is outstanding
  afterwards is the same.
\<close>

theorem tokens_refine_tickets:
  assumes "\<forall>x \<in> set xs. op_ok ev w x"
  shows "run (ticket_step (te_ttl ev)) xs (tickets_of w) = (fst (run (token_step ev) xs w), tickets_of (snd (run (token_step ev) xs w)))"
  using assms
proof (induction xs arbitrary: w)
  case (Cons x xs)
  obtain b w1 where step: "token_step ev x w = (b, w1)" by (cases "token_step ev x w")
  from Cons.prems step_refines [OF _ step] have
    "ticket_step (te_ttl ev) x (tickets_of w) = (b, tickets_of w1)" "auth_keys w1 = auth_keys w" by simp_all
  moreover have "\<forall>y \<in> set xs. op_ok ev w1 y" using Cons.prems op_ok_keys [OF calculation(2)] by simp
  ultimately show ?case using Cons.IH [of w1]
    by (simp add: step Let_def split_beta del: ticket_step.simps token_step.simps)
qed simp

text \<open>A replayed token, and one that a later issue of its kind replaced.\<close>

theorem tokens_refine_tickets_witness:
  "fst (run (token_step ex_tok_env)
      [Issue 0 ''a'' 5 ''pr'', Present 9 0 ''a'' 5 ''pr'' True, Present 9 0 ''a'' 5 ''pr'' True] ex_tok_world)
    = [True, True, False]"
proof -
  let ?xs = "[Issue 0 ''a'' 5 ''pr'', Present 9 0 ''a'' 5 ''pr'' True, Present 9 0 ''a'' 5 ''pr'' True]"
  have "\<forall>x \<in> set ?xs. op_ok ex_tok_env ex_tok_world x"
    using ex_codec by (simp add: ex_tok_user kinds_listed)
  from tokens_refine_tickets [OF this]
  have "fst (run (token_step ex_tok_env) ?xs ex_tok_world) = fst (run (ticket_step (te_ttl ex_tok_env)) ?xs (tickets_of ex_tok_world))"
    by simp
  also have "\<dots> = [True, True, False]" by (simp add: Let_def ex_tok_env_def)
  finally show ?thesis .
qed

end
