(* ===== verification/Job_Manager.thy ===== *)
theory Job_Manager
  imports Job_Actions
begin

text \<open>
  The management operations of \<open>mojo/apps/jobs/manager.py\<close> that change something, and the control
  endpoints of \<open>rest/control.py\<close> that combine them: releasing and requeueing in-flight jobs, pausing,
  clearing and rebuilding a channel, resetting failed jobs, purging rows. The commands and queries that
  only the manager uses are a second record of calls; a stream is kept as the list of the job
  identifiers of its entries.
\<close>

section \<open>The calls of the manager\<close>

text \<open>
  \<open>ZRANGEBYSCORE k -inf x\<close> without a limit (\<open>None\<close> for the whole set), \<open>ZSCORE\<close>, \<open>XADD\<close>, \<open>RPOP\<close>, \<open>LPUSH\<close>, and
  the queries \<open>filter\<close>, \<open>filter(...).update\<close> and \<open>filter(...).delete\<close> on the table of jobs.
\<close>

record mgr =
  mg_zrange :: "string \<Rightarrow> rat option \<Rightarrow> string list wact"
  mg_zscore :: "string \<Rightarrow> string \<Rightarrow> rat option wact"
  mg_xadd :: "string \<Rightarrow> string \<Rightarrow> unit wact"
  mg_rpop :: "string \<Rightarrow> string option wact"
  mg_lpush :: "string \<Rightarrow> string \<Rightarrow> unit wact"
  mg_rows :: "(job \<Rightarrow> bool) \<Rightarrow> job list wact"
  mg_update :: "(job \<Rightarrow> bool) \<Rightarrow> (job \<Rightarrow> job) \<Rightarrow> nat wact"
  mg_delete :: "(job \<Rightarrow> bool) \<Rightarrow> nat wact"

definition d_zrange :: "string \<Rightarrow> rat option \<Rightarrow> string list wact" where
  "d_zrange k hi w = (Inr (map fst (filter (\<lambda>p. case hi of None \<Rightarrow> True | Some x \<Rightarrow> snd p \<le> x) (w_zsets w k))), w)"

definition d_zscore :: "string \<Rightarrow> string \<Rightarrow> rat option wact" where
  "d_zscore k m w = (Inr (map_of (w_zsets w k) m), w)"

definition d_rpop :: "string \<Rightarrow> string option wact" where
  "d_rpop k w = (if w_lists w k = [] then (Inr None, w)
     else (Inr (Some (last (w_lists w k))), w\<lparr>w_lists := (w_lists w)(k := butlast (w_lists w k))\<rparr>))"

definition d_lpush :: "string \<Rightarrow> string \<Rightarrow> unit wact" where
  "d_lpush k m w = (Inr (), w\<lparr>w_lists := (w_lists w)(k := m # w_lists w k)\<rparr>)"

definition d_rows :: "(job \<Rightarrow> bool) \<Rightarrow> job list wact" where
  "d_rows P w = (Inr (filter P (w_jobs w)), w)"

definition d_update :: "(job \<Rightarrow> bool) \<Rightarrow> (job \<Rightarrow> job) \<Rightarrow> nat wact" where
  "d_update P f w = (Inr (length (filter P (w_jobs w))), w\<lparr>w_jobs := map (\<lambda>j. if P j then f j else j) (w_jobs w)\<rparr>)"

definition d_delete_rows :: "(job \<Rightarrow> bool) \<Rightarrow> nat wact" where
  "d_delete_rows P w = (Inr (length (filter P (w_jobs w))), w\<lparr>w_jobs := filter (\<lambda>j. \<not> P j) (w_jobs w)\<rparr>)"

definition mgr_documented :: mgr where
  "mgr_documented = \<lparr>mg_zrange = d_zrange, mg_zscore = d_zscore, mg_xadd = d_rpush, mg_rpop = d_rpop, mg_lpush = d_lpush,
     mg_rows = d_rows, mg_update = d_update, mg_delete = d_delete_rows\<rparr>"

lemmas mgr_defs = d_zrange_def d_zscore_def d_rpop_def d_lpush_def d_rows_def d_update_def d_delete_rows_def

lemma mgr_documented_simps [simp]:
  "mg_zrange mgr_documented = d_zrange" "mg_zscore mgr_documented = d_zscore" "mg_xadd mgr_documented = d_rpush"
  "mg_rpop mgr_documented = d_rpop" "mg_lpush mgr_documented = d_lpush" "mg_rows mgr_documented = d_rows"
  "mg_update mgr_documented = d_update" "mg_delete mgr_documented = d_delete_rows"
  by (simp_all add: mgr_documented_def)

text \<open>\<open>for x in xs\<close> with a result per turn\<close>

fun map_each :: "'x list \<Rightarrow> ('x \<Rightarrow> 'a wact) \<Rightarrow> 'a list wact" where
  "map_each [] f = ret []"
| "map_each (x # xs) f = bind (f x) (\<lambda>y. bind (map_each xs f) (\<lambda>ys. ret (y # ys)))"

text \<open>\<open>try: m; ok except Exception: not ok\<close>\<close>

definition succeeds :: "unit wact \<Rightarrow> bool wact" where
  "succeeds m = catch (seqs m (ret True)) (\<lambda>_. ret False)"

definition count_true :: "bool list \<Rightarrow> nat" where
  "count_true bs = length (filter id bs)"

section \<open>In-flight jobs\<close>

text \<open>A threshold of 0 or less asks for everything.\<close>

definition find_stuck_jobs :: "mgr \<Rightarrow> jobs_cfg \<Rightarrow> rat \<Rightarrow> string \<Rightarrow> int \<Rightarrow> string list wact" where
  "find_stuck_jobs M c now ch threshold =
     catch (mg_zrange M (k_processing (pfx c) ch) (if threshold \<le> 0 then None else Some (now_ms now - of_int threshold)))
       (\<lambda>_. ret [])"

definition release_inflight :: "svc \<Rightarrow> jobs_cfg \<Rightarrow> string \<Rightarrow> string \<Rightarrow> bool wact" where
  "release_inflight S c ch jid = catch (bind (sv_zrem S (k_processing (pfx c) ch) jid) (\<lambda>n. ret (n \<noteq> 0))) (\<lambda>_. ret False)"

definition manual_retry_event :: "job \<Rightarrow> string \<Rightarrow> event_kind \<Rightarrow> (string \<times> json) list \<Rightarrow> job_event" where
  "manual_retry_event j ch kind details = \<lparr>ev_job = job_id j, ev_channel = ch, ev_event = kind,
     ev_runner_id = None, ev_attempt = 0, ev_details = details\<rparr>"

definition clear_one :: "svc \<Rightarrow> jobs_cfg \<Rightarrow> string \<Rightarrow> string \<Rightarrow> bool wact" where
  "clear_one S c ch jid = succeeds
     (bind (sv_zrem S (k_processing (pfx c) ch) jid) (\<lambda>_.
      seqs (sv_rpush S (k_queue (pfx c) ch) jid)
           (attempt (bind (sv_job_get S jid) (\<lambda>j.
              sv_event_create S (manual_retry_event j ch EvRetry [(''reason'', JStr ''manual_clear_stuck'')]))))))"

text \<open>The identifiers that were looked at and whether each was requeued; an error of the scan gives none.\<close>

definition clear_stuck_jobs :: "svc \<Rightarrow> mgr \<Rightarrow> jobs_cfg \<Rightarrow> rat \<Rightarrow> string \<Rightarrow> int \<Rightarrow> (string \<times> bool) list wact" where
  "clear_stuck_jobs S M c now ch threshold =
     catch (bind (mg_zrange M (k_processing (pfx c) ch) (if threshold > 0 then Some (now_ms now - of_int threshold) else None))
       (\<lambda>candidates. bind (map_each candidates (clear_one S c ch)) (\<lambda>oks. ret (zip candidates oks))))
       (\<lambda>_. ret [])"

section \<open>Channels\<close>

definition pause_channel :: "svc \<Rightarrow> jobs_cfg \<Rightarrow> string \<Rightarrow> bool wact" where
  "pause_channel S c ch = succeeds (sv_set S (k_channel_pause (pfx c) ch) ''1'')"

definition resume_channel :: "svc \<Rightarrow> jobs_cfg \<Rightarrow> string \<Rightarrow> bool wact" where
  "resume_channel S c ch = succeeds (sv_delete S (k_channel_pause (pfx c) ch))"

definition channel_keys :: "jobs_cfg \<Rightarrow> string \<Rightarrow> string list" where
  "channel_keys c ch = [k_stream (pfx c) ch, k_stream_broadcast (pfx c) ch, k_sched (pfx c) ch,
     k_sched_broadcast (pfx c) ch, k_queue (pfx c) ch, k_processing (pfx c) ch]"

definition cancel_pending :: "rat \<Rightarrow> job \<Rightarrow> job" where
  "cancel_pending now r = r\<lparr>job_status := Canceled, job_finished_at := Some now\<rparr>"

text \<open>Whether all went well, and how many pending rows were canceled.\<close>

definition clear_channel :: "svc \<Rightarrow> mgr \<Rightarrow> jobs_cfg \<Rightarrow> rat \<Rightarrow> string \<Rightarrow> bool \<Rightarrow> (bool \<times> nat) wact" where
  "clear_channel S M c now ch cancel_db_pending =
     seqs (bind (pause_channel S c ch) (\<lambda>_. ret ()))
       (bind (catch
          (seqs (for_each (channel_keys c ch) (sv_del S))
             (if cancel_db_pending
              then catch (bind (mg_update M (\<lambda>j. job_channel j = ch \<and> job_status j = Pending) (cancel_pending now)) (\<lambda>n. ret (True, n)))
                         (\<lambda>_. ret (False, 0))
              else ret (True, 0)))
          (\<lambda>_. ret (False, 0))) (\<lambda>r.
        bind (resume_channel S c ch) (\<lambda>_. ret r)))"

text \<open>The rows of a query, ordered by a key and cut to a limit.\<close>

definition ordered_rows :: "mgr \<Rightarrow> (job \<Rightarrow> bool) \<Rightarrow> (job \<Rightarrow> rat) \<Rightarrow> nat option \<Rightarrow> job list wact" where
  "ordered_rows M P key limit =
     bind (mg_rows M P) (\<lambda>rows. ret (let s = sort_key key rows in case limit of None \<Rightarrow> s | Some n \<Rightarrow> take n s))"

text \<open>\<open>requeue_db_pending\<close> adds to the streams of the channel; how many, \<open>None\<close> when the query failed.\<close>

definition requeue_one :: "svc \<Rightarrow> mgr \<Rightarrow> jobs_cfg \<Rightarrow> string \<Rightarrow> job \<Rightarrow> bool wact" where
  "requeue_one S M c ch j = succeeds
     (seqs (mg_xadd M (if job_broadcast j then k_stream_broadcast (pfx c) ch else k_stream (pfx c) ch) (job_id j))
           (attempt (sv_event_create S (manual_retry_event j ch EvQueued [(''requeued'', JBool True)]))))"

definition requeue_db_pending :: "svc \<Rightarrow> mgr \<Rightarrow> jobs_cfg \<Rightarrow> string \<Rightarrow> nat option \<Rightarrow> nat option wact" where
  "requeue_db_pending S M c ch limit =
     catch (bind (ordered_rows M (\<lambda>j. job_channel j = ch \<and> job_status j = Pending) job_created limit) (\<lambda>rows.
            bind (map_each rows (requeue_one S M c ch)) (\<lambda>oks. ret (Some (count_true oks)))))
       (\<lambda>_. ret None)"

text \<open>\<open>rebuild_scheduled\<close> for one of its channels: added to the schedule and to the broadcast schedule.\<close>

definition run_at_of :: "job \<Rightarrow> rat" where
  "run_at_of j = (case job_run_at j of None \<Rightarrow> 0 | Some t \<Rightarrow> t)"

definition rebuild_one :: "svc \<Rightarrow> mgr \<Rightarrow> jobs_cfg \<Rightarrow> string \<Rightarrow> job \<Rightarrow> bool wact" where
  "rebuild_one S M c ch j =
     (let key = (if job_broadcast j then k_sched_broadcast (pfx c) ch else k_sched (pfx c) ch) in
      catch (bind (mg_zscore M key (job_id j)) (\<lambda>old.
        if old \<noteq> None then ret False
        else seqs (sv_zadd S key [(job_id j, run_at_of j * 1000)]) (ret True)))
        (\<lambda>_. ret False))"

definition rebuild_channel :: "svc \<Rightarrow> mgr \<Rightarrow> jobs_cfg \<Rightarrow> rat \<Rightarrow> nat option \<Rightarrow> string \<Rightarrow> (nat \<times> nat) wact" where
  "rebuild_channel S M c now limit ch =
     catch (bind (ordered_rows M (\<lambda>j. job_channel j = ch \<and> job_status j = Pending
                    \<and> (case job_run_at j of None \<Rightarrow> False | Some t \<Rightarrow> t > now)) run_at_of limit) (\<lambda>rows.
            bind (map_each rows (rebuild_one S M c ch)) (\<lambda>oks.
            let added = filter snd (zip rows oks) in
            ret (length (filter (\<lambda>p. \<not> job_broadcast (fst p)) added), length (filter (\<lambda>p. job_broadcast (fst p)) added)))))
       (\<lambda>_. ret (0, 0))"

definition rebuild_scheduled :: "svc \<Rightarrow> mgr \<Rightarrow> jobs_cfg \<Rightarrow> rat \<Rightarrow> nat option \<Rightarrow> string list \<Rightarrow> (nat \<times> nat) list wact" where
  "rebuild_scheduled S M c now limit channels = map_each channels (rebuild_channel S M c now limit)"

section \<open>Recovering running jobs\<close>

text \<open>
  \<open>inflight_count\<close> of \<open>get_queue_state\<close>, which answers 0 when Redis fails before or at the count. The reset
  rows go to the streams.
\<close>

definition inflight_count :: "svc \<Rightarrow> jobs_cfg \<Rightarrow> string \<Rightarrow> nat wact" where
  "inflight_count S c ch =
     catch (bind (sv_llen S (k_queue (pfx c) ch)) (\<lambda>_. sv_zcard S (k_processing (pfx c) ch))) (\<lambda>_. ret 0)"

definition recovered_row :: "rat \<Rightarrow> job \<Rightarrow> job" where
  "recovered_row now r = r\<lparr>job_status := Pending, job_runner_id := None, job_cancel_requested := False,
     job_started_at := None, job_finished_at := None, job_modified := now\<rparr>"

definition recover_one :: "svc \<Rightarrow> mgr \<Rightarrow> jobs_cfg \<Rightarrow> rat \<Rightarrow> job \<Rightarrow> bool wact" where
  "recover_one S M c now j = succeeds
     (seqs (sv_job_save S (job_id j) (recovered_row now))
     (seqs (attempt (mg_xadd M (if job_broadcast j then k_stream_broadcast (pfx c) (job_channel j) else k_stream (pfx c) (job_channel j)) (job_id j)))
           (attempt (sv_event_create S (manual_retry_event j (job_channel j) EvRetry [(''reason'', JStr ''recover_stale_running'')])))))"

definition started_of :: "job \<Rightarrow> rat" where
  "started_of j = (case job_started_at j of None \<Rightarrow> 0 | Some t \<Rightarrow> t)"

definition stale_running :: "rat \<Rightarrow> int option \<Rightarrow> string \<Rightarrow> job \<Rightarrow> bool" where
  "stale_running now max_age ch j \<longleftrightarrow> job_channel j = ch \<and> job_status j = Running
     \<and> (case max_age of Some a \<Rightarrow> a > 0 \<longrightarrow> (case job_started_at j of None \<Rightarrow> False | Some t \<Rightarrow> t < now - of_int a) | None \<Rightarrow> True)"

text \<open>For one channel: rows examined and recovered.\<close>

definition recover_channel :: "svc \<Rightarrow> mgr \<Rightarrow> jobs_cfg \<Rightarrow> rat \<Rightarrow> int option \<Rightarrow> string \<Rightarrow> (nat \<times> nat) wact" where
  "recover_channel S M c now max_age ch =
     catch (bind (inflight_count S c ch) (\<lambda>inflight.
       if inflight > 0 then ret (0, 0)
       else bind (ordered_rows M (stale_running now max_age ch) started_of None) (\<lambda>rows.
            bind (map_each rows (recover_one S M c now)) (\<lambda>oks. ret (length rows, count_true oks)))))
       (\<lambda>_. ret (0, 0))"

definition recover_stale_running :: "svc \<Rightarrow> mgr \<Rightarrow> jobs_cfg \<Rightarrow> rat \<Rightarrow> int option \<Rightarrow> string list \<Rightarrow> (nat \<times> nat) list wact" where
  "recover_stale_running S M c now max_age channels = map_each channels (recover_channel S M c now max_age)"

section \<open>Rows\<close>

text \<open>The number of rows that match, deleted unless it is a dry run; \<open>None\<close> on an error.\<close>

definition purge_old_jobs :: "mgr \<Rightarrow> rat \<Rightarrow> int \<Rightarrow> job_status option \<Rightarrow> bool \<Rightarrow> nat option wact" where
  "purge_old_jobs M now days_old st dry_run =
     (let P = (\<lambda>j. job_created j < now - of_int (days_old * 86400) \<and> (case st of None \<Rightarrow> True | Some s \<Rightarrow> job_status j = s)) in
      catch (bind (mg_rows M P) (\<lambda>rows.
        if dry_run then ret (Some (length rows)) else bind (mg_delete M P) (\<lambda>n. ret (Some n))))
        (\<lambda>_. ret None))"

definition reset_row :: "job \<Rightarrow> job" where
  "reset_row j = j\<lparr>job_status := Pending, job_attempt := 0, job_last_error := [], job_stack_trace := []\<rparr>"

text \<open>\<open>JobManager.retry_job\<close>: the row is saved and a new job published; \<open>None\<close> stands for \<open>False\<close>.\<close>

definition manager_retry_args :: "job \<Rightarrow> publish_args" where
  "manager_retry_args j = \<lparr>pa_func = Path (job_func j), pa_payload = JObj (job_payload j),
     pa_channel = job_channel j, pa_delay = None, pa_run_at = job_run_at j, pa_broadcast = job_broadcast j,
     pa_max_retries = Some (job_max_retries j), pa_backoff_base = None, pa_backoff_max = None, pa_expires_in = None,
     pa_expires_at = job_expires_at j, pa_max_exec_seconds = job_max_exec_seconds j, pa_idempotency_key = None\<rparr>"

definition manager_retry_job :: "svc \<Rightarrow> jobs_cfg \<Rightarrow> pub_ctx \<Rightarrow> rat \<Rightarrow> string \<Rightarrow> int option \<Rightarrow> pub_result option wact" where
  "manager_retry_job S c px now jid delay =
     catch (bind (sv_job_get S jid) (\<lambda>j.
       if job_status j \<notin> {Failed, Canceled} then ret None
       else (let j' = (reset_row j)\<lparr>job_run_at := (if int_truthy delay then Some (now + of_int (the delay)) else None), job_modified := now\<rparr>
             in seqs (sv_job_put S j') (bind (publish_in S c px (manager_retry_args j')) (\<lambda>r. ret (Some r))))))
       (\<lambda>_. ret None)"

text \<open>The move of a queue from its old key; \<open>fuel\<close> bounds the loop, the length of the old list is enough.\<close>

fun migrate_loop :: "mgr \<Rightarrow> string \<Rightarrow> string \<Rightarrow> nat option \<Rightarrow> nat \<Rightarrow> nat \<Rightarrow> nat option wact" where
  "migrate_loop M old new max_items 0 moved = ret None"
| "migrate_loop M old new max_items (Suc fuel) moved =
     (if (case max_items of None \<Rightarrow> False | Some n \<Rightarrow> moved \<ge> n) then ret (Some moved)
      else bind (mg_rpop M old) (\<lambda>item.
        case item of
          None \<Rightarrow> ret (Some moved)
        | Some x \<Rightarrow> seqs (mg_lpush M new x) (migrate_loop M old new max_items fuel (Suc moved))))"

definition old_queue_key :: "string \<Rightarrow> string \<Rightarrow> string" where
  "old_queue_key p ch = p @ '':queue:'' @ ch"

text \<open>For one channel: the length before and the number moved, \<open>Inl\<close> on an error.\<close>

definition migrate_list_queue :: "svc \<Rightarrow> mgr \<Rightarrow> jobs_cfg \<Rightarrow> bool \<Rightarrow> nat option \<Rightarrow> nat \<Rightarrow> string \<Rightarrow> (exn + nat \<times> nat option) wact" where
  "migrate_list_queue S M c dry_run max_items fuel ch =
     catch (bind (sv_llen S (old_queue_key (pfx c) ch)) (\<lambda>n.
        if dry_run \<or> n = 0 then ret (Inr (n, Some 0))
        else bind (migrate_loop M (old_queue_key (pfx c) ch) (k_queue (pfx c) ch) max_items fuel 0) (\<lambda>m. ret (Inr (n, m)))))
       (\<lambda>e. ret (Inl e))"

section \<open>Control endpoints\<close>

text \<open>
  \<open>on_reset_failed_jobs\<close>: rows of the channel (all channels for \<open>None\<close>) created since; the latest up to the
  limit are reset, then the channels requeued.
\<close>

definition reset_scope :: "string option \<Rightarrow> rat option \<Rightarrow> job \<Rightarrow> bool" where
  "reset_scope ch since j \<longleftrightarrow> job_status j = Failed
     \<and> (case ch of None \<Rightarrow> True | Some x \<Rightarrow> job_channel j = x) \<and> (case since of None \<Rightarrow> True | Some t \<Rightarrow> t \<le> job_created j)"

definition reset_failed_jobs :: "svc \<Rightarrow> mgr \<Rightarrow> jobs_cfg \<Rightarrow> string option \<Rightarrow> rat option \<Rightarrow> nat \<Rightarrow> (nat \<times> nat option list) wact" where
  "reset_failed_jobs S M c ch since limit =
     bind (mg_rows M (reset_scope ch since)) (\<lambda>rows.
     bind (ordered_rows M (reset_scope ch since) (\<lambda>j. - job_created j) (Some limit)) (\<lambda>latest.
     let ids = map job_id latest; affected = remdups (map job_channel rows) in
     bind (if ids = [] then ret 0
           else mg_update M (\<lambda>j. job_id j \<in> set ids) (\<lambda>j. (reset_row j)\<lparr>job_run_at := None\<rparr>)) (\<lambda>n.
     bind (case ch of
             Some x \<Rightarrow> bind (requeue_db_pending S M c x (Some n)) (\<lambda>r. ret [r])
           | None \<Rightarrow> map_each affected (\<lambda>x. requeue_db_pending S M c x None)) (\<lambda>requeued.
     ret (n, requeued)))))"

text \<open>\<open>on_force_scheduler_lead\<close>: the holder whose lock was taken away.\<close>

definition force_scheduler_lead :: "svc \<Rightarrow> jobs_cfg \<Rightarrow> string option wact" where
  "force_scheduler_lead S c =
     bind (sv_get S (k_scheduler_lock (pfx c))) (\<lambda>current.
     if \<not> str_truthy current then ret None
     else seqs (sv_delete S (k_scheduler_lock (pfx c))) (ret current))"

end
