(* ===== verification/Job_Manager_Laws.thy ===== *)
theory Job_Manager_Laws
  imports Job_Manager Job_Liveness
begin

text \<open>
  What the management operations do to the guarantees of the engine: those that move in-flight jobs,
  clear, rebuild or purge lose no pending job; rebuilding completes the schedules. The operations that
  push to the streams do not requeue anything, since no engine reads a stream.
\<close>

section \<open>Keys\<close>

lemma stream_keys [simp]:
  "k_stream p a \<noteq> k_queue p b" "k_stream_broadcast p a \<noteq> k_queue p b"
  "k_queue p b \<noteq> k_stream p a" "k_queue p b \<noteq> k_stream_broadcast p a"
  "k_stream p a \<noteq> k_sched p b" "k_stream_broadcast p a \<noteq> k_sched p b"
  "k_stream p a \<noteq> k_sched_broadcast p b" "k_stream_broadcast p a \<noteq> k_sched_broadcast p b"
  "k_stream p a \<noteq> k_processing p b" "k_stream_broadcast p a \<noteq> k_processing p b"
  "k_sched p b \<noteq> k_stream p a" "k_sched p b \<noteq> k_stream_broadcast p a"
  "k_sched_broadcast p b \<noteq> k_stream p a" "k_sched_broadcast p b \<noteq> k_stream_broadcast p a"
  "k_processing p b \<noteq> k_stream p a" "k_processing p b \<noteq> k_stream_broadcast p a"
  by (simp_all add: k_stream_def k_stream_broadcast_def key_defs)

lemma queue_not_zset [simp]:
  "k_sched p a \<noteq> k_queue p b" "k_sched_broadcast p a \<noteq> k_queue p b" "k_processing p a \<noteq> k_queue p b"
  "k_queue p b \<noteq> k_sched p a" "k_queue p b \<noteq> k_sched_broadcast p a" "k_queue p b \<noteq> k_processing p a"
  by (simp_all add: key_defs)

text \<open>A push to a stream is no arrival.\<close>

lemma at_stream [simp]:
  "at_channel c k j (L(k_stream (pfx c) ch := xs)) Z = at_channel c k j L Z"
  "at_channel c k j (L(k_stream_broadcast (pfx c) ch := xs)) Z = at_channel c k j L Z"
  by (simp_all add: at_channel_def)

section \<open>Loops with results\<close>

lemma keeps_map_each [keeps_intro]: "(\<And>x. x \<in> set xs \<Longrightarrow> keeps P (f x)) \<Longrightarrow> keeps P (map_each xs f)"
  by (induction xs) (auto intro!: keeps_intro)

lemma keeps_succeeds [keeps_intro]: "keeps P m \<Longrightarrow> keeps P (succeeds m)"
  unfolding succeeds_def by (intro keeps_intro)

text \<open>A loop whose turns all return: the results one by one, each in the world the turns before it left.\<close>

lemma map_each_returns:
  assumes "\<And>x w. x \<in> set xs \<Longrightarrow> Q w \<Longrightarrow> \<exists>y w'. f x w = (Inr y, w') \<and> Q w' \<and> R x y" and "Q w"
  shows "\<exists>ys w'. map_each xs f w = (Inr ys, w') \<and> Q w' \<and> list_all2 R xs ys"
  using assms
proof (induction xs arbitrary: w)
  case (Cons x xs)
  then obtain y w1 where 1: "f x w = (Inr y, w1)" "Q w1" "R x y" by (meson list.set_intros(1))
  from Cons.IH [OF _ 1(2)] Cons.prems(1) obtain ys w2 where "map_each xs f w1 = (Inr ys, w2)" "Q w2" "list_all2 R xs ys"
    by (meson list.set_intros(2))
  with 1 show ?case by (auto simp: bind_def ret_def)
qed (simp add: ret_def)

section \<open>Requeueing in-flight jobs\<close>

definition same_places :: "jobs_cfg \<Rightarrow> world \<Rightarrow> world \<Rightarrow> bool" where
  "same_places c v w \<longleftrightarrow> w_jobs w = w_jobs v
     \<and> (\<forall>ch i. at_channel c ch i (w_lists w) (w_zsets w) = at_channel c ch i (w_lists v) (w_zsets v))"

lemma flows_same_places: "same_places c v w \<Longrightarrow> flows c U v \<Longrightarrow> flows c U w"
  unfolding same_places_def flow_def by (metis flow_ok_at)

definition requeued_world1 :: "jobs_cfg \<Rightarrow> string \<Rightarrow> string \<Rightarrow> world \<Rightarrow> world" where
  "requeued_world1 c ch jid w = w\<lparr>w_zsets := (w_zsets w)(k_processing (pfx c) ch := zs_del jid (w_zsets w (k_processing (pfx c) ch))),
     w_lists := (w_lists w)(k_queue (pfx c) ch := w_lists w (k_queue (pfx c) ch) @ [jid])\<rparr>"

lemma clear_one_doc:
  "\<exists>w'. clear_one documented c ch jid w = (Inr True, w') \<and> agrees (requeued_world1 c ch jid w) w'"
  by (simp add: clear_one_def succeeds_def act_defs d_zrem_def d_rpush_def d_job_get_def d_event_create_def requeued_world1_def agrees_def
      split: option.split)

lemma requeued_places:
  "at_channel c ch jid (w_lists w) (w_zsets w) \<Longrightarrow>
   at_channel c k j (w_lists (requeued_world1 c ch jid w)) (w_zsets (requeued_world1 c ch jid w)) = at_channel c k j (w_lists w) (w_zsets w)"
  by (cases "k = ch"; cases "j = jid") (auto simp: at_channel_def requeued_world1_def)

lemma requeued_same: "at_channel c ch jid (w_lists w) (w_zsets w) \<Longrightarrow> same_places c w (requeued_world1 c ch jid w)"
  unfolding same_places_def by (simp add: requeued_places) (simp add: requeued_world1_def)

lemma same_places_trans: "same_places c u v \<Longrightarrow> same_places c v w \<Longrightarrow> same_places c u w"
  by (simp add: same_places_def)

lemma agrees_places: "same_places c u v \<Longrightarrow> agrees v w \<Longrightarrow> same_places c u w"
  by (simp add: same_places_def agrees_def)

lemma clear_all_same:
  assumes "\<And>i. i \<in> set ids \<Longrightarrow> at_channel c ch i (w_lists w) (w_zsets w)"
  shows "same_places c w (snd (map_each ids (clear_one documented c ch) w))"
proof -
  have "\<exists>ys w'. map_each ids (clear_one documented c ch) w = (Inr ys, w') \<and> same_places c w w' \<and> list_all2 (\<lambda>_ _. True) ids ys"
  proof (rule map_each_returns)
    fix i w1 assume i: "i \<in> set ids" and w1: "same_places c w w1"
    obtain w2 where w2: "clear_one documented c ch i w1 = (Inr True, w2)" "agrees (requeued_world1 c ch i w1) w2"
      using clear_one_doc by blast
    have "at_channel c ch i (w_lists w1) (w_zsets w1)" using assms [OF i] w1 by (simp add: same_places_def)
    with w1 w2 have "same_places c w w2" using requeued_same same_places_trans agrees_places by blast
    with w2 show "\<exists>y w'. clear_one documented c ch i w1 = (Inr y, w') \<and> same_places c w w' \<and> True" by blast
  qed (simp add: same_places_def)
  then show ?thesis by auto
qed

lemma zrange_members: "i \<in> set (map fst (filter P (w_zsets w (k_processing (pfx c) ch)))) \<Longrightarrow> at_channel c ch i (w_lists w) (w_zsets w)"
  by (auto simp: at_channel_def)

lemma flows_clear_stuck: "flows c U w \<Longrightarrow> flows c U (snd (clear_stuck_jobs documented mgr_documented c now ch threshold w))"
proof -
  assume ok: "flows c U w"
  define P where "P = (\<lambda>p :: string \<times> rat. case (if threshold > 0 then Some (now_ms now - of_int threshold) else None) of
      None \<Rightarrow> True | Some x \<Rightarrow> snd p \<le> x)"
  define ids where "ids = map fst (filter P (w_zsets w (k_processing (pfx c) ch)))"
  have "snd (clear_stuck_jobs documented mgr_documented c now ch threshold w) = snd (map_each ids (clear_one documented c ch) w)"
    by (simp add: clear_stuck_jobs_def act_defs d_zrange_def ids_def P_def split: prod.split sum.split)
  moreover have "same_places c w (snd (map_each ids (clear_one documented c ch) w))"
    by (rule clear_all_same) (use zrange_members in \<open>simp add: ids_def\<close>)
  ultimately show ?thesis using flows_same_places ok by metis
qed

lemma clear_all_exact:
  "\<exists>ys w'. map_each ids (clear_one documented c ch) w = (Inr ys, w') \<and> ys = map (\<lambda>_. True) ids \<and> w_jobs w' = w_jobs w
    \<and> w_lists w' (k_queue (pfx c) ch) = w_lists w (k_queue (pfx c) ch) @ ids
    \<and> w_zsets w' (k_processing (pfx c) ch) = filter (\<lambda>p. fst p \<notin> set ids) (w_zsets w (k_processing (pfx c) ch))"
proof (induction ids arbitrary: w)
  case (Cons i ids)
  obtain w1 where w1: "clear_one documented c ch i w = (Inr True, w1)" "agrees (requeued_world1 c ch i w) w1"
    using clear_one_doc by blast
  from Cons.IH [of w1] obtain w2 where
    2: "map_each ids (clear_one documented c ch) w1 = (Inr (map (\<lambda>_. True) ids), w2)" "w_jobs w2 = w_jobs w1"
      "w_lists w2 (k_queue (pfx c) ch) = w_lists w1 (k_queue (pfx c) ch) @ ids"
      "w_zsets w2 (k_processing (pfx c) ch) = filter (\<lambda>p. fst p \<notin> set ids) (w_zsets w1 (k_processing (pfx c) ch))" by blast
  have "map_each (i # ids) (clear_one documented c ch) w = (Inr (map (\<lambda>_. True) (i # ids)), w2)"
    using w1(1) 2(1) by (simp add: bind_def ret_def)
  moreover have w1': "w_jobs w1 = w_jobs (requeued_world1 c ch i w)" "w_lists w1 = w_lists (requeued_world1 c ch i w)"
    "w_zsets w1 = w_zsets (requeued_world1 c ch i w)" using w1(2) by (simp_all add: agrees_def)
  moreover have "filter (\<lambda>p. fst p \<notin> set ids) (zs_del i z) = filter (\<lambda>p. fst p \<notin> set (i # ids)) z" for z :: zset
    by (auto simp: zs_del_def intro!: filter_cong)
  ultimately show ?case using 2(2-) by (simp add: requeued_world1_def)
qed (simp add: ret_def)

text \<open>
  Clearing stuck jobs moves exactly the in-flight entries that are older than the threshold to the end
  of the queue, oldest first, keeps the younger ones in flight, and changes no row; with a threshold
  of 0 it moves all of them, the jobs that are running included.
\<close>

theorem clear_stuck_exact:
  assumes "zs_inv (w_zsets w (k_processing (pfx c) ch))"
    and "stuck = (\<lambda>p :: string \<times> rat. threshold \<le> 0 \<or> snd p \<le> now_ms now - of_int threshold)"
  shows "\<exists>w'. clear_stuck_jobs documented mgr_documented c now ch threshold w
        = (Inr (map (\<lambda>p. (fst p, True)) (filter stuck (w_zsets w (k_processing (pfx c) ch)))), w')
      \<and> w_lists w' (k_queue (pfx c) ch) = w_lists w (k_queue (pfx c) ch) @ map fst (filter stuck (w_zsets w (k_processing (pfx c) ch)))
      \<and> w_zsets w' (k_processing (pfx c) ch) = filter (\<lambda>p. \<not> stuck p) (w_zsets w (k_processing (pfx c) ch))
      \<and> w_jobs w' = w_jobs w"
proof -
  let ?z = "w_zsets w (k_processing (pfx c) ch)" and ?ids = "map fst (filter stuck (w_zsets w (k_processing (pfx c) ch)))"
  from clear_all_exact [of ?ids c ch w] obtain w' where
    w': "map_each ?ids (clear_one documented c ch) w = (Inr (map (\<lambda>_. True) ?ids), w')" "w_jobs w' = w_jobs w"
      "w_lists w' (k_queue (pfx c) ch) = w_lists w (k_queue (pfx c) ch) @ ?ids"
      "w_zsets w' (k_processing (pfx c) ch) = filter (\<lambda>p. fst p \<notin> set ?ids) ?z" by blast
  have scan: "d_zrange (k_processing (pfx c) ch) (if threshold > 0 then Some (now_ms now - of_int threshold) else None) w = (Inr ?ids, w)"
    unfolding d_zrange_def assms(2) by (auto intro!: arg_cong [where f = "map fst"] filter_cong)
  have "zip ?ids (map (\<lambda>_. True) ?ids) = map (\<lambda>p. (fst p, True)) (filter stuck ?z)"
    by (simp add: zip_map_map zip_same_conv_map)
  with scan w'(1) have run: "clear_stuck_jobs documented mgr_documented c now ch threshold w
      = (Inr (map (\<lambda>p. (fst p, True)) (filter stuck ?z)), w')"
    by (simp add: clear_stuck_jobs_def catch_def bind_def ret_def)
  have "distinct (map fst ?z)" using assms(1) by (simp add: zs_inv_def)
  then have "fst p \<notin> set ?ids \<longleftrightarrow> \<not> stuck p" if "p \<in> set ?z" for p
    using that by (auto simp: distinct_map inj_on_def)
  then have "filter (\<lambda>p. fst p \<notin> set ?ids) ?z = filter (\<lambda>p. \<not> stuck p) ?z" by (rule filter_cong [OF refl])
  with run w' show ?thesis by auto
qed

theorem clear_stuck_exact_witness:
  "\<exists>w'. clear_stuck_jobs documented mgr_documented default_cfg 100 ''c'' 60000
       (empty_world\<lparr>w_zsets := (\<lambda>_. [])(k_processing (pfx default_cfg) ''c'' := [(''a'', 1), (''b'', 90000)])\<rparr>) = (Inr [(''a'', True)], w')
     \<and> w_lists w' (k_queue (pfx default_cfg) ''c'') = [''a'']"
  using clear_stuck_exact [of "empty_world\<lparr>w_zsets := (\<lambda>_. [])(k_processing (pfx default_cfg) ''c'' := [(''a'', 1), (''b'', 90000)])\<rparr>"
      default_cfg "''c''" _ 60000 100, OF _ refl]
  by (auto simp: empty_world_def zs_inv_def zs_less_def now_ms_def)

section \<open>Channels\<close>

lemma flows_pause: "keeps (flow P) (pause_channel documented c ch)" "keeps (flow P) (resume_channel documented c ch)"
  unfolding pause_channel_def resume_channel_def by (auto intro!: keeps_intro)

lemma del_at:
  assumes "k \<in> set (channel_keys c ch)"
  shows "at_channel c x i ((w_lists w)(k := [])) ((w_zsets w)(k := [])) \<Longrightarrow> at_channel c x i (w_lists w) (w_zsets w)"
    and "x \<noteq> ch \<Longrightarrow> at_channel c x i ((w_lists w)(k := [])) ((w_zsets w)(k := [])) = at_channel c x i (w_lists w) (w_zsets w)"
proof -
  show "at_channel c x i ((w_lists w)(k := [])) ((w_zsets w)(k := [])) \<Longrightarrow> at_channel c x i (w_lists w) (w_zsets w)"
    by (auto simp: at_channel_def fun_upd_def split: if_splits)
  assume "x \<noteq> ch"
  with assms have "k_queue (pfx c) x \<noteq> k" "k_sched (pfx c) x \<noteq> k" "k_sched_broadcast (pfx c) x \<noteq> k" "k_processing (pfx c) x \<noteq> k"
    by (auto simp: channel_keys_def)
  then show "at_channel c x i ((w_lists w)(k := [])) ((w_zsets w)(k := [])) = at_channel c x i (w_lists w) (w_zsets w)"
    by (simp add: at_channel_def)
qed

definition only_drops :: "jobs_cfg \<Rightarrow> string \<Rightarrow> world \<Rightarrow> world \<Rightarrow> bool" where
  "only_drops c ch v w \<longleftrightarrow> w_jobs w = w_jobs v
     \<and> (\<forall>x i. at_channel c x i (w_lists w) (w_zsets w) \<longrightarrow> at_channel c x i (w_lists v) (w_zsets v))
     \<and> (\<forall>x i. x \<noteq> ch \<longrightarrow> at_channel c x i (w_lists w) (w_zsets w) = at_channel c x i (w_lists v) (w_zsets v))"

lemma del_all:
  "set ks \<subseteq> set (channel_keys c ch) \<Longrightarrow> only_drops c ch v w \<Longrightarrow>
   \<exists>w'. for_each ks d_del w = (Inr (), w') \<and> only_drops c ch v w'"
proof (induction ks arbitrary: w)
  case (Cons k ks)
  define w1 where "w1 = snd (d_del k w)"
  have "only_drops c ch v w1"
    using Cons.prems del_at [of k c ch _ _ w] unfolding only_drops_def w1_def d_del_def by simp
  with Cons show ?case by (simp add: seqs_def bind_def d_del_def w1_def)
qed (simp add: ret_def)

lemma flows_cleared:
  assumes "flows c U v" and "only_drops c ch v w"
  shows "flows c U (w\<lparr>w_jobs := map (\<lambda>j. if job_channel j = ch \<and> job_status j = Pending then cancel_pending now j else j) (w_jobs w)\<rparr>)"
proof -
  let ?f = "\<lambda>j. if job_channel j = ch \<and> job_status j = Pending then cancel_pending now j else j"
  have f: "job_id (?f j) = job_id j" "job_channel (?f j) = job_channel j"
    "job_status (?f j) = Pending \<Longrightarrow> job_channel j \<noteq> ch \<and> job_status j = Pending" for j
    by (simp_all add: cancel_pending_def split: if_splits)
  have ids: "map job_id (map ?f (w_jobs v)) = map job_id (w_jobs v)" using f(1) by simp
  then have set_ids: "job_id ` set (map ?f (w_jobs v)) = job_id ` set (w_jobs v)" by (metis list.set_map)
  have w: "w_jobs w = w_jobs v" "\<And>x i. at_channel c x i (w_lists w) (w_zsets w) \<Longrightarrow> at_channel c x i (w_lists v) (w_zsets v)"
    "\<And>x i. x \<noteq> ch \<Longrightarrow> at_channel c x i (w_lists w) (w_zsets w) = at_channel c x i (w_lists v) (w_zsets v)"
    using assms(2) by (simp_all add: only_drops_def)
  have v: "distinct (map job_id (w_jobs v))" "\<And>r. r \<in> set (w_jobs v) \<Longrightarrow> CHR '':'' \<notin> set (job_channel r)"
    "\<And>r. r \<in> set (w_jobs v) \<Longrightarrow> job_status r = Pending \<Longrightarrow> at_channel c (job_channel r) (job_id r) (w_lists v) (w_zsets v)"
    "\<And>r k. r \<in> set (w_jobs v) \<Longrightarrow> at_channel c k (job_id r) (w_lists v) (w_zsets v) \<Longrightarrow> k = job_channel r"
    "\<And>u. u \<in> U \<Longrightarrow> u \<notin> job_id ` set (w_jobs v)" "\<And>u k. u \<in> U \<Longrightarrow> \<not> at_channel c k u (w_lists v) (w_zsets v)"
    using assms(1) by (simp_all add: flow_def flow_ok_def)
  have "flow_ok c U {} (map ?f (w_jobs v)) (w_lists w) (w_zsets w)"
    unfolding flow_ok_def ids set_ids
  proof (intro conjI ballI allI impI)
    show "distinct (map job_id (w_jobs v))" by (rule v(1))
  next
    fix r' assume "r' \<in> set (map ?f (w_jobs v))"
    then obtain r where r: "r \<in> set (w_jobs v)" "r' = ?f r" by auto
    show "CHR '':'' \<notin> set (job_channel r')" using v(2) [OF r(1)] unfolding r(2) f(2) .
    show "at_channel c (job_channel r') (job_id r') (w_lists w) (w_zsets w)" if "job_status r' = Pending \<and> job_id r' \<notin> {}"
    proof -
      from that have "job_status (?f r) = Pending" unfolding r(2) by blast
      from f(3) [OF this] have "job_channel r \<noteq> ch" "job_status r = Pending" by auto
      with v(3) [OF r(1)] w(3) [of "job_channel r"] have "at_channel c (job_channel r) (job_id r) (w_lists w) (w_zsets w)" by simp
      then show ?thesis unfolding r(2) f(1,2) .
    qed
    fix k assume "at_channel c k (job_id r') (w_lists w) (w_zsets w)"
    then have "at_channel c k (job_id r) (w_lists v) (w_zsets v)" using w(2) unfolding r(2) f(1) by blast
    from v(4) [OF r(1) this] have "k = job_channel r" .
    then show "k = job_channel r'" unfolding r(2) f(2) .
  next
    fix u assume "u \<in> U"
    with v(5) show "u \<notin> job_id ` set (w_jobs v)" by blast
    fix k show "\<not> at_channel c k u (w_lists w) (w_zsets w)" using v(6) w(2) \<open>u \<in> U\<close> by blast
  qed
  then show ?thesis by (simp add: flow_def w(1))
qed

lemma flows_clear_channel: "flows c U w \<Longrightarrow> flows c U (snd (clear_channel documented mgr_documented c now ch True w))"
proof -
  assume ok: "flows c U w"
  define w1 where "w1 = snd (pause_channel documented c ch w)"
  have 1: "flows c U w1" using keeps_snd [OF flows_pause(1)] ok by (simp add: w1_def)
  have "only_drops c ch w1 w1" by (simp add: only_drops_def)
  from del_all [OF subset_refl this] obtain w2 where 2: "for_each (channel_keys c ch) d_del w1 = (Inr (), w2)" "only_drops c ch w1 w2" by blast
  define w3 where "w3 = w2\<lparr>w_jobs := map (\<lambda>j. if job_channel j = ch \<and> job_status j = Pending then cancel_pending now j else j) (w_jobs w2)\<rparr>"
  have 3: "flows c U w3" using flows_cleared [OF 1 2(2)] by (simp add: w3_def)
  have "snd (clear_channel documented mgr_documented c now ch True w) = snd (resume_channel documented c ch w3)"
    using 2(1) by (simp add: clear_channel_def pause_channel_def resume_channel_def succeeds_def act_defs d_update_def d_set_def d_delete_def w1_def w3_def)
  with 3 keeps_snd [OF flows_pause(2)] show ?thesis by simp
qed

lemma flows_release:
  assumes "flows c U w" and "settled jid (w_jobs w)"
  shows "flows c U (snd (release_inflight documented c ch jid w))"
  using assms flow_ok_zrem_settled
  by (simp add: release_inflight_def act_defs d_zrem_def flow_def)

lemma flows_purge: "keeps (flows c U) (purge_old_jobs mgr_documented now days st dry)"
proof -
  have "flow_ok c U {} R L Z \<Longrightarrow> flow_ok c U {} (filter Q R) L Z" for Q R L Z
    unfolding flow_ok_def by (auto simp: distinct_map_filter)
  then show ?thesis
    by (auto simp: keeps_def purge_old_jobs_def act_defs d_rows_def d_delete_rows_def flow_def Let_def)
qed

lemma flows_force_lead: "keeps (flow P) (force_scheduler_lead documented c)"
  unfolding force_scheduler_lead_def by (auto intro!: keeps_intro)

section \<open>Rebuilding the schedules\<close>

definition sched_key :: "jobs_cfg \<Rightarrow> string \<Rightarrow> job \<Rightarrow> string" where
  "sched_key c ch j = (if job_broadcast j then k_sched_broadcast (pfx c) ch else k_sched (pfx c) ch)"

definition rebuilt_world :: "jobs_cfg \<Rightarrow> string \<Rightarrow> job \<Rightarrow> world \<Rightarrow> world" where
  "rebuilt_world c ch j w = (if job_id j \<in> fst ` set (w_zsets w (sched_key c ch j)) then w
     else w\<lparr>w_zsets := (w_zsets w)(sched_key c ch j := zs_add (job_id j) (run_at_of j * 1000) (w_zsets w (sched_key c ch j)))\<rparr>)"

lemma rebuild_one_doc:
  "rebuild_one documented mgr_documented c ch j w =
    (Inr (job_id j \<notin> fst ` set (w_zsets w (sched_key c ch j))), rebuilt_world c ch j w)"
proof -
  have "(\<exists>y. map_of (w_zsets w k) i = Some y) \<longleftrightarrow> i \<in> fst ` set (w_zsets w k)" for k i
    using map_of_eq_None_iff [of "w_zsets w k" i] by auto
  then show ?thesis
    by (simp add: rebuild_one_def Let_def act_defs d_zscore_def d_zadd_def zs_adds_def rebuilt_world_def sched_key_def)
qed

lemma flows_rebuilt:
  assumes "flows c U w" and "j \<in> set (w_jobs w)" and "job_channel j = ch"
  shows "flows c U (rebuilt_world c ch j w)"
proof (cases "job_id j \<in> fst ` set (w_zsets w (sched_key c ch j))")
  case False
  let ?Z = "(w_zsets w)(sched_key c ch j := zs_add (job_id j) (run_at_of j * 1000) (w_zsets w (sched_key c ch j)))"
  have ok: "flow_ok c U {} (w_jobs w) (w_lists w) (w_zsets w)" using assms(1) by (simp add: flow_def)
  have "flow_ok c U {} (w_jobs w) (w_lists w) ?Z"
  proof (rule flow_ok_arrive [where i = "job_id j" and ch = ch])
    show "flow_ok c U (insert (job_id j) {}) (w_jobs w) (w_lists w) (w_zsets w)" using ok by (rule flow_ok_fewer) auto
    show "job_channel r = ch" if "r \<in> set (w_jobs w)" "job_id r = job_id j" for r
      using that assms(2,3) ok by (metis flow_ok_def row_get_unique option.inject)
    show "job_id j \<notin> U" using ok assms(2) by (auto simp: flow_ok_def)
    show "at_channel c k i (w_lists w) ?Z \<longleftrightarrow> at_channel c k i (w_lists w) (w_zsets w) \<or> (k = ch \<and> i = job_id j)" for k i
      by (rule at_sched) (simp add: sched_key_def)
  qed
  with False show ?thesis by (simp add: rebuilt_world_def flow_def)
qed (simp add: rebuilt_world_def assms)

lemma rebuilt_jobs [simp]: "w_jobs (rebuilt_world c ch j w) = w_jobs w"
  by (simp add: rebuilt_world_def)

text \<open>All the rows of the query are in their schedule afterwards, those already there with their old score.\<close>

lemma rebuild_all:
  "\<exists>ys w'. map_each js (rebuild_one documented mgr_documented c ch) w = (Inr ys, w') \<and> length ys = length js
    \<and> w_jobs w' = w_jobs w \<and> w_lists w' = w_lists w
    \<and> (\<forall>j \<in> set js. job_id j \<in> fst ` set (w_zsets w' (sched_key c ch j)))
    \<and> (\<forall>k p. p \<in> set (w_zsets w k) \<longrightarrow> p \<in> set (w_zsets w' k))
    \<and> (\<forall>k p. p \<in> set (w_zsets w' k) \<longrightarrow> p \<in> set (w_zsets w k) \<or> (\<exists>j \<in> set js. k = sched_key c ch j \<and> p = (job_id j, run_at_of j * 1000)))"
proof (induction js arbitrary: w)
  case (Cons j js)
  let ?w1 = "rebuilt_world c ch j w"
  from Cons.IH [of ?w1] obtain ys w2 where
    2: "map_each js (rebuild_one documented mgr_documented c ch) ?w1 = (Inr ys, w2)" "length ys = length js" "w_jobs w2 = w_jobs ?w1" "w_lists w2 = w_lists ?w1"
      "\<forall>j \<in> set js. job_id j \<in> fst ` set (w_zsets w2 (sched_key c ch j))"
      "\<forall>k p. p \<in> set (w_zsets ?w1 k) \<longrightarrow> p \<in> set (w_zsets w2 k)"
      "\<forall>k p. p \<in> set (w_zsets w2 k) \<longrightarrow> p \<in> set (w_zsets ?w1 k) \<or> (\<exists>j \<in> set js. k = sched_key c ch j \<and> p = (job_id j, run_at_of j * 1000))"
    by blast
  have run: "\<exists>ys. map_each (j # js) (rebuild_one documented mgr_documented c ch) w = (Inr ys, w2) \<and> length ys = length (j # js)"
    using 2(1,2) by (simp add: bind_def ret_def rebuild_one_doc)
  have old: "p \<in> set (w_zsets w k) \<Longrightarrow> p \<in> set (w_zsets ?w1 k)" for p k
    by (cases p) (auto simp: rebuilt_world_def set_zs_add image_iff)
  have new: "p \<in> set (w_zsets ?w1 k) \<Longrightarrow> p \<in> set (w_zsets w k) \<or> (k = sched_key c ch j \<and> p = (job_id j, run_at_of j * 1000))" for p k
    by (auto simp: rebuilt_world_def set_zs_add split: if_splits)
  have here: "job_id j \<in> fst ` set (w_zsets ?w1 (sched_key c ch j))" by (simp add: rebuilt_world_def)
  have lists: "w_lists ?w1 = w_lists w" by (simp add: rebuilt_world_def)
  from here 2(6) have "job_id j \<in> fst ` set (w_zsets w2 (sched_key c ch j))" by (auto simp: image_iff)
  with 2(5) have all: "\<forall>x \<in> set (j # js). job_id x \<in> fst ` set (w_zsets w2 (sched_key c ch x))" by simp
  have kept: "\<forall>k p. p \<in> set (w_zsets w k) \<longrightarrow> p \<in> set (w_zsets w2 k)" using old 2(6) by blast
  have added: "\<forall>k p. p \<in> set (w_zsets w2 k) \<longrightarrow> p \<in> set (w_zsets w k) \<or> (\<exists>x \<in> set (j # js). k = sched_key c ch x \<and> p = (job_id x, run_at_of x * 1000))"
    using new 2(7) by fastforce
  from run all kept added 2(3,4) lists show ?case by (metis rebuilt_jobs)
qed (simp add: ret_def)

lemma ordered_rows_doc:
  "ordered_rows mgr_documented P key limit w =
    (Inr (let s = sort_key key (filter P (w_jobs w)) in case limit of None \<Rightarrow> s | Some n \<Rightarrow> take n s), w)"
  by (simp add: ordered_rows_def bind_def d_rows_def ret_def)

definition waiting :: "rat \<Rightarrow> string \<Rightarrow> job \<Rightarrow> bool" where
  "waiting now ch j \<longleftrightarrow> job_channel j = ch \<and> job_status j = Pending \<and> (case job_run_at j of None \<Rightarrow> False | Some t \<Rightarrow> t > now)"

lemma waiting_iff: "waiting now ch j \<longleftrightarrow> job_channel j = ch \<and> job_status j = Pending \<and> (\<exists>t > now. job_run_at j = Some t)"
  by (auto simp: waiting_def split: option.splits)

lemma rebuild_channel_doc:
  "\<exists>r w'. rebuild_channel documented mgr_documented c now None ch w = (Inr r, w') \<and> w_jobs w' = w_jobs w \<and> w_lists w' = w_lists w
    \<and> (\<forall>j \<in> set (w_jobs w). waiting now ch j \<longrightarrow> job_id j \<in> fst ` set (w_zsets w' (sched_key c ch j)))
    \<and> (\<forall>k p. p \<in> set (w_zsets w k) \<longrightarrow> p \<in> set (w_zsets w' k))
    \<and> (\<forall>k p. p \<in> set (w_zsets w' k) \<longrightarrow> p \<in> set (w_zsets w k)
        \<or> (\<exists>j \<in> set (w_jobs w). waiting now ch j \<and> k = sched_key c ch j \<and> p = (job_id j, run_at_of j * 1000)))"
proof -
  let ?js = "sort_key run_at_of (filter (waiting now ch) (w_jobs w))"
  have q: "ordered_rows mgr_documented (\<lambda>j. job_channel j = ch \<and> job_status j = Pending \<and> (case job_run_at j of None \<Rightarrow> False | Some t \<Rightarrow> t > now))
      run_at_of None w = (Inr ?js, w)"
    by (simp add: ordered_rows_doc waiting_def [abs_def])
  from rebuild_all [of ?js c ch w] obtain ys w' where
    r: "map_each ?js (rebuild_one documented mgr_documented c ch) w = (Inr ys, w')" "w_jobs w' = w_jobs w" "w_lists w' = w_lists w"
      "\<forall>j \<in> set ?js. job_id j \<in> fst ` set (w_zsets w' (sched_key c ch j))"
      "\<forall>k p. p \<in> set (w_zsets w k) \<longrightarrow> p \<in> set (w_zsets w' k)"
      "\<forall>k p. p \<in> set (w_zsets w' k) \<longrightarrow> p \<in> set (w_zsets w k) \<or> (\<exists>j \<in> set ?js. k = sched_key c ch j \<and> p = (job_id j, run_at_of j * 1000))"
    by blast
  have "\<exists>r. rebuild_channel documented mgr_documented c now None ch w = (Inr r, w')"
    using r(1) unfolding rebuild_channel_def catch_def bind_def q by (simp add: ret_def Let_def)
  then obtain x where run: "rebuild_channel documented mgr_documented c now None ch w = (Inr x, w')" by blast
  have js: "set ?js = {j \<in> set (w_jobs w). waiting now ch j}" by auto
  have "\<forall>j \<in> set (w_jobs w). waiting now ch j \<longrightarrow> job_id j \<in> fst ` set (w_zsets w' (sched_key c ch j))" using r(4) unfolding js by blast
  moreover have "\<forall>k p. p \<in> set (w_zsets w' k) \<longrightarrow> p \<in> set (w_zsets w k)
        \<or> (\<exists>j \<in> set (w_jobs w). waiting now ch j \<and> k = sched_key c ch j \<and> p = (job_id j, run_at_of j * 1000))"
    using r(6) unfolding js by blast
  ultimately show ?thesis using run r(2,3,5) by blast
qed

text \<open>
  C31: With services that answer, rebuilding the schedules of a channel from the table, without a limit, leaves
  every pending row of the channel that is due later in the schedule of its kind, takes nothing out and moves
  nothing; what is new in any sorted set is the identifier of such a row, in the schedule of its kind
  and at its own time.
\<close>

theorem rebuild_completes:
  assumes "rebuild_channel documented mgr_documented c now None ch w = (r, w')"
    and "due = (\<lambda>j. j \<in> set (w_jobs w) \<and> job_channel j = ch \<and> job_status j = Pending \<and> (\<exists>t > now. job_run_at j = Some t))"
    and "schedule = (\<lambda>j. if job_broadcast j then k_sched_broadcast (pfx c) ch else k_sched (pfx c) ch)"
  shows "(\<forall>j. due j \<longrightarrow> job_id j \<in> fst ` set (w_zsets w' (schedule j)))
    \<and> (\<forall>k p. p \<in> set (w_zsets w k) \<longrightarrow> p \<in> set (w_zsets w' k))
    \<and> (\<forall>k p. p \<in> set (w_zsets w' k) - set (w_zsets w k) \<longrightarrow> (\<exists>j. due j \<and> k = schedule j \<and> p = (job_id j, run_at_of j * 1000)))"
proof -
  have waits: "due j \<longleftrightarrow> j \<in> set (w_jobs w) \<and> waiting now ch j" for j
    using assms(2) by (auto simp: waiting_iff)
  have key: "schedule = sched_key c ch" using assms(3) by (simp add: sched_key_def fun_eq_iff)
  from rebuild_channel_doc [of c now ch w] assms(1) have
    1: "\<forall>j \<in> set (w_jobs w). waiting now ch j \<longrightarrow> job_id j \<in> fst ` set (w_zsets w' (sched_key c ch j))"
    and 2: "\<forall>k p. p \<in> set (w_zsets w k) \<longrightarrow> p \<in> set (w_zsets w' k)"
    and 3: "\<forall>k p. p \<in> set (w_zsets w' k) \<longrightarrow> p \<in> set (w_zsets w k)
        \<or> (\<exists>j \<in> set (w_jobs w). waiting now ch j \<and> k = sched_key c ch j \<and> p = (job_id j, run_at_of j * 1000))" by auto
  have "\<exists>j. due j \<and> k = schedule j \<and> p = (job_id j, run_at_of j * 1000)" if "p \<in> set (w_zsets w' k) - set (w_zsets w k)" for k p
    using 3 that unfolding waits key by blast
  moreover have "\<forall>j. due j \<longrightarrow> job_id j \<in> fst ` set (w_zsets w' (schedule j))" using 1 unfolding waits key by blast
  ultimately show ?thesis using 2 by blast
qed

section \<open>Managed systems\<close>

text \<open>The steps of the system together with those of an operator at the management interface.\<close>

inductive managed_step :: "jobs_cfg \<Rightarrow> (string \<Rightarrow> string \<Rightarrow> handler option) \<Rightarrow> world \<Rightarrow> world \<Rightarrow> bool"
  for c importlib where
  ms_system: "delivery_step c importlib w v \<Longrightarrow> managed_step c importlib w v"
| ms_clear_stuck: "managed_step c importlib w (snd (clear_stuck_jobs documented mgr_documented c now ch threshold w))"
| ms_clear_channel: "managed_step c importlib w (snd (clear_channel documented mgr_documented c now ch True w))"
| ms_pause: "managed_step c importlib w (snd (pause_channel documented c ch w))"
| ms_resume: "managed_step c importlib w (snd (resume_channel documented c ch w))"
| ms_release: "settled jid (w_jobs w) \<Longrightarrow> managed_step c importlib w (snd (release_inflight documented c ch jid w))"
| ms_rebuild: "managed_step c importlib w (snd (rebuild_scheduled documented mgr_documented c now limit chs w))"
| ms_requeue: "managed_step c importlib w (snd (requeue_db_pending documented mgr_documented c ch limit w))"
| ms_purge: "managed_step c importlib w (snd (purge_old_jobs mgr_documented now days st dry w))"
| ms_force_lead: "managed_step c importlib w (snd (force_scheduler_lead documented c w))"

lemma keeps_rows [keeps_intro]: "keeps P (ordered_rows mgr_documented Q key limit)"
  by (simp add: keeps_def ordered_rows_doc)

lemma flow_xadd:
  "keeps (flows c U) (d_rpush (if b then k_stream_broadcast (pfx c) ch else k_stream (pfx c) ch) i)"
proof -
  have "flow_ok c U {} R L Z \<Longrightarrow> flow_ok c U {} R (L(k_stream (pfx c) ch := xs)) Z"
    "flow_ok c U {} R L Z \<Longrightarrow> flow_ok c U {} R (L(k_stream_broadcast (pfx c) ch := xs)) Z" for R L Z xs
    by (erule flow_ok_at, simp)+
  then show ?thesis by (simp add: keeps_def flow_def d_rpush_def)
qed

lemma flows_requeue: "keeps (flows c U) (requeue_db_pending documented mgr_documented c ch limit)"
  unfolding requeue_db_pending_def requeue_one_def by (auto intro!: keeps_intro flow_xadd)

lemma map_each_Cons_snd:
  "m x w = (Inr r, v) \<Longrightarrow> snd (map_each (x # xs) m w) = snd (map_each xs m v)"
  by (simp add: bind_def ret_def split: prod.split sum.split)

lemma flows_rebuild_rows:
  "flows c U w \<Longrightarrow> set js \<subseteq> set (w_jobs w) \<Longrightarrow> \<forall>j \<in> set js. job_channel j = ch \<Longrightarrow>
   flows c U (snd (map_each js (rebuild_one documented mgr_documented c ch) w))"
proof (induction js arbitrary: w)
  case (Cons j js)
  then have "flows c U (rebuilt_world c ch j w)" by (intro flows_rebuilt) auto
  with Cons.IH [of "rebuilt_world c ch j w"] Cons.prems
  have "flows c U (snd (map_each js (rebuild_one documented mgr_documented c ch) (rebuilt_world c ch j w)))" by simp
  then show ?case
    using map_each_Cons_snd [where m = "rebuild_one documented mgr_documented c ch" and x = j and w = w and v = "rebuilt_world c ch j w", OF rebuild_one_doc]
    by simp
qed (simp add: ret_def)

lemma flows_rebuild: "keeps (flows c U) (rebuild_scheduled documented mgr_documented c now limit chs)"
  unfolding rebuild_scheduled_def
proof (rule keeps_map_each)
  fix ch
  let ?P = "\<lambda>j. job_channel j = ch \<and> job_status j = Pending \<and> (case job_run_at j of None \<Rightarrow> False | Some t \<Rightarrow> t > now)"
  show "keeps (flows c U) (rebuild_channel documented mgr_documented c now limit ch)"
    unfolding keeps_def
  proof (intro allI impI)
    fix w assume ok: "flows c U w"
    define js where "js = (let s = sort_key run_at_of (filter ?P (w_jobs w)) in case limit of None \<Rightarrow> s | Some n \<Rightarrow> take n s)"
    have "set js \<subseteq> set (filter ?P (w_jobs w))"
      by (auto simp: js_def Let_def split: option.splits dest: in_set_takeD)
    then have "flows c U (snd (map_each js (rebuild_one documented mgr_documented c ch) w))"
      by (intro flows_rebuild_rows [OF ok]) auto
    moreover have "snd (rebuild_channel documented mgr_documented c now limit ch w) = snd (map_each js (rebuild_one documented mgr_documented c ch) w)"
      unfolding rebuild_channel_def catch_def bind_def ordered_rows_doc js_def [symmetric]
      by (simp add: ret_def Let_def split: prod.split sum.split)
    ultimately show "flows c U (snd (rebuild_channel documented mgr_documented c now limit ch w))" by simp
  qed
qed

lemma flows_managed: "managed_step c importlib w v \<Longrightarrow> flows c {} w \<Longrightarrow> flows c {} v"
proof (induction rule: managed_step.induct)
  case (ms_release jid w ch)
  then show ?case by (intro flows_release)
qed (auto intro: flows_step flows_clear_stuck flows_clear_channel keeps_snd [OF flows_pause(1)] keeps_snd [OF flows_pause(2)]
      keeps_snd [OF flows_rebuild] keeps_snd [OF flows_requeue] keeps_snd [OF flows_purge] keeps_snd [OF flows_force_lead])



theorem rebuild_completes_witness:
  "let j = (ex_job ''a'' ''m.ok'')\<lparr>job_run_at := Some 9\<rparr>;
       w' = snd (rebuild_channel documented mgr_documented default_cfg 5 None ''default'' (empty_world\<lparr>w_jobs := [j]\<rparr>))
   in ''a'' \<in> fst ` set (w_zsets w' (k_sched (pfx default_cfg) ''default''))"
proof -
  let ?j = "(ex_job ''a'' ''m.ok'')\<lparr>job_run_at := Some 9\<rparr>"
  have j: "job_channel ?j = ''default''" "job_status ?j = Pending" "job_id ?j = ''a''" "\<not> job_broadcast ?j" "job_run_at ?j = Some 9"
    by (simp_all add: ex_job_def new_job_def default_args_def)
  show ?thesis
    using conjunct1 [OF rebuild_completes [where c = default_cfg and now = 5 and ch = "''default''" and w = "empty_world\<lparr>w_jobs := [?j]\<rparr>", OF surjective_pairing refl refl]] j
    by (simp add: Let_def)
qed

section \<open>What requeueing does not do\<close>

definition engine_view :: "jobs_cfg \<Rightarrow> (string \<Rightarrow> string list) \<Rightarrow> (string \<Rightarrow> (string \<times> rat) list) \<Rightarrow> world \<Rightarrow> bool" where
  "engine_view c Q Z w \<longleftrightarrow> (\<forall>ch. w_lists w (k_queue (pfx c) ch) = Q ch) \<and> w_zsets w = Z"

lemma view_intros [keeps_intro]:
  "keeps (engine_view c Q Z) (d_rpush (if b then k_stream_broadcast (pfx c) ch else k_stream (pfx c) ch) i)"
  "keeps (engine_view c Q Z) (d_event_create ev)"
  by (simp_all add: keeps_def engine_view_def d_rpush_def d_event_create_def)

text \<open>
  Requeueing the pending rows of a channel touches neither a queue nor a schedule nor an in-flight set:
  it writes the streams of an earlier transport, which no engine reads.
\<close>

theorem requeue_leaves_queues:
  "let w' = snd (requeue_db_pending documented mgr_documented c ch limit w)
   in at_channel c ch' i (w_lists w') (w_zsets w') \<longleftrightarrow> at_channel c ch' i (w_lists w) (w_zsets w)"
proof -
  have "keeps (engine_view c (\<lambda>ch. w_lists w (k_queue (pfx c) ch)) (w_zsets w)) (requeue_db_pending documented mgr_documented c ch limit)"
    unfolding requeue_db_pending_def requeue_one_def by (auto intro!: keeps_intro)
  then have "engine_view c (\<lambda>ch. w_lists w (k_queue (pfx c) ch)) (w_zsets w) (snd (requeue_db_pending documented mgr_documented c ch limit w))"
    by (auto simp: keeps_def engine_view_def)
  then show ?thesis by (simp add: engine_view_def at_channel_def Let_def)
qed

end
