(* ===== verification/Geofence_Rules.thy ===== *)
theory Geofence_Rules
  imports Py_Strings
begin

text \<open>
  The rule language of the geofence (\<open>mojo/apps/account/services/geofence/dsl.py\<close>): its validator and
  its matcher, over JSON as it arrives from settings and group metadata. Every operation that raises in
  Python is a branch: a method that the type of a value does not have, a value that cannot be iterated.
  The section on types shows that a validated rule never reaches one of them; the section on meaning
  gives the language its intended denotation and shows the matcher equal to it.
\<close>

section \<open>Values\<close>

fun type_name :: "json \<Rightarrow> string" where
  "type_name JNull = ''NoneType''"
| "type_name (JBool b) = ''bool''"
| "type_name (JInt i) = ''int''"
| "type_name (JFloat s) = ''float''"
| "type_name (JStr s) = ''str''"
| "type_name (JList xs) = ''list''"
| "type_name (JObj m) = ''dict''"

text \<open>\<open>repr(s)\<close> of a string: the quote it uses, and the characters it escapes\<close>

definition repr_char :: "char \<Rightarrow> char \<Rightarrow> string" where
  "repr_char q c =
     (let n = (of_char c :: nat) in
      if c = q \<or> n = 92 then [char_of (92::nat), c]
      else if n = 10 then [char_of (92::nat), CHR ''n'']
      else if n = 13 then [char_of (92::nat), CHR ''r'']
      else if n = 9 then [char_of (92::nat), CHR ''t'']
      else if n < 32 \<or> n = 127 then char_of (92::nat) # ''x'' @ [hex_digit (n div 16), hex_digit (n mod 16)]
      else [c])"

definition repr_str :: "string \<Rightarrow> string" where
  "repr_str s =
     (let q = (if char_of (39::nat) \<in> set s \<and> char_of (34::nat) \<notin> set s then char_of (34::nat) else char_of (39::nat))
      in q # concat (map (repr_char q) s) @ [q])"

text \<open>\<open>d.items()\<close> and \<open>d.get(k)\<close>\<close>

definition no_attribute :: "json \<Rightarrow> string \<Rightarrow> exn" where
  "no_attribute j a = AttributeError (repr_str (type_name j) @ '' object has no attribute '' @ repr_str a)"

fun items :: "json \<Rightarrow> (string \<times> json) list res" where
  "items (JObj m) = Inr m"
| "items j = Inl (no_attribute j ''items'')"

fun jget :: "json \<Rightarrow> string \<Rightarrow> json option res" where
  "jget (JObj m) k = Inr (map_of m k)"
| "jget j k = Inl (no_attribute j ''get'')"

definition none_or_falsy :: "json option \<Rightarrow> bool" where
  "none_or_falsy v \<longleftrightarrow> (case v of None \<Rightarrow> True | Some j \<Rightarrow> \<not> truthy j)"

text \<open>\<open>v.upper()\<close>\<close>

fun upper_of :: "json \<Rightarrow> string res" where
  "upper_of (JStr s) = Inr (upper s)"
| "upper_of j = Inl (no_attribute j ''upper'')"

text \<open>What \<open>for v in operand\<close> ranges over\<close>

fun elements :: "json \<Rightarrow> json list res" where
  "elements (JList xs) = Inr xs"
| "elements (JStr s) = Inr (map (\<lambda>c. JStr [c]) s)"
| "elements (JObj m) = Inr (map (\<lambda>p. JStr (fst p)) m)"
| "elements j = Inl (TypeError (repr_str (type_name j) @ '' object is not iterable''))"

fun upper_all :: "json list \<Rightarrow> string list res" where
  "upper_all [] = Inr []"
| "upper_all (x # xs) = andthen (upper_of x) (\<lambda>u. andthen (upper_all xs) (\<lambda>us. Inr (u # us)))"

section \<open>The validator\<close>

definition VALID_TOP_KEYS :: "string list" where
  "VALID_TOP_KEYS = [''abuse'', ''country'', ''region'']"

definition VALID_OPS :: "string list" where
  "VALID_OPS = [''eq'', ''in'', ''not_in'']"

definition VALID_ABUSE_KEYS :: "string list" where
  "VALID_ABUSE_KEYS = [''datacenter'', ''proxy'', ''tor'', ''vpn'']"

text \<open>\<open>repr\<close> of a sorted list of names\<close>

definition repr_names :: "string list \<Rightarrow> string" where
  "repr_names xs = ''['' @ join_with '', '' (map repr_str xs) @ '']''"

definition malformed :: "string \<Rightarrow> exn" where
  "malformed m = ValueError (''geofence rule: '' @ m)"

fun is_str :: "json \<Rightarrow> bool" where
  "is_str (JStr s) = True"
| "is_str j = False"

fun validate_operand :: "string \<Rightarrow> string \<Rightarrow> json \<Rightarrow> unit res" where
  "validate_operand field op operand =
     (if op \<notin> set VALID_OPS then
        Inl (malformed (repr_str field @ '' has unknown operator '' @ repr_str op @ ''; valid operators are '' @ repr_names VALID_OPS))
      else if op \<in> {''in'', ''not_in''} then
        (case operand of
           JList xs \<Rightarrow>
             if list_all is_str xs then Inr ()
             else Inl (malformed (repr_str field @ ''.'' @ repr_str op @ '' operand must contain strings only''))
         | _ \<Rightarrow> Inl (malformed (repr_str field @ ''.'' @ repr_str op @ '' operand must be a list, got '' @ type_name operand)))
      else (if is_str operand then Inr ()
            else Inl (malformed (repr_str field @ ''.eq operand must be a string, got '' @ type_name operand))))"

fun validate_matcher :: "string \<Rightarrow> (string \<times> json) list \<Rightarrow> unit res" where
  "validate_matcher field [] = Inr ()"
| "validate_matcher field ((op, operand) # rest) =
     andthen (validate_operand field op operand) (\<lambda>_. validate_matcher field rest)"

fun validate_flag :: "string \<Rightarrow> json \<Rightarrow> unit res" where
  "validate_flag flag expected =
     (if flag \<notin> set VALID_ABUSE_KEYS then
        Inl (malformed (''abuse has unknown flag '' @ repr_str flag @ ''; valid flags are '' @ repr_names VALID_ABUSE_KEYS))
      else (case expected of
              JNull \<Rightarrow> Inr ()
            | JBool b \<Rightarrow> Inr ()
            | _ \<Rightarrow> Inl (malformed (''abuse.'' @ flag @ '' must be true/false/null, got '' @ type_name expected))))"

fun validate_abuse :: "(string \<times> json) list \<Rightarrow> unit res" where
  "validate_abuse [] = Inr ()"
| "validate_abuse ((flag, expected) # rest) = andthen (validate_flag flag expected) (\<lambda>_. validate_abuse rest)"

definition validate_entry :: "string \<Rightarrow> json \<Rightarrow> unit res" where
  "validate_entry key body =
     (if key \<notin> set VALID_TOP_KEYS then
        Inl (malformed (''unknown top-level key '' @ repr_str key @ ''; valid keys are '' @ repr_names VALID_TOP_KEYS))
      else (case body of
              JObj m \<Rightarrow> if key \<in> {''country'', ''region''} then validate_matcher key m else validate_abuse m
            | _ \<Rightarrow> Inl (malformed (repr_str key @ '' body must be a dict, got '' @ type_name body))))"

fun validate_entries :: "(string \<times> json) list \<Rightarrow> unit res" where
  "validate_entries [] = Inr ()"
| "validate_entries ((key, body) # rest) = andthen (validate_entry key body) (\<lambda>_. validate_entries rest)"

fun validate_rule :: "json \<Rightarrow> unit res" where
  "validate_rule (JObj m) = validate_entries m"
| "validate_rule j = Inl (ValueError (''geofence rule must be a dict, got '' @ type_name j))"

section \<open>The matcher\<close>

fun operator_passes :: "string \<Rightarrow> json \<Rightarrow> string \<Rightarrow> bool res" where
  "operator_passes op operand value =
     (if op = ''in'' then andthen (elements operand) (\<lambda>xs. andthen (upper_all xs) (\<lambda>allowed. Inr (value \<in> set allowed)))
      else if op = ''not_in'' then andthen (elements operand) (\<lambda>xs. andthen (upper_all xs) (\<lambda>blocked. Inr (value \<notin> set blocked)))
      else if op = ''eq'' then andthen (upper_of operand) (\<lambda>u. Inr (value = u))
      else Inr True)"

fun matcher_passes :: "(string \<times> json) list \<Rightarrow> string \<Rightarrow> bool res" where
  "matcher_passes [] value = Inr True"
| "matcher_passes ((op, operand) # rest) value =
     andthen (operator_passes op operand value) (\<lambda>ok. if ok then matcher_passes rest value else Inr False)"

text \<open>\<open>(geo.get(key) or "").upper()\<close>\<close>

definition code_of :: "json \<Rightarrow> string \<Rightarrow> string res" where
  "code_of geo key = andthen (jget geo key) (\<lambda>v. if none_or_falsy v then Inr [] else upper_of (the v))"

text \<open>A verdict: allowed, or the reason of the refusal.\<close>

definition location_verdict :: "json option \<Rightarrow> json \<Rightarrow> string \<Rightarrow> string \<Rightarrow> string option res" where
  "location_verdict body geo key reason =
     (if none_or_falsy body then Inr None
      else andthen (code_of geo key) (\<lambda>code. andthen (items (the body)) (\<lambda>m.
           andthen (matcher_passes m code) (\<lambda>ok. Inr (if ok then None else Some reason)))))"

fun abuse_loop :: "(string \<times> json) list \<Rightarrow> json \<Rightarrow> string option res" where
  "abuse_loop [] geo = Inr None"
| "abuse_loop ((flag, expected) # rest) geo =
     (if expected = JNull then abuse_loop rest geo
      else andthen (jget geo (''is_'' @ flag)) (\<lambda>v.
           let actual = \<not> none_or_falsy v in
           if actual \<noteq> truthy expected then Inr (Some (flag @ ''_detected'')) else abuse_loop rest geo))"

definition abuse_verdict :: "json option \<Rightarrow> json \<Rightarrow> string option res" where
  "abuse_verdict body geo =
     (if none_or_falsy body then Inr None else andthen (items (the body)) (\<lambda>m. abuse_loop m geo))"

definition first_reason :: "string option res \<Rightarrow> string option res \<Rightarrow> string option res" where
  "first_reason a b = andthen a (\<lambda>r. case r of None \<Rightarrow> b | Some x \<Rightarrow> Inr (Some x))"

text \<open>\<open>None\<close> is \<open>(True, None)\<close>, \<open>Some r\<close> is \<open>(False, r)\<close>.\<close>

definition evaluate_rule :: "json \<Rightarrow> json \<Rightarrow> string option res" where
  "evaluate_rule rule geo =
     (if \<not> truthy rule then Inr None
      else first_reason (andthen (jget rule ''country'') (\<lambda>b. location_verdict b geo ''country_code'' ''country_not_allowed''))
          (first_reason (andthen (jget rule ''region'') (\<lambda>b. location_verdict b geo ''region_code'' ''region_not_allowed''))
                        (andthen (jget rule ''abuse'') (\<lambda>b. abuse_verdict b geo))))"

section \<open>Types\<close>

text \<open>
  The shape of a location: a dict whose two codes are texts or absent. The values that the geolocation
  table and the overrides of the deployment provide have it.
\<close>

definition code_ok :: "json option \<Rightarrow> bool" where
  "code_ok v \<longleftrightarrow> (case v of None \<Rightarrow> True | Some j \<Rightarrow> j = JNull \<or> is_str j)"

definition geo_ok :: "json \<Rightarrow> bool" where
  "geo_ok geo \<longleftrightarrow> (case geo of JObj m \<Rightarrow> code_ok (map_of m ''country_code'') \<and> code_ok (map_of m ''region_code'') | _ \<Rightarrow> False)"

definition returns :: "'a res \<Rightarrow> bool" where
  "returns r \<longleftrightarrow> (\<exists>x. r = Inr x)"

lemma returns_simps [simp]:
  "returns (Inr x)" "\<not> returns (Inl e)"
  by (simp_all add: returns_def)

lemma returns_andthen: "returns r \<Longrightarrow> (\<And>x. r = Inr x \<Longrightarrow> returns (f x)) \<Longrightarrow> returns (andthen r f)"
  by (auto simp: returns_def)

lemma is_strE: "is_str j \<Longrightarrow> \<exists>s. j = JStr s"
  by (cases j) auto

lemma upper_all_strs: "list_all is_str xs \<Longrightarrow> \<exists>us. upper_all xs = Inr us"
  by (induction xs) (auto dest: is_strE)

lemma geo_ok_codes:
  assumes "geo_ok geo"
  shows "\<exists>m. geo = JObj m" "\<exists>s. code_of geo ''country_code'' = Inr s" "\<exists>s. code_of geo ''region_code'' = Inr s"
  using assms by (auto simp: geo_ok_def code_ok_def code_of_def none_or_falsy_def split: json.splits option.splits dest!: is_strE)

lemma valid_operand_returns:
  assumes "validate_operand field op operand = Inr u"
  shows "returns (operator_passes op operand value)"
proof -
  consider "op \<in> {''in'', ''not_in''}" | "op = ''eq''"
    using assms by (auto simp: VALID_OPS_def split: if_splits)
  then show ?thesis
  proof cases
    case 1
    with assms obtain xs where "operand = JList xs" "list_all is_str xs"
      by (auto split: json.splits if_splits)
    with 1 upper_all_strs [of xs] show ?thesis by auto
  next
    case 2
    with assms show ?thesis by (auto simp: VALID_OPS_def split: if_splits dest!: is_strE)
  qed
qed

lemma valid_matcher_returns: "validate_matcher field m = Inr u \<Longrightarrow> returns (matcher_passes m value)"
proof (induction field m rule: validate_matcher.induct)
  case (2 field op operand rest)
  then show ?case using valid_operand_returns [of field op operand _ "value"]
    by (auto simp del: validate_operand.simps operator_passes.simps simp: andthen_ok intro!: returns_andthen)
qed simp

lemma abuse_loop_returns: "returns (abuse_loop m (JObj g))"
  by (induction m "JObj g" rule: abuse_loop.induct) (auto simp: Let_def)

lemma valid_entry:
  "validate_entries m = Inr u \<Longrightarrow> map_of m key = Some body \<Longrightarrow> validate_entry key body = Inr ()"
  by (induction m rule: validate_entries.induct) (auto simp: andthen_ok split: if_splits)

lemma valid_location_returns:
  assumes "validate_entries m = Inr u" and "key \<in> {''country'', ''region''}" and "code_of geo code = Inr s"
  shows "returns (location_verdict (map_of m key) geo code reason)"
proof (cases "map_of m key")
  case (Some body)
  with assms(1) have "validate_entry key body = Inr ()" by (rule valid_entry)
  with assms(2) obtain mm where mm: "body = JObj mm" "validate_matcher key mm = Inr ()"
    by (auto simp: validate_entry_def VALID_TOP_KEYS_def split: json.splits)
  from valid_matcher_returns [OF mm(2), of s] show ?thesis
    by (auto simp: location_verdict_def Some mm(1) assms(3) returns_def)
qed (simp add: location_verdict_def none_or_falsy_def)

lemma returns_first: "returns a \<Longrightarrow> returns b \<Longrightarrow> returns (first_reason a b)"
  by (auto simp: first_reason_def returns_def split: option.splits)

lemma valid_rule_evaluates:
  assumes "validate_rule rule = Inr u" and "geo_ok geo"
  shows "returns (evaluate_rule rule geo)"
proof -
  from assms(1) obtain m where m: "rule = JObj m" "validate_entries m = Inr u" by (cases rule) auto
  from geo_ok_codes [OF assms(2)] obtain g cc rc where
    g: "geo = JObj g" "code_of geo ''country_code'' = Inr cc" "code_of geo ''region_code'' = Inr rc" by blast
  have "returns (abuse_verdict (map_of m ''abuse'') geo)"
  proof (cases "map_of m ''abuse''")
    case (Some body)
    with m(2) have "validate_entry ''abuse'' body = Inr ()" by (rule valid_entry)
    then obtain mm where "body = JObj mm" by (auto simp: validate_entry_def VALID_TOP_KEYS_def split: json.splits)
    with Some show ?thesis by (simp add: abuse_verdict_def g(1) abuse_loop_returns)
  qed (simp add: abuse_verdict_def none_or_falsy_def)
  then show ?thesis
    using valid_location_returns [OF m(2) _ g(2), of "''country''"] valid_location_returns [OF m(2) _ g(3), of "''region''"]
    by (simp add: evaluate_rule_def m(1) returns_first)
qed

section \<open>Meaning\<close>

fun strings_of :: "json \<Rightarrow> string list" where
  "strings_of (JList xs) = concat (map (\<lambda>x. case x of JStr s \<Rightarrow> [s] | _ \<Rightarrow> []) xs)"
| "strings_of (JStr s) = [s]"
| "strings_of j = []"

text \<open>The condition that one operator puts on a code, up to case.\<close>

definition op_allows :: "string \<Rightarrow> json \<Rightarrow> string \<Rightarrow> bool" where
  "op_allows op x v \<longleftrightarrow> (op = ''in'' \<or> op = ''eq'' \<longrightarrow> v \<in> upper ` set (strings_of x)) \<and> (op = ''not_in'' \<longrightarrow> v \<notin> upper ` set (strings_of x))"

definition body_of :: "(string \<times> json) list \<Rightarrow> string \<Rightarrow> (string \<times> json) list" where
  "body_of m key = (case map_of m key of Some (JObj b) \<Rightarrow> b | _ \<Rightarrow> [])"

definition rule_allows :: "(string \<times> json) list \<Rightarrow> string \<Rightarrow> string \<Rightarrow> (string \<Rightarrow> bool) \<Rightarrow> bool" where
  "rule_allows m country region flagged \<longleftrightarrow>
     (\<forall>(op, x) \<in> set (body_of m ''country''). op_allows op x country)
   \<and> (\<forall>(op, x) \<in> set (body_of m ''region''). op_allows op x region)
   \<and> (\<forall>(flag, x) \<in> set (body_of m ''abuse''). x \<noteq> JNull \<longrightarrow> (x = JBool (flagged flag)))"

definition flag_of :: "json \<Rightarrow> string \<Rightarrow> bool" where
  "flag_of geo flag \<longleftrightarrow> \<not> none_or_falsy (jdict_get geo (''is_'' @ flag))"

definition code_text :: "json \<Rightarrow> string \<Rightarrow> string" where
  "code_text geo key = (case jdict_get geo key of Some (JStr s) \<Rightarrow> upper s | _ \<Rightarrow> [])"

lemma upper_all_eq: "list_all is_str xs \<Longrightarrow> upper_all xs = Inr (map upper (strings_of (JList xs)))"
  by (induction xs) (auto dest!: is_strE)

lemma valid_operand_meaning:
  assumes "validate_operand field op operand = Inr u"
  shows "operator_passes op operand v = Inr (op_allows op operand v)"
proof -
  consider "op \<in> {''in'', ''not_in''}" | "op = ''eq''"
    using assms by (auto simp: VALID_OPS_def split: if_splits)
  then show ?thesis
  proof cases
    case 1
    with assms obtain xs where "operand = JList xs" "list_all is_str xs"
      by (auto split: json.splits if_splits)
    with 1 show ?thesis by (auto simp: upper_all_eq op_allows_def simp del: strings_of.simps)
  next
    case 2
    with assms show ?thesis by (auto simp: VALID_OPS_def op_allows_def split: if_splits dest!: is_strE)
  qed
qed

lemma valid_matcher_meaning:
  "validate_matcher field m = Inr u \<Longrightarrow> matcher_passes m v = Inr (\<forall>(op, x) \<in> set m. op_allows op x v)"
proof (induction field m rule: validate_matcher.induct)
  case (2 field op operand rest)
  then have "validate_operand field op operand = Inr ()" "validate_matcher field rest = Inr ()"
    by (auto simp: andthen_ok simp del: validate_operand.simps)
  with valid_operand_meaning 2(1) show ?case by (simp del: operator_passes.simps validate_operand.simps)
qed simp

lemma abuse_loop_meaning:
  "validate_abuse m = Inr u \<Longrightarrow>
   (abuse_loop m (JObj g) = Inr None) \<longleftrightarrow> (\<forall>(flag, x) \<in> set m. x \<noteq> JNull \<longrightarrow> x = JBool (flag_of (JObj g) flag))"
  by (induction m rule: validate_abuse.induct) (auto simp: andthen_ok Let_def flag_of_def split: if_splits json.splits)

lemma code_of_text: "geo_ok geo \<Longrightarrow> key \<in> {''country_code'', ''region_code''} \<Longrightarrow> code_of geo key = Inr (code_text geo key)"
  by (auto simp: geo_ok_def code_ok_def code_of_def code_text_def none_or_falsy_def upper_def split: json.splits option.splits dest!: is_strE)

lemma location_meaning:
  assumes "validate_entries m = Inr u" and "key \<in> {''country'', ''region''}" and "code_of geo code = Inr s"
  shows "location_verdict (map_of m key) geo code reason
    = Inr (if \<forall>(op, x) \<in> set (body_of m key). op_allows op x s then None else Some reason)"
proof (cases "map_of m key")
  case (Some body)
  with assms(1) have "validate_entry key body = Inr ()" by (rule valid_entry)
  with assms(2) obtain mm where mm: "body = JObj mm" "validate_matcher key mm = Inr ()"
    by (auto simp: validate_entry_def VALID_TOP_KEYS_def split: json.splits)
  from valid_matcher_meaning [OF mm(2), of s] show ?thesis
    by (auto simp: location_verdict_def Some mm(1) assms(3) body_of_def none_or_falsy_def)
qed (simp add: location_verdict_def none_or_falsy_def body_of_def)

lemma abuse_meaning:
  assumes "validate_entries m = Inr u" and "geo = JObj g"
  shows "(abuse_verdict (map_of m ''abuse'') geo = Inr None)
    \<longleftrightarrow> (\<forall>(flag, x) \<in> set (body_of m ''abuse''). x \<noteq> JNull \<longrightarrow> x = JBool (flag_of geo flag))"
proof (cases "map_of m ''abuse''")
  case (Some body)
  with assms(1) have "validate_entry ''abuse'' body = Inr ()" by (rule valid_entry)
  then obtain mm where mm: "body = JObj mm" "validate_abuse mm = Inr ()"
    by (auto simp: validate_entry_def VALID_TOP_KEYS_def split: json.splits)
  from abuse_loop_meaning [OF mm(2), of g] show ?thesis
    by (auto simp: abuse_verdict_def Some mm(1) body_of_def none_or_falsy_def assms(2))
qed (simp add: abuse_verdict_def none_or_falsy_def body_of_def)

text \<open>
  A validated rule never fails at request time: whatever rule passes the validator and whatever
  location has texts for its codes, the matcher returns, and it allows exactly the locations that the
  rule denotes, where every operator of a matcher counts.
\<close>

theorem valid_rules_evaluate:
  assumes "validate_rule (JObj m) = Inr ()" and "geo_ok geo"
  shows "\<exists>verdict. evaluate_rule (JObj m) geo = Inr verdict
    \<and> (verdict = None \<longleftrightarrow> rule_allows m (code_text geo ''country_code'') (code_text geo ''region_code'') (flag_of geo))"
proof -
  from valid_rule_evaluates [OF assms] obtain v where v: "evaluate_rule (JObj m) geo = Inr v" by (auto simp: returns_def)
  from assms(1) have m: "validate_entries m = Inr ()" by simp
  from assms(2) obtain g where g: "geo = JObj g" by (auto simp: geo_ok_def split: json.splits)
  note cc = location_meaning [OF m _ code_of_text [OF assms(2)], of "''country''" "''country_code''"]
  note rc = location_meaning [OF m _ code_of_text [OF assms(2)], of "''region''" "''region_code''"]
  have "evaluate_rule (JObj m) geo = Inr None
    \<longleftrightarrow> rule_allows m (code_text geo ''country_code'') (code_text geo ''region_code'') (flag_of geo)"
  proof (cases "m = []")
    case False
    then show ?thesis using abuse_meaning [OF m g]
      by (simp add: evaluate_rule_def first_reason_def cc rc rule_allows_def)
  qed (simp add: evaluate_rule_def rule_allows_def body_of_def)
  with v show ?thesis by auto
qed

definition ex_rule :: "(string \<times> json) list" where
  "ex_rule = [(''country'', JObj [(''in'', JList [JStr ''us'', JStr ''CA'']), (''not_in'', JList [JStr ''CA''])]),
    (''abuse'', JObj [(''tor'', JBool False), (''vpn'', JNull)])]"

definition ex_geo :: json where
  "ex_geo = JObj [(''country_code'', JStr ''US''), (''region_code'', JNull), (''is_tor'', JBool False)]"

lemma ex_rule_valid: "validate_rule (JObj ex_rule) = Inr ()"
  by (simp add: ex_rule_def validate_entry_def VALID_TOP_KEYS_def VALID_OPS_def VALID_ABUSE_KEYS_def)

theorem valid_rules_evaluate_witness:
  "evaluate_rule (JObj ex_rule) ex_geo = Inr None
    \<and> rule_allows ex_rule (code_text ex_geo ''country_code'') (code_text ex_geo ''region_code'') (flag_of ex_geo)"
proof -
  have ok: "geo_ok ex_geo" by (simp add: geo_ok_def ex_geo_def code_ok_def)
  have "evaluate_rule (JObj ex_rule) ex_geo = Inr None"
    by (simp add: evaluate_rule_def ex_rule_def ex_geo_def first_reason_def location_verdict_def abuse_verdict_def
        none_or_falsy_def code_of_def Let_def) code_simp
  with valid_rules_evaluate [OF ex_rule_valid ok] show ?thesis by auto
qed

end
