(* ===== verification/Geofence_Engine.thy ===== *)
theory Geofence_Engine
  imports Geofence_Rules Py_Datetime
begin

text \<open>
  The decisions of the geofence (\<open>services/geofence/engine.py\<close>), the cache of decisions
  (\<open>cache.py\<close>), the evidence of outcomes (\<open>evidence.py\<close>) and the enforcement in front of an endpoint
  (\<open>enforcement.py\<close>, \<open>decorators/geofence.py\<close>). What a request meets is \<open>gf_env\<close>: the settings by kind,
  the header overrides of test mode with the gate of \<open>helpers/test_mode.py\<close>, the groups, and as
  parameters the geolocation of an address, its whitelist row, the parser of dates, the network test
  of \<open>ipaddress\<close> and the JSON parser. The state is Redis as far as the geofence uses it, the metrics and
  the events. The time of a decision is left out of it.
\<close>

section \<open>Requests and settings\<close>

record gf_user =
  gu_authenticated :: bool
  gu_bypass :: "bool res"

record gf_request =
  gr_meta :: "string \<Rightarrow> string option"
  gr_ip :: "string option"
  gr_user :: "gf_user option"
  gr_path :: string

text \<open>The settings: \<open>settings.get\<close> by the kind of the value, \<open>None\<close> where the default counts.\<close>

record gf_settings =
  st_bool :: "string \<Rightarrow> bool option"
  st_int :: "string \<Rightarrow> int option"
  st_names :: "string \<Rightarrow> string list option"
  st_list :: "string \<Rightarrow> json list option"
  st_dict :: "string \<Rightarrow> json option"

record geo_row =
  gw_country :: "string option"
  gw_region :: "string option"
  gw_tor :: bool
  gw_vpn :: bool
  gw_proxy :: bool
  gw_datacenter :: bool

record white_row =
  wl_whitelisted :: bool
  wl_reason :: "string option"
  wl_until :: "rat option"

record gf_env =
  ge_test_mode :: bool
  ge_settings :: gf_settings
  ge_static_geo :: json
  ge_groups :: "int \<Rightarrow> (string \<times> json) list"
  ge_loads :: "string \<Rightarrow> json option"
  ge_int :: "string \<Rightarrow> int option"
  ge_geolocate :: "string \<Rightarrow> geo_row option res"
  ge_whitelist :: "string \<Rightarrow> white_row option res"
  ge_parse :: "json \<Rightarrow> rat option"
  ge_in_net :: "string \<Rightarrow> json \<Rightarrow> bool option"
  ge_now :: rat
  ge_redis :: bool
  ge_metrics :: bool
  ge_reporter :: bool

definition LOOPBACK_IPS :: "string list" where
  "LOOPBACK_IPS = [''127.0.0.1'', ''::1'', ''localhost'']"

definition header_set :: "string option \<Rightarrow> bool" where
  "header_set h \<longleftrightarrow> (case h of None \<Rightarrow> False | Some s \<Rightarrow> s \<noteq> [])"

definition is_test_request :: "gf_env \<Rightarrow> gf_request \<Rightarrow> bool" where
  "is_test_request E r \<longleftrightarrow> ge_test_mode E
     \<and> \<not> header_set (gr_meta r ''HTTP_X_FORWARDED_FOR'') \<and> \<not> header_set (gr_meta r ''HTTP_FORWARDED'')
     \<and> \<not> header_set (gr_meta r ''HTTP_VIA'')
     \<and> (case gr_meta r ''REMOTE_ADDR'' of None \<Rightarrow> False | Some a \<Rightarrow> a \<in> set LOOPBACK_IPS)"

definition gf_header :: "gf_request \<Rightarrow> string \<Rightarrow> string option" where
  "gf_header r name = gr_meta r (''HTTP_'' @ replace_char CHR ''-'' CHR ''_'' (upper name))"

definition json_header :: "gf_env \<Rightarrow> gf_request \<Rightarrow> string \<Rightarrow> json option" where
  "json_header E r name = (case gf_header r name of None \<Rightarrow> None | Some raw \<Rightarrow>
     if raw = [] then None else (case ge_loads E raw of Some JNull \<Rightarrow> None | x \<Rightarrow> x))"

definition or_default :: "'a option \<Rightarrow> 'a \<Rightarrow> 'a" where
  "or_default v d = (case v of None \<Rightarrow> d | Some x \<Rightarrow> x)"

definition bool_setting :: "gf_env \<Rightarrow> gf_request \<Rightarrow> string \<Rightarrow> string \<Rightarrow> bool \<Rightarrow> bool" where
  "bool_setting E r header_name name d =
     (case (if is_test_request E r then gf_header r header_name else None) of
        Some h \<Rightarrow> h \<notin> {''0'', ''false'', ''False'', ''''}
      | None \<Rightarrow> or_default (st_bool (ge_settings E) name) d)"

definition int_setting :: "gf_env \<Rightarrow> gf_request \<Rightarrow> string \<Rightarrow> string \<Rightarrow> int \<Rightarrow> int" where
  "int_setting E r header_name name d =
     (case (if is_test_request E r then Option.bind (gf_header r header_name) (ge_int E) else None) of
        Some i \<Rightarrow> i
      | None \<Rightarrow> or_default (st_int (ge_settings E) name) d)"

definition list_setting :: "gf_env \<Rightarrow> gf_request \<Rightarrow> string \<Rightarrow> string \<Rightarrow> string list" where
  "list_setting E r header_name name =
     (case (if is_test_request E r then gf_header r header_name else None) of
        Some h \<Rightarrow> filter (\<lambda>x. x \<noteq> []) (map strip (split_on CHR '','' h))
      | None \<Rightarrow> or_default (st_names (ge_settings E) name) [])"

definition truthy_or :: "json \<Rightarrow> json \<Rightarrow> json" where
  "truthy_or j d = (if truthy j then j else d)"

definition system_rules :: "gf_env \<Rightarrow> gf_request \<Rightarrow> json" where
  "system_rules E r =
     (case (if is_test_request E r then json_header E r ''X-Mojo-Test-Geofence-System'' else None) of
        Some o1 \<Rightarrow> truthy_or o1 (JObj [])
      | None \<Rightarrow> truthy_or (or_default (st_dict (ge_settings E) ''GEOFENCE_SYSTEM_RULES'') (JObj [])) (JObj []))"

text \<open>A group is its primary key; its metadata are those of the environment.\<close>

definition group_rules :: "gf_env \<Rightarrow> int option \<Rightarrow> json" where
  "group_rules E grp =
     (case grp of None \<Rightarrow> JObj []
      | Some g \<Rightarrow> (case map_of (ge_groups E g) ''geofence'' of None \<Rightarrow> JObj [] | Some j \<Rightarrow> truthy_or j (JObj [])))"

definition strict_posture :: "gf_env \<Rightarrow> gf_request \<Rightarrow> int option \<Rightarrow> bool" where
  "strict_posture E r grp =
     (case Option.bind grp (\<lambda>g. case map_of (ge_groups E g) ''geofence_strict'' of Some JNull \<Rightarrow> None | x \<Rightarrow> x) of
        Some override \<Rightarrow> truthy override
      | None \<Rightarrow> bool_setting E r ''X-Mojo-Test-Geofence-Strict'' ''GEOFENCE_STRICT_POSTURE'' False)"

definition both_empty :: "json \<Rightarrow> json \<Rightarrow> bool" where
  "both_empty system group_r \<longleftrightarrow> \<not> truthy system \<and> \<not> truthy group_r"

section \<open>Decisions\<close>

text \<open>An exemption by the allowlist, with what the rules would have done (\<open>None\<close> when that is unknown).\<close>

record exemption =
  ex_source :: string
  ex_reason :: json
  ex_until :: json
  ex_would_block :: "bool option"
  ex_would_reason :: "string option"

record gf_decision =
  gd_allowed :: bool
  gd_reason :: string
  gd_detail :: string
  gd_ip :: string
  gd_country :: "json option"
  gd_region :: "json option"
  gd_abuse :: "(string \<times> bool) list"
  gd_level :: "string option"
  gd_strict :: bool
  gd_exempt :: "exemption option"

definition DETAIL_MAP :: "(string \<times> string) list" where
  "DETAIL_MAP =
    [(''no_rules'', ''No geofence rules configured.''), (''disabled'', ''Geofencing is disabled.''),
     (''bypass'', ''Bypass permission granted.''), (''ip_allowlisted'', ''IP is allowlisted; geofence exemption applied.''),
     (''no_rules_strict'', ''Geofencing is required but no rules are configured; access denied.''), (''passed'', ''Allowed.''),
     (''lookup_failed'', ''Geolocation lookup failed.''), (''private_ip'', ''Private or reserved IP.''),
     (''country_not_allowed'', ''Service is not available in your country.''),
     (''region_not_allowed'', ''Service is not available in your region.''), (''tor_detected'', ''Tor traffic is not permitted.''),
     (''vpn_detected'', ''VPN traffic is not permitted.''), (''proxy_detected'', ''Proxy traffic is not permitted.''),
     (''datacenter_detected'', ''Datacenter traffic is not permitted.''),
     (''rule_invalid'', ''Geofence configuration is invalid; access denied.''),
     (''group_inactive'', ''The requested group is inactive; evaluating system rules only.'')]"

definition default_detail :: "string \<Rightarrow> string" where
  "default_detail reason = or_default (map_of DETAIL_MAP reason) []"

definition build_decision :: "bool \<Rightarrow> string \<Rightarrow> string \<Rightarrow> json \<Rightarrow> string option \<Rightarrow> string \<Rightarrow> bool \<Rightarrow> gf_decision" where
  "build_decision allowed reason ip geo level detail strict =
     \<lparr>gd_allowed = allowed, gd_reason = reason, gd_detail = (if detail = [] then default_detail reason else detail), gd_ip = ip,
      gd_country = jdict_get geo ''country_code'', gd_region = jdict_get geo ''region_code'',
      gd_abuse = map (\<lambda>f. (f, flag_of geo f)) [''tor'', ''vpn'', ''datacenter'', ''proxy''],
      gd_level = level, gd_strict = strict, gd_exempt = None\<rparr>"

definition plain_decision :: "bool \<Rightarrow> string \<Rightarrow> string \<Rightarrow> bool \<Rightarrow> gf_decision" where
  "plain_decision allowed reason ip strict = build_decision allowed reason ip (JObj []) None [] strict"

section \<open>The allowlist\<close>

text \<open>\<open>entry.get(a) or entry.get(b)\<close> on the entries of a dict\<close>

definition entry_get :: "(string \<times> json) list \<Rightarrow> string \<Rightarrow> json" where
  "entry_get m k = or_default (map_of m k) JNull"

definition entry_active :: "gf_env \<Rightarrow> (string \<times> json) list \<Rightarrow> bool" where
  "entry_active E m =
     (let until = entry_get m ''until'' in
      if \<not> truthy until then True else (case ge_parse E until of None \<Rightarrow> False | Some t \<Rightarrow> ge_now E \<le> t))"

definition entry_dict :: "json \<Rightarrow> (string \<times> json) list option" where
  "entry_dict j = (case j of JStr s \<Rightarrow> Some [(''cidr'', JStr s)] | JObj m \<Rightarrow> Some m | _ \<Rightarrow> None)"

definition entry_cidr :: "(string \<times> json) list \<Rightarrow> json" where
  "entry_cidr m = truthy_or (entry_get m ''cidr'') (entry_get m ''ip'')"

definition entry_matches :: "gf_env \<Rightarrow> json \<Rightarrow> string \<Rightarrow> (string \<times> json) list option" where
  "entry_matches E entry ip =
     (case entry_dict entry of
        None \<Rightarrow> None
      | Some m \<Rightarrow> if \<not> truthy (entry_cidr m) \<or> \<not> entry_active E m then None
                 else if ge_in_net E ip (entry_cidr m) = Some True then Some m else None)"

definition allowlist_entries :: "gf_env \<Rightarrow> gf_request \<Rightarrow> json list res" where
  "allowlist_entries E r =
     (case (if is_test_request E r then json_header E r ''X-Mojo-Test-Geofence-Allowlist'' else None) of
        Some o1 \<Rightarrow> elements (truthy_or o1 (JList []))
      | None \<Rightarrow> Inr (or_default (st_list (ge_settings E) ''GEOFENCE_ALLOWLIST'') []))"

definition opt_str :: "string option \<Rightarrow> json" where
  "opt_str v = (case v of None \<Rightarrow> JNull | Some s \<Rightarrow> JStr s)"

definition exempt_by :: "string \<Rightarrow> json \<Rightarrow> json \<Rightarrow> exemption" where
  "exempt_by source reason until =
     \<lparr>ex_source = source, ex_reason = reason, ex_until = until, ex_would_block = None, ex_would_reason = None\<rparr>"

fun first_match :: "gf_env \<Rightarrow> json list \<Rightarrow> string \<Rightarrow> exemption option" where
  "first_match E [] ip = None"
| "first_match E (entry # rest) ip =
     (case entry_matches E entry ip of
        Some m \<Rightarrow> if m = [] then first_match E rest ip
                 else Some (exempt_by ''setting'' (entry_get m ''reason'') (entry_get m ''until''))
      | None \<Rightarrow> first_match E rest ip)"

definition whitelist_active :: "gf_env \<Rightarrow> white_row \<Rightarrow> bool" where
  "whitelist_active E row \<longleftrightarrow> wl_whitelisted row \<and> \<not> (case wl_until row of None \<Rightarrow> False | Some t \<Rightarrow> ge_now E > t)"

definition whitelist_row :: "gf_env \<Rightarrow> string \<Rightarrow> exemption option" where
  "whitelist_row E ip =
     (case ge_whitelist E ip of
        Inr (Some row) \<Rightarrow> if wl_whitelisted row \<and> whitelist_active E row
          then Some (exempt_by ''geoip'' (opt_str (wl_reason row)) (opt_str (map_option isoformat (wl_until row)))) else None
      | _ \<Rightarrow> None)"

definition ip_allowlisted :: "gf_env \<Rightarrow> gf_request \<Rightarrow> string \<Rightarrow> exemption option res" where
  "ip_allowlisted E r ip =
     (if ip = [] then Inr None
      else andthen (allowlist_entries E r) (\<lambda>entries.
        case first_match E entries ip of Some x \<Rightarrow> Inr (Some x) | None \<Rightarrow> Inr (whitelist_row E ip)))"

definition ALLOWLIST_KEYS :: "string list" where
  "ALLOWLIST_KEYS = [''cidr'', ''ip'', ''reason'', ''until'']"

text \<open>\<open>parse_net c\<close>: \<open>ipaddress.ip_network\<close> accepts \<open>c\<close>. The error names the position of the entry.\<close>

definition validate_allow_entry :: "gf_env \<Rightarrow> (string \<Rightarrow> bool) \<Rightarrow> json \<Rightarrow> string option" where
  "validate_allow_entry E parse_net entry =
     (case entry_dict entry of
        None \<Rightarrow> Some '' must be a string or dict''
      | Some m \<Rightarrow>
          if \<not> set (map fst m) \<subseteq> set ALLOWLIST_KEYS then Some '': unknown keys''
          else (case (if is_str entry then entry_get m ''cidr'' else entry_cidr m) of
                  JStr c \<Rightarrow>
                    if c = [] then Some '': missing cidr''
                    else if \<not> parse_net c then Some '': invalid CIDR/IP''
                    else if entry_get m ''reason'' \<noteq> JNull \<and> \<not> is_str (entry_get m ''reason'') then Some '': reason must be a string''
                    else if entry_get m ''until'' \<noteq> JNull \<and> ge_parse E (entry_get m ''until'') = None then Some '': invalid until datetime''
                    else None
                | _ \<Rightarrow> Some '': missing cidr''))"

fun validate_allow_entries :: "gf_env \<Rightarrow> (string \<Rightarrow> bool) \<Rightarrow> nat \<Rightarrow> json list \<Rightarrow> (nat \<times> string) option" where
  "validate_allow_entries E parse_net i [] = None"
| "validate_allow_entries E parse_net i (x # xs) =
     (case validate_allow_entry E parse_net x of
        Some e \<Rightarrow> Some (i, e) | None \<Rightarrow> validate_allow_entries E parse_net (Suc i) xs)"

text \<open>\<open>validate_allowlist\<close>: \<open>None\<close> when the value is well formed, else the position and the complaint.\<close>

definition validate_allowlist :: "gf_env \<Rightarrow> (string \<Rightarrow> bool) \<Rightarrow> json \<Rightarrow> (nat \<times> string) option" where
  "validate_allowlist E parse_net entries =
     (case entries of JList xs \<Rightarrow> validate_allow_entries E parse_net 0 xs | _ \<Rightarrow> Some (0, ''must be a list''))"

section \<open>Evaluation\<close>

definition geo_dict :: "geo_row \<Rightarrow> json" where
  "geo_dict g = JObj [(''country_code'', opt_str (gw_country g)), (''region_code'', opt_str (gw_region g)),
     (''is_tor'', JBool (gw_tor g)), (''is_vpn'', JBool (gw_vpn g)), (''is_proxy'', JBool (gw_proxy g)),
     (''is_datacenter'', JBool (gw_datacenter g))]"

definition resolve_geo :: "gf_env \<Rightarrow> gf_request \<Rightarrow> string \<Rightarrow> json option" where
  "resolve_geo E r ip =
     (if is_test_request E r \<and> gf_header r ''X-Mojo-Test-Geo'' = Some ''fail'' then None
      else case (if is_test_request E r then json_header E r ''X-Mojo-Test-Geo'' else None) of
        Some g \<Rightarrow> Some g
      | None \<Rightarrow> if truthy (ge_static_geo E) then Some (ge_static_geo E)
                else (case ge_geolocate E ip of Inr (Some row) \<Rightarrow> Some (geo_dict row) | _ \<Rightarrow> None))"

fun rule_levels :: "(string \<times> json) list \<Rightarrow> json \<Rightarrow> string \<Rightarrow> bool \<Rightarrow> gf_decision res" where
  "rule_levels [] geo ip strict = Inr (build_decision True ''passed'' ip geo None [] strict)"
| "rule_levels ((level, rule) # rest) geo ip strict =
     (if \<not> truthy rule then rule_levels rest geo ip strict
      else case validate_rule rule of
        Inl e \<Rightarrow> Inr (build_decision False ''rule_invalid'' ip geo (Some level) (exn_str e) strict)
      | Inr _ \<Rightarrow> andthen (evaluate_rule rule geo) (\<lambda>v.
          case v of None \<Rightarrow> rule_levels rest geo ip strict
          | Some reason \<Rightarrow> Inr (build_decision False reason ip geo (Some level) [] strict)))"

definition fails_closed :: "gf_env \<Rightarrow> gf_request \<Rightarrow> string option \<Rightarrow> bool \<Rightarrow> bool" where
  "fails_closed E r scope strict \<longleftrightarrow>
     bool_setting E r ''X-Mojo-Test-Geofence-Fail-Closed'' ''GEOFENCE_FAIL_CLOSED'' False
     \<or> (case scope of None \<Rightarrow> False | Some s \<Rightarrow> s \<noteq> []
          \<and> s \<in> set (list_setting E r ''X-Mojo-Test-Geofence-Fail-Closed-Scopes'' ''GEOFENCE_FAIL_CLOSED_SCOPES''))
     \<or> strict"

text \<open>\<open>_evaluate\<close>; \<open>given\<close> is the location that the caller passes, \<open>None\<close> for \<open>_UNSET\<close>.\<close>

definition evaluate_geo :: "gf_env \<Rightarrow> gf_request \<Rightarrow> string \<Rightarrow> json \<Rightarrow> json \<Rightarrow> string option \<Rightarrow> json option \<Rightarrow> bool \<Rightarrow> gf_decision res" where
  "evaluate_geo E r ip system group_r scope given strict =
     (if strict \<and> both_empty system group_r then Inr (plain_decision False ''no_rules_strict'' ip True)
      else case (case given of None \<Rightarrow> resolve_geo E r ip | Some g \<Rightarrow> Some g) of
        None \<Rightarrow> Inr (plain_decision (\<not> fails_closed E r scope strict) ''lookup_failed'' ip strict)
      | Some geo \<Rightarrow> andthen (jget geo ''country_code'') (\<lambda>cc.
          if none_or_falsy cc then
            Inr (build_decision (bool_setting E r ''X-Mojo-Test-Geofence-Allow-Private'' ''GEOFENCE_ALLOW_PRIVATE_IPS'' True \<and> \<not> strict)
                  ''private_ip'' ip geo None [] strict)
          else rule_levels [(''system'', system), (''group'', group_r)] geo ip strict))"

definition allowlisted_decision :: "string \<Rightarrow> exemption \<Rightarrow> gf_decision \<Rightarrow> gf_decision" where
  "allowlisted_decision ip exempt shadow =
     shadow\<lparr>gd_allowed := True, gd_reason := ''ip_allowlisted'', gd_detail := default_detail ''ip_allowlisted'', gd_ip := ip,
       gd_level := None,
       gd_exempt := Some (if gd_reason shadow = ''lookup_failed'' then exempt\<lparr>ex_would_block := None, ex_would_reason := None\<rparr>
         else exempt\<lparr>ex_would_block := Some (\<not> gd_allowed shadow),
                     ex_would_reason := (if gd_allowed shadow then None else Some (gd_reason shadow))\<rparr>)\<rparr>"

text \<open>Steps 4b to 10 of \<open>check\<close>: what is decided when the cache has no answer\<close>

definition uncached :: "gf_env \<Rightarrow> gf_request \<Rightarrow> string \<Rightarrow> int option \<Rightarrow> string option \<Rightarrow> json option \<Rightarrow> gf_decision res" where
  "uncached E r ip grp scope given =
     andthen (ip_allowlisted E r ip) (\<lambda>exempt.
     andthen (evaluate_geo E r ip (system_rules E r) (group_rules E grp) scope given (strict_posture E r grp)) (\<lambda>shadow.
     Inr (case exempt of Some x \<Rightarrow> allowlisted_decision ip x shadow | None \<Rightarrow> shadow)))"

section \<open>State\<close>

record gf_event =
  fe_category :: string
  fe_level :: int
  fe_reason :: string
  fe_ip :: string
  fe_path :: string

record gf_state =
  gs_cache :: "string \<Rightarrow> (gf_decision \<times> rat) option"
  gs_dedupe :: "string \<Rightarrow> rat option"
  gs_metrics :: "string list"
  gs_events :: "gf_event list"

type_synonym 'a gact = "(gf_state, 'a) act"

definition cache_key :: "string \<Rightarrow> int option \<Rightarrow> string" where
  "cache_key ip grp = ''geofence:dec:'' @ ip @ '':'' @ (case grp of None \<Rightarrow> ''_'' | Some g \<Rightarrow> show_int g)"

text \<open>A value lives until its time has come; a failing connection is a miss.\<close>

definition cache_get :: "gf_env \<Rightarrow> string \<Rightarrow> int option \<Rightarrow> gf_decision option gact" where
  "cache_get E ip grp s =
     (Inr (if \<not> ge_redis E then None
           else case gs_cache s (cache_key ip grp) of Some (d, until) \<Rightarrow> if ge_now E < until then Some d else None | None \<Rightarrow> None), s)"

definition cache_set :: "gf_env \<Rightarrow> string \<Rightarrow> int option \<Rightarrow> gf_decision \<Rightarrow> int \<Rightarrow> unit gact" where
  "cache_set E ip grp d ttl s =
     (Inr (), if ge_redis E then s\<lparr>gs_cache := (gs_cache s)(cache_key ip grp := Some (d, ge_now E + of_int ttl))\<rparr> else s)"

definition maybe_cache :: "gf_env \<Rightarrow> string \<Rightarrow> int option \<Rightarrow> gf_decision \<Rightarrow> int \<Rightarrow> unit gact" where
  "maybe_cache E ip grp d ttl = (if ttl \<le> 0 then ret () else cache_set E ip grp d ttl)"

text \<open>\<open>_invalidate_pattern\<close> for the patterns \<open>p*\<close> and \<open>p*q\<close>\<close>

definition drop_keys :: "gf_env \<Rightarrow> string \<Rightarrow> string \<Rightarrow> unit gact" where
  "drop_keys E p q s =
     (Inr (), if ge_redis E
        then s\<lparr>gs_cache := (\<lambda>k. if starts_with k p \<and> ends_with (drop (length p) k) q then None else gs_cache s k)\<rparr> else s)"

definition cache_invalidate :: "gf_env \<Rightarrow> string \<Rightarrow> int option \<Rightarrow> unit gact" where
  "cache_invalidate E ip grp s = (Inr (), if ge_redis E then s\<lparr>gs_cache := (gs_cache s)(cache_key ip grp := None)\<rparr> else s)"

definition invalidate_ip :: "gf_env \<Rightarrow> string \<Rightarrow> unit gact" where
  "invalidate_ip E ip = drop_keys E (''geofence:dec:'' @ ip @ '':'') []"

definition invalidate_group :: "gf_env \<Rightarrow> int \<Rightarrow> unit gact" where
  "invalidate_group E g = drop_keys E ''geofence:dec:'' ('':'' @ show_int g)"

definition invalidate_all :: "gf_env \<Rightarrow> unit gact" where
  "invalidate_all E = drop_keys E ''geofence:dec:'' []"

section \<open>The engine\<close>

definition caller_ip :: "gf_request \<Rightarrow> string" where
  "caller_ip r = (case gr_ip r of Some (c # s) \<Rightarrow> c # s | _ \<Rightarrow> or_default (gr_meta r ''REMOTE_ADDR'') [])"

definition bypasses :: "gf_user option \<Rightarrow> bool" where
  "bypasses u \<longleftrightarrow> (case u of None \<Rightarrow> False | Some x \<Rightarrow> gu_authenticated x \<and> gu_bypass x = Inr True)"

definition geo_enabled :: "gf_env \<Rightarrow> gf_request \<Rightarrow> bool" where
  "geo_enabled E r = bool_setting E r ''X-Mojo-Test-Geofence-Enabled'' ''GEOFENCE_ENABLED'' True"

definition cache_ttl :: "gf_env \<Rightarrow> gf_request \<Rightarrow> int" where
  "cache_ttl E r = int_setting E r ''X-Mojo-Test-Geofence-Cache-Ttl'' ''GEOFENCE_CACHE_TTL'' 300"

definition lift_res :: "'a res \<Rightarrow> 'a gact" where
  "lift_res r s = (r, s)"

text \<open>A decision for a lookup that failed is not cached, unless the address is exempt.\<close>

definition decide_and_cache :: "gf_env \<Rightarrow> gf_request \<Rightarrow> string \<Rightarrow> int option \<Rightarrow> string option \<Rightarrow> gf_decision gact" where
  "decide_and_cache E r ip grp scope =
     bind (lift_res (uncached E r ip grp scope None)) (\<lambda>d.
     if gd_reason d = ''lookup_failed'' then ret d
     else seqs (maybe_cache E ip grp d (cache_ttl E r)) (ret d))"

definition gf_check :: "gf_env \<Rightarrow> gf_request \<Rightarrow> int option \<Rightarrow> gf_user option \<Rightarrow> string option \<Rightarrow> gf_decision gact" where
  "gf_check E r grp user scope =
     (let ip = caller_ip r; u = (case user of None \<Rightarrow> gr_user r | Some x \<Rightarrow> Some x) in
      if \<not> geo_enabled E r then ret (plain_decision True ''disabled'' ip False)
      else if bypasses u then ret (plain_decision True ''bypass'' ip False)
      else if both_empty (system_rules E r) (group_rules E grp) \<and> \<not> strict_posture E r grp
        then ret (plain_decision True ''no_rules'' ip False)
      else bind (if cache_ttl E r > 0 then cache_get E ip grp else ret None) (\<lambda>cached.
        case cached of Some d \<Rightarrow> ret d | None \<Rightarrow> decide_and_cache E r ip grp scope))"

text \<open>The answer carries whether the geofence is enabled.\<close>

definition simulate :: "gf_env \<Rightarrow> gf_request \<Rightarrow> string option \<Rightarrow> json option \<Rightarrow> int option \<Rightarrow> string option \<Rightarrow> (bool \<times> gf_decision) res" where
  "simulate E r ip geo grp scope =
     (let ip = or_default ip [] in
      if both_empty (system_rules E r) (group_rules E grp) \<and> \<not> strict_posture E r grp
      then Inr (geo_enabled E r, plain_decision True ''no_rules'' ip False)
      else andthen (uncached E r ip grp scope geo) (\<lambda>d. Inr (geo_enabled E r, d)))"

section \<open>Evidence\<close>

definition DEDUPE_TTL :: rat where
  "DEDUPE_TTL = 3600"

definition ABUSE_REASONS :: "string list" where
  "ABUSE_REASONS = [''tor_detected'', ''vpn_detected'', ''proxy_detected'', ''datacenter_detected'']"

definition dedupe_wins :: "gf_env \<Rightarrow> string \<Rightarrow> string \<Rightarrow> bool gact" where
  "dedupe_wins E ip reason s =
     (let k = ''geofence:evt:'' @ ip @ '':'' @ reason in
      if \<not> ge_redis E then (Inr True, s)
      else case gs_dedupe s k of
        Some until \<Rightarrow> if ge_now E < until then (Inr False, s) else (Inr True, s\<lparr>gs_dedupe := (gs_dedupe s)(k := Some (ge_now E + DEDUPE_TTL))\<rparr>)
      | None \<Rightarrow> (Inr True, s\<lparr>gs_dedupe := (gs_dedupe s)(k := Some (ge_now E + DEDUPE_TTL))\<rparr>))"

definition count_metrics :: "gf_env \<Rightarrow> string list \<Rightarrow> unit gact" where
  "count_metrics E ms s = (if ge_metrics E then (Inr (), s\<lparr>gs_metrics := gs_metrics s @ ms\<rparr>) else (Inl (ServiceError ''metrics''), s))"

definition report_event :: "gf_env \<Rightarrow> gf_event \<Rightarrow> unit gact" where
  "report_event E e s = (if ge_reporter E then (Inr (), s\<lparr>gs_events := gs_events s @ [e]\<rparr>) else (Inl (ServiceError ''reporter''), s))"

definition code_slug :: "string \<Rightarrow> json option \<Rightarrow> string list" where
  "code_slug p v = (case v of Some (JStr s) \<Rightarrow> if s = [] then [] else [p @ s] | _ \<Rightarrow> [])"

text \<open>The slugs of a block; that of the account of a group is marked with its account.\<close>

definition block_metrics :: "gf_decision \<Rightarrow> int option \<Rightarrow> string list" where
  "block_metrics d grp =
     [''geofence:blocks''] @ code_slug ''geofence:blocks:country:'' (gd_country d) @ code_slug ''geofence:blocks:region:'' (gd_region d)
     @ (case grp of None \<Rightarrow> [] | Some g \<Rightarrow> [''group-'' @ show_int g @ ''/geofence:blocks''])"

definition scope_fails_closed :: "gf_env \<Rightarrow> gf_request \<Rightarrow> string option \<Rightarrow> bool" where
  "scope_fails_closed E r scope \<longleftrightarrow> (case scope of None \<Rightarrow> False | Some s \<Rightarrow> s \<noteq> []
     \<and> s \<in> set (list_setting E r ''X-Mojo-Test-Geofence-Fail-Closed-Scopes'' ''GEOFENCE_FAIL_CLOSED_SCOPES''))"

definition block_level :: "gf_env \<Rightarrow> gf_request \<Rightarrow> gf_decision \<Rightarrow> string option \<Rightarrow> int" where
  "block_level E r d scope =
     (if gd_reason d = ''rule_invalid'' then 7
      else if gd_reason d = ''lookup_failed'' \<and> gd_allowed d then 6
      else if gd_reason d \<in> set ABUSE_REASONS \<or> gd_strict d \<or> scope_fails_closed E r scope then 5
      else 3)"

definition report_block :: "gf_env \<Rightarrow> gf_request \<Rightarrow> int option \<Rightarrow> gf_decision \<Rightarrow> string option \<Rightarrow> unit gact" where
  "report_block E r grp d scope = attempt
     (seqs (if gd_allowed d then ret () else attempt (count_metrics E (block_metrics d grp)))
     (bind (dedupe_wins E (gd_ip d) (gd_reason d)) (\<lambda>wins.
      if \<not> wins then ret ()
      else report_event E \<lparr>fe_category = ''geofence_block'', fe_level = block_level E r d scope, fe_reason = gd_reason d,
             fe_ip = gd_ip d, fe_path = gr_path r\<rparr>)))"

definition report_exempt :: "gf_env \<Rightarrow> gf_request \<Rightarrow> int option \<Rightarrow> gf_decision \<Rightarrow> unit gact" where
  "report_exempt E r grp d = attempt
     (seqs (count_metrics E ([''geofence:exempt''] @ (case grp of None \<Rightarrow> [] | Some g \<Rightarrow> [''group-'' @ show_int g @ ''/geofence:exempt''])))
     (bind (dedupe_wins E (gd_ip d) (gd_reason d)) (\<lambda>wins.
      if \<not> wins then ret ()
      else report_event E \<lparr>fe_category = ''geofence_exempt'', fe_level = 3, fe_reason = gd_reason d, fe_ip = gd_ip d, fe_path = gr_path r\<rparr>)))"

section \<open>Enforcement\<close>

text \<open>The answer to a blocked request\<close>

definition blocked_body :: "gf_decision \<Rightarrow> json" where
  "blocked_body d = JObj [(''error'', JStr ''geofence_blocked''), (''code'', JInt 403), (''reason'', JStr (gd_reason d)),
     (''detail'', JStr (gd_detail d))]"

definition would_have_blocked :: "gf_decision \<Rightarrow> bool" where
  "would_have_blocked d \<longleftrightarrow> (case gd_exempt d of None \<Rightarrow> False | Some x \<Rightarrow> ex_would_block x = Some True)"

definition enforce :: "gf_env \<Rightarrow> gf_request \<Rightarrow> int option \<Rightarrow> gf_user option \<Rightarrow> string option \<Rightarrow> json option gact" where
  "enforce E r grp user scope =
     bind (gf_check E r grp user scope) (\<lambda>d.
     if gd_allowed d then
       seqs (if gd_reason d = ''lookup_failed'' then report_block E r grp d scope
             else if gd_reason d = ''ip_allowlisted'' \<and> would_have_blocked d then report_exempt E r grp d
             else ret ())
            (ret None)
     else seqs (report_block E r grp d scope) (ret (Some (blocked_body d))))"

text \<open>The wrapper of \<open>requires_geofence\<close>: a blocked answer, or that of the view\<close>

definition requires_geofence :: "gf_env \<Rightarrow> gf_request \<Rightarrow> int option \<Rightarrow> string option \<Rightarrow> bool \<Rightarrow> 'a gact \<Rightarrow> (json + 'a) gact" where
  "requires_geofence E r grp scope after_auth view =
     (if after_auth then bind view (\<lambda>x. ret (Inr x))
      else bind (enforce E r grp None scope) (\<lambda>blocked.
        case blocked of Some b \<Rightarrow> ret (Inl b) | None \<Rightarrow> bind view (\<lambda>x. ret (Inr x))))"

section \<open>The configuration plane\<close>

definition report_config_change :: "gf_env \<Rightarrow> string \<Rightarrow> unit gact" where
  "report_config_change E target = attempt
     (report_event E \<lparr>fe_category = ''geofence_config'', fe_level = 3, fe_reason = target, fe_ip = [], fe_path = []\<rparr>)"

definition GEOFENCE_KEYS :: "string list" where
  "GEOFENCE_KEYS = [''GEOFENCE_SYSTEM_RULES'', ''GEOFENCE_ALLOWLIST'', ''GEOFENCE_STRICT_POSTURE'', ''GEOFENCE_ENABLED'',
     ''GEOFENCE_FAIL_CLOSED'', ''GEOFENCE_FAIL_CLOSED_SCOPES'', ''GEOFENCE_ALLOW_PRIVATE_IPS'', ''GEOFENCE_CACHE_TTL'']"

text \<open>The hook of a saved setting, global when it has no group\<close>

definition setting_saved :: "gf_env \<Rightarrow> string \<Rightarrow> int option \<Rightarrow> unit gact" where
  "setting_saved E key grp = (if grp \<noteq> None \<or> key \<notin> set GEOFENCE_KEYS then ret () else invalidate_all E)"

text \<open>The validators of the settings: what a value must be to be saved under a key\<close>

definition valid_setting :: "gf_env \<Rightarrow> (string \<Rightarrow> bool) \<Rightarrow> string \<Rightarrow> json \<Rightarrow> bool" where
  "valid_setting E parse_net key v \<longleftrightarrow>
     (if key = ''GEOFENCE_SYSTEM_RULES'' then validate_rule v = Inr ()
      else if key = ''GEOFENCE_ALLOWLIST'' then validate_allowlist E parse_net v = None
      else if key \<in> {''GEOFENCE_STRICT_POSTURE'', ''GEOFENCE_ENABLED'', ''GEOFENCE_FAIL_CLOSED'', ''GEOFENCE_ALLOW_PRIVATE_IPS''}
        then (case v of JBool b \<Rightarrow> True | _ \<Rightarrow> False)
      else if key = ''GEOFENCE_CACHE_TTL'' then (case v of JInt i \<Rightarrow> 0 \<le> i | _ \<Rightarrow> False)
      else if key = ''GEOFENCE_FAIL_CLOSED_SCOPES''
        then (case v of JList xs \<Rightarrow> list_all (\<lambda>x. case x of JStr s \<Rightarrow> strip s \<noteq> [] | _ \<Rightarrow> False) xs | _ \<Rightarrow> False)
      else True)"

definition set_system_rules :: "json option \<Rightarrow> gf_env \<Rightarrow> gf_env" where
  "set_system_rules v E = E\<lparr>ge_settings := (ge_settings E)\<lparr>st_dict := (st_dict (ge_settings E))(''GEOFENCE_SYSTEM_RULES'' := v)\<rparr>\<rparr>"

definition set_allowlist :: "json list \<Rightarrow> gf_env \<Rightarrow> gf_env" where
  "set_allowlist xs E = E\<lparr>ge_settings := (ge_settings E)\<lparr>st_list := (st_list (ge_settings E))(''GEOFENCE_ALLOWLIST'' := Some xs)\<rparr>\<rparr>"

text \<open>\<open>POST geo/rules\<close>, \<open>DELETE geo/rules\<close> (back to the value \<open>conf\<close> of the deployment) and \<open>POST geo/allowlist\<close>: the
  configuration afterwards\<close>

definition on_geo_rules_post :: "gf_env \<Rightarrow> json option \<Rightarrow> gf_env gact" where
  "on_geo_rules_post E rule =
     (case rule of
        None \<Rightarrow> throw (ValueError ''rule is required'')
      | Some JNull \<Rightarrow> throw (ValueError ''rule is required'')
      | Some (JObj m) \<Rightarrow>
          (case validate_rule (JObj m) of
             Inl e \<Rightarrow> throw (ValueError (exn_str e))
           | Inr _ \<Rightarrow> (let E' = set_system_rules (Some (JObj m)) E in
               seqs (setting_saved E' ''GEOFENCE_SYSTEM_RULES'' None) (seqs (report_config_change E' ''system'') (ret E'))))
      | Some _ \<Rightarrow> throw (ValueError ''rule must be a dict''))"

definition on_geo_rules_delete :: "gf_env \<Rightarrow> json option \<Rightarrow> gf_env gact" where
  "on_geo_rules_delete E conf =
     (let E' = set_system_rules conf E in
      seqs (setting_saved E' ''GEOFENCE_SYSTEM_RULES'' None) (seqs (report_config_change E' ''system'') (ret E')))"

definition on_geo_allowlist_post :: "gf_env \<Rightarrow> (string \<Rightarrow> bool) \<Rightarrow> json option \<Rightarrow> gf_env gact" where
  "on_geo_allowlist_post E parse_net entries =
     (case entries of
        None \<Rightarrow> throw (ValueError ''entries is required (a list; may be empty)'')
      | Some JNull \<Rightarrow> throw (ValueError ''entries is required (a list; may be empty)'')
      | Some (JList xs) \<Rightarrow>
          (case validate_allowlist E parse_net (JList xs) of
             Some (i, m) \<Rightarrow> throw (ValueError m)
           | None \<Rightarrow> (let E' = set_allowlist xs E in
               seqs (setting_saved E' ''GEOFENCE_ALLOWLIST'' None) (seqs (report_config_change E' ''allowlist'') (ret E'))))
      | Some _ \<Rightarrow> throw (ValueError ''entries must be a list''))"

end
