(* ===== verification/Geofence_Laws.thy ===== *)
theory Geofence_Laws
  imports Geofence_Engine
begin

text \<open>
  What the geofence guarantees: the engine always answers, whatever rules are configured; group rules and
  the strict posture only tighten; a blocked request does not reach its view; and in every state that is
  reached by requests, edits of settings, groups and whitelist rows and the passing of time a decision
  that is served from the cache is the one that the present configuration gives.
\<close>

section \<open>The engine answers\<close>

lemma decision_fields [simp]:
  "gd_allowed (build_decision a reason ip geo level detail strict) = a" "gd_allowed (plain_decision a reason ip strict) = a"
  "gd_reason (build_decision a reason ip geo level detail strict) = reason" "gd_reason (plain_decision a reason ip strict) = reason"
  "gd_level (build_decision a reason ip geo level detail strict) = level" "gd_level (plain_decision a reason ip strict) = None"
  by (simp_all add: plain_decision_def build_decision_def)

declare rule_levels.simps(2) [simp del]

text \<open>What one rule does at its level: nothing, a decision, or an exception of the matcher.\<close>

definition level_outcome :: "string \<Rightarrow> json \<Rightarrow> json \<Rightarrow> string \<Rightarrow> bool \<Rightarrow> gf_decision option res" where
  "level_outcome level rule geo ip strict =
     (if \<not> truthy rule then Inr None
      else case validate_rule rule of
        Inl e \<Rightarrow> Inr (Some (build_decision False ''rule_invalid'' ip geo (Some level) (exn_str e) strict))
      | Inr _ \<Rightarrow> andthen (evaluate_rule rule geo) (\<lambda>v.
          Inr (map_option (\<lambda>reason. build_decision False reason ip geo (Some level) [] strict) v)))"

lemma rule_levels_outcome:
  "rule_levels ((level, rule) # rest) geo ip strict =
    andthen (level_outcome level rule geo ip strict) (\<lambda>o1. case o1 of Some d \<Rightarrow> Inr d | None \<Rightarrow> rule_levels rest geo ip strict)"
  by (auto simp: rule_levels.simps level_outcome_def andthen_def split: sum.splits option.splits)

lemma outcome_blocks:
  "level_outcome level rule geo ip strict = Inr (Some d) \<Longrightarrow> \<not> gd_allowed d \<and> gd_level d = Some level \<and> truthy rule"
  by (auto simp: level_outcome_def build_decision_def andthen_ok split: if_splits sum.splits)

lemma outcome_strict:
  "level_outcome level rule geo ip strict' = andthen (level_outcome level rule geo ip strict)
     (\<lambda>o1. Inr (map_option (\<lambda>d. d\<lparr>gd_strict := strict'\<rparr>) o1))"
  by (auto simp: level_outcome_def build_decision_def andthen_def option.map_comp comp_def split: sum.splits)

lemma outcome_returns: "geo_ok geo \<Longrightarrow> returns (level_outcome level rule geo ip strict)"
  using valid_rule_evaluates [of rule _ geo] by (auto simp: level_outcome_def returns_def split: sum.splits)

lemma rule_levels_returns: "geo_ok geo \<Longrightarrow> returns (rule_levels rs geo ip strict)"
proof (induction rs)
  case (Cons p rs)
  then show ?case
    by (cases p) (auto simp: rule_levels_outcome intro!: returns_andthen outcome_returns split: option.splits)
qed simp

lemma evaluate_returns:
  assumes "\<And>geo. (case given of None \<Rightarrow> resolve_geo E r ip | Some g \<Rightarrow> Some g) = Some geo \<Longrightarrow> geo_ok geo"
  shows "returns (evaluate_geo E r ip system group_r scope given strict)"
proof (cases "case given of None \<Rightarrow> resolve_geo E r ip | Some g \<Rightarrow> Some g")
  case (Some geo)
  with assms have ok: "geo_ok geo" by simp
  then obtain m where "geo = JObj m" by (auto simp: geo_ok_def split: json.splits)
  with Some rule_levels_returns [OF ok] show ?thesis by (auto simp: evaluate_geo_def intro!: returns_andthen)
qed (simp add: evaluate_geo_def)

text \<open>Without test mode the location is that of the deployment's override or of the geolocation table.\<close>

lemma geo_dict_ok: "geo_ok (geo_dict row)"
  by (auto simp: geo_ok_def geo_dict_def code_ok_def opt_str_def split: option.splits)

lemma resolved_geo_ok:
  assumes "\<not> is_test_request E r" and "truthy (ge_static_geo E) \<Longrightarrow> geo_ok (ge_static_geo E)" and "resolve_geo E r ip = Some geo"
  shows "geo_ok geo"
  using assms geo_dict_ok by (auto simp: resolve_geo_def split: if_splits sum.splits option.splits)

lemma allowlisted_returns: "\<not> is_test_request E r \<Longrightarrow> returns (ip_allowlisted E r ip)"
  by (auto simp: ip_allowlisted_def allowlist_entries_def split: option.splits)

lemma uncached_returns:
  assumes "\<not> is_test_request E r" and "truthy (ge_static_geo E) \<Longrightarrow> geo_ok (ge_static_geo E)" and "\<And>g. given = Some g \<Longrightarrow> geo_ok g"
  shows "returns (uncached E r ip grp scope given)"
  unfolding uncached_def
  by (intro returns_andthen allowlisted_returns evaluate_returns)
    (use assms resolved_geo_ok in \<open>auto split: option.splits\<close>)

lemma check_returns:
  assumes "\<not> is_test_request E r" and "truthy (ge_static_geo E) \<Longrightarrow> geo_ok (ge_static_geo E)"
  shows "\<exists>d s'. gf_check E r grp user scope s = (Inr d, s')"
proof -
  have "returns (uncached E r (caller_ip r) grp scope None)" using assms by (intro uncached_returns) auto
  then obtain d where "uncached E r (caller_ip r) grp scope None = Inr d" by (auto simp: returns_def)
  then have "\<exists>d s'. decide_and_cache E r (caller_ip r) grp scope s = (Inr d, s')"
    by (simp add: decide_and_cache_def act_defs lift_res_def maybe_cache_def cache_set_def)
  then show ?thesis
    by (auto simp: gf_check_def Let_def act_defs cache_get_def split: option.splits)
qed

text \<open>
  C32: the engine always answers: whatever JSON the settings and the group's metadata hold as rules, a
  request in production gets a decision, and a rule that is malformed blocks when it is reached.
\<close>

theorem check_always_answers:
  assumes "\<not> is_test_request E r" and "truthy (ge_static_geo E) \<longrightarrow> geo_ok (ge_static_geo E)"
  shows "(\<exists>d s'. gf_check E r grp user scope s = (Inr d, s'))
    \<and> (\<forall>e. validate_rule rule = Inl e \<and> truthy rule \<longrightarrow>
      rule_levels ((level, rule) # rest) geo ip strict = Inr (build_decision False ''rule_invalid'' ip geo (Some level) (exn_str e) strict))"
  using check_returns [OF assms(1)] assms(2) by (auto simp: rule_levels.simps)

section \<open>Only tighter\<close>

text \<open>
  The strict posture only tightens: an address that is let in under it is let in without it, for the
  same rules and the same location.
\<close>

theorem strict_only_tightens:
  assumes "evaluate_geo E r ip system group_r scope given True = Inr d" and "gd_allowed d"
  shows "\<exists>d'. evaluate_geo E r ip system group_r scope given False = Inr d' \<and> gd_allowed d'"
proof -
  have levels: "rule_levels rs geo ip True = Inr x \<Longrightarrow> gd_allowed x \<Longrightarrow> \<exists>y. rule_levels rs geo ip False = Inr y \<and> gd_allowed y"
    for rs geo x
  proof (induction rs)
    case Nil
    then show ?case by (simp add: build_decision_def)
  next
    case (Cons p rs)
    obtain level rule where p: "p = (level, rule)" by force
    from Cons.prems have out: "level_outcome level rule geo ip True = Inr None" and rest: "rule_levels rs geo ip True = Inr x"
      using outcome_blocks [of level rule geo ip True x]
      by (cases "level_outcome level rule geo ip True"; cases "projr (level_outcome level rule geo ip True)"; simp add: p rule_levels_outcome)+
    from out have "level_outcome level rule geo ip False = Inr None" by (simp add: outcome_strict [of level rule geo ip False True])
    with Cons.IH [OF rest Cons.prems(2)] show ?case by (simp add: p rule_levels_outcome)
  qed
  show ?thesis
  proof (cases "case given of None \<Rightarrow> resolve_geo E r ip | Some g \<Rightarrow> Some g")
    case None
    with assms show ?thesis
      by (auto simp: evaluate_geo_def fails_closed_def split: if_splits)
  next
    case (Some geo)
    with assms obtain cc where cc: "\<not> both_empty system group_r" "jget geo ''country_code'' = Inr cc" "\<not> none_or_falsy cc"
      and lv: "rule_levels [(''system'', system), (''group'', group_r)] geo ip True = Inr d"
      by (auto simp: evaluate_geo_def andthen_ok split: if_splits)
    from levels [OF lv assms(2)] cc Some show ?thesis by (simp add: evaluate_geo_def)
  qed
qed

lemma levels_system_first:
  assumes "rule_levels [(''system'', system), (''group'', g0)] geo ip strict = Inr d" and "gd_level d = Some ''system''"
  shows "level_outcome ''system'' system geo ip strict = Inr (Some d)"
proof -
  from assms(1) obtain o1 where o1: "level_outcome ''system'' system geo ip strict = Inr o1"
    "(case o1 of Some d \<Rightarrow> Inr d | None \<Rightarrow> rule_levels [(''group'', g0)] geo ip strict) = Inr d"
    by (auto simp: rule_levels_outcome andthen_ok)
  have "o1 \<noteq> None"
  proof
    assume "o1 = None"
    with o1(2) obtain o2 where "level_outcome ''group'' g0 geo ip strict = Inr o2"
      "(case o2 of Some d \<Rightarrow> Inr d | None \<Rightarrow> Inr (build_decision True ''passed'' ip geo None [] strict)) = (Inr d :: gf_decision res)"
      by (auto simp: rule_levels_outcome andthen_ok cong: option.case_cong)
    with assms(2) outcome_blocks [of "''group''" g0 geo ip strict d] show False
      by (auto simp: build_decision_def split: option.splits)
  qed
  with o1 show ?thesis by auto
qed

text \<open>
  C18: the system rules are a floor: an address that they block without a group stays blocked, for the
  same reason, whatever rules or posture a group declares, and the group cannot bring in an exemption.
\<close>

theorem system_rules_are_a_floor:
  assumes "uncached E r ip None scope given = Inr d" and "gd_level d = Some ''system''"
  shows "\<exists>d'. uncached E r ip (Some g) scope given = Inr d' \<and> \<not> gd_allowed d' \<and> gd_reason d' = gd_reason d
    \<and> gd_level d' = Some ''system''"
proof -
  from assms(1) obtain exempt shadow where
    ex: "ip_allowlisted E r ip = Inr exempt" and
    ev: "evaluate_geo E r ip (system_rules E r) (group_rules E None) scope given (strict_posture E r None) = Inr shadow" and
    d: "d = (case exempt of Some x \<Rightarrow> allowlisted_decision ip x shadow | None \<Rightarrow> shadow)"
    by (auto simp: uncached_def andthen_ok)
  from d assms(2) have none: "exempt = None" "shadow = d" by (auto simp: allowlisted_decision_def split: option.splits)
  with ev assms(2) obtain geo cc where
    geo: "(case given of None \<Rightarrow> resolve_geo E r ip | Some g \<Rightarrow> Some g) = Some geo" "jget geo ''country_code'' = Inr cc" "\<not> none_or_falsy cc"
    and levels: "rule_levels [(''system'', system_rules E r), (''group'', group_rules E None)] geo ip (strict_posture E r None) = Inr d"
    by (auto simp: evaluate_geo_def andthen_ok split: if_splits option.splits)
  note sys = levels_system_first [OF levels assms(2)]
  let ?d = "d\<lparr>gd_strict := strict_posture E r (Some g)\<rparr>"
  from outcome_blocks [OF sys] have t: "truthy (system_rules E r)" "\<not> gd_allowed d" by auto
  have "rule_levels [(''system'', system_rules E r), (''group'', group_rules E (Some g))] geo ip (strict_posture E r (Some g)) = Inr ?d"
    using outcome_strict [of "''system''" "system_rules E r" geo ip "strict_posture E r (Some g)" "strict_posture E r None"] sys
    by (simp add: rule_levels_outcome)
  with geo t ex none assms(2) have "uncached E r ip (Some g) scope given = Inr ?d"
    by (simp add: uncached_def evaluate_geo_def both_empty_def)
  with t assms(2) show ?thesis by simp
qed

section \<open>The cache\<close>

text \<open>The key of a decision names its address and its group.\<close>

lemma show_int_not_under: "show_int i \<noteq> ''_''"
proof
  assume "show_int i = ''_''"
  then have "CHR ''_'' \<in> set (show_nat (nat i))" by (auto simp: show_int_def split: if_splits)
  from show_nat_digits [OF this] is_digit_not show False by auto
qed

lemma after_last_sep:
  fixes c :: char
  assumes "a @ c # x = b @ c # y" and "c \<notin> set x" and "c \<notin> set y"
  shows "a = b \<and> x = y"
proof -
  have "x = last (split_on c (a @ c # x))" "y = last (split_on c (b @ c # y))" using assms(2,3) by (simp_all add: last_split_on)
  with assms(1) show ?thesis by simp
qed

lemma cache_key_inj: "cache_key ip grp = cache_key ip' grp' \<longleftrightarrow> ip = ip' \<and> grp = grp'"
proof
  let ?t = "\<lambda>g. case g of None \<Rightarrow> ''_'' | Some i \<Rightarrow> show_int i"
  assume "cache_key ip grp = cache_key ip' grp'"
  then have "ip @ CHR '':'' # ?t grp = ip' @ CHR '':'' # ?t grp'" by (simp add: cache_key_def)
  from after_last_sep [OF this] have "ip = ip'" "?t grp = ?t grp'"
    using show_int_no_colon by (auto split: option.splits)
  then show "ip = ip' \<and> grp = grp'" using show_int_not_under show_int_inj
    by (auto split: option.splits dest: sym)
qed simp

lemma cache_key_prefix: "starts_with (cache_key ip grp) ''geofence:dec:''"
  by (simp add: cache_key_def starts_with_def)

definition production :: "gf_env \<Rightarrow> bool" where
  "production E \<longleftrightarrow> \<not> ge_test_mode E \<and> ge_redis E"

lemma production_settings:
  assumes "production E"
  shows "\<not> is_test_request E r" and "system_rules E r = system_rules E r'" and "strict_posture E r grp = strict_posture E r' grp"
    and "cache_ttl E r = cache_ttl E r'" and "bool_setting E r h n d = bool_setting E r' h n d" and "ip_allowlisted E r ip = ip_allowlisted E r' ip"
    and "resolve_geo E r ip = resolve_geo E r' ip" and "geo_enabled E r = geo_enabled E r'"
  using assms by (auto simp: production_def is_test_request_def system_rules_def strict_posture_def bool_setting_def
      cache_ttl_def int_setting_def ip_allowlisted_def allowlist_entries_def resolve_geo_def geo_enabled_def cong: option.case_cong)

text \<open>Only a failed lookup depends on the scope of the endpoint.\<close>

lemma evaluate_scope:
  assumes "production E" and "evaluate_geo E r ip sy gr scope given strict = Inr d"
  shows "gd_reason d = ''lookup_failed'' \<longrightarrow> (\<exists>a. d = plain_decision a ''lookup_failed'' ip strict)
      \<and> (\<exists>a. evaluate_geo E r' ip sy gr scope' given strict = Inr (plain_decision a ''lookup_failed'' ip strict))"
    and "gd_reason d \<noteq> ''lookup_failed'' \<longrightarrow> evaluate_geo E r' ip sy gr scope' given strict = Inr d"
proof -
  have no: "gd_reason d \<noteq> ''lookup_failed''" if "rule_levels rs geo ip strict = Inr d" for rs geo
    using that
  proof (induction rs)
    case (Cons p rs)
    obtain l rule where p: "p = (l, rule)" by force
    have "evaluate_rule rule geo = Inr (Some r) \<Longrightarrow> r \<noteq> ''lookup_failed''" for r
    proof -
      have "abuse_loop m g = Inr (Some r) \<Longrightarrow> ends_with r ''_detected''" for m g
        by (induction m g rule: abuse_loop.induct) (auto simp: andthen_ok Let_def split: if_splits)
      then show "evaluate_rule rule geo = Inr (Some r) \<Longrightarrow> r \<noteq> ''lookup_failed''"
        by (auto simp: evaluate_rule_def first_reason_def abuse_verdict_def location_verdict_def andthen_ok ends_with_def
            split: if_splits option.splits)
    qed
    then show ?case using Cons
      by (auto simp: p rule_levels_outcome level_outcome_def andthen_ok split: if_splits sum.splits option.splits)
  qed auto
  from assms(2) show "gd_reason d = ''lookup_failed'' \<longrightarrow> (\<exists>a. d = plain_decision a ''lookup_failed'' ip strict)
      \<and> (\<exists>a. evaluate_geo E r' ip sy gr scope' given strict = Inr (plain_decision a ''lookup_failed'' ip strict))"
    using no production_settings(7) [OF assms(1), of r ip r']
    by (auto simp: evaluate_geo_def andthen_ok split: if_splits option.splits)
  from assms(2) show "gd_reason d \<noteq> ''lookup_failed'' \<longrightarrow> evaluate_geo E r' ip sy gr scope' given strict = Inr d"
    using production_settings(7) [OF assms(1), of r ip r'] production_settings(5) [OF assms(1), of r _ _ _ r']
    by (auto simp: evaluate_geo_def andthen_ok split: if_splits option.splits)
qed

lemma uncached_scope:
  assumes "production E" and "uncached E r ip grp scope None = Inr d" and "gd_reason d \<noteq> ''lookup_failed''"
  shows "uncached E r' ip grp scope' None = Inr d"
proof -
  note P = production_settings [OF assms(1)]
  from assms(2) obtain exempt shadow where
    ex: "ip_allowlisted E r ip = Inr exempt" and
    ev: "evaluate_geo E r ip (system_rules E r) (group_rules E grp) scope None (strict_posture E r grp) = Inr shadow" and
    d: "d = (case exempt of Some x \<Rightarrow> allowlisted_decision ip x shadow | None \<Rightarrow> shadow)"
    by (auto simp: uncached_def andthen_ok)
  show ?thesis
  proof (cases "gd_reason shadow = ''lookup_failed''")
    case True
    with d assms(3) obtain x where x: "exempt = Some x" by (auto split: option.splits)
    from evaluate_scope(1) [OF assms(1) ev, of r' scope'] True obtain a a' where
      s': "shadow = plain_decision a ''lookup_failed'' ip (strict_posture E r grp)"
        "evaluate_geo E r' ip (system_rules E r) (group_rules E grp) scope' None (strict_posture E r grp)
          = Inr (plain_decision a' ''lookup_failed'' ip (strict_posture E r grp))"
      by auto
    have "allowlisted_decision ip x (plain_decision a' ''lookup_failed'' ip (strict_posture E r grp)) = allowlisted_decision ip x shadow"
      by (simp add: s'(1) allowlisted_decision_def plain_decision_def build_decision_def)
    with s' ex d x show ?thesis
      by (simp add: uncached_def P(2) [of r' r] P(3) [of r' _ r] P(6) [of r' _ r])
  next
    case False
    from evaluate_scope(2) [OF assms(1) ev, of r' scope'] False ex d show ?thesis
      by (simp add: uncached_def P(2) [of r' r] P(3) [of r' _ r] P(6) [of r' _ r])
  qed
qed

text \<open>
  A running installation: requests are decided, settings, groups and whitelist rows are edited, each with
  the invalidation that its save performs, and time passes. What the geolocation table says of an address
  does not change, and Redis answers.
\<close>

inductive gf_step :: "gf_env \<times> gf_state \<Rightarrow> gf_env \<times> gf_state \<Rightarrow> bool" where
  gf_request: "gf_step (E, s) (E, snd (enforce E r grp user scope s))"
| gf_settings: "gf_step (E, s) (E\<lparr>ge_settings := S\<rparr>, snd (invalidate_all E s))"
| gf_group: "gf_step (E, s) (E\<lparr>ge_groups := (ge_groups E)(g := md)\<rparr>, snd (invalidate_group E g s))"
| gf_whitelist: "gf_step (E, s) (E\<lparr>ge_whitelist := (ge_whitelist E)(ip := row)\<rparr>, snd (invalidate_ip E ip s))"
| gf_tick: "ge_now E \<le> t \<Longrightarrow> gf_step (E, s) (E\<lparr>ge_now := t\<rparr>, s)"

inductive_simps gf_step_iff: "gf_step (E, s) y"

text \<open>An entry is what the present configuration decided for its address and group at an earlier time.\<close>

definition entry_current :: "gf_env \<Rightarrow> string \<Rightarrow> int option \<Rightarrow> gf_decision \<Rightarrow> rat \<Rightarrow> bool" where
  "entry_current E ip grp d until \<longleftrightarrow> gd_reason d \<noteq> ''lookup_failed''
     \<and> (\<exists>t r scope. t \<le> ge_now E \<and> until \<le> t + of_int (cache_ttl E r) \<and> uncached (E\<lparr>ge_now := t\<rparr>) r ip grp scope None = Inr d)"

definition cache_current :: "gf_env \<Rightarrow> gf_state \<Rightarrow> bool" where
  "cache_current E s \<longleftrightarrow> production E
     \<and> (\<forall>k d until. gs_cache s k = Some (d, until) \<longrightarrow> (\<exists>ip grp. k = cache_key ip grp \<and> entry_current E ip grp d until))"

lemma cache_current_cong: "gs_cache s' = gs_cache s \<Longrightarrow> cache_current E s \<Longrightarrow> cache_current E s'"
  by (simp add: cache_current_def)

lemma cache_currentD:
  "cache_current E s \<Longrightarrow> gs_cache s k = Some (d, until) \<Longrightarrow> \<exists>ip grp. k = cache_key ip grp \<and> entry_current E ip grp d until"
  by (simp add: cache_current_def)

lemma current_decide:
  assumes "cache_current E s"
  shows "cache_current E (snd (decide_and_cache E r ip grp scope s))"
proof (cases "uncached E r ip grp scope None")
  case (Inr d)
  then have "gd_reason d \<noteq> ''lookup_failed'' \<Longrightarrow> entry_current E ip grp d (ge_now E + of_int (cache_ttl E r))"
    by (auto simp: entry_current_def intro!: exI [of _ "ge_now E"] exI [of _ r] exI [of _ scope])
  with assms Inr show ?thesis
    by (auto simp: decide_and_cache_def act_defs lift_res_def maybe_cache_def cache_set_def cache_current_def production_def)
qed (use assms in \<open>simp add: decide_and_cache_def act_defs lift_res_def\<close>)

lemma keeps_current_evidence [keeps_intro]:
  "keeps (cache_current E) (dedupe_wins E' ip reason)" "keeps (cache_current E) (count_metrics E' ms)" "keeps (cache_current E) (report_event E' e)"
  by (auto simp: keeps_def dedupe_wins_def count_metrics_def report_event_def Let_def intro: cache_current_cong split: option.splits)

lemma keeps_current_enforce: "keeps (cache_current E) (enforce E r grp user scope)"
proof -
  have decide: "keeps (cache_current E) (decide_and_cache E r ip grp scope)" for ip grp scope
    by (simp add: keeps_def current_decide)
  have get: "keeps (cache_current E) (cache_get E ip grp)" for ip grp
    by (simp add: keeps_def cache_get_def)
  show ?thesis
    unfolding enforce_def gf_check_def report_block_def report_exempt_def Let_def
    by (auto intro!: keeps_intro decide get split: option.splits)
qed

text \<open>Which parts of the configuration a decision rests on.\<close>

lemma first_match_frame:
  "ge_parse E' = ge_parse E \<Longrightarrow> ge_now E' = ge_now E \<Longrightarrow> ge_in_net E' = ge_in_net E \<Longrightarrow> first_match E' xs ip = first_match E xs ip"
  by (induction xs) (auto simp: entry_matches_def entry_active_def Let_def split: option.split)

lemma settings_frame:
  assumes "ge_test_mode E' = ge_test_mode E" and "ge_settings E' = ge_settings E" and "ge_loads E' = ge_loads E" and "ge_int E' = ge_int E"
  shows "is_test_request E' r = is_test_request E r" "bool_setting E' r h n d = bool_setting E r h n d" "system_rules E' r = system_rules E r"
    "cache_ttl E' r = cache_ttl E r" "allowlist_entries E' r = allowlist_entries E r" "fails_closed E' r scope strict = fails_closed E r scope strict"
  unfolding is_test_request_def bool_setting_def system_rules_def cache_ttl_def int_setting_def
    allowlist_entries_def fails_closed_def list_setting_def json_header_def assms by (rule refl)+

lemma uncached_frame:
  assumes "ge_test_mode E' = ge_test_mode E" and "ge_settings E' = ge_settings E" and "ge_loads E' = ge_loads E" and "ge_int E' = ge_int E"
    and "ge_parse E' = ge_parse E" and "ge_now E' = ge_now E" and "ge_in_net E' = ge_in_net E" and "ge_whitelist E' ip = ge_whitelist E ip"
    and "ge_static_geo E' = ge_static_geo E" and "ge_geolocate E' = ge_geolocate E"
    and "\<And>g. grp = Some g \<Longrightarrow> ge_groups E' g = ge_groups E g"
  shows "uncached E' r ip grp scope given = uncached E r ip grp scope given"
proof -
  note F = settings_frame [OF assms(1-4)]
  have "group_rules E' grp = group_rules E grp \<and> strict_posture E' r grp = strict_posture E r grp"
  proof (cases grp)
    case (Some g)
    then have "ge_groups E' g = ge_groups E g" by (rule assms(11))
    with Some show ?thesis by (simp add: group_rules_def strict_posture_def F cong: option.case_cong)
  qed (simp add: group_rules_def strict_posture_def F)
  then have G: "group_rules E' grp = group_rules E grp" "strict_posture E' r grp = strict_posture E r grp" by simp_all
  have R: "resolve_geo E' r ip = resolve_geo E r ip"
    unfolding resolve_geo_def json_header_def F assms(3,9,10) by (rule refl)
  have A: "ip_allowlisted E' r ip = ip_allowlisted E r ip"
    unfolding ip_allowlisted_def whitelist_row_def whitelist_active_def F(5) assms(6,8) first_match_frame [OF assms(5-7)] by (rule refl)
  show ?thesis unfolding uncached_def evaluate_geo_def F G R A by (rule refl)
qed

lemma entry_current_frame:
  assumes "entry_current E ip grp d until"
    and "ge_test_mode E' = ge_test_mode E" and "ge_settings E' = ge_settings E" and "ge_loads E' = ge_loads E" and "ge_int E' = ge_int E"
    and "ge_parse E' = ge_parse E" and "ge_now E \<le> ge_now E'" and "ge_in_net E' = ge_in_net E" and "ge_whitelist E' ip = ge_whitelist E ip"
    and "ge_static_geo E' = ge_static_geo E" and "ge_geolocate E' = ge_geolocate E"
    and "\<And>g. grp = Some g \<Longrightarrow> ge_groups E' g = ge_groups E g"
  shows "entry_current E' ip grp d until"
proof -
  from assms(1) obtain t r scope where t: "gd_reason d \<noteq> ''lookup_failed''" "t \<le> ge_now E" "until \<le> t + of_int (cache_ttl E r)"
    "uncached (E\<lparr>ge_now := t\<rparr>) r ip grp scope None = Inr d" by (auto simp: entry_current_def)
  have "uncached (E'\<lparr>ge_now := t\<rparr>) r ip grp scope None = uncached (E\<lparr>ge_now := t\<rparr>) r ip grp scope None"
    by (rule uncached_frame) (use assms in auto)
  with t assms(7) settings_frame(4) [OF assms(2-5), of r] show ?thesis
    unfolding entry_current_def by (intro conjI exI [of _ t] exI [of _ r] exI [of _ scope]) auto
qed

lemma current_step: "gf_step x y \<Longrightarrow> cache_current (fst x) (snd x) \<Longrightarrow> cache_current (fst y) (snd y)"
proof (induction rule: gf_step.induct)
  case (gf_request E s r grp user scope)
  then show ?case using keeps_snd [OF keeps_current_enforce] by simp
next
  case (gf_settings E s S)
  have "gs_cache (snd (invalidate_all E s)) k = None" for k
  proof (cases "gs_cache s k")
    case (Some p)
    with gf_settings obtain ip grp where "k = cache_key ip grp" by (cases p) (auto dest: cache_currentD)
    with gf_settings cache_key_prefix [of ip grp] show ?thesis
      by (simp add: cache_current_def production_def invalidate_all_def drop_keys_def ends_with_def)
  qed (use gf_settings in \<open>simp add: cache_current_def production_def invalidate_all_def drop_keys_def\<close>)
  with gf_settings show ?case by (simp add: cache_current_def production_def)
next
  case (gf_group E s g md)
  show ?case
    unfolding cache_current_def fst_conv snd_conv
  proof (intro conjI allI impI)
    fix k d until assume k: "gs_cache (snd (invalidate_group E g s)) k = Some (d, until)"
    with gf_group have old: "gs_cache s k = Some (d, until)" and keep: "\<not> (starts_with k ''geofence:dec:'' \<and> ends_with (drop (length ''geofence:dec:'') k) ('':'' @ show_int g))"
      by (auto simp: invalidate_group_def drop_keys_def cache_current_def production_def split: if_splits)
    from old gf_group obtain ip grp where e: "k = cache_key ip grp" "entry_current E ip grp d until" by (auto dest: cache_currentD)
    have "grp \<noteq> Some g"
      using keep cache_key_prefix [of ip grp] by (auto simp: e(1) cache_key_def ends_with_iff)
    then have "entry_current (E\<lparr>ge_groups := (ge_groups E)(g := md)\<rparr>) ip grp d until"
      by (intro entry_current_frame [OF e(2)]) auto
    with e(1) show "\<exists>ip grp. k = cache_key ip grp \<and> entry_current (E\<lparr>ge_groups := (ge_groups E)(g := md)\<rparr>) ip grp d until" by blast
  qed (use gf_group in \<open>simp add: cache_current_def production_def\<close>)
next
  case (gf_whitelist E s ip row)
  show ?case
    unfolding cache_current_def fst_conv snd_conv
  proof (intro conjI allI impI)
    fix k d until assume k: "gs_cache (snd (invalidate_ip E ip s)) k = Some (d, until)"
    with gf_whitelist have old: "gs_cache s k = Some (d, until)" and keep: "\<not> starts_with k (''geofence:dec:'' @ ip @ '':'')"
      by (auto simp: invalidate_ip_def drop_keys_def cache_current_def production_def ends_with_def split: if_splits)
    from old gf_whitelist obtain ip' grp where e: "k = cache_key ip' grp" "entry_current E ip' grp d until" by (auto dest: cache_currentD)
    have "ip' \<noteq> ip" using keep by (auto simp: e(1) cache_key_def starts_with_iff)
    then have "entry_current (E\<lparr>ge_whitelist := (ge_whitelist E)(ip := row)\<rparr>) ip' grp d until"
      by (intro entry_current_frame [OF e(2)]) auto
    with e(1) show "\<exists>ip' grp. k = cache_key ip' grp \<and> entry_current (E\<lparr>ge_whitelist := (ge_whitelist E)(ip := row)\<rparr>) ip' grp d until" by blast
  qed (use gf_whitelist in \<open>simp add: cache_current_def production_def\<close>)
next
  case (gf_tick E t s)
  show ?case
    unfolding cache_current_def fst_conv snd_conv
  proof (intro conjI allI impI)
    fix k d until assume "gs_cache s k = Some (d, until)"
    with gf_tick obtain ip grp where e: "k = cache_key ip grp" "entry_current E ip grp d until" by (auto dest: cache_currentD)
    have "entry_current (E\<lparr>ge_now := t\<rparr>) ip grp d until" by (intro entry_current_frame [OF e(2)]) (use gf_tick in auto)
    with e(1) show "\<exists>ip grp. k = cache_key ip grp \<and> entry_current (E\<lparr>ge_now := t\<rparr>) ip grp d until" by blast
  qed (use gf_tick in \<open>simp add: cache_current_def production_def\<close>)
qed


section \<open>Enforcement\<close>

lemma cache_of_evidence [simp]:
  "gs_cache (snd (dedupe_wins E ip reason s)) = gs_cache s" "gs_cache (snd (count_metrics E ms s)) = gs_cache s" "gs_cache (snd (report_event E e s)) = gs_cache s"
  "gs_metrics (snd (dedupe_wins E ip reason s)) = gs_metrics s" "gs_metrics (snd (report_event E e s)) = gs_metrics s"
  by (auto simp: dedupe_wins_def count_metrics_def report_event_def Let_def split: option.splits)

lemma report_block_effect:
  "\<exists>s'. report_block E r grp d scope s = (Inr (), s') \<and> gs_cache s' = gs_cache s
    \<and> gs_metrics s' = gs_metrics s @ (if \<not> gd_allowed d \<and> ge_metrics E then block_metrics d grp else [])"
  by (auto simp: report_block_def act_defs dedupe_wins_def count_metrics_def report_event_def Let_def split: option.splits)

text \<open>
  The fence stands before the view: a blocked request gets the answer 403 with the reason and the
  detail only, is counted, and the view is not run on it; a request that is let in gets what the view
  answers.
\<close>

theorem fence_guards_view:
  assumes "gf_check E r grp None scope s = (Inr d, s1)"
  shows "if gd_allowed d
    then \<exists>s2. requires_geofence E r grp scope False view s = bind view (\<lambda>x. ret (Inr x)) s2 \<and> gs_cache s2 = gs_cache s1
    else \<exists>s2. requires_geofence E r grp scope False view s = (Inr (Inl (blocked_body d)), s2) \<and> gs_cache s2 = gs_cache s1
      \<and> (ge_metrics E \<longrightarrow> gs_metrics s2 = gs_metrics s1 @ block_metrics d grp)"
proof -
  obtain sb where sb: "report_block E r grp d scope s1 = (Inr (), sb)" "gs_cache sb = gs_cache s1"
    "gs_metrics sb = gs_metrics s1 @ (if \<not> gd_allowed d \<and> ge_metrics E then block_metrics d grp else [])"
    using report_block_effect [of E r grp d scope s1] by blast
  have "\<exists>se. report_exempt E r grp d s1 = (Inr (), se) \<and> gs_cache se = gs_cache s1"
    by (auto simp: report_exempt_def act_defs dedupe_wins_def count_metrics_def report_event_def Let_def split: option.splits)
  then obtain se where se: "report_exempt E r grp d s1 = (Inr (), se)" "gs_cache se = gs_cache s1" by blast
  have run: "requires_geofence E r grp scope False view s =
      (if gd_allowed d then bind view (\<lambda>x. ret (Inr x)) (if gd_reason d = ''lookup_failed'' then sb
          else if gd_reason d = ''ip_allowlisted'' \<and> would_have_blocked d then se else s1)
       else (Inr (Inl (blocked_body d)), sb))"
    by (simp add: requires_geofence_def enforce_def bind_def [of "gf_check E r grp None scope"] bind_def [of "bind _ _"] assms seqs_def)
      (simp add: bind_def sb(1) se(1) ret_def)
  show ?thesis using run sb se by auto
qed

text \<open>
  Evidence is kept once an hour for each address and reason, while every block is counted.
\<close>

theorem evidence_deduped:
  assumes "ge_redis E" and "report_block E r grp d scope s = (Inr (), s1)" and "ge_reporter E"
    and "gs_dedupe s2 = gs_dedupe s1" and "ge_redis E'" and "ge_now E \<le> ge_now E'" and "ge_now E' < ge_now E + 3600"
    and "gd_ip d' = gd_ip d" and "gd_reason d' = gd_reason d"
    and "gs_dedupe s (''geofence:evt:'' @ gd_ip d @ '':'' @ gd_reason d) = None"
  shows "gs_events s1 = gs_events s @ [\<lparr>fe_category = ''geofence_block'', fe_level = block_level E r d scope,
      fe_reason = gd_reason d, fe_ip = gd_ip d, fe_path = gr_path r\<rparr>]"
    and "gs_events (snd (report_block E' r' grp' d' scope' s2)) = gs_events s2"
  using assms by (auto simp: report_block_def act_defs dedupe_wins_def count_metrics_def report_event_def Let_def DEDUPE_TTL_def split: if_splits)

section \<open>Simulation\<close>

text \<open>
  The what-if evaluation tells what enforcement decides: on a cache miss a request without the bypass
  gets the decision that simulating its own address gives.
\<close>

theorem simulate_predicts_check:
  assumes "geo_enabled E r" and "\<not> bypasses (case user of None \<Rightarrow> gr_user r | Some x \<Rightarrow> Some x)"
    and "cache_get E (caller_ip r) grp s = (Inr None, s)"
  shows "fst (gf_check E r grp user scope s) = andthen (simulate E r (Some (caller_ip r)) None grp scope) (\<lambda>p. Inr (snd p))"
  using assms
  by (cases "uncached E r (caller_ip r) grp scope None")
    (auto simp: gf_check_def simulate_def Let_def or_default_def act_defs lift_res_def decide_and_cache_def maybe_cache_def cache_set_def
      split: option.splits)

section \<open>Configuration\<close>

text \<open>
  A rule that the configuration plane accepts never blocks as malformed, and a refused one changes
  nothing.
\<close>

theorem posted_rules_are_valid:
  "(\<exists>E' s' m. on_geo_rules_post E rule s = (Inr E', s') \<and> rule = Some (JObj m) \<and> validate_rule (JObj m) = Inr ()
      \<and> st_dict (ge_settings E') ''GEOFENCE_SYSTEM_RULES'' = rule
      \<and> (\<forall>k. ge_redis E \<longrightarrow> starts_with k ''geofence:dec:'' \<longrightarrow> gs_cache s' k = None))
    \<or> (\<exists>e. on_geo_rules_post E rule s = (Inl e, s))"
proof (cases rule)
  case (Some j)
  show ?thesis
  proof (cases j)
    case (JObj m)
    show ?thesis
    proof (cases "validate_rule j")
      case (Inr u)
      have "\<exists>s'. on_geo_rules_post E rule s = (Inr (set_system_rules (Some j) E), s')
          \<and> (\<forall>k. ge_redis E \<longrightarrow> starts_with k ''geofence:dec:'' \<longrightarrow> gs_cache s' k = None)"
        using Inr by (auto simp: on_geo_rules_post_def Some JObj setting_saved_def GEOFENCE_KEYS_def invalidate_all_def drop_keys_def
            report_config_change_def report_event_def act_defs ends_with_def set_system_rules_def Let_def simp del: validate_rule.simps)
      with Inr Some JObj show ?thesis by (auto simp: set_system_rules_def simp del: validate_rule.simps)
    qed (simp add: on_geo_rules_post_def Some JObj throw_def del: validate_rule.simps)
  qed (simp_all add: on_geo_rules_post_def Some throw_def)
qed (simp add: on_geo_rules_post_def throw_def)

section \<open>Examples\<close>

definition gf_ex :: gf_env where
  "gf_ex = \<lparr>ge_test_mode = False,
     ge_settings = \<lparr>st_bool = \<lambda>_. None, st_int = \<lambda>_. None, st_names = \<lambda>_. None, st_list = \<lambda>_. None,
       st_dict = (\<lambda>_. Some (JObj [(''country'', JObj [(''in'', JList [JStr ''US''])])]))\<rparr>,
     ge_static_geo = JObj [], ge_groups = \<lambda>_. [], ge_loads = \<lambda>_. None, ge_int = \<lambda>_. None,
     ge_geolocate = (\<lambda>ip. Inr (Some \<lparr>gw_country = Some ''fr'', gw_region = None, gw_tor = False, gw_vpn = False, gw_proxy = False,
       gw_datacenter = False\<rparr>)),
     ge_whitelist = \<lambda>_. Inr None, ge_parse = \<lambda>_. None, ge_in_net = \<lambda>_ _. None, ge_now = 0, ge_redis = True, ge_metrics = True,
     ge_reporter = True\<rparr>"

definition gf_req :: gf_request where
  "gf_req = \<lparr>gr_meta = \<lambda>_. None, gr_ip = Some ''9.9.9.9'', gr_user = None, gr_path = ''/x''\<rparr>"

definition gf_start :: gf_state where
  "gf_start = \<lparr>gs_cache = Map.empty, gs_dedupe = Map.empty, gs_metrics = [], gs_events = []\<rparr>"

lemma gf_ex_simps [simp]:
  "is_test_request gf_ex r = False" "system_rules gf_ex r = JObj [(''country'', JObj [(''in'', JList [JStr ''US''])])]"
  "group_rules gf_ex grp = JObj []" "strict_posture gf_ex r grp = False" "caller_ip gf_req = ''9.9.9.9''"
  "geo_enabled gf_ex r = True" "cache_ttl gf_ex r = 300" "bypasses None = False" "gr_user gf_req = None"
  by (auto simp: gf_ex_def is_test_request_def system_rules_def or_default_def truthy_or_def group_rules_def strict_posture_def
      bool_setting_def caller_ip_def gf_req_def geo_enabled_def cache_ttl_def int_setting_def bypasses_def split: option.split)

definition gf_ex_decision :: gf_decision where
  "gf_ex_decision = build_decision False ''country_not_allowed'' ''9.9.9.9'' (geo_dict \<lparr>gw_country = Some ''fr'', gw_region = None,
     gw_tor = False, gw_vpn = False, gw_proxy = False, gw_datacenter = False\<rparr>) (Some ''system'') [] False"

lemma gf_ex_geo: "resolve_geo gf_ex r ip = Some (geo_dict \<lparr>gw_country = Some ''fr'', gw_region = None,
     gw_tor = False, gw_vpn = False, gw_proxy = False, gw_datacenter = False\<rparr>)"
  by (simp add: resolve_geo_def) (simp add: gf_ex_def)

lemma gf_ex_uncached: "uncached gf_ex gf_req ''9.9.9.9'' grp scope None = Inr gf_ex_decision"
proof -
  have a: "ip_allowlisted gf_ex gf_req ''9.9.9.9'' = Inr None"
    by (simp add: ip_allowlisted_def allowlist_entries_def) (simp add: gf_ex_def or_default_def whitelist_row_def)
  have l: "level_outcome ''system'' (JObj [(''country'', JObj [(''in'', JList [JStr ''US''])])]) (geo_dict \<lparr>gw_country = Some ''fr'', gw_region = None,
     gw_tor = False, gw_vpn = False, gw_proxy = False, gw_datacenter = False\<rparr>) ''9.9.9.9'' False = Inr (Some gf_ex_decision)"
  proof -
    have "upper ''fr'' = ''FR''" "upper ''US'' = ''US''" by code_simp+
    then show ?thesis
      by (simp add: level_outcome_def validate_entry_def VALID_TOP_KEYS_def VALID_OPS_def evaluate_rule_def first_reason_def
          location_verdict_def none_or_falsy_def code_of_def geo_dict_def opt_str_def gf_ex_decision_def)
  qed
  from a l show ?thesis
    by (simp add: uncached_def evaluate_geo_def both_empty_def gf_ex_geo rule_levels_outcome) (simp add: geo_dict_def opt_str_def none_or_falsy_def rule_levels_outcome)
qed

lemma gf_ex_check: "\<exists>s'. gf_check gf_ex gf_req grp None scope gf_start = (Inr gf_ex_decision, s')"
  by (simp add: gf_check_def Let_def both_empty_def cache_get_def gf_start_def act_defs decide_and_cache_def lift_res_def gf_ex_uncached
      maybe_cache_def cache_set_def)


theorem check_always_answers_witness:
  "\<exists>d s'. gf_check (gf_ex\<lparr>ge_groups := \<lambda>_. [(''geofence'', JInt 7)]\<rparr>) gf_req (Some 1) None None gf_start = (Inr d, s')"
  by (rule conjunct1 [OF check_always_answers]) (simp_all add: is_test_request_def gf_ex_def)

theorem system_rules_are_a_floor_witness:
  "\<exists>d'. uncached gf_ex gf_req ''9.9.9.9'' (Some 4) None None = Inr d' \<and> \<not> gd_allowed d'"
  using system_rules_are_a_floor [OF gf_ex_uncached] by (auto simp: gf_ex_decision_def)

theorem strict_only_tightens_witness:
  "\<exists>d'. evaluate_geo gf_ex gf_req ''9.9.9.9'' (JObj [(''abuse'', JObj [(''tor'', JBool False)])]) (JObj []) None None False = Inr d' \<and> gd_allowed d'"
proof (rule strict_only_tightens)
  show "evaluate_geo gf_ex gf_req ''9.9.9.9'' (JObj [(''abuse'', JObj [(''tor'', JBool False)])]) (JObj []) None None True
      = Inr (build_decision True ''passed'' ''9.9.9.9'' (geo_dict \<lparr>gw_country = Some ''fr'', gw_region = None,
     gw_tor = False, gw_vpn = False, gw_proxy = False, gw_datacenter = False\<rparr>) None [] True)"
    by (simp add: evaluate_geo_def both_empty_def gf_ex_geo rule_levels_outcome level_outcome_def validate_entry_def VALID_TOP_KEYS_def
        VALID_ABUSE_KEYS_def evaluate_rule_def first_reason_def location_verdict_def abuse_verdict_def none_or_falsy_def)
      (simp add: geo_dict_def opt_str_def none_or_falsy_def rule_levels_outcome level_outcome_def validate_entry_def VALID_TOP_KEYS_def
        VALID_ABUSE_KEYS_def evaluate_rule_def first_reason_def location_verdict_def abuse_verdict_def)
qed simp

theorem fence_guards_view_witness:
  "\<exists>s2. requires_geofence gf_ex gf_req None None False (ret True) gf_start = (Inr (Inl (blocked_body gf_ex_decision)), s2)
    \<and> hd (rev (gs_metrics s2)) = ''geofence:blocks:country:fr''"
proof -
  obtain s1 where c: "gf_check gf_ex gf_req None None None gf_start = (Inr gf_ex_decision, s1)" using gf_ex_check by blast
  have "ge_metrics gf_ex" "\<not> gd_allowed gf_ex_decision" "block_metrics gf_ex_decision None = [''geofence:blocks'', ''geofence:blocks:country:fr'']"
    by (simp_all add: gf_ex_def gf_ex_decision_def) (simp add: block_metrics_def build_decision_def geo_dict_def opt_str_def code_slug_def)
  with fence_guards_view [OF c, of "ret True"] show ?thesis by auto
qed

end
