(* ===== verification/Py_Url.thy ===== *)
theory Py_Url
  imports Py_Strings
begin

text \<open>
  \<open>urllib.parse.urlsplit\<close> and the fields of its result, on ASCII text: what the modelled code uses to
  read redirect addresses, resource addresses and client identities. \<open>ip6\<close> stands for the test of a
  bracketed host by the module \<open>ipaddress\<close>. The normalization check of non-ASCII hosts is left out.
\<close>

section \<open>Splitting helpers\<close>

text \<open>\<open>s.partition(c)\<close> and \<open>s.rpartition(c)\<close>, the separator as whether it was found\<close>

definition partition_at :: "char \<Rightarrow> string \<Rightarrow> string \<times> bool \<times> string" where
  "partition_at c s = (case split_first c s of None \<Rightarrow> (s, False, []) | Some (a, b) \<Rightarrow> (a, True, b))"

definition rpartition_at :: "char \<Rightarrow> string \<Rightarrow> string \<times> bool \<times> string" where
  "rpartition_at c s = (case split_last c s of None \<Rightarrow> ([], False, s) | Some (a, b) \<Rightarrow> (a, True, b))"

definition is_ascii :: "char \<Rightarrow> bool" where
  "is_ascii c \<longleftrightarrow> (of_char c :: nat) < 128"

definition is_printable :: "char \<Rightarrow> bool" where
  "is_printable c \<longleftrightarrow> 32 \<le> (of_char c :: nat) \<and> (of_char c :: nat) < 127"

definition is_alpha :: "char \<Rightarrow> bool" where
  "is_alpha c \<longleftrightarrow> is_upper c \<or> is_lower c"

definition scheme_char :: "char \<Rightarrow> bool" where
  "scheme_char c \<longleftrightarrow> is_alpha c \<or> is_digit c \<or> c \<in> {CHR ''+'', CHR ''-'', CHR ''.''}"

section \<open>urlsplit\<close>

record url_parts =
  u_scheme :: string
  u_netloc :: string
  u_path :: string
  u_query :: string
  u_fragment :: string

text \<open>Leading control characters and spaces, and every tab and line break, are removed first.\<close>

definition url_clean :: "string \<Rightarrow> string" where
  "url_clean s = filter (\<lambda>c. (of_char c :: nat) \<notin> {9, 10, 13}) (dropWhile (\<lambda>c. (of_char c :: nat) \<le> 32) s)"

definition split_scheme :: "string \<Rightarrow> string \<times> string" where
  "split_scheme s =
     (case split_first CHR '':'' s of
        Some (a, b) \<Rightarrow> if a \<noteq> [] \<and> is_alpha (hd a) \<and> list_all scheme_char a then (lower a, b) else ([], s)
      | None \<Rightarrow> ([], s))"

definition netloc_end :: "char \<Rightarrow> bool" where
  "netloc_end c \<longleftrightarrow> c \<in> {CHR ''/'', CHR ''?'', CHR ''#''}"

text \<open>The host part of a network location with a bracket\<close>

definition brackets_ok :: "(string \<Rightarrow> bool) \<Rightarrow> string \<Rightarrow> bool" where
  "brackets_ok ip6 netloc \<longleftrightarrow>
     (CHR ''['' \<in> set netloc \<longleftrightarrow> CHR '']'' \<in> set netloc)
     \<and> (CHR ''['' \<in> set netloc \<longrightarrow>
          (case partition_at CHR ''['' (snd (snd (rpartition_at CHR ''@'' netloc))) of
             (ahead, True, bracketed) \<Rightarrow>
               ahead = [] \<and> (case partition_at CHR '']'' bracketed of
                 (host, _, port) \<Rightarrow> (port = [] \<or> hd port = CHR '':'') \<and> ip6 host)
           | (host, False, _) \<Rightarrow> ip6 (fst (partition_at CHR '':'' host))))"

definition urlsplit :: "(string \<Rightarrow> bool) \<Rightarrow> string \<Rightarrow> url_parts option" where
  "urlsplit ip6 s =
     (case split_scheme (url_clean s) of (scheme, rest) \<Rightarrow>
      let (netloc, url) =
            (if starts_with rest ''//'' then (takeWhile (\<lambda>c. \<not> netloc_end c) (drop 2 rest), dropWhile (\<lambda>c. \<not> netloc_end c) (drop 2 rest))
             else ([], rest));
          (url, _, fragment) = partition_at CHR ''#'' url;
          (url, _, query) = partition_at CHR ''?'' url
      in if brackets_ok ip6 netloc
         then Some \<lparr>u_scheme = scheme, u_netloc = netloc, u_path = url, u_query = query, u_fragment = fragment\<rparr>
         else None)"

section \<open>Fields\<close>

definition userinfo :: "url_parts \<Rightarrow> string option \<times> string option" where
  "userinfo u =
     (case rpartition_at CHR ''@'' (u_netloc u) of
        (info, True, _) \<Rightarrow> (case partition_at CHR '':'' info of (name, has, pw) \<Rightarrow> (Some name, if has then Some pw else None))
      | _ \<Rightarrow> (None, None))"

definition hostinfo :: "url_parts \<Rightarrow> string \<times> string" where
  "hostinfo u =
     (let info = snd (snd (rpartition_at CHR ''@'' (u_netloc u))) in
      case partition_at CHR ''['' info of
        (_, True, bracketed) \<Rightarrow> (case partition_at CHR '']'' bracketed of (host, _, port) \<Rightarrow> (host, snd (snd (partition_at CHR '':'' port))))
      | (_, False, _) \<Rightarrow> (case partition_at CHR '':'' info of (host, _, port) \<Rightarrow> (host, port)))"

text \<open>\<open>parts.hostname or ""\<close>\<close>

definition u_hostname :: "url_parts \<Rightarrow> string" where
  "u_hostname u =
     (case partition_at CHR ''%'' (fst (hostinfo u)) of (host, has, zone) \<Rightarrow>
      lower host @ (if has then CHR ''%'' # zone else []))"

text \<open>\<open>parts.port\<close>: \<open>None\<close> when it raises\<close>

definition u_port :: "url_parts \<Rightarrow> int option option" where
  "u_port u =
     (let p = snd (hostinfo u) in
      if p = [] then Some None
      else if list_all is_digit p \<and> read_digits p \<le> 65535 then Some (Some (int (read_digits p)))
      else None)"

definition has_text :: "string option \<Rightarrow> bool" where
  "has_text v \<longleftrightarrow> v \<noteq> None \<and> v \<noteq> Some []"

text \<open>\<open>urlunsplit\<close> of an address with a network location\<close>

definition urlunsplit :: "url_parts \<Rightarrow> string" where
  "urlunsplit u =
     (let url = (if u_netloc u \<noteq> []
            then ''//'' @ u_netloc u @ (if u_path u \<noteq> [] \<and> hd (u_path u) \<noteq> CHR ''/'' then CHR ''/'' # u_path u else u_path u) else u_path u);
          url = (if u_scheme u \<noteq> [] then u_scheme u @ '':'' @ url else url);
          url = (if u_query u \<noteq> [] then url @ ''?'' @ u_query u else url)
      in if u_fragment u \<noteq> [] then url @ ''#'' @ u_fragment u else url)"

lemma urlsplit_examples:
  "urlsplit (\<lambda>_. True) ''http://u:p@Host.x:80/a/b?q=1#f'' = Some \<lparr>u_scheme = ''http'', u_netloc = ''u:p@Host.x:80'', u_path = ''/a/b'', u_query = ''q=1'', u_fragment = ''f''\<rparr>"
  "map_option u_hostname (urlsplit (\<lambda>_. True) ''HTTPS://[::1]:8080/cb'') = Some ''::1''"
  "map_option u_path (urlsplit (\<lambda>_. True) ''https://x.y/api/assistant/mcp'') = Some ''/api/assistant/mcp''"
  by code_simp+

end
