(* ===== verification/OAuth_Clients.thy ===== *)
theory OAuth_Clients
  imports Py_Url Geofence_Rules
begin

text \<open>
  The resources and the clients of the authorization server
  (\<open>services/oauth_server/resources.py\<close>, \<open>clients.py\<close>): the registry of protected paths and what an
  entry covers, the rules for redirect addresses, dynamic registration, and the clients that are named
  by the address of their own metadata document. The database answers; its rows are lists in the state.
  Documents are fetched by a parameter, paths are unquoted and quoted by parameters.
\<close>

section \<open>Results\<close>

text \<open>The exceptions of the server; the last three are raised by the consent page and the endpoints.\<close>

datatype oauth_error =
    TokenError string string
  | ClientError string string
  | RotationLost
  | BadValue string
  | DuplicateRow
  | RenderedError string
  | RedirectableError string string
  | Denied string

section \<open>Resources\<close>

text \<open>\<open>re_enabled\<close> is what the switch of the entry answers, \<open>None\<close> when it raises.\<close>

record resource_entry =
  re_path :: string
  re_scopes :: "string list"
  re_enabled :: "bool option"
  re_prefix :: bool

type_synonym registry = "resource_entry list"

definition API_SCOPE :: string where
  "API_SCOPE = ''api''"

definition DEFAULT_SCOPE :: string where
  "DEFAULT_SCOPE = ''mcp''"

definition strip_char :: "char \<Rightarrow> string \<Rightarrow> string" where
  "strip_char c s = rev (dropWhile (\<lambda>x. x = c) (rev (dropWhile (\<lambda>x. x = c) s)))"

definition rstrip_char :: "char \<Rightarrow> string \<Rightarrow> string" where
  "rstrip_char c s = rev (dropWhile (\<lambda>x. x = c) (rev s))"

text \<open>\<open>d[path] = entry\<close> keeps the place of an entry that is there.\<close>

definition store_entry :: "resource_entry \<Rightarrow> registry \<Rightarrow> registry" where
  "store_entry e reg =
     (if \<exists>x \<in> set reg. re_path x = re_path e then map (\<lambda>x. if re_path x = re_path e then e else x) reg else reg @ [e])"

definition register_resource :: "registry \<Rightarrow> string \<Rightarrow> string list \<Rightarrow> bool option \<Rightarrow> bool \<Rightarrow> oauth_error + registry" where
  "register_resource reg path scopes enabled subtree =
     (if \<not> starts_with path ''/'' then Inl (BadValue ''resource path must be an absolute request path'')
      else if subtree \<and> strip_char CHR ''/'' path = [] then Inl (BadValue ''a prefix resource may not be registered at the site root'')
      else if subtree \<and> API_SCOPE \<notin> set scopes then Inl (BadValue ''a prefix resource must offer the api scope'')
      else if \<not> subtree \<and> API_SCOPE \<in> set scopes then Inl (BadValue ''the api scope is reserved for prefix resources'')
      else Inr (store_entry \<lparr>re_path = path, re_scopes = scopes, re_enabled = enabled, re_prefix = subtree\<rparr> reg))"

definition unregister_resource :: "registry \<Rightarrow> string \<Rightarrow> registry" where
  "unregister_resource reg path = filter (\<lambda>e. re_path e \<noteq> path) reg"

definition resolve_resource :: "registry \<Rightarrow> string \<Rightarrow> resource_entry option" where
  "resolve_resource reg path = find (\<lambda>e. re_path e = path) reg"

definition resource_enabled :: "resource_entry option \<Rightarrow> bool" where
  "resource_enabled e \<longleftrightarrow> (case e of None \<Rightarrow> False | Some x \<Rightarrow> re_enabled x = Some True)"

definition enabled_resources :: "registry \<Rightarrow> resource_entry list" where
  "enabled_resources reg = filter (\<lambda>e. resource_enabled (Some e)) reg"

definition covers_path :: "resource_entry \<Rightarrow> string option \<Rightarrow> bool" where
  "covers_path e request_path =
     (case request_path of
        None \<Rightarrow> False
      | Some p \<Rightarrow> if p = [] then False
                 else if p = re_path e then True
                 else if \<not> re_prefix e then False
                 else starts_with p (rstrip_char CHR ''/'' (re_path e) @ ''/''))"

definition offered_scopes :: "registry \<Rightarrow> string list" where
  "offered_scopes reg = foldl (\<lambda>found s. if s \<in> set found then found else found @ [s]) [] (concat (map re_scopes (enabled_resources reg)))"

definition canonical_url :: "string \<Rightarrow> string \<Rightarrow> string" where
  "canonical_url origin path = origin @ path"

definition resource_path :: "(string \<Rightarrow> bool) \<Rightarrow> string \<Rightarrow> string" where
  "resource_path ip6 url = (if url = [] then [] else case urlsplit ip6 url of None \<Rightarrow> [] | Some u \<Rightarrow> u_path u)"

definition is_ready :: "registry \<Rightarrow> string \<Rightarrow> bool" where
  "is_ready reg origin \<longleftrightarrow> origin \<noteq> [] \<and> enabled_resources reg \<noteq> []"

section \<open>State\<close>

record ouser =
  ou_active :: bool
  ou_key :: string

record oclient =
  oc_pk :: int
  oc_id :: string
  oc_kind :: string
  oc_name :: string
  oc_uris :: "string list"
  oc_metadata :: "(string \<times> string) list"
  oc_active :: bool

record ocode =
  cd_pk :: int
  cd_client :: int
  cd_user :: int
  cd_hash :: string
  cd_redirect :: string
  cd_challenge :: string
  cd_scope :: string
  cd_resource :: string
  cd_auth_time :: int
  cd_expires :: rat
  cd_consumed :: bool
  cd_grant :: "int option"

record ogrant =
  gt_pk :: int
  gt_user :: int
  gt_client :: int
  gt_jti :: string
  gt_access_expires :: "rat option"
  gt_refresh :: string
  gt_prev :: "string option"
  gt_refresh_expires :: rat
  gt_last_refreshed :: "rat option"
  gt_last_used :: "rat option"
  gt_scopes :: "string list"
  gt_resource :: string
  gt_auth_time :: int
  gt_active :: bool
  gt_reason :: string

text \<open>Cached verdicts on metadata documents: the document when it was good.\<close>

record oworld =
  ow_users :: "int \<Rightarrow> ouser option"
  ow_clients :: "oclient list"
  ow_codes :: "ocode list"
  ow_grants :: "ogrant list"
  ow_next :: int
  ow_incidents :: "(int \<times> string) list"
  ow_cimd :: "string \<Rightarrow> (json option \<times> rat) option"

type_synonym 'a oact = "oworld \<Rightarrow> (oauth_error + 'a) \<times> oworld"

definition oret :: "'a \<Rightarrow> 'a oact" where
  "oret x w = (Inr x, w)"

definition ofail :: "oauth_error \<Rightarrow> 'a oact" where
  "ofail e w = (Inl e, w)"

definition obind :: "'a oact \<Rightarrow> ('a \<Rightarrow> 'b oact) \<Rightarrow> 'b oact" where
  "obind m f w = (case m w of (Inl e, w') \<Rightarrow> (Inl e, w') | (Inr x, w') \<Rightarrow> f x w')"

definition olift :: "oauth_error + 'a \<Rightarrow> 'a oact" where
  "olift r w = (r, w)"

definition omodify :: "(oworld \<Rightarrow> oworld) \<Rightarrow> unit oact" where
  "omodify f w = (Inr (), f w)"

definition oget :: "(oworld \<Rightarrow> 'a) \<Rightarrow> 'a oact" where
  "oget f w = (Inr (f w), w)"

lemmas oact_defs = oret_def ofail_def obind_def olift_def omodify_def oget_def

definition client_row :: "oworld \<Rightarrow> string \<Rightarrow> oclient option" where
  "client_row w cid = find (\<lambda>c. oc_id c = cid) (ow_clients w)"

text \<open>What stands outside the server: time, digests, settings, random values, and the parameters.\<close>

datatype jwt_verdict = JwtValid | JwtExpired | JwtBad

record claims =
  cl_type :: string
  cl_uid :: int
  cl_aud :: json
  cl_scope :: string
  cl_auth_time :: int
  cl_jti :: json
  cl_exp :: rat

record oauth_env =
  oe_now :: rat
  oe_origin :: string
  oe_registry :: registry
  oe_sha :: "string \<Rightarrow> string"
  oe_s256 :: "string \<Rightarrow> string"
  oe_access_ttl :: int
  oe_refresh_days :: int
  oe_grace :: int
  oe_code_ttl :: int
  oe_raw :: string
  oe_jti :: string
  oe_fill1 :: string
  oe_fill2 :: string
  oe_fill3 :: string
  oe_uuid :: string
  oe_ip6 :: "string \<Rightarrow> bool"
  oe_unquote :: "string \<Rightarrow> string"
  oe_quote :: "string \<Rightarrow> string"
  oe_fetch :: "string \<Rightarrow> (int \<times> string \<times> nat \<times> json option) option"
  oe_encode :: "string \<Rightarrow> claims \<Rightarrow> string"
  oe_decode :: "string \<Rightarrow> claims option"
  oe_verify :: "string \<Rightarrow> string \<Rightarrow> string \<Rightarrow> rat \<Rightarrow> jwt_verdict"

section \<open>Redirect addresses\<close>

definition MAX_REDIRECT_URIS :: nat where
  "MAX_REDIRECT_URIS = 10"

definition MAX_REDIRECT_URI_LENGTH :: nat where
  "MAX_REDIRECT_URI_LENGTH = 2048"

definition MAX_CLIENT_NAME_LENGTH :: nat where
  "MAX_CLIENT_NAME_LENGTH = 200"

definition LOOPBACK_HOSTS :: "string list" where
  "LOOPBACK_HOSTS = [''localhost'', ''127.0.0.1'', ''::1'']"

definition is_loopback_http :: "url_parts \<Rightarrow> bool" where
  "is_loopback_http u \<longleftrightarrow> u_scheme u = ''http'' \<and> u_hostname u \<in> set LOOPBACK_HOSTS"

definition validate_redirect_uri :: "(string \<Rightarrow> bool) \<Rightarrow> json \<Rightarrow> oauth_error + string" where
  "validate_redirect_uri ip6 j =
     (case j of
        JStr uri \<Rightarrow>
          if uri = [] then Inl (BadValue ''redirect_uri must be a string'')
          else if length uri > MAX_REDIRECT_URI_LENGTH then Inl (BadValue ''redirect_uri is too long'')
          else if \<not> list_all (\<lambda>c. is_ascii c \<and> is_printable c) uri then Inl (BadValue ''redirect_uri contains invalid characters'')
          else (case urlsplit ip6 uri of
              None \<Rightarrow> Inl (BadValue ''redirect_uri is not a valid URL'')
            | Some u \<Rightarrow>
                if u_port u = None then Inl (BadValue ''redirect_uri is not a valid URL'')
                else if u_fragment u \<noteq> [] then Inl (BadValue ''redirect_uri must not contain a fragment'')
                else if has_text (fst (userinfo u)) \<or> has_text (snd (userinfo u)) then Inl (BadValue ''redirect_uri must not contain credentials'')
                else if u_hostname u = [] then Inl (BadValue ''redirect_uri must include a host'')
                else if u_scheme u = ''https'' then Inr uri
                else if is_loopback_http u then Inr uri
                else Inl (BadValue ''redirect_uri must use https, or http on a loopback host''))
      | _ \<Rightarrow> Inl (BadValue ''redirect_uri must be a string''))"

definition redirect_uri_matches :: "(string \<Rightarrow> bool) \<Rightarrow> string \<Rightarrow> string \<Rightarrow> bool" where
  "redirect_uri_matches ip6 registered presented =
     (if registered = presented then True
      else case (urlsplit ip6 registered, urlsplit ip6 presented) of
        (Some a, Some b) \<Rightarrow>
          u_port a \<noteq> None \<and> u_port b \<noteq> None \<and> is_loopback_http a \<and> is_loopback_http b
          \<and> u_scheme a = u_scheme b \<and> u_hostname a = u_hostname b \<and> u_path a = u_path b \<and> u_query a = u_query b
      | _ \<Rightarrow> False)"

definition as_values :: "json option \<Rightarrow> json list" where
  "as_values v = (case v of Some (JStr s) \<Rightarrow> [JStr s] | Some (JList xs) \<Rightarrow> xs | _ \<Rightarrow> [])"

fun clean_each :: "(string \<Rightarrow> bool) \<Rightarrow> string \<Rightarrow> json list \<Rightarrow> oauth_error + string list" where
  "clean_each ip6 code [] = Inr []"
| "clean_each ip6 code (x # xs) =
     (case validate_redirect_uri ip6 x of
        Inl (BadValue m) \<Rightarrow> Inl (ClientError code m)
      | Inl e \<Rightarrow> Inl e
      | Inr u \<Rightarrow> (case clean_each ip6 code xs of Inl e \<Rightarrow> Inl e | Inr us \<Rightarrow> Inr (u # us)))"

definition clean_redirect_uris :: "(string \<Rightarrow> bool) \<Rightarrow> string \<Rightarrow> json option \<Rightarrow> oauth_error + string list" where
  "clean_redirect_uris ip6 code v =
     (let uris = as_values v in
      if uris = [] then Inl (ClientError code ''redirect_uris is required'')
      else if length uris > MAX_REDIRECT_URIS then Inl (ClientError code ''at most 10 redirect_uris are accepted'')
      else clean_each ip6 code uris)"

section \<open>Registration\<close>

text \<open>\<open>str(v)\<close> of a scalar; that of a list or dict is no token of any kind and only marked.\<close>

definition str_of :: "json \<Rightarrow> string" where
  "str_of j = (case j of JStr s \<Rightarrow> s | JInt i \<Rightarrow> show_int i | JBool b \<Rightarrow> (if b then ''True'' else ''False'') | JFloat s \<Rightarrow> s | JNull \<Rightarrow> ''None'' | _ \<Rightarrow> ''{...}'')"

text \<open>Runs of white space become one space.\<close>

fun fold_space :: "string \<Rightarrow> string" where
  "fold_space [] = []"
| "fold_space [c] = (if is_space c then '' '' else [c])"
| "fold_space (c # d # s) = (if is_space c then (if is_space d then fold_space (d # s) else CHR '' '' # fold_space (d # s)) else c # fold_space (d # s))"

definition clean_text :: "string \<Rightarrow> nat \<Rightarrow> string" where
  "clean_text v limit = take limit (strip (fold_space (filter (\<lambda>c. is_printable c \<or> \<not> is_ascii c \<or> (of_char c :: nat) \<in> {9, 10, 13}) v)))"

definition intersect_types :: "json option \<Rightarrow> string list \<Rightarrow> string list" where
  "intersect_types requested supported =
     (let kept = filter (\<lambda>s. s \<in> set (map str_of (as_values requested))) supported in if kept = [] then supported else kept)"

definition HTTPS_METADATA_FIELDS :: "string list" where
  "HTTPS_METADATA_FIELDS = [''client_uri'', ''logo_uri'', ''policy_uri'', ''tos_uri'']"

definition https_field :: "json \<Rightarrow> string \<Rightarrow> oauth_error + (string \<times> string) list" where
  "https_field data f =
     (let bad = Inl (ClientError ''invalid_client_metadata'' (f @ '' must be an https URL'')) in
      case jdict_get data f of
        None \<Rightarrow> Inr []
      | Some JNull \<Rightarrow> Inr []
      | Some (JStr s) \<Rightarrow> if s = [] then Inr [] else if starts_with s ''https://'' then Inr [(f, s)] else bad
      | Some _ \<Rightarrow> bad)"

fun https_fields :: "json \<Rightarrow> string list \<Rightarrow> oauth_error + (string \<times> string) list" where
  "https_fields data [] = Inr []"
| "https_fields data (f # fs) =
     (case https_field data f of
        Inl e \<Rightarrow> Inl e
      | Inr m \<Rightarrow> (case https_fields data fs of Inl e \<Rightarrow> Inl e | Inr ms \<Rightarrow> Inr (m @ ms)))"

definition text_fields :: "json \<Rightarrow> string list \<Rightarrow> (string \<Rightarrow> string) \<Rightarrow> (string \<times> string) list" where
  "text_fields data fs trim =
     concat (map (\<lambda>f. case jdict_get data f of Some (JStr (c # s)) \<Rightarrow> [(f, trim (c # s))] | _ \<Rightarrow> []) fs)"

record registration =
  rg_client_id :: string
  rg_name :: string
  rg_uris :: "string list"
  rg_grant_types :: "string list"
  rg_response_types :: "string list"

definition client_name_of :: "json \<Rightarrow> oauth_error + string" where
  "client_name_of data =
     (case jdict_get data ''client_name'' of
        None \<Rightarrow> Inr []
      | Some v \<Rightarrow> if \<not> truthy v then Inr []
                 else (case v of
                   JStr s \<Rightarrow> if length s > MAX_CLIENT_NAME_LENGTH then Inl (ClientError ''invalid_client_metadata'' ''client_name is too long'')
                             else Inr (clean_text s MAX_CLIENT_NAME_LENGTH)
                 | _ \<Rightarrow> Inl (ClientError ''invalid_client_metadata'' ''client_name must be a string'')))"

definition insert_client :: "oclient \<Rightarrow> oworld \<Rightarrow> oworld" where
  "insert_client c w = w\<lparr>ow_clients := ow_clients w @ [c], ow_next := ow_next w + 1\<rparr>"

definition register_client :: "oauth_env \<Rightarrow> json \<Rightarrow> registration oact" where
  "register_client E data =
     obind (olift (clean_redirect_uris (oe_ip6 E) ''invalid_redirect_uri'' (jdict_get data ''redirect_uris''))) (\<lambda>uris.
     obind (olift (client_name_of data)) (\<lambda>name.
     obind (olift (https_fields data HTTPS_METADATA_FIELDS)) (\<lambda>meta.
     obind (oget ow_next) (\<lambda>pk.
     obind (oget (\<lambda>w. client_row w (oe_uuid E))) (\<lambda>taken.
     if taken \<noteq> None then ofail DuplicateRow
     else obind (omodify (insert_client \<lparr>oc_pk = pk, oc_id = oe_uuid E, oc_kind = ''dcr'', oc_name = name, oc_uris = uris,
              oc_metadata = meta @ text_fields data [''software_id'', ''software_version''] (take 200), oc_active = True\<rparr>)) (\<lambda>_.
     oret \<lparr>rg_client_id = oe_uuid E, rg_name = name, rg_uris = uris,
       rg_grant_types = intersect_types (jdict_get data ''grant_types'') [''authorization_code'', ''refresh_token''],
       rg_response_types = intersect_types (jdict_get data ''response_types'') [''code'']\<rparr>))))))"

section \<open>Client metadata documents\<close>

definition UNKNOWN_CLIENT :: string where
  "UNKNOWN_CLIENT = ''unknown client''"

definition CIMD_MAX_BYTES :: nat where
  "CIMD_MAX_BYTES = 65536"

definition CIMD_CACHE_SECONDS :: rat where
  "CIMD_CACHE_SECONDS = 300"

definition CIMD_UNREADABLE :: string where
  "CIMD_UNREADABLE = ''could not read the client metadata document''"

fun collapse_slashes :: "string \<Rightarrow> string" where
  "collapse_slashes (c # d # s) = (if c = CHR ''/'' \<and> d = CHR ''/'' then collapse_slashes (d # s) else c # collapse_slashes (d # s))"
| "collapse_slashes s = s"

definition canonical_path :: "oauth_env \<Rightarrow> string \<Rightarrow> string" where
  "canonical_path E path = (if path = [] then [] else oe_quote E (collapse_slashes (oe_unquote E path)))"

definition canonical_cimd_url :: "oauth_env \<Rightarrow> json option \<Rightarrow> oauth_error + string" where
  "canonical_cimd_url E j =
     (let bad = (\<lambda>m. Inl (ClientError ''invalid_client'' m)) in
      case j of
        Some (JStr url) \<Rightarrow>
          if url = [] then bad ''client_id must be an https URL''
          else (case urlsplit (oe_ip6 E) (strip url) of
              None \<Rightarrow> bad ''client_id is not a valid URL''
            | Some u \<Rightarrow>
              (case u_port u of
                 None \<Rightarrow> bad ''client_id is not a valid URL''
               | Some port \<Rightarrow>
                 let host = rstrip_char CHR ''.'' (lower (u_hostname u)); path = canonical_path E (u_path u);
                     netloc = (if CHR '':'' \<in> set host then CHR ''['' # host @ '']'' else host);
                     netloc = (case port of None \<Rightarrow> netloc | Some p \<Rightarrow> if p = 443 then netloc else netloc @ '':'' @ show_int p)
                 in if lower (u_scheme u) \<noteq> ''https'' then bad ''client_id must be an https URL''
                    else if has_text (fst (userinfo u)) \<or> has_text (snd (userinfo u)) then bad ''client_id must not carry credentials''
                    else if u_query u \<noteq> [] \<or> u_fragment u \<noteq> [] then bad ''client_id must not carry a query or fragment''
                    else if host = [] then bad ''client_id must include a host''
                    else if path \<in> {[], ''/''} then bad ''client_id must name a document path''
                    else Inr (urlunsplit \<lparr>u_scheme = ''https'', u_netloc = netloc, u_path = path, u_query = [], u_fragment = []\<rparr>)))
      | _ \<Rightarrow> bad ''client_id must be an https URL'')"

definition validate_cimd_document :: "oauth_env \<Rightarrow> string \<Rightarrow> int \<times> string \<times> nat \<times> json option \<Rightarrow> oauth_error + json" where
  "validate_cimd_document E canonical reply =
     (case reply of (status, ctype, length_of, body) \<Rightarrow>
      let bad = (\<lambda>m. Inl (ClientError ''invalid_client'' m)) in
      if status \<noteq> 200 then bad ''client metadata document is unavailable''
      else if \<not> contains (lower ctype) ''json'' then bad ''client metadata document is not JSON''
      else if length_of > CIMD_MAX_BYTES then bad ''client metadata document is too large''
      else (case body of
          None \<Rightarrow> bad ''client metadata document is not JSON''
        | Some (JObj m) \<Rightarrow>
            (case canonical_cimd_url E (map_of m ''client_id'') of
               Inl e \<Rightarrow> Inl e
             | Inr c \<Rightarrow>
                 if c \<noteq> canonical then bad ''client metadata document does not name itself''
                 else (case clean_redirect_uris (oe_ip6 E) ''invalid_client'' (map_of m ''redirect_uris'') of
                     Inl e \<Rightarrow> Inl e
                   | Inr uris \<Rightarrow> Inr (JObj ((''redirect_uris'', JList (map JStr uris)) # filter (\<lambda>p. fst p \<noteq> ''redirect_uris'') m))))
        | Some _ \<Rightarrow> bad ''client metadata document is not an object''))"

definition cache_verdict :: "oauth_env \<Rightarrow> string \<Rightarrow> json option \<Rightarrow> unit oact" where
  "cache_verdict E url v = omodify (\<lambda>w. w\<lparr>ow_cimd := (ow_cimd w)(url := Some (v, oe_now E + CIMD_CACHE_SECONDS))\<rparr>)"

definition cached_verdict :: "oauth_env \<Rightarrow> string \<Rightarrow> oworld \<Rightarrow> json option option" where
  "cached_verdict E url w = (case ow_cimd w url of None \<Rightarrow> None | Some (v, until) \<Rightarrow> if oe_now E < until then Some v else None)"

text \<open>The size of the cached document counts as within the bound: it was when it was stored.\<close>

definition fetch_cimd_document :: "oauth_env \<Rightarrow> string \<Rightarrow> json oact" where
  "fetch_cimd_document E canonical =
     obind (oget (cached_verdict E canonical)) (\<lambda>cached.
     case cached of
       Some None \<Rightarrow> ofail (ClientError ''invalid_client'' CIMD_UNREADABLE)
     | Some (Some (JObj m)) \<Rightarrow> olift (validate_cimd_document E canonical (200, ''application/json'', 0, Some (JObj m)))
     | _ \<Rightarrow>
        (case oe_fetch E canonical of
           None \<Rightarrow> obind (cache_verdict E canonical None) (\<lambda>_. ofail (ClientError ''invalid_client'' CIMD_UNREADABLE))
         | Some reply \<Rightarrow>
            (case validate_cimd_document E canonical reply of
               Inl e \<Rightarrow> obind (cache_verdict E canonical None) (\<lambda>_. ofail e)
             | Inr doc \<Rightarrow> obind (cache_verdict E canonical (Some doc)) (\<lambda>_. oret doc))))"

definition doc_uris :: "json \<Rightarrow> string list" where
  "doc_uris doc = (case jdict_get doc ''redirect_uris'' of Some (JList xs) \<Rightarrow> map str_of xs | _ \<Rightarrow> [])"

definition update_client :: "string \<Rightarrow> (oclient \<Rightarrow> oclient) \<Rightarrow> oworld \<Rightarrow> oworld" where
  "update_client cid f w = w\<lparr>ow_clients := map (\<lambda>c. if oc_id c = cid then f c else c) (ow_clients w)\<rparr>"

definition host_of :: "oauth_env \<Rightarrow> string \<Rightarrow> string" where
  "host_of E url = (case urlsplit (oe_ip6 E) url of None \<Rightarrow> [] | Some u \<Rightarrow> u_hostname u)"

definition resolve_cimd_client :: "oauth_env \<Rightarrow> string \<Rightarrow> oclient oact" where
  "resolve_cimd_client E url =
     obind (olift (canonical_cimd_url E (Some (JStr url)))) (\<lambda>canonical.
     obind (oget (\<lambda>w. client_row w canonical)) (\<lambda>existing.
     if (case existing of None \<Rightarrow> False | Some c \<Rightarrow> \<not> oc_active c) then ofail (ClientError ''invalid_client'' UNKNOWN_CLIENT)
     else obind (fetch_cimd_document E canonical) (\<lambda>doc.
       let meta = text_fields doc (HTTPS_METADATA_FIELDS @ [''software_id'', ''software_version'']) (\<lambda>s. clean_text s 2048);
           name = (case jdict_get doc ''client_name'' of Some (JStr s) \<Rightarrow> clean_text s MAX_CLIENT_NAME_LENGTH | _ \<Rightarrow> []);
           name = (if name = [] then host_of E canonical else name);
           fill = (\<lambda>c. c\<lparr>oc_kind := ''cimd'', oc_name := name, oc_uris := doc_uris doc, oc_metadata := meta\<rparr>)
       in obind (oget (\<lambda>w. client_row w canonical)) (\<lambda>row.
          obind (oget ow_next) (\<lambda>pk.
          obind (if row = None
                 then omodify (insert_client \<lparr>oc_pk = pk, oc_id = canonical, oc_kind = ''cimd'', oc_name = [], oc_uris = [], oc_metadata = [], oc_active = True\<rparr>)
                 else oret ()) (\<lambda>_.
          obind (omodify (update_client canonical fill)) (\<lambda>_.
          obind (oget (\<lambda>w. client_row w canonical)) (\<lambda>c.
          case c of Some r \<Rightarrow> oret r | None \<Rightarrow> ofail (ClientError ''invalid_client'' UNKNOWN_CLIENT)))))))))"

definition resolve_client :: "oauth_env \<Rightarrow> json option \<Rightarrow> oclient oact" where
  "resolve_client E client_id =
     (case client_id of
        Some (JStr cid) \<Rightarrow>
          if cid = [] then ofail (ClientError ''invalid_client'' ''client_id is required'')
          else if length cid > 512 then ofail (ClientError ''invalid_client'' ''client_id is too long'')
          else if starts_with (lower cid) ''https://'' then resolve_cimd_client E cid
          else obind (oget (\<lambda>w. client_row w cid)) (\<lambda>c.
            case c of
              Some r \<Rightarrow> if oc_active r then oret r else ofail (ClientError ''invalid_client'' UNKNOWN_CLIENT)
            | None \<Rightarrow> ofail (ClientError ''invalid_client'' UNKNOWN_CLIENT))
      | _ \<Rightarrow> ofail (ClientError ''invalid_client'' ''client_id is required''))"

end
