(* ===== verification/OAuth_Server.thy ===== *)
theory OAuth_Server
  imports OAuth_Clients
begin

text \<open>
  The authorization server itself (\<open>services/oauth_server/tokens.py\<close>, \<open>codes.py\<close>, \<open>consent.py\<close>,
  \<open>rest/oauth_server.py\<close>): grants and their credentials, single-use codes with PKCE, the consent of a
  signed-in person, the token and revocation endpoints, and the confinement of access tokens. Random
  values, digests and the signing of tokens are parameters in \<open>oauth_env\<close>; audit lines are left out,
  incidents are kept.
\<close>

section \<open>Grants\<close>

definition grant_by :: "(ogrant \<Rightarrow> bool) \<Rightarrow> oworld \<Rightarrow> ogrant option" where
  "grant_by P w = find P (ow_grants w)"

text \<open>\<open>objects.filter(...).update(...)\<close>: the number of rows\<close>

definition update_grants :: "(ogrant \<Rightarrow> bool) \<Rightarrow> (ogrant \<Rightarrow> ogrant) \<Rightarrow> nat oact" where
  "update_grants P f w =
     (Inr (length (filter P (ow_grants w))), w\<lparr>ow_grants := map (\<lambda>g. if P g then f g else g) (ow_grants w)\<rparr>)"

definition new_grant :: "oauth_env \<Rightarrow> int \<Rightarrow> int \<Rightarrow> int \<Rightarrow> string list \<Rightarrow> string \<Rightarrow> int \<Rightarrow> ogrant" where
  "new_grant E pk user client scopes resource auth_time =
     \<lparr>gt_pk = pk, gt_user = user, gt_client = client, gt_jti = oe_fill1 E, gt_access_expires = None, gt_refresh = oe_fill2 E,
      gt_prev = None, gt_refresh_expires = oe_now E + of_int (oe_refresh_days E * 86400), gt_last_refreshed = None,
      gt_last_used = None, gt_scopes = scopes, gt_resource = resource, gt_auth_time = auth_time, gt_active = True, gt_reason = []\<rparr>"

definition create_grant :: "oauth_env \<Rightarrow> int \<Rightarrow> int \<Rightarrow> string list \<Rightarrow> string \<Rightarrow> int \<Rightarrow> ogrant oact" where
  "create_grant E user client scopes resource auth_time =
     obind (oget ow_next) (\<lambda>pk.
     let g = new_grant E pk user client scopes resource auth_time in
     obind (omodify (\<lambda>w. w\<lparr>ow_grants := ow_grants w @ [g], ow_next := pk + 1\<rparr>)) (\<lambda>_. oret g))"

record token_response =
  tr_access :: string
  tr_expires_in :: int
  tr_refresh :: string
  tr_scope :: string

definition join_scopes :: "string list \<Rightarrow> string" where
  "join_scopes ss = join_with '' '' ss"

definition access_claims :: "oauth_env \<Rightarrow> ogrant \<Rightarrow> int \<Rightarrow> claims" where
  "access_claims E g seconds =
     \<lparr>cl_type = ''mcp'', cl_uid = gt_user g, cl_aud = JStr (gt_resource g), cl_scope = join_scopes (gt_scopes g),
      cl_auth_time = gt_auth_time g, cl_jti = JStr (oe_jti E), cl_exp = oe_now E + of_int seconds\<rparr>"

definition user_key :: "oworld \<Rightarrow> int \<Rightarrow> string" where
  "user_key w u = (case ow_users w u of None \<Rightarrow> [] | Some r \<Rightarrow> ou_key r)"

definition mint_access_token :: "oauth_env \<Rightarrow> ogrant \<Rightarrow> int option \<Rightarrow> string oact" where
  "mint_access_token E g ttl =
     (let seconds = (case ttl of None \<Rightarrow> oe_access_ttl E | Some t \<Rightarrow> t) in
      obind (update_grants (\<lambda>r. gt_pk r = gt_pk g)
        (\<lambda>r. r\<lparr>gt_jti := oe_jti E, gt_access_expires := Some (oe_now E + of_int seconds)\<rparr>)) (\<lambda>_.
      obind (oget (\<lambda>w. user_key w (gt_user g))) (\<lambda>key. oret (oe_encode E key (access_claims E g seconds)))))"

definition make_response :: "oauth_env \<Rightarrow> ogrant \<Rightarrow> string \<Rightarrow> token_response oact" where
  "make_response E g raw_refresh =
     obind (mint_access_token E g (Some (oe_access_ttl E))) (\<lambda>tok.
     oret \<lparr>tr_access = tok, tr_expires_in = oe_access_ttl E, tr_refresh = raw_refresh, tr_scope = join_scopes (gt_scopes g)\<rparr>)"

text \<open>One conditional update rotates the refresh secret; the loser of a race updates no row.\<close>

definition issue_tokens :: "oauth_env \<Rightarrow> ogrant \<Rightarrow> string option \<Rightarrow> token_response oact" where
  "issue_tokens E g expected =
     obind (update_grants (\<lambda>r. gt_pk r = gt_pk g \<and> (case expected of None \<Rightarrow> True | Some h \<Rightarrow> gt_refresh r = h))
       (\<lambda>r. r\<lparr>gt_prev := Some (gt_refresh r), gt_refresh := oe_sha E (oe_raw E), gt_last_refreshed := Some (oe_now E)\<rparr>)) (\<lambda>n.
     if n \<noteq> 1 then ofail RotationLost else make_response E g (oe_raw E))"

definition invalid_refresh :: oauth_error where
  "invalid_refresh = TokenError ''invalid_grant'' ''invalid refresh token''"

definition issue_grace_pair :: "oauth_env \<Rightarrow> ogrant \<Rightarrow> token_response oact" where
  "issue_grace_pair E g =
     obind (update_grants (\<lambda>r. gt_pk r = gt_pk g)
       (\<lambda>r. r\<lparr>gt_prev := Some (gt_refresh r), gt_refresh := oe_sha E (oe_raw E)\<rparr>)) (\<lambda>n.
     if n \<noteq> 1 then ofail invalid_refresh else make_response E g (oe_raw E))"

definition user_active :: "oworld \<Rightarrow> int \<Rightarrow> bool" where
  "user_active w u \<longleftrightarrow> (case ow_users w u of None \<Rightarrow> False | Some r \<Rightarrow> ou_active r)"

definition client_active :: "oworld \<Rightarrow> int \<Rightarrow> bool" where
  "client_active w c \<longleftrightarrow> (\<exists>r \<in> set (ow_clients w). oc_pk r = c \<and> oc_active r)"

text \<open>The conditions of \<open>_check_refreshable\<close>; every refusal is the same error.\<close>

definition refreshable :: "oauth_env \<Rightarrow> ogrant \<Rightarrow> oclient \<Rightarrow> json option \<Rightarrow> json option \<Rightarrow> oworld \<Rightarrow> bool" where
  "refreshable E g client resource scope w \<longleftrightarrow>
     gt_active g
     \<and> gt_client g = oc_pk client
     \<and> user_active w (gt_user g) \<and> client_active w (gt_client g)
     \<and> gt_refresh_expires g > oe_now E
     \<and> resource_enabled (resolve_resource (oe_registry E) (resource_path (oe_ip6 E) (gt_resource g)))
     \<and> (resource = None \<or> resource = Some JNull \<or> resource = Some (JStr (gt_resource g)))
     \<and> (scope = None \<or> scope = Some JNull \<or> scope = Some (JStr (join_scopes (gt_scopes g))))"

definition check_refreshable :: "oauth_env \<Rightarrow> ogrant \<Rightarrow> oclient \<Rightarrow> json option \<Rightarrow> json option \<Rightarrow> unit oact" where
  "check_refreshable E g client resource scope w =
     (if refreshable E g client resource scope w then (Inr (), w) else (Inl invalid_refresh, w))"

definition revoke_grant :: "oauth_env \<Rightarrow> ogrant \<Rightarrow> string \<Rightarrow> bool oact" where
  "revoke_grant E g reason =
     obind (update_grants (\<lambda>r. gt_pk r = gt_pk g \<and> gt_active r)
       (\<lambda>r. r\<lparr>gt_active := False, gt_reason := take 32 reason, gt_jti := oe_fill1 E, gt_refresh := oe_fill2 E, gt_prev := Some (oe_fill3 E)\<rparr>)) (\<lambda>n.
     oret (n = 1))"

definition report_incident :: "int \<Rightarrow> string \<Rightarrow> unit oact" where
  "report_incident user kind = omodify (\<lambda>w. w\<lparr>ow_incidents := ow_incidents w @ [(user, kind)]\<rparr>)"

definition grace_or_replay :: "oauth_env \<Rightarrow> ogrant \<Rightarrow> oclient \<Rightarrow> json option \<Rightarrow> json option \<Rightarrow> token_response oact" where
  "grace_or_replay E g client resource scope =
     (if (case gt_last_refreshed g of None \<Rightarrow> False | Some t \<Rightarrow> oe_now E - t \<le> of_int (oe_grace E))
      then obind (check_refreshable E g client resource scope) (\<lambda>_. issue_grace_pair E g)
      else obind (revoke_grant E g ''refresh_replay'') (\<lambda>_.
           obind (report_incident (gt_user g) ''oauth:refresh_replay'') (\<lambda>_. ofail invalid_refresh)))"

text \<open>Catches \<open>RotationLost\<close> of \<open>m\<close>\<close>

definition on_rotation_lost :: "'a oact \<Rightarrow> 'a oact \<Rightarrow> 'a oact" where
  "on_rotation_lost m h w = (case m w of (Inl RotationLost, w') \<Rightarrow> h w' | x \<Rightarrow> x)"

text \<open>
  \<open>meanwhile\<close> is what other processes do to the rows between the check and the rotation.
\<close>

definition refresh_grant :: "oauth_env \<Rightarrow> (oworld \<Rightarrow> oworld) \<Rightarrow> json option \<Rightarrow> oclient \<Rightarrow> json option \<Rightarrow> json option \<Rightarrow> token_response oact" where
  "refresh_grant E meanwhile raw client resource scope =
     (case raw of
        Some (JStr s) \<Rightarrow>
          if s = [] then ofail invalid_refresh
          else (let presented = oe_sha E s in
            obind (oget (grant_by (\<lambda>g. gt_refresh g = presented))) (\<lambda>found.
            case found of
              Some g \<Rightarrow>
                obind (check_refreshable E g client resource scope) (\<lambda>_.
                obind (omodify meanwhile) (\<lambda>_.
                on_rotation_lost (issue_tokens E g (Some presented))
                  (obind (oget (grant_by (\<lambda>r. gt_pk r = gt_pk g))) (\<lambda>again.
                   case again of None \<Rightarrow> ofail invalid_refresh | Some g' \<Rightarrow> grace_or_replay E g' client resource scope))))
            | None \<Rightarrow>
                obind (oget (grant_by (\<lambda>g. gt_prev g = Some presented))) (\<lambda>prev.
                case prev of None \<Rightarrow> ofail invalid_refresh | Some g \<Rightarrow> grace_or_replay E g client resource scope)))
      | _ \<Rightarrow> ofail invalid_refresh)"

definition token_grant :: "oauth_env \<Rightarrow> string \<Rightarrow> oworld \<Rightarrow> ogrant option" where
  "token_grant E raw w =
     (case grant_by (\<lambda>g. gt_refresh g = oe_sha E raw) w of
        Some g \<Rightarrow> Some g
      | None \<Rightarrow> (case grant_by (\<lambda>g. gt_prev g = Some (oe_sha E raw)) w of
            Some g \<Rightarrow> Some g
          | None \<Rightarrow> (case oe_decode E raw of
                Some c \<Rightarrow> (case cl_jti c of JStr j \<Rightarrow> if j = [] then None else grant_by (\<lambda>g. gt_jti g = j) w | _ \<Rightarrow> None)
              | None \<Rightarrow> None)))"

definition revoke_token :: "oauth_env \<Rightarrow> json option \<Rightarrow> oclient \<Rightarrow> unit oact" where
  "revoke_token E raw client =
     (case raw of
        Some (JStr s) \<Rightarrow>
          if s = [] then oret ()
          else obind (oget (token_grant E s)) (\<lambda>found.
            case found of
              None \<Rightarrow> oret ()
            | Some g \<Rightarrow> if gt_client g \<noteq> oc_pk client then oret () else obind (revoke_grant E g ''client'') (\<lambda>_. oret ()))
      | _ \<Rightarrow> oret ())"

section \<open>Administration\<close>

definition has_path :: "oauth_env \<Rightarrow> string \<Rightarrow> string list option \<Rightarrow> bool" where
  "has_path E resource paths \<longleftrightarrow>
     (case paths of None \<Rightarrow> True
      | Some ps \<Rightarrow> (case urlsplit (oe_ip6 E) resource of None \<Rightarrow> False | Some u \<Rightarrow> u_path u \<in> set ps))"

text \<open>The suffix match of the database\<close>

definition suffix_scope :: "string list option \<Rightarrow> string \<Rightarrow> bool" where
  "suffix_scope paths resource \<longleftrightarrow> (case paths of None \<Rightarrow> True | Some ps \<Rightarrow> \<exists>p \<in> set ps. ends_with resource p)"

definition grant_scope :: "oauth_env \<Rightarrow> int option \<Rightarrow> bool \<Rightarrow> string list option \<Rightarrow> ogrant \<Rightarrow> bool" where
  "grant_scope E user include_inactive paths g \<longleftrightarrow>
     (case user of None \<Rightarrow> True | Some u \<Rightarrow> gt_user g = u)
     \<and> (include_inactive \<or> gt_active g \<and> gt_refresh_expires g > oe_now E)
     \<and> suffix_scope paths (gt_resource g)"

text \<open>Rows are created in the order of the list; the answer is newest first and cut by the database.\<close>

definition list_grants :: "oauth_env \<Rightarrow> int option \<Rightarrow> bool \<Rightarrow> string list option \<Rightarrow> nat option \<Rightarrow> oworld \<Rightarrow> ogrant list" where
  "list_grants E user include_inactive paths limit w =
     (let rows = rev (filter (grant_scope E user include_inactive paths) (ow_grants w));
          rows = (case limit of None \<Rightarrow> rows | Some n \<Rightarrow> take n rows)
      in filter (\<lambda>g. has_path E (gt_resource g) paths) rows)"

definition count_grants :: "oauth_env \<Rightarrow> int option \<Rightarrow> bool \<Rightarrow> string list option \<Rightarrow> oworld \<Rightarrow> nat" where
  "count_grants E user include_inactive paths w =
     length (filter (\<lambda>g. has_path E (gt_resource g) paths) (filter (grant_scope E user include_inactive paths) (ow_grants w)))"

definition revoke_grant_by_id :: "oauth_env \<Rightarrow> int \<Rightarrow> bool oact" where
  "revoke_grant_by_id E pk =
     obind (oget (grant_by (\<lambda>g. gt_pk g = pk \<and> gt_active g))) (\<lambda>found.
     case found of None \<Rightarrow> oret False | Some g \<Rightarrow> revoke_grant E g ''admin'')"

definition revoke_all_grants :: "oauth_env \<Rightarrow> int option \<Rightarrow> string list option \<Rightarrow> nat oact" where
  "revoke_all_grants E user paths =
     obind (oget (\<lambda>w. map gt_pk (filter (\<lambda>g. gt_active g \<and> (case user of None \<Rightarrow> True | Some u \<Rightarrow> gt_user g = u)
         \<and> suffix_scope paths (gt_resource g) \<and> has_path E (gt_resource g) paths) (ow_grants w)))) (\<lambda>targets.
     if targets = [] then oret 0
     else update_grants (\<lambda>g. gt_pk g \<in> set targets \<and> gt_active g) (\<lambda>g. g\<lparr>gt_active := False, gt_reason := ''admin''\<rparr>))"

section \<open>Confinement\<close>

datatype access_verdict = Accepted int int | Refused bool bool

text \<open>
  The \<open>mcp\<close> branch of \<open>User.validate_jwt\<close> (an identifier that is not a string, which no token of the server
  has, counts as unknown): the user and the grant, or a refusal (expired?, with the
  challenge header?). \<open>None\<close> is no request.
\<close>

definition validate_access :: "oauth_env \<Rightarrow> string \<Rightarrow> claims \<Rightarrow> string option \<Rightarrow> access_verdict oact" where
  "validate_access E token c request_path =
     (let refuse = oret (Refused False False); challenge = oret (Refused False True) in
      case request_path of
        None \<Rightarrow> refuse
      | Some rp \<Rightarrow>
       (case cl_aud c of
          JStr aud \<Rightarrow>
           (if aud = [] then refuse
            else case urlsplit (oe_ip6 E) aud of
              None \<Rightarrow> refuse
            | Some u \<Rightarrow>
              if u_path u = [] then refuse
              else case resolve_resource (oe_registry E) (u_path u) of
                None \<Rightarrow> refuse
              | Some entry \<Rightarrow>
                if \<not> resource_enabled (Some entry) \<or> \<not> covers_path entry (Some rp) then refuse
                else case cl_jti c of
                  JStr jti \<Rightarrow>
                   (if jti = [] then challenge
                    else obind (oget (grant_by (\<lambda>g. gt_jti g = jti \<and> gt_active g))) (\<lambda>found.
                    case found of
                      None \<Rightarrow> challenge
                    | Some g \<Rightarrow>
                      obind (oget (\<lambda>w. user_active w (gt_user g) \<and> client_active w (gt_client g))) (\<lambda>live.
                      obind (oget (\<lambda>w. user_key w (gt_user g))) (\<lambda>key.
                      if gt_resource g \<noteq> aud \<or> \<not> live then challenge
                      else if re_prefix entry \<and> API_SCOPE \<notin> set (gt_scopes g) then challenge
                      else case oe_verify E key token aud (oe_now E) of
                        JwtValid \<Rightarrow> obind (update_grants (\<lambda>r. gt_pk r = gt_pk g) (\<lambda>r. r\<lparr>gt_last_used := Some (oe_now E)\<rparr>)) (\<lambda>_.
                                    oret (Accepted (gt_user g) (gt_pk g)))
                      | JwtExpired \<Rightarrow> oret (Refused True True)
                      | JwtBad \<Rightarrow> challenge))))
                | _ \<Rightarrow> challenge)
        | _ \<Rightarrow> refuse))"

section \<open>Codes\<close>

text \<open>The pattern of RFC 7636; \<open>$\<close> also matches before a final line break.\<close>

definition pkce_char :: "char \<Rightarrow> bool" where
  "pkce_char c \<longleftrightarrow> is_alpha c \<or> is_digit c \<or> c \<in> {CHR ''.'', CHR ''_'', CHR ''~'', CHR ''-''}"

definition PKCE_RE :: "string \<Rightarrow> bool" where
  "PKCE_RE s =
     (let ok = (\<lambda>b. 43 \<le> length b \<and> length b \<le> 128 \<and> list_all pkce_char b)
      in ok s \<or> (s \<noteq> [] \<and> last s = CHR 0x0A \<and> ok (butlast s)))"

definition validate_pkce_challenge :: "string option \<Rightarrow> string option \<Rightarrow> oauth_error + string" where
  "validate_pkce_challenge pkce_method challenge =
     (if pkce_method \<noteq> Some ''S256'' then Inl (BadValue ''code_challenge_method must be S256'')
      else case challenge of
        Some c \<Rightarrow> if PKCE_RE c then Inr c else Inl (BadValue ''code_challenge is missing or malformed'')
      | None \<Rightarrow> Inl (BadValue ''code_challenge is missing or malformed''))"

definition verify_pkce :: "oauth_env \<Rightarrow> string \<Rightarrow> json \<Rightarrow> bool" where
  "verify_pkce E challenge verifier =
     (case verifier of JStr v \<Rightarrow> PKCE_RE v \<and> PKCE_RE challenge \<and> oe_s256 E v = challenge | _ \<Rightarrow> False)"

text \<open>The raw code; codes that ended more than a day ago are purged.\<close>

definition mint_code :: "oauth_env \<Rightarrow> int \<Rightarrow> oclient \<Rightarrow> string \<Rightarrow> string \<Rightarrow> string \<Rightarrow> string \<Rightarrow> int \<Rightarrow> string oact" where
  "mint_code E user client redirect challenge scope resource auth_time =
     obind (oget ow_next) (\<lambda>pk.
     obind (omodify (\<lambda>w. w\<lparr>ow_next := pk + 1, ow_codes := filter (\<lambda>c. cd_expires c \<ge> oe_now E - 86400) (ow_codes w @
       [\<lparr>cd_pk = pk, cd_client = oc_pk client, cd_user = user, cd_hash = oe_sha E (oe_raw E), cd_redirect = redirect,
         cd_challenge = challenge, cd_scope = scope, cd_resource = resource, cd_auth_time = auth_time,
         cd_expires = oe_now E + of_int (oe_code_ttl E), cd_consumed = False, cd_grant = None\<rparr>])\<rparr>)) (\<lambda>_.
     oret (oe_raw E)))"

definition code_by :: "string \<Rightarrow> oworld \<Rightarrow> ocode option" where
  "code_by h w = find (\<lambda>c. cd_hash c = h) (ow_codes w)"

definition update_code :: "int \<Rightarrow> (ocode \<Rightarrow> ocode) \<Rightarrow> oworld \<Rightarrow> oworld" where
  "update_code pk f w = w\<lparr>ow_codes := map (\<lambda>c. if cd_pk c = pk then f c else c) (ow_codes w)\<rparr>"

definition invalid_code :: oauth_error where
  "invalid_code = TokenError ''invalid_grant'' ''invalid authorization code''"

definition code_usable :: "oauth_env \<Rightarrow> ocode \<Rightarrow> oclient \<Rightarrow> json \<Rightarrow> json \<Rightarrow> bool" where
  "code_usable E row client redirect verifier \<longleftrightarrow>
     cd_client row = oc_pk client
     \<and> (case validate_redirect_uri (oe_ip6 E) redirect of Inl _ \<Rightarrow> False | Inr uri \<Rightarrow> redirect_uri_matches (oe_ip6 E) (cd_redirect row) uri)
     \<and> cd_expires row > oe_now E
     \<and> verify_pkce E (cd_challenge row) verifier"

text \<open>The number of rows that the conditional update burned\<close>

definition burn_code :: "int \<Rightarrow> nat oact" where
  "burn_code pk w =
     (Inr (length (filter (\<lambda>c. cd_pk c = pk \<and> \<not> cd_consumed c) (ow_codes w))),
      update_code pk (\<lambda>c. if cd_consumed c then c else c\<lparr>cd_consumed := True\<rparr>) w)"

text \<open>
  The row, and whether its user was active when it was read. \<open>meanwhile\<close> is what other processes do between
  the read and the conditional update that burns the code.
\<close>

definition consume_code :: "oauth_env \<Rightarrow> (oworld \<Rightarrow> oworld) \<Rightarrow> json \<Rightarrow> oclient \<Rightarrow> json \<Rightarrow> json \<Rightarrow> (ocode \<times> bool) oact" where
  "consume_code E meanwhile raw client redirect verifier =
     (case raw of
        JStr s \<Rightarrow>
          if s = [] then ofail invalid_code
          else obind (oget (\<lambda>w. map_option (\<lambda>row. (row, user_active w (cd_user row))) (code_by (oe_sha E s) w))) (\<lambda>found.
            case found of
              None \<Rightarrow> ofail invalid_code
            | Some (row, live) \<Rightarrow>
              if cd_consumed row then
                obind (case cd_grant row of
                         None \<Rightarrow> oret False
                       | Some pk \<Rightarrow> obind (oget (grant_by (\<lambda>g. gt_pk g = pk))) (\<lambda>g.
                           case g of None \<Rightarrow> oret False | Some g \<Rightarrow> revoke_grant E g ''code_replay'')) (\<lambda>_.
                obind (report_incident (cd_user row) ''oauth:code_replay'') (\<lambda>_. ofail invalid_code))
              else obind (omodify meanwhile) (\<lambda>_. obind (burn_code (cd_pk row)) (\<lambda>n.
                if n \<noteq> 1 then ofail invalid_code
                else if code_usable E row client redirect verifier then oret (row, live) else ofail invalid_code)))
      | _ \<Rightarrow> ofail invalid_code)"

section \<open>Consent\<close>

text \<open>One scalar parameter of a request\<close>

definition single :: "json \<Rightarrow> string \<Rightarrow> string option" where
  "single data name =
     (case jdict_get data name of
        None \<Rightarrow> None | Some JNull \<Rightarrow> None | Some (JList xs) \<Rightarrow> None | Some (JObj m) \<Rightarrow> None
      | Some v \<Rightarrow> Some (str_of v))"

definition MAX_STATE_LENGTH :: nat where
  "MAX_STATE_LENGTH = 512"

definition unverified_app :: oauth_error where
  "unverified_app = RenderedError ''We could not verify that app''"

definition resolve_client_and_redirect :: "oauth_env \<Rightarrow> json \<Rightarrow> (oclient \<times> string) oact" where
  "resolve_client_and_redirect E data w =
     (case resolve_client E (map_option JStr (single data ''client_id'')) w of
        (Inl (ClientError c m), w') \<Rightarrow> (Inl unverified_app, w')
      | (Inl e, w') \<Rightarrow> (Inl e, w')
      | (Inr client, w') \<Rightarrow>
         (case single data ''redirect_uri'' of
            None \<Rightarrow> (Inl unverified_app, w')
          | Some uri \<Rightarrow>
             (case validate_redirect_uri (oe_ip6 E) (JStr uri) of
                Inl _ \<Rightarrow> (Inl unverified_app, w')
              | Inr _ \<Rightarrow> if \<exists>r \<in> set (oc_uris client). redirect_uri_matches (oe_ip6 E) r uri then (Inr (client, uri), w')
                         else (Inl unverified_app, w'))))"

definition eligible_entries :: "registry \<Rightarrow> string list \<Rightarrow> resource_entry list" where
  "eligible_entries reg granted =
     filter (\<lambda>e. re_prefix e = (API_SCOPE \<in> set granted) \<and> set granted \<subseteq> set (re_scopes e)) (enabled_resources reg)"

definition resolve_request_resource :: "oauth_env \<Rightarrow> json \<Rightarrow> string list \<Rightarrow> oauth_error + (resource_entry \<times> string)" where
  "resolve_request_resource E data granted =
     (let eligible = eligible_entries (oe_registry E) granted; raw = jdict_get data ''resource'' in
      case raw of
        Some (JList xs) \<Rightarrow> Inl (RedirectableError ''invalid_request'' ''resource must be a single value'')
      | _ \<Rightarrow>
        if \<not> none_or_falsy raw then
          (let wanted = str_of (the raw) in
           case find (\<lambda>e. canonical_url (oe_origin E) (re_path e) = wanted) eligible of
             Some e \<Rightarrow> Inr (e, wanted)
           | None \<Rightarrow> if \<exists>e \<in> set (enabled_resources (oe_registry E)). canonical_url (oe_origin E) (re_path e) = wanted
                      then Inl (RedirectableError ''invalid_scope'' ''the requested scope is not offered at that resource'')
                      else Inl (RedirectableError ''invalid_target'' ''unknown resource''))
        else (case eligible of
            [e] \<Rightarrow> Inr (e, canonical_url (oe_origin E) (re_path e))
          | [] \<Rightarrow> Inl (RedirectableError ''invalid_target'' ''no resource offers the requested scope'')
          | _ \<Rightarrow> Inl (RedirectableError ''invalid_target'' ''resource is required'')))"

text \<open>\<open>s.split()\<close>\<close>

definition words :: "string \<Rightarrow> string list" where
  "words s = filter (\<lambda>p. p \<noteq> []) (split_on CHR '' '' (map (\<lambda>c. if is_space c then CHR '' '' else c) s))"

fun grant_scopes :: "string list \<Rightarrow> string list \<Rightarrow> string list \<Rightarrow> oauth_error + string list" where
  "grant_scopes offered [] granted = Inr granted"
| "grant_scopes offered (t # ts) granted =
     (if t \<notin> set offered then Inl (RedirectableError ''invalid_scope'' (''scope '' @ t @ '' is not offered''))
      else grant_scopes offered ts (if t \<in> set granted then granted else granted @ [t]))"

definition requested_scopes :: "json \<Rightarrow> oauth_error + string list" where
  "requested_scopes data =
     (let raw = jdict_get data ''scope'' in
      case raw of
        Some (JList xs) \<Rightarrow> Inl (RedirectableError ''invalid_request'' ''scope must be a single value'')
      | _ \<Rightarrow> Inr (if none_or_falsy raw then [DEFAULT_SCOPE] else words (str_of (the raw))))"

record auth_params =
  ap_state :: string
  ap_challenge :: string
  ap_scope :: string
  ap_granted :: "string list"
  ap_resource :: string
  ap_entry :: resource_entry

definition or_scope :: "string \<Rightarrow> string" where
  "or_scope s = (if s = [] then DEFAULT_SCOPE else s)"

definition validate_parameters :: "oauth_env \<Rightarrow> json \<Rightarrow> oauth_error + auth_params" where
  "validate_parameters E data =
     (if (case single data ''state'' of None \<Rightarrow> False | Some s \<Rightarrow> length s > MAX_STATE_LENGTH)
      then Inl (RenderedError ''That request looks malformed'')
      else if single data ''response_type'' \<noteq> Some ''code''
      then Inl (RedirectableError ''unsupported_response_type'' ''response_type must be code'')
      else case validate_pkce_challenge (single data ''code_challenge_method'') (single data ''code_challenge'') of
        Inl (BadValue m) \<Rightarrow> Inl (RedirectableError ''invalid_request'' m)
      | Inl e \<Rightarrow> Inl e
      | Inr challenge \<Rightarrow>
         (case requested_scopes data of
            Inl e \<Rightarrow> Inl e
          | Inr requested \<Rightarrow>
             (case grant_scopes (offered_scopes (oe_registry E)) requested [] of
                Inl e \<Rightarrow> Inl e
              | Inr granted \<Rightarrow>
                 (case resolve_request_resource E data granted of
                    Inl e \<Rightarrow> Inl e
                  | Inr (entry, resource) \<Rightarrow>
                     Inr \<lparr>ap_state = (case single data ''state'' of None \<Rightarrow> [] | Some s \<Rightarrow> s), ap_challenge = challenge,
                       ap_scope = or_scope (join_scopes granted), ap_granted = granted, ap_resource = resource, ap_entry = entry\<rparr>))))"

text \<open>What the consent page answers: an error page, a redirect with an error code and the state, or the question.\<close>

datatype authorize_answer =
    NotAvailable
  | ErrorPage
  | ErrorRedirect string string string
  | ConsentPage oclient string auth_params

definition handle_authorize :: "oauth_env \<Rightarrow> json \<Rightarrow> authorize_answer oact" where
  "handle_authorize E data w =
     (if \<not> is_ready (oe_registry E) (oe_origin E) then (Inr NotAvailable, w)
      else case resolve_client_and_redirect E data w of
        (Inl (RenderedError m), w') \<Rightarrow> (Inr ErrorPage, w')
      | (Inl e, w') \<Rightarrow> (Inl e, w')
      | (Inr (client, uri), w') \<Rightarrow>
         (case validate_parameters E data of
            Inl (RenderedError m) \<Rightarrow> (Inr ErrorPage, w')
          | Inl (RedirectableError code m) \<Rightarrow> (Inr (ErrorRedirect uri code (case single data ''state'' of None \<Rightarrow> [] | Some s \<Rightarrow> s)), w')
          | Inl e \<Rightarrow> (Inl e, w')
          | Inr p \<Rightarrow> (Inr (ConsentPage client uri p), w')))"

text \<open>
  The request that approves: the prefix of its bearer, the claims of its session token, and the time of
  its sign-in.
\<close>

record approver =
  av_user :: int
  av_bearer :: string
  av_token :: "string option"
  av_auth_time :: "int option"

definition session_auth_time :: "oauth_env \<Rightarrow> approver \<Rightarrow> int option" where
  "session_auth_time E a =
     (case av_token a of
        None \<Rightarrow> None
      | Some raw \<Rightarrow> if raw = [] then None
                   else (case oe_decode E raw of None \<Rightarrow> None | Some c \<Rightarrow> if cl_type c \<noteq> ''access'' then None else av_auth_time a))"

text \<open>The redirect address with the code, and the state that is echoed\<close>

definition handle_approve :: "oauth_env \<Rightarrow> approver \<Rightarrow> json \<Rightarrow> (string \<times> string \<times> string) oact" where
  "handle_approve E a data w =
     (if \<not> is_ready (oe_registry E) (oe_origin E) then (Inl (Denied ''Remote application access is not available''), w)
      else if av_bearer a \<noteq> ''bearer'' then (Inl (Denied ''An interactive session is required to approve access''), w)
      else case session_auth_time E a of
        None \<Rightarrow> (Inl (Denied ''An interactive session is required to approve access''), w)
      | Some auth_time \<Rightarrow>
         (case resolve_client_and_redirect E data w of
            (Inl (RenderedError m), w') \<Rightarrow> (Inl (BadValue m), w')
          | (Inl e, w') \<Rightarrow> (Inl e, w')
          | (Inr (client, uri), w') \<Rightarrow>
             (case validate_parameters E data of
                Inl (RenderedError m) \<Rightarrow> (Inl (BadValue m), w')
              | Inl (RedirectableError c m) \<Rightarrow> (Inl (BadValue m), w')
              | Inl e \<Rightarrow> (Inl e, w')
              | Inr p \<Rightarrow>
                  obind (mint_code E (av_user a) client uri (ap_challenge p) (ap_scope p) (ap_resource p) auth_time) (\<lambda>code.
                  oret (uri, code, ap_state p)) w')))"

section \<open>Endpoints\<close>

datatype token_answer = Issued token_response | OAuthError string int | NotFound404

definition answered :: "token_answer oact \<Rightarrow> (oauth_error \<Rightarrow> token_answer option) \<Rightarrow> token_answer oact" where
  "answered m h w = (case m w of (Inl e, w') \<Rightarrow> (case h e of Some a \<Rightarrow> (Inr a, w') | None \<Rightarrow> (Inl e, w')) | x \<Rightarrow> x)"

definition client_answer :: "oauth_error \<Rightarrow> token_answer option" where
  "client_answer e = (case e of ClientError c m \<Rightarrow> Some (OAuthError c 401) | TokenError c m \<Rightarrow> Some (OAuthError c 400)
     | RotationLost \<Rightarrow> Some (OAuthError ''invalid_grant'' 400) | _ \<Rightarrow> None)"

text \<open>After the code is spent: the grant, linked to the code, and its first credentials\<close>

definition redeem_code :: "oauth_env \<Rightarrow> bool \<Rightarrow> ocode \<Rightarrow> oclient \<Rightarrow> json option \<Rightarrow> token_answer oact" where
  "redeem_code E live code client wanted =
     (if \<not> live then oret (OAuthError ''invalid_grant'' 400)
     else if \<not> none_or_falsy wanted \<and> wanted \<noteq> Some (JStr (cd_resource code)) then oret (OAuthError ''invalid_target'' 400)
     else if \<not> resource_enabled (resolve_resource (oe_registry E) (resource_path (oe_ip6 E) (cd_resource code))) then oret (OAuthError ''invalid_grant'' 400)
     else obind (create_grant E (cd_user code) (oc_pk client) (words (cd_scope code)) (cd_resource code) (cd_auth_time code)) (\<lambda>g.
          obind (omodify (update_code (cd_pk code) (\<lambda>c. c\<lparr>cd_grant := Some (gt_pk g)\<rparr>))) (\<lambda>_.
          obind (issue_tokens E g None) (\<lambda>r. oret (Issued r)))))"

definition exchange_code :: "oauth_env \<Rightarrow> (oworld \<Rightarrow> oworld) \<Rightarrow> json \<Rightarrow> token_answer oact" where
  "exchange_code E meanwhile data =
     (if \<exists>f \<in> {''code'', ''code_verifier'', ''redirect_uri'', ''client_id''}. none_or_falsy (jdict_get data f)
      then oret (OAuthError ''invalid_request'' 400)
      else answered
        (obind (resolve_client E (jdict_get data ''client_id'')) (\<lambda>client.
         obind (consume_code E meanwhile (the (jdict_get data ''code'')) client (the (jdict_get data ''redirect_uri'')) (the (jdict_get data ''code_verifier''))) (\<lambda>(code, live).
         redeem_code E live code client (jdict_get data ''resource'')))) client_answer)"

definition refresh_endpoint :: "oauth_env \<Rightarrow> (oworld \<Rightarrow> oworld) \<Rightarrow> json \<Rightarrow> token_answer oact" where
  "refresh_endpoint E meanwhile data =
     (if none_or_falsy (jdict_get data ''refresh_token'') \<or> none_or_falsy (jdict_get data ''client_id'')
      then oret (OAuthError ''invalid_request'' 400)
      else answered
        (obind (resolve_client E (jdict_get data ''client_id'')) (\<lambda>client.
         obind (refresh_grant E meanwhile (jdict_get data ''refresh_token'') client (jdict_get data ''resource'') (jdict_get data ''scope'')) (\<lambda>r.
         oret (Issued r)))) client_answer)"

definition on_token :: "oauth_env \<Rightarrow> (oworld \<Rightarrow> oworld) \<Rightarrow> json \<Rightarrow> token_answer oact" where
  "on_token E meanwhile data =
     (if \<not> is_ready (oe_registry E) (oe_origin E) then oret NotFound404
      else if jdict_get data ''grant_type'' = Some (JStr ''authorization_code'') then exchange_code E meanwhile data
      else if jdict_get data ''grant_type'' = Some (JStr ''refresh_token'') then refresh_endpoint E meanwhile data
      else oret (OAuthError ''unsupported_grant_type'' 400))"

text \<open>The revocation endpoint answers 200 whatever it finds (\<open>None\<close> is 404, \<open>Some False\<close> a bad request).\<close>

definition on_revoke :: "oauth_env \<Rightarrow> json \<Rightarrow> bool option oact" where
  "on_revoke E data =
     (if \<not> is_ready (oe_registry E) (oe_origin E) then oret None
      else if none_or_falsy (jdict_get data ''token'') \<or> none_or_falsy (jdict_get data ''client_id'') then oret (Some False)
      else (\<lambda>w. case resolve_client E (jdict_get data ''client_id'') w of
          (Inl (ClientError c m), w') \<Rightarrow> (Inr (Some True), w')
        | (Inl e, w') \<Rightarrow> (Inl e, w')
        | (Inr client, w') \<Rightarrow> obind (revoke_token E (jdict_get data ''token'') client) (\<lambda>_. oret (Some True)) w'))"

definition on_register :: "oauth_env \<Rightarrow> json \<Rightarrow> (token_answer + registration) oact" where
  "on_register E data =
     (if \<not> is_ready (oe_registry E) (oe_origin E) then oret (Inl NotFound404)
      else (\<lambda>w. case register_client E data w of
          (Inl (ClientError c m), w') \<Rightarrow> (Inr (Inl (OAuthError c 400)), w')
        | (Inl e, w') \<Rightarrow> (Inl e, w')
        | (Inr r, w') \<Rightarrow> (Inr (Inr r), w')))"

end
