(* ===== verification/OAuth_Laws.thy ===== *)
theory OAuth_Laws
  imports OAuth_Server
begin

text \<open>
  What the authorization server guarantees. The first part is about single operations: what a resource
  covers, what consent can bind together, what an accepted access token implies. The second is about
  runs: an inactive grant is never changed again, every grant was approved by its user for exactly its
  client, resource and scope, a code yields credentials once, and a refresh secret that is presented
  again after its window ends the grant.
\<close>

section \<open>Resources\<close>

lemma rstrip_char_id: "s = [] \<or> last s \<noteq> c \<Longrightarrow> rstrip_char c s = s"
  by (cases s rule: rev_cases) (auto simp: rstrip_char_def)

text \<open>
  A prefix entry covers its own path and what lies strictly beneath it; any other entry covers its path.
\<close>

theorem covers_exactly:
  "covers_path e (Some p) \<longleftrightarrow> p \<noteq> [] \<and> (p = re_path e \<or> re_prefix e \<and> (\<exists>rest. p = rstrip_char CHR ''/'' (re_path e) @ CHR ''/'' # rest))"
  by (auto simp: covers_path_def starts_with_iff)

definition entry_ok :: "resource_entry \<Rightarrow> bool" where
  "entry_ok e \<longleftrightarrow> (re_prefix e \<longleftrightarrow> API_SCOPE \<in> set (re_scopes e)) \<and> starts_with (re_path e) ''/'' \<and> (re_prefix e \<longrightarrow> strip_char CHR ''/'' (re_path e) \<noteq> [])"

lemma register_keeps_registry:
  "list_all entry_ok reg \<Longrightarrow> register_resource reg path scopes enabled subtree = Inr reg' \<Longrightarrow> list_all entry_ok reg'"
  by (auto simp: register_resource_def store_entry_def entry_ok_def list_all_iff split: if_splits)

section \<open>Consent\<close>

lemma find_Some_in: "find P xs = Some x \<Longrightarrow> x \<in> set xs \<and> P x"
  by (induction xs) (auto split: if_splits)

lemma consent_resource:
  assumes "resolve_request_resource E data granted = Inr (e, resource)"
  shows "e \<in> set (oe_registry E)" "resource_enabled (Some e)" "re_prefix e \<longleftrightarrow> API_SCOPE \<in> set granted" "set granted \<subseteq> set (re_scopes e)"
    "resource = canonical_url (oe_origin E) (re_path e)"
proof -
  have "e \<in> set (eligible_entries (oe_registry E) granted) \<and> resource = canonical_url (oe_origin E) (re_path e)"
    using assms by (auto simp: resolve_request_resource_def Let_def split: option.splits json.splits list.splits if_splits dest!: find_Some_in)
  then show "e \<in> set (oe_registry E)" "resource_enabled (Some e)" "re_prefix e \<longleftrightarrow> API_SCOPE \<in> set granted" "set granted \<subseteq> set (re_scopes e)"
    "resource = canonical_url (oe_origin E) (re_path e)"
    by (auto simp: eligible_entries_def enabled_resources_def)
qed

section \<open>Access\<close>

lemma grant_by_in: "grant_by P w = Some g \<Longrightarrow> g \<in> set (ow_grants w) \<and> P g"
  by (simp add: grant_by_def find_Some_in)

text \<open>What an accepted access token implies\<close>

lemma access_facts:
  assumes "validate_access E token c rp w = (Inr (Accepted u pk), w')"
  shows "\<exists>g \<in> set (ow_grants w). \<exists>p path parts e. gt_pk g = pk \<and> gt_user g = u \<and> gt_active g \<and> cl_jti c = JStr (gt_jti g)
    \<and> cl_aud c = JStr (gt_resource g) \<and> rp = Some p \<and> urlsplit (oe_ip6 E) (gt_resource g) = Some parts \<and> path = u_path parts
    \<and> resolve_resource (oe_registry E) path = Some e \<and> resource_enabled (Some e) \<and> covers_path e (Some p)
    \<and> (re_prefix e \<longrightarrow> API_SCOPE \<in> set (gt_scopes g))
    \<and> user_active w u \<and> client_active w (gt_client g) \<and> oe_verify E (user_key w u) token (gt_resource g) (oe_now E) = JwtValid"
  using assms
  by (auto simp: validate_access_def oact_defs Let_def update_grants_def
      split: option.splits json.splits if_splits jwt_verdict.splits dest!: grant_by_in)

section \<open>Runs\<close>

text \<open>A consent binds a user, a client, a resource and the scopes; so do a code and a grant.\<close>

type_synonym terms = "int \<times> int \<times> string \<times> string list"

definition grant_terms :: "ogrant \<Rightarrow> terms" where
  "grant_terms g = (gt_user g, gt_client g, gt_resource g, gt_scopes g)"

definition code_terms :: "ocode \<Rightarrow> terms" where
  "code_terms c = (cd_user c, cd_client c, cd_resource c, words (cd_scope c))"

text \<open>What the page that the approver saw says, when the approval goes through\<close>

definition consented :: "oauth_env \<Rightarrow> approver \<Rightarrow> json \<Rightarrow> oworld \<Rightarrow> terms set" where
  "consented E a data w =
     (case (fst (handle_approve E a data w), fst (handle_authorize E data w)) of
        (Inr _, Inr (ConsentPage client uri p)) \<Rightarrow> {(av_user a, oc_pk client, ap_resource p, words (ap_scope p))}
      | _ \<Rightarrow> {})"

text \<open>
  What requests do to the rows. A refresh may be interrupted between its check and its rotation by any
  run of other requests, and so may an exchange before and after it burns the code; users and clients may be switched off, deleted or given new keys at any time,
  and the cache may forget. \<open>A\<close> holds every consent that is given.
\<close>

inductive ostep :: "terms set \<Rightarrow> oworld \<Rightarrow> oworld \<Rightarrow> bool" and oreach :: "terms set \<Rightarrow> oworld \<Rightarrow> oworld \<Rightarrow> bool" for A where
  reach_refl: "oreach A w w"
| reach_step: "oreach A u v \<Longrightarrow> ostep A v w \<Longrightarrow> oreach A u w"
| step_page: "ostep A w (snd (handle_authorize E data w))"
| step_approve: "consented E a data w \<subseteq> A \<Longrightarrow> ostep A w (snd (handle_approve E a data w))"
| step_token: "(\<And>v. oreach A v (m v)) \<Longrightarrow> ostep A w (snd (on_token E m data w))"
| step_exchange: "(\<And>v. oreach A v (m v)) \<Longrightarrow> consume_code E m raw client redirect verifier w = (Inr (code, live), v) \<Longrightarrow> oreach A v u
    \<Longrightarrow> ostep A w (snd (answered (redeem_code E live code client wanted) client_answer u))"
| step_revoke: "ostep A w (snd (on_revoke E data w))"
| step_register: "ostep A w (snd (on_register E data w))"
| step_access: "ostep A w (snd (validate_access E token c rp w))"
| step_admin: "ostep A w (snd (revoke_grant_by_id E pk w))"
| step_admin_all: "ostep A w (snd (revoke_all_grants E user paths w))"
| step_outside: "ostep A w (w\<lparr>ow_users := U, ow_clients := C, ow_cimd := M\<rparr>)"

section \<open>What every run retains\<close>

text \<open>The terms of a grant never change; it can only become inactive. A consumed code stays consumed.\<close>

definition same_terms :: "ogrant \<Rightarrow> ogrant \<Rightarrow> bool" where
  "same_terms g g' \<longleftrightarrow> gt_pk g' = gt_pk g \<and> grant_terms g' = grant_terms g \<and> gt_auth_time g' = gt_auth_time g
     \<and> gt_refresh_expires g' = gt_refresh_expires g \<and> (gt_active g' \<longrightarrow> gt_active g)"

definition same_code :: "ocode \<Rightarrow> ocode \<Rightarrow> bool" where
  "same_code c c' \<longleftrightarrow> cd_pk c' = cd_pk c \<and> code_terms c' = code_terms c \<and> cd_hash c' = cd_hash c \<and> cd_challenge c' = cd_challenge c
     \<and> cd_expires c' = cd_expires c \<and> (cd_consumed c \<longrightarrow> cd_consumed c')"

definition evolves :: "oworld \<Rightarrow> oworld \<Rightarrow> bool" where
  "evolves w w' \<longleftrightarrow> ow_next w \<le> ow_next w'
     \<and> (\<forall>g \<in> set (ow_grants w). \<exists>g' \<in> set (ow_grants w'). same_terms g g')
     \<and> (\<forall>g' \<in> set (ow_grants w'). (\<exists>g \<in> set (ow_grants w). same_terms g g') \<or> ow_next w \<le> gt_pk g')
     \<and> (\<forall>c' \<in> set (ow_codes w'). (\<exists>c \<in> set (ow_codes w). same_code c c') \<or> ow_next w \<le> cd_pk c')"

definition consistent :: "terms set \<Rightarrow> oworld \<Rightarrow> bool" where
  "consistent A w \<longleftrightarrow> distinct (map gt_pk (ow_grants w)) \<and> distinct (map cd_pk (ow_codes w))
     \<and> (\<forall>g \<in> set (ow_grants w). gt_pk g < ow_next w \<and> grant_terms g \<in> A)
     \<and> (\<forall>c \<in> set (ow_codes w). cd_pk c < ow_next w \<and> code_terms c \<in> A)"

lemma same_terms_refl [simp]: "same_terms g g"
  by (simp add: same_terms_def)

lemma same_code_refl [simp]: "same_code c c"
  by (simp add: same_code_def)

lemma same_self [intro]: "g \<in> S \<Longrightarrow> \<exists>x \<in> S. same_terms g x" "g \<in> S \<Longrightarrow> \<exists>x \<in> S. same_terms x g" "c \<in> T \<Longrightarrow> \<exists>x \<in> T. same_code x c"
  using same_terms_refl same_code_refl by blast+

lemma evolves_refl [simp]: "evolves w w"
  by (auto simp: evolves_def)

lemma same_terms_trans: "same_terms a b \<Longrightarrow> same_terms b c \<Longrightarrow> same_terms a c"
  by (simp add: same_terms_def)

lemma same_code_trans: "same_code a b \<Longrightarrow> same_code b c \<Longrightarrow> same_code a c"
  by (simp add: same_code_def)

lemma same_pk: "same_terms g g' \<Longrightarrow> gt_pk g' = gt_pk g" "same_code c c' \<Longrightarrow> cd_pk c' = cd_pk c"
  by (simp_all add: same_terms_def same_code_def)

lemma evolves_trans:
  assumes uv: "evolves u v" and vw: "evolves v w"
  shows "evolves u w"
proof -
  have n: "ow_next u \<le> ow_next v" "ow_next v \<le> ow_next w" using assms by (auto simp: evolves_def)
  have "\<exists>g' \<in> set (ow_grants w). same_terms g g'" if "g \<in> set (ow_grants u)" for g
    using that uv vw unfolding evolves_def by (meson same_terms_trans)
  moreover have "(\<exists>g \<in> set (ow_grants u). same_terms g g') \<or> ow_next u \<le> gt_pk g'" if g': "g' \<in> set (ow_grants w)" for g'
  proof (cases "\<exists>h \<in> set (ow_grants v). same_terms h g'")
    case True
    then obtain h where h: "h \<in> set (ow_grants v)" "same_terms h g'" by blast
    with uv have "(\<exists>g \<in> set (ow_grants u). same_terms g h) \<or> ow_next u \<le> gt_pk h" by (simp add: evolves_def)
    with h(2) show ?thesis by (metis same_terms_trans same_pk(1))
  next
    case False
    with vw g' n show ?thesis by (force simp: evolves_def)
  qed
  moreover have "(\<exists>c \<in> set (ow_codes u). same_code c c') \<or> ow_next u \<le> cd_pk c'" if c': "c' \<in> set (ow_codes w)" for c'
  proof (cases "\<exists>h \<in> set (ow_codes v). same_code h c'")
    case True
    then obtain h where h: "h \<in> set (ow_codes v)" "same_code h c'" by blast
    with uv have "(\<exists>c \<in> set (ow_codes u). same_code c h) \<or> ow_next u \<le> cd_pk h" by (simp add: evolves_def)
    with h(2) show ?thesis by (metis same_code_trans same_pk(2))
  next
    case False
    with vw c' n show ?thesis by (force simp: evolves_def)
  qed
  ultimately show ?thesis using n by (simp add: evolves_def)
qed

section \<open>A calculus of operations that keep it\<close>

text \<open>\<open>m\<close> retains the invariant and evolves the rows, and its answer satisfies \<open>Q\<close>.\<close>

definition retains :: "terms set \<Rightarrow> 'a oact \<Rightarrow> ('a \<Rightarrow> bool) \<Rightarrow> bool" where
  "retains A m Q \<longleftrightarrow> (\<forall>w. consistent A w \<longrightarrow> consistent A (snd (m w)) \<and> evolves w (snd (m w)) \<and> (\<forall>x. fst (m w) = Inr x \<longrightarrow> Q x))"

definition any_answer :: "'a \<Rightarrow> bool" where
  "any_answer x \<longleftrightarrow> True"

lemma any_answer_iff [simp]: "any_answer x"
  by (simp add: any_answer_def)

lemma retainsI: "(\<And>w. consistent A w \<Longrightarrow> consistent A (snd (m w)) \<and> evolves w (snd (m w)) \<and> (\<forall>x. fst (m w) = Inr x \<longrightarrow> Q x)) \<Longrightarrow> retains A m Q"
  by (simp add: retains_def)

lemma retainsD: "retains A m Q \<Longrightarrow> consistent A w \<Longrightarrow> consistent A (snd (m w)) \<and> evolves w (snd (m w))"
  by (simp add: retains_def)

lemma retains_bind:
  assumes m: "retains A m P" and f: "\<And>x. P x \<Longrightarrow> retains A (f x) Q"
  shows "retains A (obind m f) Q"
proof (rule retainsI)
  fix w assume w: "consistent A w"
  with m have 1: "consistent A (snd (m w))" "evolves w (snd (m w))" "\<forall>x. fst (m w) = Inr x \<longrightarrow> P x" by (auto simp: retains_def)
  show "consistent A (snd (obind m f w)) \<and> evolves w (snd (obind m f w)) \<and> (\<forall>x. fst (obind m f w) = Inr x \<longrightarrow> Q x)"
  proof (cases "m w")
    case (Pair r v)
    show ?thesis
    proof (cases r)
      case (Inl e)
      with 1 Pair show ?thesis by (simp add: obind_def)
    next
      case (Inr x)
      with 1 Pair have "P x" "consistent A v" "evolves w v" by auto
      with f [of x] have "consistent A (snd (f x v)) \<and> evolves v (snd (f x v)) \<and> (\<forall>y. fst (f x v) = Inr y \<longrightarrow> Q y)"
        by (simp add: retains_def)
      with Pair Inr \<open>evolves w v\<close> show ?thesis by (auto simp: obind_def intro: evolves_trans)
    qed
  qed
qed

lemma retains_weaken: "retains A m P \<Longrightarrow> (\<And>x. P x \<Longrightarrow> Q x) \<Longrightarrow> retains A m Q"
  by (auto simp: retains_def)

lemma retains_top: "retains A m P \<Longrightarrow> retains A m any_answer"
  by (erule retains_weaken) simp

lemma retains_ret: "Q x \<Longrightarrow> retains A (oret x) Q"
  by (simp add: retains_def oret_def)

lemma retains_fail: "retains A (ofail e) Q"
  by (simp add: retains_def ofail_def)

lemma retains_get: "retains A (oget f) any_answer"
  by (simp add: retains_def oget_def)

lemma retains_get_post: "(\<And>w. consistent A w \<Longrightarrow> Q (f w)) \<Longrightarrow> retains A (oget f) Q"
  by (simp add: retains_def oget_def)

lemma retains_lift: "retains A (olift r) any_answer"
  by (simp add: retains_def olift_def)

lemma retains_modify:
  "(\<And>w. consistent A w \<Longrightarrow> consistent A (f w) \<and> evolves w (f w)) \<Longrightarrow> retains A (omodify f) any_answer"
  by (simp add: retains_def omodify_def)

lemma retains_if: "(b \<Longrightarrow> retains A m Q) \<Longrightarrow> (\<not> b \<Longrightarrow> retains A m' Q) \<Longrightarrow> retains A (if b then m else m') Q"
  by simp

text \<open>Changes that do not touch the rows of grants and codes\<close>

lemma retains_aside:
  assumes "\<And>w. ow_grants (f w) = ow_grants w \<and> ow_codes (f w) = ow_codes w \<and> ow_next w \<le> ow_next (f w)"
  shows "retains A (omodify f) any_answer"
proof (rule retains_modify)
  fix w assume "consistent A w"
  with assms [of w] show "consistent A (f w) \<and> evolves w (f w)"
    by (fastforce simp: consistent_def evolves_def intro: same_terms_refl same_code_refl)
qed

lemma retains_update_grants:
  assumes "\<And>r. P r \<Longrightarrow> same_terms r (f r)"
  shows "retains A (update_grants P f) any_answer"
proof (rule retainsI)
  fix w assume w: "consistent A w"
  define h where "h = (\<lambda>g. if P g then f g else g)"
  have h: "same_terms g (h g)" for g using assms by (simp add: h_def)
  have r: "snd (update_grants P f w) = w\<lparr>ow_grants := map h (ow_grants w)\<rparr>" by (simp add: update_grants_def h_def)
  have pk: "gt_pk (h g) = gt_pk g" "grant_terms (h g) = grant_terms g" for g using h [of g] by (simp_all add: same_terms_def)
  have "map gt_pk (map h (ow_grants w)) = map gt_pk (ow_grants w)" by (simp add: comp_def pk)
  with w have "consistent A (w\<lparr>ow_grants := map h (ow_grants w)\<rparr>)" by (auto simp: consistent_def pk comp_def)
  moreover have "evolves w (w\<lparr>ow_grants := map h (ow_grants w)\<rparr>)" using h by (auto simp: evolves_def)
  ultimately show "consistent A (snd (update_grants P f w)) \<and> evolves w (snd (update_grants P f w))
    \<and> (\<forall>x. fst (update_grants P f w) = Inr x \<longrightarrow> any_answer x)" by (simp add: r)
qed

lemma retains_update_code:
  assumes "\<And>c. same_code c (f c)"
  shows "retains A (omodify (update_code pk f)) any_answer"
proof (rule retains_modify)
  fix w assume w: "consistent A w"
  define h where "h = (\<lambda>c. if cd_pk c = pk then f c else c)"
  have h: "same_code c (h c)" for c using assms by (simp add: h_def)
  have r: "update_code pk f w = w\<lparr>ow_codes := map h (ow_codes w)\<rparr>" by (simp add: update_code_def h_def)
  have pk: "cd_pk (h c) = cd_pk c" "code_terms (h c) = code_terms c" for c using h [of c] by (simp_all add: same_code_def)
  from w have "consistent A (w\<lparr>ow_codes := map h (ow_codes w)\<rparr>)" by (auto simp: consistent_def pk comp_def)
  moreover have "evolves w (w\<lparr>ow_codes := map h (ow_codes w)\<rparr>)" using h by (auto simp: evolves_def)
  ultimately show "consistent A (update_code pk f w) \<and> evolves w (update_code pk f w)" by (simp add: r)
qed

lemma retains_create_grant:
  assumes "(user, client, resource, scopes) \<in> A"
  shows "retains A (create_grant E user client scopes resource t) any_answer"
proof (rule retainsI)
  fix w assume w: "consistent A w"
  let ?g = "new_grant E (ow_next w) user client scopes resource t"
  let ?w = "w\<lparr>ow_grants := ow_grants w @ [?g], ow_next := ow_next w + 1\<rparr>"
  have g: "gt_pk ?g = ow_next w" "grant_terms ?g = (user, client, resource, scopes)" by (simp_all add: new_grant_def grant_terms_def)
  have "consistent A ?w" using w assms by (force simp: consistent_def g)
  moreover have "evolves w ?w" by (force simp: evolves_def g intro: same_terms_refl same_code_refl)
  ultimately show "consistent A (snd (create_grant E user client scopes resource t w)) \<and> evolves w (snd (create_grant E user client scopes resource t w))
    \<and> (\<forall>x. fst (create_grant E user client scopes resource t w) = Inr x \<longrightarrow> any_answer x)"
    by (simp add: create_grant_def oact_defs Let_def)
qed

lemma retains_mint_code:
  assumes "(user, oc_pk client, resource, words scope) \<in> A"
  shows "retains A (mint_code E user client redirect challenge scope resource t) any_answer"
proof (rule retainsI)
  fix w assume w: "consistent A w"
  define c where "c = \<lparr>cd_pk = ow_next w, cd_client = oc_pk client, cd_user = user, cd_hash = oe_sha E (oe_raw E), cd_redirect = redirect,
         cd_challenge = challenge, cd_scope = scope, cd_resource = resource, cd_auth_time = t,
         cd_expires = oe_now E + of_int (oe_code_ttl E), cd_consumed = False, cd_grant = None\<rparr>"
  let ?w = "w\<lparr>ow_next := ow_next w + 1, ow_codes := filter (\<lambda>c. cd_expires c \<ge> oe_now E - 86400) (ow_codes w @ [c])\<rparr>"
  have c: "cd_pk c = ow_next w" "code_terms c = (user, oc_pk client, resource, words scope)" by (simp_all add: c_def code_terms_def)
  from w have d: "distinct (map cd_pk (ow_codes w @ [c]))" by (force simp: consistent_def c)
  have "distinct (map cd_pk (filter (\<lambda>c. cd_expires c \<ge> oe_now E - 86400) (ow_codes w @ [c])))"
    using d by (rule distinct_map_filter)
  with w assms have "consistent A ?w" by (force simp: consistent_def c)
  moreover have "evolves w ?w" by (force simp: evolves_def c intro: same_terms_refl same_code_refl)
  ultimately show "consistent A (snd (mint_code E user client redirect challenge scope resource t w))
      \<and> evolves w (snd (mint_code E user client redirect challenge scope resource t w))
      \<and> (\<forall>x. fst (mint_code E user client redirect challenge scope resource t w) = Inr x \<longrightarrow> any_answer x)"
    by (simp add: mint_code_def oact_defs c_def)
qed

section \<open>Every operation retains it\<close>

lemmas retains_steps = retains_bind [where P = any_answer] retains_get retains_lift retains_fail retains_if

lemma retains_retT: "retains A (oret x) any_answer"
  by (simp add: retains_ret)

lemma retains_cache: "retains A (cache_verdict E url v) any_answer"
  unfolding cache_verdict_def by (rule retains_aside) simp

lemma retains_fetch: "retains A (fetch_cimd_document E url) any_answer"
  unfolding fetch_cimd_document_def
  by (intro retains_steps retains_cache) (auto split: option.splits json.splits sum.splits intro!: retains_steps retains_retT retains_cache)

lemma retains_insert_client: "retains A (omodify (insert_client c)) any_answer"
  by (rule retains_aside) (simp add: insert_client_def)

lemma retains_update_client: "retains A (omodify (update_client cid f)) any_answer"
  by (rule retains_aside) (simp add: update_client_def)

lemma retains_resolve_cimd: "retains A (resolve_cimd_client E url) any_answer"
  unfolding resolve_cimd_client_def Let_def
  by (intro retains_steps retains_fetch retains_insert_client retains_update_client retains_retT)
    (auto split: option.splits intro!: retains_fail retains_retT)

lemma retains_resolve: "retains A (resolve_client E cid) any_answer"
  by (auto simp: resolve_client_def split: option.splits json.splits intro!: retains_steps retains_retT retains_resolve_cimd)

lemma retains_register: "retains A (register_client E data) any_answer"
  unfolding register_client_def by (intro retains_steps retains_insert_client retains_retT)

lemma retains_mint_access: "retains A (mint_access_token E g ttl) any_answer"
  unfolding mint_access_token_def Let_def
  by (intro retains_steps retains_update_grants retains_retT) (simp add: same_terms_def grant_terms_def)

lemma retains_response: "retains A (make_response E g raw) any_answer"
  unfolding make_response_def by (intro retains_steps retains_mint_access retains_retT)

lemma retains_issue: "retains A (issue_tokens E g expected) any_answer"
  unfolding issue_tokens_def
  by (intro retains_steps retains_update_grants retains_response) (simp add: same_terms_def grant_terms_def)

lemma retains_grace: "retains A (issue_grace_pair E g) any_answer"
  unfolding issue_grace_pair_def
  by (intro retains_steps retains_update_grants retains_response) (simp add: same_terms_def grant_terms_def)

lemma retains_check: "retains A (check_refreshable E g client resource scope) any_answer"
  by (simp add: retains_def check_refreshable_def)

lemma retains_revoke: "retains A (revoke_grant E g reason) any_answer"
  unfolding revoke_grant_def
  by (intro retains_steps retains_update_grants retains_retT) (simp add: same_terms_def grant_terms_def)

lemma retains_incident: "retains A (report_incident u k) any_answer"
  unfolding report_incident_def by (rule retains_aside) simp

lemma retains_grace_or_replay: "retains A (grace_or_replay E g client resource scope) any_answer"
  unfolding grace_or_replay_def by (intro retains_steps retains_check retains_grace retains_revoke retains_incident)

lemma retains_on_lost: "retains A m Q \<Longrightarrow> retains A h Q \<Longrightarrow> retains A (on_rotation_lost m h) Q"
proof (rule retainsI)
  fix w assume m: "retains A m Q" and h: "retains A h Q" and w: "consistent A w"
  obtain r v where mw: "m w = (r, v)" by (cases "m w")
  with m w have 1: "consistent A v" "evolves w v" "\<forall>x. r = Inr x \<longrightarrow> Q x" by (auto simp: retains_def)
  with h have 2: "consistent A (snd (h v)) \<and> evolves v (snd (h v)) \<and> (\<forall>x. fst (h v) = Inr x \<longrightarrow> Q x)" by (simp add: retains_def)
  show "consistent A (snd (on_rotation_lost m h w)) \<and> evolves w (snd (on_rotation_lost m h w))
     \<and> (\<forall>x. fst (on_rotation_lost m h w) = Inr x \<longrightarrow> Q x)"
    using 1 2 mw by (auto simp: on_rotation_lost_def split: sum.splits oauth_error.splits intro: evolves_trans)
qed

lemma retains_refresh:
  assumes "retains A (omodify m) any_answer"
  shows "retains A (refresh_grant E m raw client resource scope) any_answer"
  unfolding refresh_grant_def Let_def
  by (auto split: option.splits json.splits
      intro!: retains_steps retains_check retains_on_lost retains_issue retains_grace_or_replay assms)

lemma retains_revoke_token: "retains A (revoke_token E raw client) any_answer"
  unfolding revoke_token_def
  by (auto split: option.splits json.splits intro!: retains_steps retains_retT retains_revoke)

lemma retains_revoke_by_id: "retains A (revoke_grant_by_id E pk) any_answer"
  unfolding revoke_grant_by_id_def by (auto split: option.splits intro!: retains_steps retains_retT retains_revoke)

lemma retains_revoke_all: "retains A (revoke_all_grants E user paths) any_answer"
  unfolding revoke_all_grants_def
  by (intro retains_steps retains_retT retains_update_grants) (simp add: same_terms_def grant_terms_def)

lemma retains_access: "retains A (validate_access E token c rp) any_answer"
  unfolding validate_access_def Let_def
  by (auto split: option.splits json.splits jwt_verdict.splits intro!: retains_steps retains_retT retains_update_grants)
    (auto simp: same_terms_def grant_terms_def)

lemma retains_burn: "retains A (burn_code pk) any_answer"
proof -
  have m: "retains A (omodify (update_code pk (\<lambda>c. if cd_consumed c then c else c\<lparr>cd_consumed := True\<rparr>))) any_answer"
    by (rule retains_update_code) (simp add: same_code_def code_terms_def)
  show ?thesis using m by (simp add: retains_def burn_code_def omodify_def)
qed

lemma retains_consume:
  assumes m: "retains A (omodify m) any_answer"
  shows "retains A (consume_code E m raw client redirect verifier) (\<lambda>(row, live). code_terms row \<in> A \<and> cd_client row = oc_pk client)"
    (is "retains A _ ?Q")
proof -
  have found: "retains A (oget (\<lambda>w. map_option (\<lambda>row. (row, user_active w (cd_user row))) (code_by h w)))
      (\<lambda>found. case found of None \<Rightarrow> True | Some (row, live) \<Rightarrow> code_terms row \<in> A)" for h
    by (rule retains_get_post) (auto simp: code_by_def consistent_def split: option.splits dest!: find_Some_in)
  have replay: "retains A (case cd_grant row of None \<Rightarrow> oret False
      | Some pk \<Rightarrow> obind (oget (grant_by (\<lambda>g. gt_pk g = pk))) (\<lambda>g. case g of None \<Rightarrow> oret False | Some g \<Rightarrow> revoke_grant E g ''code_replay'')) any_answer" for row
    by (auto split: option.splits intro!: retains_steps retains_retT retains_revoke)
  have tail: "retains A (if cd_consumed row then
        obind (case cd_grant row of None \<Rightarrow> oret False
          | Some pk \<Rightarrow> obind (oget (grant_by (\<lambda>g. gt_pk g = pk))) (\<lambda>g. case g of None \<Rightarrow> oret False | Some g \<Rightarrow> revoke_grant E g ''code_replay''))
        (\<lambda>_. obind (report_incident (cd_user row) ''oauth:code_replay'') (\<lambda>_. ofail invalid_code))
      else obind (omodify m) (\<lambda>_. obind (burn_code (cd_pk row)) (\<lambda>n. if n \<noteq> 1 then ofail invalid_code
        else if code_usable E row client redirect verifier then oret (row, live) else ofail invalid_code))) ?Q" if "code_terms row \<in> A" for row live
    using that by (intro retains_if retains_bind [OF replay] retains_bind [OF retains_incident] retains_bind [OF m] retains_bind [OF retains_burn] retains_fail retains_ret)
      (simp add: code_usable_def)
  have found_row: "retains A (case found of None \<Rightarrow> ofail invalid_code | Some (row, live) \<Rightarrow> if cd_consumed row then
        obind (case cd_grant row of None \<Rightarrow> oret False
          | Some pk \<Rightarrow> obind (oget (grant_by (\<lambda>g. gt_pk g = pk))) (\<lambda>g. case g of None \<Rightarrow> oret False | Some g \<Rightarrow> revoke_grant E g ''code_replay''))
        (\<lambda>_. obind (report_incident (cd_user row) ''oauth:code_replay'') (\<lambda>_. ofail invalid_code))
      else obind (omodify m) (\<lambda>_. obind (burn_code (cd_pk row)) (\<lambda>n. if n \<noteq> 1 then ofail invalid_code
        else if code_usable E row client redirect verifier then oret (row, live) else ofail invalid_code))) ?Q"
    if "case found of None \<Rightarrow> True | Some (row, live) \<Rightarrow> code_terms row \<in> A" for found
  proof (cases found)
    case (Some rl)
    with that show ?thesis by (cases rl) (simp_all only: option.case prod.case tail)
  qed (simp add: retains_fail)
  show ?thesis
    unfolding consume_code_def
    by (cases raw) (simp_all only: json.case retains_fail retains_if retains_bind [OF found found_row])
qed

lemma retains_redeem:
  assumes "code_terms code \<in> A" and "cd_client code = oc_pk client"
  shows "retains A (redeem_code E live code client wanted) any_answer"
proof -
  have t: "(cd_user code, oc_pk client, cd_resource code, words (cd_scope code)) \<in> A" using assms by (simp add: code_terms_def)
  have link: "retains A (omodify (update_code (cd_pk code) (\<lambda>c. c\<lparr>cd_grant := Some pk\<rparr>))) any_answer" for pk
    by (rule retains_update_code) (simp add: same_code_def code_terms_def)
  show ?thesis
    unfolding redeem_code_def by (intro retains_steps retains_retT retains_create_grant [OF t] link retains_issue)
qed

lemma retains_answered: "retains A m any_answer \<Longrightarrow> retains A (answered m h) any_answer"
  by (auto simp: retains_def answered_def split: prod.splits sum.splits option.splits)

lemma retains_exchange: "retains A (omodify m) any_answer \<Longrightarrow> retains A (exchange_code E m data) any_answer"
  unfolding exchange_code_def
  by (intro retains_if retains_retT retains_answered retains_bind [OF retains_resolve] retains_bind [OF retains_consume]) (auto intro: retains_redeem)

lemma retains_on_token: "retains A (omodify m) any_answer \<Longrightarrow> retains A (on_token E m data) any_answer"
  unfolding on_token_def refresh_endpoint_def
  by (intro retains_if retains_retT retains_exchange retains_answered retains_bind [OF retains_resolve] retains_bind [OF retains_refresh])

lemma retains_cases:
  assumes "retains A m any_answer" and "\<And>w. snd (m' w) = snd (m w) \<or> (\<exists>x. snd (m' w) = snd (k x (snd (m w))))"
    and "\<And>x. retains A (k x) any_answer"
  shows "retains A m' any_answer"
  unfolding retains_def
proof (intro allI impI)
  fix w assume w: "consistent A w"
  then have 1: "consistent A (snd (m w))" "evolves w (snd (m w))" using assms(1) by (auto simp: retains_def)
  have 2: "consistent A (snd (k x (snd (m w))))" "evolves (snd (m w)) (snd (k x (snd (m w))))" for x
    using retainsD [OF assms(3) 1(1), of x] by auto
  show "consistent A (snd (m' w)) \<and> evolves w (snd (m' w)) \<and> (\<forall>x. fst (m' w) = Inr x \<longrightarrow> any_answer x)"
    using assms(2) [of w] 1 2 by (auto intro: evolves_trans)
qed

lemma retains_on_revoke: "retains A (on_revoke E data) any_answer"
proof -
  have "retains A (\<lambda>w. case resolve_client E (jdict_get data ''client_id'') w of
          (Inl (ClientError c m), w') \<Rightarrow> (Inr (Some True), w')
        | (Inl e, w') \<Rightarrow> (Inl e, w')
        | (Inr client, w') \<Rightarrow> obind (revoke_token E (jdict_get data ''token'') client) (\<lambda>_. oret (Some True)) w') any_answer"
    by (rule retains_cases [OF retains_resolve [of A E "jdict_get data ''client_id''"], where k = "\<lambda>client. obind (revoke_token E (jdict_get data ''token'') client) (\<lambda>_. oret (Some True))"])
      (auto split: prod.splits sum.splits oauth_error.splits intro!: retains_steps retains_revoke_token retains_retT)
  then show ?thesis unfolding on_revoke_def by (intro retains_if retains_retT)
qed

lemma retains_on_register: "retains A (on_register E data) any_answer"
proof -
  have "retains A (\<lambda>w. case register_client E data w of
          (Inl (ClientError c m), w') \<Rightarrow> (Inr (Inl (OAuthError c 400)), w')
        | (Inl e, w') \<Rightarrow> (Inl e, w')
        | (Inr r, w') \<Rightarrow> (Inr (Inr r), w')) any_answer"
    by (rule retains_cases [OF retains_register [of A E data], where k = "\<lambda>_. oret ()"])
      (auto split: prod.splits sum.splits oauth_error.splits intro: retains_retT)
  then show ?thesis unfolding on_register_def by (intro retains_if retains_retT)
qed

section \<open>The pages\<close>

lemma snd_resolve_redirect: "snd (resolve_client_and_redirect E data w) = snd (resolve_client E (map_option JStr (single data ''client_id'')) w)"
  by (auto simp: resolve_client_and_redirect_def split: prod.splits sum.splits oauth_error.splits option.splits)

lemma snd_authorize: "snd (handle_authorize E data w) = w \<or> snd (handle_authorize E data w) = snd (resolve_client_and_redirect E data w)"
proof -
  obtain r v where rv: "resolve_client_and_redirect E data w = (r, v)" by fastforce
  show ?thesis
  proof (cases r)
    case (Inl e)
    with rv show ?thesis by (cases e) (simp_all add: handle_authorize_def)
  next
    case (Inr cu)
    obtain client uri where "cu = (client, uri)" by (cases cu)
    with rv Inr show ?thesis
      by (cases "validate_parameters E data") (auto simp: handle_authorize_def split: oauth_error.splits)
  qed
qed

lemma retains_authorize: "retains A (handle_authorize E data) any_answer"
  unfolding retains_def
proof (intro allI impI)
  fix w assume w: "consistent A w"
  have "consistent A (snd (resolve_client_and_redirect E data w)) \<and> evolves w (snd (resolve_client_and_redirect E data w))"
    using retainsD [OF retains_resolve w] by (simp add: snd_resolve_redirect)
  with snd_authorize [of E data w] w
  show "consistent A (snd (handle_authorize E data w)) \<and> evolves w (snd (handle_authorize E data w))
      \<and> (\<forall>x. fst (handle_authorize E data w) = Inr x \<longrightarrow> any_answer x)"
    by (metis evolves_refl any_answer_iff)
qed

text \<open>An approval mints a code for what the page shows; everything else leaves codes alone.\<close>

lemma approve_cases:
  obtains (none) "snd (handle_approve E a data w) = w \<or> snd (handle_approve E a data w) = snd (resolve_client_and_redirect E data w)"
  | (minted) client uri p t where "resolve_client_and_redirect E data w = (Inr (client, uri), snd (resolve_client_and_redirect E data w))"
      "validate_parameters E data = Inr p"
      "snd (handle_approve E a data w) = snd (mint_code E (av_user a) client uri (ap_challenge p) (ap_scope p) (ap_resource p) t
         (snd (resolve_client_and_redirect E data w)))"
      "consented E a data w = {(av_user a, oc_pk client, ap_resource p, words (ap_scope p))}"
proof (cases "is_ready (oe_registry E) (oe_origin E) \<and> av_bearer a = ''bearer''")
  case False
  then show ?thesis by (intro none) (auto simp: handle_approve_def)
next
  case ready: True
  show ?thesis
  proof (cases "session_auth_time E a")
    case None
    with ready show ?thesis by (intro none) (simp add: handle_approve_def)
  next
    case t: (Some t)
    obtain r v where rv: "resolve_client_and_redirect E data w = (r, v)" by fastforce
    show ?thesis
    proof (cases r)
      case (Inl e)
      with ready t rv show ?thesis by (intro none) (auto simp: handle_approve_def split: oauth_error.splits)
    next
      case (Inr cu)
      obtain client uri where cu: "cu = (client, uri)" by (cases cu)
      show ?thesis
      proof (cases "validate_parameters E data")
        case (Inl e)
        with ready t rv Inr cu show ?thesis by (intro none) (auto simp: handle_approve_def split: oauth_error.splits)
      next
        case p: (Inr p)
        have page: "handle_authorize E data w = (Inr (ConsentPage client uri p), v)"
          using ready rv Inr cu p by (simp add: handle_authorize_def)
        have "snd (handle_approve E a data w) = snd (mint_code E (av_user a) client uri (ap_challenge p) (ap_scope p) (ap_resource p) t v)"
          "\<exists>x. fst (handle_approve E a data w) = Inr x"
          using ready t rv Inr cu p by (auto simp: handle_approve_def mint_code_def oact_defs)
        with page rv Inr cu p show ?thesis by (intro minted [of client uri p t]) (auto simp: consented_def)
      qed
    qed
  qed
qed

lemma approve_keeps:
  assumes w: "consistent A w" and A: "consented E a data w \<subseteq> A"
  shows "consistent A (snd (handle_approve E a data w)) \<and> evolves w (snd (handle_approve E a data w))"
proof -
  let ?v = "snd (resolve_client_and_redirect E data w)"
  have v: "consistent A ?v" "evolves w ?v" using retainsD [OF retains_resolve w] by (simp_all add: snd_resolve_redirect)
  show ?thesis
  proof (cases rule: approve_cases [of E a data w])
    case none
    with v w show ?thesis by (metis evolves_refl)
  next
    case (minted client uri p t)
    with A have "(av_user a, oc_pk client, ap_resource p, words (ap_scope p)) \<in> A" by simp
    from retainsD [OF retains_mint_code [OF this] v(1)] v(2) minted(3) show ?thesis by (auto intro: evolves_trans)
  qed
qed

section \<open>Runs keep it\<close>

lemma run_keeps:
  "ostep A w w' \<Longrightarrow> consistent A w \<Longrightarrow> consistent A w' \<and> evolves w w'"
  "oreach A w w' \<Longrightarrow> consistent A w \<Longrightarrow> consistent A w' \<and> evolves w w'"
proof (induction rule: ostep_oreach.inducts)
  case (step_token m w E data)
  have "retains A (omodify m) any_answer"
    using step_token.IH by (intro retains_modify) auto
  then show ?case using step_token.prems retainsD [OF retains_on_token] by blast
next
  case (step_exchange m E raw client redirect verifier w code live v u wanted)
  have "retains A (omodify m) any_answer"
    using step_exchange.IH by (intro retains_modify) auto
  note consume = retains_consume [OF this]
  have "consistent A v" "evolves w v" "code_terms code \<in> A" "cd_client code = oc_pk client"
    using consume [of E raw client redirect verifier] step_exchange.prems step_exchange.hyps(1) by (auto simp: retains_def)
  moreover from this have "consistent A u" "evolves v u" using step_exchange.IH by auto
  ultimately show ?case
    using retainsD [OF retains_answered [OF retains_redeem]] by (meson evolves_trans)
next
  case (step_outside w U C M)
  then show ?case by (auto simp: consistent_def evolves_def)
next
  case (reach_step u v w)
  then show ?case using evolves_trans by blast
qed (simp_all add: approve_keeps retainsD [OF retains_authorize] retainsD [OF retains_on_revoke] retainsD [OF retains_on_register]
   retainsD [OF retains_access] retainsD [OF retains_revoke_by_id] retainsD [OF retains_revoke_all])

lemma inactive_stays:
  assumes "consistent A w" and "oreach A w w'" and "g \<in> set (ow_grants w)" and "\<not> gt_active g"
    and "g' \<in> set (ow_grants w')" and "gt_pk g' = gt_pk g"
  shows "\<not> gt_active g'"
proof -
  have "evolves w w'" using run_keeps(2) [OF assms(2) assms(1)] by simp
  with assms(5) consider h where "h \<in> set (ow_grants w)" "same_terms h g'" | "ow_next w \<le> gt_pk g'"
    by (auto simp: evolves_def)
  then show ?thesis
  proof cases
    case 1
    with assms(6) have "gt_pk h = gt_pk g" by (simp add: same_terms_def)
    with assms(1,3) 1(1) have "h = g" by (auto simp: consistent_def distinct_map dest: inj_onD)
    with 1(2) assms(4) show ?thesis by (auto simp: same_terms_def)
  next
    case 2
    with assms(1,3,6) show ?thesis by (auto simp: consistent_def)
  qed
qed

lemma consumed_stays:
  assumes "consistent A w" and "oreach A w w'" and "c \<in> set (ow_codes w)" and "cd_consumed c"
    and "c' \<in> set (ow_codes w')" and "cd_pk c' = cd_pk c"
  shows "cd_consumed c'"
proof -
  have "evolves w w'" using run_keeps(2) [OF assms(2) assms(1)] by simp
  with assms(5) consider h where "h \<in> set (ow_codes w)" "same_code h c'" | "ow_next w \<le> cd_pk c'"
    by (auto simp: evolves_def)
  then show ?thesis
  proof cases
    case 1
    with assms(6) have "cd_pk h = cd_pk c" by (simp add: same_code_def)
    with assms(1,3) 1(1) have "h = c" by (auto simp: consistent_def distinct_map dest: inj_onD)
    with 1(2) assms(4) show ?thesis by (auto simp: same_code_def)
  next
    case 2
    with assms(1,3,6) show ?thesis by (auto simp: consistent_def)
  qed
qed

section \<open>What the server guarantees\<close>

lemma empty_consistent: "ow_grants w = [] \<Longrightarrow> ow_codes w = [] \<Longrightarrow> consistent A w"
  by (simp add: consistent_def)

text \<open>
  C14: nothing is opened that a person did not consent to: from a server without grants, whatever requests,
  interruptions, switches of users and clients follow, an accepted access token acts for a user who
  approved, on the page that was shown, that very client for the resource that the token names, and the
  request lies in that resource; a whole subtree opens only to the full scope.
\<close>

theorem accepted_access_was_consented:
  assumes "ow_grants w0 = []" and "ow_codes w0 = []" and "oreach A w0 w"
    and "validate_access E token c rp w = (Inr (Accepted u pk), w')"
  shows "\<exists>client resource scopes p parts e. (u, client, resource, scopes) \<in> A \<and> client_active w client \<and> user_active w u
    \<and> cl_aud c = JStr resource \<and> rp = Some p \<and> urlsplit (oe_ip6 E) resource = Some parts
    \<and> resolve_resource (oe_registry E) (u_path parts) = Some e \<and> covers_path e (Some p) \<and> (re_prefix e \<longrightarrow> API_SCOPE \<in> set scopes)"
proof -
  have cons: "consistent A w" using run_keeps(2) [OF assms(3) empty_consistent [OF assms(1,2)]] by simp
  from access_facts [OF assms(4)] obtain g p path parts e where g: "g \<in> set (ow_grants w)" "gt_user g = u" "cl_aud c = JStr (gt_resource g)"
    "rp = Some p" "urlsplit (oe_ip6 E) (gt_resource g) = Some parts" "path = u_path parts"
    "resolve_resource (oe_registry E) path = Some e" "covers_path e (Some p)" "re_prefix e \<longrightarrow> API_SCOPE \<in> set (gt_scopes g)"
    "user_active w u" "client_active w (gt_client g)" by blast
  from cons g(1) have "grant_terms g \<in> A" by (simp add: consistent_def)
  with g show ?thesis by (auto simp: grant_terms_def)
qed

text \<open>
  C17: signing an account out of every application is final: after it, whatever follows, an access token
  that is accepted for the user, and a grant of the user that can be refreshed, belong to a grant that was
  made afterwards.
\<close>

theorem revoke_all_is_final:
  assumes "consistent A w" and "revoke_all_grants E (Some u) None w = (Inr n, w1)" and "oreach A w1 w2"
  shows "(validate_access E' token c rp w2 = (Inr (Accepted u pk), w3) \<longrightarrow> ow_next w \<le> pk)
    \<and> (\<forall>g \<in> set (ow_grants w2). gt_user g = u \<and> refreshable E'' g client resource scope w2 \<longrightarrow> ow_next w \<le> gt_pk g)"
proof -
  have w1: "consistent A w1" using retainsD [OF retains_revoke_all assms(1), of E "Some u" None] assms(2) by simp
  have dead: "\<not> gt_active h" if "h \<in> set (ow_grants w1)" "gt_user h = u" for h
    using assms(2) that by (auto simp: revoke_all_grants_def oact_defs update_grants_def suffix_scope_def has_path_def filter_empty_conv split: if_splits)
  have nxt: "ow_next w1 = ow_next w"
    using assms(2) by (auto simp: revoke_all_grants_def oact_defs update_grants_def split: if_splits)
  have old: "ow_next w \<le> gt_pk g" if g: "g \<in> set (ow_grants w2)" "gt_user g = u" "gt_active g" for g
  proof -
    have "evolves w1 w2" using run_keeps(2) [OF assms(3) w1] by simp
    with g(1) consider h where "h \<in> set (ow_grants w1)" "same_terms h g" | "ow_next w1 \<le> gt_pk g" by (auto simp: evolves_def)
    then show ?thesis
    proof cases
      case 1
      with g(2) have "gt_user h = u" by (simp add: same_terms_def grant_terms_def)
      with dead 1(1) have "\<not> gt_active h" by simp
      with 1(2) g(3) show ?thesis by (simp add: same_terms_def)
    qed (simp add: nxt)
  qed
  have "ow_next w \<le> pk" if "validate_access E' token c rp w2 = (Inr (Accepted u pk), w3)"
    using access_facts [OF that] old by blast
  moreover have "ow_next w \<le> gt_pk g" if "g \<in> set (ow_grants w2)" "gt_user g = u" "refreshable E'' g client resource scope w2" for g
    using that old by (simp add: refreshable_def)
  ultimately show ?thesis by blast
qed

text \<open>What a spent code leaves behind\<close>

lemma consume_spends:
  assumes "consume_code E m raw client redirect verifier w = (Inr (row, live), w1)"
  shows "row \<in> set (ow_codes w) \<and> \<not> cd_consumed row \<and> (\<exists>c \<in> set (ow_codes (m w)). cd_pk c = cd_pk row \<and> \<not> cd_consumed c)
     \<and> (\<exists>c \<in> set (ow_codes w1). cd_pk c = cd_pk row \<and> cd_consumed c)"
proof -
  from assms obtain s where s: "raw = JStr s" "s \<noteq> []" by (auto simp: consume_code_def ofail_def split: json.splits if_splits)
  from assms s obtain r where r: "code_by (oe_sha E s) w = Some r" by (auto simp: consume_code_def oact_defs split: option.splits)
  show ?thesis
  proof (cases "cd_consumed r")
    case True
    with assms s r show ?thesis
      by (auto simp: consume_code_def oact_defs report_incident_def split: option.splits prod.splits sum.splits)
  next
    case False
    let ?f = "\<lambda>c. if cd_consumed c then c else c\<lparr>cd_consumed := True\<rparr>"
    from False assms s r have 1: "row = r" "w1 = update_code (cd_pk r) ?f (m w)"
      "length (filter (\<lambda>c. cd_pk c = cd_pk r \<and> \<not> cd_consumed c) (ow_codes (m w))) = 1"
      by (auto simp: consume_code_def oact_defs burn_code_def split: if_splits)
    from 1(3) have "filter (\<lambda>c. cd_pk c = cd_pk r \<and> \<not> cd_consumed c) (ow_codes (m w)) \<noteq> []" by force
    then obtain c where c: "c \<in> set (ow_codes (m w))" "cd_pk c = cd_pk r" "\<not> cd_consumed c" by (auto simp: filter_empty_conv)
    from c have "c\<lparr>cd_consumed := True\<rparr> \<in> set (ow_codes w1)"
      by (auto simp: 1(2) update_code_def intro!: image_eqI [of _ _ c])
    moreover from r have "r \<in> set (ow_codes w)" by (simp add: code_by_def find_Some_in)
    ultimately show ?thesis using False c 1(1)
      by (intro conjI bexI [of _ "c\<lparr>cd_consumed := True\<rparr>"] bexI [of _ c]) simp_all
  qed
qed

text \<open>
  C15: a code is spent once: when an exchange has consumed it, no other request consumes it, whether that one
  starts in any later state, also before the exchange has ended, or runs while the exchange is interrupted
  between its read of the code and the update that burns it.
\<close>

theorem code_single_use:
  assumes "consistent A w" and "\<And>v. oreach A v (m v)" and "consume_code E m raw client redirect verifier w = (Inr (row, live), w1)"
    and "\<And>v. oreach A v (m' v)" and "consume_code E' m' raw' client' redirect' verifier' w2 = (Inr (row', live'), w3)"
    and "oreach A w1 w2 \<or> oreach A w w2 \<and> oreach A w3 (m w)"
  shows "cd_pk row' \<noteq> cd_pk row"
proof
  assume pk: "cd_pk row' = cd_pk row"
  have k: "retains A (omodify m) any_answer" "retains A (omodify m') any_answer"
    using run_keeps(2) [OF assms(2)] run_keeps(2) [OF assms(4)] by (blast intro: retains_modify)+
  note first = consume_spends [OF assms(3)] and second = consume_spends [OF assms(5)]
  from assms(6) show False
  proof
    assume later: "oreach A w1 w2"
    have w1: "consistent A w1" using retainsD [OF retains_consume [OF k(1)] assms(1), of E raw client redirect verifier] assms(3) by simp
    from first obtain c where c: "c \<in> set (ow_codes w1)" "cd_pk c = cd_pk row" "cd_consumed c" by blast
    from second have "row' \<in> set (ow_codes w2)" "\<not> cd_consumed row'" by simp_all
    with consumed_stays [OF w1 later c(1,3)] pk c(2) show False by simp
  next
    assume inside: "oreach A w w2 \<and> oreach A w3 (m w)"
    then have "consistent A w2" using run_keeps(2) assms(1) by blast
    then have w3: "consistent A w3" using retainsD [OF retains_consume [OF k(2)], of w2 E' raw' client' redirect' verifier'] assms(5) by simp
    from second obtain c where c: "c \<in> set (ow_codes w3)" "cd_pk c = cd_pk row'" "cd_consumed c" by blast
    from first obtain d where d: "d \<in> set (ow_codes (m w))" "cd_pk d = cd_pk row" "\<not> cd_consumed d" by blast
    with consumed_stays [OF w3 conjunct2 [OF inside] c(1,3) d(1)] pk c(2) show False by simp
  qed
qed

lemma obind_oget: "obind (oget f) k w = k (f w) w"
  by (simp add: obind_def oget_def)

lemma revoke_facts:
  assumes "revoke_grant E g reason w = (Inr b, w1)"
  shows "\<forall>h \<in> set (ow_grants w1). gt_pk h = gt_pk g \<longrightarrow> \<not> gt_active h" "ow_incidents w1 = ow_incidents w"
  using assms by (auto simp: revoke_grant_def oact_defs update_grants_def split: if_splits)

text \<open>
  C16: a stolen refresh secret ends its family: when a secret that has been rotated away is presented after
  the grace window, the request fails, an incident names the user, and no access token is accepted for the
  grant, nor any secret of it refreshed, in whatever state follows.
\<close>

theorem replayed_secret_ends_family:
  assumes "consistent A w" and "s \<noteq> []" and "grant_by (\<lambda>g. gt_refresh g = oe_sha E s) w = None"
    and "grant_by (\<lambda>g. gt_prev g = Some (oe_sha E s)) w = Some g"
    and "gt_last_refreshed g = Some t" and "oe_now E - t > of_int (oe_grace E)"
    and "refresh_grant E m (Some (JStr s)) client resource scope w = (r, w1)" and "oreach A w1 w2"
  shows "r = Inl invalid_refresh \<and> (gt_user g, ''oauth:refresh_replay'') \<in> set (ow_incidents w1)
    \<and> validate_access E' token c rp w2 \<noteq> (Inr (Accepted u (gt_pk g)), w3)
    \<and> (\<forall>g' \<in> set (ow_grants w2). gt_pk g' = gt_pk g \<longrightarrow> \<not> refreshable E'' g' client' resource' scope' w2)"
proof -
  have run: "refresh_grant E m (Some (JStr s)) client resource scope w =
     obind (revoke_grant E g ''refresh_replay'') (\<lambda>_. obind (report_incident (gt_user g) ''oauth:refresh_replay'') (\<lambda>_. ofail invalid_refresh)) w"
    using assms(2-6) by (simp add: refresh_grant_def Let_def obind_oget grace_or_replay_def)
  obtain b v where v: "revoke_grant E g ''refresh_replay'' w = (Inr b, v)"
    by (auto simp: revoke_grant_def oact_defs update_grants_def)
  have r: "r = Inl invalid_refresh" "ow_incidents w1 = ow_incidents v @ [(gt_user g, ''oauth:refresh_replay'')]" "ow_grants w1 = ow_grants v"
    using assms(7) run v by (auto simp: oact_defs report_incident_def)
  have "retains A (obind (revoke_grant E g ''refresh_replay'') (\<lambda>_. obind (report_incident (gt_user g) ''oauth:refresh_replay'')
      (\<lambda>_. (ofail invalid_refresh :: token_response oact)))) any_answer"
    by (rule retains_bind [OF retains_revoke retains_bind [OF retains_incident retains_fail]])
  from retainsD [OF this assms(1)] have w1: "consistent A w1" using assms(7) run by simp
  have "g \<in> set (ow_grants w)" using grant_by_in [OF assms(4)] by simp
  then obtain h where h: "h \<in> set (ow_grants w1)" "gt_pk h = gt_pk g"
    using retainsD [OF retains_revoke assms(1), of E g "''refresh_replay''"] v r(3) by (auto simp: evolves_def same_terms_def)
  with revoke_facts(1) [OF v] r(3) have "\<not> gt_active h" by auto
  then have dead: "\<not> gt_active g'" if "g' \<in> set (ow_grants w2)" "gt_pk g' = gt_pk g" for g'
    using inactive_stays [OF w1 assms(8) h(1)] h(2) that by simp
  have "validate_access E' token c rp w2 \<noteq> (Inr (Accepted u (gt_pk g)), w3)"
  proof
    assume "validate_access E' token c rp w2 = (Inr (Accepted u (gt_pk g)), w3)"
    from access_facts [OF this] dead show False by blast
  qed
  moreover have "\<forall>g' \<in> set (ow_grants w2). gt_pk g' = gt_pk g \<longrightarrow> \<not> refreshable E'' g' client' resource' scope' w2"
    using dead by (simp add: refreshable_def)
  ultimately show ?thesis using r by simp
qed

section \<open>The first credentials\<close>

lemma find_map_new:
  assumes "\<forall>x \<in> set xs. \<not> P (f x)" and "P (f y)"
  shows "find P (map f (xs @ [y])) = Some (f y)"
  using assms by (induction xs) auto

definition first_claims :: "oauth_env \<Rightarrow> ocode \<Rightarrow> claims" where
  "first_claims E code = \<lparr>cl_type = ''mcp'', cl_uid = cd_user code, cl_aud = JStr (cd_resource code), cl_scope = join_scopes (words (cd_scope code)),
      cl_auth_time = cd_auth_time code, cl_jti = JStr (oe_jti E), cl_exp = oe_now E + of_int (oe_access_ttl E)\<rparr>"

text \<open>The credentials a redeemed code gives, and the row they leave\<close>

lemma redeem_result:
  assumes "consistent A w" and "redeem_code E live code client wanted w = (Inr (Issued r), w1)"
  shows "tr_access r = oe_encode E (user_key w (cd_user code)) (first_claims E code)"
    and "ow_users w1 = ow_users w" and "ow_clients w1 = ow_clients w"
    and "\<exists>g. ow_grants w1 = ow_grants w @ [g] \<and> gt_pk g = ow_next w \<and> gt_user g = cd_user code \<and> gt_client g = oc_pk client
      \<and> gt_resource g = cd_resource code \<and> gt_scopes g = words (cd_scope code) \<and> gt_jti g = oe_jti E \<and> gt_active g \<and> gt_refresh g = oe_sha E (oe_raw E)"
proof -
  have old: "gt_pk g \<noteq> ow_next w" if "g \<in> set (ow_grants w)" for g using assms(1) that by (auto simp: consistent_def)
  have upd: "map (\<lambda>x. if gt_pk x = ow_next w then f x else x) (ow_grants w) = ow_grants w" for f
    by (rule map_idI) (use old in auto)
  have flt: "filter (\<lambda>r. gt_pk r = ow_next w) (ow_grants w) = []"
    using old by (auto simp: filter_empty_conv)
  note all = redeem_code_def create_grant_def issue_tokens_def make_response_def mint_access_token_def oact_defs update_grants_def
    update_code_def new_grant_def Let_def access_claims_def first_claims_def user_key_def comp_def
  show "tr_access r = oe_encode E (user_key w (cd_user code)) (first_claims E code)"
    using assms(2) by (auto simp: all flt upd split: if_splits)
  show "ow_users w1 = ow_users w" "ow_clients w1 = ow_clients w"
    using assms(2) by (auto simp: all split: if_splits)
  show "\<exists>g. ow_grants w1 = ow_grants w @ [g] \<and> gt_pk g = ow_next w \<and> gt_user g = cd_user code \<and> gt_client g = oc_pk client
      \<and> gt_resource g = cd_resource code \<and> gt_scopes g = words (cd_scope code) \<and> gt_jti g = oe_jti E \<and> gt_active g \<and> gt_refresh g = oe_sha E (oe_raw E)"
    using assms(2) by (auto simp: all flt upd split: if_splits)
qed

text \<open>
  The access token of a redeemed code opens what was consented to: presented for a path that the
  resource of the code covers, while the user and the client are active and the signature verifies with the
  user's key, it is accepted for the user of the code, under the grant that was just made.
\<close>

theorem redeemed_access_is_accepted:
  assumes "consistent A w" and "redeem_code E live code client wanted w = (Inr (Issued r), w1)"
    and "\<forall>g \<in> set (ow_grants w). gt_jti g \<noteq> oe_jti E" and "oe_jti E \<noteq> []" and "cd_resource code \<noteq> []"
    and "user_active w (cd_user code)" and "client_active w (oc_pk client)"
    and "urlsplit (oe_ip6 E') (cd_resource code) = Some parts" and "u_path parts \<noteq> []"
    and "resolve_resource (oe_registry E') (u_path parts) = Some e" and "resource_enabled (Some e)" and "covers_path e (Some p)"
    and "re_prefix e \<longrightarrow> API_SCOPE \<in> set (words (cd_scope code))"
    and "oe_verify E' (user_key w (cd_user code)) (tr_access r) (cd_resource code) (oe_now E') = JwtValid"
  shows "fst (validate_access E' (tr_access r) (first_claims E code) (Some p) w1) = Inr (Accepted (cd_user code) (ow_next w))"
proof -
  from redeem_result(4) [OF assms(1,2)] obtain g where g: "ow_grants w1 = ow_grants w @ [g]" "gt_pk g = ow_next w" "gt_user g = cd_user code"
    "gt_client g = oc_pk client" "gt_resource g = cd_resource code" "gt_scopes g = words (cd_scope code)" "gt_jti g = oe_jti E" "gt_active g" by blast
  have same: "user_active w1 u = user_active w u" "client_active w1 c = client_active w c" "user_key w1 u = user_key w u" for u c
    using redeem_result(2,3) [OF assms(1,2)] by (simp_all add: user_active_def client_active_def user_key_def)
  have found: "grant_by (\<lambda>h. gt_jti h = oe_jti E \<and> gt_active h) w1 = Some g"
    using find_map_new [of "ow_grants w" "\<lambda>h. gt_jti h = oe_jti E \<and> gt_active h" id g] assms(3) g by (simp add: grant_by_def)
  show ?thesis
    using assms(4-14) found same g
    by (simp add: validate_access_def first_claims_def Let_def obind_oget obind_def [of "update_grants _ _"] update_grants_def oret_def)
qed

lemma response_jti:
  assumes "make_response E g raw w = (Inr resp, w1)" and "h \<in> set (ow_grants w1)" and "gt_pk h = gt_pk g"
  shows "gt_jti h = oe_jti E"
proof -
  have "w1 = w\<lparr>ow_grants := map (\<lambda>r. if gt_pk r = gt_pk g
      then r\<lparr>gt_jti := oe_jti E, gt_access_expires := Some (oe_now E + of_int (oe_access_ttl E))\<rparr> else r) (ow_grants w)\<rparr>"
    using assms(1) by (simp add: make_response_def mint_access_token_def Let_def oact_defs update_grants_def)
  with assms(2,3) show ?thesis by (auto split: if_splits)
qed

lemma issue_jti:
  assumes "issue_tokens E g expected w = (Inr resp, w1)" and "h \<in> set (ow_grants w1)" and "gt_pk h = gt_pk g"
  shows "gt_jti h = oe_jti E"
proof -
  from assms(1) obtain v where "make_response E g (oe_raw E) v = (Inr resp, w1)"
    by (auto simp: issue_tokens_def obind_def [of "update_grants _ _"] ofail_def update_grants_def split: if_splits)
  from response_jti [OF this assms(2,3)] show ?thesis .
qed

lemma grace_jti:
  assumes "grace_or_replay E g client resource scope w = (Inr resp, w1)" and "h \<in> set (ow_grants w1)" and "gt_pk h = gt_pk g"
  shows "gt_jti h = oe_jti E"
proof -
  from assms(1) obtain v where "make_response E g (oe_raw E) v = (Inr resp, w1)"
    by (auto simp: grace_or_replay_def issue_grace_pair_def obind_def check_refreshable_def revoke_grant_def report_incident_def
        oret_def omodify_def ofail_def update_grants_def split: if_splits)
  from response_jti [OF this assms(2,3)] show ?thesis .
qed

text \<open>
  Only the latest access token of a grant opens anything: after a refresh of it has succeeded, a token
  that is accepted for the grant carries the identifier that this refresh has drawn.
\<close>

theorem refresh_supersedes:
  assumes "refresh_grant E m raw client resource scope w = (Inr resp, w1)"
  shows "\<exists>s g. raw = Some (JStr s) \<and> g \<in> set (ow_grants w) \<and> (gt_refresh g = oe_sha E s \<or> gt_prev g = Some (oe_sha E s))
    \<and> (\<forall>E' token c rp u w2. validate_access E' token c rp w1 = (Inr (Accepted u (gt_pk g)), w2) \<longrightarrow> cl_jti c = JStr (oe_jti E))"
proof -
  from assms obtain s where s: "raw = Some (JStr s)" "s \<noteq> []"
    by (auto simp: refresh_grant_def ofail_def split: option.splits json.splits if_splits)
  have use: ?thesis if g: "g \<in> set (ow_grants w)" "gt_refresh g = oe_sha E s \<or> gt_prev g = Some (oe_sha E s)"
      "\<And>h. h \<in> set (ow_grants w1) \<Longrightarrow> gt_pk h = gt_pk g \<Longrightarrow> gt_jti h = oe_jti E" for g
    using g s(1) access_facts by (metis (no_types, lifting))
  show ?thesis
  proof (cases "grant_by (\<lambda>g. gt_refresh g = oe_sha E s) w")
    case (Some g)
    have "gt_jti h = oe_jti E" if h: "h \<in> set (ow_grants w1)" "gt_pk h = gt_pk g" for h
    proof -
      have "on_rotation_lost (issue_tokens E g (Some (oe_sha E s)))
                  (obind (oget (grant_by (\<lambda>r. gt_pk r = gt_pk g)))
                  (\<lambda>again. case again of None \<Rightarrow> ofail invalid_refresh | Some g' \<Rightarrow> grace_or_replay E g' client resource scope)) (m w) = (Inr resp, w1)"
        using assms s Some
        by (auto simp: refresh_grant_def Let_def obind_oget obind_def [of "check_refreshable _ _ _ _ _"] check_refreshable_def
            obind_def [of "omodify _"] omodify_def split: if_splits)
      then consider "issue_tokens E g (Some (oe_sha E s)) (m w) = (Inr resp, w1)"
        | v g' where "grant_by (\<lambda>r. gt_pk r = gt_pk g) v = Some g'" "grace_or_replay E g' client resource scope v = (Inr resp, w1)"
        by (auto simp: on_rotation_lost_def obind_oget ofail_def split: prod.splits sum.splits oauth_error.splits option.splits)
      then show ?thesis
        using issue_jti [OF _ h] grace_jti h grant_by_in by (metis (mono_tags, lifting))
    qed
    with use grant_by_in [OF Some] show ?thesis by blast
  next
    case None
    with assms s obtain g where g: "grant_by (\<lambda>g. gt_prev g = Some (oe_sha E s)) w = Some g"
      by (auto simp: refresh_grant_def Let_def obind_oget ofail_def split: option.splits)
    with assms s None have "grace_or_replay E g client resource scope w = (Inr resp, w1)"
      by (simp add: refresh_grant_def Let_def obind_oget)
    with use grant_by_in [OF g] grace_jti show ?thesis by blast
  qed
qed

section \<open>A server to try it on\<close>

definition ex_reg :: registry where
  "ex_reg = [\<lparr>re_path = ''/mcp'', re_scopes = [''mcp''], re_enabled = Some True, re_prefix = False\<rparr>,
     \<lparr>re_path = ''/api'', re_scopes = [''api''], re_enabled = Some True, re_prefix = True\<rparr>]"

text \<open>The environment of a request at \<open>now\<close>; \<open>n\<close> makes its random values differ from those of other requests.\<close>

definition ex_env_at :: "rat \<Rightarrow> string \<Rightarrow> oauth_env" where
  "ex_env_at now n = \<lparr>oe_now = now, oe_origin = ''https://h'', oe_registry = ex_reg, oe_sha = (\<lambda>s. ''#'' @ s), oe_s256 = rev,
     oe_access_ttl = 900, oe_refresh_days = 30, oe_grace = 60, oe_code_ttl = 60, oe_raw = ''raw'' @ n, oe_jti = ''jti'' @ n,
     oe_fill1 = ''f1'' @ n, oe_fill2 = ''f2'' @ n, oe_fill3 = ''f3'' @ n, oe_uuid = ''uuid'' @ n, oe_ip6 = (\<lambda>_. False), oe_unquote = (\<lambda>s. s),
     oe_quote = (\<lambda>s. s), oe_fetch = (\<lambda>_. None), oe_encode = (\<lambda>key c. key @ ''.'' @ cl_scope c),
     oe_decode = (\<lambda>raw. if raw = ''session'' then Some \<lparr>cl_type = ''access'', cl_uid = 7, cl_aud = JNull, cl_scope = [], cl_auth_time = 900,
        cl_jti = JNull, cl_exp = 2000\<rparr> else None),
     oe_verify = (\<lambda>key tok aud t. if starts_with tok (key @ ''.'') then JwtValid else JwtBad)\<rparr>"

definition ex_client :: oclient where
  "ex_client = \<lparr>oc_pk = 3, oc_id = ''app'', oc_kind = ''dcr'', oc_name = ''App'', oc_uris = [''https://app/cb''], oc_metadata = [], oc_active = True\<rparr>"

definition ex_oworld :: oworld where
  "ex_oworld = \<lparr>ow_users = (\<lambda>u. if u = 7 then Some \<lparr>ou_active = True, ou_key = ''k7''\<rparr> else None), ow_clients = [ex_client], ow_codes = [],
     ow_grants = [], ow_next = 100, ow_incidents = [], ow_cimd = (\<lambda>_. None)\<rparr>"

definition ex_verifier :: string where
  "ex_verifier = replicate 42 CHR ''a'' @ ''b''"

definition ex_approval :: json where
  "ex_approval = JObj [(''client_id'', JStr ''app''), (''redirect_uri'', JStr ''https://app/cb''), (''response_type'', JStr ''code''),
     (''code_challenge_method'', JStr ''S256''), (''code_challenge'', JStr (rev ex_verifier)), (''scope'', JStr ''api''), (''state'', JStr ''s1'')]"

definition ex_approver :: approver where
  "ex_approver = \<lparr>av_user = 7, av_bearer = ''bearer'', av_token = Some ''session'', av_auth_time = Some 900\<rparr>"

definition ex_exchange :: "string \<Rightarrow> json" where
  "ex_exchange code = JObj [(''grant_type'', JStr ''authorization_code''), (''client_id'', JStr ''app''), (''redirect_uri'', JStr ''https://app/cb''),
     (''code'', JStr code), (''code_verifier'', JStr ex_verifier)]"

text \<open>An approval and an exchange of its code\<close>

definition ex_approve :: "rat \<Rightarrow> oworld \<Rightarrow> oworld" where
  "ex_approve now w = snd (handle_approve (ex_env_at now ''A'') ex_approver ex_approval w)"

definition ex_connect :: "rat \<Rightarrow> string \<Rightarrow> oworld \<Rightarrow> oworld" where
  "ex_connect now n w = snd (on_token (ex_env_at (now + 10) n) id (ex_exchange ''rawA'') (ex_approve now w))"

definition ex_granted :: oworld where
  "ex_granted = ex_connect 1000 ''B'' ex_oworld"

definition ex_terms :: "terms set" where
  "ex_terms = {(7, 3, ''https://h/api'', [''api''])}"

definition ex_claims :: "string \<Rightarrow> claims" where
  "ex_claims n = \<lparr>cl_type = ''mcp'', cl_uid = 7, cl_aud = JStr ''https://h/api'', cl_scope = ''api'', cl_auth_time = 900, cl_jti = JStr (''jti'' @ n), cl_exp = 9000\<rparr>"

lemma ex_connect_run:
  assumes "oreach ex_terms u w" and "consented (ex_env_at now ''A'') ex_approver ex_approval w \<subseteq> ex_terms"
  shows "oreach ex_terms u (ex_connect now n w)"
  unfolding ex_connect_def ex_approve_def
  by (intro reach_step [OF reach_step [OF assms(1) step_approve] step_token] assms(2)) (simp add: reach_refl)

lemma ex_granted_run: "oreach ex_terms ex_oworld ex_granted"
  unfolding ex_granted_def by (rule ex_connect_run [OF reach_refl]) (unfold ex_terms_def, code_simp)

lemma ex_granted_consistent: "consistent ex_terms ex_granted"
  using run_keeps(2) [OF ex_granted_run empty_consistent] by (simp add: ex_oworld_def)

theorem accepted_access_was_consented_witness:
  "\<exists>client resource scopes. (7, client, resource, scopes) \<in> ex_terms \<and> client_active ex_granted client
     \<and> cl_aud (ex_claims ''B'') = JStr resource"
proof -
  have "fst (validate_access (ex_env_at 1020 ''C'') ''k7.api'' (ex_claims ''B'') (Some ''/api/user/me'') ex_granted) = Inr (Accepted 7 101)"
    by code_simp
  then have "validate_access (ex_env_at 1020 ''C'') ''k7.api'' (ex_claims ''B'') (Some ''/api/user/me'') ex_granted
      = (Inr (Accepted 7 101), snd (validate_access (ex_env_at 1020 ''C'') ''k7.api'' (ex_claims ''B'') (Some ''/api/user/me'') ex_granted))"
    by (simp add: prod_eq_iff)
  from accepted_access_was_consented [OF _ _ ex_granted_run this] show ?thesis by (auto simp: ex_oworld_def)
qed

text \<open>Rows as an approval, an exchange and a refresh leave them\<close>

definition ex_ocode :: "int \<Rightarrow> string \<Rightarrow> ocode" where
  "ex_ocode pk n = \<lparr>cd_pk = pk, cd_client = 3, cd_user = 7, cd_hash = ''#raw'' @ n, cd_redirect = ''https://app/cb'', cd_challenge = rev ex_verifier,
     cd_scope = ''api'', cd_resource = ''https://h/api'', cd_auth_time = 900, cd_expires = 1060, cd_consumed = False, cd_grant = None\<rparr>"

definition ex_ogrant :: ogrant where
  "ex_ogrant = \<lparr>gt_pk = 90, gt_user = 7, gt_client = 3, gt_jti = ''jtiG'', gt_access_expires = Some 1920, gt_refresh = ''#rawG'', gt_prev = Some ''#rawF'',
     gt_refresh_expires = 2593010, gt_last_refreshed = Some 1020, gt_last_used = None, gt_scopes = [''api''], gt_resource = ''https://h/api'',
     gt_auth_time = 900, gt_active = True, gt_reason = []\<rparr>"

definition ex_rows :: oworld where
  "ex_rows = ex_oworld\<lparr>ow_codes := [ex_ocode 91 ''A'', ex_ocode 92 ''B''], ow_grants := [ex_ogrant]\<rparr>"

lemma ex_rows_consistent: "consistent ex_terms ex_rows"
proof -
  have "words ''api'' = [''api'']" by code_simp
  then show ?thesis
    by (simp add: consistent_def ex_rows_def ex_oworld_def ex_ocode_def ex_ogrant_def ex_terms_def grant_terms_def code_terms_def)
qed

definition ex_consume :: "string \<Rightarrow> (ocode \<times> bool) oact" where
  "ex_consume raw = consume_code (ex_env_at 1010 ''C'') id (JStr raw) ex_client (JStr ''https://app/cb'') (JStr ex_verifier)"

theorem code_single_use_witness:
  "\<exists>w1 w2. ex_consume ''rawA'' ex_rows = (Inr (ex_ocode 91 ''A'', True), w1) \<and> ex_consume ''rawB'' w1 = (Inr (ex_ocode 92 ''B'', True), w2)
     \<and> cd_pk (ex_ocode 92 ''B'') \<noteq> cd_pk (ex_ocode 91 ''A'')"
proof -
  let ?out = "ex_consume ''rawA'' ex_rows" let ?out2 = "ex_consume ''rawB'' (snd ?out)"
  have "fst ?out = Inr (ex_ocode 91 ''A'', True)" "fst ?out2 = Inr (ex_ocode 92 ''B'', True)" by code_simp+
  then have 1: "?out = (Inr (ex_ocode 91 ''A'', True), snd ?out)" "?out2 = (Inr (ex_ocode 92 ''B'', True), snd ?out2)" by (simp_all add: prod_eq_iff)
  have id: "oreach ex_terms v (id v)" for v by (simp add: reach_refl)
  have "oreach ex_terms (snd ?out) (snd ?out) \<or> oreach ex_terms ex_rows (snd ?out) \<and> oreach ex_terms (snd ?out2) (id ex_rows)"
    by (rule disjI1) (rule reach_refl)
  from code_single_use [OF ex_rows_consistent id 1(1) [unfolded ex_consume_def] id 1(2) [unfolded ex_consume_def] this [unfolded ex_consume_def]]
  have "cd_pk (ex_ocode 92 ''B'') \<noteq> cd_pk (ex_ocode 91 ''A'')" .
  with 1 show ?thesis by blast
qed

theorem revoke_all_is_final_witness:
  "validate_access (ex_env_at 2001 ''C'') ''k7.api'' (ex_claims ''G'') (Some ''/api/user/me'') (snd (revoke_all_grants (ex_env_at 2000 ''R'') (Some 7) None ex_rows))
     \<noteq> (Inr (Accepted 7 90), ex_rows)"
proof -
  let ?out = "revoke_all_grants (ex_env_at 2000 ''R'') (Some 7) None ex_rows"
  have "fst ?out = Inr 1"
    by (simp add: revoke_all_grants_def oact_defs update_grants_def ex_rows_def ex_ogrant_def suffix_scope_def has_path_def)
  then have "?out = (Inr 1, snd ?out)" by (simp add: prod_eq_iff)
  from revoke_all_is_final [OF ex_rows_consistent this reach_refl] have "\<not> ow_next ex_rows \<le> 90 \<Longrightarrow> ?thesis" by blast
  then show ?thesis by (simp add: ex_rows_def ex_oworld_def)
qed

theorem replayed_secret_ends_family_witness:
  "fst (refresh_grant (ex_env_at 2000 ''R'') id (Some (JStr ''rawF'')) ex_client None None ex_rows) = Inl invalid_refresh"
proof -
  let ?out = "refresh_grant (ex_env_at 2000 ''R'') id (Some (JStr ''rawF'')) ex_client None None ex_rows"
  have f: "grant_by (\<lambda>g. gt_refresh g = oe_sha (ex_env_at 2000 ''R'') ''rawF'') ex_rows = None"
    "grant_by (\<lambda>g. gt_prev g = Some (oe_sha (ex_env_at 2000 ''R'') ''rawF'')) ex_rows = Some ex_ogrant"
    "gt_last_refreshed ex_ogrant = Some 1020"
    "oe_now (ex_env_at 2000 ''R'') - 1020 > of_int (oe_grace (ex_env_at 2000 ''R''))"
    by (simp_all add: grant_by_def ex_rows_def ex_ogrant_def ex_env_at_def)
  have o: "?out = (fst ?out, snd ?out)" "''rawF'' \<noteq> []" by simp_all
  show ?thesis
    using replayed_secret_ends_family [OF ex_rows_consistent o(2) f o(1) reach_refl] by blast
qed

theorem refresh_supersedes_witness:
  "\<exists>s g. Some (JStr ''rawG'') = Some (JStr s) \<and> g \<in> set (ow_grants ex_rows) \<and> (gt_refresh g = ''#'' @ s \<or> gt_prev g = Some (''#'' @ s))"
proof -
  let ?out = "refresh_grant (ex_env_at 1020 ''D'') id (Some (JStr ''rawG'')) ex_client None None ex_rows"
  have "case fst ?out of Inl _ \<Rightarrow> False | Inr _ \<Rightarrow> True" by code_simp
  then obtain r where "?out = (Inr r, snd ?out)" by (cases ?out) (auto split: sum.splits)
  from refresh_supersedes [OF this] show ?thesis by (auto simp: ex_env_at_def)
qed

theorem redeemed_access_is_accepted_witness:
  "\<exists>(r :: token_response) w. fst (validate_access (ex_env_at 1020 ''C'') (tr_access r) (first_claims (ex_env_at 1010 ''D'') (ex_ocode 91 ''A'')) (Some ''/api/user/me'') w)
     = Inr (Accepted 7 100)"
proof -
  let ?c = "ex_ocode 91 ''A''"
  let ?r = "redeem_code (ex_env_at 1010 ''D'') True ?c ex_client None ex_rows"
  define t where "t = \<lparr>tr_access = ''k7.api'', tr_expires_in = 900, tr_refresh = ''rawD'', tr_scope = ''api''\<rparr>"
  have "fst ?r = Inr (Issued t)" unfolding t_def by code_simp
  then have 1: "?r = (Inr (Issued t), snd ?r)" by (simp add: prod_eq_iff)
  define u where "u = \<lparr>u_scheme = ''https'', u_netloc = ''h'', u_path = ''/api'', u_query = [], u_fragment = []\<rparr>"
  have 2: "urlsplit (oe_ip6 (ex_env_at 1020 ''C'')) (cd_resource ?c) = Some u" unfolding u_def by code_simp
  have scope: "words ''api'' = [''api'']" by code_simp
  have cov: "covers_path (ex_reg ! 1) (Some ''/api/user/me'')" by code_simp
  have "fst (validate_access (ex_env_at 1020 ''C'') (tr_access t) (first_claims (ex_env_at 1010 ''D'') ?c) (Some ''/api/user/me'') (snd ?r))
      = Inr (Accepted (cd_user ?c) (ow_next ex_rows))"
    by (rule redeemed_access_is_accepted [OF ex_rows_consistent 1 _ _ _ _ _ 2, where e = "ex_reg ! 1"])
      (simp_all only: cov, auto simp: user_key_def scope u_def t_def ex_rows_def ex_ogrant_def ex_oworld_def ex_ocode_def ex_env_at_def ex_reg_def
        ex_client_def user_active_def client_active_def resolve_resource_def resource_enabled_def API_SCOPE_def starts_with_def)
  moreover have "cd_user ?c = 7" "ow_next ex_rows = 100" by (simp_all add: ex_ocode_def ex_rows_def ex_oworld_def)
  ultimately show ?thesis by (intro exI [of _ t] exI [of _ "snd ?r"]) simp
qed

end
