(* ===== verification/Incident_Rules.thy ===== *)
theory Incident_Rules
  imports Py_Url "HOL-Library.List_Lexorder" "HOL-Library.Char_ord"
begin

text \<open>
  The rules of the incident engine (\<open>mojo/apps/incident/models/rule.py\<close>): a rule compares one field of an
  event with a text, a rule set combines rules, and the rule sets of a category are asked in the order of
  their priority. A comparison evaluates every comparator before it picks one, so it may raise for a
  comparator that was not asked for. Regular expressions, the parsing of floats, \<open>str\<close> of containers and
  attributes of an event that are not its columns are parameters.
\<close>

section \<open>Rules and events\<close>

record inc_rule =
  rl_index :: int
  rl_field :: "string option"
  rl_comparator :: string
  rl_value :: string
  rl_type :: string

record rule_set =
  rs_pk :: int
  rs_priority :: int
  rs_category :: string
  rs_bundle_minutes :: "int option"
  rs_bundle_by :: int
  rs_by_rule_set :: bool
  rs_match_by :: int
  rs_handler :: "string option"
  rs_trigger_count :: "int option"
  rs_trigger_window :: "int option"
  rs_retrigger :: "int option"
  rs_active :: bool
  rs_delete_on_resolution :: bool
  rs_rules :: "inc_rule list"

record inc_event =
  ev_pk :: int
  ev_created :: rat
  ev_level :: int
  ev_scope :: string
  ev_category :: string
  ev_source_ip :: "string option"
  ev_hostname :: "string option"
  ev_uid :: "int option"
  ev_country :: "string option"
  ev_title :: "string option"
  ev_details :: "string option"
  ev_model_name :: "string option"
  ev_model_id :: "int option"
  ev_group :: "int option"
  ev_incident :: "int option"
  ev_metadata :: "(string \<times> json) list"

text \<open>
  What stands outside: \<open>re.search\<close> without regard to case (\<open>None\<close> for a pattern that does not compile),
  \<open>float\<close> of a text (finite values), \<open>str\<close> of a float, a list or a dict, and \<open>getattr\<close> of what is not a column.
\<close>

record rule_env =
  re_search :: "string \<Rightarrow> string \<Rightarrow> bool option"
  re_float :: "string \<Rightarrow> rat option"
  re_show_float :: "rat \<Rightarrow> string"
  re_repr :: "json \<Rightarrow> string"
  re_attr :: "inc_event \<Rightarrow> string \<Rightarrow> json res"

section \<open>The value of a field\<close>

definition jopt :: "('a \<Rightarrow> json) \<Rightarrow> 'a option \<Rightarrow> json" where
  "jopt f x = (case x of None \<Rightarrow> JNull | Some y \<Rightarrow> f y)"

definition column :: "inc_event \<Rightarrow> string \<Rightarrow> json option" where
  "column ev name =
     map_of [(''id'', JInt (ev_pk ev)), (''pk'', JInt (ev_pk ev)), (''level'', JInt (ev_level ev)), (''scope'', JStr (ev_scope ev)),
       (''category'', JStr (ev_category ev)), (''source_ip'', jopt JStr (ev_source_ip ev)), (''hostname'', jopt JStr (ev_hostname ev)),
       (''uid'', jopt JInt (ev_uid ev)), (''country_code'', jopt JStr (ev_country ev)), (''title'', jopt JStr (ev_title ev)),
       (''details'', jopt JStr (ev_details ev)), (''model_name'', jopt JStr (ev_model_name ev)), (''model_id'', jopt JInt (ev_model_id ev)),
       (''group_id'', jopt JInt (ev_group ev)), (''incident_id'', jopt JInt (ev_incident ev)), (''metadata'', JObj (ev_metadata ev))] name"

text \<open>\<open>getattr(event, name, None)\<close>: a column, or what the parameter says\<close>

definition attr_value :: "rule_env \<Rightarrow> inc_event \<Rightarrow> string \<Rightarrow> json res" where
  "attr_value E ev name = (case column ev name of Some v \<Rightarrow> Inr v | None \<Rightarrow> re_attr E ev name)"

text \<open>The metadata is asked first.\<close>

definition field_value :: "rule_env \<Rightarrow> inc_event \<Rightarrow> string \<Rightarrow> json res" where
  "field_value E ev name =
     (case map_of (ev_metadata ev) name of
        None \<Rightarrow> attr_value E ev name
      | Some v \<Rightarrow> if v = JNull then attr_value E ev name else Inr v)"

text \<open>The name a rule looks up: no field without a name, and none whose name starts with an underscore\<close>

definition rule_field :: "inc_rule \<Rightarrow> string option" where
  "rule_field r =
     (case rl_field r of
        None \<Rightarrow> None
      | Some f \<Rightarrow> if f = [] then None
          else let g = (if starts_with f ''metadata.'' then drop 9 f else f) in if starts_with g ''_'' then None else Some g)"

section \<open>Conversion and comparison\<close>

datatype cval = CInt int | CFloat rat | CBool bool | CStr string | CRaw json

fun py_str :: "rule_env \<Rightarrow> json \<Rightarrow> string" where
  "py_str E JNull = ''None''"
| "py_str E (JBool b) = (if b then ''True'' else ''False'')"
| "py_str E (JInt i) = show_int i"
| "py_str E (JFloat s) = s"
| "py_str E (JStr s) = s"
| "py_str E v = re_repr E v"

fun float_of_value :: "rule_env \<Rightarrow> json \<Rightarrow> rat res" where
  "float_of_value E (JInt i) = Inr (of_int i)"
| "float_of_value E (JBool b) = Inr (if b then 1 else 0)"
| "float_of_value E (JStr s) = (case re_float E s of Some x \<Rightarrow> Inr x | None \<Rightarrow> Inl (ValueError ''could not convert string to float''))"
| "float_of_value E (JFloat s) = (case re_float E s of Some x \<Rightarrow> Inr x | None \<Rightarrow> Inl (ValueError ''could not convert string to float''))"
| "float_of_value E _ = Inl (TypeError ''float() argument must be a string or a real number'')"

text \<open>\<open>except ValueError: return None, None\<close>\<close>

definition no_value_error :: "'a res \<Rightarrow> 'a option res" where
  "no_value_error r = (case r of Inr x \<Rightarrow> Inr (Some x) | Inl (ValueError m) \<Rightarrow> Inr None | Inl e \<Rightarrow> Inl e)"

definition convert_values :: "rule_env \<Rightarrow> inc_rule \<Rightarrow> json \<Rightarrow> (cval \<times> cval) option res" where
  "convert_values E r v =
     (if rl_comparator r \<noteq> ''contains'' \<and> rl_type r = ''int'' then
        no_value_error (andthen (int_of_value v) (\<lambda>a. andthen (int_of_value (JStr (rl_value r))) (\<lambda>b. Inr (CInt a, CInt b))))
      else if rl_comparator r \<noteq> ''contains'' \<and> rl_type r = ''float'' then
        no_value_error (andthen (float_of_value E v) (\<lambda>a. andthen (float_of_value E (JStr (rl_value r))) (\<lambda>b. Inr (CFloat a, CFloat b))))
      else if rl_comparator r \<noteq> ''contains'' \<and> rl_type r = ''bool'' then Inr (Some (CBool (truthy v), CBool (rl_value r \<noteq> [])))
      else if rl_comparator r \<noteq> ''contains'' \<and> rl_type r = ''str'' then Inr (Some (CStr (py_str E v), CStr (rl_value r)))
      else Inr (Some (CRaw v, CStr (rl_value r))))"

datatype rel = Less | Same | Greater

definition rel_of :: "'a::linorder \<Rightarrow> 'a \<Rightarrow> rel" where
  "rel_of a b = (if a < b then Less else if a = b then Same else Greater)"

text \<open>\<open>a > b\<close> raises for values of different kinds.\<close>

fun relate :: "cval \<Rightarrow> cval \<Rightarrow> rel res" where
  "relate (CInt a) (CInt b) = Inr (rel_of a b)"
| "relate (CFloat a) (CFloat b) = Inr (rel_of a b)"
| "relate (CBool a) (CBool b) = Inr (rel_of a b)"
| "relate (CStr a) (CStr b) = Inr (rel_of a b)"
| "relate (CRaw (JStr a)) (CStr b) = Inr (rel_of a b)"
| "relate _ _ = Inl (TypeError ''not supported between instances'')"

fun cval_text :: "rule_env \<Rightarrow> cval \<Rightarrow> string" where
  "cval_text E (CInt i) = show_int i"
| "cval_text E (CFloat x) = re_show_float E x"
| "cval_text E (CBool b) = (if b then ''True'' else ''False'')"
| "cval_text E (CStr s) = s"
| "cval_text E (CRaw v) = py_str E v"

text \<open>
  The dict of all comparisons is built before one is picked.
\<close>

definition compare_values :: "rule_env \<Rightarrow> string \<Rightarrow> cval \<Rightarrow> cval \<Rightarrow> bool res" where
  "compare_values E comparator a b =
     andthen (relate a b) (\<lambda>c.
     case re_search E (cval_text E b) (cval_text E a) of
       None \<Rightarrow> Inl (PatternError ''bad pattern'')
     | Some hit \<Rightarrow>
         Inr (if comparator \<in> {''=='', ''eq''} then c = Same
              else if comparator = ''>'' then c = Greater
              else if comparator = ''>='' then c \<noteq> Less
              else if comparator = ''<'' then c = Less
              else if comparator = ''<='' then c \<noteq> Greater
              else if comparator = ''contains'' then contains (cval_text E a) (cval_text E b)
              else if comparator = ''regex'' then hit
              else False))"

definition check_rule :: "rule_env \<Rightarrow> inc_event \<Rightarrow> inc_rule \<Rightarrow> bool res" where
  "check_rule E ev r =
     (case rule_field r of
        None \<Rightarrow> Inr False
      | Some name \<Rightarrow>
          andthen (field_value E ev name) (\<lambda>v.
          if v = JNull then Inr False
          else andthen (convert_values E r v) (\<lambda>c.
            case c of None \<Rightarrow> Inr False | Some (a, b) \<Rightarrow> compare_values E (rl_comparator r) a b)))"

section \<open>Rule sets\<close>

fun all_rules :: "(inc_rule \<Rightarrow> bool res) \<Rightarrow> inc_rule list \<Rightarrow> bool res" where
  "all_rules f [] = Inr True"
| "all_rules f (r # rs) = andthen (f r) (\<lambda>ok. if ok then all_rules f rs else Inr False)"

fun any_rule :: "(inc_rule \<Rightarrow> bool res) \<Rightarrow> inc_rule list \<Rightarrow> bool res" where
  "any_rule f [] = Inr False"
| "any_rule f (r # rs) = andthen (f r) (\<lambda>ok. if ok then Inr True else any_rule f rs)"

text \<open>\<open>match_by\<close> is 0 for all rules; a set without rules matches.\<close>

definition check_rules :: "rule_env \<Rightarrow> inc_event \<Rightarrow> rule_set \<Rightarrow> bool res" where
  "check_rules E ev s =
     (let rules = sort_key rl_index (rs_rules s) in
      if rules = [] then Inr True
      else if rs_match_by s = 0 then all_rules (check_rule E ev) rules
      else any_rule (check_rule E ev) rules)"

fun first_rule_set :: "(rule_set \<Rightarrow> bool res) \<Rightarrow> rule_set list \<Rightarrow> rule_set option res" where
  "first_rule_set f [] = Inr None"
| "first_rule_set f (s # ss) = andthen (f s) (\<lambda>ok. if ok then Inr (Some s) else first_rule_set f ss)"

definition candidates :: "rule_set list \<Rightarrow> string \<Rightarrow> rule_set list" where
  "candidates sets category = sort_key rs_priority (filter (\<lambda>s. rs_category s = category \<and> rs_active s) sets)"

definition check_by_category :: "rule_env \<Rightarrow> rule_set list \<Rightarrow> string \<Rightarrow> inc_event \<Rightarrow> rule_set option res" where
  "check_by_category E sets category ev = first_rule_set (check_rules E ev) (candidates sets category)"

section \<open>The rule set of an event\<close>

text \<open>The first part of \<open>Event.publish\<close>: the scope, then the category, then the catch-all\<close>

definition select_rule_set :: "rule_env \<Rightarrow> rule_set list \<Rightarrow> bool \<Rightarrow> bool \<Rightarrow> inc_event \<Rightarrow> rule_set option res" where
  "select_rule_set E sets use_catchall exact ev =
     andthen (if exact then check_by_category E sets (ev_category ev) ev
              else andthen (check_by_category E sets (ev_scope ev) ev) (\<lambda>found.
                   if found \<noteq> None then Inr found else check_by_category E sets (ev_category ev) ev)) (\<lambda>found.
     if found = None \<and> use_catchall \<and> \<not> exact then check_by_category E sets ''*'' ev else Inr found)"

end
