(* ===== verification/Incident_Events.thy ===== *)
theory Incident_Events
  imports Incident_Rules "HOL-Library.AList"
begin

text \<open>
  Events and incidents (\<open>mojo/apps/incident/models/event.py\<close>, \<open>incident.py\<close>, the dispatch of
  \<open>rule.py\<close>, \<open>reporter.py\<close>): an event is published to the first rule set that matches it, is bundled into an
  incident, and makes the handlers of the rule set run when thresholds are met. A publish runs in one
  transaction that locks the incident, so each definition is one step. Metrics, log lines, threat levels of
  addresses and the synchronisation with the external board are left out. \<open>in_tickets\<close> is the number of tickets of an
  incident, \<open>in_linked\<close> whether an item of the board hangs on it.
\<close>

section \<open>State\<close>

record incident =
  in_pk :: int
  in_created :: rat
  in_priority :: int
  in_status :: string
  in_rule_set :: "int option"
  in_scope :: string
  in_category :: string
  in_country :: "string option"
  in_title :: "string option"
  in_details :: "string option"
  in_hostname :: "string option"
  in_model_name :: "string option"
  in_model_id :: "int option"
  in_source_ip :: "string option"
  in_group :: "int option"
  in_metadata :: "(string \<times> json) list"
  in_tickets :: nat
  in_linked :: bool

text \<open>A handler job that was published: its specification, event, incident and idempotency key.\<close>

record handler_job =
  hj_spec :: string
  hj_event :: int
  hj_incident :: "int option"
  hj_key :: "string option"

record inc_world =
  iw_sets :: "rule_set list"
  iw_events :: "inc_event list"
  iw_incidents :: "incident list"
  iw_next :: int
  iw_jobs :: "handler_job list"
  iw_history :: "(int \<times> string) list"

text \<open>
  \<open>ie_geo\<close> is the location of an address, its country code and the values it adds to the metadata;
  \<open>ie_group_name\<close> the name of a group; \<open>ie_publish\<close> whether the jobs system takes a handler job;
  \<open>ie_digest\<close> the first characters of a digest; \<open>ie_ip6\<close> is explained in \<open>Py_Url\<close>.
\<close>

record inc_env =
  ie_now :: rat
  ie_rules :: rule_env
  ie_geo :: "string \<Rightarrow> (string option \<times> (string \<times> json) list) option"
  ie_group_name :: "int \<Rightarrow> json"
  ie_publish :: "string \<Rightarrow> bool"
  ie_digest :: "string \<Rightarrow> string"
  ie_ip6 :: "string \<Rightarrow> bool"
  ie_llm_key :: bool
  ie_level_threshold :: int

type_synonym 'a iact = "(inc_world, 'a) act"

definition iget :: "(inc_world \<Rightarrow> 'a) \<Rightarrow> 'a iact" where
  "iget f w = (Inr (f w), w)"

definition imodify :: "(inc_world \<Rightarrow> inc_world) \<Rightarrow> unit iact" where
  "imodify f w = (Inr (), f w)"

definition save_event :: "inc_event \<Rightarrow> unit iact" where
  "save_event ev = imodify (\<lambda>w. w\<lparr>iw_events :=
     if \<exists>e \<in> set (iw_events w). ev_pk e = ev_pk ev then map (\<lambda>e. if ev_pk e = ev_pk ev then ev else e) (iw_events w)
     else iw_events w @ [ev]\<rparr>)"

definition save_incident :: "incident \<Rightarrow> unit iact" where
  "save_incident inc = imodify (\<lambda>w. w\<lparr>iw_incidents := map (\<lambda>i. if in_pk i = in_pk inc then inc else i) (iw_incidents w)\<rparr>)"

definition add_history :: "int \<Rightarrow> string \<Rightarrow> unit iact" where
  "add_history pk kind = imodify (\<lambda>w. if \<exists>i \<in> set (iw_incidents w). in_pk i = pk then w\<lparr>iw_history := iw_history w @ [(pk, kind)]\<rparr> else w)"

text \<open>\<open>incident.events\<close>\<close>

definition linked :: "int \<Rightarrow> inc_world \<Rightarrow> inc_event list" where
  "linked pk w = filter (\<lambda>e. ev_incident e = Some pk) (iw_events w)"

section \<open>The metadata of an event\<close>

definition put_all :: "(string \<times> json) list \<Rightarrow> (string \<times> json) list \<Rightarrow> (string \<times> json) list" where
  "put_all extra m = foldl (\<lambda>m (k, v). AList.update k v m) m extra"

definition core_fields :: "inc_event \<Rightarrow> (string \<times> json) list" where
  "core_fields ev =
     [(''level'', JInt (ev_level ev)), (''scope'', JStr (ev_scope ev)), (''category'', JStr (ev_category ev)),
      (''source_ip'', jopt JStr (ev_source_ip ev)), (''title'', jopt JStr (ev_title ev)), (''details'', jopt JStr (ev_details ev)),
      (''model_name'', jopt JStr (ev_model_name ev)), (''model_id'', jopt JInt (ev_model_id ev))]"

definition group_fields :: "inc_env \<Rightarrow> inc_event \<Rightarrow> (string \<times> json) list" where
  "group_fields E ev = (case ev_group ev of None \<Rightarrow> [] | Some g \<Rightarrow> [(''group_id'', JInt g), (''group_name'', ie_group_name E g)])"

definition event_geo :: "inc_env \<Rightarrow> inc_event \<Rightarrow> (string option \<times> (string \<times> json) list) option" where
  "event_geo E ev =
     (if ev_country ev \<noteq> None \<and> ev_country ev \<noteq> Some [] then None
      else case ev_source_ip ev of None \<Rightarrow> None | Some ip \<Rightarrow> if ip = [] then None else ie_geo E ip)"

definition sync_metadata :: "inc_env \<Rightarrow> inc_event \<Rightarrow> inc_event" where
  "sync_metadata E ev =
     (case event_geo E ev of
        None \<Rightarrow> ev\<lparr>ev_metadata := put_all (core_fields ev @ group_fields E ev) (ev_metadata ev)\<rparr>
      | Some (country, extra) \<Rightarrow>
          ev\<lparr>ev_country := country,
             ev_metadata := put_all (core_fields ev @ group_fields E ev @ (''country_code'', jopt JStr country) # extra) (ev_metadata ev)\<rparr>)"

section \<open>Handlers\<close>

definition HANDLER_SCHEMES :: "string list" where
  "HANDLER_SCHEMES = [''job'', ''email'', ''sms'', ''notify'', ''ticket'', ''maestro'', ''block'', ''llm'', ''resolve'']"

text \<open>A comma separates two handlers when a scheme follows it.\<close>

definition scheme_follows :: "string \<Rightarrow> bool" where
  "scheme_follows s \<longleftrightarrow> (\<exists>sch \<in> set HANDLER_SCHEMES. starts_with s (sch @ ''://''))"

fun split_specs :: "string \<Rightarrow> string list" where
  "split_specs [] = [[]]"
| "split_specs (c # s) =
     (if c = CHR '','' \<and> scheme_follows s then [] # split_specs s
      else (case split_specs s of p # ps \<Rightarrow> (c # p) # ps | [] \<Rightarrow> [[c]]))"

definition handler_specs :: "string \<Rightarrow> string list" where
  "handler_specs h = filter (\<lambda>s. s \<noteq> []) (map strip (split_specs (strip h)))"

definition handler_key :: "inc_env \<Rightarrow> string option \<Rightarrow> nat \<Rightarrow> string \<Rightarrow> string option" where
  "handler_key E idem index spec =
     (case idem of None \<Rightarrow> None
      | Some p \<Rightarrow> if p = [] then None else Some (take 64 (p @ '':'' @ show_nat index @ '':'' @ take 12 (ie_digest E spec))))"

text \<open>
  The loop over the specifications: the answer says whether a job was published. An address that does not
  parse ends the loop with an error, as does a failed publish in strict mode.
\<close>

fun publish_specs :: "inc_env \<Rightarrow> int \<Rightarrow> int option \<Rightarrow> string option \<Rightarrow> bool \<Rightarrow> nat \<Rightarrow> string list \<Rightarrow> bool \<Rightarrow> bool iact" where
  "publish_specs E ev inc idem strict n [] published = ret published"
| "publish_specs E ev inc idem strict n (spec # specs) published =
     (case urlsplit (ie_ip6 E) spec of
        None \<Rightarrow> throw (ValueError ''Invalid IPv6 URL'')
      | Some u \<Rightarrow>
          if u_scheme u \<notin> set HANDLER_SCHEMES then publish_specs E ev inc idem strict (Suc n) specs published
          else if ie_publish E spec then
            seqs (imodify (\<lambda>w. w\<lparr>iw_jobs := iw_jobs w @ [\<lparr>hj_spec = spec, hj_event = ev, hj_incident = inc, hj_key = handler_key E idem n spec\<rparr>]\<rparr>))
                 (publish_specs E ev inc idem strict (Suc n) specs True)
          else seqs (case inc of None \<Rightarrow> ret () | Some i \<Rightarrow> add_history i (''handler:'' @ u_scheme u))
                 (if strict then throw (HandlerError ''publish'') else publish_specs E ev inc idem strict (Suc n) specs published))"

definition run_handler :: "inc_env \<Rightarrow> rule_set \<Rightarrow> int \<Rightarrow> int option \<Rightarrow> string option \<Rightarrow> bool \<Rightarrow> bool iact" where
  "run_handler E s ev inc idem strict =
     (case rs_handler s of
        None \<Rightarrow> ret False
      | Some h \<Rightarrow> if h = [] then ret False
          else catch (publish_specs E ev inc idem strict 0 (handler_specs h) False) (\<lambda>e. if strict then throw e else ret False))"

section \<open>Bundling\<close>

text \<open>One entry of the dict of criteria\<close>

datatype criterion =
    ByCategory string
  | ByRuleSet int
  | CreatedFrom rat
  | CreatedAt rat
  | ByHostname "string option"
  | ByModelName "string option"
  | ByModelId "int option"
  | BySourceIp "string option"
  | ByGroup "int option"

fun satisfies :: "incident \<Rightarrow> criterion \<Rightarrow> bool" where
  "satisfies i (ByCategory c) = (in_category i = c)"
| "satisfies i (ByRuleSet s) = (in_rule_set i = Some s)"
| "satisfies i (CreatedFrom t) = (in_created i \<ge> t)"
| "satisfies i (CreatedAt t) = (in_created i = t)"
| "satisfies i (ByHostname h) = (in_hostname i = h)"
| "satisfies i (ByModelName m) = (in_model_name i = m)"
| "satisfies i (ByModelId m) = (in_model_id i = m)"
| "satisfies i (BySourceIp a) = (in_source_ip i = a)"
| "satisfies i (ByGroup g) = (in_group i = g)"

text \<open>The extra that \<open>bundle_by\<close> names (the numbers are those of \<open>BundleBy\<close>)\<close>

definition bundle_fields :: "int \<Rightarrow> inc_event \<Rightarrow> criterion list" where
  "bundle_fields b ev =
     (if b \<in> {1, 5, 6, 9} then [ByHostname (ev_hostname ev)] else [])
     @ (if b \<in> {2, 3, 5, 6, 7, 8} then [ByModelName (ev_model_name ev)] else [])
     @ (if b \<in> {3, 6, 8} then [ByModelId (ev_model_id ev)] else [])
     @ (if b \<in> {4, 7, 8, 9, 13} then [BySourceIp (ev_source_ip ev)] else [])
     @ (if b \<in> {10, 11, 12, 13} then [ByGroup (ev_group ev)] else [])
     @ (if b \<in> {11, 12} then [ByModelName (ev_model_name ev)] else [])
     @ (if b = 12 then [ByModelId (ev_model_id ev)] else [])"

definition bundle_window :: "inc_env \<Rightarrow> int option \<Rightarrow> criterion list" where
  "bundle_window E minutes =
     (case minutes of None \<Rightarrow> [] | Some m \<Rightarrow> if m > 0 then [CreatedFrom (ie_now E - of_int (m * 60))] else if m = 0 then [CreatedAt (ie_now E)] else [])"

definition bundle_criteria :: "inc_env \<Rightarrow> rule_set \<Rightarrow> inc_event \<Rightarrow> criterion list" where
  "bundle_criteria E s ev =
     ByCategory (ev_category ev) # (if rs_by_rule_set s then [ByRuleSet (rs_pk s)] else [])
     @ bundle_window E (rs_bundle_minutes s) @ bundle_fields (rs_bundle_by s) ev"

definition bundled_incident :: "inc_env \<Rightarrow> rule_set option \<Rightarrow> inc_event \<Rightarrow> inc_world \<Rightarrow> incident option" where
  "bundled_incident E s ev w =
     (case s of None \<Rightarrow> None
      | Some s \<Rightarrow> if rs_bundle_by s > 0 then find (\<lambda>i. list_all (satisfies i) (bundle_criteria E s ev)) (iw_incidents w) else None)"

definition escalate :: "inc_event \<Rightarrow> incident \<Rightarrow> incident iact" where
  "escalate ev inc =
     (if ev_level ev > in_priority inc
      then (let inc' = inc\<lparr>in_priority := ev_level ev\<rparr> in seqs (save_incident inc') (seqs (add_history (in_pk inc) ''priority_escalated'') (ret inc')))
      else ret inc)"

text \<open>The incident an event opens; its metadata is a copy of the event's.\<close>

definition new_incident :: "inc_env \<Rightarrow> int \<Rightarrow> rule_set option \<Rightarrow> inc_event \<Rightarrow> incident" where
  "new_incident E pk s ev =
     \<lparr>in_pk = pk, in_created = ie_now E, in_priority = ev_level ev, in_status = ''new'', in_rule_set = map_option rs_pk s,
      in_scope = ev_scope ev, in_category = ev_category ev, in_country = ev_country ev, in_title = ev_title ev, in_details = ev_details ev,
      in_hostname = ev_hostname ev, in_model_name = ev_model_name ev, in_model_id = ev_model_id ev, in_source_ip = ev_source_ip ev,
      in_group = ev_group ev, in_metadata = put_all (ev_metadata ev) [], in_tickets = 0, in_linked = False\<rparr>"

definition open_incident :: "inc_env \<Rightarrow> rule_set option \<Rightarrow> inc_event \<Rightarrow> (inc_event \<times> incident) iact" where
  "open_incident E s ev =
     (let ev' = sync_metadata E ev in
      bind (iget iw_next) (\<lambda>pk.
      let inc = new_incident E pk s ev' in
      seqs (save_event ev')
      (seqs (imodify (\<lambda>w. w\<lparr>iw_incidents := iw_incidents w @ [inc], iw_next := pk + 1\<rparr>))
      (seqs (add_history pk ''created'') (ret (ev', inc))))))"

text \<open>The event object, the incident, and whether it is new\<close>

definition get_or_create_incident :: "inc_env \<Rightarrow> rule_set option \<Rightarrow> inc_event \<Rightarrow> (inc_event \<times> incident \<times> bool) iact" where
  "get_or_create_incident E s ev =
     bind (iget (bundled_incident E s ev)) (\<lambda>found.
     case found of
       Some inc \<Rightarrow> bind (escalate ev inc) (\<lambda>inc'. ret (ev, inc', False))
     | None \<Rightarrow> bind (open_incident E s ev) (\<lambda>(ev', inc). ret (ev', inc, True)))"

section \<open>Linking\<close>

text \<open>The number under a key of the metadata: \<open>int(meta.get(key) or 0)\<close>\<close>

definition meta_count :: "(string \<times> json) list \<Rightarrow> int res" where
  "meta_count m = (case map_of m ''event_count'' of None \<Rightarrow> Inr 0 | Some v \<Rightarrow> if truthy v then int_of_value v else Inr 0)"

definition mismatched :: "(string \<times> json) list \<Rightarrow> bool" where
  "mismatched m \<longleftrightarrow> (case map_of m ''group_mismatch'' of None \<Rightarrow> False | Some v \<Rightarrow> truthy v)"

text \<open>The incident after an event of the group has been linked; an unreadable count leaves it as it was.\<close>

definition reconcile :: "int option \<Rightarrow> incident \<Rightarrow> incident" where
  "reconcile grp inc =
     (case meta_count (in_metadata inc) of
        Inl e \<Rightarrow> inc
      | Inr n \<Rightarrow>
         (let meta = AList.update ''event_count'' (JInt (n + 1)) (in_metadata inc) in
          if grp \<noteq> None \<and> in_group inc = None \<and> \<not> mismatched meta then inc\<lparr>in_group := grp, in_metadata := meta\<rparr>
          else if grp \<noteq> None \<and> in_group inc \<noteq> None \<and> grp \<noteq> in_group inc
          then inc\<lparr>in_group := None, in_metadata := AList.update ''group_mismatch'' (JBool True) meta\<rparr>
          else inc\<lparr>in_metadata := meta\<rparr>))"

definition link_to_incident :: "inc_event \<Rightarrow> incident \<Rightarrow> (inc_event \<times> incident) iact" where
  "link_to_incident ev inc =
     (let ev' = ev\<lparr>ev_incident := Some (in_pk inc)\<rparr>; inc' = reconcile (ev_group ev) inc in
      seqs (save_event ev') (seqs (save_incident inc') (ret (ev', inc'))))"

section \<open>Thresholds\<close>

text \<open>\<open>trigger_window\<close>, which falls back to the time of bundling\<close>

definition trigger_window_of :: "rule_set \<Rightarrow> int option" where
  "trigger_window_of s =
     (case rs_trigger_window s of Some m \<Rightarrow> Some m
      | None \<Rightarrow> (case rs_bundle_minutes s of Some m \<Rightarrow> if m > 0 then Some m else None | None \<Rightarrow> None))"

text \<open>The events that count, with the one that is being published\<close>

definition event_tally :: "inc_env \<Rightarrow> rule_set \<Rightarrow> int \<Rightarrow> inc_world \<Rightarrow> int" where
  "event_tally E s pk w =
     int (length (filter (\<lambda>e. case trigger_window_of s of None \<Rightarrow> True
            | Some m \<Rightarrow> m = 0 \<or> ev_created e \<ge> ie_now E - of_int (m * 60)) (linked pk w))) + 1"

definition meets_threshold :: "inc_env \<Rightarrow> rule_set option \<Rightarrow> int \<Rightarrow> inc_world \<Rightarrow> bool" where
  "meets_threshold E s pk w =
     (case s of None \<Rightarrow> True | Some s \<Rightarrow> (case rs_trigger_count s of None \<Rightarrow> True | Some n \<Rightarrow> event_tally E s pk w \<ge> n))"

text \<open>Below the threshold an incident is pending, whatever it was; a pending one that reaches it is new.\<close>

definition set_status :: "incident \<Rightarrow> string \<Rightarrow> incident iact" where
  "set_status inc st = (let inc' = inc\<lparr>in_status := st\<rparr> in seqs (save_incident inc') (ret inc'))"

definition threshold_status :: "rule_set option \<Rightarrow> bool \<Rightarrow> incident \<Rightarrow> incident iact" where
  "threshold_status s meets inc =
     (case s of None \<Rightarrow> ret inc
      | Some s \<Rightarrow>
          if rs_trigger_count s = None then ret inc
          else if \<not> meets then (if in_status inc \<noteq> ''pending'' then set_status inc ''pending'' else ret inc)
          else if in_status inc = ''pending''
          then bind (set_status inc ''new'') (\<lambda>inc'. seqs (add_history (in_pk inc) ''threshold_reached'') (ret inc'))
          else ret inc)"

definition note_trigger :: "int \<Rightarrow> incident \<Rightarrow> unit iact" where
  "note_trigger n inc = save_incident (inc\<lparr>in_metadata := AList.update ''last_trigger_count'' (JInt n) (in_metadata inc)\<rparr>)"

text \<open>The count at the last trigger; a value that is no positive integer gives way to the threshold.\<close>

definition last_trigger :: "rule_set \<Rightarrow> incident \<Rightarrow> int" where
  "last_trigger s inc =
     (let fallback = (case rs_trigger_count s of None \<Rightarrow> 1 | Some n \<Rightarrow> if n = 0 then 1 else n) in
      case map_of (in_metadata inc) ''last_trigger_count'' of
        Some (JInt n) \<Rightarrow> if n < 1 then fallback else n
      | Some (JBool b) \<Rightarrow> if b then 1 else fallback
      | _ \<Rightarrow> fallback)"

definition count_events :: "int \<Rightarrow> int iact" where
  "count_events pk = iget (\<lambda>w. int (length (linked pk w)))"

definition has_handler :: "rule_set \<Rightarrow> bool" where
  "has_handler s \<longleftrightarrow> (case rs_handler s of None \<Rightarrow> False | Some h \<Rightarrow> h \<noteq> [])"

text \<open>The first trigger of an incident\<close>

definition fire :: "inc_env \<Rightarrow> rule_set \<Rightarrow> bool \<Rightarrow> inc_event \<Rightarrow> incident \<Rightarrow> bool iact" where
  "fire E s dispatch ev inc =
     seqs (if dispatch then bind (run_handler E s (ev_pk ev) (Some (in_pk inc)) None False) (\<lambda>_. ret ()) else ret ())
     (seqs (if rs_retrigger s \<noteq> None then bind (count_events (in_pk inc)) (\<lambda>n. note_trigger n inc) else ret ())
     (ret (has_handler s)))"

definition RETRIGGER_STATUSES :: "string list" where
  "RETRIGGER_STATUSES = [''new'', ''open'', ''investigating'']"

definition refire :: "inc_env \<Rightarrow> rule_set \<Rightarrow> bool \<Rightarrow> int \<Rightarrow> inc_event \<Rightarrow> incident \<Rightarrow> bool iact" where
  "refire E s dispatch every ev inc =
     bind (count_events (in_pk inc)) (\<lambda>tally.
     if tally \<ge> last_trigger s inc + every
     then seqs (note_trigger tally inc)
          (seqs (add_history (in_pk inc) ''handler_retriggered'')
          (seqs (if dispatch then bind (run_handler E s (ev_pk ev) (Some (in_pk inc)) None False) (\<lambda>_. ret ()) else ret ())
          (ret (has_handler s))))
     else ret False)"

text \<open>The handlers of the rule set, or the language model when no rule matched\<close>

definition LLM_JOB :: string where
  "LLM_JOB = ''mojo.apps.incident.handlers.llm_agent.execute_llm_handler''"

definition default_llm :: "inc_env \<Rightarrow> inc_event \<Rightarrow> incident \<Rightarrow> unit iact" where
  "default_llm E ev inc =
     (if ie_publish E LLM_JOB
      then imodify (\<lambda>w. w\<lparr>iw_jobs := iw_jobs w @ [\<lparr>hj_spec = LLM_JOB, hj_event = ev_pk ev, hj_incident = Some (in_pk inc), hj_key = None\<rparr>]\<rparr>)
      else ret ())"

definition dispatch_handlers :: "inc_env \<Rightarrow> rule_set option \<Rightarrow> bool \<Rightarrow> bool \<Rightarrow> bool \<Rightarrow> bool \<Rightarrow> string \<Rightarrow> inc_event \<Rightarrow> incident \<Rightarrow> bool iact" where
  "dispatch_handlers E s dispatch allow_llm created meets prev_status ev inc =
     (case s of
        Some s \<Rightarrow>
          if (created \<and> (rs_trigger_count s = None \<or> meets)) \<or> (prev_status = ''pending'' \<and> in_status inc = ''new'')
          then fire E s dispatch ev inc
          else (case rs_retrigger s of
                  Some every \<Rightarrow> if in_status inc \<in> set RETRIGGER_STATUSES then refire E s dispatch every ev inc else ret False
                | None \<Rightarrow> ret False)
      | None \<Rightarrow> if created \<and> allow_llm \<and> ie_llm_key E then seqs (default_llm E ev inc) (ret False) else ret False)"

section \<open>Publishing an event\<close>

record publish_options =
  po_catchall :: bool
  po_dispatch :: bool
  po_llm :: bool
  po_exact :: bool

definition default_options :: publish_options where
  "default_options = \<lparr>po_catchall = True, po_dispatch = True, po_llm = True, po_exact = False\<rparr>"

text \<open>\<open>strip().rstrip(":/") == "ignore"\<close>\<close>

definition ignores :: "rule_set \<Rightarrow> bool" where
  "ignores s \<longleftrightarrow>
     (case rs_handler s of None \<Rightarrow> False
      | Some h \<Rightarrow> h \<noteq> [] \<and> rev (dropWhile (\<lambda>c. c \<in> {CHR '':'', CHR ''/''}) (rev (strip h))) = ''ignore'')"

text \<open>The answer: the rule set, the incident, and whether its handlers were due\<close>

record publish_result =
  pr_rule_set :: "rule_set option"
  pr_incident :: "int option"
  pr_dispatch :: bool

definition bundle_and_dispatch :: "inc_env \<Rightarrow> publish_options \<Rightarrow> rule_set option \<Rightarrow> inc_event \<Rightarrow> publish_result iact" where
  "bundle_and_dispatch E opts s ev =
     bind (get_or_create_incident E s ev) (\<lambda>(ev', inc, created).
     bind (iget (meets_threshold E s (in_pk inc))) (\<lambda>meets.
     bind (threshold_status s meets inc) (\<lambda>inc'.
     bind (link_to_incident ev' inc') (\<lambda>(ev'', inc'').
     bind (dispatch_handlers E s (po_dispatch opts) (po_llm opts) created meets (in_status inc) ev'' inc'') (\<lambda>due.
     ret \<lparr>pr_rule_set = s, pr_incident = Some (in_pk inc), pr_dispatch = due\<rparr>)))))"

definition publish_with :: "inc_env \<Rightarrow> publish_options \<Rightarrow> rule_set option \<Rightarrow> inc_event \<Rightarrow> publish_result iact" where
  "publish_with E opts s ev =
     (if (case s of None \<Rightarrow> False | Some r \<Rightarrow> ignores r) then ret \<lparr>pr_rule_set = s, pr_incident = None, pr_dispatch = False\<rparr>
      else if s \<noteq> None \<or> (\<not> po_exact opts \<and> ev_level ev \<ge> ie_level_threshold E) then bundle_and_dispatch E opts s ev
      else ret \<lparr>pr_rule_set = s, pr_incident = None, pr_dispatch = False\<rparr>)"

definition publish_event :: "inc_env \<Rightarrow> publish_options \<Rightarrow> inc_event \<Rightarrow> publish_result iact" where
  "publish_event E opts ev w =
     (case select_rule_set (ie_rules E) (iw_sets w) (po_catchall opts) (po_exact opts) ev of
        Inl e \<Rightarrow> (Inl e, w)
      | Inr s \<Rightarrow> publish_with E opts s ev w)"

section \<open>Reporting\<close>

text \<open>\<open>record_event\<close> once the values of the event have been gathered: a new row with its metadata in step\<close>

definition record_event :: "inc_env \<Rightarrow> inc_event \<Rightarrow> inc_event iact" where
  "record_event E ev =
     bind (iget iw_next) (\<lambda>pk.
     let ev' = sync_metadata E (ev\<lparr>ev_pk := pk, ev_created := ie_now E, ev_incident := None\<rparr>) in
     seqs (imodify (\<lambda>w. w\<lparr>iw_events := iw_events w @ [ev'], iw_next := pk + 1\<rparr>)) (ret ev'))"

definition inc_report_event :: "inc_env \<Rightarrow> inc_event \<Rightarrow> publish_result iact" where
  "inc_report_event E ev = bind (record_event E ev) (publish_event E default_options)"

section \<open>Operations on incidents\<close>

definition RESOLVED :: "string list" where
  "RESOLVED = [''resolved'', ''closed'']"

text \<open>Deleting an incident takes its events with it.\<close>

definition delete_incident :: "int \<Rightarrow> unit iact" where
  "delete_incident pk = imodify (\<lambda>w. w\<lparr>iw_incidents := filter (\<lambda>i. in_pk i \<noteq> pk) (iw_incidents w),
     iw_events := filter (\<lambda>e. ev_incident e \<noteq> Some pk) (iw_events w)\<rparr>)"

definition check_delete_on_resolution :: "incident \<Rightarrow> bool iact" where
  "check_delete_on_resolution inc =
     bind (iget iw_sets) (\<lambda>sets.
     if in_status inc \<notin> set RESOLVED then ret False
     else if (case map_of (in_metadata inc) ''do_not_delete'' of None \<Rightarrow> False | Some v \<Rightarrow> truthy v) then ret False
     else case in_rule_set inc of
       None \<Rightarrow> ret False
     | Some pk \<Rightarrow>
         if in_tickets inc > 0 \<or> in_linked inc then ret False
         else (case find (\<lambda>s. rs_pk s = pk) sets of
             None \<Rightarrow> ret False
           | Some s \<Rightarrow> if rs_delete_on_resolution s then seqs (delete_incident (in_pk inc)) (ret True) else ret False))"

text \<open>\<open>with transaction.atomic()\<close>\<close>

definition in_transaction :: "'a iact \<Rightarrow> 'a iact" where
  "in_transaction m w = (case m w of (Inl e, _) \<Rightarrow> (Inl e, w) | (Inr x, w') \<Rightarrow> (Inr x, w'))"

definition update_incident :: "int \<Rightarrow> (incident \<Rightarrow> incident) \<Rightarrow> inc_world \<Rightarrow> inc_world" where
  "update_incident pk f w = w\<lparr>iw_incidents := map (\<lambda>i. if in_pk i = pk then f i else i) (iw_incidents w)\<rparr>"

text \<open>Its events, its tickets and its item of the board move to the target, then it is deleted.\<close>

definition move_events :: "int \<Rightarrow> int \<Rightarrow> inc_world \<Rightarrow> inc_world" where
  "move_events pk target w = w\<lparr>iw_events := map (\<lambda>e. if ev_incident e = Some pk then e\<lparr>ev_incident := Some target\<rparr> else e) (iw_events w)\<rparr>"

definition merge_one :: "int \<Rightarrow> incident \<Rightarrow> int iact" where
  "merge_one target other =
     bind (count_events (in_pk other)) (\<lambda>n.
     seqs (imodify (move_events (in_pk other) target))
     (seqs (imodify (update_incident target (\<lambda>i. i\<lparr>in_tickets := in_tickets i + in_tickets other\<rparr>)))
     (seqs (add_history target ''merged'')
     (seqs (if in_linked other then imodify (update_incident target (\<lambda>i. i\<lparr>in_linked := True\<rparr>)) else ret ())
     (seqs (delete_incident (in_pk other)) (ret n))))))"

fun merge_loop :: "int \<Rightarrow> incident list \<Rightarrow> int \<Rightarrow> int iact" where
  "merge_loop target [] moved = ret moved"
| "merge_loop target (i # rest) moved = bind (merge_one target i) (\<lambda>n. merge_loop target rest (moved + n))"

definition others :: "int \<Rightarrow> int list \<Rightarrow> inc_world \<Rightarrow> incident list" where
  "others target pks w = filter (\<lambda>i. in_pk i \<in> set pks \<and> in_pk i \<noteq> target) (iw_incidents w)"

definition merge_into :: "incident \<Rightarrow> incident list \<Rightarrow> unit iact" where
  "merge_into inc rest =
     (if length (filter in_linked (inc # rest)) > 1
      then throw (ValueError ''cannot merge incidents that each have a Maestro item; unlink duplicates first'')
      else bind (merge_loop (in_pk inc) rest 0) (\<lambda>moved.
        if moved = 0 then ret ()
        else (case meta_count (in_metadata inc) of
            Inl e \<Rightarrow> throw e
          | Inr n \<Rightarrow> imodify (update_incident (in_pk inc) (\<lambda>i. i\<lparr>in_metadata := AList.update ''event_count'' (JInt (n + moved)) (in_metadata inc)\<rparr>)))))"

definition on_action_merge :: "int \<Rightarrow> int list option \<Rightarrow> unit iact" where
  "on_action_merge target pks =
     (case pks of
        None \<Rightarrow> throw (ValueError ''Invalid value'')
      | Some ps \<Rightarrow>
         if ps = [] then throw (ValueError ''Invalid value'')
         else in_transaction (bind (iget (\<lambda>w. find (\<lambda>i. in_pk i = target) (iw_incidents w))) (\<lambda>found.
           case found of
             None \<Rightarrow> throw DoesNotExist
           | Some inc \<Rightarrow> bind (iget (others target ps)) (merge_into inc))))"

end
