(* ===== verification/Incident_Rule_Laws.thy ===== *)
theory Incident_Rule_Laws
  imports Incident_Rules
begin

text \<open>
  Which rule set an event is published to: the first that matches, in the order of the tiers and of the
  priorities.
\<close>

section \<open>The rule set an event goes to\<close>

lemma first_rule_set_Some:
  "first_rule_set f ss = Inr (Some s) \<Longrightarrow> \<exists>as bs. ss = as @ s # bs \<and> f s = Inr True \<and> (\<forall>a \<in> set as. f a = Inr False)"
proof (induction ss)
  case (Cons a ss)
  show ?case
  proof (cases "f a")
    case (Inr ok)
    show ?thesis
    proof (cases ok)
      case False
      with Cons Inr obtain as bs where "ss = as @ s # bs" "f s = Inr True" "\<forall>a \<in> set as. f a = Inr False"
        by (auto simp: andthen_def)
      with Inr False show ?thesis by (intro exI [of _ "a # as"] exI [of _ bs]) simp
    next
      case True
      with Cons.prems Inr have "a # ss = [] @ s # ss" "f s = Inr True" by (auto simp: andthen_def)
      then show ?thesis by fastforce
    qed
  qed (use Cons.prems in \<open>simp add: andthen_def\<close>)
qed simp

lemma first_rule_set_None: "first_rule_set f ss = Inr None \<Longrightarrow> s \<in> set ss \<Longrightarrow> f s = Inr False"
  by (induction ss) (auto simp: andthen_def split: sum.splits if_splits)

lemma candidates_iff: "s \<in> set (candidates sets c) \<longleftrightarrow> s \<in> set sets \<and> rs_active s \<and> rs_category s = c"
  by (auto simp: candidates_def)

lemma category_Some:
  assumes "check_by_category E sets c ev = Inr (Some s)"
  shows "s \<in> set sets \<and> rs_active s \<and> rs_category s = c \<and> check_rules E ev s = Inr True"
    and "r \<in> set sets \<Longrightarrow> rs_active r \<Longrightarrow> rs_category r = c \<Longrightarrow> rs_priority r < rs_priority s \<Longrightarrow> check_rules E ev r = Inr False"
proof -
  from first_rule_set_Some [OF assms [unfolded check_by_category_def]] obtain as bs where
    split: "candidates sets c = as @ s # bs" "check_rules E ev s = Inr True" "\<forall>a \<in> set as. check_rules E ev a = Inr False" by blast
  have "s \<in> set (candidates sets c)" using split(1) by simp
  with split(2) show "s \<in> set sets \<and> rs_active s \<and> rs_category s = c \<and> check_rules E ev s = Inr True"
    by (simp add: candidates_iff)
  assume r: "r \<in> set sets" "rs_active r" "rs_category r = c" "rs_priority r < rs_priority s"
  then have "r \<in> set (as @ s # bs)" unfolding split(1) [symmetric] by (simp add: candidates_iff)
  moreover have "sorted (map rs_priority (as @ s # bs))" unfolding split(1) [symmetric] by (simp add: candidates_def)
  ultimately have "r \<in> set as" using r(4) by (auto simp: sorted_append)
  with split(3) show "check_rules E ev r = Inr False" by blast
qed

lemma category_None:
  "check_by_category E sets c ev = Inr None \<Longrightarrow> r \<in> set sets \<Longrightarrow> rs_active r \<Longrightarrow> rs_category r = c \<Longrightarrow> check_rules E ev r = Inr False"
  unfolding check_by_category_def by (erule first_rule_set_None) (simp add: candidates_iff)

text \<open>The categories that are asked, in their order\<close>

definition tiers :: "bool \<Rightarrow> bool \<Rightarrow> inc_event \<Rightarrow> string list" where
  "tiers use_catchall exact ev =
     (if exact then [ev_category ev] else [ev_scope ev, ev_category ev] @ (if use_catchall then [''*''] else []))"

definition outranks :: "string list \<Rightarrow> rule_set \<Rightarrow> rule_set \<Rightarrow> bool" where
  "outranks cs r s \<longleftrightarrow> rs_category r \<in> set (takeWhile (\<lambda>c. c \<noteq> rs_category s) cs)
     \<or> rs_category r = rs_category s \<and> rs_priority r < rs_priority s"

lemma select_cases:
  assumes "select_rule_set E sets use_catchall exact ev = Inr found"
  shows "\<exists>cs c rest. tiers use_catchall exact ev = cs @ c # rest \<and> check_by_category E sets c ev = Inr found
    \<and> (\<forall>c' \<in> set cs. check_by_category E sets c' ev = Inr None) \<and> (found = None \<longrightarrow> rest = [])"
proof (cases exact)
  case True
  then have "tiers use_catchall exact ev = [] @ ev_category ev # []" "check_by_category E sets (ev_category ev) ev = Inr found"
    using assms by (auto simp: select_rule_set_def tiers_def andthen_def split: sum.splits if_splits)
  then show ?thesis by fastforce
next
  case False
  have at: ?thesis if "tiers use_catchall exact ev = cs @ c # rest" "check_by_category E sets c ev = Inr found"
    "\<forall>c' \<in> set cs. check_by_category E sets c' ev = Inr None" "found = None \<longrightarrow> rest = []" for cs c rest
    using that by blast
  let ?rest = "if use_catchall then [''*''] else []"
  from assms False obtain a where a: "check_by_category E sets (ev_scope ev) ev = Inr a"
    by (auto simp: select_rule_set_def andthen_def split: sum.splits)
  show ?thesis
  proof (cases a)
    case (Some s)
    with assms False a show ?thesis by (intro at [of "[]" "ev_scope ev" "ev_category ev # ?rest"]) (auto simp: select_rule_set_def andthen_def tiers_def)
  next
    case None
    with assms False a obtain b where b: "check_by_category E sets (ev_category ev) ev = Inr b"
      by (auto simp: select_rule_set_def andthen_def split: sum.splits)
    show ?thesis
    proof (cases "b = None \<and> use_catchall")
      case True
      with None assms False a b show ?thesis
        by (intro at [of "[ev_scope ev, ev_category ev]" "''*''" "[]"]) (auto simp: select_rule_set_def andthen_def tiers_def)
    next
      case no: False
      with None assms False a b show ?thesis
        by (intro at [of "[ev_scope ev]" "ev_category ev" "?rest"]) (auto simp: select_rule_set_def andthen_def tiers_def)
    qed
  qed
qed

text \<open>C36: The rule set an event is published to is active, its rules match, and nothing that outranks it
  matches: neither a rule set of an earlier tier (the scope, the category, the catch-all) nor one of its category with
  a lower number of priority. Exact publishing asks the category alone.\<close>

theorem published_to_first_match:
  assumes "select_rule_set E sets use_catchall exact ev = Inr (Some s)"
  shows "s \<in> set sets \<and> rs_active s \<and> check_rules E ev s = Inr True \<and> rs_category s \<in> set (tiers use_catchall exact ev)
    \<and> (\<forall>r \<in> set sets. rs_active r \<and> outranks (tiers use_catchall exact ev) r s \<longrightarrow> check_rules E ev r = Inr False)"
proof -
  from select_cases [OF assms] obtain cs c rest where
    tier: "tiers use_catchall exact ev = cs @ c # rest" and hit: "check_by_category E sets c ev = Inr (Some s)"
    and miss: "\<forall>c' \<in> set cs. check_by_category E sets c' ev = Inr None" by blast
  have s: "s \<in> set sets \<and> rs_active s \<and> rs_category s = c \<and> check_rules E ev s = Inr True" by (rule category_Some(1) [OF hit])
  have "c \<notin> set cs" using hit miss by auto
  then have before: "takeWhile (\<lambda>x. x \<noteq> rs_category s) (cs @ c # rest) = cs" using s 
    by (subst takeWhile_append2) auto
  have "check_rules E ev r = Inr False" if "r \<in> set sets" "rs_active r" "outranks (tiers use_catchall exact ev) r s" for r
    using that s miss category_None [of E sets _ ev r] category_Some(2) [OF hit, of r]
    unfolding outranks_def tier before by auto
  with s tier show ?thesis by auto
qed

text \<open>No rule set: none that is asked matches.\<close>

theorem unmatched_event:
  assumes "select_rule_set E sets use_catchall exact ev = Inr None" "r \<in> set sets" "rs_active r" "rs_category r \<in> set (tiers use_catchall exact ev)"
  shows "check_rules E ev r = Inr False"
proof -
  from select_cases [OF assms(1)] obtain cs c where "tiers use_catchall exact ev = cs @ [c]" "\<forall>c' \<in> set (cs @ [c]). check_by_category E sets c' ev = Inr None"
    by auto
  with assms(4) have "check_by_category E sets (rs_category r) ev = Inr None" by auto
  from category_None [OF this assms(2,3)] show ?thesis by simp
qed
end
