(* ===== verification/Incident_Laws.thy ===== *)
theory Incident_Laws
  imports Incident_Events Incident_Rule_Laws
begin

text \<open>
  What the incident engine guarantees: the rule set an event is published to, the events at which the
  handlers of a rule set run, the counts and the group that an incident shows, and the rules that never
  raise. Some theorems record what the engine does not keep: a merge mixes groups, an event after a quiet
  window sends an incident back to the start.
\<close>

section \<open>What a publish does to the rows\<close>

definition put_inc :: "incident \<Rightarrow> incident list \<Rightarrow> incident list" where
  "put_inc inc xs = map (\<lambda>i. if in_pk i = in_pk inc then inc else i) xs"

definition put_event :: "inc_event \<Rightarrow> inc_event list \<Rightarrow> inc_event list" where
  "put_event ev xs = (if \<exists>e \<in> set xs. ev_pk e = ev_pk ev then map (\<lambda>e. if ev_pk e = ev_pk ev then ev else e) xs else xs @ [ev])"

lemma put_inc_put [simp]: "in_pk a = in_pk b \<Longrightarrow> put_inc a (put_inc b xs) = put_inc a xs"
  by (auto simp: put_inc_def)

lemma put_inc_same: "distinct (map in_pk xs) \<Longrightarrow> inc \<in> set xs \<Longrightarrow> put_inc inc xs = xs"
  unfolding put_inc_def by (rule map_idI) (auto simp: distinct_map dest: inj_onD)

lemma map_in_pk_put [simp]: "map in_pk (put_inc inc xs) = map in_pk xs"
  by (auto simp: put_inc_def)

lemma put_inc_fresh: "in_pk inc \<notin> set (map in_pk xs) \<Longrightarrow> put_inc inc (xs @ [b]) = xs @ (if in_pk b = in_pk inc then [inc] else [b])"
  unfolding put_inc_def by (auto intro!: map_idI) (force intro: rev_image_eqI)

lemma save_incident_run: "save_incident inc w = (Inr (), w\<lparr>iw_incidents := put_inc inc (iw_incidents w)\<rparr>)"
  by (simp add: save_incident_def imodify_def put_inc_def)

lemma save_event_run: "save_event ev w = (Inr (), w\<lparr>iw_events := put_event ev (iw_events w)\<rparr>)"
  by (simp add: save_event_def imodify_def put_event_def)

text \<open>Operations that touch jobs and history alone\<close>

definition aside :: "inc_world \<Rightarrow> inc_world \<Rightarrow> bool" where
  "aside w w' \<longleftrightarrow> iw_sets w' = iw_sets w \<and> iw_events w' = iw_events w \<and> iw_incidents w' = iw_incidents w \<and> iw_next w' = iw_next w"

lemma aside_refl [simp]: "aside w w"
  by (simp add: aside_def)

lemma aside_trans: "aside u v \<Longrightarrow> aside v w \<Longrightarrow> aside u w"
  by (simp add: aside_def)

lemma history_run: "\<exists>w'. add_history pk kind w = (Inr (), w') \<and> aside w w'"
  by (simp add: add_history_def imodify_def aside_def)

lemma history_result: "fst (add_history pk kind w) = Inr ()" "aside w (snd (add_history pk kind w))"
  by (simp_all add: add_history_def imodify_def aside_def)

lemma seqs_run: "m w = (Inr x, w') \<Longrightarrow> seqs m n w = n w'"
  by (simp add: seqs_def bind_def)

lemma bind_run: "m w = (Inr x, w') \<Longrightarrow> bind m f w = f x w'"
  by (simp add: bind_def)

lemma seqs_history: "seqs (add_history pk kind) m w = m (snd (add_history pk kind w))"
  using history_result(1) [of pk kind w] by (cases "add_history pk kind w") (simp add: seqs_def bind_def)

lemma publish_specs_aside: "aside w (snd (publish_specs E ev inc idem strict n specs p w))"
proof (induction E ev inc idem strict n specs p arbitrary: w rule: publish_specs.induct)
  case (2 E ev inc idem strict n spec specs p)
  have jobs: "aside w (w\<lparr>iw_jobs := js\<rparr>)" for js by (simp add: aside_def)
  have hist: "aside w (snd (add_history i k w))" for i k by (rule history_result)
  show ?case
    using 2 [of _ _] jobs hist
    by (auto simp: throw_def seqs_def bind_def imodify_def ret_def add_history_def aside_def split: option.splits)
qed (simp add: ret_def)

lemma run_handler_run: "\<exists>b w'. run_handler E s ev inc idem False w = (Inr b, w') \<and> aside w w'"
proof -
  have "aside w (snd (publish_specs E ev inc idem False 0 (handler_specs h) False w))" for h by (rule publish_specs_aside)
  then show ?thesis
    by (auto simp: run_handler_def catch_def ret_def split: option.splits prod.splits sum.splits) (metis snd_conv aside_refl)+
qed

section \<open>The steps of a publish\<close>

text \<open>The incident after each step, as a function of the incident before\<close>

definition escalated :: "inc_event \<Rightarrow> incident \<Rightarrow> incident" where
  "escalated ev inc = (if ev_level ev > in_priority inc then inc\<lparr>in_priority := ev_level ev\<rparr> else inc)"

definition status_after :: "rule_set option \<Rightarrow> bool \<Rightarrow> incident \<Rightarrow> string" where
  "status_after s meets inc =
     (case s of None \<Rightarrow> in_status inc
      | Some s \<Rightarrow> if rs_trigger_count s = None then in_status inc
                  else if \<not> meets then ''pending'' else if in_status inc = ''pending'' then ''new'' else in_status inc)"

definition first_trigger :: "rule_set \<Rightarrow> bool \<Rightarrow> bool \<Rightarrow> string \<Rightarrow> incident \<Rightarrow> bool" where
  "first_trigger s created meets prev inc \<longleftrightarrow>
     created \<and> (rs_trigger_count s = None \<or> meets) \<or> prev = ''pending'' \<and> in_status inc = ''new''"

definition later_trigger :: "rule_set \<Rightarrow> int \<Rightarrow> incident \<Rightarrow> bool" where
  "later_trigger s n inc \<longleftrightarrow>
     (case rs_retrigger s of None \<Rightarrow> False
      | Some every \<Rightarrow> in_status inc \<in> set RETRIGGER_STATUSES \<and> n \<ge> last_trigger s inc + every)"

definition triggers :: "rule_set option \<Rightarrow> bool \<Rightarrow> bool \<Rightarrow> string \<Rightarrow> int \<Rightarrow> incident \<Rightarrow> bool" where
  "triggers s created meets prev n inc \<longleftrightarrow>
     (case s of None \<Rightarrow> False | Some s \<Rightarrow> first_trigger s created meets prev inc \<or> later_trigger s n inc)"

definition noted :: "rule_set option \<Rightarrow> bool \<Rightarrow> bool \<Rightarrow> string \<Rightarrow> int \<Rightarrow> incident \<Rightarrow> incident" where
  "noted s created meets prev n inc =
     (if triggers s created meets prev n inc \<and> rs_retrigger (the s) \<noteq> None
      then inc\<lparr>in_metadata := AList.update ''last_trigger_count'' (JInt n) (in_metadata inc)\<rparr> else inc)"

lemma step_pk [simp]:
  "in_pk (escalated ev inc) = in_pk inc" "in_pk (reconcile g inc) = in_pk inc" "in_pk (noted s c m p n inc) = in_pk inc"
  by (auto simp: escalated_def reconcile_def noted_def Let_def split: sum.split)

lemma step_status [simp]:
  "in_status (escalated ev inc) = in_status inc" "in_status (reconcile g inc) = in_status inc" "in_status (noted s c m p n inc) = in_status inc"
  by (auto simp: escalated_def reconcile_def noted_def Let_def split: sum.split)

text \<open>The world holds the row of the incident; the other tables are as they were.\<close>

definition holds :: "incident \<Rightarrow> incident list \<Rightarrow> inc_world \<Rightarrow> inc_world \<Rightarrow> bool" where
  "holds inc xs w w' \<longleftrightarrow> iw_incidents w' = put_inc inc xs \<and> iw_sets w' = iw_sets w \<and> iw_events w' = iw_events w \<and> iw_next w' = iw_next w"

lemma holds_aside: "holds inc xs w v \<Longrightarrow> aside v v' \<Longrightarrow> holds inc xs w v'"
  by (simp add: holds_def aside_def)

lemma holds_save: "holds inc xs w v \<Longrightarrow> in_pk inc' = in_pk inc \<Longrightarrow> holds inc' xs w (snd (save_incident inc' v))"
  by (simp add: holds_def save_incident_run)

lemma linked_holds: "holds inc xs w v \<Longrightarrow> linked pk v = linked pk w"
  by (simp add: holds_def linked_def)

lemma escalate_run:
  assumes "holds inc xs w v"
  shows "\<exists>v'. escalate ev inc v = (Inr (escalated ev inc), v') \<and> holds (escalated ev inc) xs w v'"
proof (cases "ev_level ev > in_priority inc")
  case True
  let ?i = "inc\<lparr>in_priority := ev_level ev\<rparr>"
  have "holds ?i xs w (snd (save_incident ?i v))" using assms by (rule holds_save) simp
  then have "holds ?i xs w (snd (add_history (in_pk inc) ''priority_escalated'' (snd (save_incident ?i v))))"
    by (rule holds_aside) (rule history_result)
  with True show ?thesis
    by (simp add: escalate_def escalated_def Let_def save_incident_run seqs_run seqs_history ret_def)
qed (use assms in \<open>simp add: escalate_def escalated_def ret_def\<close>)

lemma threshold_run:
  assumes "holds inc xs w v"
  shows "\<exists>v'. threshold_status s meets inc v = (Inr (inc\<lparr>in_status := status_after s meets inc\<rparr>), v')
     \<and> holds (inc\<lparr>in_status := status_after s meets inc\<rparr>) xs w v'"
proof -
  have set: "\<exists>v'. set_status inc st v = (Inr (inc\<lparr>in_status := st\<rparr>), v') \<and> holds (inc\<lparr>in_status := st\<rparr>) xs w v'" for st
    using holds_save [OF assms, of "inc\<lparr>in_status := st\<rparr>"] by (simp add: set_status_def Let_def save_incident_run seqs_run ret_def)
  have same: "inc\<lparr>in_status := st\<rparr> = inc" if "in_status inc = st" for st using that by simp
  show ?thesis
  proof (cases s)
    case None
    then show ?thesis using assms by (simp add: threshold_status_def status_after_def ret_def)
  next
    case (Some r)
    consider "rs_trigger_count r = None" | "rs_trigger_count r \<noteq> None" "\<not> meets" "in_status inc = ''pending''"
      | "rs_trigger_count r \<noteq> None" "\<not> meets" "in_status inc \<noteq> ''pending''"
      | "rs_trigger_count r \<noteq> None" "meets" "in_status inc = ''pending''"
      | "rs_trigger_count r \<noteq> None" "meets" "in_status inc \<noteq> ''pending''" by blast
    then show ?thesis
    proof cases
      case 4
      from set [of "''new''"] obtain v' where v': "set_status inc ''new'' v = (Inr (inc\<lparr>in_status := ''new''\<rparr>), v')"
        "holds (inc\<lparr>in_status := ''new''\<rparr>) xs w v'" by blast
      from 4(1) obtain n where "rs_trigger_count r = Some n" by blast
      with 4 Some v'(1) show ?thesis
        using holds_aside [OF v'(2) history_result(2)]
        by (simp add: threshold_status_def status_after_def bind_run seqs_history ret_def)
    qed (use assms Some set [of "''pending''"] in \<open>auto simp: threshold_status_def status_after_def ret_def same\<close>)
  qed
qed

lemma link_run:
  assumes "holds inc xs w v"
  shows "\<exists>v'. link_to_incident ev inc v = (Inr (ev\<lparr>ev_incident := Some (in_pk inc)\<rparr>, reconcile (ev_group ev) inc), v')
     \<and> iw_incidents v' = put_inc (reconcile (ev_group ev) inc) xs \<and> iw_sets v' = iw_sets w \<and> iw_next v' = iw_next w
     \<and> iw_events v' = put_event (ev\<lparr>ev_incident := Some (in_pk inc)\<rparr>) (iw_events w)"
  using assms by (simp add: link_to_incident_def Let_def save_event_run save_incident_run seqs_run ret_def holds_def)

lemma dispatch_run:
  assumes "holds inc xs w v"
  defines "n \<equiv> int (length (linked (in_pk inc) w))"
  shows "\<exists>v'. dispatch_handlers E s dispatch allow created meets prev ev inc v
       = (Inr (triggers s created meets prev n inc \<and> has_handler (the s)), v')
     \<and> holds (noted s created meets prev n inc) xs w v'"
proof -
  have n: "count_events (in_pk inc) u = (Inr n, u)" if "holds inc' xs w u" for u inc'
    using linked_holds [OF that] by (simp add: count_events_def iget_def n_def)
  have run: "\<exists>u'. (if dispatch then bind (run_handler E r (ev_pk ev) (Some (in_pk inc)) None False) (\<lambda>_. ret ()) else ret ()) u = (Inr (), u')
      \<and> holds inc' xs w u'" if "holds inc' xs w u" for r u inc'
    using that run_handler_run [of E r "ev_pk ev" "Some (in_pk inc)" None u] holds_aside [OF that]
    by (cases dispatch) (auto simp: bind_run ret_def)
  let ?note = "inc\<lparr>in_metadata := AList.update ''last_trigger_count'' (JInt n) (in_metadata inc)\<rparr>"
  have marks: "\<exists>u'. note_trigger n inc u = (Inr (), u') \<and> holds ?note xs w u'" if "holds inc xs w u" for u
    using holds_save [OF that, of ?note] by (simp add: note_trigger_def save_incident_run)
  show ?thesis
  proof (cases s)
    case None
    have "\<exists>u'. default_llm E ev inc v = (Inr (), u') \<and> holds inc xs w u'"
      using assms(1) by (simp add: default_llm_def imodify_def ret_def holds_def)
    then show ?thesis using assms(1) None by (auto simp: dispatch_handlers_def triggers_def noted_def seqs_run ret_def)
  next
    case (Some r)
    let ?m = "if dispatch then bind (run_handler E r (ev_pk ev) (Some (in_pk inc)) None False) (\<lambda>_. ret ()) else ret ()"
    show ?thesis
    proof (cases "first_trigger r created meets prev inc")
      case True
      from run [OF assms(1), of r] obtain u where u: "?m v = (Inr (), u)"
        "holds inc xs w u" by blast
      from marks [OF u(2)] n [OF u(2)] u True Some show ?thesis
        by (auto simp: dispatch_handlers_def first_trigger_def fire_def triggers_def noted_def seqs_run [of ?m, OF u(1)] ret_def seqs_def bind_def)
    next
      case False
      show ?thesis
      proof (cases "later_trigger r n inc")
        case True
        then obtain every where e: "rs_retrigger r = Some every" "in_status inc \<in> set RETRIGGER_STATUSES" "n \<ge> last_trigger r inc + every"
          by (auto simp: later_trigger_def split: option.splits)
        from marks [OF assms(1)] obtain u where u: "note_trigger n inc v = (Inr (), u)" "holds ?note xs w u" by blast
        let ?u = "snd (add_history (in_pk inc) ''handler_retriggered'' u)"
        have "holds ?note xs w ?u" using u(2) by (rule holds_aside) (rule history_result)
        from run [OF this, of r] obtain u' where u': "?m ?u = (Inr (), u')"
          "holds ?note xs w u'" by blast
        have "refire E r dispatch every ev inc v = (Inr (has_handler r), u')"
          using e(3) by (simp add: refire_def bind_run [of "count_events (in_pk inc)", OF n [OF assms(1)]] seqs_run [of "note_trigger n inc", OF u(1)] seqs_history seqs_run [of ?m, OF u'(1)] ret_def)
        with u'(2) e True False Some show ?thesis
          by (auto simp: dispatch_handlers_def first_trigger_def triggers_def noted_def)
      next
        case no: False
        then have "\<And>every. rs_retrigger r = Some every \<Longrightarrow> in_status inc \<in> set RETRIGGER_STATUSES \<Longrightarrow> \<not> n \<ge> last_trigger r inc + every"
          by (auto simp: later_trigger_def)
        with False no Some assms(1) show ?thesis
          by (auto simp: dispatch_handlers_def first_trigger_def triggers_def noted_def refire_def bind_run [of "count_events (in_pk inc)", OF n [OF assms(1)]] ret_def split: option.splits)
      qed
    qed
  qed
qed

text \<open>The incident after a publish; \<open>n\<close> is the number of its events with the new one.\<close>

definition settled :: "rule_set option \<Rightarrow> bool \<Rightarrow> bool \<Rightarrow> int option \<Rightarrow> int \<Rightarrow> incident \<Rightarrow> incident" where
  "settled s created meets grp n inc =
     noted s created meets (in_status inc) n (reconcile grp (inc\<lparr>in_status := status_after s meets inc\<rparr>))"

definition due :: "rule_set option \<Rightarrow> bool \<Rightarrow> bool \<Rightarrow> int option \<Rightarrow> int \<Rightarrow> incident \<Rightarrow> bool" where
  "due s created meets grp n inc \<longleftrightarrow>
     triggers s created meets (in_status inc) n (reconcile grp (inc\<lparr>in_status := status_after s meets inc\<rparr>)) \<and> has_handler (the s)"

definition join :: "int \<Rightarrow> inc_event \<Rightarrow> inc_event list \<Rightarrow> inc_event list" where
  "join pk ev evs = put_event (ev\<lparr>ev_incident := Some pk\<rparr>) evs"

definition tally :: "int \<Rightarrow> inc_event list \<Rightarrow> int" where
  "tally pk evs = int (length (filter (\<lambda>e. ev_incident e = Some pk) evs))"

lemma meets_holds: "holds inc xs w v \<Longrightarrow> meets_threshold E s pk v = meets_threshold E s pk w"
  unfolding meets_threshold_def event_tally_def by (simp only: linked_holds)

lemma settle_run:
  fixes E s opts created ev
  assumes "holds inc xs w v"
  defines "meets \<equiv> meets_threshold E s (in_pk inc) w"
  defines "n \<equiv> tally (in_pk inc) (join (in_pk inc) ev (iw_events w))"
  shows "\<exists>v'. bind (iget (meets_threshold E s (in_pk inc))) (\<lambda>meets.
           bind (threshold_status s meets inc) (\<lambda>inc'.
           bind (link_to_incident ev inc') (\<lambda>(ev'', inc'').
           bind (dispatch_handlers E s (po_dispatch opts) (po_llm opts) created meets (in_status inc) ev'' inc'') (\<lambda>due.
           ret \<lparr>pr_rule_set = s, pr_incident = Some (in_pk inc), pr_dispatch = due\<rparr>)))) v
         = (Inr \<lparr>pr_rule_set = s, pr_incident = Some (in_pk inc), pr_dispatch = due s created meets (ev_group ev) n inc\<rparr>, v')
       \<and> iw_incidents v' = put_inc (settled s created meets (ev_group ev) n inc) xs
       \<and> iw_events v' = join (in_pk inc) ev (iw_events w) \<and> iw_sets v' = iw_sets w \<and> iw_next v' = iw_next w"
proof -
  let ?i = "inc\<lparr>in_status := status_after s meets inc\<rparr>"
  let ?r = "reconcile (ev_group ev) ?i"
  from threshold_run [OF assms(1)] obtain v1 where
    t: "threshold_status s meets inc v = (Inr ?i, v1)" and h1: "holds ?i xs w v1" by blast
  from link_run [OF h1, of ev] obtain v2 where
    l: "link_to_incident ev ?i v1 = (Inr (ev\<lparr>ev_incident := Some (in_pk inc)\<rparr>, ?r), v2)"
    and h2: "holds ?r xs (w\<lparr>iw_events := join (in_pk inc) ev (iw_events w)\<rparr>) v2"
    by (auto simp: holds_def join_def)
  from dispatch_run [where E = E and s = s and dispatch = "po_dispatch opts" and allow = "po_llm opts" and created = created and meets = meets
      and prev = "in_status inc" and ev = "ev\<lparr>ev_incident := Some (in_pk inc)\<rparr>", OF h2] obtain v3 where
    d: "dispatch_handlers E s (po_dispatch opts) (po_llm opts) created meets (in_status inc) (ev\<lparr>ev_incident := Some (in_pk inc)\<rparr>) ?r v2
         = (Inr (due s created meets (ev_group ev) n inc), v3)"
    and h3: "holds (settled s created meets (ev_group ev) n inc) xs (w\<lparr>iw_events := join (in_pk inc) ev (iw_events w)\<rparr>) v3"
    by (auto simp: due_def settled_def n_def tally_def linked_def)
  show ?thesis
    using h3 meets_holds [OF assms(1), of E s "in_pk inc"]
    by (simp add: bind_def iget_def meets_def [symmetric] t l d ret_def holds_def)
qed

text \<open>A publish that bundles into an incident\<close>

lemma bundle_into:
  assumes "bundled_incident E s ev w = Some inc" "distinct (map in_pk (iw_incidents w))"
  defines "meets \<equiv> meets_threshold E s (in_pk inc) w"
  defines "n \<equiv> tally (in_pk inc) (join (in_pk inc) ev (iw_events w))"
  shows "\<exists>w'. bundle_and_dispatch E opts s ev w
         = (Inr \<lparr>pr_rule_set = s, pr_incident = Some (in_pk inc), pr_dispatch = due s False meets (ev_group ev) n (escalated ev inc)\<rparr>, w')
       \<and> iw_incidents w' = put_inc (settled s False meets (ev_group ev) n (escalated ev inc)) (iw_incidents w)
       \<and> iw_events w' = join (in_pk inc) ev (iw_events w) \<and> iw_sets w' = iw_sets w \<and> iw_next w' = iw_next w"
proof -
  have "inc \<in> set (iw_incidents w)"
    using assms(1) by (auto simp: bundled_incident_def find_Some_iff split: option.splits if_splits)
  with assms(2) have "holds inc (iw_incidents w) w w" by (simp add: holds_def put_inc_same)
  from escalate_run [OF this, of ev] obtain v where
    e: "escalate ev inc w = (Inr (escalated ev inc), v)" and h: "holds (escalated ev inc) (iw_incidents w) w v" by blast
  have g: "get_or_create_incident E s ev w = (Inr (ev, escalated ev inc, False), v)"
    by (simp add: get_or_create_incident_def bind_def iget_def assms(1) e ret_def)
  show ?thesis
    unfolding bundle_and_dispatch_def bind_run [of "get_or_create_incident E s ev", OF g] prod.case
    using settle_run [where E = E and s = s and opts = opts and created = False and ev = ev, OF h] by (simp add: meets_def n_def)
qed

text \<open>A publish that opens an incident\<close>

definition opened :: "inc_env \<Rightarrow> rule_set option \<Rightarrow> inc_event \<Rightarrow> inc_world \<Rightarrow> incident" where
  "opened E s ev w = new_incident E (iw_next w) s (sync_metadata E ev)"

lemma opened_pk [simp]: "in_pk (opened E s ev w) = iw_next w"
  by (simp add: opened_def new_incident_def)

lemma sync_columns [simp]: "ev_pk (sync_metadata E ev) = ev_pk ev" "ev_group (sync_metadata E ev) = ev_group ev"
  "ev_incident (sync_metadata E ev) = ev_incident ev" "ev_created (sync_metadata E ev) = ev_created ev" "ev_level (sync_metadata E ev) = ev_level ev"
  by (auto simp: sync_metadata_def split: option.splits)

lemma bundle_new:
  assumes "bundled_incident E s ev w = None" "iw_next w \<notin> set (map in_pk (iw_incidents w))"
  defines "evs \<equiv> put_event (sync_metadata E ev) (iw_events w)"
  defines "meets \<equiv> meets_threshold E s (iw_next w) (w\<lparr>iw_events := evs\<rparr>)"
  defines "n \<equiv> tally (iw_next w) (join (iw_next w) (sync_metadata E ev) evs)"
  shows "\<exists>w'. bundle_and_dispatch E opts s ev w
         = (Inr \<lparr>pr_rule_set = s, pr_incident = Some (iw_next w), pr_dispatch = due s True meets (ev_group ev) n (opened E s ev w)\<rparr>, w')
       \<and> iw_incidents w' = iw_incidents w @ [settled s True meets (ev_group ev) n (opened E s ev w)]
       \<and> iw_events w' = join (iw_next w) (sync_metadata E ev) evs \<and> iw_sets w' = iw_sets w \<and> iw_next w' = iw_next w + 1"
proof -
  let ?i = "opened E s ev w" and ?w = "w\<lparr>iw_events := evs, iw_incidents := iw_incidents w @ [opened E s ev w], iw_next := iw_next w + 1\<rparr>"
  let ?v = "snd (add_history (iw_next w) ''created'' ?w)"
  have "holds ?i (iw_incidents ?w) ?w ?w"
    using assms(2) by (simp add: holds_def put_inc_fresh)
  then have h: "holds ?i (iw_incidents ?w) ?w ?v" by (rule holds_aside) (rule history_result)
  have g: "get_or_create_incident E s ev w = (Inr (sync_metadata E ev, ?i, True), ?v)"
    by (simp add: get_or_create_incident_def open_incident_def bind_def seqs_def iget_def imodify_def assms(1) save_event_run ret_def Let_def
        opened_def evs_def add_history_def)
  have meets: "meets_threshold E s (in_pk ?i) ?w = meets"
    by (auto simp: meets_def meets_threshold_def event_tally_def linked_def cong: option.case_cong)
  have pk: "in_pk (settled s True meets (ev_group ev) n ?i) = iw_next w" by (simp add: settled_def)
  show ?thesis
    unfolding bundle_and_dispatch_def bind_run [of "get_or_create_incident E s ev", OF g] prod.case
    using settle_run [where E = E and s = s and opts = opts and created = True and ev = "sync_metadata E ev", OF h] put_inc_fresh [of "settled s True meets (ev_group ev) n ?i"] assms(2) pk
    unfolding meets by (simp add: n_def)
qed

section \<open>When handlers run\<close>

text \<open>The event at which the handlers of a rule set run first, and the later ones\<close>

definition first_at :: "rule_set \<Rightarrow> int" where
  "first_at s = (case rs_trigger_count s of None \<Rightarrow> 1 | Some c \<Rightarrow> max 1 c)"

definition fires_at :: "rule_set \<Rightarrow> int \<Rightarrow> bool" where
  "fires_at s t \<longleftrightarrow> t = first_at s
     \<or> t > first_at s \<and> (case rs_retrigger s of None \<Rightarrow> False | Some k \<Rightarrow> k \<le> 1 \<or> (t - first_at s) mod k = 0)"

definition enough :: "rule_set \<Rightarrow> int \<Rightarrow> bool" where
  "enough s t \<longleftrightarrow> (case rs_trigger_count s of None \<Rightarrow> True | Some c \<Rightarrow> t \<ge> c)"

text \<open>The last trigger lies less than one period back.\<close>

definition recent :: "rule_set \<Rightarrow> int \<Rightarrow> int \<Rightarrow> bool" where
  "recent s t l \<longleftrightarrow> first_at s \<le> l \<and> l \<le> t
     \<and> (case rs_retrigger s of None \<Rightarrow> True | Some k \<Rightarrow> if k \<le> 1 then l = t else (l - first_at s) mod k = 0 \<and> t - l < k)"

definition in_step :: "rule_set \<Rightarrow> int \<Rightarrow> incident \<Rightarrow> bool" where
  "in_step s t inc \<longleftrightarrow>
     (if t < first_at s then in_status inc = ''pending''
      else in_status inc = ''new'' \<and> (rs_retrigger s \<noteq> None \<longrightarrow> recent s t (last_trigger s inc)))"

lemma enough_first: "t \<ge> 1 \<Longrightarrow> enough s t \<longleftrightarrow> first_at s \<le> t"
  by (auto simp: enough_def first_at_def split: option.splits)

lemma first_positive: "1 \<le> first_at s"
  by (simp add: first_at_def split: option.splits)

lemma recent_start: "recent s (first_at s) (first_at s)"
  by (auto simp: recent_def split: option.splits)

lemma recent_step:
  assumes "recent s t l" "rs_retrigger s = Some k"
  shows "t + 1 \<ge> l + k \<longleftrightarrow> fires_at s (t + 1)"
    and "recent s (t + 1) (if t + 1 \<ge> l + k then t + 1 else l)"
proof -
  have lt: "first_at s \<le> l" "l \<le> t" using assms by (auto simp: recent_def)
  have "t + 1 \<ge> l + k \<longleftrightarrow> (t + 1 - first_at s) mod k = 0" if "\<not> k \<le> 1"
  proof -
    have l: "(l - first_at s) mod k = 0" "t - l < k" using assms that by (auto simp: recent_def)
    have "(t + 1 - first_at s) mod k = ((l - first_at s) mod k + (t + 1 - l)) mod k" by (simp add: mod_add_left_eq)
    also have "\<dots> = (t + 1 - l) mod k" using l by simp
    also have "\<dots> = (if t + 1 - l = k then 0 else t + 1 - l)" using l(2) lt that by simp
    finally show ?thesis using l(2) lt by auto
  qed
  then show mods: "t + 1 \<ge> l + k \<longleftrightarrow> fires_at s (t + 1)"
    using assms lt by (cases "k \<le> 1") (auto simp: fires_at_def recent_def)
  show "recent s (t + 1) (if t + 1 \<ge> l + k then t + 1 else l)"
    using assms mods lt by (auto simp: recent_def fires_at_def)
qed

lemma last_trigger_noted:
  assumes "n \<ge> 1"
  shows "last_trigger s (noted (Some s) c m p n inc)
      = (if triggers (Some s) c m p n inc \<and> rs_retrigger s \<noteq> None then n else last_trigger s inc)"
  using assms by (auto simp: noted_def last_trigger_def update_conv' Let_def)

lemma reconcile_last [simp]: "last_trigger s (reconcile g inc) = last_trigger s inc"
  by (auto simp: reconcile_def last_trigger_def update_conv' Let_def split: sum.splits)

lemma last_status [simp]: "last_trigger s (inc\<lparr>in_status := st\<rparr>) = last_trigger s inc"
  by (simp add: last_trigger_def)

lemma later_trigger_step:
  assumes "recent s t (last_trigger s inc)" "in_status inc = ''new''"
  shows "later_trigger s (t + 1) inc \<longleftrightarrow> (case rs_retrigger s of None \<Rightarrow> False | Some k \<Rightarrow> fires_at s (t + 1))"
  using assms recent_step by (auto simp: later_trigger_def RETRIGGER_STATUSES_def split: option.splits)

lemma fires_before: "t < first_at s \<Longrightarrow> \<not> fires_at s t"
  by (simp add: fires_at_def)

lemma fires_no_retrigger: "rs_retrigger s = None \<Longrightarrow> fires_at s t \<longleftrightarrow> t = first_at s"
  by (simp add: fires_at_def)

lemma start_step:
  assumes "in_status inc = ''new''"
  shows "due (Some s) True (enough s 1) g 1 inc \<longleftrightarrow> fires_at s 1 \<and> has_handler s"
    and "in_step s 1 (settled (Some s) True (enough s 1) g 1 inc)"
proof -
  have first: "enough s 1 \<longleftrightarrow> first_at s = 1" using enough_first [of 1 s] first_positive [of s] by auto
  have none: "rs_trigger_count s = None \<Longrightarrow> enough s 1" by (simp add: enough_def)
  let ?i = "reconcile g (inc\<lparr>in_status := status_after (Some s) (enough s 1) inc\<rparr>)"
  have st: "in_status ?i = (if enough s 1 then ''new'' else ''pending'')"
    using assms none by (auto simp: status_after_def)
  have tr: "triggers (Some s) True (enough s 1) ''new'' 1 ?i \<longleftrightarrow> fires_at s 1"
    using none first st fires_before [of 1 s] first_positive [of s]
    by (auto simp: triggers_def first_trigger_def later_trigger_def RETRIGGER_STATUSES_def fires_at_def split: option.splits)
  show "due (Some s) True (enough s 1) g 1 inc \<longleftrightarrow> fires_at s 1 \<and> has_handler s"
    using assms tr by (simp add: due_def)
  show "in_step s 1 (settled (Some s) True (enough s 1) g 1 inc)"
    using assms st first first_positive [of s] tr recent_start [of s]
    by (auto simp: in_step_def settled_def last_trigger_noted fires_at_def)
qed

lemma next_step:
  assumes "in_step s t inc" "t \<ge> 1"
  shows "due (Some s) False (enough s (t + 1)) g (t + 1) inc \<longleftrightarrow> fires_at s (t + 1) \<and> has_handler s"
    and "in_step s (t + 1) (settled (Some s) False (enough s (t + 1)) g (t + 1) inc)"
proof -
  let ?m = "enough s (t + 1)"
  have m: "?m \<longleftrightarrow> first_at s \<le> t + 1" using enough_first assms(2) by simp
  have none: "rs_trigger_count s = None \<Longrightarrow> first_at s = 1" by (simp add: first_at_def)
  let ?i = "reconcile g (inc\<lparr>in_status := status_after (Some s) ?m inc\<rparr>)"
  have st: "in_status ?i = (if first_at s \<le> t + 1 then ''new'' else ''pending'')"
    using assms none m by (auto simp: status_after_def in_step_def split: if_splits)
  have tr: "triggers (Some s) False ?m (in_status inc) (t + 1) ?i \<longleftrightarrow> fires_at s (t + 1)"
  proof (cases "t < first_at s")
    case True
    then show ?thesis
      using assms(1) st fires_before [of "t + 1" s]
      by (auto simp: triggers_def first_trigger_def later_trigger_def RETRIGGER_STATUSES_def fires_at_def in_step_def split: option.splits)
  next
    case False
    then have "in_status inc = ''new''" using assms(1) by (simp add: in_step_def)
    with False show ?thesis
      using assms(1) st later_trigger_step [of s t ?i] fires_no_retrigger [of s "t + 1"]
      by (cases "rs_retrigger s") (auto simp: triggers_def first_trigger_def later_trigger_def in_step_def)
  qed
  show "due (Some s) False ?m g (t + 1) inc \<longleftrightarrow> fires_at s (t + 1) \<and> has_handler s"
    using tr by (simp add: due_def)
  have rec: "recent s (t + 1) (if fires_at s (t + 1) then t + 1 else last_trigger s inc)" if "first_at s \<le> t + 1" "rs_retrigger s = Some k" for k
  proof (cases "t < first_at s")
    case True
    with that have "t + 1 = first_at s" by simp
    then show ?thesis using recent_start [of s] by (simp add: fires_at_def)
  next
    case False
    then show ?thesis using assms(1) that recent_step [of s t "last_trigger s inc" k] by (auto simp: in_step_def split: if_splits)
  qed
  show "in_step s (t + 1) (settled (Some s) False ?m g (t + 1) inc)"
    using st tr rec assms(2) by (auto simp: in_step_def settled_def last_trigger_noted)
qed

section \<open>Reports\<close>

definition numbered :: "inc_world \<Rightarrow> bool" where
  "numbered w \<longleftrightarrow> distinct (map in_pk (iw_incidents w)) \<and> (\<forall>i \<in> set (iw_incidents w). in_pk i < iw_next w)
     \<and> (\<forall>e \<in> set (iw_events w). ev_pk e < iw_next w \<and> (\<forall>i. ev_incident e = Some i \<longrightarrow> i < iw_next w))"

definition recorded :: "inc_env \<Rightarrow> inc_event \<Rightarrow> int \<Rightarrow> inc_event" where
  "recorded E ev pk = sync_metadata E (ev\<lparr>ev_pk := pk, ev_created := ie_now E, ev_incident := None\<rparr>)"

lemma recorded_columns [simp]: "ev_pk (recorded E ev pk) = pk" "ev_group (recorded E ev pk) = ev_group ev"
  "ev_incident (recorded E ev pk) = None" "ev_level (recorded E ev pk) = ev_level ev"
  by (simp_all add: recorded_def)

definition with_event :: "inc_env \<Rightarrow> inc_event \<Rightarrow> inc_world \<Rightarrow> inc_world" where
  "with_event E ev w = w\<lparr>iw_events := iw_events w @ [recorded E ev (iw_next w)], iw_next := iw_next w + 1\<rparr>"

lemma report_run: "inc_report_event E ev w = publish_event E default_options (recorded E ev (iw_next w)) (with_event E ev w)"
  by (simp add: inc_report_event_def record_event_def bind_def seqs_def iget_def imodify_def ret_def Let_def recorded_def with_event_def)

definition unnoticed :: "rule_set option \<Rightarrow> bool" where
  "unnoticed s \<longleftrightarrow> (case s of None \<Rightarrow> False | Some r \<Rightarrow> ignores r)"

lemma publish_run:
  assumes "select_rule_set (ie_rules E) (iw_sets w) True False ev = Inr s" "\<not> unnoticed s"
    "s \<noteq> None \<or> ev_level ev \<ge> ie_level_threshold E"
  shows "publish_event E default_options ev w = bundle_and_dispatch E default_options s ev w"
  using assms by (auto simp: publish_event_def publish_with_def default_options_def unnoticed_def)

lemma put_event_last: "ev_pk e = ev_pk ev \<Longrightarrow> ev_pk e \<notin> ev_pk ` set evs \<Longrightarrow> put_event ev (evs @ [e]) = evs @ [ev]"
  by (auto simp: put_event_def intro!: map_idI) (metis image_eqI)

lemma fresh_event: "numbered w \<Longrightarrow> iw_next w \<notin> ev_pk ` set (iw_events w)"
  by (auto simp: numbered_def)

lemma tally_snoc [simp]: "tally pk (evs @ [e]) = tally pk evs + (if ev_incident e = Some pk then 1 else 0)"
  by (simp add: tally_def)

lemma tally_fresh: "numbered w \<Longrightarrow> iw_next w \<le> pk \<Longrightarrow> tally pk (iw_events w) = 0"
  by (auto simp: numbered_def tally_def filter_empty_conv)

lemma meets_unlinked:
  "ev_incident e \<noteq> Some pk \<Longrightarrow> iw_events v = iw_events w @ [e] \<Longrightarrow> meets_threshold E s pk v = meets_threshold E s pk w"
  by (auto simp: meets_threshold_def event_tally_def linked_def cong: option.case_cong)

lemma bundled_same: "iw_incidents v = iw_incidents w \<Longrightarrow> bundled_incident E s ev v = bundled_incident E s ev w"
  by (cases s) (simp_all add: bundled_incident_def)

text \<open>A report that is bundled into the incident, and one that opens an incident\<close>

lemma report_into:
  assumes "numbered w" "select_rule_set (ie_rules E) (iw_sets w) True False (recorded E ev (iw_next w)) = Inr s" "\<not> unnoticed s"
    "s \<noteq> None \<or> ev_level ev \<ge> ie_level_threshold E"
    "bundled_incident E s (recorded E ev (iw_next w)) w = Some inc"
  defines "e \<equiv> recorded E ev (iw_next w)"
  defines "meets \<equiv> meets_threshold E s (in_pk inc) w" and "n \<equiv> tally (in_pk inc) (iw_events w) + 1"
  shows "\<exists>w'. inc_report_event E ev w
         = (Inr \<lparr>pr_rule_set = s, pr_incident = Some (in_pk inc), pr_dispatch = due s False meets (ev_group ev) n (escalated e inc)\<rparr>, w')
       \<and> iw_incidents w' = put_inc (settled s False meets (ev_group ev) n (escalated e inc)) (iw_incidents w)
       \<and> iw_events w' = iw_events w @ [e\<lparr>ev_incident := Some (in_pk inc)\<rparr>] \<and> iw_sets w' = iw_sets w \<and> iw_next w' = iw_next w + 1"
proof -
  let ?v = "with_event E ev w"
  have v: "iw_incidents ?v = iw_incidents w" "iw_sets ?v = iw_sets w" "iw_events ?v = iw_events w @ [e]" "iw_next ?v = iw_next w + 1"
    by (simp_all add: with_event_def e_def)
  have pub: "inc_report_event E ev w = bundle_and_dispatch E default_options s e ?v"
    unfolding report_run e_def by (rule publish_run) (use assms(2-4) v in auto)
  have b: "bundled_incident E s e ?v = Some inc" unfolding bundled_same [OF v(1)] using assms(5) by (simp add: e_def)
  have d: "distinct (map in_pk (iw_incidents ?v))" using assms(1) v(1) by (simp add: numbered_def)
  have m: "meets_threshold E s (in_pk inc) ?v = meets" unfolding meets_def by (rule meets_unlinked [OF _ v(3)]) (simp add: e_def)
  have j: "join (in_pk inc) e (iw_events w @ [e]) = iw_events w @ [e\<lparr>ev_incident := Some (in_pk inc)\<rparr>]"
    unfolding join_def by (rule put_event_last) (use fresh_event [OF assms(1)] in \<open>simp_all add: e_def\<close>)
  have g: "ev_group e = ev_group ev" by (simp add: e_def)
  show ?thesis
    using bundle_into [OF b d, of default_options] unfolding pub m j g v by (simp add: n_def)
qed

lemma report_new:
  assumes "numbered w" "select_rule_set (ie_rules E) (iw_sets w) True False (recorded E ev (iw_next w)) = Inr s" "\<not> unnoticed s"
    "s \<noteq> None \<or> ev_level ev \<ge> ie_level_threshold E"
    "bundled_incident E s (recorded E ev (iw_next w)) w = None"
  defines "e \<equiv> recorded E ev (iw_next w)" and "pk \<equiv> iw_next w + 1"
  defines "meets \<equiv> meets_threshold E s pk w" and "inc \<equiv> opened E s e (with_event E ev w)"
  shows "\<exists>w'. inc_report_event E ev w
         = (Inr \<lparr>pr_rule_set = s, pr_incident = Some pk, pr_dispatch = due s True meets (ev_group ev) 1 inc\<rparr>, w')
       \<and> iw_incidents w' = iw_incidents w @ [settled s True meets (ev_group ev) 1 inc]
       \<and> iw_events w' = iw_events w @ [(sync_metadata E e)\<lparr>ev_incident := Some pk\<rparr>] \<and> iw_sets w' = iw_sets w \<and> iw_next w' = iw_next w + 2"
proof -
  let ?v = "with_event E ev w"
  have v: "iw_incidents ?v = iw_incidents w" "iw_sets ?v = iw_sets w" "iw_events ?v = iw_events w @ [e]" "iw_next ?v = pk"
    by (simp_all add: with_event_def e_def pk_def)
  have pub: "inc_report_event E ev w = bundle_and_dispatch E default_options s e ?v"
    unfolding report_run e_def by (rule publish_run) (use assms(2-4) v in auto)
  have b: "bundled_incident E s e ?v = None" unfolding bundled_same [OF v(1)] using assms(5) by (simp add: e_def)
  have f: "iw_next ?v \<notin> set (map in_pk (iw_incidents ?v))" using assms(1) v by (auto simp: numbered_def pk_def)
  have fresh: "ev_pk e \<notin> ev_pk ` set (iw_events w)" using fresh_event [OF assms(1)] by (simp add: e_def)
  have p: "put_event (sync_metadata E e) (iw_events w @ [e]) = iw_events w @ [sync_metadata E e]"
    by (rule put_event_last) (use fresh in simp_all)
  have j: "join pk (sync_metadata E e) (iw_events w @ [sync_metadata E e]) = iw_events w @ [(sync_metadata E e)\<lparr>ev_incident := Some pk\<rparr>]"
    unfolding join_def by (rule put_event_last) (use fresh in simp_all)
  have m: "meets_threshold E s pk (?v\<lparr>iw_events := iw_events w @ [sync_metadata E e]\<rparr>) = meets"
    unfolding meets_def by (rule meets_unlinked [of "sync_metadata E e"]) (simp_all add: e_def)
  have t: "tally pk (iw_events w @ [(sync_metadata E e)\<lparr>ev_incident := Some pk\<rparr>]) = 1"
    using tally_fresh [OF assms(1), of pk] by (simp add: pk_def)
  have g: "ev_group e = ev_group ev" by (simp add: e_def)
  show ?thesis
    using bundle_new [OF b f, of default_options] unfolding pub p v m j t g inc_def by (simp add: pk_def algebra_simps)
qed

lemma numbered_into:
  assumes "numbered w" "in_pk i = in_pk inc" "inc \<in> set (iw_incidents w)" "ev_pk e = iw_next w" "ev_incident e = Some (in_pk inc)"
    "iw_incidents w' = put_inc i (iw_incidents w)" "iw_events w' = iw_events w @ [e]" "iw_next w' = iw_next w + 1"
  shows "numbered w'"
proof -
  have a: "map in_pk (iw_incidents w') = map in_pk (iw_incidents w)" by (simp add: assms)
  have "in_pk ` set (iw_incidents w') = in_pk ` set (iw_incidents w)" using arg_cong [OF a, of set] by simp
  then have "\<forall>i \<in> set (iw_incidents w'). in_pk i < iw_next w"
    using assms(1) by (force simp: numbered_def dest: equalityD1)
  with a show ?thesis using assms by (force simp: numbered_def)
qed

lemma numbered_new:
  assumes "numbered w" "in_pk i = iw_next w + 1" "ev_pk e = iw_next w" "ev_incident e = Some (iw_next w + 1)"
    "iw_incidents w' = iw_incidents w @ [i]" "iw_events w' = iw_events w @ [e]" "iw_next w' = iw_next w + 2"
  shows "numbered w'"
  using assms by (force simp: numbered_def)

lemma settled_pk [simp]: "in_pk (settled s c m g n inc) = in_pk inc"
  by (simp add: settled_def)

section \<open>A burst of events\<close>

text \<open>Reports one after the other, each at a time of its own\<close>

primrec burst :: "(inc_env \<times> inc_event) list \<Rightarrow> inc_world \<Rightarrow> publish_result res list \<times> inc_world" where
  "burst [] w = ([], w)"
| "burst (r # rs) w =
     (let (answer, w') = inc_report_event (fst r) (snd r) w; (answers, w'') = burst rs w' in (answer # answers, w''))"

text \<open>The criteria of a rule set whose incidents stay open for bundling for ever\<close>

definition lasting :: "rule_set \<Rightarrow> bool" where
  "lasting s \<longleftrightarrow> rs_bundle_by s > 0 \<and> rs_bundle_minutes s = None \<and> rs_trigger_window s = None \<and> \<not> ignores s"

definition timeless :: "rule_set \<Rightarrow> inc_event \<Rightarrow> criterion list" where
  "timeless s ev = ByCategory (ev_category ev) # (if rs_by_rule_set s then [ByRuleSet (rs_pk s)] else []) @ bundle_fields (rs_bundle_by s) ev"

lemma timeless: "lasting s \<Longrightarrow> bundle_criteria E s ev = timeless s ev"
  by (simp add: lasting_def bundle_criteria_def bundle_window_def timeless_def)

definition alike :: "rule_set \<Rightarrow> criterion list \<Rightarrow> (inc_env \<times> inc_event) list \<Rightarrow> rule_set list \<Rightarrow> bool" where
  "alike s crit rs sets \<longleftrightarrow> (\<forall>(E, ev) \<in> set rs. timeless s ev = crit \<and>
     (\<forall>pk. select_rule_set (ie_rules E) sets True False (recorded E ev pk) = Inr (Some s)))"

lemma sync_bundled [simp]: "ev_category (sync_metadata E ev) = ev_category ev" "ev_hostname (sync_metadata E ev) = ev_hostname ev"
  "ev_model_name (sync_metadata E ev) = ev_model_name ev" "ev_model_id (sync_metadata E ev) = ev_model_id ev"
  "ev_source_ip (sync_metadata E ev) = ev_source_ip ev"
  by (auto simp: sync_metadata_def split: option.splits)

lemma timeless_sync [simp]: "timeless s (sync_metadata E ev) = timeless s ev"
  by (simp add: timeless_def bundle_fields_def)

lemma timeless_recorded [simp]: "timeless s (recorded E ev pk) = timeless s ev"
  unfolding recorded_def timeless_sync by (simp add: timeless_def bundle_fields_def)

lemma meets_lasting:
  assumes "lasting s" shows "meets_threshold E (Some s) pk w \<longleftrightarrow> enough s (tally pk (iw_events w) + 1)"
  using assms by (auto simp: meets_threshold_def enough_def event_tally_def trigger_window_of_def lasting_def tally_def linked_def split: option.splits)

lemma satisfies_columns:
  assumes "in_category i = in_category j" "in_rule_set i = in_rule_set j" "in_created i = in_created j" "in_hostname i = in_hostname j"
    "in_model_name i = in_model_name j" "in_model_id i = in_model_id j" "in_source_ip i = in_source_ip j"
    "in_group i = in_group j \<or> (\<forall>g. c \<noteq> ByGroup g)"
  shows "satisfies i c = satisfies j c"
  using assms by (cases c) auto

lemma settled_columns:
  "in_category (settled s c m g n i) = in_category i" "in_rule_set (settled s c m g n i) = in_rule_set i"
  "in_created (settled s c m g n i) = in_created i" "in_hostname (settled s c m g n i) = in_hostname i"
  "in_model_name (settled s c m g n i) = in_model_name i" "in_model_id (settled s c m g n i) = in_model_id i"
  "in_source_ip (settled s c m g n i) = in_source_ip i" "in_group i = g \<Longrightarrow> in_group (settled s c m g n i) = g"
  by (auto simp: settled_def noted_def reconcile_def Let_def split: sum.splits)

lemma escalated_columns:
  "in_category (escalated e i) = in_category i" "in_rule_set (escalated e i) = in_rule_set i"
  "in_created (escalated e i) = in_created i" "in_hostname (escalated e i) = in_hostname i"
  "in_model_name (escalated e i) = in_model_name i" "in_model_id (escalated e i) = in_model_id i"
  "in_source_ip (escalated e i) = in_source_ip i" "in_group (escalated e i) = in_group i"
  by (auto simp: escalated_def)

lemma bundle_field:
  "k \<in> set (bundle_fields b ev) \<Longrightarrow> k \<in> {ByHostname (ev_hostname ev), ByModelName (ev_model_name ev), ByModelId (ev_model_id ev),
     BySourceIp (ev_source_ip ev), ByGroup (ev_group ev)}"
  unfolding bundle_fields_def set_append Un_iff by (elim disjE) (simp_all split: if_split_asm)

lemma timeless_field:
  "k \<in> set (timeless s ev) \<Longrightarrow> k \<in> {ByCategory (ev_category ev), ByRuleSet (rs_pk s), ByHostname (ev_hostname ev), ByModelName (ev_model_name ev),
     ByModelId (ev_model_id ev), BySourceIp (ev_source_ip ev), ByGroup (ev_group ev)}"
  using bundle_field [of k "rs_bundle_by s" ev] by (auto simp: timeless_def split: if_split_asm)

lemma group_criterion: "ByGroup g \<in> set (timeless s ev) \<Longrightarrow> g = ev_group ev"
  using timeless_field by fastforce

lemma settled_satisfies:
  assumes "list_all (satisfies i) (timeless s ev)"
  shows "list_all (satisfies (settled r c m (ev_group ev) n (escalated e i))) (timeless s ev)"
  unfolding list_all_iff
proof
  fix k assume k: "k \<in> set (timeless s ev)"
  then have sat: "satisfies i k" using assms by (simp add: list_all_iff)
  have "satisfies (settled r c m (ev_group ev) n (escalated e i)) k = satisfies i k"
  proof (rule satisfies_columns)
    show "in_group (settled r c m (ev_group ev) n (escalated e i)) = in_group i \<or> (\<forall>g. k \<noteq> ByGroup g)"
    proof (cases "\<exists>g. k = ByGroup g")
      case True
      then have "k = ByGroup (ev_group ev)" using k group_criterion by blast
      with sat have "in_group (escalated e i) = ev_group ev" by (simp add: escalated_columns)
      from settled_columns(8) [OF this] this show ?thesis by (simp add: escalated_columns)
    qed simp
  qed (simp_all only: settled_columns(1-7) escalated_columns)
  with sat show "satisfies (settled r c m (ev_group ev) n (escalated e i)) k" by simp
qed

lemma opened_satisfies: "list_all (satisfies (opened E (Some s) ev w)) (timeless s ev)"
  unfolding list_all_iff
proof
  fix k assume "k \<in> set (timeless s ev)"
  from timeless_field [OF this] show "satisfies (opened E (Some s) ev w) k"
    by (elim insertE emptyE) (simp_all add: opened_def new_incident_def)
qed

lemma opened_settled_satisfies:
  "list_all (satisfies (settled r c m (ev_group ev) n (opened E (Some s) ev w))) (timeless s ev)"
proof -
  let ?i = "opened E (Some s) ev w"
  have "escalated (ev\<lparr>ev_level := in_priority ?i\<rparr>) ?i = ?i" by (simp add: escalated_def)
  then show ?thesis
    using settled_satisfies [OF opened_satisfies [of E s ev w], of r c m n "ev\<lparr>ev_level := in_priority ?i\<rparr>"] by simp
qed

lemma escalated_step [simp]: "in_step s t (escalated e i) = in_step s t i"
  by (simp add: in_step_def escalated_def last_trigger_def)

definition ongoing :: "rule_set \<Rightarrow> criterion list \<Rightarrow> incident list \<Rightarrow> int \<Rightarrow> int \<Rightarrow> inc_world \<Rightarrow> bool" where
  "ongoing s crit xs pk t w \<longleftrightarrow> numbered w \<and> (\<exists>inc. iw_incidents w = xs @ [inc] \<and> in_pk inc = pk \<and> list_all (satisfies inc) crit
     \<and> tally pk (iw_events w) = t \<and> in_step s t inc)"

lemma find_last: "\<forall>x \<in> set xs. \<not> P x \<Longrightarrow> P y \<Longrightarrow> find P (xs @ [y]) = Some y"
  by (induction xs) auto

definition answer_at :: "rule_set \<Rightarrow> int \<Rightarrow> int \<Rightarrow> publish_result res" where
  "answer_at s pk t = Inr \<lparr>pr_rule_set = Some s, pr_incident = Some pk, pr_dispatch = fires_at s t \<and> has_handler s\<rparr>"

lemma map_from: "map (\<lambda>i. f (a + int i)) [0..<Suc n] = f a # map (\<lambda>i. f (a + 1 + int i)) [0..<n]"
  by (simp add: upt_conv_Cons map_Suc_upt [symmetric] o_def ac_simps del: upt_Suc)

lemma ongoing_report:
  assumes on: "ongoing s crit xs pk t w" and t: "t \<ge> 1" and last: "lasting s" and al: "alike s crit [(E, ev)] (iw_sets w)"
    and xs: "\<forall>x \<in> set xs. \<not> list_all (satisfies x) crit"
  shows "\<exists>w'. inc_report_event E ev w = (answer_at s pk (t + 1), w') \<and> ongoing s crit xs pk (t + 1) w' \<and> iw_sets w' = iw_sets w"
proof -
  from on obtain inc where num: "numbered w" and inc: "iw_incidents w = xs @ [inc]" "in_pk inc = pk" "list_all (satisfies inc) crit"
    "tally pk (iw_events w) = t" "in_step s t inc" by (auto simp: ongoing_def)
  let ?e = "recorded E ev (iw_next w)"
  from al have crit: "timeless s ev = crit" and sel: "select_rule_set (ie_rules E) (iw_sets w) True False ?e = Inr (Some s)"
    by (auto simp: alike_def)
  have found: "bundled_incident E (Some s) ?e w = Some inc"
    using last find_last [OF xs inc(3)] by (simp add: bundled_incident_def timeless crit inc lasting_def [of s])
  have un: "\<not> unnoticed (Some s)" using last by (simp add: unnoticed_def lasting_def)
  have meets: "meets_threshold E (Some s) pk w = enough s (t + 1)" using meets_lasting [OF last] inc(4) by simp
  let ?i = "settled (Some s) False (enough s (t + 1)) (ev_group ev) (t + 1) (escalated ?e inc)"
  from report_into [OF num sel un _ found] obtain w' where
    r: "inc_report_event E ev w = (Inr \<lparr>pr_rule_set = Some s, pr_incident = Some pk, pr_dispatch = due (Some s) False (enough s (t + 1)) (ev_group ev) (t + 1) (escalated ?e inc)\<rparr>, w')"
    and w': "iw_incidents w' = put_inc ?i (iw_incidents w)" "iw_events w' = iw_events w @ [?e\<lparr>ev_incident := Some pk\<rparr>]"
      "iw_sets w' = iw_sets w" "iw_next w' = iw_next w + 1"
    using meets inc by auto
  have step: "in_step s t (escalated ?e inc)" using inc(5) by simp
  have "numbered w'"
    by (rule numbered_into [OF num, where i = ?i and inc = inc and e = "?e\<lparr>ev_incident := Some pk\<rparr>"]) (simp_all add: inc w')
  moreover have "iw_incidents w' = xs @ [?i]"
    using num inc by (simp add: w' put_inc_fresh numbered_def)
  moreover have "list_all (satisfies ?i) crit"
    using settled_satisfies [of inc s ev] inc(3) unfolding crit by blast
  ultimately have "ongoing s crit xs pk (t + 1) w'"
    using next_step(2) [OF step t] by (simp add: ongoing_def inc w')
  with r w' next_step(1) [OF step t] show ?thesis by (auto simp: answer_at_def)
qed

lemma ongoing_burst:
  assumes "ongoing s crit xs pk t w" "t \<ge> 1" "lasting s" "alike s crit rs (iw_sets w)" "\<forall>x \<in> set xs. \<not> list_all (satisfies x) crit"
  shows "fst (burst rs w) = map (\<lambda>i. answer_at s pk (t + 1 + int i)) [0..<length rs]"
  using assms
proof (induction rs arbitrary: t w)
  case (Cons r rs)
  have "alike s crit [r] (iw_sets w)" using Cons.prems(4) by (auto simp: alike_def)
  with ongoing_report [OF Cons.prems(1-3) _ Cons.prems(5), of "fst r" "snd r"] obtain w' where
    w': "inc_report_event (fst r) (snd r) w = (answer_at s pk (t + 1), w')" "ongoing s crit xs pk (t + 1) w'" "iw_sets w' = iw_sets w"
    by auto
  have "alike s crit rs (iw_sets w')" using Cons.prems(4) w'(3) by (auto simp: alike_def)
  from Cons.IH [OF w'(2) _ Cons.prems(3) this Cons.prems(5)] Cons.prems(2) show ?case
    using map_from [of "answer_at s pk" "t + 1" "length rs"] by (simp add: w'(1) split_beta del: upt_Suc)
qed simp

lemma first_report:
  assumes num: "numbered w" and last: "lasting s" and al: "alike s crit [(E, ev)] (iw_sets w)"
    and xs: "\<forall>x \<in> set (iw_incidents w). \<not> list_all (satisfies x) crit"
  shows "\<exists>w'. inc_report_event E ev w = (answer_at s (iw_next w + 1) 1, w') \<and> ongoing s crit (iw_incidents w) (iw_next w + 1) 1 w' \<and> iw_sets w' = iw_sets w"
proof -
  let ?e = "recorded E ev (iw_next w)" and ?pk = "iw_next w + 1"
  from al have crit: "timeless s ev = crit" and sel: "select_rule_set (ie_rules E) (iw_sets w) True False ?e = Inr (Some s)"
    by (auto simp: alike_def)
  have found: "bundled_incident E (Some s) ?e w = None"
    using last xs by (auto simp: bundled_incident_def timeless crit find_None_iff)
  have un: "\<not> unnoticed (Some s)" using last by (simp add: unnoticed_def lasting_def)
  have meets: "meets_threshold E (Some s) ?pk w = enough s 1" using meets_lasting [OF last, of E ?pk w] tally_fresh [OF num, of ?pk] by simp
  let ?o = "opened E (Some s) ?e (with_event E ev w)"
  let ?i = "settled (Some s) True (enough s 1) (ev_group ev) 1 ?o"
  have new: "in_status ?o = ''new''" "in_pk ?o = ?pk" by (simp_all add: opened_def new_incident_def with_event_def)
  from report_new [OF num sel un _ found] obtain w' where
    r: "inc_report_event E ev w = (Inr \<lparr>pr_rule_set = Some s, pr_incident = Some ?pk, pr_dispatch = due (Some s) True (enough s 1) (ev_group ev) 1 ?o\<rparr>, w')"
    and w': "iw_incidents w' = iw_incidents w @ [?i]" "iw_events w' = iw_events w @ [(sync_metadata E ?e)\<lparr>ev_incident := Some ?pk\<rparr>]"
      "iw_sets w' = iw_sets w" "iw_next w' = iw_next w + 2"
    unfolding meets by auto
  have "numbered w'"
    by (rule numbered_new [OF num, where i = ?i and e = "(sync_metadata E ?e)\<lparr>ev_incident := Some ?pk\<rparr>"]) (simp_all add: w' with_event_def)
  moreover have "list_all (satisfies ?i) crit"
    using opened_settled_satisfies [of "Some s" True "enough s 1" ?e 1 E s "with_event E ev w"] by (simp add: crit)
  moreover have "tally ?pk (iw_events w') = 1" using tally_fresh [OF num, of ?pk] by (simp add: w')
  ultimately have "ongoing s crit (iw_incidents w) ?pk 1 w'"
    using start_step(2) [OF new(1)] new(2) w'(1) by (simp add: ongoing_def)
  with r w' start_step(1) [OF new(1)] show ?thesis by (auto simp: answer_at_def)
qed

text \<open>C34: A burst of reports, published one after the other, that one rule set without a bundle window and without
  a trigger window takes (a rule set that bundles and does not ignore) and that its criteria put into one
  incident opens one incident, and the handlers of the rule set are due at the event that reaches the
  threshold and then at every \<open>retrigger_every\<close>-th event. No earlier incident meets the criteria. (With a
  trigger window they fire again after a quiet time: \<open>quiet_window_restarts\<close>; two first reports at the same
  time can open two incidents.)\<close>

theorem handlers_fire_at_threshold:
  assumes "numbered w" "lasting s" "alike s crit rs (iw_sets w)" "\<forall>x \<in> set (iw_incidents w). \<not> list_all (satisfies x) crit"
  shows "fst (burst rs w) = map (\<lambda>i. answer_at s (iw_next w + 1) (int i + 1)) [0..<length rs]"
proof (cases rs)
  case (Cons r rest)
  have "alike s crit [r] (iw_sets w)" using assms(3) Cons by (auto simp: alike_def)
  with first_report [OF assms(1,2) _ assms(4), of "fst r" "snd r"] obtain w' where
    w': "inc_report_event (fst r) (snd r) w = (answer_at s (iw_next w + 1) 1, w')"
      "ongoing s crit (iw_incidents w) (iw_next w + 1) 1 w'" "iw_sets w' = iw_sets w"
    by auto
  have "alike s crit rest (iw_sets w')" using assms(3) Cons w'(3) by (auto simp: alike_def)
  from ongoing_burst [OF w'(2) _ assms(2) this assms(4)]
  show ?thesis
    using map_from [of "answer_at s (iw_next w + 1)" 1 "length rest"] by (simp add: Cons w'(1) split_beta add.commute del: upt_Suc)
qed simp

section \<open>What an incident says of its events\<close>

definition summary :: "incident \<Rightarrow> inc_event list \<Rightarrow> bool" where
  "summary inc evs \<longleftrightarrow> evs \<noteq> [] \<and> map_of (in_metadata inc) ''event_count'' = Some (JInt (int (length evs)))
     \<and> in_priority inc = Max (ev_level ` set evs)
     \<and> (\<forall>g. in_group inc = Some g \<longrightarrow> (\<forall>e \<in> set evs. ev_group e = None \<or> ev_group e = Some g))
     \<and> (in_group inc = None \<and> \<not> mismatched (in_metadata inc) \<longrightarrow> (\<forall>e \<in> set evs. ev_group e = None))"

definition summarised :: "inc_world \<Rightarrow> bool" where
  "summarised w \<longleftrightarrow> numbered w \<and> (\<forall>inc \<in> set (iw_incidents w). summary inc (linked (in_pk inc) w))"

text \<open>The metadata of the event and of its location leave the count of the incident alone.\<close>

definition plain :: "inc_env \<Rightarrow> inc_event \<Rightarrow> bool" where
  "plain E ev \<longleftrightarrow> map_of (ev_metadata ev) ''event_count'' = None
     \<and> (\<forall>ip c extra. ie_geo E ip = Some (c, extra) \<longrightarrow> ''event_count'' \<notin> fst ` set extra)"

lemma put_all_other: "k \<notin> fst ` set xs \<Longrightarrow> map_of (put_all xs m) k = map_of m k"
  unfolding put_all_def by (induction xs arbitrary: m) (auto simp: update_conv')

lemma put_all_new: "k \<notin> fst ` set xs \<Longrightarrow> map_of (put_all xs []) k = None"
  by (simp add: put_all_other)

lemma core_other: "''event_count'' \<notin> fst ` set (core_fields ev)" "''event_count'' \<notin> fst ` set (group_fields E ev)"
  by (auto simp: core_fields_def group_fields_def split: option.splits)

lemma geo_plain: "plain E ev \<Longrightarrow> event_geo E e = Some (c, extra) \<Longrightarrow> ''event_count'' \<notin> fst ` set extra"
  by (auto simp: event_geo_def plain_def split: if_splits option.splits)

lemma sync_plain:
  assumes "plain E ev" shows "plain E (sync_metadata E ev)"
proof -
  have "map_of (ev_metadata (sync_metadata E ev)) ''event_count'' = None"
  proof (cases "event_geo E ev")
    case None
    have "''event_count'' \<notin> fst ` set (core_fields ev @ group_fields E ev)" using core_other by (simp add: image_Un)
    from put_all_other [OF this, of "ev_metadata ev"] None assms show ?thesis by (simp add: sync_metadata_def plain_def)
  next
    case (Some x)
    then obtain c extra where x: "event_geo E ev = Some (c, extra)" by (cases x) simp
    have "''event_count'' \<notin> fst ` set (core_fields ev @ group_fields E ev @ (''country_code'', jopt JStr c) # extra)"
      using core_other geo_plain [OF assms x] by (simp add: image_Un)
    from put_all_other [OF this, of "ev_metadata ev"] x assms show ?thesis by (simp add: sync_metadata_def plain_def)
  qed
  with assms show ?thesis by (simp add: plain_def)
qed

lemma recorded_plain: "plain E ev \<Longrightarrow> plain E (recorded E ev pk)"
  unfolding recorded_def by (rule sync_plain) (simp add: plain_def)

lemma opened_plain: "plain E ev \<Longrightarrow> map_of (in_metadata (opened E s ev w)) ''event_count'' = None"
  using sync_plain [of E ev] by (simp add: opened_def new_incident_def put_all_new plain_def map_of_eq_None_iff)

lemma settled_priority [simp]: "in_priority (settled s c m g n i) = in_priority i"
  by (auto simp: settled_def noted_def reconcile_def Let_def split: sum.splits)

lemma settled_metadata:
  "map_of (in_metadata (settled s c m g n i)) ''event_count'' = map_of (in_metadata (reconcile g i)) ''event_count''"
  "mismatched (in_metadata (settled s c m g n i)) = mismatched (in_metadata (reconcile g i))"
  "in_group (settled s c m g n i) = in_group (reconcile g i)"
  by (auto simp: settled_def noted_def reconcile_def update_conv' mismatched_def Let_def split: sum.splits)

lemma reconcile_count:
  assumes "meta_count (in_metadata i) = Inr n"
  shows "map_of (in_metadata (reconcile g i)) ''event_count'' = Some (JInt (n + 1))"
  using assms by (simp add: reconcile_def Let_def update_conv')

lemma reconcile_group:
  assumes "meta_count (in_metadata i) = Inr n"
  shows "in_group (reconcile g i) = (if g = None \<or> g = in_group i then in_group i
      else if in_group i = None \<and> \<not> mismatched (in_metadata i) then g else None)"
    and "mismatched (in_metadata (reconcile g i)) \<longleftrightarrow> mismatched (in_metadata i) \<or> g \<noteq> None \<and> in_group i \<noteq> None \<and> g \<noteq> in_group i"
  using assms by (auto simp: reconcile_def Let_def update_conv' mismatched_def split: option.splits)

lemma escalated_summary: "in_metadata (escalated e i) = in_metadata i" "in_group (escalated e i) = in_group i"
  "in_priority (escalated e i) = max (in_priority i) (ev_level e)"
  by (auto simp: escalated_def)

lemma group_kept:
  assumes "\<forall>g. old = Some g \<longrightarrow> (\<forall>x \<in> S. f x = None \<or> f x = Some g)" "old = None \<and> \<not> mm \<longrightarrow> (\<forall>x \<in> S. f x = None)"
    "(if g = None \<or> g = old then old else if old = None \<and> \<not> mm then g else None) = Some h"
  shows "(g = None \<or> g = Some h) \<and> (\<forall>x \<in> S. f x = None \<or> f x = Some h)"
  using assms by (cases old; cases g; cases mm) (auto split: if_split_asm)

lemma group_unset:
  assumes "old = None \<and> \<not> mm \<longrightarrow> (\<forall>x \<in> S. f x = None)"
    "(if g = None \<or> g = old then old else if old = None \<and> \<not> mm then g else None) = None"
    "\<not> (mm \<or> g \<noteq> None \<and> old \<noteq> None \<and> g \<noteq> old)"
  shows "g = None \<and> (\<forall>x \<in> S. f x = None)"
  using assms by (cases old; cases g) (auto split: if_split_asm)

lemma summary_into:
  assumes "summary i evs" "ev_level e' = ev_level e" "ev_group e' = ev_group e"
  shows "summary (settled s c m (ev_group e) n (escalated e i)) (evs @ [e'])"
proof -
  let ?i = "escalated e i"
  have count: "meta_count (in_metadata ?i) = Inr (int (length evs))"
    using assms(1) by (simp add: summary_def meta_count_def escalated_summary)
  have old: "\<forall>g. in_group i = Some g \<longrightarrow> (\<forall>x \<in> set evs. ev_group x = None \<or> ev_group x = Some g)"
    "in_group i = None \<and> \<not> mismatched (in_metadata i) \<longrightarrow> (\<forall>x \<in> set evs. ev_group x = None)"
    using assms(1) unfolding summary_def by blast+
  have "in_priority ?i = Max (ev_level ` set (evs @ [e']))"
    using assms by (simp add: summary_def escalated_summary max.commute)
  moreover have "map_of (in_metadata (reconcile (ev_group e) ?i)) ''event_count'' = Some (JInt (int (length (evs @ [e']))))"
    using reconcile_count [OF count] by simp
  moreover have "\<forall>x \<in> set (evs @ [e']). ev_group x = None \<or> ev_group x = Some g" if "in_group (reconcile (ev_group e) ?i) = Some g" for g
    using group_kept [OF old that [unfolded reconcile_group(1) [OF count] escalated_summary]] assms(3) by simp
  moreover have "\<forall>x \<in> set (evs @ [e']). ev_group x = None"
    if "in_group (reconcile (ev_group e) ?i) = None" "\<not> mismatched (in_metadata (reconcile (ev_group e) ?i))"
    using group_unset [OF old(2) that [unfolded reconcile_group [OF count] escalated_summary]] assms(3) by simp
  moreover have "evs @ [e'] \<noteq> []" by simp
  ultimately show ?thesis unfolding summary_def settled_metadata settled_priority by blast
qed

lemma summary_new:
  assumes "plain E e" "ev_level e' = ev_level e" "ev_group e' = ev_group e"
  shows "summary (settled s c m (ev_group e) n (opened E r e w)) [e']"
proof -
  let ?i = "opened E r e w"
  have count: "meta_count (in_metadata ?i) = Inr 0" using opened_plain [OF assms(1)] by (simp add: meta_count_def)
  have "in_group ?i = ev_group e" "in_priority ?i = ev_level e" by (simp_all add: opened_def new_incident_def)
  then show ?thesis
    using reconcile_count [OF count, of "ev_group e"] reconcile_group [OF count, of "ev_group e"] assms(2,3)
    by (auto simp: summary_def settled_metadata split: if_splits)
qed

lemma linked_snoc: "iw_events w' = iw_events w @ [e] \<Longrightarrow> linked pk w' = linked pk w @ (if ev_incident e = Some pk then [e] else [])"
  by (simp add: linked_def)

lemma linked_fresh: "numbered w \<Longrightarrow> iw_next w \<le> pk \<Longrightarrow> linked pk w = []"
  by (auto simp: numbered_def linked_def filter_empty_conv)

lemma numbered_event: "numbered w \<Longrightarrow> numbered (with_event E ev w)"
  by (force simp: numbered_def with_event_def)

lemma summarised_event: "summarised w \<Longrightarrow> summarised (with_event E ev w)"
  using numbered_event [of w E ev] linked_snoc [of "with_event E ev w" w "recorded E ev (iw_next w)"]
  by (simp add: summarised_def with_event_def)

text \<open>A report leaves the world with the event alone, is bundled, or opens an incident.\<close>

lemma report_cases:
  assumes "numbered w"
  shows "snd (inc_report_event E ev w) = with_event E ev w
    \<or> (\<exists>s. \<not> unnoticed s \<and> select_rule_set (ie_rules E) (iw_sets w) True False (recorded E ev (iw_next w)) = Inr s
        \<and> (s \<noteq> None \<or> ev_level ev \<ge> ie_level_threshold E))"
proof (cases "select_rule_set (ie_rules E) (iw_sets w) True False (recorded E ev (iw_next w))")
  case (Inl e)
  then show ?thesis by (simp add: report_run publish_event_def default_options_def with_event_def)
next
  case (Inr s)
  show ?thesis
  proof (cases "\<not> unnoticed s \<and> (s \<noteq> None \<or> ev_level ev \<ge> ie_level_threshold E)")
    case False
    with Inr have "snd (inc_report_event E ev w) = with_event E ev w"
      by (cases s) (auto simp: report_run publish_event_def publish_with_def default_options_def with_event_def unnoticed_def ret_def)
    then show ?thesis ..
  qed (use Inr in blast)
qed

lemma report_summarised:
  assumes sum: "summarised w" and plain: "plain E ev"
  shows "summarised (snd (inc_report_event E ev w))"
proof -
  have num: "numbered w" using sum by (simp add: summarised_def)
  let ?e = "recorded E ev (iw_next w)"
  consider (alone) "snd (inc_report_event E ev w) = with_event E ev w"
    | (row) s where "\<not> unnoticed s" "select_rule_set (ie_rules E) (iw_sets w) True False ?e = Inr s" "s \<noteq> None \<or> ev_level ev \<ge> ie_level_threshold E"
    using report_cases [OF num, of E ev] by blast
  then show ?thesis
  proof cases
    case alone
    then show ?thesis using summarised_event [OF sum] by simp
  next
    case (row s)
    show ?thesis
    proof (cases "bundled_incident E s ?e w")
      case (Some inc)
      from report_into [OF num row(2,1,3) Some] obtain w' m n where w': "snd (inc_report_event E ev w) = w'"
        "iw_incidents w' = put_inc (settled s False m (ev_group ev) n (escalated ?e inc)) (iw_incidents w)"
        "iw_events w' = iw_events w @ [?e\<lparr>ev_incident := Some (in_pk inc)\<rparr>]" "iw_next w' = iw_next w + 1" by fastforce
      let ?i = "settled s False m (ev_group ev) n (escalated ?e inc)"
      have inc: "inc \<in> set (iw_incidents w)" using Some by (auto simp: bundled_incident_def find_Some_iff split: option.splits if_splits)
      have links: "linked pk w' = linked pk w @ (if pk = in_pk inc then [?e\<lparr>ev_incident := Some (in_pk inc)\<rparr>] else [])" for pk
        using linked_snoc [OF w'(3)] by simp
      have "summary j (linked (in_pk j) w')" if "j \<in> set (iw_incidents w')" for j
      proof (cases "in_pk j = in_pk inc")
        case True
        with that have "j = ?i" unfolding w'(2) put_inc_def by (auto split: if_splits)
        moreover have "summary inc (linked (in_pk inc) w)" using sum inc by (simp add: summarised_def)
        from summary_into [OF this, of "?e\<lparr>ev_incident := Some (in_pk inc)\<rparr>" ?e] have
          "summary ?i (linked (in_pk inc) w @ [?e\<lparr>ev_incident := Some (in_pk inc)\<rparr>])" by simp
        ultimately show ?thesis using True links by simp
      next
        case False
        with that have "j \<in> set (iw_incidents w)" unfolding w'(2) put_inc_def by (auto split: if_splits)
        with False sum links show ?thesis by (simp add: summarised_def)
      qed
      moreover have "numbered w'"
        by (rule numbered_into [OF num, where i = ?i and inc = inc and e = "?e\<lparr>ev_incident := Some (in_pk inc)\<rparr>"]) (simp_all add: inc w')
      ultimately show ?thesis using w'(1) by (simp add: summarised_def)
    next
      case None
      let ?pk = "iw_next w + 1" and ?o = "opened E s ?e (with_event E ev w)"
      let ?x = "(sync_metadata E ?e)\<lparr>ev_incident := Some ?pk\<rparr>"
      from report_new [OF num row(2,1,3) None] obtain w' m where w': "snd (inc_report_event E ev w) = w'"
        "iw_incidents w' = iw_incidents w @ [settled s True m (ev_group ev) 1 ?o]" "iw_events w' = iw_events w @ [?x]" "iw_next w' = iw_next w + 2"
        by fastforce
      have opk: "in_pk ?o = ?pk" by (simp add: with_event_def)
      have links: "linked pk w' = linked pk w @ (if pk = ?pk then [?x] else [])" for pk using linked_snoc [OF w'(3)] by simp
      have "summary j (linked (in_pk j) w')" if "j \<in> set (iw_incidents w')" for j
      proof (cases "j \<in> set (iw_incidents w)")
        case True
        then have "in_pk j \<noteq> ?pk" using num by (force simp: numbered_def)
        with True sum links show ?thesis by (simp add: summarised_def)
      next
        case False
        with that w'(2) have j: "j = settled s True m (ev_group ev) 1 ?o" by simp
        have "summary j [?x]" unfolding j
          using summary_new [OF recorded_plain [OF plain], of ?x "iw_next w" s True m 1 s "with_event E ev w"] by simp
        moreover have "in_pk j = ?pk" using j opk by simp
        ultimately show ?thesis using links linked_fresh [OF num, of ?pk] by simp
      qed
      moreover have "numbered w'"
        by (rule numbered_new [OF num, where i = "settled s True m (ev_group ev) 1 ?o" and e = ?x]) (simp_all add: w' with_event_def)
      ultimately show ?thesis using w'(1) by (simp add: summarised_def)
    qed
  qed
qed

text \<open>C35: Whatever reports come in, one after the other, with any rule sets, windows and groups: as long as neither
  the metadata of an event nor that of its location has an entry \<open>event_count\<close> of its own, which is where the
  incident keeps its counter, every incident shows what its events say: their number, the highest of their
  levels, and a group only if every event that has one has this one.\<close>

theorem incidents_summarise_events:
  assumes "summarised w" "\<forall>(E, ev) \<in> set rs. plain E ev"
  shows "summarised (snd (burst rs w))"
  using assms
proof (induction rs arbitrary: w)
  case (Cons r rs)
  have "summarised (snd (inc_report_event (fst r) (snd r) w))"
    by (rule report_summarised [OF Cons.prems(1)]) (use Cons.prems(2) in auto)
  from Cons.IH [OF this] Cons.prems(2) show ?case by (simp add: split_beta)
qed simp

section \<open>Merging and deleting\<close>

text \<open>An incident is deleted on resolution only when it is resolved, its rule set says so, and neither a
  ticket, an item of the board nor its metadata holds it; otherwise nothing changes.\<close>

theorem resolution_deletes_guarded:
  "check_delete_on_resolution inc w =
     (let s = (case in_rule_set inc of None \<Rightarrow> None | Some pk \<Rightarrow> find (\<lambda>s. rs_pk s = pk) (iw_sets w));
          go = in_status inc \<in> {''resolved'', ''closed''} \<and> in_tickets inc = 0 \<and> \<not> in_linked inc
             \<and> (case map_of (in_metadata inc) ''do_not_delete'' of None \<Rightarrow> True | Some v \<Rightarrow> \<not> truthy v)
             \<and> (case s of None \<Rightarrow> False | Some s \<Rightarrow> rs_delete_on_resolution s)
      in (Inr go, if go then w\<lparr>iw_incidents := filter (\<lambda>i. in_pk i \<noteq> in_pk inc) (iw_incidents w),
                               iw_events := filter (\<lambda>e. ev_incident e \<noteq> Some (in_pk inc)) (iw_events w)\<rparr> else w))"
  by (auto simp: check_delete_on_resolution_def bind_def iget_def ret_def seqs_def delete_incident_def imodify_def RESOLVED_def Let_def
      split: option.split)

definition retarget :: "int \<Rightarrow> int set \<Rightarrow> inc_event \<Rightarrow> inc_event" where
  "retarget target gone e =
     (case ev_incident e of None \<Rightarrow> e | Some i \<Rightarrow> if i \<in> gone then e\<lparr>ev_incident := Some target\<rparr> else e)"

text \<open>What the rows of incidents say of themselves\<close>

definition row_keys :: "inc_world \<Rightarrow> (int \<times> (string \<times> json) list) list" where
  "row_keys w = map (\<lambda>i. (in_pk i, in_metadata i)) (iw_incidents w)"

lemma retarget_comp: "target \<notin> B \<Longrightarrow> retarget target B (retarget target A e) = retarget target (A \<union> B) e"
  by (simp add: retarget_def split: option.split)

lemma retarget_none [simp]: "retarget target {} = id"
  by (auto simp: retarget_def fun_eq_iff split: option.split)

lemma keys_update: "(\<And>i. in_pk (f i) = in_pk i \<and> in_metadata (f i) = in_metadata i) \<Longrightarrow> row_keys (update_incident pk f w) = row_keys w"
  by (auto simp: row_keys_def update_incident_def)

lemma update_events [simp]: "iw_events (update_incident pk f w) = iw_events w"
  by (simp add: update_incident_def)

lemma row_keys_aside: "aside w w' \<Longrightarrow> row_keys w' = row_keys w"
  by (simp add: aside_def row_keys_def)

lemma moved_events:
  assumes "pk \<noteq> target"
  shows "filter (\<lambda>e. ev_incident e \<noteq> Some pk) (map (\<lambda>e. if ev_incident e = Some pk then e\<lparr>ev_incident := Some target\<rparr> else e) evs)
    = map (retarget target {pk}) evs"
proof -
  have f: "(if ev_incident e = Some pk then e\<lparr>ev_incident := Some target\<rparr> else e) = retarget target {pk} e" for e :: inc_event
    by (simp add: retarget_def split: option.split)
  have "ev_incident (retarget target {pk} e) \<noteq> Some pk" for e using assms by (simp add: retarget_def split: option.split)
  then show ?thesis by (simp add: f filter_id_conv)
qed

lemma keys_filter:
  "row_keys (w\<lparr>iw_incidents := filter (\<lambda>j. in_pk j \<noteq> pk) (iw_incidents w), iw_events := evs\<rparr>) = filter (\<lambda>k. fst k \<noteq> pk) (row_keys w)"
  by (simp add: row_keys_def filter_map o_def)

lemma filter_disjoint:
  "(\<And>e. P e \<Longrightarrow> \<not> Q e) \<Longrightarrow> length (filter (\<lambda>e. P e \<or> Q e) xs) = length (filter P xs) + length (filter Q xs)"
  by (induction xs) auto

lemma tally_retarget:
  assumes "pk \<noteq> target"
  shows "tally target (map (retarget target {pk}) evs) = tally target evs + tally pk evs"
proof -
  have "ev_incident (retarget target {pk} e) = Some target \<longleftrightarrow> ev_incident e = Some target \<or> ev_incident e = Some pk" for e
    by (simp add: retarget_def split: option.split)
  moreover have "length (filter (\<lambda>e. ev_incident e = Some target \<or> ev_incident e = Some pk) evs)
      = length (filter (\<lambda>e. ev_incident e = Some target) evs) + length (filter (\<lambda>e. ev_incident e = Some pk) evs)"
    by (rule filter_disjoint) (simp add: assms [symmetric])
  ultimately show ?thesis by (simp add: tally_def filter_map o_def)
qed

lemma merge_one_run:
  assumes "in_pk i \<noteq> target"
  shows "\<exists>w'. merge_one target i w = (Inr (tally target (iw_events w') - tally target (iw_events w)), w')
    \<and> iw_events w' = map (retarget target {in_pk i}) (iw_events w)
    \<and> row_keys w' = filter (\<lambda>k. fst k \<noteq> in_pk i) (row_keys w)"
proof -
  let ?pk = "in_pk i"
  let ?w1 = "update_incident target (\<lambda>j. j\<lparr>in_tickets := in_tickets j + in_tickets i\<rparr>) (move_events ?pk target w)"
  let ?w2 = "snd (add_history target ''merged'' ?w1)"
  let ?w3 = "if in_linked i then update_incident target (\<lambda>j. j\<lparr>in_linked := True\<rparr>) ?w2 else ?w2"
  let ?w4 = "?w3\<lparr>iw_incidents := filter (\<lambda>j. in_pk j \<noteq> ?pk) (iw_incidents ?w3), iw_events := filter (\<lambda>e. ev_incident e \<noteq> Some ?pk) (iw_events ?w3)\<rparr>"
  have a: "aside ?w1 ?w2" by (rule history_result)
  have run: "merge_one target i w = (Inr (tally ?pk (iw_events w)), ?w4)"
    by (simp add: merge_one_def bind_def count_events_def iget_def seqs_def imodify_def delete_incident_def ret_def tally_def linked_def add_history_def)
  have "iw_events ?w3 = iw_events ?w1" using a by (simp add: aside_def)
  then have evs: "iw_events ?w4 = map (retarget target {?pk}) (iw_events w)"
    using moved_events [OF assms] by (simp add: move_events_def)
  have "row_keys ?w3 = row_keys ?w2" by (simp add: keys_update)
  also have "\<dots> = row_keys ?w1" using a by (rule row_keys_aside)
  also have "\<dots> = row_keys w" by (simp add: keys_update) (simp add: row_keys_def move_events_def)
  finally have "row_keys ?w4 = filter (\<lambda>k. fst k \<noteq> ?pk) (row_keys w)" unfolding keys_filter by simp
  moreover have "tally ?pk (iw_events w) = tally target (iw_events ?w4) - tally target (iw_events w)"
    using tally_retarget [OF assms, of "iw_events w"] evs by simp
  ultimately show ?thesis using run evs by auto
qed

lemma merge_loop_run:
  assumes "target \<notin> in_pk ` set os"
  shows "\<exists>w'. merge_loop target os m w = (Inr (m + tally target (iw_events w') - tally target (iw_events w)), w')
    \<and> iw_events w' = map (retarget target (in_pk ` set os)) (iw_events w)
    \<and> row_keys w' = filter (\<lambda>k. fst k \<notin> in_pk ` set os) (row_keys w)"
  using assms
proof (induction os arbitrary: m w)
  case (Cons i os)
  then obtain w1 where w1: "merge_one target i w = (Inr (tally target (iw_events w1) - tally target (iw_events w)), w1)"
    "iw_events w1 = map (retarget target {in_pk i}) (iw_events w)" "row_keys w1 = filter (\<lambda>k. fst k \<noteq> in_pk i) (row_keys w)"
    using merge_one_run [of i target w] by auto
  from Cons obtain w' where w': "merge_loop target os (m + (tally target (iw_events w1) - tally target (iw_events w))) w1
       = (Inr (m + (tally target (iw_events w1) - tally target (iw_events w)) + tally target (iw_events w') - tally target (iw_events w1)), w')"
    "iw_events w' = map (retarget target (in_pk ` set os)) (iw_events w1)" "row_keys w' = filter (\<lambda>k. fst k \<notin> in_pk ` set os) (row_keys w1)"
    by fastforce
  have "merge_loop target (i # os) m w = (Inr (m + tally target (iw_events w') - tally target (iw_events w)), w')"
    using w'(1) by (simp add: bind_def w1(1))
  moreover have "iw_events w' = map (retarget target (in_pk ` set (i # os))) (iw_events w)"
    using Cons.prems by (simp add: w' w1 retarget_comp)
  moreover have "row_keys w' = filter (\<lambda>k. fst k \<notin> in_pk ` set (i # os)) (row_keys w)"
    by (simp add: w' w1 conj_commute)
  ultimately show ?case by blast
qed (simp add: ret_def)

text \<open>C37: Whatever the tables hold, a merge that succeeds loses no event: those of the merged incidents hang on the
  target, all others stay where they were, the merged incidents are gone and no other, and the event count that
  the target showed has grown by exactly the number of events that moved to it. A merge that fails changes
  nothing. (It does not look at groups or priorities: \<open>merge_mixes_groups\<close>.)\<close>

theorem merge_moves_events:
  assumes "on_action_merge target pks w = (r, w')"
  shows "case r of
      Inl e \<Rightarrow> w' = w
    | Inr _ \<Rightarrow> (let gone = {i \<in> set (the pks). i \<noteq> target \<and> i \<in> in_pk ` set (iw_incidents w)} in
        iw_events w' = map (retarget target gone) (iw_events w)
        \<and> map in_pk (iw_incidents w') = filter (\<lambda>i. i \<notin> gone) (map in_pk (iw_incidents w))
        \<and> (\<exists>inc. find (\<lambda>i. in_pk i = target) (iw_incidents w) = Some inc
             \<and> (\<exists>inc' \<in> set (iw_incidents w'). in_pk inc' = target
                  \<and> (\<forall>n. meta_count (in_metadata inc) = Inr n \<longrightarrow>
                       meta_count (in_metadata inc') = Inr (n + int (length (linked target w')) - int (length (linked target w)))))))"
proof (cases r)
  case (Inl e)
  then show ?thesis using assms
    by (auto simp: on_action_merge_def throw_def in_transaction_def split: option.splits if_splits sum.splits prod.splits)
next
  case (Inr u)
  from Inr assms obtain ps inc where ps: "pks = Some ps" and inc: "find (\<lambda>i. in_pk i = target) (iw_incidents w) = Some inc"
    and run: "merge_into inc (others target ps w) w = (Inr (), w')"
    by (auto simp: on_action_merge_def throw_def in_transaction_def bind_def iget_def split: option.splits if_splits sum.splits prod.splits)
  let ?os = "others target ps w"
  have row: "inc \<in> set (iw_incidents w)" "in_pk inc = target" using inc by (auto simp: find_Some_iff)
  have gone: "in_pk ` set ?os = {i \<in> set ps. i \<noteq> target \<and> i \<in> in_pk ` set (iw_incidents w)}" by (auto simp: others_def)
  then have "target \<notin> in_pk ` set ?os" by simp
  from merge_loop_run [OF this, of 0 w] obtain v where
    v: "merge_loop target ?os 0 w = (Inr (tally target (iw_events v) - tally target (iw_events w)), v)"
    and evs: "iw_events v = map (retarget target (in_pk ` set ?os)) (iw_events w)"
    and keys: "row_keys v = filter (\<lambda>k. fst k \<notin> in_pk ` set ?os) (row_keys w)" by auto
  have "(target, in_metadata inc) \<in> set (row_keys v)" using row gone unfolding keys by (auto simp: row_keys_def)
  then obtain j where j: "j \<in> set (iw_incidents v)" "in_pk j = target" "in_metadata j = in_metadata inc" by (auto simp: row_keys_def)
  have pks: "map in_pk (iw_incidents v) = filter (\<lambda>i. i \<notin> in_pk ` set ?os) (map in_pk (iw_incidents w))"
    using arg_cong [OF keys, of "map fst"] by (simp add: row_keys_def o_def filter_map)
  let ?n = "tally target (iw_events v) - tally target (iw_events w)"
  have moved: "?n = int (length (linked target v)) - int (length (linked target w))" by (simp add: tally_def linked_def)
  have result: "iw_events w' = iw_events v \<and> map in_pk (iw_incidents w') = map in_pk (iw_incidents v)
    \<and> (\<exists>i \<in> set (iw_incidents w'). in_pk i = target \<and> (\<forall>n. meta_count (in_metadata inc) = Inr n \<longrightarrow> meta_count (in_metadata i) = Inr (n + ?n)))"
  proof (cases "?n = 0")
    case True
    with run v row have "w' = v" by (auto simp: merge_into_def throw_def bind_def ret_def split: if_splits)
    with True j show ?thesis by (intro conjI bexI [of _ j]) auto
  next
    case False
    with run v row obtain n where n: "meta_count (in_metadata inc) = Inr n"
      and w': "w' = update_incident target (\<lambda>i. i\<lparr>in_metadata := AList.update ''event_count'' (JInt (n + ?n)) (in_metadata inc)\<rparr>) v"
      by (auto simp: merge_into_def throw_def bind_def imodify_def split: if_splits sum.splits)
    let ?f = "\<lambda>i. i\<lparr>in_metadata := AList.update ''event_count'' (JInt (n + ?n)) (in_metadata inc)\<rparr>"
    have "?f j \<in> set (iw_incidents w')" using j(1,2) by (force simp: w' update_incident_def)
    moreover have "meta_count (in_metadata (?f j)) = Inr (n + ?n)" by (simp add: meta_count_def update_conv')
    moreover have "map in_pk (iw_incidents w') = map in_pk (iw_incidents v)" by (simp add: w' update_incident_def)
    ultimately show ?thesis using j(2) w' n by (intro conjI bexI [of _ "?f j"]) simp_all
  qed
  then have "linked target w' = linked target v" by (simp add: linked_def)
  with result [unfolded moved] Inr ps inc evs pks gone show ?thesis by (simp add: add_diff_eq)
qed

section \<open>Examples\<close>

definition sample_rules_env :: rule_env where
  "sample_rules_env = \<lparr>re_search = (\<lambda>p s. Some False), re_float = (\<lambda>s. None), re_show_float = (\<lambda>x. []), re_repr = (\<lambda>v. []),
     re_attr = (\<lambda>ev name. Inr JNull)\<rparr>"

definition sample_env :: "rat \<Rightarrow> inc_env" where
  "sample_env now = \<lparr>ie_now = now, ie_rules = sample_rules_env, ie_geo = (\<lambda>ip. None), ie_group_name = (\<lambda>g. JNull), ie_publish = (\<lambda>s. True),
     ie_digest = (\<lambda>s. s), ie_ip6 = (\<lambda>s. True), ie_llm_key = False, ie_level_threshold = 7\<rparr>"

definition sample_set :: "int option \<Rightarrow> int option \<Rightarrow> int option \<Rightarrow> rule_set" where
  "sample_set trigger_count window retrigger = \<lparr>rs_pk = 1, rs_priority = 1, rs_category = ''login'', rs_bundle_minutes = None, rs_bundle_by = 4,
     rs_by_rule_set = False, rs_match_by = 0, rs_handler = Some ''block://'', rs_trigger_count = trigger_count, rs_trigger_window = window,
     rs_retrigger = retrigger, rs_active = True, rs_delete_on_resolution = False, rs_rules = []\<rparr>"

definition sample_event :: "int \<Rightarrow> int option \<Rightarrow> int option \<Rightarrow> inc_event" where
  "sample_event pk grp inc = \<lparr>ev_pk = pk, ev_created = 0, ev_level = 5, ev_scope = ''account'', ev_category = ''login'', ev_source_ip = Some ''10.0.0.1'',
     ev_hostname = None, ev_uid = None, ev_country = None, ev_title = None, ev_details = None, ev_model_name = None, ev_model_id = None,
     ev_group = grp, ev_incident = inc, ev_metadata = []\<rparr>"

definition sample_world :: "rule_set list \<Rightarrow> inc_world" where
  "sample_world sets = \<lparr>iw_sets = sets, iw_events = [], iw_incidents = [], iw_next = 1, iw_jobs = [], iw_history = []\<rparr>"

definition dues :: "publish_result res list \<Rightarrow> bool list" where
  "dues rs = map (\<lambda>r. case r of Inl e \<Rightarrow> False | Inr x \<Rightarrow> pr_dispatch x) rs"

lemma sample_recorded: "recorded (sample_env now) (sample_event i g k) pk
    = (sample_event pk g None)\<lparr>ev_created := now, ev_metadata := ev_metadata (recorded (sample_env now) (sample_event i g k) pk)\<rparr>"
  by (simp add: recorded_def sync_metadata_def event_geo_def sample_env_def sample_event_def split: option.split)

lemma sample_select:
  "select_rule_set sample_rules_env [sample_set c w r] True False (recorded (sample_env now) (sample_event i g k) pk) = Inr (Some (sample_set c w r))"
  by (subst sample_recorded)
     (simp add: select_rule_set_def check_by_category_def candidates_def sample_event_def sample_set_def check_rules_def)

lemma sample_plain: "plain (sample_env now) (sample_event i g k)"
  by (simp add: plain_def sample_env_def sample_event_def)

theorem handlers_fire_at_threshold_witness:
  "dues (fst (burst (replicate 6 (sample_env 0, sample_event 0 None None)) (sample_world [sample_set (Some 3) None (Some 2)])))
     = [False, False, True, False, True, False]"
proof -
  let ?s = "sample_set (Some 3) None (Some 2)" and ?ev = "sample_event 0 None None"
  have "alike ?s (timeless ?s ?ev) (replicate 6 (sample_env 0, ?ev)) (iw_sets (sample_world [?s]))"
    using sample_select by (simp add: alike_def sample_world_def sample_env_def)
  moreover have "lasting ?s" "numbered (sample_world [?s])" "iw_incidents (sample_world [?s]) = []"
    by (simp_all add: lasting_def sample_set_def ignores_def strip_def is_space_def numbered_def sample_world_def)
  ultimately have "fst (burst (replicate 6 (sample_env 0, ?ev)) (sample_world [?s]))
      = map (\<lambda>i. answer_at ?s (iw_next (sample_world [?s]) + 1) (int i + 1)) [0..<6]"
    using handlers_fire_at_threshold [of "sample_world [?s]" ?s "timeless ?s ?ev" "replicate 6 (sample_env 0, ?ev)"] by simp
  then show ?thesis
    by (simp add: dues_def answer_at_def upt_rec numeral_eq_Suc)
       (simp add: fires_at_def first_at_def sample_set_def has_handler_def)
qed

theorem incidents_summarise_events_witness:
  "summarised (snd (burst [(sample_env 0, sample_event 0 (Some 1) None), (sample_env 60, sample_event 0 (Some 2) None)] (sample_world [sample_set None None None])))"
  by (rule incidents_summarise_events) (simp_all add: summarised_def numbered_def sample_world_def sample_plain)

text \<open>Two incidents of two groups, with one event each\<close>

definition sample_incident :: "int \<Rightarrow> int option \<Rightarrow> incident" where
  "sample_incident pk grp = (opened (sample_env 0) None (sample_event 0 grp None) ((sample_world [])\<lparr>iw_next := pk\<rparr>))
     \<lparr>in_metadata := [(''event_count'', JInt 1)]\<rparr>"

definition two_groups :: inc_world where
  "two_groups = (sample_world [])\<lparr>iw_incidents := [sample_incident 1 (Some 10), sample_incident 2 (Some 20)],
     iw_events := [sample_event 3 (Some 10) (Some 1), sample_event 4 (Some 20) (Some 2)], iw_next := 5\<rparr>"

lemma two_groups_summarised: "summarised two_groups"
  by (simp add: summarised_def numbered_def two_groups_def sample_incident_def opened_def new_incident_def sync_metadata_def event_geo_def sample_env_def
      sample_event_def sample_world_def summary_def linked_def)

theorem merge_moves_events_witness:
  "fst (on_action_merge 1 (Some [2, 7]) two_groups) = Inr ()
   \<and> iw_events (snd (on_action_merge 1 (Some [2, 7]) two_groups)) = [sample_event 3 (Some 10) (Some 1), sample_event 4 (Some 20) (Some 1)]"
proof -
  have ok: "fst (on_action_merge 1 (Some [2, 7]) two_groups) = Inr ()" by code_simp
  have pks: "{i. (i = 2 \<or> i = 7) \<and> i \<noteq> 1 \<and> i \<in> in_pk ` set (iw_incidents two_groups)} = {2}"
    by (auto simp: two_groups_def sample_incident_def sample_world_def)
  have evs: "map (retarget 1 {2}) (iw_events two_groups) = [sample_event 3 (Some 10) (Some 1), sample_event 4 (Some 20) (Some 1)]"
    by (simp add: two_groups_def retarget_def sample_event_def)
  show ?thesis
    using merge_moves_events [of 1 "Some [2, 7]" two_groups "fst (on_action_merge 1 (Some [2, 7]) two_groups)"
        "snd (on_action_merge 1 (Some [2, 7]) two_groups)"]
    using ok by (simp add: prod_eq_iff pks Let_def evs)
qed

text \<open>A merge does not look at groups: the incident of one group is left with the event of another.\<close>

theorem merge_mixes_groups: "summarised two_groups \<and> \<not> summarised (snd (on_action_merge 1 (Some [2]) two_groups))"
proof -
  let ?w = "snd (on_action_merge 1 (Some [2]) two_groups)"
  have "(case iw_incidents ?w of [i] \<Rightarrow> in_pk i = 1 \<and> in_group i = Some 10 | _ \<Rightarrow> False)" by code_simp
  then obtain i where i: "iw_incidents ?w = [i]" "in_pk i = 1" "in_group i = Some 10" by (auto split: list.splits)
  have "sample_event 4 (Some 20) (Some 1) \<in> set (linked 1 ?w)" by code_simp
  with i have "\<not> summary i (linked (in_pk i) ?w)" by (force simp: summary_def sample_event_def)
  with i two_groups_summarised show ?thesis by (simp add: summarised_def)
qed

text \<open>
  An incident whose handlers have run and that somebody has opened: after a quiet time the next event
  is below the threshold of the window, so the incident is pending again, and the event after it makes the handlers run
  again, although the rule set does not ask for a second trigger.
\<close>

definition quiet_world :: inc_world where
  "quiet_world = (sample_world [sample_set (Some 2) (Some 10) None])\<lparr>
     iw_incidents := [(sample_incident 1 None)\<lparr>in_status := ''open'', in_metadata := [(''event_count'', JInt 2)]\<rparr>],
     iw_events := [sample_event 2 None (Some 1), sample_event 3 None (Some 1)], iw_next := 4\<rparr>"

theorem quiet_window_restarts:
  "(let (first, w) = inc_report_event (sample_env 86400) (sample_event 0 None None) quiet_world;
        (second, w') = inc_report_event (sample_env 86401) (sample_event 0 None None) w
    in map in_status (iw_incidents w) = [''pending''] \<and> dues [first, second] = [False, True])"
  by code_simp

text \<open>A comparison that is not asked for raises: \<open>contains\<close> on the level of an event.\<close>

theorem contains_on_number_raises:
  "fst (inc_report_event (sample_env 0) (sample_event 0 None None)
     (sample_world [(sample_set None None None)\<lparr>rs_rules :=
        [\<lparr>rl_index = 0, rl_field = Some ''level'', rl_comparator = ''contains'', rl_value = ''5'', rl_type = ''int''\<rparr>]\<rparr>]))
   = Inl (TypeError ''not supported between instances'')"
  by code_simp

theorem published_to_first_match_witness:
  "let general = (sample_set None None None)\<lparr>rs_category := ''*''\<rparr>; own = sample_set (Some 3) None None; ev = sample_event 1 None None in
     select_rule_set sample_rules_env [general, own] True False ev = Inr (Some own) \<and> check_rules sample_rules_env ev own = Inr True"
proof -
  let ?sets = "[(sample_set None None None)\<lparr>rs_category := ''*''\<rparr>, sample_set (Some 3) None None]" and ?ev = "sample_event 1 None None"
  have sel: "select_rule_set sample_rules_env ?sets True False ?ev = Inr (Some (sample_set (Some 3) None None))"
    by (simp add: select_rule_set_def check_by_category_def candidates_def sample_event_def sample_set_def check_rules_def)
  then show ?thesis using published_to_first_match [OF sel] by (simp add: Let_def)
qed

end
