(* ===== verification/Incident_Reporter.thy ===== *)
theory Incident_Reporter
  imports Incident_Laws
begin

text \<open>
  How events are filed (\<open>mojo/apps/incident/reporter.py\<close>, \<open>sanitize_dict\<close> and \<open>mask_token\<close> of
  \<open>mojo/helpers/logit.py\<close>): the values of a report become a row whose metadata holds no value of a sensitive key,
  and \<open>report_event_suppressed\<close> limits how often that happens: a flag in Redis
  lets one report of a key through per window, a counter bounds the reports of a category in one bucket of
  time. Redis may fail at each call: \<open>rf_set\<close>, \<open>rf_incr\<close> and \<open>rf_expire\<close> say which calls answer.
  The lines of the log are left out, but for the flag that limits them.
\<close>

section \<open>The values of an event\<close>

text \<open>
  The values that a caller passes are Python values, tuples among them; a column stores a tuple as a list.
  \<open>py\<close> is the value a JSON text is read as.
\<close>

datatype pyval =
    PyNone
  | PyBool bool
  | PyInt int
  | PyFloat string
  | PyStr string
  | PyList "pyval list"
  | PyTuple "pyval list"
  | PyDict "(string \<times> pyval) list"

fun stored :: "pyval \<Rightarrow> json" where
  "stored PyNone = JNull"
| "stored (PyBool b) = JBool b"
| "stored (PyInt i) = JInt i"
| "stored (PyFloat x) = JFloat x"
| "stored (PyStr s) = JStr s"
| "stored (PyList xs) = JList (map stored xs)"
| "stored (PyTuple xs) = JList (map stored xs)"
| "stored (PyDict m) = JObj (map (\<lambda>(k, v). (k, stored v)) m)"

fun py :: "json \<Rightarrow> pyval" where
  "py JNull = PyNone"
| "py (JBool b) = PyBool b"
| "py (JInt i) = PyInt i"
| "py (JFloat x) = PyFloat x"
| "py (JStr s) = PyStr s"
| "py (JList xs) = PyList (map py xs)"
| "py (JObj m) = PyDict (map (\<lambda>(k, v). (k, py v)) m)"

definition STARS :: string where
  "STARS = ''*****''"

definition SENSITIVE_KEYS :: "string list" where
  "SENSITIVE_KEYS =
     [''password'', ''pwd'', ''new_password'', ''current_password'', ''temporary_password'', ''forced_password_token'', ''rotated_token'',
      ''secret'', ''token'', ''access_token'', ''refresh_token'', ''id_token'', ''api_key'', ''api_secret'', ''confirm_token'',
      ''auth_token'', ''bearer_token'', ''authorization'', ''private_key'', ''private_key_pem'', ''mojo_deploy_key'', ''otp'', ''mfa_code'',
      ''ssn'', ''credit_card'', ''card_number'', ''pin'', ''cvv'']"

definition sensitive :: "string \<Rightarrow> bool" where
  "sensitive k \<longleftrightarrow> lower k \<in> set SENSITIVE_KEYS"

text \<open>Dicts and lists are gone through; any other value, a tuple too, is left as it is.\<close>

fun sanitize :: "pyval \<Rightarrow> pyval" where
  "sanitize (PyDict m) = PyDict (map (\<lambda>(k, v). (k, if sensitive k then PyStr STARS else sanitize v)) m)"
| "sanitize (PyList xs) = PyList (map sanitize xs)"
| "sanitize v = v"

definition mask_token :: "string \<Rightarrow> string" where
  "mask_token tok = (if tok = [] then tok else if length tok \<le> 4 then ''*****'' else ''****'' @ drop (length tok - 4) tok)"

text \<open>An extra argument of a report: a scalar, list or dict, a row of a table with its id, or a value that is shown
  by \<open>str\<close>, such as a tuple. \<open>js\<close> is an argument that is JSON.\<close>

datatype extra = Plain pyval | Row json | Shown string

definition js :: "json \<Rightarrow> extra" where
  "js v = Plain (py v)"

text \<open>
  \<open>ra_group\<close> is what the caller passed as \<open>group\<close>, if anything; a value that is no group counts as none.
\<close>

record report_args =
  ra_details :: string
  ra_title :: "string option"
  ra_category :: string
  ra_level :: int
  ra_scope :: string
  ra_uid :: "int option"
  ra_hostname :: "string option"
  ra_model_name :: "string option"
  ra_model_id :: "int option"
  ra_source_ip :: "string option"
  ra_group :: "int option option"
  ra_extra :: "(string \<times> extra) list"

record report_request =
  rr_ip :: string
  rr_path :: string
  rr_protocol :: string
  rr_method :: string
  rr_query :: string
  rr_agent :: string
  rr_host :: string
  rr_group :: "int option"
  rr_user :: "(int \<times> string option \<times> string) option"
  rr_bearer :: "string option"

definition resolve_event_group :: "report_args \<Rightarrow> report_request option \<Rightarrow> int option" where
  "resolve_event_group a req =
     (case ra_group a of Some g \<Rightarrow> g | None \<Rightarrow> (case req of Some r \<Rightarrow> rr_group r | None \<Rightarrow> None))"

definition EVENT_FIELDS :: "string list" where
  "EVENT_FIELDS = [''details'', ''title'', ''scope'', ''category'', ''level'', ''uid'', ''hostname'', ''model_name'', ''model_id'', ''source_ip'', ''group'']"

text \<open>One extra argument: a sensitive key hides it whatever it is, a dict or list is cleaned, a dict once more.\<close>

fun extra_value :: "string \<Rightarrow> extra \<Rightarrow> json" where
  "extra_value k (Plain v) =
     (if sensitive k then JStr STARS else stored (case sanitize v of PyDict m \<Rightarrow> sanitize (PyDict m) | x \<Rightarrow> x))"
| "extra_value k (Row i) = (if sensitive k then JStr STARS else i)"
| "extra_value k (Shown s) = (if sensitive k then JStr STARS else JStr s)"

definition processed_kwargs :: "(string \<times> extra) list \<Rightarrow> (string \<times> json) list" where
  "processed_kwargs xs = map (\<lambda>(k, v). (k, extra_value k v)) (filter (\<lambda>(k, v). k \<notin> set EVENT_FIELDS) xs)"

definition request_metadata :: "report_request \<Rightarrow> (string \<times> json) list" where
  "request_metadata r =
     [(''request_ip'', JStr (rr_ip r)), (''http_path'', JStr (rr_path r)), (''http_protocol'', JStr (rr_protocol r)),
      (''http_method'', JStr (rr_method r)), (''http_query_string'', JStr (rr_query r)), (''http_user_agent'', JStr (rr_agent r)),
      (''http_host'', JStr (rr_host r))]
     @ (case rr_user r of None \<Rightarrow> []
        | Some (uid, name, email) \<Rightarrow>
            (case rr_bearer r of None \<Rightarrow> [] | Some b \<Rightarrow> if b = [] then [] else [(''bearer'', JStr (mask_token b))])
            @ [(''user_name'', jopt JStr name), (''user_email'', JStr email)])"

definition event_metadata :: "inc_env \<Rightarrow> string \<Rightarrow> report_args \<Rightarrow> report_request option \<Rightarrow> (string \<times> json) list" where
  "event_metadata E server a req =
     put_all ((case req of None \<Rightarrow> [] | Some r \<Rightarrow> request_metadata r)
              @ (case resolve_event_group a req of None \<Rightarrow> [] | Some g \<Rightarrow> [(''group_id'', JInt g), (''group_name'', ie_group_name E g)])
              @ processed_kwargs (ra_extra a))
       [(''server'', JStr server)]"

text \<open>\<open>_create_event_dict\<close>; the number, the time and the country of the row come later.\<close>

definition create_event :: "inc_env \<Rightarrow> string \<Rightarrow> report_args \<Rightarrow> report_request option \<Rightarrow> inc_event" where
  "create_event E server a req =
     \<lparr>ev_pk = 0, ev_created = 0, ev_level = ra_level a, ev_scope = ra_scope a, ev_category = ra_category a,
      ev_source_ip = (case ra_source_ip a of Some ip \<Rightarrow> Some ip | None \<Rightarrow> map_option rr_ip req),
      ev_hostname = ra_hostname a,
      ev_uid = (case req of Some r \<Rightarrow> (case rr_user r of Some (uid, _) \<Rightarrow> Some uid | None \<Rightarrow> ra_uid a) | None \<Rightarrow> ra_uid a),
      ev_country = None,
      ev_title = (case ra_title a of None \<Rightarrow> Some (take 50 (ra_details a)) | Some t \<Rightarrow> Some t),
      ev_details = Some (ra_details a), ev_model_name = ra_model_name a, ev_model_id = ra_model_id a,
      ev_group = resolve_event_group a req, ev_incident = None, ev_metadata = event_metadata E server a req\<rparr>"

definition file_report :: "inc_env \<Rightarrow> string \<Rightarrow> report_args \<Rightarrow> report_request option \<Rightarrow> publish_result iact" where
  "file_report E server a req = inc_report_event E (create_event E server a req)"

section \<open>The limiters\<close>

text \<open>A flag is the time at which it expires; a counter has a value and perhaps such a time.\<close>

record sup_world =
  sw_flags :: "string \<Rightarrow> rat option"
  sw_counts :: "string \<Rightarrow> (int \<times> rat option) option"
  sw_warned :: bool
  sw_inc :: inc_world

record redis_faults =
  rf_set :: bool
  rf_incr :: bool
  rf_expire :: bool

record sup_options =
  so_key :: string
  so_window :: int
  so_budget :: "int option"
  so_fail_open :: bool

type_synonym 'a sact = "(sup_world, 'a) act"

definition notice_key :: "string \<Rightarrow> string \<Rightarrow> string" where
  "notice_key category key = ''incident:notice:'' @ category @ '':'' @ key"

definition bucket_of :: "rat \<Rightarrow> int \<Rightarrow> int" where
  "bucket_of now window = \<lfloor>now\<rfloor> div window * window"

definition budget_key :: "rat \<Rightarrow> string \<Rightarrow> int \<Rightarrow> string" where
  "budget_key now category window = ''incident:budget:'' @ category @ '':'' @ show_int (bucket_of now window)"

definition redis_down :: "'a sact" where
  "redis_down = throw (ServiceError ''redis'')"

text \<open>\<open>SET key 1 NX EX window\<close>: whether the flag was free; a window that is not positive is refused.\<close>

definition claim_flag :: "bool \<Rightarrow> rat \<Rightarrow> string \<Rightarrow> int \<Rightarrow> bool sact" where
  "claim_flag up now k window w =
     (if \<not> up \<or> window \<le> 0 then redis_down w
      else case sw_flags w k of
        Some t \<Rightarrow> if now < t then (Inr False, w) else (Inr True, w\<lparr>sw_flags := (sw_flags w)(k \<mapsto> now + of_int window)\<rparr>)
      | None \<Rightarrow> (Inr True, w\<lparr>sw_flags := (sw_flags w)(k \<mapsto> now + of_int window)\<rparr>))"

definition live_count :: "rat \<Rightarrow> (int \<times> rat option) option \<Rightarrow> (int \<times> rat option) option" where
  "live_count now c = (case c of Some (n, Some t) \<Rightarrow> if now < t then c else None | _ \<Rightarrow> c)"

definition incr_count :: "bool \<Rightarrow> rat \<Rightarrow> string \<Rightarrow> int sact" where
  "incr_count up now k w =
     (if \<not> up then redis_down w
      else case live_count now (sw_counts w k) of
        None \<Rightarrow> (Inr 1, w\<lparr>sw_counts := (sw_counts w)(k \<mapsto> (1, None))\<rparr>)
      | Some (n, t) \<Rightarrow> (Inr (n + 1), w\<lparr>sw_counts := (sw_counts w)(k \<mapsto> (n + 1, t))\<rparr>))"

definition expire_count :: "bool \<Rightarrow> rat \<Rightarrow> string \<Rightarrow> int \<Rightarrow> unit sact" where
  "expire_count up now k window w =
     (if \<not> up then redis_down w
      else case sw_counts w k of
        None \<Rightarrow> (Inr (), w)
      | Some (n, t) \<Rightarrow> (Inr (), w\<lparr>sw_counts := (sw_counts w)(k \<mapsto> (n, Some (now + of_int window)))\<rparr>))"

definition on_incidents :: "'a iact \<Rightarrow> 'a sact" where
  "on_incidents m w = (case m (sw_inc w) of (r, i) \<Rightarrow> (r, w\<lparr>sw_inc := i\<rparr>))"

section \<open>Reporting\<close>

text \<open>
  The one event that says that the budget of a category is exhausted; its failure is swallowed. \<open>body\<close> is the
  text of the message for a key.
\<close>

definition exhausted_args :: "(string \<Rightarrow> string) \<Rightarrow> string \<Rightarrow> string \<Rightarrow> report_args" where
  "exhausted_args body category key =
     \<lparr>ra_details = body key, ra_title = Some (''Incident budget exhausted: '' @ category), ra_category = category, ra_level = 4,
      ra_scope = ''global'', ra_uid = None, ra_hostname = None, ra_model_name = None, ra_model_id = None, ra_source_ip = None,
      ra_group = Some None, ra_extra = []\<rparr>"

definition report_budget_exhausted :: "inc_env \<Rightarrow> string \<Rightarrow> (string \<Rightarrow> string) \<Rightarrow> string \<Rightarrow> string \<Rightarrow> unit sact" where
  "report_budget_exhausted E server body category key =
     catch (bind (on_incidents (file_report E server (exhausted_args body category key) None)) (\<lambda>_. ret ())) (\<lambda>_. ret ())"

definition note_redis_ok :: "unit sact" where
  "note_redis_ok w = (Inr (), w\<lparr>sw_warned := False\<rparr>)"

definition warn_redis_unavailable :: "unit sact" where
  "warn_redis_unavailable w = (Inr (), w\<lparr>sw_warned := True\<rparr>)"

text \<open>The first \<open>try\<close>: whether the report may go on\<close>

definition within_budget :: "inc_env \<Rightarrow> string \<Rightarrow> redis_faults \<Rightarrow> (string \<Rightarrow> string) \<Rightarrow> sup_options \<Rightarrow> string \<Rightarrow> int \<Rightarrow> bool sact" where
  "within_budget E server f body opts category budget =
     (let k = budget_key (ie_now E) category (so_window opts) in
      bind (incr_count (rf_incr f) (ie_now E) k) (\<lambda>used.
      seqs (if used = 1 then expire_count (rf_expire f) (ie_now E) k (so_window opts) else ret ())
      (if used > budget
       then seqs (if used = budget + 1 then report_budget_exhausted E server body category (so_key opts) else ret ()) (ret False)
       else ret True)))"

definition admitted :: "inc_env \<Rightarrow> string \<Rightarrow> redis_faults \<Rightarrow> (string \<Rightarrow> string) \<Rightarrow> sup_options \<Rightarrow> string \<Rightarrow> bool sact" where
  "admitted E server f body opts category =
     bind (claim_flag (rf_set f) (ie_now E) (notice_key category (so_key opts)) (so_window opts)) (\<lambda>fresh.
     seqs note_redis_ok
     (if \<not> fresh then ret False
      else (case so_budget opts of None \<Rightarrow> ret True | Some b \<Rightarrow> within_budget E server f body opts category b)))"

definition file_event :: "inc_env \<Rightarrow> string \<Rightarrow> report_args \<Rightarrow> report_request option \<Rightarrow> bool sact" where
  "file_event E server a req = catch (bind (on_incidents (file_report E server a req)) (\<lambda>_. ret True)) (\<lambda>_. ret False)"

definition report_event_suppressed ::
  "inc_env \<Rightarrow> string \<Rightarrow> redis_faults \<Rightarrow> (string \<Rightarrow> string) \<Rightarrow> sup_options \<Rightarrow> report_args \<Rightarrow> report_request option \<Rightarrow> bool sact" where
  "report_event_suppressed E server f body opts a req w =
     (case admitted E server f body opts (ra_category a) w of
        (Inr ok, w') \<Rightarrow> if ok then file_event E server a req w' else (Inr False, w')
      | (Inl e, w') \<Rightarrow> if so_fail_open opts then seqs warn_redis_unavailable (file_event E server a req) w' else (Inr False, w'))"

end
