(* ===== verification/Incident_Reporter_Laws.thy ===== *)
theory Incident_Reporter_Laws
  imports Incident_Reporter
begin

text \<open>
  What the reporter guarantees: secrets in the arguments of reports do not reach the tables, and suppressed
  reports keep to their window and their budget, also when Redis fails.
\<close>

section \<open>No secret is stored\<close>

text \<open>Every value of a sensitive key is hidden, at any depth.\<close>

fun masked :: "json \<Rightarrow> bool" where
  "masked (JObj m) = (\<forall>(k, v) \<in> set m. (sensitive k \<longrightarrow> v = JStr STARS) \<and> masked v)"
| "masked (JList xs) = (\<forall>x \<in> set xs. masked x)"
| "masked v = True"

definition masked_entry :: "string \<times> json \<Rightarrow> bool" where
  "masked_entry e \<longleftrightarrow> (sensitive (fst e) \<longrightarrow> snd e = JStr STARS) \<and> masked (snd e)"

definition masked_all :: "(string \<times> json) list \<Rightarrow> bool" where
  "masked_all m \<longleftrightarrow> list_all masked_entry m"

lemma masked_all_simps [simp]: "masked_all []" "masked_all (e # m) \<longleftrightarrow> masked_entry e \<and> masked_all m"
  "masked_all (m @ n) \<longleftrightarrow> masked_all m \<and> masked_all n"
  by (simp_all add: masked_all_def)

lemma masked_object [simp]: "masked (JObj m) \<longleftrightarrow> masked_all m"
  by (auto simp: masked_all_def list_all_iff masked_entry_def split_beta)

declare masked.simps(1) [simp del]

text \<open>Values without a tuple in them, as everything is that was read from JSON\<close>

fun tuple_free :: "pyval \<Rightarrow> bool" where
  "tuple_free (PyTuple xs) = False"
| "tuple_free (PyList xs) = (\<forall>x \<in> set xs. tuple_free x)"
| "tuple_free (PyDict m) = (\<forall>(k, v) \<in> set m. tuple_free v)"
| "tuple_free v = True"

lemma py_stored [simp]: "stored (py v) = v"
  by (induction v rule: py.induct) (auto simp: map_idI split_beta intro!: map_idI)

lemma py_tuple_free [simp]: "tuple_free (py v)"
  by (induction v rule: py.induct) auto

lemma sanitize_tuple_free: "tuple_free v \<Longrightarrow> tuple_free (sanitize v)"
  by (induction v rule: sanitize.induct) auto

lemma masked_sanitize: "tuple_free v \<Longrightarrow> masked (stored (sanitize v))"
  by (induction v rule: sanitize.induct) (auto simp: masked_all_def list_all_iff masked_entry_def)

text \<open>A tuple is stored as a list, but not gone through.\<close>

lemma tuples_keep_secrets: "\<not> masked (extra_value ''body'' (Plain (PyDict [(''items'', PyTuple [PyDict [(''pin'', PyInt 1234)]])])))"
  by code_simp

lemma masked_update: "masked_all m \<Longrightarrow> masked_entry (k, v) \<Longrightarrow> masked_all (AList.update k v m)"
  by (induction m) auto

lemma masked_put_all:
  "masked_all m \<Longrightarrow> masked_all xs \<Longrightarrow> masked_all (put_all xs m)"
  unfolding put_all_def
proof (induction xs arbitrary: m)
  case (Cons x xs)
  obtain k v where x: "x = (k, v)" by fastforce
  from Cons.IH [OF masked_update [OF Cons.prems(1), of k v]] Cons.prems(2) show ?case by (simp add: x)
qed simp

text \<open>An argument holds no tuple inside it, and the id of a row no entry of a sensitive key.\<close>

fun clean_extra :: "extra \<Rightarrow> bool" where
  "clean_extra (Plain v) = tuple_free v"
| "clean_extra (Row i) = masked i"
| "clean_extra (Shown s) = True"

lemma extra_masked: "clean_extra v \<Longrightarrow> masked_entry (k, extra_value k v)"
proof (cases v)
  case (Plain x)
  assume "clean_extra v"
  with Plain have "tuple_free (sanitize x)" by (simp add: sanitize_tuple_free)
  with Plain \<open>clean_extra v\<close> masked_sanitize [of x] masked_sanitize [of "sanitize x"] show ?thesis
    by (auto simp: masked_entry_def split: pyval.split)
qed (auto simp: masked_entry_def)

definition clean_args :: "report_args \<Rightarrow> bool" where
  "clean_args a \<longleftrightarrow> (\<forall>(k, v) \<in> set (ra_extra a). clean_extra v)"

lemma kwargs_masked: "\<forall>(k, v) \<in> set xs. clean_extra v \<Longrightarrow> masked_all (processed_kwargs xs)"
  by (fastforce simp: masked_all_def list_all_iff processed_kwargs_def intro: extra_masked)

text \<open>Values that the tables supply hold no entry of a sensitive key.\<close>

definition clean_env :: "inc_env \<Rightarrow> bool" where
  "clean_env E \<longleftrightarrow> (\<forall>g. masked (ie_group_name E g)) \<and> (\<forall>ip c xs. ie_geo E ip = Some (c, xs) \<longrightarrow> masked (JObj xs))"

lemma insensitive [simp]:
  "\<not> sensitive ''level''" "\<not> sensitive ''scope''" "\<not> sensitive ''category''" "\<not> sensitive ''source_ip''" "\<not> sensitive ''title''"
  "\<not> sensitive ''details''" "\<not> sensitive ''model_name''" "\<not> sensitive ''model_id''" "\<not> sensitive ''group_id''" "\<not> sensitive ''group_name''"
  "\<not> sensitive ''country_code''" "\<not> sensitive ''server''" "\<not> sensitive ''request_ip''" "\<not> sensitive ''bearer''" "\<not> sensitive ''user_name''"
  "\<not> sensitive ''user_email''" "\<not> sensitive ''http_path''" "\<not> sensitive ''http_protocol''" "\<not> sensitive ''http_method''"
  "\<not> sensitive ''http_query_string''" "\<not> sensitive ''http_user_agent''" "\<not> sensitive ''http_host''" "\<not> sensitive ''event_count''" "\<not> sensitive ''group_mismatch''" "\<not> sensitive ''last_trigger_count''"
  by code_simp+

lemma masked_jopt [simp]: "masked (jopt JStr x)" "masked (jopt JInt y)"
  by (simp_all add: jopt_def split: option.split)

lemma core_masked: "masked_all (core_fields ev)"
  by (simp add: core_fields_def masked_entry_def)

lemma group_masked: "clean_env E \<Longrightarrow> masked_all (group_fields E ev)"
  by (cases "ev_group ev") (simp_all add: group_fields_def masked_entry_def clean_env_def)

lemma sync_masked:
  assumes "clean_env E" "masked (JObj (ev_metadata ev))"
  shows "masked (JObj (ev_metadata (sync_metadata E ev)))"
proof (cases "event_geo E ev")
  case None
  then show ?thesis
    using masked_put_all [of "ev_metadata ev" "core_fields ev @ group_fields E ev"] core_masked [of ev] group_masked [OF assms(1), of ev] assms(2)
    by (auto simp: sync_metadata_def)
next
  case (Some x)
  then obtain c xs where x: "event_geo E ev = Some (c, xs)" by (cases x) simp
  have "masked_all xs"
    using x assms(1) by (auto simp: event_geo_def clean_env_def split: if_splits option.splits)
  then have "masked_all (core_fields ev @ group_fields E ev @ (''country_code'', jopt JStr c) # xs)"
    using core_masked [of ev] group_masked [OF assms(1), of ev] by (auto simp: masked_entry_def [of "(''country_code'', _)"])
  from masked_put_all [OF _ this, of "ev_metadata ev"] x assms(2) show ?thesis by (simp add: sync_metadata_def)
qed

lemma created_masked:
  assumes "clean_env E" "clean_args a"
  shows "masked (JObj (ev_metadata (create_event E server a req)))"
proof -
  have "masked_all (case req of None \<Rightarrow> [] | Some r \<Rightarrow> request_metadata r)"
    by (auto simp: request_metadata_def masked_entry_def split: option.splits if_splits)
  moreover have "masked_all (case resolve_event_group a req of None \<Rightarrow> [] | Some g \<Rightarrow> [(''group_id'', JInt g), (''group_name'', ie_group_name E g)])"
    using assms(1) by (cases "resolve_event_group a req") (simp_all add: clean_env_def masked_entry_def)
  moreover have "masked_all (processed_kwargs (ra_extra a))"
    using assms(2) by (intro kwargs_masked) (simp add: clean_args_def)
  ultimately have "masked_all ((case req of None \<Rightarrow> [] | Some r \<Rightarrow> request_metadata r)
      @ (case resolve_event_group a req of None \<Rightarrow> [] | Some g \<Rightarrow> [(''group_id'', JInt g), (''group_name'', ie_group_name E g)])
      @ processed_kwargs (ra_extra a))" by simp
  moreover have "masked_all [(''server'', JStr server)]" by (simp add: masked_entry_def)
  ultimately show ?thesis using masked_put_all by (simp add: create_event_def event_metadata_def)
qed

text \<open>The rows of the tables\<close>

definition clean_tables :: "inc_world \<Rightarrow> bool" where
  "clean_tables w \<longleftrightarrow> (\<forall>e \<in> set (iw_events w). masked (JObj (ev_metadata e))) \<and> (\<forall>i \<in> set (iw_incidents w). masked (JObj (in_metadata i)))"

lemma recorded_masked: "clean_env E \<Longrightarrow> masked (JObj (ev_metadata ev)) \<Longrightarrow> masked (JObj (ev_metadata (recorded E ev pk)))"
  unfolding recorded_def by (rule sync_masked) simp_all

lemma opened_masked: "clean_env E \<Longrightarrow> masked (JObj (ev_metadata ev)) \<Longrightarrow> masked (JObj (in_metadata (opened E s ev w)))"
  using sync_masked [of E ev] masked_put_all [of "[]" "ev_metadata (sync_metadata E ev)"] by (simp add: opened_def new_incident_def)

lemma reconcile_masked: "masked (JObj (in_metadata i)) \<Longrightarrow> masked (JObj (in_metadata (reconcile g i)))"
  by (simp add: reconcile_def Let_def masked_update masked_entry_def [of "(''event_count'', _)"] masked_entry_def [of "(''group_mismatch'', _)"]
      split: sum.split)

lemma settled_masked: "masked (JObj (in_metadata i)) \<Longrightarrow> masked (JObj (in_metadata (settled s c m g n i)))"
  using reconcile_masked [of "i\<lparr>in_status := status_after s m i\<rparr>" g]
  by (simp add: settled_def noted_def masked_update masked_entry_def [of "(''last_trigger_count'', _)"])

lemma report_clean:
  assumes num: "numbered w" and clean: "clean_tables w" "clean_env E" and ev: "masked (JObj (ev_metadata ev))"
  shows "clean_tables (snd (inc_report_event E ev w))"
proof -
  let ?e = "recorded E ev (iw_next w)"
  have e: "masked (JObj (ev_metadata ?e))" using recorded_masked [OF clean(2) ev] .
  consider (alone) "snd (inc_report_event E ev w) = with_event E ev w"
    | (row) s where "\<not> unnoticed s" "select_rule_set (ie_rules E) (iw_sets w) True False ?e = Inr s" "s \<noteq> None \<or> ev_level ev \<ge> ie_level_threshold E"
    using report_cases [OF num, of E ev] by blast
  then show ?thesis
  proof cases
    case alone
    then show ?thesis using clean(1) e by (auto simp: clean_tables_def with_event_def)
  next
    case (row s)
    show ?thesis
    proof (cases "bundled_incident E s ?e w")
      case (Some inc)
      have "inc \<in> set (iw_incidents w)" using Some by (auto simp: bundled_incident_def find_Some_iff split: option.splits if_splits)
      with clean(1) have i: "masked (JObj (in_metadata (escalated ?e inc)))" by (auto simp: clean_tables_def escalated_summary)
      from report_into [OF num row(2,1,3) Some] obtain w' m n where w': "snd (inc_report_event E ev w) = w'"
        "iw_incidents w' = put_inc (settled s False m (ev_group ev) n (escalated ?e inc)) (iw_incidents w)"
        "iw_events w' = iw_events w @ [?e\<lparr>ev_incident := Some (in_pk inc)\<rparr>]" by fastforce
      show ?thesis
        using w' clean(1) e settled_masked [OF i] by (auto simp: clean_tables_def put_inc_def)
    next
      case None
      let ?o = "opened E s ?e (with_event E ev w)"
      from report_new [OF num row(2,1,3) None] obtain w' m where w': "snd (inc_report_event E ev w) = w'"
        "iw_incidents w' = iw_incidents w @ [settled s True m (ev_group ev) 1 ?o]"
        "iw_events w' = iw_events w @ [(sync_metadata E ?e)\<lparr>ev_incident := Some (iw_next w + 1)\<rparr>]" by fastforce
      show ?thesis
        using w' clean(1) sync_masked [OF clean(2) e] settled_masked [OF opened_masked [OF clean(2) e]]
        by (auto simp: clean_tables_def)
    qed
  qed
qed

lemma report_numbered:
  assumes num: "numbered w" shows "numbered (snd (inc_report_event E ev w))"
proof -
  let ?e = "recorded E ev (iw_next w)"
  consider (alone) "snd (inc_report_event E ev w) = with_event E ev w"
    | (row) s where "\<not> unnoticed s" "select_rule_set (ie_rules E) (iw_sets w) True False ?e = Inr s" "s \<noteq> None \<or> ev_level ev \<ge> ie_level_threshold E"
    using report_cases [OF num, of E ev] by blast
  then show ?thesis
  proof cases
    case alone
    then show ?thesis using numbered_event [OF num] by simp
  next
    case (row s)
    show ?thesis
    proof (cases "bundled_incident E s ?e w")
      case (Some inc)
      have inc: "inc \<in> set (iw_incidents w)" using Some by (auto simp: bundled_incident_def find_Some_iff split: option.splits if_splits)
      from report_into [OF num row(2,1,3) Some] obtain w' m n where w': "snd (inc_report_event E ev w) = w'"
        "iw_incidents w' = put_inc (settled s False m (ev_group ev) n (escalated ?e inc)) (iw_incidents w)"
        "iw_events w' = iw_events w @ [?e\<lparr>ev_incident := Some (in_pk inc)\<rparr>]" "iw_next w' = iw_next w + 1" by fastforce
      show ?thesis
        unfolding w'(1)
        by (rule numbered_into [OF num, where i = "settled s False m (ev_group ev) n (escalated ?e inc)" and inc = inc
              and e = "?e\<lparr>ev_incident := Some (in_pk inc)\<rparr>"]) (simp_all add: inc w')
    next
      case None
      let ?x = "(sync_metadata E ?e)\<lparr>ev_incident := Some (iw_next w + 1)\<rparr>" and ?o = "opened E s ?e (with_event E ev w)"
      from report_new [OF num row(2,1,3) None] obtain w' m where w': "snd (inc_report_event E ev w) = w'"
        "iw_incidents w' = iw_incidents w @ [settled s True m (ev_group ev) 1 ?o]" "iw_events w' = iw_events w @ [?x]" "iw_next w' = iw_next w + 2"
        by fastforce
      show ?thesis
        unfolding w'(1)
        by (rule numbered_new [OF num, where i = "settled s True m (ev_group ev) 1 ?o" and e = ?x]) (simp_all add: w' with_event_def)
    qed
  qed
qed

section \<open>Runs of suppressed reports\<close>

record sup_call =
  sc_env :: inc_env
  sc_server :: string
  sc_faults :: redis_faults
  sc_body :: "string \<Rightarrow> string"
  sc_opts :: sup_options
  sc_args :: report_args
  sc_request :: "report_request option"

definition call :: "sup_call \<Rightarrow> bool sact" where
  "call c = report_event_suppressed (sc_env c) (sc_server c) (sc_faults c) (sc_body c) (sc_opts c) (sc_args c) (sc_request c)"

text \<open>The calls whose event was filed\<close>

primrec filings :: "sup_call list \<Rightarrow> sup_world \<Rightarrow> sup_call list" where
  "filings [] w = []"
| "filings (c # cs) w = (if fst (call c w) = Inr True then [c] else []) @ filings cs (snd (call c w))"

text \<open>Steps that leave the limiters alone\<close>

definition off_redis :: "'a sact \<Rightarrow> bool" where
  "off_redis m \<longleftrightarrow> (\<forall>fs cs. keeps (\<lambda>w. sw_flags w = fs \<and> sw_counts w = cs) m)"

lemma off_redisD: "off_redis m \<Longrightarrow> sw_flags (snd (m w)) = sw_flags w" "off_redis m \<Longrightarrow> sw_counts (snd (m w)) = sw_counts w"
  by (simp_all add: off_redis_def keeps_def)

lemma off_incidents: "keeps (\<lambda>w. sw_flags w = fs \<and> sw_counts w = cs) (on_incidents m)"
  by (simp add: keeps_def on_incidents_def split: prod.split)

lemma off_file: "off_redis (file_event E server a req)"
  unfolding file_event_def off_redis_def by (intro allI keeps_intro off_incidents)

lemma off_exhausted: "off_redis (report_budget_exhausted E server body category key)"
  unfolding report_budget_exhausted_def off_redis_def by (intro allI keeps_intro off_incidents)

lemma exhausted_returns: "fst (report_budget_exhausted E server body category key w) = Inr ()"
  by (simp add: report_budget_exhausted_def catch_def bind_def ret_def split: prod.split sum.split)

lemma file_returns: "\<exists>b. fst (file_event E server a req w) = Inr b"
  by (auto simp: file_event_def catch_def bind_def ret_def split: prod.split sum.split)

text \<open>A suppressed report never raises, whatever fails.\<close>

theorem suppressed_report_returns: "\<exists>filed. fst (report_event_suppressed E server f body opts a req w) = Inr filed"
  using file_returns by (auto simp: report_event_suppressed_def seqs_def bind_def warn_redis_unavailable_def split: prod.split sum.split)

text \<open>A call keeps to the limits: it drops its event when Redis fails, or Redis answers.\<close>

definition strict_call :: "sup_call \<Rightarrow> bool" where
  "strict_call c \<longleftrightarrow> so_window (sc_opts c) > 0 \<and>
     (so_fail_open (sc_opts c) \<longrightarrow> rf_set (sc_faults c) \<and> rf_incr (sc_faults c) \<and> rf_expire (sc_faults c))"

definition call_time :: "sup_call \<Rightarrow> rat" where
  "call_time c = ie_now (sc_env c)"

definition call_notice :: "sup_call \<Rightarrow> string" where
  "call_notice c = notice_key (ra_category (sc_args c)) (so_key (sc_opts c))"

definition call_window :: "sup_call \<Rightarrow> rat" where
  "call_window c = of_int (so_window (sc_opts c))"

text \<open>The part of the limiters that a call decides on\<close>

definition decides :: "sup_call \<Rightarrow> sup_world \<Rightarrow> bool res \<times> sup_world" where
  "decides c w = admitted (sc_env c) (sc_server c) (sc_faults c) (sc_body c) (sc_opts c) (ra_category (sc_args c)) w"

lemma incr_flags [simp]: "sw_flags (snd (incr_count up now k w)) = sw_flags w"
  by (auto simp: incr_count_def redis_down_def throw_def split: option.split)

lemma expire_flags [simp]: "sw_flags (snd (expire_count up now k d w)) = sw_flags w"
  by (auto simp: expire_count_def redis_down_def throw_def split: option.split)

lemma decides_up: "strict_call c \<Longrightarrow> so_fail_open (sc_opts c) \<Longrightarrow> \<exists>b. fst (decides c w) = Inr b"
  by (auto simp: decides_def admitted_def within_budget_def strict_call_def claim_flag_def incr_count_def expire_count_def note_redis_ok_def
      bind_def seqs_def ret_def Let_def split: option.split prod.split sum.split dest: off_redisD)
     (metis exhausted_returns fst_conv sum.distinct(1))+

lemma call_limits: "sw_flags (snd (call c w)) = sw_flags (snd (decides c w))" "sw_counts (snd (call c w)) = sw_counts (snd (decides c w))"
  using off_redisD [OF off_file]
  by (auto simp: call_def report_event_suppressed_def decides_def [symmetric] seqs_def bind_def warn_redis_unavailable_def split: prod.split sum.split)

lemma call_filed: "strict_call c \<Longrightarrow> fst (call c w) = Inr True \<Longrightarrow> fst (decides c w) = Inr True"
  using decides_up [of c w]
  by (auto simp: call_def report_event_suppressed_def decides_def [symmetric] split: prod.splits sum.splits if_splits)

lemma within_flags: "sw_flags (snd (within_budget E server f body opts category b w)) = sw_flags w"
  by (auto simp: within_budget_def bind_def seqs_def ret_def Let_def split: prod.split sum.split)
     (metis incr_flags expire_flags off_redisD(1) [OF off_exhausted] snd_conv)+

definition live_flag :: "sup_call \<Rightarrow> sup_world \<Rightarrow> bool" where
  "live_flag c w \<longleftrightarrow> (case sw_flags w (call_notice c) of None \<Rightarrow> False | Some t \<Rightarrow> call_time c < t)"

lemma decides_flags:
  "fst (decides c w) \<noteq> Inr True \<and> sw_flags (snd (decides c w)) = sw_flags w
   \<or> \<not> live_flag c w \<and> sw_flags (snd (decides c w)) = (sw_flags w)(call_notice c \<mapsto> call_time c + call_window c)"
  using within_flags
  by (auto simp: decides_def admitted_def claim_flag_def redis_down_def throw_def bind_def seqs_def note_redis_ok_def ret_def
      live_flag_def call_notice_def call_time_def call_window_def split: option.split)

lemma filings_subset: "set (filings cs w) \<subseteq> set cs"
  by (induction cs arbitrary: w) auto

lemma flag_holds:
  assumes "\<forall>c \<in> set cs. strict_call c \<and> now \<le> call_time c" "sorted_wrt (\<lambda>c d. call_time c \<le> call_time d) cs"
    "sw_flags w k = Some t" "d \<in> set (filings cs w)" "call_notice d = k"
  shows "t \<le> call_time d"
  using assms
proof (induction cs arbitrary: w)
  case (Cons c cs)
  let ?w = "snd (call c w)"
  show ?case
  proof (cases "fst (decides c w) \<noteq> Inr True \<and> sw_flags (snd (decides c w)) = sw_flags w")
    case True
    then have "fst (call c w) \<noteq> Inr True" using call_filed [of c w] Cons.prems(1) by auto
    then have "d \<in> set (filings cs ?w)" using Cons.prems(4) by simp
    moreover have "sw_flags ?w k = Some t" using True Cons.prems(3) call_limits(1) [of c w] by simp
    ultimately show ?thesis using Cons.IH [of ?w] Cons.prems(1,2,5) by simp
  next
    case False
    then have free: "\<not> live_flag c w" and flags: "sw_flags ?w = (sw_flags w)(call_notice c \<mapsto> call_time c + call_window c)"
      using decides_flags [of c w] by (auto simp: call_limits)
    show ?thesis
    proof (cases "call_notice c = k")
      case True
      then have "t \<le> call_time c" using free Cons.prems(3) by (simp add: live_flag_def)
      moreover have "call_time c \<le> call_time d"
        using Cons.prems(2,4) filings_subset [of cs ?w] by (auto split: if_splits)
      ultimately show ?thesis by simp
    next
      case False
      then have "sw_flags ?w k = Some t" using flags Cons.prems(3) by simp
      moreover have "d \<in> set (filings cs ?w)" using Cons.prems(4,5) False by (auto split: if_splits)
      ultimately show ?thesis using Cons by auto
    qed
  qed
qed simp

text \<open>C40: Two events of one key are never filed within the window of the first, at increasing times, whatever fails,
  as long as calls that go on without Redis (\<open>fail_open\<close>) find it up.\<close>

theorem one_filing_per_window:
  assumes "\<forall>c \<in> set cs. strict_call c" "sorted_wrt (\<lambda>c d. call_time c \<le> call_time d) cs"
  shows "sorted_wrt (\<lambda>c d. call_notice c = call_notice d \<longrightarrow> call_time c + call_window c \<le> call_time d) (filings cs w)"
  using assms
proof (induction cs arbitrary: w)
  case (Cons c cs)
  let ?w = "snd (call c w)"
  have rest: "sorted_wrt (\<lambda>c d. call_notice c = call_notice d \<longrightarrow> call_time c + call_window c \<le> call_time d) (filings cs ?w)"
    using Cons by simp
  show ?case
  proof (cases "fst (call c w) = Inr True")
    case True
    then have "fst (decides c w) = Inr True" using call_filed Cons.prems(1) by simp
    then have flag: "sw_flags ?w (call_notice c) = Some (call_time c + call_window c)"
      using decides_flags [of c w] by (simp add: call_limits)
    have "call_time c + call_window c \<le> call_time d" if "d \<in> set (filings cs ?w)" "call_notice c = call_notice d" for d
      by (rule flag_holds [of cs "call_time c", OF _ _ flag that(1) that(2) [symmetric]]) (use Cons.prems in auto)
    with rest True show ?thesis by simp
  qed (use rest in simp)
qed simp

section \<open>The budget\<close>

definition call_bucket :: "sup_call \<Rightarrow> int" where
  "call_bucket c = bucket_of (call_time c) (so_window (sc_opts c))"

definition call_counter :: "sup_call \<Rightarrow> string" where
  "call_counter c = budget_key (call_time c) (ra_category (sc_args c)) (so_window (sc_opts c))"

text \<open>The value of a counter, which lives to the end of its bucket\<close>

definition counted :: "string \<Rightarrow> int \<Rightarrow> int \<Rightarrow> sup_world \<Rightarrow> bool" where
  "counted k till n w \<longleftrightarrow> (case sw_counts w k of
      None \<Rightarrow> n = 0
    | Some (m, t) \<Rightarrow> n = m \<and> m \<ge> 1 \<and> (case t of None \<Rightarrow> True | Some t \<Rightarrow> of_int till \<le> t))"

lemma bucket_bounds:
  assumes "d > 0" shows "of_int (bucket_of now d) \<le> now" "now < of_int (bucket_of now d + d)"
proof -
  have "bucket_of now d = \<lfloor>now\<rfloor> - \<lfloor>now\<rfloor> mod d" by (simp add: bucket_of_def minus_mod_eq_div_mult)
  moreover have "0 \<le> \<lfloor>now\<rfloor> mod d" "\<lfloor>now\<rfloor> mod d < d" using assms by simp_all
  ultimately have "bucket_of now d \<le> \<lfloor>now\<rfloor>" "\<lfloor>now\<rfloor> < bucket_of now d + d" by linarith+
  then show "of_int (bucket_of now d) \<le> now" "now < of_int (bucket_of now d + d)" by linarith+
qed

lemma split_last:
  assumes "a @ x # s = b @ x # u" "x \<notin> set s" "x \<notin> set u" shows "a = b \<and> s = u"
proof -
  have tail: "takeWhile (\<lambda>y. y \<noteq> x) (rev (v @ x # r)) = rev r" if "x \<notin> set r" for v r
    using that by (simp, subst takeWhile_append2) auto
  have "s = u" using arg_cong [OF assms(1), of "\<lambda>l. takeWhile (\<lambda>y. y \<noteq> x) (rev l)"] tail [of s a] tail [of u b] assms(2,3) by simp
  with assms(1) show ?thesis by simp
qed

lemma budget_key_inj: "budget_key now a d = budget_key now' b d' \<longleftrightarrow> a = b \<and> bucket_of now d = bucket_of now' d'"
proof
  assume "budget_key now a d = budget_key now' b d'"
  then have "a @ CHR '':'' # show_int (bucket_of now d) = b @ CHR '':'' # show_int (bucket_of now' d')" by (simp add: budget_key_def)
  from split_last [OF this show_int_no_colon show_int_no_colon] show "a = b \<and> bucket_of now d = bucket_of now' d'"
    by (simp add: show_int_inj)
qed (simp add: budget_key_def)

lemma counted_same: "sw_counts v = sw_counts w \<Longrightarrow> counted k till n v = counted k till n w"
  by (simp add: counted_def)

lemma counted_nonneg: "counted k till n w \<Longrightarrow> 0 \<le> n"
  by (auto simp: counted_def split: option.splits)

lemma incr_counted:
  assumes "counted k till n w" "now < of_int till"
  shows "\<exists>w'. incr_count True now k w = (Inr (n + 1), w') \<and> counted k till (n + 1) w'"
  using assms by (cases "sw_counts w k") (auto simp: counted_def incr_count_def live_count_def split: option.splits)

lemma expire_counted:
  assumes "counted k till n w" "of_int till \<le> now + of_int d"
  shows "counted k till n (snd (expire_count up now k d w))"
  using assms by (cases "sw_counts w k") (auto simp: counted_def expire_count_def redis_down_def throw_def)

lemma budget_counted:
  fixes b server f body
  assumes "counted k till n w" "k = budget_key (ie_now E) category (so_window opts)" "ie_now E < of_int till"
    "of_int till \<le> ie_now E + of_int (so_window opts)"
  defines "r \<equiv> within_budget E server f body opts category b w"
  shows "fst r \<noteq> Inr True \<and> sw_counts (snd r) = sw_counts w \<or> counted k till (n + 1) (snd r) \<and> (fst r = Inr True \<longrightarrow> n + 1 \<le> b)"
proof (cases "rf_incr f")
  case False
  then show ?thesis by (simp add: r_def within_budget_def bind_def incr_count_def redis_down_def throw_def Let_def)
next
  case True
  from incr_counted [OF assms(1,3)] obtain v where v: "incr_count True (ie_now E) k w = (Inr (n + 1), v)" "counted k till (n + 1) v" by blast
  let ?x = "if n + 1 = 1 then expire_count (rf_expire f) (ie_now E) k (so_window opts) else ret ()"
  let ?u = "snd (?x v)"
  have u: "counted k till (n + 1) ?u" using v(2) expire_counted [OF v(2) assms(4)]
    by (cases "n = 0") (simp_all add: ret_def)
  have m: "counted k till (n + 1) (snd (report_budget_exhausted E server body category (so_key opts) ?u))"
    using u off_redisD(2) [OF off_exhausted] counted_same by blast
  have r: "r = seqs ?x (if n + 1 > b then seqs (if n + 1 = b + 1 then report_budget_exhausted E server body category (so_key opts) else ret ()) (ret False)
      else ret True) v"
    using v(1) True by (simp add: r_def within_budget_def Let_def bind_def assms(2))
  show ?thesis
  proof (cases "?x v")
    case (Pair a q)
    then have q: "q = ?u" by simp
    show ?thesis
    proof (cases a)
      case (Inl e)
      then have "r = (Inl e, q)" unfolding r seqs_def bind_def Pair by simp
      then show ?thesis using u q by simp
    next
      case (Inr z)
      then have "r = (if n + 1 > b then seqs (if n + 1 = b + 1 then report_budget_exhausted E server body category (so_key opts) else ret ()) (ret False)
          else ret True) q" unfolding r seqs_def bind_def Pair by simp
      moreover have "\<exists>x. report_budget_exhausted E server body category (so_key opts) q = (Inr (), x) \<and> counted k till (n + 1) x"
        using exhausted_returns [of E server body category "so_key opts" q] m q by (metis prod.collapse)
      ultimately show ?thesis using u q by (auto simp: seqs_def bind_def ret_def split: if_splits)
    qed
  qed
qed

lemma counts_elsewhere: "k \<noteq> k' \<Longrightarrow> sw_counts (snd (incr_count up now k' w)) k = sw_counts w k"
  "k \<noteq> k' \<Longrightarrow> sw_counts (snd (expire_count up now k' d w)) k = sw_counts w k"
  by (auto simp: incr_count_def expire_count_def redis_down_def throw_def split: option.split)

lemma within_elsewhere:
  assumes "k \<noteq> budget_key (ie_now E) category (so_window opts)"
  shows "sw_counts (snd (within_budget E server f body opts category b w)) k = sw_counts w k"
  by (auto simp: within_budget_def bind_def seqs_def ret_def Let_def split: prod.split sum.split)
     (metis counts_elsewhere [OF assms] off_redisD(2) [OF off_exhausted] snd_conv)+

lemma flag_counts [simp]: "sw_counts (snd (claim_flag up now k d w)) = sw_counts w"
  by (auto simp: claim_flag_def redis_down_def throw_def split: option.split)

text \<open>What a call does to a counter\<close>

lemma decides_counts:
  assumes "strict_call c"
  shows "call_counter c \<noteq> k \<Longrightarrow> sw_counts (snd (decides c w)) k = sw_counts w k"
    and "call_counter c = k \<Longrightarrow> counted k (call_bucket c + so_window (sc_opts c)) n w \<Longrightarrow>
      (fst (decides c w) = Inr True \<longrightarrow> so_budget (sc_opts c) = None) \<and> sw_counts (snd (decides c w)) = sw_counts w
      \<or> counted k (call_bucket c + so_window (sc_opts c)) (n + 1) (snd (decides c w))
          \<and> (fst (decides c w) = Inr True \<longrightarrow> (\<exists>b. so_budget (sc_opts c) = Some b \<and> n + 1 \<le> b))"
proof -
  let ?E = "sc_env c" and ?o = "sc_opts c" and ?cat = "ra_category (sc_args c)"
  obtain a v where v: "claim_flag (rf_set (sc_faults c)) (ie_now ?E) (notice_key ?cat (so_key ?o)) (so_window ?o) w = (a, v)" by fastforce
  then have vc: "sw_counts v = sw_counts w" using flag_counts by (metis snd_conv)
  let ?v = "v\<lparr>sw_warned := False\<rparr>"
  have d: "decides c w = (case a of Inl e \<Rightarrow> (Inl e, v) | Inr fresh \<Rightarrow> if \<not> fresh then (Inr False, ?v)
      else (case so_budget ?o of None \<Rightarrow> (Inr True, ?v) | Some b \<Rightarrow> within_budget ?E (sc_server c) (sc_faults c) (sc_body c) ?o ?cat b ?v))"
    by (simp add: decides_def admitted_def v bind_def seqs_def note_redis_ok_def ret_def split: sum.split option.split)
  show "call_counter c \<noteq> k \<Longrightarrow> sw_counts (snd (decides c w)) k = sw_counts w k"
    using within_elsewhere [of k ?E ?cat ?o _ _ _ _ ?v] vc unfolding d
    by (auto simp: call_counter_def call_time_def split: sum.split option.split)
  assume k: "call_counter c = k" and n: "counted k (call_bucket c + so_window ?o) n w"
  have win: "so_window ?o > 0" using assms by (simp add: strict_call_def)
  note bounds = bucket_bounds [OF win, of "call_time c", folded call_bucket_def]
  have n': "counted k (call_bucket c + so_window ?o) n ?v" using n vc by (simp add: counted_def)
  have "k = budget_key (ie_now ?E) ?cat (so_window ?o)" "ie_now ?E < of_int (call_bucket c + so_window ?o)"
    "of_int (call_bucket c + so_window ?o) \<le> ie_now ?E + of_int (so_window ?o)"
    using k bounds by (simp_all add: call_counter_def call_time_def)
  note step = budget_counted [OF n' this]
  show "(fst (decides c w) = Inr True \<longrightarrow> so_budget ?o = None) \<and> sw_counts (snd (decides c w)) = sw_counts w
      \<or> counted k (call_bucket c + so_window ?o) (n + 1) (snd (decides c w))
          \<and> (fst (decides c w) = Inr True \<longrightarrow> (\<exists>b. so_budget ?o = Some b \<and> n + 1 \<le> b))"
  proof (cases "a = Inr True \<and> so_budget ?o \<noteq> None")
    case True
    then obtain b where b: "so_budget ?o = Some b" by blast
    from step [where server = "sc_server c" and f = "sc_faults c" and body = "sc_body c" and b = b] True b vc show ?thesis unfolding d by auto
  qed (use vc in \<open>auto simp: d split: sum.split option.split\<close>)
qed

definition of_budget :: "string \<Rightarrow> int \<Rightarrow> int \<Rightarrow> sup_call \<Rightarrow> bool" where
  "of_budget category bucket budget c \<longleftrightarrow>
     ra_category (sc_args c) = category \<and> call_bucket c = bucket \<and> so_budget (sc_opts c) = Some budget"

definition counter_name :: "string \<Rightarrow> int \<Rightarrow> string" where
  "counter_name category bucket = ''incident:budget:'' @ category @ '':'' @ show_int bucket"

lemma counter_name: "call_counter c = counter_name category bucket \<longleftrightarrow> ra_category (sc_args c) = category \<and> call_bucket c = bucket"
proof -
  have "call_counter c = counter_name (ra_category (sc_args c)) (call_bucket c)"
    by (simp add: call_counter_def counter_name_def budget_key_def call_bucket_def)
  moreover have "counter_name a i = counter_name b j \<longleftrightarrow> a = b \<and> i = j" for a b i j
    using split_last [of a "CHR '':''" "show_int i" b "show_int j", OF _ show_int_no_colon show_int_no_colon]
    by (auto simp: counter_name_def show_int_inj)
  ultimately show ?thesis by simp
qed

lemma budget_filings:
  assumes "\<forall>c \<in> set cs. strict_call c \<and> (ra_category (sc_args c) = category \<longrightarrow> so_window (sc_opts c) = d)"
    "counted (counter_name category bucket) (bucket + d) n w"
  shows "int (length (filter (of_budget category bucket budget) (filings cs w))) \<le> max 0 (budget - n)"
  using assms
proof (induction cs arbitrary: n w)
  case (Cons c cs)
  let ?k = "counter_name category bucket" and ?w = "snd (call c w)"
  have strict: "strict_call c" using Cons.prems(1) by simp
  have cs: "\<forall>c \<in> set cs. strict_call c \<and> (ra_category (sc_args c) = category \<longrightarrow> so_window (sc_opts c) = d)" using Cons.prems(1) by simp
  show ?case
  proof (cases "call_counter c = ?k")
    case False
    then have "sw_counts ?w ?k = sw_counts w ?k" using decides_counts(1) [OF strict] by (simp add: call_limits)
    then have "counted ?k (bucket + d) n ?w" using Cons.prems(2) by (simp add: counted_def)
    moreover have "\<not> of_budget category bucket budget c" using False by (auto simp: of_budget_def counter_name)
    ultimately show ?thesis using Cons.IH [OF cs] by simp
  next
    case True
    then have c: "call_bucket c = bucket" "so_window (sc_opts c) = d" using Cons.prems(1) by (auto simp: counter_name)
    have filed: "fst (call c w) = Inr True \<Longrightarrow> fst (decides c w) = Inr True" by (rule call_filed [OF strict])
    consider (free) "fst (decides c w) = Inr True \<longrightarrow> so_budget (sc_opts c) = None" "sw_counts (snd (decides c w)) = sw_counts w"
      | (spent) "counted ?k (bucket + d) (n + 1) (snd (decides c w))"
          "fst (decides c w) = Inr True \<longrightarrow> (\<exists>b. so_budget (sc_opts c) = Some b \<and> n + 1 \<le> b)"
      using decides_counts(2) [OF strict True] Cons.prems(2) c by auto
    then show ?thesis
    proof cases
      case free
      then have "counted ?k (bucket + d) n ?w" using Cons.prems(2) counted_same [OF trans [OF call_limits(2) free(2)]] by simp
      from Cons.IH [OF cs this] free(1) filed show ?thesis by (auto simp: of_budget_def)
    next
      case spent
      have "counted ?k (bucket + d) (n + 1) ?w" using spent(1) counted_same [OF call_limits(2)] by simp
      from Cons.IH [OF cs this] spent(2) filed show ?thesis by (auto simp: of_budget_def)
    qed
  qed
qed simp

text \<open>In one bucket of time at most as many events of a category are filed as the budget says, whatever keys are used,
  when every call of the category has the same window and, unless it drops its event when Redis fails, finds
  Redis up.\<close>

theorem filings_within_budget:
  assumes "\<forall>c \<in> set cs. strict_call c \<and> (ra_category (sc_args c) = category \<longrightarrow> so_window (sc_opts c) = d)"
    "sw_counts w (counter_name category bucket) = None" "0 \<le> budget"
  shows "int (length (filter (of_budget category bucket budget) (filings cs w))) \<le> budget"
  using budget_filings [OF assms(1), of bucket 0 w budget] assms(2,3) by (simp add: counted_def)

section \<open>Runs and secrets\<close>

lemma on_incidents_inc: "sw_inc (snd (on_incidents m w)) = snd (m (sw_inc w))"
  by (simp add: on_incidents_def split: prod.split)

definition safe_call :: "sup_call \<Rightarrow> bool" where
  "safe_call c \<longleftrightarrow> clean_env (sc_env c) \<and> clean_args (sc_args c)"

definition clean_world :: "sup_world \<Rightarrow> bool" where
  "clean_world w \<longleftrightarrow> numbered (sw_inc w) \<and> clean_tables (sw_inc w)"

lemma clean_report: "clean_env E \<Longrightarrow> clean_args a \<Longrightarrow> keeps clean_world (on_incidents (file_report E server a req))"
  using report_numbered report_clean created_masked by (simp add: keeps_def clean_world_def on_incidents_inc file_report_def)

lemma clean_exhausted [keeps_intro]: "clean_env E \<Longrightarrow> keeps clean_world (report_budget_exhausted E server body category key)"
  unfolding report_budget_exhausted_def
  by (intro keeps_intro clean_report) (simp_all add: clean_args_def exhausted_args_def)

lemma clean_file: "clean_env E \<Longrightarrow> clean_args a \<Longrightarrow> keeps clean_world (file_event E server a req)"
  unfolding file_event_def by (intro keeps_intro clean_report)

lemma clean_limiters [keeps_intro]: "keeps clean_world (claim_flag up now k d)" "keeps clean_world (incr_count up now k)"
  "keeps clean_world (expire_count up now k d)" "keeps clean_world note_redis_ok" "keeps clean_world warn_redis_unavailable"
  by (auto simp: keeps_def clean_world_def claim_flag_def incr_count_def expire_count_def note_redis_ok_def warn_redis_unavailable_def
      redis_down_def throw_def split: option.split)

lemma clean_admitted: "clean_env E \<Longrightarrow> keeps clean_world (admitted E server f body opts category)"
  unfolding admitted_def within_budget_def Let_def by (intro keeps_intro)

lemma call_clean:
  assumes "safe_call c" shows "keeps clean_world (call c)"
proof -
  let ?adm = "admitted (sc_env c) (sc_server c) (sc_faults c) (sc_body c) (sc_opts c) (ra_category (sc_args c))"
  let ?file = "file_event (sc_env c) (sc_server c) (sc_args c) (sc_request c)"
  have files: "keeps clean_world ?file" using assms by (intro clean_file) (simp_all add: safe_call_def)
  have warn: "keeps clean_world (seqs warn_redis_unavailable ?file)" by (intro keeps_intro files)
  have adm: "keeps clean_world ?adm" using assms by (intro clean_admitted) (simp add: safe_call_def)
  show ?thesis
    unfolding keeps_def
  proof (intro allI impI)
    fix w :: sup_world assume w: "clean_world w"
    obtain r v where v: "?adm w = (r, v)" by fastforce
    have ok: "clean_world v" by (rule keepsD [OF adm w v])
    have "call c w = (case r of Inr b \<Rightarrow> if b then ?file v else (Inr False, v)
        | Inl e \<Rightarrow> if so_fail_open (sc_opts c) then seqs warn_redis_unavailable ?file v else (Inr False, v))"
      by (simp add: call_def report_event_suppressed_def v split: sum.split)
    then have "snd (call c w) \<in> {snd (?file v), snd (seqs warn_redis_unavailable ?file v), v}" by (auto split: sum.splits if_splits)
    then show "clean_world (snd (call c w))"
      by (elim insertE emptyE) (simp_all add: ok keeps_snd [OF files ok] keeps_snd [OF warn ok])
  qed
qed

text \<open>A report: through the limiters, or straight to \<open>report_event\<close>, for which the limits of the call do not count.\<close>

datatype report_call = Suppressed sup_call | Direct sup_call

fun run_report :: "report_call \<Rightarrow> sup_world \<Rightarrow> sup_world" where
  "run_report (Suppressed c) w = snd (call c w)"
| "run_report (Direct c) w = snd (on_incidents (file_report (sc_env c) (sc_server c) (sc_args c) (sc_request c)) w)"

fun safe_report :: "report_call \<Rightarrow> bool" where
  "safe_report (Suppressed c) = safe_call c"
| "safe_report (Direct c) = safe_call c"

text \<open>C38: Whatever reports come in through the reporter (\<open>report_event\<close> and \<open>report_event_suppressed\<close>, with any
  arguments, request, failures of Redis and rule sets), no row of an event or an incident holds a value under a
  sensitive key, at any depth, provided that no argument has a tuple inside a dict or list
  (\<open>tuples_keep_secrets\<close>) and that the names of groups and the locations of addresses hold no such entry. Rows
  that are written past the reporter, as the REST route of events does, are not covered.\<close>

theorem no_secret_stored:
  assumes "\<forall>r \<in> set rs. safe_report r" "numbered (sw_inc w)" "clean_tables (sw_inc w)"
  shows "clean_tables (sw_inc (fold run_report rs w))"
  using assms
proof (induction rs arbitrary: w)
  case (Cons r rs)
  have "clean_world (run_report r w)"
  proof (cases r)
    case (Suppressed c)
    with Cons.prems show ?thesis using keeps_snd [OF call_clean] by (simp add: clean_world_def)
  next
    case (Direct c)
    with Cons.prems show ?thesis using keeps_snd [OF clean_report] by (simp add: clean_world_def safe_call_def)
  qed
  with Cons show ?case by (simp add: clean_world_def)
qed simp

section \<open>Examples\<close>

definition sample_call :: "rat \<Rightarrow> string \<Rightarrow> redis_faults \<Rightarrow> sup_call" where
  "sample_call now key faults =
     \<lparr>sc_env = sample_env now, sc_server = ''web1'', sc_faults = faults, sc_body = (\<lambda>k. k),
      sc_opts = \<lparr>so_key = key, so_window = 3600, so_budget = Some 1, so_fail_open = False\<rparr>,
      sc_args = \<lparr>ra_details = ''refused'', ra_title = None, ra_category = ''oauth:host'', ra_level = 5, ra_scope = ''account'', ra_uid = None,
        ra_hostname = None, ra_model_name = None, ra_model_id = None, ra_source_ip = None, ra_group = Some None,
        ra_extra = [(''Token'', js (JStr ''abc'')), (''body'', js (JList [JObj [(''pin'', JInt 1234)]]))]\<rparr>, sc_request = None\<rparr>"

definition redis_up :: redis_faults where
  "redis_up = \<lparr>rf_set = True, rf_incr = True, rf_expire = True\<rparr>"

definition sample_calls :: "sup_call list" where
  "sample_calls = [sample_call 0 ''a'' redis_up, sample_call 10 ''a'' redis_up, sample_call 20 ''b'' (redis_up\<lparr>rf_expire := False\<rparr>),
     sample_call 30 ''c'' redis_up, sample_call 3700 ''a'' redis_up]"

definition sample_sup :: sup_world where
  "sample_sup = \<lparr>sw_flags = (\<lambda>k. None), sw_counts = (\<lambda>k. None), sw_warned = False, sw_inc = sample_world []\<rparr>"

theorem one_filing_per_window_witness:
  "sorted_wrt (\<lambda>c d. call_notice c = call_notice d \<longrightarrow> call_time c + call_window c \<le> call_time d) (filings sample_calls sample_sup)"
  by (rule one_filing_per_window) (simp_all add: sample_calls_def sample_call_def strict_call_def call_time_def sample_env_def)

theorem filings_within_budget_witness:
  "int (length (filter (of_budget ''oauth:host'' 0 1) (filings sample_calls sample_sup))) \<le> 1"
  by (rule filings_within_budget [of _ _ 3600]) (simp_all add: sample_calls_def sample_call_def strict_call_def sample_sup_def)

theorem no_secret_stored_witness:
  "clean_tables (sw_inc (fold run_report (map Suppressed sample_calls @ map Direct sample_calls) sample_sup))"
  by (rule no_secret_stored)
     (auto simp: sample_calls_def sample_call_def safe_call_def clean_env_def clean_args_def js_def sample_env_def
       numbered_def clean_tables_def sample_sup_def sample_world_def)

end
