(* ===== verification/Redirect_Allowlist.thy ===== *)
theory Redirect_Allowlist
  imports Py_Url Incident_Reporter
begin

text \<open>
  Where credentials may be sent (\<open>mojo/apps/account/services/redirect_allowlist.py\<close>, and the check of landing
  addresses in \<open>rest/oauth.py\<close>): parsing, entries and their matching, the sources of lists, the notices.
  Diagnostics go through the suppressed reporter of \<open>Incident_Reporter\<close>. The parser of JSON and the resolver of a
  deployment are parameters (\<open>hc_resolver\<close> is what loading its path gives); texts of messages are one function.
\<close>

section \<open>Parsing an address\<close>

type_synonym destination = "string \<times> string \<times> int option \<times> string"

definition SCHEMES :: "string list" where
  "SCHEMES = [''http'', ''https'']"

definition default_port :: "string \<Rightarrow> int" where
  "default_port scheme = (if scheme = ''https'' then 443 else 80)"

definition HOST_CHARS :: "string \<Rightarrow> bool" where
  "HOST_CHARS h \<longleftrightarrow> h \<noteq> [] \<and> list_all (\<lambda>c. is_lower c \<or> is_digit c \<or> c \<in> {CHR ''.'', CHR ''_'', CHR ''-''}) h"

definition SCHEME_CHARS :: "string \<Rightarrow> bool" where
  "SCHEME_CHARS s \<longleftrightarrow> s \<noteq> [] \<and> is_lower (hd s) \<and> list_all (\<lambda>c. is_lower c \<or> is_digit c \<or> c \<in> {CHR ''+'', CHR ''.'', CHR ''-''}) s"

definition SCRIPT_SCHEMES :: "string list" where
  "SCRIPT_SCHEMES = [''javascript'', ''data'', ''vbscript'']"

text \<open>\<open>re.sub("%2e", ".", path)\<close> without regard to case\<close>

fun decode_dots :: "string \<Rightarrow> string" where
  "decode_dots (a # b # c # s) =
     (if a = CHR ''%'' \<and> b = CHR ''2'' \<and> c \<in> {CHR ''e'', CHR ''E''} then CHR ''.'' # decode_dots s else a # decode_dots (b # c # s))"
| "decode_dots s = s"

definition has_dot_segment :: "string \<Rightarrow> bool" where
  "has_dot_segment path \<longleftrightarrow> (\<exists>seg \<in> set (split_on CHR ''/'' (decode_dots path)). seg \<in> {''.'', ''..''})"

definition split_custom_scheme :: "string \<Rightarrow> url_parts \<Rightarrow> destination option" where
  "split_custom_scheme scheme u =
     (if \<not> SCHEME_CHARS scheme \<or> scheme \<in> set SCRIPT_SCHEMES then None
      else if u_path u \<noteq> [] \<and> \<not> starts_with (u_path u) ''/'' then None
      else if u_netloc u = [] \<and> u_path u = [] then None
      else Some (scheme, lower (u_netloc u), None, if u_path u = [] then ''/'' else u_path u))"

definition split_web :: "bool \<Rightarrow> url_parts \<Rightarrow> destination option" where
  "split_web allow_wildcard u =
     (case u_port u of
        None \<Rightarrow> None
      | Some port \<Rightarrow>
         (let host = lower (u_hostname u); base = (if allow_wildcard \<and> starts_with host ''*.'' then drop 2 host else host) in
          if host = [] \<or> \<not> HOST_CHARS base then None
          else Some (u_scheme u, host, Some (case port of Some p \<Rightarrow> if p = 0 then default_port (u_scheme u) else p | None \<Rightarrow> default_port (u_scheme u)),
                     if u_path u = [] then ''/'' else u_path u)))"

definition split_text :: "(string \<Rightarrow> bool) \<Rightarrow> bool \<Rightarrow> string \<Rightarrow> destination option" where
  "split_text ip6 allow_wildcard s =
     (let raw = strip s in
      if CHR 0x5C \<in> set raw then None
      else (case urlsplit ip6 raw of
          None \<Rightarrow> None
        | Some u \<Rightarrow>
            if has_dot_segment (u_path u) then None
            else if u_scheme u \<in> set SCHEMES then split_web allow_wildcard u else split_custom_scheme (u_scheme u) u))"

fun split_url :: "(string \<Rightarrow> bool) \<Rightarrow> bool \<Rightarrow> json \<Rightarrow> destination option" where
  "split_url ip6 allow_wildcard (JStr s) = (if s = [] then None else split_text ip6 allow_wildcard s)"
| "split_url ip6 allow_wildcard v = None"

definition matchable_scheme :: "(string \<Rightarrow> bool) \<Rightarrow> json \<Rightarrow> string" where
  "matchable_scheme ip6 url = (case split_url ip6 False url of Some d \<Rightarrow> fst d | None \<Rightarrow> [])"

section \<open>Matching\<close>

definition host_matches :: "string \<Rightarrow> string \<Rightarrow> bool" where
  "host_matches pattern host =
     (if \<not> starts_with pattern ''*.'' then pattern = host
      else (let base = drop 2 pattern; suffix = CHR ''.'' # base in
        if base = [] then False
        else if host = base then True
        else if \<not> ends_with host suffix then False
        else (let label = take (length host - length suffix) host in label \<noteq> [] \<and> CHR ''.'' \<notin> set label)))"

fun dest_matches :: "destination \<Rightarrow> destination \<Rightarrow> bool" where
  "dest_matches (e_scheme, e_host, e_port, e_path) (c_scheme, c_host, c_port, c_path) =
     (if e_scheme \<noteq> c_scheme \<or> e_port \<noteq> c_port then False
      else if (if e_scheme \<in> set SCHEMES then \<not> host_matches e_host c_host else e_host \<noteq> c_host) then False
      else if c_path = e_path then True
      else if ends_with e_path ''/'' then starts_with c_path e_path
      else starts_with c_path (e_path @ ''/''))"

text \<open>The scan over the entries: whether one matches, and those that can never match\<close>

definition matches_entries :: "(string \<Rightarrow> bool) \<Rightarrow> bool \<Rightarrow> json list \<Rightarrow> json \<Rightarrow> bool" where
  "matches_entries ip6 allow_wildcard entries url =
     (case split_url ip6 False url of
        None \<Rightarrow> False
      | Some c \<Rightarrow> list_ex (\<lambda>e. case split_url ip6 allow_wildcard e of None \<Rightarrow> False | Some d \<Rightarrow> dest_matches d c) entries)"

definition unusable_entries :: "(string \<Rightarrow> bool) \<Rightarrow> bool \<Rightarrow> json list \<Rightarrow> json list" where
  "unusable_entries ip6 allow_wildcard entries = filter (\<lambda>e. split_url ip6 allow_wildcard e = None) entries"

section \<open>Diagnostics\<close>

text \<open>
  \<open>al_text\<close> gives the text of a message from its category, its key and the values it quotes;
  \<open>al_type\<close> is the name of the type of a value.
\<close>

record allow_env =
  al_inc :: inc_env
  al_server :: string
  al_faults :: redis_faults
  al_text :: "string \<Rightarrow> string \<Rightarrow> json list \<Rightarrow> string"
  al_budget_text :: "string \<Rightarrow> string"
  al_type :: "json \<Rightarrow> string"
  al_ip6 :: "string \<Rightarrow> bool"
  al_json :: "string \<Rightarrow> json option"
  al_request :: "report_request option"

definition CATEGORY_UNUSABLE_ENTRY :: string where
  "CATEGORY_UNUSABLE_ENTRY = ''auth:redirect_allowlist_unusable_entry''"

definition CATEGORY_TENANT_ENTRY :: string where
  "CATEGORY_TENANT_ENTRY = ''auth:redirect_allowlist_tenant_entry_unusable''"

definition CATEGORY_TENANT_SOURCE :: string where
  "CATEGORY_TENANT_SOURCE = ''auth:redirect_allowlist_tenant_source_unusable''"

definition CATEGORY_REDIRECT_REFUSED :: string where
  "CATEGORY_REDIRECT_REFUSED = ''auth:oauth_redirect_refused''"

definition allow_args :: "string \<Rightarrow> string \<Rightarrow> int \<Rightarrow> string \<Rightarrow> bool \<Rightarrow> (string \<times> extra) list \<Rightarrow> report_args" where
  "allow_args details title level category no_group xs =
     \<lparr>ra_details = details, ra_title = Some title, ra_category = category, ra_level = level, ra_scope = ''global'', ra_uid = None,
      ra_hostname = None, ra_model_name = None, ra_model_id = None, ra_source_ip = None, ra_group = (if no_group then Some None else None),
      ra_extra = xs\<rparr>"

definition RENOTIFY_SEC :: int where
  "RENOTIFY_SEC = 3600"

definition TENANT_BUDGET :: int where
  "TENANT_BUDGET = 25"

definition REFUSAL_BUDGET :: int where
  "REFUSAL_BUDGET = 50"

definition UNUSABLE_SAMPLES :: nat where
  "UNUSABLE_SAMPLES = 5"

definition file_suppressed :: "allow_env \<Rightarrow> string \<Rightarrow> int option \<Rightarrow> bool \<Rightarrow> report_args \<Rightarrow> report_request option \<Rightarrow> unit sact" where
  "file_suppressed A key budget fail_open args req =
     bind (report_event_suppressed (al_inc A) (al_server A) (al_faults A) (al_budget_text A)
       \<lparr>so_key = key, so_window = RENOTIFY_SEC, so_budget = budget, so_fail_open = fail_open\<rparr> args req) (\<lambda>_. ret ())"

definition warn_unusable_source :: "allow_env \<Rightarrow> string \<Rightarrow> json \<Rightarrow> unit sact" where
  "warn_unusable_source A source v =
     file_suppressed A source (Some TENANT_BUDGET) False
       (allow_args (al_text A CATEGORY_TENANT_SOURCE source [v]) (''Unusable tenant redirect allowlist source: '' @ source) 1 CATEGORY_TENANT_SOURCE False
          [(''allowlist_source'', js (JStr source)), (''value_type'', js (JStr (al_type A v)))]) None"

definition report_unusable_entries :: "allow_env \<Rightarrow> string \<Rightarrow> json list \<Rightarrow> nat \<Rightarrow> report_request option \<Rightarrow> bool \<Rightarrow> unit sact" where
  "report_unusable_entries A source samples total_count req tenant =
     (let xs = [(''allowlist_source'', js (JStr source)), (''unusable_total'', js (JInt (int total_count)))] in
      if tenant then
        file_suppressed A source (Some TENANT_BUDGET) False
          (allow_args (al_text A CATEGORY_TENANT_ENTRY source samples) (''Unusable tenant redirect allowlist entries: '' @ source) 1 CATEGORY_TENANT_ENTRY False xs) req
      else
        file_suppressed A source None True
          (allow_args (al_text A CATEGORY_UNUSABLE_ENTRY source samples) (''Unusable redirect allowlist entries: '' @ source) 3 CATEGORY_UNUSABLE_ENTRY True xs) req)"

definition matches_allowlist :: "allow_env \<Rightarrow> json \<Rightarrow> json list \<Rightarrow> string \<Rightarrow> bool \<Rightarrow> report_request option \<Rightarrow> bool \<Rightarrow> bool sact" where
  "matches_allowlist A url entries source allow_wildcard req tenant =
     (if split_url (al_ip6 A) False url = None then ret False
      else (let bad = unusable_entries (al_ip6 A) allow_wildcard entries; matched = matches_entries (al_ip6 A) allow_wildcard entries url in
        if bad = [] then ret matched
        else seqs (report_unusable_entries A source (take UNUSABLE_SAMPLES bad) (length bad) req tenant) (ret matched)))"

text \<open>\<open>parsed\<close> is the result of \<open>objict.from_json\<close> when it is a list.\<close>

definition comma_list :: "string \<Rightarrow> json list" where
  "comma_list s = map JStr (filter (\<lambda>x. x \<noteq> []) (map strip (split_on CHR '','' s)))"

fun coerce_entries :: "allow_env \<Rightarrow> json \<Rightarrow> string \<Rightarrow> json list sact" where
  "coerce_entries A (JList xs) source = ret xs"
| "coerce_entries A (JStr s) source =
     (if starts_with s ''['' \<and> ends_with s '']'' then
        (case al_json A s of Some (JList xs) \<Rightarrow> ret xs | _ \<Rightarrow> seqs (warn_unusable_source A source (JStr s)) (ret []))
      else ret (comma_list s))"
| "coerce_entries A v source = (if truthy v then seqs (warn_unusable_source A source v) (ret []) else ret [])"

text \<open>\<open>settings.get(name, [], kind="list")\<close>\<close>

fun setting_list :: "allow_env \<Rightarrow> json \<Rightarrow> json list" where
  "setting_list A (JList xs) = xs"
| "setting_list A (JStr s) =
     (if starts_with s ''['' \<and> ends_with s '']'' then (case al_json A s of Some (JList xs) \<Rightarrow> xs | _ \<Rightarrow> []) else comma_list s)"
| "setting_list A v = []"

section \<open>Handoff destinations\<close>

record handoff_conf =
  hc_resolver_path :: string
  hc_resolver :: "string \<Rightarrow> (string \<Rightarrow> report_request option \<Rightarrow> bool res) option"
  hc_allowed :: "json option"

definition is_enforced :: "handoff_conf \<Rightarrow> bool" where
  "is_enforced C \<longleftrightarrow> hc_resolver_path C \<noteq> [] \<or> (case hc_allowed C of None \<Rightarrow> False | Some v \<Rightarrow> v \<noteq> JNull)"

definition get_resolver :: "handoff_conf \<Rightarrow> bool \<times> (string \<Rightarrow> report_request option \<Rightarrow> bool res) option" where
  "get_resolver C = (if hc_resolver_path C = [] then (False, None) else (True, hc_resolver C (hc_resolver_path C)))"

definition matches_static_list :: "allow_env \<Rightarrow> handoff_conf \<Rightarrow> json \<Rightarrow> bool sact" where
  "matches_static_list A C url =
     (if split_url (al_ip6 A) False url = None then ret False
      else matches_allowlist A url (case hc_allowed C of None \<Rightarrow> [] | Some v \<Rightarrow> setting_list A v) ''AUTH_HANDOFF_ALLOWED_URLS'' True None False)"

definition is_allowed_destination :: "allow_env \<Rightarrow> handoff_conf \<Rightarrow> json \<Rightarrow> bool sact" where
  "is_allowed_destination A C url =
     (case url of
        JStr s \<Rightarrow>
          if s = [] then ret False
          else (case get_resolver C of
              (True, None) \<Rightarrow> ret False
            | (True, Some fn) \<Rightarrow> ret (case fn s (al_request A) of Inr b \<Rightarrow> b | Inl e \<Rightarrow> False)
            | (False, _) \<Rightarrow> matches_static_list A C url)
      | _ \<Rightarrow> ret False)"

section \<open>Landing addresses of social login\<close>

definition report_refused_redirect_uri :: "allow_env \<Rightarrow> json \<Rightarrow> unit sact" where
  "report_refused_redirect_uri A url =
     (let host = (case split_url (al_ip6 A) False url of Some (_, h, _) \<Rightarrow> h | None \<Rightarrow> ''unparsable'');
          key = (if host = [] then ''unparsable'' else host) in
      file_suppressed A key (Some REFUSAL_BUDGET) False
        (allow_args (al_text A CATEGORY_REDIRECT_REFUSED key [url]) (''Refused OAuth redirect_uri: '' @ key) 3 CATEGORY_REDIRECT_REFUSED False
          [(''redirect_uri'', js url), (''redirect_host'', js (JStr host))]) (al_request A))"

text \<open>The group of the request, with the value its chain of parents gives for \<open>allowed_redirect_urls\<close>\<close>

definition group_source :: "int \<Rightarrow> string" where
  "group_source pk = ''group:'' @ show_int pk"

definition group_entries :: "allow_env \<Rightarrow> (int \<times> json) option \<Rightarrow> json list sact" where
  "group_entries A grp =
     (case grp of None \<Rightarrow> ret [] | Some (pk, v) \<Rightarrow> if truthy v then coerce_entries A v (group_source pk) else ret [])"

definition validate_landing :: "allow_env \<Rightarrow> json \<Rightarrow> (int \<times> json) option \<Rightarrow> json \<Rightarrow> unit sact" where
  "validate_landing A setting grp url =
     (let deployment = setting_list A setting in
      bind (group_entries A grp) (\<lambda>own.
      if deployment = [] \<and> own = [] then throw (ValueError ''redirect_uri is not permitted: no ALLOWED_REDIRECT_URLS configured'')
      else bind (matches_allowlist A url deployment ''ALLOWED_REDIRECT_URLS'' False (al_request A) False) (\<lambda>ok.
      if ok then ret ()
      else bind (case grp of Some (pk, _) \<Rightarrow> if own = [] then ret False else matches_allowlist A url own (group_source pk) False (al_request A) True
                 | None \<Rightarrow> ret False) (\<lambda>ok.
      if ok then ret ()
      else seqs (report_refused_redirect_uri A url) (throw (ValueError ''redirect_uri is not on the allowlist''))))))"

end
