(* ===== verification/Redirect_Laws.thy ===== *)
theory Redirect_Laws
  imports Redirect_Allowlist
begin

text \<open>
  What the allowlist guarantees against a browser: \<open>browser_authority\<close> and \<open>browser_path\<close> are how the URL
  standard reads an address, with the dot segments resolved. An address that is admitted leads, in the
  browser, to a place under the entry that admitted it.
\<close>

section \<open>How a browser reads an address\<close>

definition single_dot :: "string \<Rightarrow> bool" where
  "single_dot seg \<longleftrightarrow> lower seg \<in> {''.'', ''%2e''}"

definition double_dot :: "string \<Rightarrow> bool" where
  "double_dot seg \<longleftrightarrow> lower seg \<in> {''..'', ''.%2e'', ''%2e.'', ''%2e%2e''}"

text \<open>The path state machine of the standard: the segments to come and those kept, the last one first\<close>

fun browse :: "string list \<Rightarrow> string list \<Rightarrow> string list" where
  "browse [] kept = rev kept"
| "browse [s] kept = (if double_dot s then rev ([] # tl kept) else if single_dot s then rev ([] # kept) else rev (s # kept))"
| "browse (s # t # ss) kept =
     (if double_dot s then browse (t # ss) (tl kept) else if single_dot s then browse (t # ss) kept else browse (t # ss) (s # kept))"

definition browser_path :: "string \<Rightarrow> string" where
  "browser_path p = (case p of [] \<Rightarrow> ''/'' | c # r \<Rightarrow> if c = CHR ''/'' then CHR ''/'' # join_with ''/'' (browse (split_on CHR ''/'' r) []) else p)"

text \<open>Control characters and spaces at both ends, tabs and line breaks anywhere are dropped.\<close>

definition browser_clean :: "string \<Rightarrow> string" where
  "browser_clean s =
     (let ends = dropWhile (\<lambda>c. (of_char c :: nat) \<le> 32) in filter (\<lambda>c. (of_char c :: nat) \<notin> {9, 10, 13}) (rev (ends (rev (ends s)))))"

text \<open>
  What follows the scheme: the authority and the path. The backslash is a slash for web addresses, and for an
  address without a scheme, whose two slashes are read against the web page it stands on.
\<close>

definition slashy :: "char \<Rightarrow> bool" where
  "slashy c \<longleftrightarrow> c = CHR ''/'' \<or> c = CHR 0x5C"

definition web_like :: "string \<Rightarrow> string \<Rightarrow> bool" where
  "web_like scheme rest \<longleftrightarrow> scheme \<in> set SCHEMES \<or> scheme = [] \<and> (case rest of a # b # _ \<Rightarrow> slashy a \<and> slashy b | _ \<Rightarrow> False)"

definition browser_authority :: "string \<Rightarrow> string \<times> string" where
  "browser_authority s =
     (case split_scheme (browser_clean s) of (scheme, rest) \<Rightarrow>
      if web_like scheme rest then
        (let r = dropWhile (\<lambda>c. c = CHR ''/'' \<or> c = CHR 0x5C) rest; ends = (\<lambda>c. netloc_end c \<or> c = CHR 0x5C) in
         (takeWhile (\<lambda>c. \<not> ends c) r, map (\<lambda>c. if c = CHR 0x5C then CHR ''/'' else c) (takeWhile (\<lambda>c. c \<noteq> CHR ''?'' \<and> c \<noteq> CHR ''#'') (dropWhile (\<lambda>c. \<not> ends c) r))))
      else if starts_with rest ''//'' then
        (takeWhile (\<lambda>c. \<not> netloc_end c) (drop 2 rest), takeWhile (\<lambda>c. c \<noteq> CHR ''?'' \<and> c \<noteq> CHR ''#'') (dropWhile (\<lambda>c. \<not> netloc_end c) (drop 2 rest)))
      else ([], takeWhile (\<lambda>c. c \<noteq> CHR ''?'' \<and> c \<noteq> CHR ''#'') rest))"

section \<open>Dot segments\<close>

lemma split_decode: "split_on CHR ''/'' (decode_dots s) = map decode_dots (split_on CHR ''/'' s)"
proof (induction s rule: decode_dots.induct)
  case (1 a b c s)
  show ?case
  proof (cases "a = CHR ''%'' \<and> b = CHR ''2'' \<and> c \<in> {CHR ''e'', CHR ''E''}")
    case True
    with 1 show ?thesis by (cases "split_on CHR ''/'' s") auto
  next
    case False
    with 1 have ih: "split_on CHR ''/'' (decode_dots (b # c # s)) = map decode_dots (split_on CHR ''/'' (b # c # s))" by simp
    obtain p ps where p: "split_on CHR ''/'' (b # c # s) = p # ps" by (metis neq_Nil_conv split_on_not_Nil)
    have "decode_dots (a # p) = a # decode_dots p" if "a \<noteq> CHR ''/''"
    proof (cases p rule: remdups_adj.cases)
      case (3 x y q)
      then have "x = b \<and> y = c" using p by (auto split: if_splits list.splits)
      with False 3 show ?thesis by auto
    qed (auto split: if_splits)
    moreover have d: "decode_dots (a # b # c # s) = a # decode_dots (b # c # s)" using False by auto
    ultimately show ?thesis
      unfolding d split_on.simps(2) [of "CHR ''/''" a "decode_dots (b # c # s)"] split_on.simps(2) [of "CHR ''/''" a "b # c # s"] ih p by simp
  qed
qed auto

lemma decode_dot_Cons:
  "decode_dots s = CHR ''.'' # t \<Longrightarrow> \<exists>r. decode_dots r = t \<and> (s = CHR ''.'' # r \<or> s = CHR ''%'' # CHR ''2'' # CHR ''e'' # r \<or> s = CHR ''%'' # CHR ''2'' # CHR ''E'' # r)"
  by (cases s rule: decode_dots.cases) (auto split: if_splits)

lemma decode_dots_Nil [simp]: "decode_dots s = [] \<longleftrightarrow> s = []"
  by (cases s rule: decode_dots.cases) auto

lemma lower_char_iff: "lower_char c = d \<longleftrightarrow> (if is_upper c then (of_char c :: nat) + 32 = of_char d else c = d)"
proof (cases "is_upper c")
  case True
  then have "(of_char (char_of ((of_char c :: nat) + 32)) :: nat) = of_char c + 32" by (simp add: is_upper_def)
  then show ?thesis using True by (metis lower_char_def of_char_eq_iff)
qed (simp add: lower_char_def)

lemma upper_E: "(of_char c :: nat) = 69 \<Longrightarrow> c = CHR ''E''"
proof -
  have "char_of (69 :: nat) = CHR ''E''" by code_simp
  then show "(of_char c :: nat) = 69 \<Longrightarrow> c = CHR ''E''" by (metis char_of_char)
qed

lemma lower_chars: "lower_char c = CHR ''.'' \<longleftrightarrow> c = CHR ''.''" "lower_char c = CHR ''%'' \<longleftrightarrow> c = CHR ''%''"
  "lower_char c = CHR ''2'' \<longleftrightarrow> c = CHR ''2''" "lower_char c = CHR ''e'' \<longleftrightarrow> c = CHR ''e'' \<or> c = CHR ''E''"
  using upper_E [of c] by (auto simp: lower_char_iff is_upper_def)

text \<open>The check finds exactly the segments that a browser resolves.\<close>

lemma decoded_segment: "decode_dots seg \<in> {''.'', ''..''} \<longleftrightarrow> single_dot seg \<or> double_dot seg"
proof
  assume "decode_dots seg \<in> {''.'', ''..''}"
  then show "single_dot seg \<or> double_dot seg"
    by (auto dest!: decode_dot_Cons simp: single_dot_def double_dot_def lower_def) (auto simp: lower_chars)
next
  assume "single_dot seg \<or> double_dot seg"
  then show "decode_dots seg \<in> {''.'', ''..''}"
    by (auto simp: single_dot_def double_dot_def lower_def map_eq_Cons_conv lower_chars)
qed

lemma has_dot_segment_iff: "has_dot_segment p \<longleftrightarrow> (\<exists>seg \<in> set (split_on CHR ''/'' p). single_dot seg \<or> double_dot seg)"
  using decoded_segment by (auto simp: has_dot_segment_def split_decode)

lemma browse_plain: "\<forall>s \<in> set segs. \<not> single_dot s \<and> \<not> double_dot s \<Longrightarrow> browse segs kept = rev kept @ segs"
  by (induction segs kept rule: browse.induct) auto

text \<open>A browser leaves a path without dot segments as it is.\<close>

lemma browser_path_plain:
  assumes "\<not> has_dot_segment p" "p = [] \<or> starts_with p ''/''"
  shows "browser_path p = (if p = [] then ''/'' else p)"
proof (cases p)
  case (Cons c r)
  then have c: "c = CHR ''/''" using assms(2) by (simp add: starts_with_def)
  then have "\<forall>s \<in> set (split_on CHR ''/'' r). \<not> single_dot s \<and> \<not> double_dot s"
    using assms(1) Cons by (auto simp: has_dot_segment_iff)
  from browse_plain [OF this, of "[]"] c Cons show ?thesis by (simp add: browser_path_def join_split)
qed (simp add: browser_path_def)

section \<open>Reading the same address\<close>

text \<open>No control character: what a line of text has\<close>

definition no_controls :: "string \<Rightarrow> bool" where
  "no_controls s \<longleftrightarrow> (\<forall>c \<in> set s. 32 \<le> (of_char c :: nat))"

lemma space_32: "32 \<le> (of_char c :: nat) \<Longrightarrow> is_space c \<longleftrightarrow> (of_char c :: nat) \<le> 32"
  by (auto simp: is_space_def)

lemma dropWhile_space: "no_controls s \<Longrightarrow> dropWhile is_space s = dropWhile (\<lambda>c. (of_char c :: nat) \<le> 32) s"
  by (rule dropWhile_cong) (auto simp: no_controls_def space_32)

lemma no_controls_dropWhile: "no_controls s \<Longrightarrow> no_controls (dropWhile P s)" "no_controls s \<Longrightarrow> no_controls (rev s)"
  by (auto simp: no_controls_def dest: set_dropWhileD)

lemma no_controls_filter: "no_controls s \<Longrightarrow> filter (\<lambda>c. (of_char c :: nat) \<notin> {9, 10, 13}) s = s"
  by (rule filter_True) (auto simp: no_controls_def)

lemma clean_strip: "no_controls s \<Longrightarrow> browser_clean s = strip s"
proof -
  assume n: "no_controls s"
  then have st: "strip s = rev (dropWhile (\<lambda>c. (of_char c :: nat) \<le> 32) (rev (dropWhile (\<lambda>c. (of_char c :: nat) \<le> 32) s)))"
    by (simp add: strip_def dropWhile_space no_controls_dropWhile)
  have "no_controls (strip s)" using n unfolding st by (intro no_controls_dropWhile)
  from no_controls_filter [OF this] show ?thesis unfolding browser_clean_def Let_def st [symmetric] .
qed

lemma drop_ends: "dropWhile P (rev (dropWhile P (rev (dropWhile P s)))) = rev (dropWhile P (rev (dropWhile P s)))"
proof (cases "dropWhile P s")
  case (Cons x xs)
  then have x: "\<not> P x" by (metis hd_dropWhile list.distinct(1) list.sel(1))
  have "rev (dropWhile P (rev (x # xs))) = x # rev (dropWhile P (rev xs))"
    using x by (simp add: dropWhile_append)
  then show ?thesis using x Cons by simp
next
  case Nil
  then show ?thesis by (simp only: rev.simps dropWhile.simps)
qed

lemma url_clean_strip: "no_controls s \<Longrightarrow> url_clean (strip s) = strip s"
proof -
  assume n: "no_controls s"
  then have st: "strip s = rev (dropWhile is_space (rev (dropWhile is_space s)))" by (simp add: strip_def)
  have ns: "no_controls (strip s)" using n unfolding st by (intro no_controls_dropWhile)
  have "dropWhile is_space (strip s) = strip s" unfolding st by (rule drop_ends)
  then show ?thesis using dropWhile_space [OF ns] no_controls_filter [OF ns] by (simp add: url_clean_def)
qed

lemma partition_fst: "fst (partition_at c s) = takeWhile (\<lambda>x. x \<noteq> c) s"
proof (cases "c \<in> set s")
  case False
  then have "takeWhile (\<lambda>x. x \<noteq> c) s = s" unfolding takeWhile_eq_all_conv by blast
  then show ?thesis using False by (simp only: partition_at_def split_first_def if_False option.case fst_conv)
qed (simp add: partition_at_def split_first_def)

lemma takeWhile_both: "takeWhile P (takeWhile Q s) = takeWhile (\<lambda>x. Q x \<and> P x) s"
  by (induction s) auto

lemma path_cut: "takeWhile (\<lambda>x. x \<noteq> CHR ''?'') (takeWhile (\<lambda>x. x \<noteq> CHR ''#'') s) = takeWhile (\<lambda>c. c \<noteq> CHR ''?'' \<and> c \<noteq> CHR ''#'') s"
  unfolding takeWhile_both by (rule arg_cong2 [of _ _ _ _ takeWhile]) auto

text \<open>The fields of \<open>urlsplit\<close>\<close>

lemma urlsplit_fields:
  assumes "urlsplit ip6 s = Some u" "split_scheme (url_clean s) = (scheme, rest)"
  shows "u_scheme u = scheme"
    and "u_netloc u = (if starts_with rest ''//'' then takeWhile (\<lambda>c. \<not> netloc_end c) (drop 2 rest) else [])"
    and "u_path u = takeWhile (\<lambda>c. c \<noteq> CHR ''?'' \<and> c \<noteq> CHR ''#'')
          (if starts_with rest ''//'' then dropWhile (\<lambda>c. \<not> netloc_end c) (drop 2 rest) else rest)"
  using assms path_cut [symmetric] partition_fst
  by (auto simp: urlsplit_def Let_def split: if_splits prod.splits) (metis fst_conv)+

lemma hostinfo_Nil: "u_netloc u = [] \<Longrightarrow> hostinfo u = ([], [])"
  by (simp add: hostinfo_def partition_at_def rpartition_at_def split_first_def split_last_def)

lemma web_netloc: "split_web wild u = Some d \<Longrightarrow> u_netloc u \<noteq> []"
proof
  assume w: "split_web wild u = Some d" and n: "u_netloc u = []"
  have "u_hostname u = []" by (simp add: u_hostname_def hostinfo_Nil [OF n] partition_at_def split_first_def lower_def)
  with w show False by (simp add: split_web_def lower_def Let_def split: option.splits)
qed

lemma takeWhile_slash: "CHR 0x5C \<notin> set s \<Longrightarrow> takeWhile (\<lambda>c. \<not> (netloc_end c \<or> c = CHR 0x5C)) s = takeWhile (\<lambda>c. \<not> netloc_end c) s"
  by (induction s) auto

lemma dropWhile_slash: "CHR 0x5C \<notin> set s \<Longrightarrow> dropWhile (\<lambda>c. \<not> (netloc_end c \<or> c = CHR 0x5C)) s = dropWhile (\<lambda>c. \<not> netloc_end c) s"
  by (induction s) auto

lemma partition_snd: "split_first c s = Some (a, b) \<Longrightarrow> set b \<subseteq> set s"
  by (auto simp: split_first_def Let_def split: if_splits dest!: list.set_sel(2) [rotated] dest: set_dropWhileD in_set_dropD)

lemma scheme_rest: "split_scheme s = (scheme, rest) \<Longrightarrow> set rest \<subseteq> set s"
  using partition_snd by (fastforce simp: split_scheme_def split: option.splits if_splits prod.splits)

text \<open>A browser reads the authority and the path that \<open>urlsplit\<close> finds, if there is no backslash and no empty authority.\<close>

lemma authority_agrees:
  assumes n: "no_controls s" and u: "urlsplit ip6 (strip s) = Some u" and nbs: "CHR 0x5C \<notin> set (strip s)"
    and net: "u_netloc u \<noteq> [] \<or> u_scheme u \<notin> set ([] # SCHEMES)"
  shows "browser_authority s = (u_netloc u, u_path u)"
proof -
  obtain scheme rest where rest: "split_scheme (strip s) = (scheme, rest)" by fastforce
  note fields = urlsplit_fields [OF u, unfolded url_clean_strip [OF n], OF rest]
  show ?thesis
  proof (cases "web_like scheme rest")
    case False
    then show ?thesis by (simp add: browser_authority_def clean_strip [OF n] rest fields(2,3))
  next
    case True
    then have ne: "u_netloc u \<noteq> []" using net fields(1) by (auto simp: web_like_def)
    then have two: "starts_with rest ''//''" using fields(2) by (auto split: if_splits)
    then obtain r where r: "rest = ''//'' @ r" by (auto simp: starts_with_iff)
    from ne fields(2) two r obtain c q where c: "r = c # q" "\<not> netloc_end c" by (cases r) (auto split: if_splits)
    then have "c \<noteq> CHR ''/''" by (auto simp: netloc_end_def)
    moreover have nbr: "CHR 0x5C \<notin> set r" using scheme_rest [OF rest] nbs r by auto
    ultimately have dr: "dropWhile (\<lambda>c. c = CHR ''/'' \<or> c = CHR 0x5C) rest = r" "dropWhile (\<lambda>c. c = CHR ''/'' \<or> c = CHR 0x5C) r = r" using r c by auto
    have np: "CHR 0x5C \<notin> set (u_path u)"
      using nbr two r fields(3) by (auto dest!: set_takeWhileD set_dropWhileD)
    have "map (\<lambda>c. if c = CHR 0x5C then CHR ''/'' else c) (u_path u) = u_path u" using np by (intro map_idI) auto
    then show ?thesis
      using True two r fields(2,3) takeWhile_slash [OF nbr] dropWhile_slash [OF nbr]
      by (simp add: browser_authority_def clean_strip [OF n] rest dr Let_def)
  qed
qed

text \<open>What the matcher compares\<close>

lemma browser_agrees:
  assumes "no_controls s" "split_text ip6 wild s = Some (scheme, host, port, path)"
  shows "\<exists>u. urlsplit ip6 (strip s) = Some u \<and> u_scheme u = scheme \<and> browser_authority s = (u_netloc u, u_path u)
    \<and> \<not> has_dot_segment (u_path u) \<and> path = (if u_path u = [] then ''/'' else u_path u)
    \<and> (if scheme \<in> set SCHEMES then split_web wild u else split_custom_scheme scheme u) = Some (scheme, host, port, path)"
proof -
  obtain u where u: "urlsplit ip6 (strip s) = Some u" and dots: "\<not> has_dot_segment (u_path u)" and nbs: "CHR 0x5C \<notin> set (strip s)"
    and split: "(if u_scheme u \<in> set SCHEMES then split_web wild u else split_custom_scheme (u_scheme u) u) = Some (scheme, host, port, path)"
    using assms(2) by (auto simp: split_text_def Let_def split: if_splits option.splits)
  then have sch: "u_scheme u = scheme" and path: "path = (if u_path u = [] then ''/'' else u_path u)"
    by (auto simp: split_web_def split_custom_scheme_def Let_def split: if_splits option.splits)
  have "u_netloc u \<noteq> [] \<or> u_scheme u \<notin> set ([] # SCHEMES)"
    using split web_netloc [of wild u] by (auto simp: split_custom_scheme_def SCHEME_CHARS_def split: if_splits)
  with u sch dots path split authority_agrees [OF assms(1) u nbs] show ?thesis by auto
qed

section \<open>Where an admitted address leads\<close>

text \<open>The host and the port a browser connects to, \<open>None\<close> for a bracketed host\<close>

definition browser_host :: "string \<Rightarrow> string option" where
  "browser_host auth =
     (let h = snd (snd (rpartition_at CHR ''@'' auth)) in
      if CHR ''['' \<in> set h then None else Some (lower (fst (partition_at CHR '':'' h))))"

definition browser_port :: "string \<Rightarrow> string \<Rightarrow> int" where
  "browser_port scheme auth =
     (let p = snd (snd (partition_at CHR '':'' (snd (snd (rpartition_at CHR ''@'' auth))))) in
      if p = [] then default_port scheme else int (read_digits p))"

text \<open>A pattern covers its host, or with a star the base and one label in front of it.\<close>

definition covers_host :: "string \<Rightarrow> string \<Rightarrow> bool" where
  "covers_host pattern host \<longleftrightarrow>
     (if starts_with pattern ''*.''
      then (\<exists>base. pattern = ''*.'' @ base \<and> base \<noteq> []
              \<and> (host = base \<or> (\<exists>label. label \<noteq> [] \<and> CHR ''.'' \<notin> set label \<and> host = label @ ''.'' @ base)))
      else host = pattern)"

definition under_path :: "string \<Rightarrow> string \<Rightarrow> bool" where
  "under_path base p \<longleftrightarrow> p = base \<or> (\<exists>rest. p = (if ends_with base ''/'' then base else base @ ''/'') @ rest)"

lemma host_matches_iff: "host_matches pattern host \<longleftrightarrow> covers_host pattern host"
proof (cases "starts_with pattern ''*.''")
  case True
  then obtain base where p: "pattern = ''*.'' @ base" by (auto simp: starts_with_iff)
  have "(\<exists>label. label \<noteq> [] \<and> CHR ''.'' \<notin> set label \<and> host = label @ ''.'' @ base)
    \<longleftrightarrow> ends_with host (''.'' @ base) \<and> take (length host - length (''.'' @ base)) host \<noteq> [] \<and> CHR ''.'' \<notin> set (take (length host - length (''.'' @ base)) host)"
    (is "?l \<longleftrightarrow> ?r")
  proof
    assume ?l
    then obtain label where "label \<noteq> [] \<and> CHR ''.'' \<notin> set label \<and> host = label @ ''.'' @ base" by blast
    then show ?r by (simp add: ends_with_iff)
  next
    assume r: ?r
    then obtain label where "host = label @ (''.'' @ base)" by (auto simp: ends_with_iff)
    with r show ?l by (intro exI [of _ label]) simp
  qed
  then show ?thesis using True by (auto simp: host_matches_def covers_host_def p Let_def)
qed (auto simp: host_matches_def covers_host_def)

lemma hostinfo_plain: "CHR ''['' \<notin> set (snd (snd (rpartition_at CHR ''@'' (u_netloc u)))) \<Longrightarrow>
    hostinfo u = (case partition_at CHR '':'' (snd (snd (rpartition_at CHR ''@'' (u_netloc u)))) of (host, _, port) \<Rightarrow> (host, port))"
  by (simp add: hostinfo_def partition_at_def [of "CHR ''[''"] split_first_def [of "CHR ''[''"] Let_def)

lemma host_chars_percent: "HOST_CHARS h \<Longrightarrow> CHR ''%'' \<notin> set h"
  by (auto simp: HOST_CHARS_def list_all_iff is_lower_def is_digit_def)

lemma lower_percent: "CHR ''%'' \<in> set (lower s) \<longleftrightarrow> CHR ''%'' \<in> set s"
  by (auto simp: lower_def lower_chars image_iff) (metis lower_chars(2))+

lemma web_fields:
  assumes "split_web False u = Some (scheme, host, port, path)"
  shows "host = lower (u_hostname u)" "CHR ''%'' \<notin> set (u_hostname u)" "scheme = u_scheme u"
    "\<exists>p. u_port u = Some p \<and> port = Some (case p of Some n \<Rightarrow> if n = 0 then default_port scheme else n | None \<Rightarrow> default_port scheme)"
  using assms host_chars_percent [of "lower (u_hostname u)"]
  by (auto simp: split_web_def Let_def lower_percent split: option.splits if_splits)

lemma lower_twice [simp]: "lower (lower s) = lower s"
  by (simp add: lower_def lower_char_def is_upper_def)

lemma web_host:
  assumes "split_web False u = Some (scheme, host, port, path)" "browser_host (u_netloc u) = Some h"
  shows "h = host"
proof -
  let ?h = "snd (snd (rpartition_at CHR ''@'' (u_netloc u)))"
  have plain: "CHR ''['' \<notin> set ?h" and h: "h = lower (fst (partition_at CHR '':'' ?h))"
    using assms(2) by (auto simp: browser_host_def Let_def split: if_splits)
  have host: "fst (hostinfo u) = fst (partition_at CHR '':'' ?h)" using hostinfo_plain [OF plain] by (simp split: prod.splits)
  show ?thesis
    using web_fields(1,2) [OF assms(1)] unfolding h host [symmetric] u_hostname_def
    by (auto simp: partition_at_def split_first_def split: if_splits)
qed

lemma web_port:
  assumes "split_web False u = Some (scheme, host, port, path)" "browser_host (u_netloc u) \<noteq> None"
  shows "port = Some (browser_port scheme (u_netloc u)) \<or> browser_port scheme (u_netloc u) = 0"
proof -
  let ?h = "snd (snd (rpartition_at CHR ''@'' (u_netloc u)))"
  have plain: "CHR ''['' \<notin> set ?h" using assms(2) by (auto simp: browser_host_def Let_def split: if_splits)
  have p: "snd (hostinfo u) = snd (snd (partition_at CHR '':'' ?h))" using hostinfo_plain [OF plain] by (simp split: prod.splits)
  show ?thesis
    using web_fields(4) [OF assms(1)] by (auto simp: u_port_def p browser_port_def Let_def split: if_splits)
qed

lemma path_after_netloc:
  "takeWhile (\<lambda>c. c \<noteq> CHR ''?'' \<and> c \<noteq> CHR ''#'') (dropWhile (\<lambda>c. \<not> netloc_end c) r) = []
   \<or> starts_with (takeWhile (\<lambda>c. c \<noteq> CHR ''?'' \<and> c \<noteq> CHR ''#'') (dropWhile (\<lambda>c. \<not> netloc_end c) r)) ''/''"
  by (induction r) (auto simp: netloc_end_def starts_with_def)

lemma path_start:
  assumes "(if scheme \<in> set SCHEMES then split_web False u else split_custom_scheme scheme u) = Some (scheme, host, port, path)"
    and "urlsplit ip6 s = Some u"
  shows "u_path u = [] \<or> starts_with (u_path u) ''/''"
proof (cases "scheme \<in> set SCHEMES")
  case True
  then have "u_netloc u \<noteq> []" using assms(1) web_netloc by simp
  moreover obtain sc rest where rest: "split_scheme (url_clean s) = (sc, rest)" by fastforce
  ultimately have "u_path u = takeWhile (\<lambda>c. c \<noteq> CHR ''?'' \<and> c \<noteq> CHR ''#'') (dropWhile (\<lambda>c. \<not> netloc_end c) (drop 2 rest))"
    using urlsplit_fields(2,3) [OF assms(2) rest] by (simp split: if_splits)
  then show ?thesis using path_after_netloc by simp
qed (use assms(1) in \<open>auto simp: split_custom_scheme_def split: if_splits\<close>)

lemma entry_path: "dest_matches (s, h, p, base) (s', h', p', path) \<Longrightarrow> under_path base path"
  by (auto simp: under_path_def starts_with_iff split: if_splits)

lemma matches_entriesD:
  assumes "matches_entries ip6 wild entries (JStr url)"
  shows "\<exists>c d. \<exists>e \<in> set entries. split_text ip6 False url = Some c \<and> split_url ip6 wild e = Some d \<and> dest_matches d c"
proof -
  obtain c where c: "split_url ip6 False (JStr url) = Some c"
    and m: "list_ex (\<lambda>e. case split_url ip6 wild e of None \<Rightarrow> False | Some d \<Rightarrow> dest_matches d c) entries"
    using assms unfolding matches_entries_def by (cases "split_url ip6 False (JStr url)") simp_all
  obtain e where e: "e \<in> set entries" and me: "case split_url ip6 wild e of None \<Rightarrow> False | Some d \<Rightarrow> dest_matches d c"
    using m unfolding list_ex_iff by blast
  obtain d where "split_url ip6 wild e = Some d" "dest_matches d c" using me by (cases "split_url ip6 wild e") simp_all
  moreover have "split_text ip6 False url = Some c" using c by (simp split: if_splits)
  ultimately show ?thesis using e by blast
qed

text \<open>What an entry stands for: where a browser may be sent\<close>

fun reaches_entry :: "destination \<Rightarrow> string \<Rightarrow> bool" where
  "reaches_entry (scheme, pattern, port, base) url \<longleftrightarrow>
     (case browser_authority url of (auth, path) \<Rightarrow>
        fst (split_scheme (browser_clean url)) = scheme \<and> under_path base (browser_path path)
        \<and> (if scheme \<in> set SCHEMES
            then (case browser_host auth of None \<Rightarrow> True
              | Some h \<Rightarrow> covers_host pattern h \<and> (port = Some (browser_port scheme auth) \<or> browser_port scheme auth = 0))
            else lower auth = pattern))"

text \<open>
  An address that the allowlist admits and that has no control characters leads, as a browser reads it, to a
  place an entry names: the same scheme, a host the entry covers (and the entry's port) or for an application's own
  scheme the same authority, and a path under the entry's path after dot segments have been resolved.
\<close>

lemma admitted_address_stays:
  assumes "matches_entries ip6 wild entries (JStr url)" "no_controls url"
  shows "\<exists>e \<in> set entries. \<exists>d. split_url ip6 wild e = Some d \<and> reaches_entry d url"
proof -
  obtain scheme host port path pattern base e where e: "e \<in> set entries" "split_url ip6 wild e = Some (scheme, pattern, port, base)"
    and c: "split_text ip6 False url = Some (scheme, host, port, path)"
    and m: "dest_matches (scheme, pattern, port, base) (scheme, host, port, path)"
    using matches_entriesD [OF assms(1)] by (auto split: if_splits)
  obtain u where u: "urlsplit ip6 (strip url) = Some u" "u_scheme u = scheme" "browser_authority url = (u_netloc u, u_path u)"
    "\<not> has_dot_segment (u_path u)" "path = (if u_path u = [] then ''/'' else u_path u)"
    "(if scheme \<in> set SCHEMES then split_web False u else split_custom_scheme scheme u) = Some (scheme, host, port, path)"
    using browser_agrees [OF assms(2) c] by blast
  have "fst (split_scheme (browser_clean url)) = scheme"
    using urlsplit_fields(1) [OF u(1)] u(2) by (simp add: clean_strip [OF assms(2)] url_clean_strip [OF assms(2)] prod_eq_iff)
  moreover have "under_path base (browser_path (u_path u))"
    using browser_path_plain [OF u(4)] entry_path [OF m] u(5) path_start [OF u(6,1)] by auto
  moreover have "\<forall>h. browser_host (u_netloc u) = Some h \<longrightarrow> covers_host pattern h
      \<and> (port = Some (browser_port scheme (u_netloc u)) \<or> browser_port scheme (u_netloc u) = 0)" if "scheme \<in> set SCHEMES"
  proof (intro allI impI)
    fix h assume h: "browser_host (u_netloc u) = Some h"
    have w: "split_web False u = Some (scheme, host, port, path)" using that u(6) by simp
    have "covers_host pattern host" using that m by (simp add: host_matches_iff split: if_splits)
    then show "covers_host pattern h \<and> (port = Some (browser_port scheme (u_netloc u)) \<or> browser_port scheme (u_netloc u) = 0)"
      using web_host [OF w h] web_port [OF w] h by simp
  qed
  moreover have "lower (u_netloc u) = pattern" if "scheme \<notin> set SCHEMES"
    using that m u(6) by (auto simp: split_custom_scheme_def split: if_splits)
  ultimately have "reaches_entry (scheme, pattern, port, base) url" using u(3) by (auto split: option.splits)
  with e show ?thesis by blast
qed

lemma admitted_address_example:
  "matches_entries (\<lambda>_. False) True [JStr ''https://*.example.com/app''] (JStr ''HTTPS://Shop.example.com/app/cb?x=1'')
   \<and> (\<exists>e \<in> set [JStr ''https://*.example.com/app'']. \<exists>d. split_url (\<lambda>_. False) True e = Some d
        \<and> reaches_entry d ''HTTPS://Shop.example.com/app/cb?x=1'')"
proof -
  have m: "matches_entries (\<lambda>_. False) True [JStr ''https://*.example.com/app''] (JStr ''HTTPS://Shop.example.com/app/cb?x=1'')" by code_simp
  have n: "no_controls ''HTTPS://Shop.example.com/app/cb?x=1''" by code_simp
  show ?thesis using m admitted_address_stays [OF m n] by blast
qed

text \<open>
  The hypothesis is needed: a control character that browsers drop at the end hides a dot segment from the matcher.
\<close>

lemma control_character_escapes:
  "matches_entries (\<lambda>_. False) True [JStr ''https://example.com/a/''] (JStr (''https://example.com/a/..'' @ [CHR 0x01]))"
  "map_prod id browser_path (browser_authority (''https://example.com/a/..'' @ [CHR 0x01])) = (''example.com'', ''/'')"
  by code_simp+

end
