(* ===== verification/Handoff.thy ===== *)
theory Handoff
  imports Redirect_Allowlist Credential_Tokens
begin

text \<open>
  Handing a session to another origin (\<open>mojo/apps/account/services/auth_handoff.py\<close>, \<open>handoff_group.py\<close>, the
  notice of an unlisted destination in \<open>redirect_allowlist.py\<close>, and the endpoints \<open>on_auth_handoff\<close> and
  \<open>on_auth_exchange\<close> of \<open>mojo/apps/account/rest/user.py\<close>). The loading of a resolver, the geofence of a login
  and the flag of a temporary password are parameters. Lines of the log and the fields of the answer that name the
  user are left out; \<open>hw_logins\<close> stands for the event and the handler of a login.
\<close>

section \<open>State\<close>

text \<open>What a resolver may answer: nothing, a row, a number, a uuid, or something else\<close>

datatype gate_ref = RefNone | RefRow int | RefPk int | RefUuid string | RefOther

record handoff_env =
  he_allow :: allow_env
  he_conf :: handoff_conf
  he_mode :: string
  he_hosts :: "(string \<times> json) list"
  he_resolver_path :: string
  he_resolver :: "string \<Rightarrow> (json \<Rightarrow> gate_ref res) option"
  he_host_header :: string
  he_ip :: string
  he_uuid :: string
  he_ttl :: int
  he_iat :: int
  he_wire :: wire
  he_str :: "json \<Rightarrow> string"
  he_blocked :: "int \<Rightarrow> bool"
  he_password_change :: "int \<Rightarrow> bool"

type_synonym host_table = "(string \<times> json) list"

text \<open>Codes are kept with the time at which they expire. A table that could not be compiled is \<open>None\<close> in the cache.\<close>

record handoff_world =
  hw_sup :: sup_world
  hw_inert :: bool
  hw_cache :: "(host_table \<times> host_table option) list"
  hw_codes :: "string \<Rightarrow> (json \<times> rat) option"
  hw_db :: account_db
  hw_logins :: "(int \<times> string) list"

type_synonym 'a hact = "(handoff_world, 'a) act"

definition on_sup :: "'a sact \<Rightarrow> 'a hact" where
  "on_sup m w = (case m (hw_sup w) of (r, s) \<Rightarrow> (r, w\<lparr>hw_sup := s\<rparr>))"

definition hget :: "(handoff_world \<Rightarrow> 'a) \<Rightarrow> 'a hact" where
  "hget f w = (Inr (f w), w)"

definition hmodify :: "(handoff_world \<Rightarrow> handoff_world) \<Rightarrow> unit hact" where
  "hmodify f w = (Inr (), f w)"

definition he_ip6 :: "handoff_env \<Rightarrow> string \<Rightarrow> bool" where
  "he_ip6 E = al_ip6 (he_allow E)"

definition he_now :: "handoff_env \<Rightarrow> rat" where
  "he_now E = ie_now (al_inc (he_allow E))"

section \<open>Notices\<close>

text \<open>The check of a notice: whether it is due; without Redis it is.\<close>

definition notice_due :: "redis_faults \<Rightarrow> rat \<Rightarrow> string \<Rightarrow> bool sact" where
  "notice_due f now k w =
     (if \<not> rf_set f then (Inr True, w)
      else case sw_flags w k of
        Some t \<Rightarrow> if now < t then (Inr False, w) else (Inr True, w\<lparr>sw_flags := (sw_flags w)(k \<mapsto> now + of_int RENOTIFY_SEC)\<rparr>)
      | None \<Rightarrow> (Inr True, w\<lparr>sw_flags := (sw_flags w)(k \<mapsto> now + of_int RENOTIFY_SEC)\<rparr>))"

definition GATE_PREFIX :: string where
  "GATE_PREFIX = ''account:handoff:group_token_alerted''"

definition gate_notice_key :: "string list \<Rightarrow> string" where
  "gate_notice_key parts = join_with '':'' (GATE_PREFIX # map (\<lambda>p. if p = [] then ''-'' else p) parts)"

definition file_quietly :: "allow_env \<Rightarrow> report_args \<Rightarrow> report_request option \<Rightarrow> unit sact" where
  "file_quietly A args req = attempt (on_incidents (file_report (al_inc A) (al_server A) args req))"

definition notify :: "handoff_env \<Rightarrow> string list \<Rightarrow> report_args \<Rightarrow> report_request option \<Rightarrow> unit hact" where
  "notify E parts args req =
     on_sup (bind (notice_due (al_faults (he_allow E)) (he_now E) (gate_notice_key parts)) (\<lambda>due.
       if due then file_quietly (he_allow E) args req else ret ()))"

definition gate_args :: "handoff_env \<Rightarrow> string \<Rightarrow> int \<Rightarrow> string \<Rightarrow> string \<Rightarrow> json list \<Rightarrow> (string \<times> extra) list \<Rightarrow> report_args" where
  "gate_args E title level category key vals xs = allow_args (al_text (he_allow E) category key vals) title level category False xs"

section \<open>The mode\<close>

definition MODES :: "string list" where
  "MODES = [''off'', ''monitor'', ''enforce'']"

definition sources_configured :: "handoff_env \<Rightarrow> bool" where
  "sources_configured E \<longleftrightarrow> he_resolver_path E \<noteq> [] \<or> he_hosts E \<noteq> []"

definition mode_of :: "handoff_env \<Rightarrow> string" where
  "mode_of E =
     (let mode = lower (strip (if he_mode E = [] then ''off'' else he_mode E)) in if mode \<in> set MODES then mode else ''enforce'')"

definition get_mode :: "handoff_env \<Rightarrow> string hact" where
  "get_mode E =
     bind (hget hw_inert) (\<lambda>warned.
     seqs (if mode_of E = ''off'' \<and> \<not> warned \<and> sources_configured E
           then seqs (hmodify (\<lambda>w. w\<lparr>hw_inert := True\<rparr>))
                  (notify E [''inert''] (gate_args E ''Auth handoff gating map is configured but inert'' 6 ''auth:handoff_group_token_inert'' ''inert'' [] []) None)
           else ret ())
     (ret (mode_of E)))"

definition prerequisite_ok :: "handoff_env \<Rightarrow> bool hact" where
  "prerequisite_ok E = bind (get_mode E) (\<lambda>mode. ret (mode \<noteq> ''enforce'' \<or> is_enforced (he_conf E)))"

section \<open>Hosts\<close>

definition label_char :: "char \<Rightarrow> bool" where
  "label_char c \<longleftrightarrow> is_lower c \<or> is_digit c \<or> c \<in> {CHR ''_'', CHR ''-''}"

definition host_labels :: "string \<Rightarrow> bool" where
  "host_labels h \<longleftrightarrow> (let ls = split_on CHR ''.'' h in 2 \<le> length ls \<and> list_all (\<lambda>l. l \<noteq> [] \<and> list_all label_char l) ls)"

text \<open>The dollar of a pattern also matches before a line break at the end.\<close>

definition entry_chars :: "string \<Rightarrow> bool" where
  "entry_chars h \<longleftrightarrow> host_labels h \<or> (h \<noteq> [] \<and> last h = CHR 0x0A \<and> host_labels (butlast h))"

definition is_host_shaped :: "string \<Rightarrow> bool" where
  "is_host_shaped h \<longleftrightarrow> entry_chars h \<and> \<not> (let l = last (split_on CHR ''.'' h) in l \<noteq> [] \<and> list_all is_digit l)"

definition drop_dot :: "string \<Rightarrow> string" where
  "drop_dot h = (if ends_with h ''.'' then butlast h else h)"

fun bare_host :: "(string \<Rightarrow> bool) \<Rightarrow> json \<Rightarrow> string option" where
  "bare_host ip6 (JStr s) =
     (if s = [] then None
      else (let raw = strip s in
        if CHR 0x5C \<in> set raw then None
        else (case urlsplit ip6 raw of
            None \<Rightarrow> None
          | Some u \<Rightarrow>
              if u_hostname u = [] then None
              else (let host = drop_dot (lower (u_hostname u)) in if HOST_CHARS host then Some host else None))))"
| "bare_host ip6 v = None"

definition dest_host :: "(string \<Rightarrow> bool) \<Rightarrow> json \<Rightarrow> string option" where
  "dest_host ip6 url = (case bare_host ip6 url of None \<Rightarrow> None | Some h \<Rightarrow> if is_host_shaped h then Some h else None)"

definition request_host :: "handoff_env \<Rightarrow> string option" where
  "request_host E = (let raw = strip (he_host_header E) in if raw = [] then None else bare_host (he_ip6 E) (JStr (''//'' @ raw)))"

definition is_own_host :: "handoff_env \<Rightarrow> json \<Rightarrow> bool" where
  "is_own_host E url = (case request_host E of None \<Rightarrow> False | Some mine \<Rightarrow> bare_host (he_ip6 E) url = Some mine)"

text \<open>The host of an entry, and whether something was dropped to get it\<close>

definition entry_text :: "(string \<Rightarrow> bool) \<Rightarrow> string \<Rightarrow> (string \<times> bool) option" where
  "entry_text ip6 entry =
     (if contains entry ''//'' then map_option (\<lambda>u. (u_hostname u, True)) (urlsplit ip6 entry)
      else if CHR ''/'' \<in> set entry \<or> CHR '':'' \<in> set entry
      then Some (takeWhile (\<lambda>c. c \<noteq> CHR '':'') (takeWhile (\<lambda>c. c \<noteq> CHR ''/'') entry), True)
      else Some (entry, False))"

definition entry_host :: "(string \<Rightarrow> bool) \<Rightarrow> string \<Rightarrow> (string \<times> bool) option" where
  "entry_host ip6 raw =
     (let entry = lower (strip raw) in
      if entry = [] \<or> CHR 0x5C \<in> set entry then None
      else (case entry_text ip6 entry of
          None \<Rightarrow> None
        | Some (host, extra) \<Rightarrow>
            (let host = drop_dot (if starts_with host ''*.'' then drop 2 host else host) in
             if host = [] \<or> \<not> is_host_shaped host then None else Some (host, extra))))"

section \<open>The table of gated hosts\<close>

fun usable_ref :: "json \<Rightarrow> bool" where
  "usable_ref (JStr s) = (s \<noteq> [])"
| "usable_ref (JInt n) = (n \<noteq> 0)"
| "usable_ref v = False"

definition report_widened :: "handoff_env \<Rightarrow> string \<Rightarrow> string \<Rightarrow> unit hact" where
  "report_widened E raw host =
     notify E [''url_entry'', host]
       (gate_args E (''Auth handoff gating entry widened to a bare host: '' @ host) 3 ''auth:handoff_group_token_entry_widened'' host [JStr (take 200 raw)] []) None"

text \<open>The loop over the entries; a defect ends it.\<close>

fun compile_entries :: "handoff_env \<Rightarrow> host_table \<Rightarrow> host_table \<Rightarrow> host_table option hact" where
  "compile_entries E [] table = ret (Some table)"
| "compile_entries E ((key, v) # rest) table =
     (case entry_host (he_ip6 E) key of
        None \<Rightarrow> ret None
      | Some (host, extra) \<Rightarrow>
          seqs (if extra then report_widened E key host else ret ())
          (if \<not> usable_ref v then ret None
           else if map_of table host \<noteq> None \<and> map_of table host \<noteq> Some v then ret None
           else compile_entries E rest (AList.update host v table)))"

definition compiled :: "handoff_env \<Rightarrow> host_table option hact" where
  "compiled E =
     bind (hget (\<lambda>w. map_of (hw_cache w) (he_hosts E))) (\<lambda>cached.
     case cached of
       Some t \<Rightarrow> ret t
     | None \<Rightarrow> bind (compile_entries E (he_hosts E) []) (\<lambda>t.
         seqs (hmodify (\<lambda>w. w\<lparr>hw_cache := AList.update (he_hosts E) t (hw_cache w)\<rparr>)) (ret t)))"

definition host_under :: "string \<Rightarrow> string \<Rightarrow> bool" where
  "host_under entry host \<longleftrightarrow> host = entry \<or> ends_with host (CHR ''.'' # entry)"

definition label_count :: "string \<Rightarrow> nat" where
  "label_count h = length (filter (\<lambda>c. c = CHR ''.'') h) + 1"

text \<open>The entry with the most labels; the first of several\<close>

fun best_match :: "string \<Rightarrow> host_table \<Rightarrow> json option \<Rightarrow> nat \<Rightarrow> json option" where
  "best_match host [] best n = best"
| "best_match host ((e, v) # rest) best n =
     (if host_under e host \<and> (best = None \<or> n < label_count e) then best_match host rest (Some v) (label_count e) else best_match host rest best n)"

definition match_host :: "host_table \<Rightarrow> string \<Rightarrow> json option" where
  "match_host table host = best_match host table None 0"

section \<open>The group of a destination\<close>

text \<open>The outer option: whether an answer could be given. The inner one: the group, if the destination is gated.\<close>

definition live_group :: "account_db \<Rightarrow> int option \<Rightarrow> int option option" where
  "live_group db g =
     (case g of None \<Rightarrow> None
      | Some pk \<Rightarrow> if is_effectively_active (ad_groups db) 8 pk then Some (Some pk) else None)"

fun coerce_group :: "account_db \<Rightarrow> gate_ref \<Rightarrow> int option option" where
  "coerce_group db RefNone = Some None"
| "coerce_group db (RefRow pk) = live_group db (Some pk)"
| "coerce_group db (RefPk pk) = live_group db (if map_of (ad_groups db) pk = None then None else Some pk)"
| "coerce_group db (RefUuid u) = live_group db (map_option fst (find (\<lambda>(pk, r). gr_uuid r = strip u) (ad_groups db)))"
| "coerce_group db RefOther = None"

fun ref_of :: "json \<Rightarrow> gate_ref" where
  "ref_of (JStr s) = RefUuid s"
| "ref_of (JInt n) = RefPk n"
| "ref_of v = RefOther"

definition resolve_group :: "handoff_env \<Rightarrow> json \<Rightarrow> int option option hact" where
  "resolve_group E url =
     (if \<not> truthy url then ret (Some None)
      else if he_resolver_path E \<noteq> [] then
        (case he_resolver E (he_resolver_path E) of
           None \<Rightarrow> ret None
         | Some fn \<Rightarrow> (case fn url of Inl e \<Rightarrow> ret None | Inr ref \<Rightarrow> hget (\<lambda>w. coerce_group (hw_db w) ref)))
      else bind (compiled E) (\<lambda>t.
        case t of
          None \<Rightarrow> ret None
        | Some table \<Rightarrow>
            (case dest_host (he_ip6 E) url of
               None \<Rightarrow> ret None
             | Some host \<Rightarrow>
                 hget (\<lambda>w. coerce_group (hw_db w) (case match_host table host of None \<Rightarrow> RefNone | Some v \<Rightarrow> ref_of v)))))"

section \<open>Incidents of the gate\<close>

definition host_text :: "handoff_env \<Rightarrow> json \<Rightarrow> string" where
  "host_text E url = (case dest_host (he_ip6 E) url of Some h \<Rightarrow> h | None \<Rightarrow> [])"

definition named :: "handoff_env \<Rightarrow> json \<Rightarrow> string" where
  "named E url = (if host_text E url = [] then (case url of JStr s \<Rightarrow> s | v \<Rightarrow> he_str E v) else host_text E url)"

definition dest_extras :: "handoff_env \<Rightarrow> json \<Rightarrow> (string \<times> extra) list" where
  "dest_extras E url = [(''destination'', js url), (''destination_host'', js (JStr (host_text E url)))]"

definition flag_text :: "bool \<Rightarrow> string" where
  "flag_text b = (if b then ''True'' else [])"

definition gate_request :: "handoff_env \<Rightarrow> report_request option" where
  "gate_request E = al_request (he_allow E)"

definition report_preview :: "handoff_env \<Rightarrow> json \<Rightarrow> int \<Rightarrow> bool \<Rightarrow> unit hact" where
  "report_preview E url g would_refuse =
     (let outcome = (if would_refuse then ''refuse'' else ''deliver'') in
      notify E [''preview'', named E url, outcome]
        ((gate_args E (''Gated handoff destination ('' @ outcome @ ''): '' @ named E url) 3 ''auth:handoff_group_token_preview'' outcome [url, JInt g]
           (dest_extras E url @ [(''would_refuse'', js (JBool would_refuse))]))\<lparr>ra_group := Some (Some g)\<rparr>) (gate_request E))"

definition report_refusal :: "handoff_env \<Rightarrow> json \<Rightarrow> bool \<Rightarrow> unit hact" where
  "report_refusal E url enforced =
     notify E [''refused'', named E url, flag_text enforced]
       (gate_args E (''Unresolvable gated handoff destination: '' @ named E url) 3 ''auth:handoff_group_token_refused'' (flag_text enforced) [url]
          (dest_extras E url)) (gate_request E)"

definition report_unmapped :: "handoff_env \<Rightarrow> json \<Rightarrow> unit hact" where
  "report_unmapped E url =
     notify E [''unmapped'', named E url]
       (gate_args E (''Unmapped auth handoff destination: '' @ named E url) 3 ''auth:handoff_group_token_unmapped'' [] [url] (dest_extras E url)) (gate_request E)"

definition report_oauth :: "handoff_env \<Rightarrow> json \<Rightarrow> int \<Rightarrow> bool \<Rightarrow> unit hact" where
  "report_oauth E url g enforced =
     notify E [''oauth'', named E url, flag_text enforced]
       ((gate_args E (''Gated destination running its own OAuth callback: '' @ named E url) 3 ''auth:handoff_group_token_oauth_refused'' (flag_text enforced)
          [url, JInt g] (dest_extras E url))\<lparr>ra_group := Some (Some g)\<rparr>) (gate_request E)"

text \<open>The destination is \<open>None\<close> when the report is about the deployment.\<close>

definition report_misconfigured :: "handoff_env \<Rightarrow> string \<Rightarrow> json option \<Rightarrow> unit hact" where
  "report_misconfigured E kind dest =
     (let host = (case dest of Some url \<Rightarrow> if truthy url then host_text E url else [] | None \<Rightarrow> []) in
      notify E [''misconfigured'', kind, host]
        (gate_args E (''Auth handoff gating is misconfigured: '' @ (if host = [] then ''deployment'' else host)) 2 ''auth:handoff_group_token_misconfigured'' kind
           (case dest of Some url \<Rightarrow> [url] | None \<Rightarrow> [])
           [(''destination'', js (case dest of Some url \<Rightarrow> if truthy url then url else JStr [] | None \<Rightarrow> JStr [])), (''destination_host'', js (JStr host))])
        (gate_request E))"

section \<open>The notice of an unlisted destination\<close>

definition UNLISTED_PREFIX :: string where
  "UNLISTED_PREFIX = ''account:handoff:dest_alerted''"

text \<open>The host of an address that the matcher refuses; \<open>urlsplit\<close> raises on a value that is no text.\<close>

fun unlisted_host :: "(string \<Rightarrow> bool) \<Rightarrow> json \<Rightarrow> string res" where
  "unlisted_host ip6 (JStr s) =
     Inr (case split_url ip6 False (JStr s) of
            Some (_, host, _) \<Rightarrow> host
          | None \<Rightarrow> if s = [] then [] else (case urlsplit ip6 s of Some u \<Rightarrow> u_hostname u | None \<Rightarrow> []))"
| "unlisted_host ip6 v = (if truthy v then Inl (AttributeError ''decode'') else Inr [])"

definition report_unlisted_destination :: "handoff_env \<Rightarrow> json \<Rightarrow> bool \<Rightarrow> unit sact" where
  "report_unlisted_destination E url enforced =
     (case unlisted_host (he_ip6 E) url of
        Inl e \<Rightarrow> throw e
      | Inr host \<Rightarrow>
          bind (notice_due (al_faults (he_allow E)) (he_now E)
                  (UNLISTED_PREFIX @ '':'' @ (if enforced then ''enforced'' else ''monitor'') @ '':'' @ (if host = [] then ''unparsable'' else host))) (\<lambda>due.
          if \<not> due then ret ()
          else (let category = (if enforced then ''auth:handoff_destination_refused'' else ''auth:handoff_destination_unlisted'');
                    shown = (if host = [] then (case url of JStr s \<Rightarrow> s | v \<Rightarrow> he_str E v) else host) in
            file_quietly (he_allow E)
              (allow_args (al_text (he_allow E) category host [url]) ((if enforced then ''Refused auth handoff destination: '' else ''Unlisted auth handoff destination: '') @ shown)
                 3 category False [(''destination'', js url), (''destination_host'', js (JStr host))]) (gate_request E))))"

section \<open>The decision\<close>

definition not_permitted :: "'a hact" where
  "not_permitted = throw (ValueError ''redirect_uri is not permitted for auth handoff'')"

definition forbidden :: "string \<Rightarrow> 'a hact" where
  "forbidden m = throw (HandlerError m)"

definition deliver_to :: "handoff_env \<Rightarrow> int \<Rightarrow> json \<Rightarrow> bool \<Rightarrow> int \<Rightarrow> int option hact" where
  "deliver_to E user url enforcing g =
     bind (hget (\<lambda>w. can_mint (hw_db w) user g)) (\<lambda>eligible.
     if \<not> enforcing then seqs (report_preview E url g (\<not> eligible)) (ret None)
     else if \<not> eligible then forbidden ''You are not a member of the group that owns this destination''
     else ret (Some g))"

definition gate_handoff_destination :: "handoff_env \<Rightarrow> int \<Rightarrow> json \<Rightarrow> int option hact" where
  "gate_handoff_destination E user url =
     bind (get_mode E) (\<lambda>mode.
     if mode = ''off'' then ret None
     else (let enforcing = (mode = ''enforce'') in
       bind (resolve_group E url) (\<lambda>r.
       case r of
         None \<Rightarrow> seqs (report_refusal E url enforcing) (if enforcing then not_permitted else ret None)
       | Some None \<Rightarrow> seqs (if enforcing then report_unmapped E url else ret ()) (ret None)
       | Some (Some g) \<Rightarrow>
           if is_own_host E url
           then seqs (report_misconfigured E ''own_host'' (Some url)) (if enforcing then not_permitted else ret None)
           else deliver_to E user url enforcing g)))"

text \<open>The same question for the landing address of social login\<close>

definition gate_oauth_destination :: "handoff_env \<Rightarrow> json \<Rightarrow> unit hact" where
  "gate_oauth_destination E url =
     bind (get_mode E) (\<lambda>mode.
     if mode = ''off'' then ret ()
     else (let enforcing = (mode = ''enforce'') in
       if is_own_host E url then
         bind (resolve_group E url) (\<lambda>r. case r of Some (Some g) \<Rightarrow> report_misconfigured E ''own_host'' (Some url) | _ \<Rightarrow> ret ())
       else bind (resolve_group E url) (\<lambda>r.
         case r of
           Some None \<Rightarrow> ret ()
         | Some (Some g) \<Rightarrow> seqs (report_oauth E url g enforcing) (if enforcing then throw (ValueError ''redirect_uri is not on the allowlist'') else ret ())
         | None \<Rightarrow> seqs (report_refusal E url enforcing) (if enforcing then throw (ValueError ''redirect_uri is not on the allowlist'') else ret ()))))"

section \<open>Codes\<close>

definition code_key :: "string \<Rightarrow> string" where
  "code_key code = ''auth:handoff:'' @ code"

definition code_payload :: "int \<Rightarrow> json \<Rightarrow> string \<Rightarrow> int option \<Rightarrow> json" where
  "code_payload user dest ip g =
     JObj ([(''uid'', JInt user), (''ip'', JStr ip), (''dest'', if truthy dest then dest else JStr [])]
       @ (case g of None \<Rightarrow> [] | Some pk \<Rightarrow> if pk = 0 then [] else [(''gid'', JInt pk)]))"

text \<open>\<open>SETEX\<close> refuses a time that is not positive.\<close>

definition create_handoff_code :: "handoff_env \<Rightarrow> int \<Rightarrow> json \<Rightarrow> int option \<Rightarrow> string hact" where
  "create_handoff_code E user dest g =
     (if he_ttl E \<le> 0 then throw (ServiceError ''redis'')
      else seqs (hmodify (\<lambda>w. w\<lparr>hw_codes := (hw_codes w)(code_key (he_uuid E) \<mapsto> (code_payload user dest (he_ip E) g, he_now E + of_int (he_ttl E)))\<rparr>))
        (ret (he_uuid E)))"

fun well_formed_code :: "json \<Rightarrow> bool" where
  "well_formed_code (JStr c) \<longleftrightarrow> length c = 32 \<and> list_all (\<lambda>x. is_alpha x \<or> is_digit x) c"
| "well_formed_code v = False"

definition consume_handoff_code :: "handoff_env \<Rightarrow> json \<Rightarrow> json option hact" where
  "consume_handoff_code E code w =
     (case code of
        JStr c \<Rightarrow>
          if \<not> well_formed_code code then (Inr None, w)
          else (case hw_codes w (code_key c) of
              None \<Rightarrow> (Inr None, w)
            | Some (p, t) \<Rightarrow> (Inr (if he_now E < t then Some p else None), w\<lparr>hw_codes := (hw_codes w)(code_key c := None)\<rparr>))
      | _ \<Rightarrow> (Inr None, w))"

section \<open>The endpoints\<close>

text \<open>The check of the destination against the list, whose failure is only noted while nothing is enforced\<close>

definition admit_destination :: "handoff_env \<Rightarrow> json \<Rightarrow> unit hact" where
  "admit_destination E dest =
     (if is_enforced (he_conf E) then
        (if \<not> truthy dest then throw (ValueError ''redirect_uri is required for auth handoff'')
         else bind (on_sup (is_allowed_destination (he_allow E) (he_conf E) dest)) (\<lambda>allowed.
           if allowed then ret () else seqs (on_sup (report_unlisted_destination E dest True)) not_permitted))
      else if truthy dest then
        bind (on_sup (is_allowed_destination (he_allow E) (he_conf E) dest)) (\<lambda>allowed.
           if allowed then ret () else on_sup (report_unlisted_destination E dest False))
      else ret ())"

definition on_auth_handoff :: "handoff_env \<Rightarrow> int \<Rightarrow> json \<Rightarrow> string hact" where
  "on_auth_handoff E user dest =
     bind (prerequisite_ok E) (\<lambda>ok.
     if \<not> ok then seqs (report_misconfigured E ''prerequisite'' None) not_permitted
     else seqs (admit_destination E dest) (bind (gate_handoff_destination E user dest) (create_handoff_code E user dest)))"

text \<open>The answer to an exchange: the pair of platform tokens, the token of one group, or no login\<close>

datatype delivery = JwtPair int | GroupPackage int string | GeofenceBlocked | PasswordForm int

definition jwt_login_handoff :: "handoff_env \<Rightarrow> int \<Rightarrow> delivery hact" where
  "jwt_login_handoff E user =
     (if he_blocked E user then ret GeofenceBlocked
      else if he_password_change E user then ret (PasswordForm user)
      else seqs (hmodify (\<lambda>w. w\<lparr>hw_logins := hw_logins w @ [(user, ''handoff'')]\<rparr>)) (ret (JwtPair user)))"

definition group_token_login :: "handoff_env \<Rightarrow> int \<Rightarrow> int \<Rightarrow> delivery hact" where
  "group_token_login E user g =
     (if he_blocked E user then ret GeofenceBlocked
      else if he_password_change E user then ret (PasswordForm user)
      else bind (hget (\<lambda>w. mint (he_wire E) (hw_db w) user g (he_iat E))) (\<lambda>token.
        case token of
          Inl e \<Rightarrow> throw e
        | Inr t \<Rightarrow> seqs (hmodify (\<lambda>w. w\<lparr>hw_logins := hw_logins w @ [(user, ''handoff:grouptoken'')]\<rparr>)) (ret (GroupPackage g t))))"

definition invalid_handoff :: "'a hact" where
  "invalid_handoff = forbidden ''Invalid or expired handoff code''"

definition honor_stamp :: "handoff_env \<Rightarrow> int \<Rightarrow> json option \<Rightarrow> delivery hact" where
  "honor_stamp E user gid =
     (case gid of
        None \<Rightarrow> jwt_login_handoff E user
      | Some JNull \<Rightarrow> jwt_login_handoff E user
      | Some (JInt g) \<Rightarrow>
          if g \<le> 0 then invalid_handoff
          else bind (hget (\<lambda>w. map_of (ad_groups (hw_db w)) g)) (\<lambda>row.
            if row = None then forbidden ''You do not have access to this destination'' else group_token_login E user g)
      | Some _ \<Rightarrow> invalid_handoff)"

definition exchange_payload :: "handoff_env \<Rightarrow> json \<Rightarrow> delivery hact" where
  "exchange_payload E p =
     (case jdict_get p ''uid'' of
        Some (JInt user) \<Rightarrow>
          bind (hget (\<lambda>w. user_of (hw_db w) user)) (\<lambda>row.
          case row of
            None \<Rightarrow> invalid_handoff
          | Some r \<Rightarrow> if \<not> us_active r then forbidden ''Account is disabled'' else honor_stamp E user (jdict_get p ''gid''))
      | _ \<Rightarrow> invalid_handoff)"

definition on_auth_exchange :: "handoff_env \<Rightarrow> json \<Rightarrow> delivery hact" where
  "on_auth_exchange E code =
     bind (consume_handoff_code E code) (\<lambda>data. case data of None \<Rightarrow> invalid_handoff | Some p \<Rightarrow> exchange_payload E p)"

end
