(* ===== verification/Handoff_Laws.thy ===== *)
theory Handoff_Laws
  imports Redirect_Laws Handoff Auth_Laws
begin

text \<open>
  What the handoff of a session guarantees: a code is only minted for a place on the list of the deployment, and
  a code that was minted for a gated host, as a browser reads its address, never becomes a pair of platform tokens.
  \<open>resolve_spec\<close> is the decision without the cache and the reports.
\<close>

section \<open>The table\<close>

fun table_of :: "(string \<Rightarrow> bool) \<Rightarrow> host_table \<Rightarrow> host_table \<Rightarrow> host_table option" where
  "table_of ip6 [] table = Some table"
| "table_of ip6 ((key, v) # rest) table =
     (case entry_host ip6 key of
        None \<Rightarrow> None
      | Some (host, _) \<Rightarrow>
          if \<not> usable_ref v \<or> map_of table host \<noteq> None \<and> map_of table host \<noteq> Some v then None
          else table_of ip6 rest (AList.update host v table))"

lemma table_of_extends: "table_of ip6 es t = Some T \<Longrightarrow> map_of t h = Some v \<Longrightarrow> map_of T h = Some v"
proof (induction ip6 es t rule: table_of.induct)
  case (2 ip6 key v' rest t)
  then obtain host x where h: "entry_host ip6 key = Some (host, x)" "usable_ref v'" "map_of t host = None \<or> map_of t host = Some v'"
    and r: "table_of ip6 rest (AList.update host v' t) = Some T"
    by (auto split: option.splits if_splits)
  have "map_of (AList.update host v' t) h = Some v" using h(3) 2(3) by (auto simp: update_conv')
  with 2(1) [OF h(1) refl _ r] h show ?case by auto
qed simp

text \<open>Every entry is in the table, with the reference it was given.\<close>

lemma table_of_entry:
  "table_of ip6 es t = Some T \<Longrightarrow> (k, v) \<in> set es \<Longrightarrow> \<exists>e x. entry_host ip6 k = Some (e, x) \<and> usable_ref v \<and> map_of T e = Some v"
proof (induction ip6 es t rule: table_of.induct)
  case (2 ip6 key v' rest t)
  then obtain host x where h: "entry_host ip6 key = Some (host, x)" "usable_ref v'" "map_of t host = None \<or> map_of t host = Some v'"
    and r: "table_of ip6 rest (AList.update host v' t) = Some T"
    by (auto split: option.splits if_splits)
  show ?case
  proof (cases "(k, v) = (key, v')")
    case True
    then have "map_of T host = Some v" using table_of_extends [OF r] by (simp add: update_conv')
    with True h show ?thesis by simp
  next
    case False
    with 2(1) [OF h(1) refl _ r] 2(3) h show ?thesis by auto
  qed
qed simp

lemma table_of_usable:
  "table_of ip6 es t = Some T \<Longrightarrow> \<forall>(e, v) \<in> set t. usable_ref v \<Longrightarrow> \<forall>(e, v) \<in> set T. usable_ref v"
proof (induction ip6 es t rule: table_of.induct)
  case (2 ip6 key v' rest t)
  then obtain host x where h: "entry_host ip6 key = Some (host, x)" "usable_ref v'" "map_of t host = None \<or> map_of t host = Some v'"
    and r: "table_of ip6 rest (AList.update host v' t) = Some T"
    by (auto split: option.splits if_splits)
  have "\<forall>(e, v) \<in> set (AList.update host v' t). usable_ref v" using 2(3) h(2) by (induction t) auto
  with 2(1) [OF h(1) refl _ r] h show ?case by auto
qed simp

text \<open>The match is an entry that covers the host, none is more specific, and there is one if an entry covers it.\<close>

lemma best_match_None: "best_match host T best n = None \<longleftrightarrow> best = None \<and> (\<forall>(e, v) \<in> set T. \<not> host_under e host)"
  by (induction host T best n rule: best_match.induct) auto

lemma best_match_some:
  "best_match host T best n = Some v \<Longrightarrow> (best \<noteq> None \<or> n = 0) \<Longrightarrow>
   (best = Some v \<and> (\<forall>(e', v') \<in> set T. host_under e' host \<longrightarrow> label_count e' \<le> n))
   \<or> (\<exists>e. (e, v) \<in> set T \<and> host_under e host \<and> n < label_count e \<and> (\<forall>(e', v') \<in> set T. host_under e' host \<longrightarrow> label_count e' \<le> label_count e))"
proof (induction host T best n rule: best_match.induct)
  case (2 host e w rest best n)
  show ?case
  proof (cases "host_under e host \<and> (best = None \<or> n < label_count e)")
    case True
    then have "n < label_count e" using 2(4) by (auto simp: label_count_def)
    from True 2(3) have "best_match host rest (Some w) (label_count e) = Some v" by simp
    from 2(1) [OF True this disjI1 [OF option.distinct(2)]] show ?thesis
    proof (elim disjE exE conjE)
      assume "Some w = Some v" "\<forall>(e', v') \<in> set rest. host_under e' host \<longrightarrow> label_count e' \<le> label_count e"
      with True \<open>n < label_count e\<close> have "(e, v) \<in> set ((e, w) # rest) \<and> host_under e host \<and> n < label_count e
        \<and> (\<forall>(e', v') \<in> set ((e, w) # rest). host_under e' host \<longrightarrow> label_count e' \<le> label_count e)" by simp
      then show ?thesis by blast
    next
      fix f assume "(f, v) \<in> set rest" "host_under f host" "label_count e < label_count f"
        "\<forall>(e', v') \<in> set rest. host_under e' host \<longrightarrow> label_count e' \<le> label_count f"
      with \<open>n < label_count e\<close> have "(f, v) \<in> set ((e, w) # rest) \<and> host_under f host \<and> n < label_count f
        \<and> (\<forall>(e', v') \<in> set ((e, w) # rest). host_under e' host \<longrightarrow> label_count e' \<le> label_count f)" by simp
      then show ?thesis by blast
    qed
  next
    case False
    then have low: "host_under e host \<Longrightarrow> label_count e \<le> n" by auto
    from False 2(3) have "best_match host rest best n = Some v" by (simp add: if_not_P)
    from 2(2) [OF False this 2(4)] show ?thesis
    proof (elim disjE exE conjE)
      assume "best = Some v" "\<forall>(e', v') \<in> set rest. host_under e' host \<longrightarrow> label_count e' \<le> n"
      with low show ?thesis by auto
    next
      fix f assume "(f, v) \<in> set rest" "host_under f host" "n < label_count f"
        "\<forall>(e', v') \<in> set rest. host_under e' host \<longrightarrow> label_count e' \<le> label_count f"
      moreover from this(3) low have "host_under e host \<Longrightarrow> label_count e \<le> label_count f" by fastforce
      ultimately have "(f, v) \<in> set ((e, w) # rest) \<and> host_under f host \<and> n < label_count f
        \<and> (\<forall>(e', v') \<in> set ((e, w) # rest). host_under e' host \<longrightarrow> label_count e' \<le> label_count f)" by simp
      then show ?thesis by blast
    qed
  qed
qed simp

lemma match_most_specific:
  assumes "match_host T host = Some v"
  shows "\<exists>e. (e, v) \<in> set T \<and> host_under e host \<and> (\<forall>(e', v') \<in> set T. host_under e' host \<longrightarrow> label_count e' \<le> label_count e)"
  using best_match_some [OF assms [unfolded match_host_def]] by blast

lemma match_exists: "map_of T e = Some v \<Longrightarrow> host_under e host \<Longrightarrow> \<exists>v'. match_host T host = Some v'"
  using best_match_None [of host T None 0] map_of_SomeD [of T e v] by (fastforce simp: match_host_def)

section \<open>The decision\<close>

definition resolve_spec :: "handoff_env \<Rightarrow> account_db \<Rightarrow> json \<Rightarrow> int option option" where
  "resolve_spec E db url =
     (if \<not> truthy url then Some None
      else if he_resolver_path E \<noteq> [] then
        (case he_resolver E (he_resolver_path E) of
           None \<Rightarrow> None
         | Some fn \<Rightarrow> (case fn url of Inl e \<Rightarrow> None | Inr ref \<Rightarrow> coerce_group db ref))
      else (case table_of (he_ip6 E) (he_hosts E) [] of
          None \<Rightarrow> None
        | Some table \<Rightarrow>
            (case dest_host (he_ip6 E) url of
               None \<Rightarrow> None
             | Some host \<Rightarrow> coerce_group db (case match_host table host of None \<Rightarrow> RefNone | Some v \<Rightarrow> ref_of v))))"

text \<open>A cached table is the one that its entries give.\<close>

definition cache_ok :: "(string \<Rightarrow> bool) \<Rightarrow> handoff_world \<Rightarrow> bool" where
  "cache_ok ip6 w \<longleftrightarrow> (\<forall>es t. map_of (hw_cache w) es = Some t \<longrightarrow> t = table_of ip6 es [])"

definition core :: "(string \<Rightarrow> bool) \<Rightarrow> account_db \<Rightarrow> (string \<Rightarrow> (json \<times> rat) option) \<Rightarrow> handoff_world \<Rightarrow> bool" where
  "core ip6 db codes w \<longleftrightarrow> hw_db w = db \<and> hw_codes w = codes \<and> cache_ok ip6 w"

abbreviation anything :: "handoff_world \<Rightarrow> bool" where
  "anything \<equiv> (\<lambda>_. True)"

lemma triple_on_sup: "triple (core ip6 db codes) (on_sup m) (\<lambda>r w. core ip6 db codes w \<and> (\<exists>s s'. m s = (Inr r, s'))) anything"
  by (auto simp: triple_def on_sup_def core_def cache_ok_def split: prod.splits sum.splits)

lemma triple_hget: "triple (core ip6 db codes) (hget f) (\<lambda>r w. core ip6 db codes w \<and> r = f w) anything"
  by (auto simp: triple_def hget_def)

lemma core_sup: "triple (core ip6 db codes) (on_sup m) (\<lambda>_. core ip6 db codes) anything"
  by (rule triple_post [OF triple_on_sup]) auto

lemma core_notify: "triple (core ip6 db codes) (notify E parts args req) (\<lambda>_. core ip6 db codes) anything"
  unfolding notify_def by (rule core_sup)

lemma core_report:
  "triple (core ip6 db codes) (report_widened E raw host) (\<lambda>_. core ip6 db codes) anything"
  "triple (core ip6 db codes) (report_preview E url g b) (\<lambda>_. core ip6 db codes) anything"
  "triple (core ip6 db codes) (report_refusal E url b) (\<lambda>_. core ip6 db codes) anything"
  "triple (core ip6 db codes) (report_unmapped E url) (\<lambda>_. core ip6 db codes) anything"
  "triple (core ip6 db codes) (report_misconfigured E kind dest) (\<lambda>_. core ip6 db codes) anything"
  unfolding report_widened_def report_preview_def report_refusal_def report_unmapped_def report_misconfigured_def Let_def
  by (rule core_notify)+

lemma triple_True: "triple P (throw e) Q anything"
  by (simp add: triple_def throw_def)

lemma core_compile:
  "triple (core ip6 db codes) (compile_entries E es t) (\<lambda>r w. core ip6 db codes w \<and> r = table_of (he_ip6 E) es t) anything"
proof (induction E es t rule: compile_entries.induct)
  case (1 E t)
  show ?case by (simp add: triple_ret)
next
  case (2 E key v rest t)
  show ?case
  proof (cases "entry_host (he_ip6 E) key")
    case None
    then show ?thesis by (simp add: triple_ret)
  next
    case (Some hx)
    obtain host x where hx: "hx = (host, x)" by fastforce
    have w: "triple (core ip6 db codes) (if x then report_widened E key host else ret ()) (\<lambda>_. core ip6 db codes) anything"
      by (auto intro: core_report triple_ret)
    show ?thesis
    proof (cases "\<not> usable_ref v \<or> map_of t host \<noteq> None \<and> map_of t host \<noteq> Some v")
      case True
      have "triple (core ip6 db codes) (ret None) (\<lambda>r w. core ip6 db codes w \<and> r = None) anything" by (simp add: triple_ret)
      from triple_seqs [OF w this] True Some hx show ?thesis by (auto split: if_splits)
    next
      case False
      with 2 Some hx have "triple (core ip6 db codes) (compile_entries E rest (AList.update host v t))
          (\<lambda>r w. core ip6 db codes w \<and> r = table_of (he_ip6 E) rest (AList.update host v t)) anything" by auto
      from triple_seqs [OF w this] False Some hx show ?thesis by auto
    qed
  qed
qed

lemma core_compiled:
  "triple (core (he_ip6 E) db codes) (compiled E) (\<lambda>r w. core (he_ip6 E) db codes w \<and> r = table_of (he_ip6 E) (he_hosts E) []) anything"
  unfolding compiled_def
proof (rule triple_bind [OF triple_hget])
  fix cached
  show "triple (\<lambda>w. core (he_ip6 E) db codes w \<and> cached = map_of (hw_cache w) (he_hosts E))
    (case cached of Some t \<Rightarrow> ret t
     | None \<Rightarrow> bind (compile_entries E (he_hosts E) []) (\<lambda>t. seqs (hmodify (\<lambda>w. w\<lparr>hw_cache := AList.update (he_hosts E) t (hw_cache w)\<rparr>)) (ret t)))
    (\<lambda>r w. core (he_ip6 E) db codes w \<and> r = table_of (he_ip6 E) (he_hosts E) []) anything"
  proof (cases cached)
    case (Some t)
    then show ?thesis by (auto intro: triple_ret simp: core_def cache_ok_def)
  next
    case None
    have store: "triple (\<lambda>w. core (he_ip6 E) db codes w \<and> t = table_of (he_ip6 E) (he_hosts E) [])
      (seqs (hmodify (\<lambda>w. w\<lparr>hw_cache := AList.update (he_hosts E) t (hw_cache w)\<rparr>)) (ret t))
      (\<lambda>r w. core (he_ip6 E) db codes w \<and> r = table_of (he_ip6 E) (he_hosts E) []) anything" for t
      by (auto simp: triple_def seqs_def bind_def hmodify_def ret_def core_def cache_ok_def update_conv')
    have "triple (core (he_ip6 E) db codes) (bind (compile_entries E (he_hosts E) []) (\<lambda>t.
        seqs (hmodify (\<lambda>w. w\<lparr>hw_cache := AList.update (he_hosts E) t (hw_cache w)\<rparr>)) (ret t)))
      (\<lambda>r w. core (he_ip6 E) db codes w \<and> r = table_of (he_ip6 E) (he_hosts E) []) anything"
      by (rule triple_bind [OF core_compile store])
    then show ?thesis using None by (auto intro: triple_pre)
  qed
qed

lemma core_mode: "triple (core ip6 db codes) (get_mode E) (\<lambda>r w. core ip6 db codes w \<and> r = mode_of E) anything"
proof -
  have inert: "triple (core ip6 db codes) (hmodify (\<lambda>w. w\<lparr>hw_inert := True\<rparr>)) (\<lambda>_. core ip6 db codes) anything"
    by (simp add: triple_def hmodify_def core_def cache_ok_def)
  show ?thesis
    unfolding get_mode_def
    by (rule triple_bind [OF triple_hget], rule triple_seqs [where R = "core ip6 db codes"])
       (auto intro!: triple_seqs [OF inert] core_notify triple_ret elim: triple_pre [OF triple_ret] intro: triple_pre [OF triple_seqs [OF inert core_notify]])
qed

lemma core_resolve:
  "triple (core (he_ip6 E) db codes) (resolve_group E url) (\<lambda>r w. core (he_ip6 E) db codes w \<and> r = resolve_spec E db url) anything"
proof -
  have read: "triple (core (he_ip6 E) db codes) (hget (\<lambda>w. coerce_group (hw_db w) ref)) (\<lambda>r w. core (he_ip6 E) db codes w \<and> r = coerce_group db ref) anything" for ref
    by (rule triple_post [OF triple_hget]) (auto simp: core_def)
  have lookup: "triple (\<lambda>w. core (he_ip6 E) db codes w \<and> t = table_of (he_ip6 E) (he_hosts E) [])
     (case t of None \<Rightarrow> ret None
      | Some table \<Rightarrow> (case dest_host (he_ip6 E) url of None \<Rightarrow> ret None
          | Some host \<Rightarrow> hget (\<lambda>w. coerce_group (hw_db w) (case match_host table host of None \<Rightarrow> RefNone | Some v \<Rightarrow> ref_of v))))
     (\<lambda>r w. core (he_ip6 E) db codes w \<and> r = resolve_spec E db url) anything" if "truthy url" "he_resolver_path E = []" for t
    using that
    by (auto simp: triple_def hget_def ret_def core_def resolve_spec_def split: option.splits)
  show ?thesis
  proof (cases "truthy url \<and> he_resolver_path E = []")
    case True
    then show ?thesis using triple_bind [OF core_compiled lookup] by (simp add: resolve_group_def)
  next
    case False
    then show ?thesis
      by (cases "truthy url"; cases "he_resolver E (he_resolver_path E)")
         (auto simp: resolve_group_def resolve_spec_def intro: triple_ret read split: sum.split)
  qed
qed

lemma triple_pure: "(x = c \<Longrightarrow> triple P m Q E) \<Longrightarrow> triple (\<lambda>w. P w \<and> x = c) m Q E"
  by (auto simp: triple_def)

lemma core_deliver:
  "triple (core ip6 db codes) (deliver_to E user url True g) (\<lambda>r w. core ip6 db codes w \<and> r = Some g) anything"
  by (auto simp: triple_def deliver_to_def bind_def hget_def forbidden_def throw_def ret_def split: if_splits)

lemma core_decide:
  "triple (\<lambda>w. core ip6 db codes w \<and> r = resolve_spec E db url)
     (case r of
         None \<Rightarrow> seqs (report_refusal E url True) not_permitted
       | Some None \<Rightarrow> seqs (report_unmapped E url) (ret None)
       | Some (Some g) \<Rightarrow>
           if is_own_host E url then seqs (report_misconfigured E ''own_host'' (Some url)) not_permitted
           else deliver_to E user url True g)
     (\<lambda>x w. core ip6 db codes w \<and> resolve_spec E db url = Some x) anything"
proof (cases r)
  case None
  then show ?thesis by (auto simp: not_permitted_def intro: triple_pre [OF triple_seqs [OF core_report(3) triple_True]])
next
  case (Some a)
  let ?Q = "\<lambda>x w. core ip6 db codes w \<and> resolve_spec E db url = Some x"
  have "triple (core ip6 db codes) (seqs (report_unmapped E url) (ret None)) ?Q anything" if "r = resolve_spec E db url" "a = None"
    using Some that by (auto intro!: triple_seqs [OF core_report(4)] triple_ret)
  moreover have "triple (core ip6 db codes) (deliver_to E user url True g) ?Q anything" if "r = resolve_spec E db url" "a = Some g" for g
    using Some that by (intro triple_post [OF core_deliver]) auto
  moreover have "triple (core ip6 db codes) (seqs (report_misconfigured E ''own_host'' (Some url)) not_permitted) ?Q anything"
    unfolding not_permitted_def by (rule triple_seqs [OF core_report(5) triple_True])
  ultimately show ?thesis
    unfolding Some by (intro triple_pure) (auto split: option.split)
qed

lemma core_gate:
  assumes "mode_of E = ''enforce''"
  shows "triple (core (he_ip6 E) db codes) (gate_handoff_destination E user url) (\<lambda>r w. core (he_ip6 E) db codes w \<and> resolve_spec E db url = Some r) anything"
  unfolding gate_handoff_destination_def
  by (rule triple_bind [OF core_mode], rule triple_pure)
     (use assms triple_bind [OF core_resolve core_decide] in simp)

lemma core_create:
  "triple (\<lambda>w. core ip6 db codes w \<and> resolve_spec E db dest = Some g) (create_handoff_code E user dest g)
     (\<lambda>code w. code = he_uuid E \<and> hw_db w = db \<and> (\<exists>g. resolve_spec E db dest = Some g
        \<and> hw_codes w = codes(code_key code \<mapsto> (code_payload user dest (he_ip E) g, he_now E + of_int (he_ttl E))))) anything"
  by (auto simp: triple_def create_handoff_code_def seqs_def bind_def hmodify_def ret_def throw_def core_def)

lemma core_admit: "triple (core ip6 db codes) (admit_destination E dest) (\<lambda>_. core ip6 db codes) anything"
  unfolding admit_destination_def
  by (auto simp: not_permitted_def intro!: triple_True triple_ret triple_bind [OF core_sup] triple_seqs [OF core_sup] core_sup)

text \<open>A code that is minted under enforcement carries the group that the decision named.\<close>

lemma minted_code_stamped:
  assumes mode: "mode_of E = ''enforce''" and ok: "cache_ok (he_ip6 E) w" and m: "on_auth_handoff E user dest w = (Inr code, w')"
  shows "hw_db w' = hw_db w \<and> (\<exists>g. resolve_spec E (hw_db w) dest = Some g
    \<and> hw_codes w' (code_key code) = Some (code_payload user dest (he_ip E) g, he_now E + of_int (he_ttl E)))"
proof -
  let ?C = "core (he_ip6 E) (hw_db w) (hw_codes w)"
  have pre: "triple ?C (prerequisite_ok E) (\<lambda>_. ?C) anything"
    unfolding prerequisite_ok_def by (rule triple_bind [OF core_mode]) (auto intro: triple_ret)
  have "triple ?C (on_auth_handoff E user dest) (\<lambda>code w'. code = he_uuid E \<and> hw_db w' = hw_db w \<and> (\<exists>g. resolve_spec E (hw_db w) dest = Some g
        \<and> hw_codes w' = (hw_codes w)(code_key code \<mapsto> (code_payload user dest (he_ip E) g, he_now E + of_int (he_ttl E))))) anything"
    unfolding on_auth_handoff_def
    by (rule triple_bind [OF pre])
       (auto simp: not_permitted_def intro: triple_seqs [OF core_report(5) triple_True]
          simp del: seqs_ret intro!: triple_seqs [OF core_admit triple_bind [OF core_gate [OF mode] core_create]])
  from this [unfolded triple_def, rule_format, of w] ok m show ?thesis by (auto simp: core_def)
qed

section \<open>Codes\<close>

lemma stamped_exchange:
  assumes "hw_codes w (code_key c) = Some (code_payload user dest ip (Some g), t)" "g \<noteq> 0" "on_auth_exchange E (JStr c) w = (Inr d, w')"
  shows "d = GeofenceBlocked \<or> d = PasswordForm user \<or> (\<exists>tok. d = GroupPackage g tok \<and> mint (he_wire E) (hw_db w) user g (he_iat E) = Inr tok)"
proof -
  let ?w = "w\<lparr>hw_codes := (hw_codes w)(code_key c := None)\<rparr>"
  have p: "jdict_get (code_payload user dest ip (Some g)) ''uid'' = Some (JInt user)" "jdict_get (code_payload user dest ip (Some g)) ''gid'' = Some (JInt g)"
    using assms(2) by (simp_all add: code_payload_def)
  have "exchange_payload E (code_payload user dest ip (Some g)) ?w = (Inr d, w')"
    using assms(1,3) by (auto simp: on_auth_exchange_def consume_handoff_code_def bind_def invalid_handoff_def forbidden_def throw_def split: if_splits)
  then have "group_token_login E user g ?w = (Inr d, w')"
    by (auto simp: exchange_payload_def p honor_stamp_def bind_def hget_def invalid_handoff_def forbidden_def throw_def split: option.splits if_splits)
  then show ?thesis
    by (auto simp: group_token_login_def bind_def hget_def seqs_def hmodify_def ret_def throw_def split: if_splits sum.splits)
qed

text \<open>A code is spent by the first exchange, whatever it answers.\<close>

lemma code_spent:
  assumes "on_auth_exchange E (JStr c) w = (r, w')"
  shows "\<exists>e. fst (on_auth_exchange E' (JStr c) w') = Inl e"
proof -
  have gone: "well_formed_code (JStr c) \<Longrightarrow> hw_codes (snd (consume_handoff_code E (JStr c) w)) (code_key c) = None"
    by (auto simp: consume_handoff_code_def split: option.splits)
  have kept: "keeps (\<lambda>w. hw_codes w (code_key c) = None) (case data of None \<Rightarrow> invalid_handoff | Some p \<Rightarrow> exchange_payload E p)" for data
    by (auto simp: keeps_def exchange_payload_def honor_stamp_def group_token_login_def jwt_login_handoff_def invalid_handoff_def forbidden_def
        bind_def hget_def seqs_def hmodify_def ret_def throw_def split: option.splits json.splits sum.splits)
  have "well_formed_code (JStr c) \<Longrightarrow> hw_codes w' (code_key c) = None"
    using gone keeps_snd [OF kept] assms
    by (auto simp: on_auth_exchange_def bind_def split: prod.splits sum.splits) (metis snd_conv)+
  then show ?thesis
    by (auto simp: on_auth_exchange_def consume_handoff_code_def bind_def invalid_handoff_def forbidden_def throw_def)
qed

section \<open>Gated hosts\<close>

lemma dest_host_browser:
  assumes n: "no_controls url" and h: "dest_host ip6 (JStr url) = Some h" and a: "browser_authority url = (auth, path)" and b: "browser_host auth = Some b"
  shows "h = drop_dot b"
proof -
  from h obtain u where u: "urlsplit ip6 (strip url) = Some u" and nbs: "CHR 0x5C \<notin> set (strip url)" and ne: "u_hostname u \<noteq> []"
    and hh: "h = drop_dot (lower (u_hostname u))" and chars: "HOST_CHARS (drop_dot (lower (u_hostname u)))"
    by (auto simp: dest_host_def Let_def split: option.splits if_splits)
  have "u_netloc u \<noteq> []" using ne hostinfo_Nil [of u] by (auto simp: u_hostname_def partition_at_def split_first_def lower_def)
  with authority_agrees [OF n u nbs] a have auth: "auth = u_netloc u" by simp
  have "CHR ''%'' \<notin> set (lower (u_hostname u))"
  proof
    assume "CHR ''%'' \<in> set (lower (u_hostname u))"
    then have "CHR ''%'' \<in> set (drop_dot (lower (u_hostname u)))"
      by (auto simp: drop_dot_def ends_with_iff butlast_append)
    with host_chars_percent [OF chars] show False by simp
  qed
  then have np: "CHR ''%'' \<notin> set (u_hostname u)" by (simp add: lower_percent)
  let ?h = "snd (snd (rpartition_at CHR ''@'' (u_netloc u)))"
  have plain: "CHR ''['' \<notin> set ?h" and bb: "b = lower (fst (partition_at CHR '':'' ?h))"
    using b auth by (auto simp: browser_host_def Let_def split: if_splits)
  have "fst (hostinfo u) = fst (partition_at CHR '':'' ?h)" using hostinfo_plain [OF plain] by (simp split: prod.splits)
  with np bb have "lower (u_hostname u) = b" by (auto simp: u_hostname_def partition_at_def split_first_def split: if_splits)
  with hh show ?thesis by simp
qed

lemma live_group_row: "live_group db o' = Some r \<Longrightarrow> \<exists>g. r = Some g \<and> map_of (ad_groups db) g \<noteq> None"
  by (auto simp: live_group_def is_effectively_active_def ancestors_def split: option.splits if_splits sum.splits)

lemma coerce_ref_row: "coerce_group db (ref_of v) = Some r \<Longrightarrow> \<exists>g. r = Some g \<and> map_of (ad_groups db) g \<noteq> None"
  by (cases v) (auto dest: live_group_row)

lemma entry_host_nonempty: "entry_host ip6 k = Some (e, x) \<Longrightarrow> e \<noteq> []"
  by (auto simp: entry_host_def Let_def split: option.splits if_splits)

text \<open>Under a gated host the decision names a group, or refuses.\<close>

lemma gated_decision:
  assumes res: "he_resolver_path E = []" and entry: "(k, v) \<in> set (he_hosts E)" "entry_host (he_ip6 E) k = Some (e, x)"
    and n: "no_controls url" and b: "browser_authority url = (auth, path)" "browser_host auth = Some b" "host_under e (drop_dot b)"
    and r: "resolve_spec E db (JStr url) = Some r"
  shows "\<exists>g. r = Some g \<and> map_of (ad_groups db) g \<noteq> None"
proof -
  have "url \<noteq> []"
  proof
    assume "url = []"
    then have "auth = []" using b(1) by (simp add: browser_authority_def browser_clean_def split_scheme_def split_first_def web_like_def SCHEMES_def starts_with_def)
    then have "b = []" using b(2) by (simp add: browser_host_def rpartition_at_def split_last_def split_first_def partition_at_def lower_def)
    then show False using b(3) entry_host_nonempty [OF entry(2)] by (auto simp: host_under_def drop_dot_def ends_with_iff)
  qed
  then obtain T h where T: "table_of (he_ip6 E) (he_hosts E) [] = Some T" and h: "dest_host (he_ip6 E) (JStr url) = Some h"
    and c: "coerce_group db (case match_host T h of None \<Rightarrow> RefNone | Some v \<Rightarrow> ref_of v) = Some r"
    using r res by (auto simp: resolve_spec_def split: option.splits)
  have "host_under e h" using b(3) dest_host_browser [OF n h b(1,2)] by simp
  moreover have "map_of T e = Some v" using table_of_entry [OF T entry(1)] entry(2) by simp
  ultimately obtain v' where "match_host T h = Some v'" using match_exists by blast
  with c coerce_ref_row show ?thesis by simp
qed

text \<open>
  C25: While gating is enforced through the deployment's map of hosts, without a resolver of its own, a code
  that is minted for an address whose host, as a browser reads it, is or lies under a host of the map is
  never exchanged for a pair of platform tokens: whenever the code is exchanged, and whatever the settings
  and the tables are then, the exchange answers with a token that \<open>mint\<close> gives for the group named when the
  code was minted, a refusal of the geofence, or the form of a temporary password. (The form carries a
  token of its own, with which setting a new password gives a platform pair after all: that request is no
  exchange.) Taken as given: the address has no control characters (\<open>control_character_escapes\<close>), the cached copy
  of the map is a copy of it, no group has the id 0, and nobody rewrites the stored code in between.
\<close>

theorem gated_code_never_platform:
  assumes "mode_of E = ''enforce''" "he_resolver_path E = []" "cache_ok (he_ip6 E) w"
    and "(k, v) \<in> set (he_hosts E)" "entry_host (he_ip6 E) k = Some (entry, x)"
    and "no_controls url" "browser_authority url = (auth, path)" "browser_host auth = Some host" "host_under entry (drop_dot host)"
    and "map_of (ad_groups (hw_db w)) 0 = None"
    and "on_auth_handoff E user (JStr url) w = (Inr code, w1)"
    and "hw_codes w2 (code_key code) = hw_codes w1 (code_key code)"
    and "on_auth_exchange E2 (JStr code) w2 = (Inr d, w3)"
  shows "d = GeofenceBlocked \<or> d = PasswordForm user
    \<or> (\<exists>g tok. resolve_spec E (hw_db w) (JStr url) = Some (Some g) \<and> d = GroupPackage g tok \<and> mint (he_wire E2) (hw_db w2) user g (he_iat E2) = Inr tok)"
proof -
  obtain r t where r: "resolve_spec E (hw_db w) (JStr url) = Some r"
    and c: "hw_codes w1 (code_key code) = Some (code_payload user (JStr url) (he_ip E) r, t)"
    using minted_code_stamped [OF assms(1,3,11)] by blast
  obtain g where g: "r = Some g" "map_of (ad_groups (hw_db w)) g \<noteq> None"
    using gated_decision [OF assms(2,4-9) r] by blast
  with assms(10) have "g \<noteq> 0" by auto
  with stamped_exchange [of w2 code user "JStr url" "he_ip E" g t E2 d w3] c g r assms(12,13) show ?thesis by auto
qed

section \<open>Admitted destinations\<close>

lemma matches_allowlist_true:
  assumes "matches_allowlist A url entries src wild req tenant w = (Inr True, w')"
  shows "matches_entries (al_ip6 A) wild entries url"
  using assms by (auto simp: matches_allowlist_def Let_def ret_def seqs_def bind_def split: if_splits prod.splits sum.splits)

lemma static_list_reaches:
  assumes "matches_static_list A C (JStr url) w = (Inr True, w')" "hc_allowed C = Some v" "no_controls url"
  shows "\<exists>e \<in> set (setting_list A v). \<exists>d. split_url (al_ip6 A) True e = Some d \<and> reaches_entry d url"
proof -
  have "matches_allowlist A (JStr url) (setting_list A v) ''AUTH_HANDOFF_ALLOWED_URLS'' True None False w = (Inr True, w')"
    using assms(1,2) by (auto simp: matches_static_list_def ret_def split: if_splits)
  from admitted_address_stays [OF matches_allowlist_true [OF this] assms(3)] show ?thesis .
qed

lemma handoff_admits:
  assumes "on_auth_handoff E user (JStr url) w = (Inr code, w')" "is_enforced (he_conf E)" "hc_resolver_path (he_conf E) = []"
  shows "\<exists>s s'. matches_static_list (he_allow E) (he_conf E) (JStr url) s = (Inr True, s')"
proof -
  obtain w1 w2 where "admit_destination E (JStr url) w1 = (Inr (), w2)"
    using assms(1) by (auto simp: on_auth_handoff_def bind_def seqs_def not_permitted_def throw_def split: prod.splits sum.splits if_splits)
  then obtain s s' where "is_allowed_destination (he_allow E) (he_conf E) (JStr url) s = (Inr True, s')"
    using assms(2)
    by (auto simp: admit_destination_def bind_def seqs_def on_sup_def not_permitted_def throw_def ret_def split: prod.splits sum.splits if_splits)
  then show ?thesis using assms(3) by (auto simp: is_allowed_destination_def get_resolver_def ret_def split: if_splits)
qed


text \<open>The same for the landing address of social login, whose entries have no wildcards\<close>

lemma landing_stays_on_list:
  assumes "validate_landing A setting grp (JStr url) w = (Inr (), w')" "no_controls url"
  shows "\<exists>own s s'. group_entries A grp s = (Inr own, s')
    \<and> (\<exists>e \<in> set (setting_list A setting) \<union> set own. \<exists>d. split_url (al_ip6 A) False e = Some d \<and> reaches_entry d url)"
proof -
  obtain own w1 where own: "group_entries A grp w = (Inr own, w1)"
    using assms(1) by (auto simp: validate_landing_def Let_def bind_def split: prod.splits sum.splits)
  have "\<exists>es src tenant s s'. set es \<subseteq> set (setting_list A setting) \<union> set own
      \<and> matches_allowlist A (JStr url) es src False (al_request A) tenant s = (Inr True, s')"
    using assms(1) own
    by (fastforce simp: validate_landing_def Let_def bind_def seqs_def throw_def ret_def split: prod.splits sum.splits if_splits option.splits)
  then obtain es where "set es \<subseteq> set (setting_list A setting) \<union> set own" "matches_entries (al_ip6 A) False es (JStr url)"
    using matches_allowlist_true by blast
  with admitted_address_stays [OF this(2) assms(2)] own show ?thesis by blast
qed

section \<open>Examples\<close>

text \<open>A deployment that hands sessions to the tenants under \<open>shops.example.com\<close>, of which one host is gated to group 1\<close>

definition shop_allow :: allow_env where
  "shop_allow = \<lparr>al_inc = sample_env 0, al_server = ''srv'', al_faults = \<lparr>rf_set = True, rf_incr = True, rf_expire = True\<rparr>,
     al_text = (\<lambda>c k vs. c), al_budget_text = (\<lambda>k. k), al_type = (\<lambda>v. ''value''), al_ip6 = (\<lambda>s. False), al_json = (\<lambda>s. None), al_request = None\<rparr>"

definition shop_conf :: "json option \<Rightarrow> handoff_conf" where
  "shop_conf allowed = \<lparr>hc_resolver_path = [], hc_resolver = (\<lambda>p. None), hc_allowed = allowed\<rparr>"

definition shop_env :: "string \<Rightarrow> json option \<Rightarrow> bool \<Rightarrow> handoff_env" where
  "shop_env mode allowed pw = \<lparr>he_allow = shop_allow, he_conf = shop_conf allowed, he_mode = mode,
     he_hosts = [(''*.blue.shops.example.com'', JInt 1)], he_resolver_path = [], he_resolver = (\<lambda>p. None), he_host_header = ''auth.example.com'',
     he_ip = ''10.0.0.1'', he_uuid = replicate 32 CHR ''a'', he_ttl = 60, he_iat = 100, he_wire = ex_wire, he_str = (\<lambda>v. ''value''),
     he_blocked = (\<lambda>u. False), he_password_change = (\<lambda>u. pw)\<rparr>"

definition shop_list :: json where
  "shop_list = JList [JStr ''https://*.shops.example.com'', JStr ''https://*.shops.example.com.'']"

definition shop_world :: handoff_world where
  "shop_world = \<lparr>hw_sup = \<lparr>sw_flags = (\<lambda>k. None), sw_counts = (\<lambda>k. None), sw_warned = False, sw_inc = sample_world []\<rparr>, hw_inert = False,
     hw_cache = [], hw_codes = (\<lambda>k. None), hw_db = ex_db, hw_logins = []\<rparr>"

definition shop_url :: string where
  "shop_url = '' HTTPS://Blue.shops.example.com./welcome''"

definition shop_minted :: "string res \<times> handoff_world" where
  "shop_minted = on_auth_handoff (shop_env ''enforce'' (Some shop_list) False) 8 (JStr shop_url) shop_world"

lemma shop_facts:
  "mode_of (shop_env ''enforce'' a p) = ''enforce''" "is_own_host (shop_env ''enforce'' a p) (JStr shop_url) = False"
  "dest_host (\<lambda>s. False) (JStr shop_url) = Some ''blue.shops.example.com''" "truthy (JStr shop_url)"
  "table_of (\<lambda>s. False) [(''*.blue.shops.example.com'', JInt 1)] [] = Some [(''blue.shops.example.com'', JInt 1)]"
  "can_mint ex_db 8 1" "is_effectively_active (ad_groups ex_db) 8 1"
  unfolding shop_env_def by code_simp+

lemma shop_admitted:
  "split_url (\<lambda>s. False) False (JStr shop_url) \<noteq> None"
  "unusable_entries (\<lambda>s. False) True [JStr ''https://*.shops.example.com'', JStr ''https://*.shops.example.com.''] = []"
  "matches_entries (\<lambda>s. False) True [JStr ''https://*.shops.example.com'', JStr ''https://*.shops.example.com.''] (JStr shop_url)"
  by code_simp+

lemma shop_fields:
  "he_ip6 (shop_env m a p) = (\<lambda>s. False)" "he_hosts (shop_env m a p) = [(''*.blue.shops.example.com'', JInt 1)]"
  "he_resolver_path (shop_env m a p) = []" "he_conf (shop_env m a p) = shop_conf a" "he_allow (shop_env m a p) = shop_allow"
  "he_ttl (shop_env m a p) = 60" "he_uuid (shop_env m a p) = replicate 32 CHR ''a''" "he_ip (shop_env m a p) = ''10.0.0.1''"
  "he_blocked (shop_env m a p) = (\<lambda>u. False)" "he_password_change (shop_env m a p) = (\<lambda>u. p)" "he_wire (shop_env m a p) = ex_wire"
  "he_iat (shop_env m a p) = 100" "he_now (shop_env m a p) = 0" "al_ip6 shop_allow = (\<lambda>s. False)"
  by (simp_all add: shop_env_def he_ip6_def he_now_def shop_allow_def sample_env_def)

lemma shop_entry: "entry_host (\<lambda>s. False) ''*.blue.shops.example.com'' = Some (''blue.shops.example.com'', False)"
  by code_simp

lemma shop_compiled:
  "hw_cache w = [] \<Longrightarrow> compiled (shop_env m a p) w = (Inr (Some [(''blue.shops.example.com'', JInt 1)]),
     w\<lparr>hw_cache := [([(''*.blue.shops.example.com'', JInt 1)], Some [(''blue.shops.example.com'', JInt 1)])]\<rparr>)"
  by (simp add: compiled_def bind_def hget_def shop_fields seqs_def hmodify_def ret_def shop_entry)

lemma shop_resolve:
  "hw_cache w = [] \<Longrightarrow> hw_db w = ex_db \<Longrightarrow> fst (resolve_group (shop_env m a p) (JStr shop_url) w) = Inr (Some (Some 1))
    \<and> hw_db (snd (resolve_group (shop_env m a p) (JStr shop_url) w)) = ex_db"
proof -
  have "coerce_group ex_db (RefPk 1) = Some (Some 1)" "match_host [(''blue.shops.example.com'', JInt 1)] ''blue.shops.example.com'' = Some (JInt 1)"
    by code_simp+
  then show "hw_cache w = [] \<Longrightarrow> hw_db w = ex_db \<Longrightarrow> fst (resolve_group (shop_env m a p) (JStr shop_url) w) = Inr (Some (Some 1))
    \<and> hw_db (snd (resolve_group (shop_env m a p) (JStr shop_url) w)) = ex_db"
    by (simp add: resolve_group_def shop_facts(3,4) shop_fields bind_def shop_compiled hget_def del: truthy.simps coerce_group.simps)
qed

lemma shop_gate:
  assumes "hw_cache w = []" "hw_db w = ex_db"
  shows "fst (gate_handoff_destination (shop_env ''enforce'' a p) 8 (JStr shop_url) w) = Inr (Some 1)"
proof -
  have mode: "get_mode (shop_env ''enforce'' a p) w = (Inr ''enforce'', w)"
    by (simp add: get_mode_def shop_facts(1) bind_def hget_def ret_def)
  show ?thesis
    using shop_resolve [OF assms, of "''enforce''" a p] shop_facts(6)
    by (auto simp: gate_handoff_destination_def bind_def mode Let_def shop_facts(2) deliver_to_def hget_def ret_def
        split: prod.splits sum.splits option.splits)
qed

lemma shop_allowed: "is_allowed_destination shop_allow (shop_conf (Some shop_list)) (JStr shop_url) s = (Inr True, s)"
proof -
  have "shop_url \<noteq> []" by (simp add: shop_url_def)
  then show ?thesis
    using shop_admitted
    by (simp add: is_allowed_destination_def get_resolver_def shop_conf_def matches_static_list_def shop_list_def matches_allowlist_def
        shop_fields Let_def ret_def)
qed

lemma shop_mint: "fst shop_minted = Inr (replicate 32 CHR ''a'')"
proof -
  let ?E = "shop_env ''enforce'' (Some shop_list) False"
  have "is_enforced (shop_conf (Some shop_list))" by (simp add: is_enforced_def shop_conf_def shop_list_def)
  moreover from this have "admit_destination ?E (JStr shop_url) w = (Inr (), w)" for w
    using shop_facts(4) by (simp add: admit_destination_def shop_fields bind_def on_sup_def shop_allowed ret_def del: truthy.simps)
  moreover have "hw_cache shop_world = []" "hw_db shop_world = ex_db" by (simp_all add: shop_world_def)
  note shop_gate [OF this, of "Some shop_list" False]
  ultimately show ?thesis
    by (auto simp: shop_minted_def on_auth_handoff_def prerequisite_ok_def get_mode_def shop_facts(1) shop_fields bind_def seqs_def hget_def ret_def
        create_handoff_code_def hmodify_def split: prod.splits sum.splits)
qed

lemma shop_stamped:
  "hw_db (snd shop_minted) = ex_db"
  "\<exists>t. hw_codes (snd shop_minted) (code_key (replicate 32 CHR ''a'')) = Some (code_payload 8 (JStr shop_url) ''10.0.0.1'' (Some 1), of_int t) \<and> 0 < t"
proof -
  let ?E = "shop_env ''enforce'' (Some shop_list) False"
  have run: "on_auth_handoff ?E 8 (JStr shop_url) shop_world = (Inr (replicate 32 CHR ''a''), snd shop_minted)"
    using shop_mint unfolding shop_minted_def by (metis prod.collapse)
  have ok: "cache_ok (he_ip6 ?E) shop_world" by (simp add: cache_ok_def shop_world_def)
  have db: "hw_db shop_world = ex_db" by (simp add: shop_world_def)
  have "match_host [(''blue.shops.example.com'', JInt 1)] ''blue.shops.example.com'' = Some (JInt 1)" "coerce_group ex_db (RefPk 1) = Some (Some 1)"
    by code_simp+
  then have "resolve_spec ?E ex_db (JStr shop_url) = Some (Some 1)"
    by (simp add: resolve_spec_def shop_facts(3,4) shop_entry shop_fields del: truthy.simps coerce_group.simps)
  with minted_code_stamped [OF shop_facts(1) ok run] show "hw_db (snd shop_minted) = ex_db"
    "\<exists>t. hw_codes (snd shop_minted) (code_key (replicate 32 CHR ''a'')) = Some (code_payload 8 (JStr shop_url) ''10.0.0.1'' (Some 1), of_int t) \<and> 0 < t"
    by (auto simp: shop_fields db intro!: exI [of _ 60])
qed

text \<open>
  The gated code, exchanged after the mode has been turned off: a token for the group. When an administrator has
  issued a temporary password meanwhile, the answer is the form that sets a password and logs in with a
  pair of platform tokens.
\<close>

lemma shop_exchange:
  "fst (on_auth_exchange (shop_env ''off'' None p) (JStr (replicate 32 CHR ''a'')) (snd shop_minted))
    = Inr (if p then PasswordForm 8 else GroupPackage 1 ex_token)"
proof -
  obtain t where t: "hw_codes (snd shop_minted) (code_key (replicate 32 CHR ''a'')) = Some (code_payload 8 (JStr shop_url) ''10.0.0.1'' (Some 1), of_int t)" "0 < t"
    using shop_stamped(2) by blast
  have wf: "well_formed_code (JStr (replicate 32 CHR ''a''))" by code_simp
  have p: "jdict_get (code_payload 8 (JStr shop_url) ''10.0.0.1'' (Some 1)) ''uid'' = Some (JInt 8)"
    "jdict_get (code_payload 8 (JStr shop_url) ''10.0.0.1'' (Some 1)) ''gid'' = Some (JInt 1)"
    by (simp_all add: code_payload_def)
  show ?thesis
    using t wf shop_stamped(1) ex_mint
    by (auto simp: on_auth_exchange_def consume_handoff_code_def exchange_payload_def p honor_stamp_def group_token_login_def
        bind_def hget_def seqs_def hmodify_def ret_def throw_def shop_fields ex_user_def simp del: well_formed_code.simps)
qed

theorem gated_code_never_platform_witness:
  "\<exists>d. fst (on_auth_exchange (shop_env ''off'' None False) (JStr (replicate 32 CHR ''a'')) (snd shop_minted)) = Inr d
    \<and> (d = GeofenceBlocked \<or> d = PasswordForm 8
       \<or> (\<exists>g tok. resolve_spec (shop_env ''enforce'' (Some shop_list) False) ex_db (JStr shop_url) = Some (Some g) \<and> d = GroupPackage g tok
            \<and> mint ex_wire ex_db 8 g 100 = Inr tok))"
proof -
  let ?E = "shop_env ''enforce'' (Some shop_list) False" and ?F = "shop_env ''off'' None False"
  have run: "on_auth_handoff ?E 8 (JStr shop_url) shop_world = (Inr (replicate 32 CHR ''a''), snd shop_minted)"
    using shop_mint unfolding shop_minted_def by (metis prod.collapse)
  have ok: "cache_ok (he_ip6 ?E) shop_world" by (simp add: cache_ok_def shop_world_def)
  have entry: "(''*.blue.shops.example.com'', JInt 1) \<in> set (he_hosts ?E)"
    "entry_host (he_ip6 ?E) ''*.blue.shops.example.com'' = Some (''blue.shops.example.com'', False)" by (simp_all add: shop_fields shop_entry)
  have url: "no_controls shop_url" "browser_authority shop_url = (''Blue.shops.example.com.'', ''/welcome'')"
    "browser_host ''Blue.shops.example.com.'' = Some ''blue.shops.example.com.''"
    "host_under ''blue.shops.example.com'' (drop_dot ''blue.shops.example.com.'')" by code_simp+
  have root: "map_of (ad_groups (hw_db shop_world)) 0 = None" by (simp add: shop_world_def ex_db_def ex_groups_def)
  obtain d w3 where x: "on_auth_exchange ?F (JStr (replicate 32 CHR ''a'')) (snd shop_minted) = (Inr d, w3)"
    using shop_exchange [of False] by (metis prod.collapse)
  from gated_code_never_platform [OF shop_facts(1) shop_fields(3) ok entry url root run refl x] x show ?thesis
    by (auto simp: shop_fields shop_stamped(1) shop_world_def)
qed


text \<open>A destination that is no text makes the notice of an unlisted destination raise, although nothing is enforced.\<close>

lemma notice_raises_on_number:
  "fst (admit_destination (shop_env m None p) (JInt 5) w) = Inl (AttributeError ''decode'')"
  by (simp add: admit_destination_def is_enforced_def shop_fields shop_conf_def bind_def on_sup_def is_allowed_destination_def
      report_unlisted_destination_def throw_def ret_def)

end
