(* ===== verification/Spec2Isabelle.thy ===== *)
theory Spec2Isabelle
  imports Job_Liveness Scheduled_Tasks Cron Rate_Limits Metrics Rest_Save_Laws Rest_Security Account_Token_Spec Job_Manager_Laws Geofence_Laws OAuth_Laws Incident_Reporter_Laws Handoff_Laws
begin

text \<open>
  Verification development of django-mojo, a Django framework of REST models, accounts, background jobs,
  metrics and incidents. It models, from the sources under src/mojo, the parts that carry the framework's own
  logic, and proves what makes each of them correct. Paths below are relative to src/mojo.

  Conventions. Code with effects is a function from a state to a result and a new state; the result is a sum of
  a Python exception and a value, and an exception keeps the effects made before it (Prelude: \<open>ret\<close>,
  \<open>bind\<close>, \<open>catch\<close>). JSON is the datatype json, in which a dict is an association list in
  insertion order. Instants are rationals (seconds since 1970), floats are exact rationals or their texts.
  Strings are byte strings; the functions of Python's library that the code calls are in Py_Strings, Py_Datetime
  (calendar) and Py_Url (urlsplit, ASCII). Predicates that an action keeps are carried through a program by the rules
  keeps_intro of the Prelude. What is no code of the repository is a parameter: the calls on Redis and the ORM,
  digests, signatures, random values, geolocation, the test of a network, parsers of dates, floats and regular
  expressions, the merge of two dicts. Where properties depend on such code, its documented behaviour is a locale or a
  hypothesis, and a witness instantiates it.

  Background jobs (apps/jobs). Publishers write a row and push its identifier to the queue or the schedule of its
  channel; scheduler daemons move due entries from schedules to queues; engines pop identifiers, claim the row with a
  compare-and-set, run the function and complete, retry or fail the job; a reaper takes back jobs of dead engines;
  operators cancel, retry, pause, clear and rebuild.
  Job_Keys is keys.py, Job_Model models/job.py, Job_Publish __init__.py, Job_Engine job_engine.py and
  execution_context.py, Job_Scheduler scheduler.py, Job_Actions services/job_actions.py, Job_Manager manager.py with
  rest/control.py, Scheduled_Tasks models/scheduled_task.py with the dispatch of cronjobs.py, Cron helpers/cron.py.
  Job_Services has the outside calls as a record and the locale services: a call does what it documents or
  raises, and one that raises may have taken effect. The locale is interpreted on documented services, on an outage
  of Redis and on failing metrics.
  Job_Safety shows the invariant of the job table for every operation under any services, also for a failure handler or
  a reaper that works on a row it read earlier; Job_System interleaves the operations as a step relation with crashes,
  duplicated deliveries and changing Redis contents, in which an engine reads its row in one step and claims it in a
  later one (\<open>sys_step\<close>), and adds handlers and reapers with stale rows (\<open>stale_step\<close>). Job_Guarantees derives by rule
  induction that attempts are exclusive, over both kinds of steps, and the bound on starts, over the first. Job_Behaviour and Job_Publishing give
  the effect of each branch. Job_Delivery and Job_Manager_Laws show that no pending job is lost under documented
  services; Job_Promotion that the promotion loop ends and moves exactly what is due; Job_Liveness that a due job
  reaches a worker. The loop of the scheduler has a fuel argument: each turn takes at least one entry off the set or
  stops, so one more than the size of the set is enough, whichever calls fail (proved in Job_Promotion);
  the move of an old queue has one too, and the length of the list is enough.
  The streams of the earlier transport are kept as lists of job identifiers, as nothing reads them.
  The steps of \<open>managed_step\<close> are whole operations: popping an entry and putting it into the in-flight set, or
  taking it off a schedule and pushing it to the queue, are two calls on Redis each, and a crash between them loses the
  entry; the operations of manager and job actions that leave rows without an entry are no steps of it.

  Metrics and limits. Metrics is apps/metrics/utils.py and redis_metrics.py: time buckets, keys, recording, ranges
  and deletion. Rate_Limits is decorators/limits.py: fixed and sliding windows, the decorators and the throttle.

  Permissions and the REST layer. Group_Tree is the tree of tenants (account/services/group_hierarchy.py,
  models/group.py): parent changes keep it rooted, and the walks agree with the chains of parents. Permissions is
  helpers/perms.py with the permission methods of users, members, API keys and groups; the locale credential in
  Credentials is the contract of a confined credential, interpreted for API keys and for group tokens, and the laws
  of the gate rest on it. Rest_Permissions is the permission gate of models/rest.py with its handlers, Rest_Laws and
  Rest_Security what it guarantees; Rest_Writes is saving and batches of the same file, Rest_Write_Laws and
  Rest_Save_Laws the guard of the protected subtree, the attachment of foreign keys, and that a batch writes only what
  the handlers of single rows would have let its caller write. The laws on confined credentials ask for permission
  lists that are neither empty nor open to every authenticated request, and for no hooks of the model.
  The serialization of a row and its write are parameters; the gate in front of them is modelled.
  Limits of the walks: 8 ancestors for activeness and 32 for a parent change, as in the code; deep_group_dark records
  the gap between them.

  Credentials. Credential_Tokens is API keys and group tokens (account/models/api_key.py,
  services/group_token.py) with the middleware of middleware/auth.py; Auth_Gates the gates of decorators/auth.py and
  the group of a request in decorators/http.py; Auth_Laws shows that a token is accepted only if it could be issued
  anew, that a bump of the epoch revokes every token issued before it, and follows a token from the request to the row. Account_Tokens is
  account/utils/tokens.py (single-use tokens and codes); Account_Token_Laws its behaviour, and Account_Token_Spec the
  refinement of an abstract ticket office by the generator and the verifier, over whole runs. Rows have an auth key;
  the times of last use and audit lines are left out.

  Geofence (account/services/geofence). Geofence_Rules is dsl.py: the validator, the matcher and the meaning of the rule
  language; a validated rule never fails and the matcher equals its meaning. Geofence_Engine is engine.py, cache.py,
  evidence.py, enforcement.py and decorators/geofence.py; Geofence_Laws shows that an answer always comes, that system
  rules are a floor, and, over a step relation of requests, edits and the passing of time, that cached decisions follow
  the present configuration. A check and an edit with its invalidation are atomic steps there.

  Authorization server (account/services/oauth_server, rest/oauth_server.py). OAuth_Clients is resources.py and
  clients.py; OAuth_Server is tokens.py, codes.py, consent.py and the endpoints. OAuth_Laws has a relation of runs in
  which requests interleave with an exchange that is interrupted between reading and burning a code, and shows that
  every accepted access token was consented to, that codes and families of refresh secrets are used once, and that
  revocations are final.

  Redirects and the handoff of sessions. Redirect_Allowlist is account/services/redirect_allowlist.py with the
  tenants' part of services/handoff_group.py: entries and their matching, the sources of lists, and the notices.
  Redirect_Laws reads an address as a browser does (the URL standard: controls, backslashes, dot segments) and shows that
  an admitted one leads to a place an entry names. Handoff is services/auth_handoff.py, the gates of
  services/handoff_group.py and the endpoints of rest/user.py and rest/oauth.py that mint and exchange codes; Handoff_Laws
  shows that a code stays on the list and that the code of a gated host is never exchanged for platform tokens.

  Incidents (apps/incident). Incident_Rules is the matching of models/rule.py and the choice of a rule set in
  models/event.py; Incident_Events is bundling, thresholds, triggers and links of models/event.py, the handler jobs of
  models/rule.py, and merging and deletion of models/incident.py; Incident_Reporter is reporter.py with the masking of
  secrets of helpers/logit.py. A publish is one step; its transaction locks the incident it finds, but no row when it finds none, so two
  first reports at the same time, which can open two incidents, are not covered.
  Incident_Rule_Laws shows which rule set an event goes to. Incident_Laws gives the effect of a publish on the rows
  (bundle_into, bundle_new), follows a burst of reports through the thresholds by a counter that runs along
  (in_step), and shows that an incident says of its events what is so, and what a merge moves. Incident_Reporter_Laws
  shows that sensitive values never reach the tables through the reporter, tuples inside arguments aside, and that suppressed reports keep to their window and budget when Redis
  fails. Events and incidents draw their numbers from one counter.

  Not modelled: serializers and the query parameters of lists (their meaning is that of the ORM's query language);
  login, sessions, passkeys and social login (cryptographic libraries and identity providers); assistant, AWS, DNS,
  edge, phone, file storage and deployment (calls to external services, processes and files); chat, realtime, documents,
  short links and the bouncer; incident handlers, parsers and the external board; admin portals, command lines, the test
  harness and tests; logging and the plumbing of requests. Within the modelled parts: threads appear as interleaved
  steps and not as code, the text of messages is shortened where no code reads it, metrics and log lines are left out
  where nothing depends on them, and the page of a consent is the data it shows.

  Where the code does not do what it means to, the theorem that shows it is part of the development, among them
  group_admin_rewinds_epoch, global_gate_reads_member_grants, batch_graph_not_checked_per_row, weekday_is_utc,
  task_limit_not_applied, requeue_leaves_queues, quiet_window_restarts, merge_mixes_groups,
  contains_on_number_raises, tuples_keep_secrets, control_character_escapes, shop_exchange and notice_raises_on_number.
\<close>

end
